(* ===== verification/Prelude.thy ===== *)
theory Prelude
  imports Main "HOL-Library.Char_ord" "HOL-Library.List_Lexorder" "HOL-Library.AList"
    "HOL-Library.Code_Target_Numeral"
begin

text \<open>
  What every component shares. A Go string is a byte string, so it is an Isabelle
  \<open>string\<close> (a list of 8-bit characters) and \<open>length\<close> is Go's \<open>len\<close>. The first
  part models the functions of Go's \<open>strings\<close> and \<open>strconv\<close> packages that the
  gateway calls; the second part holds Go maps as association lists with their laws.
  \<open>strings.TrimSpace\<close> is modelled on UTF-8 byte sequences for the whole of Unicode's
  white space. \<open>strings.ToLower\<close>, \<open>ToUpper\<close> and \<open>EqualFold\<close> are modelled on the ASCII
  letters only; other bytes stay as they are.
\<close>

named_theorems gostr "facts about Go strings that unfold the operations of this theory"

type_synonym bytes = string

section \<open>Prefixes and suffixes\<close>

text \<open>\<open>strings.HasPrefix\<close>, \<open>HasSuffix\<close>, \<open>TrimPrefix\<close> and \<open>TrimSuffix\<close>.\<close>

fun has_prefix :: "string \<Rightarrow> string \<Rightarrow> bool" where
  "has_prefix s [] = True"
| "has_prefix [] (p # ps) = False"
| "has_prefix (c # cs) (p # ps) = (c = p \<and> has_prefix cs ps)"

definition has_suffix :: "string \<Rightarrow> string \<Rightarrow> bool" where
  "has_suffix s p = has_prefix (rev s) (rev p)"

definition trim_prefix :: "string \<Rightarrow> string \<Rightarrow> string" where
  "trim_prefix s p = (if has_prefix s p then drop (length p) s else s)"

definition trim_suffix :: "string \<Rightarrow> string \<Rightarrow> string" where
  "trim_suffix s p = (if has_suffix s p then take (length s - length p) s else s)"

lemma has_prefix_iff: "has_prefix s p \<longleftrightarrow> (\<exists>t. s = p @ t)"
  by (induction s p rule: has_prefix.induct) auto

lemma has_prefix_append [simp]: "has_prefix (p @ t) p"
  by (auto simp: has_prefix_iff)

lemma has_prefix_refl [simp]: "has_prefix p p"
  by (induction p) auto

lemma has_prefixE:
  assumes "has_prefix s p"
  obtains t where "s = p @ t"
  using assms by (auto simp: has_prefix_iff)

lemma has_prefix_length: "has_prefix s p \<Longrightarrow> length p \<le> length s"
  by (auto simp: has_prefix_iff)

lemma has_suffix_iff: "has_suffix s p \<longleftrightarrow> (\<exists>t. s = t @ p)"
proof
  assume "has_suffix s p"
  then obtain u where "rev s = rev p @ u"
    unfolding has_suffix_def by (rule has_prefixE)
  then have "s = rev u @ p"
    by (metis rev_append rev_rev_ident)
  then show "\<exists>t. s = t @ p" ..
qed (auto simp: has_suffix_def)

lemma has_suffix_append [simp]: "has_suffix (t @ p) p"
  by (auto simp: has_suffix_iff)

lemma trim_prefix_append [simp]: "trim_prefix (p @ t) p = t"
  by (simp add: trim_prefix_def)

lemma trim_suffix_append [simp]: "trim_suffix (t @ p) p = t"
  by (simp add: trim_suffix_def)

lemma trim_prefix_cases:
  "trim_prefix s p = s \<or> s = p @ trim_prefix s p"
  by (auto simp: trim_prefix_def has_prefix_iff)

section \<open>White space\<close>

text \<open>
  The UTF-8 encodings of the code points Go's \<open>unicode.IsSpace\<close> accepts. None is a
  proper suffix or prefix of a longer encoded character, so cutting them off either
  end of a byte string is what \<open>strings.TrimSpace\<close> does, also on invalid UTF-8.
\<close>

definition white_seqs :: "string list" where
  "white_seqs =
    [[CHR 0x20], [CHR 0x09], [CHR 0x0A], [CHR 0x0B], [CHR 0x0C], [CHR 0x0D],
     [CHR 0xC2, CHR 0x85], [CHR 0xC2, CHR 0xA0], [CHR 0xE1, CHR 0x9A, CHR 0x80],
     [CHR 0xE2, CHR 0x80, CHR 0x80], [CHR 0xE2, CHR 0x80, CHR 0x81],
     [CHR 0xE2, CHR 0x80, CHR 0x82], [CHR 0xE2, CHR 0x80, CHR 0x83],
     [CHR 0xE2, CHR 0x80, CHR 0x84], [CHR 0xE2, CHR 0x80, CHR 0x85],
     [CHR 0xE2, CHR 0x80, CHR 0x86], [CHR 0xE2, CHR 0x80, CHR 0x87],
     [CHR 0xE2, CHR 0x80, CHR 0x88], [CHR 0xE2, CHR 0x80, CHR 0x89],
     [CHR 0xE2, CHR 0x80, CHR 0x8A], [CHR 0xE2, CHR 0x80, CHR 0xA8],
     [CHR 0xE2, CHR 0x80, CHR 0xA9], [CHR 0xE2, CHR 0x80, CHR 0xAF],
     [CHR 0xE2, CHR 0x81, CHR 0x9F], [CHR 0xE3, CHR 0x80, CHR 0x80]]"

text \<open>\<open>strip qs s\<close> cuts leading members of \<open>qs\<close> off \<open>s\<close> until none is left.\<close>

definition lead_seq :: "string list \<Rightarrow> string \<Rightarrow> string option" where
  "lead_seq qs s = find (\<lambda>q. q \<noteq> [] \<and> has_prefix s q) qs"

lemma lead_seq_SomeD: "lead_seq qs s = Some q \<Longrightarrow> q \<in> set qs \<and> q \<noteq> [] \<and> has_prefix s q"
  by (auto simp: lead_seq_def find_Some_iff)

lemma lead_seq_None_iff: "lead_seq qs s = None \<longleftrightarrow> (\<forall>q \<in> set qs. q \<noteq> [] \<longrightarrow> \<not> has_prefix s q)"
  by (auto simp: lead_seq_def find_None_iff)

function strip :: "string list \<Rightarrow> string \<Rightarrow> string" where
  "strip qs s = (case lead_seq qs s of None \<Rightarrow> s | Some q \<Rightarrow> strip qs (drop (length q) s))"
  by pat_completeness auto
termination
  by (relation "measure (\<lambda>(qs, s). length s)")
    (auto dest!: lead_seq_SomeD simp: has_prefix_iff)

declare strip.simps [simp del]

definition trim_left_space :: "string \<Rightarrow> string" where
  "trim_left_space s = strip white_seqs s"

definition trim_right_space :: "string \<Rightarrow> string" where
  "trim_right_space s = rev (strip (map rev white_seqs) (rev s))"

definition trim_space :: "string \<Rightarrow> string" where
  "trim_space s = trim_right_space (trim_left_space s)"

lemma strip_suffix: "\<exists>t. s = t @ strip qs s"
proof (induction qs s rule: strip.induct)
  case (1 qs s)
  show ?case
  proof (cases "lead_seq qs s")
    case None
    then show ?thesis by (simp add: strip.simps[of qs s])
  next
    case (Some q)
    then obtain t where "drop (length q) s = t @ strip qs (drop (length q) s)"
      using "1.IH" by blast
    then have "s = (take (length q) s @ t) @ strip qs (drop (length q) s)"
      by (metis append_assoc append_take_drop_id)
    then have "\<exists>u. s = u @ strip qs (drop (length q) s)" by blast
    then show ?thesis using Some by (simp add: strip.simps[of qs s])
  qed
qed

lemma strip_done: "lead_seq qs (strip qs s) = None"
proof (induction qs s rule: strip.induct)
  case (1 qs s)
  then show ?case
    by (cases "lead_seq qs s") (simp_all add: strip.simps[of qs s])
qed

lemma strip_id: "lead_seq qs s = None \<Longrightarrow> strip qs s = s"
  by (simp add: strip.simps)

lemma lead_seq_None_prefix: "lead_seq qs (s @ t) = None \<Longrightarrow> lead_seq qs s = None"
  by (auto simp: lead_seq_None_iff has_prefix_iff)

lemma strip_prefix_closed:
  "lead_seq qs s = None \<Longrightarrow> lead_seq qs (rev (strip qs' (rev s))) = None"
  using strip_suffix [of "rev s" qs'] lead_seq_None_prefix
  by (metis rev_append rev_swap)

lemma trim_space_idem [simp]: "trim_space (trim_space s) = trim_space s"
proof -
  let ?l = "strip white_seqs s"
  have left: "lead_seq white_seqs (trim_space s) = None"
    unfolding trim_space_def trim_left_space_def trim_right_space_def
    by (rule strip_prefix_closed) (rule strip_done)
  have "lead_seq (map rev white_seqs) (rev (trim_space s)) = None"
    by (simp add: trim_space_def trim_right_space_def strip_done)
  with left show ?thesis
    by (simp add: trim_space_def [of "trim_space s"] trim_left_space_def trim_right_space_def strip_id)
qed

lemma trim_space_sublist: "\<exists>t u. s = t @ trim_space s @ u"
proof -
  obtain t where t: "s = t @ trim_left_space s"
    using strip_suffix unfolding trim_left_space_def by blast
  obtain u where "rev (trim_left_space s) = u @ strip (map rev white_seqs) (rev (trim_left_space s))"
    using strip_suffix by blast
  then have "trim_left_space s = trim_space s @ rev u"
    unfolding trim_space_def trim_right_space_def by (metis rev_append rev_rev_ident)
  with t show ?thesis by metis
qed

lemma length_trim_space: "length (trim_space s) \<le> length s"
  using trim_space_sublist [of s] by (metis length_append le_add1 le_add2 le_trans)

lemma set_trim_space: "set (trim_space s) \<subseteq> set s"
  using trim_space_sublist [of s] by (metis set_append Un_upper1 Un_upper2 subset_trans)

lemma trim_space_Nil [simp]: "trim_space [] = []"
  using length_trim_space [of "[]"] by simp

text \<open>A string whose ends are printable ASCII has nothing to trim.\<close>

definition graphic :: "char \<Rightarrow> bool" where
  "graphic c = (0x20 < (of_char c :: nat) \<and> (of_char c :: nat) < 0x7F)"

lemma white_seqs_not_graphic:
  "q \<in> set white_seqs \<Longrightarrow> q \<noteq> [] \<and> \<not> graphic (hd q) \<and> \<not> graphic (last q)"
  by (auto simp: white_seqs_def graphic_def)

lemma lead_seq_graphic:
  assumes "s = [] \<or> graphic (hd s)" and "\<And>q. q \<in> set qs \<Longrightarrow> q \<noteq> [] \<and> \<not> graphic (hd q)"
  shows "lead_seq qs s = None"
  unfolding lead_seq_None_iff
proof (intro ballI impI notI)
  fix q assume q: "q \<in> set qs" "q \<noteq> []" and "has_prefix s q"
  then obtain t where "s = q @ t" by (auto elim: has_prefixE)
  with q have "hd s = hd q" "s \<noteq> []" by auto
  with assms q(1) show False by auto
qed

lemma trim_space_id:
  assumes "s = [] \<or> graphic (hd s) \<and> graphic (last s)"
  shows "trim_space s = s"
proof -
  have "lead_seq white_seqs s = None"
    using assms white_seqs_not_graphic by (intro lead_seq_graphic) auto
  moreover have "lead_seq (map rev white_seqs) (rev s) = None"
    using assms white_seqs_not_graphic
    by (intro lead_seq_graphic) (auto simp: hd_rev)
  ultimately show ?thesis
    by (simp add: trim_space_def trim_left_space_def trim_right_space_def strip_id)
qed

text \<open>Trimmed texts are the ones neither end of which starts a white sequence; a printable
  separator between two of them keeps that.\<close>

lemma trim_space_done:
  "lead_seq white_seqs (trim_space s) = None"
  "lead_seq (map rev white_seqs) (rev (trim_space s)) = None"
  unfolding trim_space_def trim_left_space_def trim_right_space_def
  by (rule strip_prefix_closed, rule strip_done) (simp add: strip_done)

lemma trim_space_fixI:
  "lead_seq white_seqs s = None \<Longrightarrow> lead_seq (map rev white_seqs) (rev s) = None \<Longrightarrow> trim_space s = s"
  by (simp add: trim_space_def trim_left_space_def trim_right_space_def strip_id)

lemma white_seqs_no_graphic: "q \<in> set white_seqs \<Longrightarrow> c \<in> set q \<Longrightarrow> \<not> graphic c"
  by (auto simp: white_seqs_def graphic_def)

lemma lead_seq_sep:
  assumes "lead_seq qs s = None" and c: "\<And>q. q \<in> set qs \<Longrightarrow> c \<notin> set q"
  shows "lead_seq qs (s @ c # t) = None"
  unfolding lead_seq_None_iff
proof (intro ballI impI notI)
  fix q assume q: "q \<in> set qs" "q \<noteq> []" "has_prefix (s @ c # t) q"
  then obtain u where u: "s @ c # t = q @ u" by (auto elim: has_prefixE)
  have s: "\<not> has_prefix s q"
    using assms(1) q(1,2) by (auto simp: lead_seq_None_iff)
  from u consider v where "s = q @ v" | v where "q = s @ v" "v @ u = c # t"
    by (auto simp: append_eq_append_conv2)
  then show False
  proof cases
    case 1
    with s show False by simp
  next
    case 2
    with s have "v \<noteq> []" by (cases v) auto
    with 2 have "c \<in> set q" by (cases v) auto
    with c [OF q(1)] show False by simp
  qed
qed

lemma trim_space_sep:
  assumes "trim_space a = a" "trim_space b = b" "graphic c"
  shows "trim_space (a @ c # b) = a @ c # b"
proof (rule trim_space_fixI)
  show "lead_seq white_seqs (a @ c # b) = None"
    using trim_space_done(1) [of a] assms white_seqs_no_graphic by (intro lead_seq_sep) auto
  have "lead_seq (map rev white_seqs) (rev b @ c # rev a) = None"
    using trim_space_done(2) [of b] assms white_seqs_no_graphic by (intro lead_seq_sep) auto
  then show "lead_seq (map rev white_seqs) (rev (a @ c # b)) = None" by simp
qed

section \<open>Case, searching and splitting\<close>

abbreviation between :: "char \<Rightarrow> char \<Rightarrow> char \<Rightarrow> bool" where
  "between lo hi c \<equiv> lo \<le> c \<and> c \<le> hi"

definition lower_char :: "char \<Rightarrow> char" where
  "lower_char c = (if between (CHR ''A'') (CHR ''Z'') c then char_of (of_char c + 32 :: nat) else c)"

definition upper_char :: "char \<Rightarrow> char" where
  "upper_char c = (if between (CHR ''a'') (CHR ''z'') c then char_of (of_char c - 32 :: nat) else c)"

definition to_lower :: "string \<Rightarrow> string" where
  "to_lower s = map lower_char s"

definition to_upper :: "string \<Rightarrow> string" where
  "to_upper s = map upper_char s"

definition equal_fold :: "string \<Rightarrow> string \<Rightarrow> bool" where
  "equal_fold a b = (to_lower a = to_lower b)"

text \<open>\<open>strings.Contains\<close>.\<close>

fun contains :: "string \<Rightarrow> string \<Rightarrow> bool" where
  "contains [] p = (p = [])"
| "contains (c # cs) p = (has_prefix (c # cs) p \<or> contains cs p)"

lemma contains_iff: "contains s p \<longleftrightarrow> (\<exists>t u. s = t @ p @ u)"
proof (induction s)
  case (Cons c cs)
  show ?case
  proof
    assume "contains (c # cs) p"
    then consider "has_prefix (c # cs) p" | "contains cs p" by auto
    then show "\<exists>t u. c # cs = t @ p @ u"
    proof cases
      case 1
      then obtain u where "c # cs = p @ u" by (rule has_prefixE)
      then have "c # cs = [] @ p @ u" by simp
      then show ?thesis by blast
    next
      case 2
      with Cons obtain t u where "cs = t @ p @ u" by auto
      then have "c # cs = (c # t) @ p @ u" by simp
      then show ?thesis by blast
    qed
  next
    assume "\<exists>t u. c # cs = t @ p @ u"
    then obtain t u where tu: "c # cs = t @ p @ u" by blast
    show "contains (c # cs) p"
    proof (cases t)
      case Nil
      with tu have "has_prefix (c # cs) p" by (simp add: has_prefix_iff)
      then show ?thesis by simp
    next
      case (Cons d t')
      with tu have "cs = t' @ p @ u" by simp
      with Cons.IH show ?thesis by auto
    qed
  qed
qed auto

text \<open>\<open>strings.Cut\<close> at a one-byte separator: what stands before it and, if found, after it.\<close>

fun cut :: "string \<Rightarrow> char \<Rightarrow> string \<times> string option" where
  "cut [] c = ([], None)"
| "cut (d # ds) c = (if d = c then ([], Some ds) else (case cut ds c of (b, a) \<Rightarrow> (d # b, a)))"

lemma cut_Some: "cut s c = (b, Some a) \<Longrightarrow> s = b @ c # a \<and> c \<notin> set b"
  by (induction s c arbitrary: b rule: cut.induct) (auto split: if_splits prod.splits)

lemma cut_None: "cut s c = (b, None) \<Longrightarrow> s = b \<and> c \<notin> set s"
  by (induction s c arbitrary: b rule: cut.induct) (auto split: if_splits prod.splits)

lemma cut_append [simp]: "c \<notin> set b \<Longrightarrow> cut (b @ c # a) c = (b, Some a)"
  by (induction b) auto

lemma cut_notin [simp]: "c \<notin> set s \<Longrightarrow> cut s c = (s, None)"
  by (induction s) auto

text \<open>\<open>strings.Split\<close> at a one-byte separator; the result is never empty.\<close>

fun split_char :: "char \<Rightarrow> string \<Rightarrow> string list" where
  "split_char c [] = [[]]"
| "split_char c (d # ds) =
     (if d = c then [] # split_char c ds
      else (case split_char c ds of [] \<Rightarrow> [[d]] | w # ws \<Rightarrow> (d # w) # ws))"

text \<open>\<open>strings.Join\<close>.\<close>

fun join :: "string \<Rightarrow> string list \<Rightarrow> string" where
  "join sep [] = []"
| "join sep [s] = s"
| "join sep (s # ss) = s @ sep @ join sep ss"

lemma split_char_neq_Nil [simp]: "split_char c s \<noteq> []"
  by (induction s) (auto split: list.splits)

lemma split_char_notin: "\<forall>w \<in> set (split_char c s). c \<notin> set w"
  by (induction s) (auto split: list.splits)

lemma join_split_char: "join [c] (split_char c s) = s"
proof (induction s)
  case (Cons d ds)
  then show ?case
    by (cases "split_char c ds"; cases "tl (split_char c ds)") auto
qed simp

text \<open>\<open>strings.TrimRight(s, \<dots>)\<close> and \<open>strings.Trim(s, \<dots>)\<close> for a one-byte cutset.\<close>

definition trim_right_char :: "char \<Rightarrow> string \<Rightarrow> string" where
  "trim_right_char c s = rev (dropWhile (\<lambda>d. d = c) (rev s))"

definition trim_char :: "char \<Rightarrow> string \<Rightarrow> string" where
  "trim_char c s = trim_right_char c (dropWhile (\<lambda>d. d = c) s)"

section \<open>Numbers in text\<close>

definition is_digit :: "char \<Rightarrow> bool" where
  "is_digit c = (CHR ''0'' \<le> c \<and> c \<le> CHR ''9'')"

definition digit_val :: "char \<Rightarrow> nat" where
  "digit_val c = of_char c - 48"

definition digit_char :: "nat \<Rightarrow> char" where
  "digit_char d = char_of (48 + d)"

fun digits_val :: "nat \<Rightarrow> string \<Rightarrow> nat option" where
  "digits_val acc [] = Some acc"
| "digits_val acc (c # cs) = (if is_digit c then digits_val (10 * acc + digit_val c) cs else None)"

text \<open>\<open>strconv.ParseUint(s, 10, bits)\<close> and \<open>strconv.ParseInt(s, 10, 64)\<close> (also \<open>strconv.Atoi\<close>
  on a 64-bit platform); \<open>None\<close> is the error, syntax or range.\<close>

definition parse_uint :: "nat \<Rightarrow> string \<Rightarrow> nat option" where
  "parse_uint bits s =
     (if s = [] then None
      else case digits_val 0 s of None \<Rightarrow> None | Some n \<Rightarrow> if n < 2 ^ bits then Some n else None)"

definition parse_int64 :: "string \<Rightarrow> int option" where
  "parse_int64 s =
     (case s of [] \<Rightarrow> None
      | c # cs \<Rightarrow>
          let neg = (c = CHR ''-''); ds = (if c = CHR ''-'' \<or> c = CHR ''+'' then cs else s)
          in if ds = [] then None
             else case digits_val 0 ds of None \<Rightarrow> None
               | Some n \<Rightarrow>
                   if neg then (if n \<le> 2 ^ 63 then Some (- int n) else None)
                   else (if n < 2 ^ 63 then Some (int n) else None))"

fun nat_text :: "nat \<Rightarrow> string" where
  "nat_text n = (if n < 10 then [digit_char n] else nat_text (n div 10) @ [digit_char (n mod 10)])"

declare nat_text.simps [simp del]

text \<open>\<open>strconv.Itoa\<close>.\<close>

definition itoa :: "int \<Rightarrow> string" where
  "itoa i = (if i < 0 then CHR ''-'' # nat_text (nat (- i)) else nat_text (nat i))"

lemma of_char_less_eq: "c \<le> d \<longleftrightarrow> (of_char c :: nat) \<le> of_char d"
  by (simp add: less_eq_char_def)

lemma digit_char_facts:
  assumes "d < 10"
  shows "is_digit (digit_char d)" "digit_val (digit_char d) = d"
  using assms by (simp_all add: is_digit_def digit_char_def digit_val_def of_char_less_eq)

lemma digits_val_append:
  "digits_val acc (xs @ ys) =
     (case digits_val acc xs of None \<Rightarrow> None | Some n \<Rightarrow> digits_val n ys)"
  by (induction acc xs rule: digits_val.induct) auto

lemma nat_text_neq_Nil [simp]: "nat_text n \<noteq> []"
  by (subst nat_text.simps) simp

lemma digits_val_nat_text: "digits_val 0 (nat_text n) = Some n"
proof (induction n rule: nat_text.induct)
  case (1 n)
  then show ?case
    by (subst nat_text.simps) (auto simp: digits_val_append digit_char_facts)
qed

lemma nat_text_digits: "\<forall>c \<in> set (nat_text n). is_digit c"
proof (induction n rule: nat_text.induct)
  case (1 n)
  then show ?case
    by (subst nat_text.simps) (auto simp: digit_char_facts)
qed

lemma is_digit_graphic: "is_digit c \<Longrightarrow> graphic c"
  by (auto simp: is_digit_def graphic_def of_char_less_eq)

lemma nat_text_trim [simp]: "trim_space (nat_text n) = nat_text n"
  using nat_text_digits [of n] by (intro trim_space_id) (auto intro: is_digit_graphic)

lemma parse_int64_nat_text: "n < 2 ^ 63 \<Longrightarrow> parse_int64 (nat_text n) = Some (int n)"
proof -
  assume n: "n < 2 ^ 63"
  obtain c cs where eq: "nat_text n = c # cs" by (cases "nat_text n") auto
  with nat_text_digits [of n] have "is_digit c" by simp
  then have "c \<noteq> CHR ''-'' \<and> c \<noteq> CHR ''+''" by (auto simp: is_digit_def of_char_less_eq)
  with n digits_val_nat_text [of n] eq show ?thesis
    by (simp add: parse_int64_def del: digits_val.simps)
qed

lemma itoa_nat [simp]: "itoa (int n) = nat_text n"
  by (simp add: itoa_def)

lemma parse_int64_range:
  "parse_int64 s = Some i \<Longrightarrow> - (2 ^ 63) \<le> i \<and> i < 2 ^ 63"
proof -
  assume "parse_int64 s = Some i"
  then obtain n where "(i = - int n \<and> n \<le> 2 ^ 63) \<or> (i = int n \<and> n < 2 ^ 63)"
    by (auto simp: parse_int64_def Let_def split: list.splits if_splits option.splits)
  then show ?thesis
  proof
    assume "i = - int n \<and> n \<le> 2 ^ 63"
    then show ?thesis by auto
  next
    assume "i = int n \<and> n < 2 ^ 63"
    then show ?thesis by auto
  qed
qed

section \<open>Go maps\<close>

text \<open>
  A Go map with string keys is an association list. The list order stands for the
  iteration order, which Go leaves open: a fact about every list is a fact about every
  iteration order. \<open>map_of m k\<close> is \<open>m[k]\<close>, \<open>AList.update k v m\<close> is \<open>m[k] = v\<close>, and
  \<open>sorted_keys\<close> is \<open>slices.Sorted(maps.Keys(m))\<close>.
\<close>

type_synonym 'v gomap = "(string \<times> 'v) list"

abbreviation put :: "string \<Rightarrow> 'v \<Rightarrow> 'v gomap \<Rightarrow> 'v gomap" where
  "put \<equiv> AList.update"

definition sorted_keys :: "'v gomap \<Rightarrow> string list" where
  "sorted_keys m = sort (map fst m)"

lemma set_sorted_keys [simp]: "set (sorted_keys m) = fst ` set m"
  by (simp add: sorted_keys_def)

lemma sorted_sorted_keys [simp]: "sorted (sorted_keys m)"
  by (simp add: sorted_keys_def)

lemma map_of_put [simp]: "map_of (put k v m) k' = (if k' = k then Some v else map_of m k')"
  by (simp add: update_conv')

lemma dom_put: "fst ` set (put k v m) = insert k (fst ` set m)"
  by (induction m) auto

lemma map_of_mem: "map_of m k = Some v \<Longrightarrow> k \<in> fst ` set m"
  by (metis image_eqI fst_conv map_of_SomeD)

section \<open>Nested pairs\<close>

text \<open>For \<open>obtain\<close>: the parts of a result whose shape is known.\<close>

lemma pair_right: obtains a b c where "x = (a, (b, c))"
  by (cases x) auto

lemma pair_left: obtains a b c where "x = ((a, b), c)"
  by (cases x) auto

lemma pair_both: obtains a b c d where "x = ((a, b), (c, d))"
  by (cases x) auto

lemma pair_left_right: obtains a b c d where "x = ((a, (b, c)), d)"
  by (cases x) auto

section \<open>Loops that stop at the first error\<close>

text \<open>
  A Go loop that returns at the first failing element and otherwise accumulates is
  \<open>fold_res\<close>: \<open>Inl\<close> is the early return.
\<close>

fun fold_res :: "('a \<Rightarrow> 's \<Rightarrow> 'e + 's) \<Rightarrow> 'a list \<Rightarrow> 's \<Rightarrow> 'e + 's" where
  "fold_res f [] s = Inr s"
| "fold_res f (x # xs) s = (case f x s of Inl e \<Rightarrow> Inl e | Inr s' \<Rightarrow> fold_res f xs s')"

lemma fold_res_invariant:
  assumes "fold_res f xs s = Inr t" and "P s"
    and "\<And>x s s'. x \<in> set xs \<Longrightarrow> P s \<Longrightarrow> f x s = Inr s' \<Longrightarrow> P s'"
  shows "P t"
  using assms
proof (induction xs arbitrary: s)
  case (Cons x xs)
  then obtain s' where s': "f x s = Inr s'" "fold_res f xs s' = Inr t"
    by (auto split: sum.splits)
  show ?case
    by (rule Cons.IH [OF s'(2)]) (use Cons.prems s'(1) in auto)
qed simp

lemma fold_res_append:
  "fold_res f (xs @ ys) s = (case fold_res f xs s of Inl e \<Rightarrow> Inl e | Inr s' \<Rightarrow> fold_res f ys s')"
  by (induction xs arbitrary: s) (auto split: sum.splits)

text \<open>The checks of a validator in order: the first that fails is the result.\<close>

fun first_error :: "'e option list \<Rightarrow> 'e option" where
  "first_error [] = None"
| "first_error (None # cs) = first_error cs"
| "first_error (Some e # cs) = Some e"

lemma first_error_None: "first_error cs = None \<longleftrightarrow> (\<forall>c \<in> set cs. c = None)"
  by (induction cs rule: first_error.induct) auto

lemma first_error_append:
  "first_error (cs @ ds) = (case first_error cs of None \<Rightarrow> first_error ds | Some e \<Rightarrow> Some e)"
  by (induction cs rule: first_error.induct) auto

end
