(* ===== verification/Durations.thy ===== *)
theory Durations
  imports Prelude
begin

text \<open>
  Go's \<open>time.Duration\<close>: a signed 64-bit count of nanoseconds, an \<open>int\<close> here with the
  wrap-around of the multiplication written out (\<open>wrap64\<close>). \<open>parse_duration\<close> is
  \<open>time.ParseDuration\<close>, error results as \<open>None\<close>; the fraction of a value such as
  \<open>1.5h\<close> is computed exactly where Go uses a \<open>float64\<close>.
\<close>

definition wrap64 :: "int \<Rightarrow> int" where
  "wrap64 i = (i + 2 ^ 63) mod 2 ^ 64 - 2 ^ 63"

lemma wrap64_id: "- (2 ^ 63) \<le> i \<Longrightarrow> i < 2 ^ 63 \<Longrightarrow> wrap64 i = i"
  by (simp add: wrap64_def)

lemma wrap64_range: "- (2 ^ 63) \<le> wrap64 i \<and> wrap64 i < 2 ^ 63"
  unfolding wrap64_def using pos_mod_bound [of "2 ^ 64" "i + 2 ^ 63"] pos_mod_sign [of "2 ^ 64" "i + 2 ^ 63"]
  by simp

definition ns_second :: int where "ns_second = 1000000000"
definition ns_minute :: int where "ns_minute = 60 * ns_second"
definition ns_hour :: int where "ns_hour = 60 * ns_minute"

lemmas ns_defs = ns_second_def ns_minute_def ns_hour_def

definition unit_map :: "(string \<times> nat) list" where
  "unit_map =
     [(''ns'', 1), (''us'', 1000), ([CHR 0xC2, CHR 0xB5, CHR ''s''], 1000),
      ([CHR 0xCE, CHR 0xBC, CHR ''s''], 1000), (''ms'', 1000000), (''s'', 1000000000),
      (''m'', 60000000000), (''h'', 3600000000000)]"

text \<open>\<open>leadingFraction\<close>: digits past the 64-bit range are dropped.\<close>

fun lead_frac :: "string \<Rightarrow> nat \<Rightarrow> nat \<Rightarrow> bool \<Rightarrow> nat \<times> nat" where
  "lead_frac [] x scale over = (x, scale)"
| "lead_frac (c # cs) x scale over =
     (if over \<or> x > (2 ^ 63 - 1) div 10 then lead_frac cs x scale True
      else let y = x * 10 + digit_val c
           in if y > 2 ^ 63 then lead_frac cs x scale True else lead_frac cs y (scale * 10) False)"

definition digit_or_dot :: "char \<Rightarrow> bool" where
  "digit_or_dot c = (c = CHR ''.'' \<or> is_digit c)"

text \<open>One \<open>number unit\<close> group at the head of a text: its value and the rest.\<close>

definition duration_group :: "string \<Rightarrow> (nat \<times> string) option" where
  "duration_group s =
     (let ip = takeWhile is_digit s;
          s1 = drop (length ip) s;
          fp = (if has_prefix s1 ''.'' then takeWhile is_digit (tl s1) else []);
          s2 = (if has_prefix s1 ''.'' then drop (length fp) (tl s1) else s1);
          u = takeWhile (\<lambda>c. \<not> digit_or_dot c) s2;
          r = drop (length u) s2
      in if ip = [] \<and> fp = [] then None
         else case (digits_val 0 ip, map_of unit_map u) of
           (Some v, Some unit) \<Rightarrow>
             if v > 2 ^ 63 \<or> v > 2 ^ 63 div unit then None
             else (case lead_frac fp 0 1 False of (f, scale) \<Rightarrow>
               let w = v * unit + f * unit div scale in if w > 2 ^ 63 then None else Some (w, r))
         | _ \<Rightarrow> None)"

lemma duration_group_consumes: "duration_group s = Some (w, r) \<Longrightarrow> length r < length s"
proof -
  assume "duration_group s = Some (w, r)"
  then obtain ip fp where
    "ip \<noteq> [] \<or> fp \<noteq> []" and ip: "ip = takeWhile is_digit s"
    and fp: "fp = (if has_prefix (drop (length ip) s) ''.'' then takeWhile is_digit (tl (drop (length ip) s)) else [])"
    and r: "\<exists>k. r = drop k (if has_prefix (drop (length ip) s) ''.'' then drop (length fp) (tl (drop (length ip) s)) else drop (length ip) s)"
    by (auto simp: duration_group_def Let_def split: if_splits option.splits prod.splits)
  obtain k where k: "r = drop k (if has_prefix (drop (length ip) s) ''.'' then drop (length fp) (tl (drop (length ip) s)) else drop (length ip) s)"
    using r by blast
  have ipl: "length ip \<le> length s" unfolding ip by (rule length_takeWhile_le)
  have neq: "s \<noteq> []"
    using \<open>ip \<noteq> [] \<or> fp \<noteq> []\<close> ip fp by auto
  show ?thesis
  proof (cases "has_prefix (drop (length ip) s) ''.''")
    case True
    then have "drop (length ip) s \<noteq> []" by auto
    then have "length ip < length s" by simp
    then show ?thesis using k True by simp
  next
    case False
    with fp have "ip \<noteq> []" using \<open>ip \<noteq> [] \<or> fp \<noteq> []\<close> by auto
    then show ?thesis using k False neq by auto
  qed
qed

function duration_groups :: "string \<Rightarrow> nat \<Rightarrow> nat option" where
  "duration_groups s d =
     (if s = [] then Some d
      else case duration_group s of None \<Rightarrow> None
        | Some (w, r) \<Rightarrow> if d + w > 2 ^ 63 then None else duration_groups r (d + w))"
  by pat_completeness auto
termination
  by (relation "measure (\<lambda>(s, d). length s)") (auto dest: duration_group_consumes)

declare duration_groups.simps [simp del]

definition parse_duration :: "string \<Rightarrow> int option" where
  "parse_duration s0 =
     (let neg = has_prefix s0 ''-'';
          s = (if has_prefix s0 ''-'' \<or> has_prefix s0 ''+'' then tl s0 else s0)
      in if s = ''0'' then Some 0
         else if s = [] then None
         else case duration_groups s 0 of None \<Rightarrow> None
           | Some d \<Rightarrow> if neg then Some (- int d)
                       else if d > 2 ^ 63 - 1 then None else Some (int d))"

lemma duration_groups_le: "duration_groups s d = Some n \<Longrightarrow> d \<le> 2 ^ 63 \<Longrightarrow> n \<le> 2 ^ 63"
proof (induction s d rule: duration_groups.induct)
  case (1 s d)
  then show ?case
    by (auto simp: duration_groups.simps [of s d] split: if_splits option.splits)
qed

lemma parse_duration_range:
  "parse_duration s = Some d \<Longrightarrow> - (2 ^ 63) \<le> d \<and> d < 2 ^ 63"
proof -
  assume "parse_duration s = Some d"
  then consider "d = 0" | n where "duration_groups (if has_prefix s ''-'' \<or> has_prefix s ''+'' then tl s else s) 0 = Some n"
      "d = - int n \<or> d = int n \<and> n \<le> 2 ^ 63 - 1"
    by (fastforce simp: parse_duration_def Let_def split: if_splits option.splits)
  then show ?thesis
  proof cases
    case 2
    then have "n \<le> 2 ^ 63" using duration_groups_le by fastforce
    with 2 show ?thesis by auto
  qed simp
qed

text \<open>A text that is one unsigned number and one unit is that multiple of the unit.\<close>

lemma parse_duration_single:
  assumes "digits_val 0 ds = Some n" "ds \<noteq> []" "\<forall>c \<in> set ds. is_digit c"
    and "u = ''h'' \<or> u = ''m''" and "map_of unit_map u = Some k" and "n * k < 2 ^ 63"
  shows "parse_duration (ds @ u) = Some (int (n * k))"
proof -
  have u: "\<not> is_digit (hd u)" "u \<noteq> []" "\<forall>c \<in> set u. \<not> digit_or_dot c" "\<not> has_prefix u ''.''"
    using assms(4) by (auto simp: is_digit_def digit_or_dot_def of_char_less_eq)
  have u': "takeWhile (\<lambda>c. \<not> digit_or_dot c) u = u"
    using u(3) by (simp add: takeWhile_eq_all_conv)
  have dr: "drop (length ds) (ds @ u) = u" by simp
  have tw: "takeWhile is_digit (ds @ u) = ds"
    using assms(3) u(1,2) by (cases u) auto
  have k: "k = 3600000000000 \<or> k = 60000000000"
    using assms(4,5) by (auto simp: unit_map_def)
  have le: "n \<le> 2 ^ 63 div k"
    using assms(6) k by (auto simp: less_eq_div_iff_mult_less_eq)
  have "n \<le> n * k" using k by auto
  then have le2: "n \<le> 2 ^ 63" using assms(6) by linarith
  have grp: "duration_group (ds @ u) = Some (n * k, [])"
    unfolding duration_group_def Let_def tw dr
    using assms(1,2,5,6) le le2 u(4) by (simp add: u' split: prod.splits)
  obtain c cs where ds: "ds = c # cs" using assms(2) by (cases ds) auto
  with assms(3) have c: "c \<noteq> CHR ''-''" "c \<noteq> CHR ''+''"
    by (auto simp: is_digit_def of_char_less_eq)
  have "duration_groups (ds @ u) 0 = Some (n * k)"
    using grp ds assms(6) by (subst duration_groups.simps) (simp add: duration_groups.simps)
  moreover have "ds @ u \<noteq> ''0''" using u ds by auto
  ultimately show ?thesis
    using c ds assms(6) u(2) by (simp add: parse_duration_def Let_def)
qed

end
