(* ===== verification/Errors.thy ===== *)
theory Errors
  imports Prelude
begin

text \<open>
  The domain errors of \<open>internal/errors/errors.go\<close>. A Go \<open>error\<close> is a tree: a domain
  error (\<open>*Error\<close>) with an optional cause, a sentinel or another leaf, or a foreign
  wrapper with one or several wrapped errors. A \<open>nil\<close> error and a nil \<open>*Error\<close> are
  \<open>None\<close>. \<open>errors.As\<close> and \<open>errors.Is\<close> of the standard library search this tree in
  pre-order (\<open>err_nodes\<close>). The lemmas give the traversal \<open>Walk\<close> its meaning on
  \<open>err_nodes\<close>, show which code an error has, and that the text sent to a client for
  a server error depends on no foreign text.
\<close>

named_theorems err_simps "characteristic equations of the error operations"

section \<open>Codes and error values\<close>

text \<open>The \<open>Code*\<close> constants; \<open>NoCode\<close> is the empty code.\<close>

datatype code =
    NoCode
  | CodeInvalid
  | CodeNotFound
  | CodeUnauthorized
  | CodeTimeout
  | CodeCanceled
  | CodeFailedPrecondition
  | CodeUnavailable
  | CodeRateLimited
  | CodeNotReady
  | CodeInternal
  | CodeConflict
  | CodeUnimplemented

text \<open>The text of each code constant.\<close>

fun code_text :: "code \<Rightarrow> string" where
  "code_text NoCode = ''''"
| "code_text CodeInvalid = ''invalid''"
| "code_text CodeNotFound = ''not_found''"
| "code_text CodeUnauthorized = ''unauthorized''"
| "code_text CodeTimeout = ''timeout''"
| "code_text CodeCanceled = ''canceled''"
| "code_text CodeFailedPrecondition = ''failed_precondition''"
| "code_text CodeUnavailable = ''unavailable''"
| "code_text CodeRateLimited = ''rate_limited''"
| "code_text CodeNotReady = ''not_ready''"
| "code_text CodeInternal = ''internal''"
| "code_text CodeConflict = ''conflict''"
| "code_text CodeUnimplemented = ''unimplemented''"

text \<open>The sentinel errors the gateway compares by identity.\<close>

datatype sentinel =
    CtxCanceled | CtxDeadlineExceeded | FsNotExist | LockHeld | ErrOpen | ErrHalfOpen
  | ErrResponseWritten | ErrAbort | ErrRetry | IoEOF | BreakerOpen
  | IoUnexpectedEOF | ConnReset | ConnRefused | ConnAborted | BrokenPipe

text \<open>The errors the gateway recognises by type (\<open>errors.As\<close>): a \<open>net.Error\<close> with its
  \<open>Timeout()\<close>, a \<open>*net.DNSError\<close> with \<open>IsTemporary\<close> and \<open>IsTimeout\<close>, the status error of
  the outbound policies with its status and Retry-After, and the \<open>*http.MaxBytesError\<close> of a
  request body over its limit. An error that also wraps another one is
  a \<open>Joined\<close> of the two.\<close>

datatype typed_error = NetErr string bool | DNSErr string bool bool | StatusErr int int | MaxBytesErr

datatype goerr =
    DomainErr derr
  | Sent sentinel
  | Leaf string
  | Wrapf string goerr
  | Joined string "goerr list"
  | Typed typed_error
and derr =
  DErr (d_code: code) (d_op: string) (d_message: string) (d_fields: "string gomap")
    (d_cause: "goerr option")

lemma size_cause: "d_cause d = Some e \<Longrightarrow> size e < size (DomainErr d)"
  by (cases d) auto

text \<open>The pre-order of the tree, which \<open>errors.Is\<close> and \<open>errors.As\<close> search.\<close>

fun err_nodes :: "goerr \<Rightarrow> goerr list" where
  "err_nodes (DomainErr (DErr c op m fs cause)) =
     DomainErr (DErr c op m fs cause) # (case cause of None \<Rightarrow> [] | Some e \<Rightarrow> err_nodes e)"
| "err_nodes (Sent s) = [Sent s]"
| "err_nodes (Leaf t) = [Leaf t]"
| "err_nodes (Wrapf t e) = Wrapf t e # err_nodes e"
| "err_nodes (Joined t es) = Joined t es # concat (map err_nodes es)"
| "err_nodes (Typed x) = [Typed x]"

fun domain_of :: "goerr \<Rightarrow> derr option" where
  "domain_of (DomainErr d) = Some d"
| "domain_of e = None"

text \<open>The domain errors of a tree, outermost first.\<close>

definition domain_nodes :: "goerr option \<Rightarrow> derr list" where
  "domain_nodes err = (case err of None \<Rightarrow> [] | Some e \<Rightarrow> List.map_filter domain_of (err_nodes e))"

text \<open>\<open>errors.As(err, &de)\<close>.\<close>

definition as_domain :: "goerr option \<Rightarrow> derr option" where
  "as_domain err = (case domain_nodes err of [] \<Rightarrow> None | d # _ \<Rightarrow> Some d)"

text \<open>\<open>errors.Is(err, s)\<close> for a sentinel, and for one of the package's \<open>Err*\<close> values,
  which match by code (method \<open>Is\<close>).\<close>

definition is_sentinel :: "goerr option \<Rightarrow> sentinel \<Rightarrow> bool" where
  "is_sentinel err s = (case err of None \<Rightarrow> False | Some e \<Rightarrow> Sent s \<in> set (err_nodes e))"

text \<open>\<open>Error.Is\<close>: same code as a domain target.\<close>

definition error_is :: "derr option \<Rightarrow> goerr option \<Rightarrow> bool" where
  "error_is e target =
     (case (e, target) of
        (Some d, Some (DomainErr t)) \<Rightarrow> d_code d = d_code t
      | _ \<Rightarrow> False)"

definition is_code :: "goerr option \<Rightarrow> code \<Rightarrow> bool" where
  "is_code err c =
     (\<exists>d \<in> set (domain_nodes err). error_is (Some d) (Some (DomainErr (DErr c [] [] [] None))))"

section \<open>Constructors and accessors\<close>

text \<open>\<open>New\<close> and \<open>Wrap\<close>.\<close>

definition err_new :: "code \<Rightarrow> string \<Rightarrow> string \<Rightarrow> derr" where
  "err_new code op msg = DErr (if code = NoCode then CodeInternal else code) op msg [] None"

definition err_wrap :: "goerr option \<Rightarrow> code \<Rightarrow> string \<Rightarrow> string \<Rightarrow> derr" where
  "err_wrap cause code op msg =
     (case cause of
        None \<Rightarrow> err_new code op msg
      | Some e \<Rightarrow> DErr (if code = NoCode then CodeInternal else code) op msg [] (Some e))"

text \<open>The methods \<open>Code\<close>, \<open>Op\<close>, \<open>Message\<close>, \<open>Fields\<close>, \<open>With\<close> and \<open>Unwrap\<close>; a nil
  receiver answers with the zero value. \<open>With\<close> copies: the argument is unchanged.\<close>

definition error_code :: "derr option \<Rightarrow> code" where
  "error_code e = (case e of None \<Rightarrow> NoCode | Some d \<Rightarrow> d_code d)"

definition error_op :: "derr option \<Rightarrow> string" where
  "error_op e = (case e of None \<Rightarrow> [] | Some d \<Rightarrow> d_op d)"

definition error_message :: "derr option \<Rightarrow> string" where
  "error_message e = (case e of None \<Rightarrow> [] | Some d \<Rightarrow> d_message d)"

definition error_fields :: "derr option \<Rightarrow> string gomap option" where
  "error_fields e =
     (case e of None \<Rightarrow> None | Some d \<Rightarrow> if d_fields d = [] then None else Some (d_fields d))"

fun with_field :: "derr \<Rightarrow> string \<Rightarrow> string \<Rightarrow> derr" where
  "with_field (DErr c op m fs cause) k v = DErr c op m (put k v fs) cause"

definition error_with :: "derr option \<Rightarrow> string \<Rightarrow> string \<Rightarrow> derr option" where
  "error_with e k v = map_option (\<lambda>d. with_field d k v) e"

definition error_unwrap :: "derr option \<Rightarrow> goerr option" where
  "error_unwrap e = (case e of None \<Rightarrow> None | Some d \<Rightarrow> d_cause d)"

text \<open>The value of one field, as \<open>de.fields[key]\<close> reads it (the zero value when absent).\<close>

definition field_of :: "derr \<Rightarrow> string \<Rightarrow> string" where
  "field_of d k = (case map_of (d_fields d) k of None \<Rightarrow> [] | Some v \<Rightarrow> v)"

section \<open>Texts\<close>

text \<open>The texts of the sentinels, as their packages define them.\<close>

fun sentinel_text :: "sentinel \<Rightarrow> string" where
  "sentinel_text CtxCanceled = ''context canceled''"
| "sentinel_text CtxDeadlineExceeded = ''context deadline exceeded''"
| "sentinel_text FsNotExist = ''file does not exist''"
| "sentinel_text LockHeld = ''statefile: lock held by another process''"
| "sentinel_text ErrOpen = ''circuit breaker is open''"
| "sentinel_text ErrHalfOpen = ''circuit breaker is half-open''"
| "sentinel_text ErrResponseWritten = ''upstream: response already written''"
| "sentinel_text ErrAbort = ''outbound: non-retryable''"
| "sentinel_text ErrRetry = ''outbound: retryable''"
| "sentinel_text IoEOF = ''EOF''"
| "sentinel_text BreakerOpen = ''circuit breaker open''"
| "sentinel_text IoUnexpectedEOF = ''unexpected EOF''"
| "sentinel_text ConnReset = ''connection reset by peer''"
| "sentinel_text ConnRefused = ''connection refused''"
| "sentinel_text ConnAborted = ''software caused connection abort''"
| "sentinel_text BrokenPipe = ''broken pipe''"

fun typed_text :: "typed_error \<Rightarrow> string" where
  "typed_text (NetErr t timeout) = t"
| "typed_text (DNSErr t temporary timeout) = t"
| "typed_text (StatusErr status retryAfter) = ''http status '' @ itoa status"
| "typed_text MaxBytesErr = ''http: request body too large''"

text \<open>\<open>Error()\<close>: op, message (or the code's text) and the cause.\<close>

fun err_text :: "goerr \<Rightarrow> string" where
  "err_text (DomainErr (DErr c op m fs cause)) =
     (if op \<noteq> [] then op @ '': '' else []) @
     (if m \<noteq> [] then m else code_text c) @
     (case cause of None \<Rightarrow> [] | Some e \<Rightarrow> '': '' @ err_text e)"
| "err_text (Sent s) = sentinel_text s"
| "err_text (Leaf t) = t"
| "err_text (Wrapf t e) = t"
| "err_text (Joined t es) = t"
| "err_text (Typed x) = typed_text x"

text \<open>\<open>errors.Join\<close>: nil errors are dropped, and joining none is nil.\<close>

definition err_join :: "goerr option list \<Rightarrow> goerr option" where
  "err_join errs =
     (case List.map_filter (\<lambda>e. e) errs of
        [] \<Rightarrow> None
      | es \<Rightarrow> Some (Joined (join ''\<newline>'' (map err_text es)) es))"

text \<open>\<open>fmt\<close> prints a map with sorted keys.\<close>

definition fmt_map :: "string gomap \<Rightarrow> string" where
  "fmt_map m =
     ''map['' @ join '' '' (map (\<lambda>k. k @ '':'' @ (case map_of m k of None \<Rightarrow> [] | Some v \<Rightarrow> v)) (sorted_keys m)) @ '']''"

text \<open>\<open>Format\<close>: \<open>%+v\<close> prints the whole chain, every other verb the text.\<close>

fun format_plus :: "goerr \<Rightarrow> string" where
  "format_plus (DomainErr (DErr c op m fs cause)) =
     ''code='' @ code_text c @ '' op='' @ op @ '' message='' @ m @
     (if fs \<noteq> [] then '' fields='' @ fmt_map fs else []) @
     (case cause of
        None \<Rightarrow> []
      | Some e \<Rightarrow> ''\<newline>  caused by: '' @ (case e of DomainErr _ \<Rightarrow> format_plus e | _ \<Rightarrow> err_text e))"
| "format_plus e = err_text e"

definition error_format :: "bool \<Rightarrow> derr option \<Rightarrow> string" where
  "error_format plus_v e =
     (case e of
        None \<Rightarrow> []
      | Some d \<Rightarrow> if plus_v then format_plus (DomainErr d) else err_text (DomainErr d))"

section \<open>Codes and statuses\<close>

text \<open>\<open>CodeOr\<close> and \<open>CodeOf\<close>.\<close>

definition code_or :: "goerr option \<Rightarrow> code \<Rightarrow> code" where
  "code_or err fallback = (case as_domain err of Some d \<Rightarrow> d_code d | None \<Rightarrow> fallback)"

definition code_of :: "goerr option \<Rightarrow> code" where
  "code_of err = code_or err CodeInternal"

text \<open>\<open>HTTPStatus\<close>.\<close>

definition http_status :: "goerr option \<Rightarrow> nat" where
  "http_status err =
     (if err = None then 200
      else case code_of err of
        CodeInvalid \<Rightarrow> 400
      | CodeFailedPrecondition \<Rightarrow> 400
      | CodeUnauthorized \<Rightarrow> 401
      | CodeNotFound \<Rightarrow> 404
      | CodeConflict \<Rightarrow> 409
      | CodeTimeout \<Rightarrow> 504
      | CodeCanceled \<Rightarrow> 499
      | CodeNotReady \<Rightarrow> 503
      | CodeRateLimited \<Rightarrow> 429
      | CodeUnimplemented \<Rightarrow> 501
      | CodeInternal \<Rightarrow> 500
      | CodeUnavailable \<Rightarrow> 502
      | NoCode \<Rightarrow> 502)"

text \<open>\<open>http.StatusText\<close> on the statuses \<open>HTTPStatus\<close> returns; nginx's 499 has none.\<close>

definition status_text :: "nat \<Rightarrow> string" where
  "status_text n =
     (if n = 200 then ''OK'' else if n = 400 then ''Bad Request''
      else if n = 401 then ''Unauthorized'' else if n = 404 then ''Not Found''
      else if n = 409 then ''Conflict'' else if n = 429 then ''Too Many Requests''
      else if n = 500 then ''Internal Server Error'' else if n = 501 then ''Not Implemented''
      else if n = 502 then ''Bad Gateway'' else if n = 503 then ''Service Unavailable''
      else if n = 504 then ''Gateway Timeout'' else [])"

lemma as_domain_mem: "as_domain (Some e) = Some d \<Longrightarrow> DomainErr d \<in> set (err_nodes e)"
proof -
  assume "as_domain (Some e) = Some d"
  then have "d \<in> set (List.map_filter domain_of (err_nodes e))"
    by (auto simp: as_domain_def domain_nodes_def split: list.splits)
  then obtain n where "n \<in> set (err_nodes e)" "domain_of n = Some d"
    by (auto simp: List.map_filter_def)
  then show ?thesis by (auto elim!: domain_of.elims)
qed

lemma err_nodes_size: "n \<in> set (err_nodes e) \<Longrightarrow> size n \<le> size e"
proof (induction e rule: err_nodes.induct)
  case (1 c op m fs cause)
  then show ?case by (cases cause) (auto simp: le_SucI)
next
  case (5 t es)
  show ?case
  proof (cases "n = Joined t es")
    case False
    with 5 obtain e where e: "e \<in> set es" "size n \<le> size e" by auto
    then have "size e \<le> size_list size es" by (simp add: size_list_estimation')
    with e show ?thesis by simp
  qed simp
qed auto

text \<open>The loop of \<open>PublicMessage\<close>: the domain messages along the chain, then, for a caller
  error, the foreign cause where the chain ends.\<close>

function public_parts :: "bool \<Rightarrow> goerr option \<Rightarrow> string list" where
  "public_parts caller_error err =
     (case err of
        None \<Rightarrow> []
      | Some e \<Rightarrow>
          (case as_domain (Some e) of
             None \<Rightarrow> if caller_error then [trim_space (err_text e)] else []
           | Some de \<Rightarrow>
               (let m = trim_space (d_message de)
                in (if m \<noteq> [] then [m] else []) @ public_parts caller_error (d_cause de))))"
  by pat_completeness auto
termination
proof (relation "measure (\<lambda>(c, err). case err of None \<Rightarrow> 0 | Some e \<Rightarrow> Suc (size e))", goal_cases)
  case (2 caller_error err e de m)
  then have "size (DomainErr de) \<le> size e"
    by (intro err_nodes_size as_domain_mem) simp
  with 2 show ?case
    using size_cause [of de] by (cases "d_cause de") fastforce+
qed simp

declare public_parts.simps [simp del]

definition public_message :: "goerr option \<Rightarrow> string" where
  "public_message err =
     (if err = None then []
      else let parts = public_parts (http_status err < 500) err
           in if parts = [] then status_text (http_status err) else join '': '' parts)"

section \<open>Walking the tree\<close>

text \<open>\<open>Walk\<close> and \<open>walk\<close>: depth first, outermost first; the callback carries its state and
  stops the walk by returning \<open>False\<close>. \<open>walk_all\<close> is the loop over \<open>Unwrap() []error\<close>.\<close>

fun walk :: "(derr \<Rightarrow> 's \<Rightarrow> 's \<times> bool) \<Rightarrow> goerr \<Rightarrow> 's \<Rightarrow> 's \<times> bool"
  and walk_all :: "(derr \<Rightarrow> 's \<Rightarrow> 's \<times> bool) \<Rightarrow> goerr list \<Rightarrow> 's \<Rightarrow> 's \<times> bool"
where
  "walk fn (DomainErr (DErr c op m fs cause)) s =
     (case fn (DErr c op m fs cause) s of
        (s', False) \<Rightarrow> (s', False)
      | (s', True) \<Rightarrow> (case cause of None \<Rightarrow> (s', True) | Some e \<Rightarrow> walk fn e s'))"
| "walk fn (Joined t es) s = walk_all fn es s"
| "walk fn (Wrapf t e) s = walk fn e s"
| "walk fn (Sent x) s = (s, True)"
| "walk fn (Leaf t) s = (s, True)"
| "walk fn (Typed x) s = (s, True)"
| "walk_all fn [] s = (s, True)"
| "walk_all fn (e # es) s =
     (case walk fn e s of (s', False) \<Rightarrow> (s', False) | (s', True) \<Rightarrow> walk_all fn es s')"

definition walk_err :: "goerr option \<Rightarrow> (derr \<Rightarrow> 's \<Rightarrow> 's \<times> bool) \<Rightarrow> 's \<Rightarrow> 's" where
  "walk_err err fn s = (case err of None \<Rightarrow> s | Some e \<Rightarrow> fst (walk fn e s))"

text \<open>\<open>Field\<close>.\<close>

definition err_field :: "goerr option \<Rightarrow> string \<Rightarrow> string" where
  "err_field err key =
     (let k = trim_space key
      in if k = [] then []
         else walk_err err (\<lambda>de out. let v = trim_space (field_of de k) in (v, v = [])) [])"

section \<open>The tree search and its characteristic equations\<close>

lemma domain_nodes_simps [simp, err_simps]:
  "domain_nodes None = []"
  "domain_nodes (Some (DomainErr d)) = d # domain_nodes (d_cause d)"
  "domain_nodes (Some (Sent s)) = []"
  "domain_nodes (Some (Leaf t)) = []"
  "domain_nodes (Some (Typed x)) = []"
  "domain_nodes (Some (Wrapf t e)) = domain_nodes (Some e)"
  "domain_nodes (Some (Joined t es)) = concat (map (\<lambda>e. domain_nodes (Some e)) es)"
  by (cases d; cases "d_cause d";
      simp add: domain_nodes_def List.map_filter_def filter_concat map_concat comp_def)+

lemma as_domain_simps [simp, err_simps]:
  "as_domain None = None"
  "as_domain (Some (DomainErr d)) = Some d"
  "as_domain (Some (Sent s)) = None"
  "as_domain (Some (Leaf t)) = None"
  "as_domain (Some (Typed x)) = None"
  "as_domain (Some (Wrapf t e)) = as_domain (Some e)"
  by (simp_all add: as_domain_def)

lemma code_or_simps [simp, err_simps]:
  "code_or None c = c"
  "code_or (Some (DomainErr d)) c = d_code d"
  "code_or (Some (Wrapf t e)) c = code_or (Some e) c"
  by (simp_all add: code_or_def)

lemma code_of_simps [simp, err_simps]:
  "code_of None = CodeInternal"
  "code_of (Some (DomainErr d)) = d_code d"
  by (simp_all add: code_of_def)

lemma with_field_sel [simp, err_simps]:
  "d_code (with_field d k v) = d_code d"
  "d_op (with_field d k v) = d_op d"
  "d_message (with_field d k v) = d_message d"
  "d_cause (with_field d k v) = d_cause d"
  "d_fields (with_field d k v) = put k v (d_fields d)"
  by (cases d; simp)+

lemma err_new_sel [simp, err_simps]:
  "d_code (err_new c op m) = (if c = NoCode then CodeInternal else c)"
  "d_op (err_new c op m) = op"
  "d_message (err_new c op m) = m"
  "d_cause (err_new c op m) = None"
  "d_fields (err_new c op m) = []"
  by (simp_all add: err_new_def)

lemma err_wrap_sel [simp, err_simps]:
  "d_code (err_wrap cause c op m) = (if c = NoCode then CodeInternal else c)"
  "d_op (err_wrap cause c op m) = op"
  "d_message (err_wrap cause c op m) = m"
  "d_cause (err_wrap cause c op m) = cause"
  "d_fields (err_wrap cause c op m) = []"
  by (simp_all add: err_wrap_def split: option.splits)

lemma field_of_with_field [simp, err_simps]:
  "field_of (with_field d k v) k' = (if k' = k then v else field_of d k')"
  by (simp add: field_of_def)

lemma field_of_new [simp, err_simps]: "field_of (err_new c op m) k = []"
  by (simp add: field_of_def)

lemma field_of_wrap [simp, err_simps]: "field_of (err_wrap e c op m) k = []"
  by (simp add: field_of_def)

section \<open>What a walk computes\<close>

text \<open>A walk is a left fold over the domain errors that stops when the callback says so.\<close>

fun walk_nodes :: "(derr \<Rightarrow> 's \<Rightarrow> 's \<times> bool) \<Rightarrow> derr list \<Rightarrow> 's \<Rightarrow> 's \<times> bool" where
  "walk_nodes fn [] s = (s, True)"
| "walk_nodes fn (d # ds) s =
     (case fn d s of (s', False) \<Rightarrow> (s', False) | (s', True) \<Rightarrow> walk_nodes fn ds s')"

lemma walk_nodes_append:
  "walk_nodes fn (xs @ ys) s =
     (case walk_nodes fn xs s of (s', False) \<Rightarrow> (s', False) | (s', True) \<Rightarrow> walk_nodes fn ys s')"
  by (induction fn xs s rule: walk_nodes.induct) (auto split: prod.splits bool.splits)

lemma walk_eq_walk_nodes:
  "walk fn e s = walk_nodes fn (domain_nodes (Some e)) s"
  "walk_all fn es s = walk_nodes fn (concat (map (\<lambda>e. domain_nodes (Some e)) es)) s"
proof (induction fn e s and fn es s rule: walk_walk_all.induct)
  case (1 fn c op m fs cause s)
  then show ?case by (cases cause) (auto split: prod.splits bool.splits)
next
  case (8 fn e es s)
  then show ?case by (auto simp: walk_nodes_append split: prod.splits bool.splits)
qed simp_all

lemma walk_err_nodes: "walk_err err fn s = fst (walk_nodes fn (domain_nodes err) s)"
  by (cases err) (simp_all add: walk_err_def walk_eq_walk_nodes)

lemma walk_nodes_find:
  "fst (walk_nodes (\<lambda>d out. (f d, f d = [])) ds []) =
     (case find (\<lambda>d. f d \<noteq> []) ds of None \<Rightarrow> [] | Some d \<Rightarrow> f d)"
  by (induction ds) (auto split: bool.splits)

lemma err_field_find:
  "trim_space key \<noteq> [] \<Longrightarrow>
   err_field err key =
     (case find (\<lambda>d. trim_space (field_of d (trim_space key)) \<noteq> []) (domain_nodes err) of
        None \<Rightarrow> [] | Some d \<Rightarrow> trim_space (field_of d (trim_space key)))"
  using walk_nodes_find [of "\<lambda>d. trim_space (field_of d (trim_space key))" "domain_nodes err"]
  by (simp add: err_field_def walk_err_nodes Let_def)

lemma err_field_Nil: "trim_space key = [] \<Longrightarrow> err_field err key = []"
  by (simp add: err_field_def)

lemma err_field_none [simp]: "domain_nodes err = [] \<Longrightarrow> err_field err key = []"
  by (simp add: err_field_def walk_err_nodes Let_def)

section \<open>What reaches the client\<close>

text \<open>
  \<open>scrub\<close> erases from an error tree everything but its shape, the codes and the domain
  messages: op names, fields, and the text of every foreign error.
\<close>

fun scrub :: "goerr \<Rightarrow> goerr" where
  "scrub (DomainErr (DErr c op m fs cause)) =
     DomainErr (DErr c [] m [] (case cause of None \<Rightarrow> None | Some e \<Rightarrow> Some (scrub e)))"
| "scrub (Sent s) = Leaf []"
| "scrub (Leaf t) = Leaf []"
| "scrub (Wrapf t e) = Wrapf [] (scrub e)"
| "scrub (Joined t es) = Joined [] (map scrub es)"
| "scrub (Typed x) = Leaf []"

definition scrub_derr :: "derr \<Rightarrow> derr" where
  "scrub_derr d = DErr (d_code d) [] (d_message d) [] (map_option scrub (d_cause d))"

lemma domain_nodes_scrub:
  "domain_nodes (Some (scrub e)) = map scrub_derr (domain_nodes (Some e))"
proof (induction e rule: scrub.induct)
  case (1 c op m fs cause)
  then show ?case by (cases cause) (auto simp: scrub_derr_def)
next
  case (5 t es)
  then show ?case by (induction es) auto
qed auto

lemma as_domain_scrub: "as_domain (Some (scrub e)) = map_option scrub_derr (as_domain (Some e))"
  by (auto simp: as_domain_def domain_nodes_scrub split: list.splits)

lemma code_of_scrub: "code_of (Some (scrub e)) = code_of (Some e)"
  by (simp add: code_of_def code_or_def as_domain_scrub scrub_derr_def split: option.splits)

lemma http_status_scrub: "http_status (Some (scrub e)) = http_status (Some e)"
  by (simp add: http_status_def code_of_scrub)

lemma public_parts_scrub:
  "public_parts False (map_option scrub err) = public_parts False err"
proof (induction False err rule: public_parts.induct)
  case (1 err)
  show ?case
  proof (cases err)
    case (Some e)
    with 1 show ?thesis
      by (cases "as_domain (Some e)")
        (auto simp: public_parts.simps [of False "Some _"] as_domain_scrub scrub_derr_def Let_def)
  qed (simp add: public_parts.simps)
qed

lemma http_status_bounds: "200 \<le> http_status err \<and> http_status err < 600"
  by (auto simp: http_status_def split: code.splits)

lemma code_of_wrap [simp]:
  "code_of (Some (DomainErr (err_wrap e c op m))) = (if c = NoCode then CodeInternal else c)"
  by simp

section \<open>Properties\<close>

text \<open>The message a client sees for a server error depends on the codes and the domain
  messages of the error tree alone: op names, fields and the text of foreign errors never
  reach it.\<close>

theorem public_message_ignores_foreign_text:
  assumes "500 \<le> http_status (Some e)"
  shows "public_message (Some (scrub e)) = public_message (Some e)"
proof -
  have "public_parts (http_status (Some e) < 500) (Some (scrub e)) =
      public_parts (http_status (Some e) < 500) (Some e)"
    using assms public_parts_scrub [of "Some e"] by simp
  then show ?thesis
    by (simp add: public_message_def http_status_scrub Let_def)
qed

theorem public_message_ignores_foreign_text_witness:
  "public_message (Some (scrub (DomainErr (DErr CodeUnavailable ''dial'' ''upstream down'' []
     (Some (Leaf ''token=secret'')))))) =
   public_message (Some (DomainErr (DErr CodeUnavailable ''dial'' ''upstream down'' []
     (Some (Leaf ''token=secret'')))))"
  by (rule public_message_ignores_foreign_text) (simp add: http_status_def)

text \<open>A field looked up on an error is the first non-blank value of that field among the
  domain errors of the tree, outermost first, through every kind of wrapper.\<close>

theorem field_is_outermost:
  "err_field err key =
     (if trim_space key = [] then []
      else case find (\<lambda>d. trim_space (field_of d (trim_space key)) \<noteq> []) (domain_nodes err) of
             None \<Rightarrow> []
           | Some d \<Rightarrow> trim_space (field_of d (trim_space key)))"
  using err_field_find [of key err] err_field_Nil [of key err] by simp

text \<open>The HTTP status of an error is decided by the code of its outermost domain error:
  wrapping the error in foreign text changes nothing, and wrapping it in a domain error
  replaces the code.\<close>

theorem http_status_outermost:
  "http_status (Some (Wrapf t e)) = http_status (Some e) \<and>
   http_status (Some (DomainErr (err_wrap err c op m))) =
     http_status (Some (DomainErr (err_new c op m)))"
  by (simp add: http_status_def code_of_def)

end
