(* ===== verification/Timeouts.thy ===== *)
theory Timeouts
  imports Durations Errors
begin

text \<open>
  \<open>internal/config/timeouts.go\<close>: the budgets of a hop, read from the configuration file
  and resolved per request. A duration is a number of nanoseconds in the signed 64-bit
  range. A context is the part the gateway asks about: the reason it ended, if it has,
  and the caller-budget mark. The lemmas show that a configuration that loads bounds every
  budget the gateway ever resolves, whatever the caller's header says.
\<close>

section \<open>Contexts\<close>

record go_context =
  ctx_err :: "sentinel option"
  caller_budget :: bool

definition WithCallerBudget :: "go_context \<Rightarrow> go_context" where
  "WithCallerBudget ctx = ctx\<lparr>caller_budget := True\<rparr>"

definition CallerBudgetFrom :: "go_context option \<Rightarrow> bool" where
  "CallerBudgetFrom ctx = (case ctx of None \<Rightarrow> False | Some c \<Rightarrow> caller_budget c)"

section \<open>Data\<close>

definition defaultTimeoutMin :: int where "defaultTimeoutMin = 5 * ns_second"
definition defaultTimeoutMax :: int where "defaultTimeoutMax = 900 * ns_second"
definition defaultTimeoutChat :: int where "defaultTimeoutChat = 120 * ns_second"
definition defaultTimeoutChatThinking :: int where "defaultTimeoutChatThinking = 600 * ns_second"
definition defaultTimeoutVision :: int where "defaultTimeoutVision = 300 * ns_second"
definition defaultTimeoutEmbed :: int where "defaultTimeoutEmbed = 15 * ns_second"
definition defaultTimeoutSpeech :: int where "defaultTimeoutSpeech = 180 * ns_second"
definition defaultTimeoutChatCF :: int where "defaultTimeoutChatCF = 60 * ns_second"
definition defaultStreamIdle :: int where "defaultStreamIdle = 5 * ns_minute"

lemmas default_timeout_defs =
  defaultTimeoutMin_def defaultTimeoutMax_def defaultTimeoutChat_def
  defaultTimeoutChatThinking_def defaultTimeoutVision_def defaultTimeoutEmbed_def
  defaultTimeoutSpeech_def defaultTimeoutChatCF_def defaultStreamIdle_def

record backend_timeouts =
  bt_chat :: int
  bt_chat_thinking :: int
  bt_vision :: int
  bt_stream_idle :: int

definition zero_backend_timeouts :: backend_timeouts where
  "zero_backend_timeouts =
     \<lparr>bt_chat = 0, bt_chat_thinking = 0, bt_vision = 0, bt_stream_idle = 0\<rparr>"

record timeouts =
  t_min :: int
  t_max :: int
  t_chat :: int
  t_chat_thinking :: int
  t_vision :: int
  t_embed :: int
  t_speech :: int
  t_stream_idle :: int
  t_backends :: "backend_timeouts gomap"

record backend_to_file =
  btf_chat :: string
  btf_chat_thinking :: string
  btf_vision :: string
  btf_stream_idle :: string

record timeouts_file =
  tf_min :: string
  tf_max :: string
  tf_chat :: string
  tf_chat_thinking :: string
  tf_vision :: string
  tf_embed :: string
  tf_speech :: string
  tf_stream_idle :: string
  tf_backends :: "backend_to_file gomap"

text \<open>The errors of the loader, one constructor per message.\<close>

datatype timeout_error =
    EmptyTimeout
  | TimeoutNotPositive
  | InvalidTimeout string
  | AtKey string string timeout_error
  | MaxBelowMin

definition DefaultTimeouts :: timeouts where
  "DefaultTimeouts =
     \<lparr>t_min = defaultTimeoutMin, t_max = defaultTimeoutMax, t_chat = defaultTimeoutChat,
      t_chat_thinking = defaultTimeoutChatThinking, t_vision = defaultTimeoutVision,
      t_embed = defaultTimeoutEmbed, t_speech = defaultTimeoutSpeech,
      t_stream_idle = defaultStreamIdle, t_backends = []\<rparr>"

section \<open>Loading\<close>

text \<open>\<open>time.Duration(sec) * time.Second\<close> wraps at 64 bits.\<close>

definition parseTimeoutValue :: "string \<Rightarrow> timeout_error + int" where
  "parseTimeoutValue raw0 =
     (let raw = trim_space raw0
      in if raw = [] then Inl EmptyTimeout
         else case parse_duration raw of
           Some d \<Rightarrow> if d \<le> 0 then Inl TimeoutNotPositive else Inr d
         | None \<Rightarrow>
             (case parse_int64 raw of
                None \<Rightarrow> Inl (InvalidTimeout raw)
              | Some sec \<Rightarrow>
                  if sec \<le> 0 then Inl (InvalidTimeout raw) else Inr (wrap64 (sec * ns_second))))"

definition overlayDuration :: "string \<Rightarrow> int \<Rightarrow> timeout_error + int" where
  "overlayDuration raw0 cur =
     (let raw = trim_space raw0 in if raw = [] then Inr cur else parseTimeoutValue raw)"

text \<open>A \<open>durationField\<close>: the key, the raw text, and the field as reader and writer.\<close>

type_synonym 's duration_field = "string \<times> string \<times> ('s \<Rightarrow> int) \<times> (int \<Rightarrow> 's \<Rightarrow> 's)"

definition overlayDurations :: "string \<Rightarrow> 's duration_field list \<Rightarrow> 's \<Rightarrow> timeout_error + 's" where
  "overlayDurations prefix flds =
     fold_res (\<lambda>(key, raw, get, write) s.
       case overlayDuration raw (get s) of
         Inl e \<Rightarrow> Inl (AtKey prefix key e)
       | Inr d \<Rightarrow> Inr (write d s)) flds"

definition timeout_fields :: "timeouts_file \<Rightarrow> timeouts duration_field list" where
  "timeout_fields file =
     [(''min'', tf_min file, t_min, \<lambda>d s. s\<lparr>t_min := d\<rparr>),
      (''max'', tf_max file, t_max, \<lambda>d s. s\<lparr>t_max := d\<rparr>),
      (''chat'', tf_chat file, t_chat, \<lambda>d s. s\<lparr>t_chat := d\<rparr>),
      (''chat_thinking'', tf_chat_thinking file, t_chat_thinking, \<lambda>d s. s\<lparr>t_chat_thinking := d\<rparr>),
      (''vision'', tf_vision file, t_vision, \<lambda>d s. s\<lparr>t_vision := d\<rparr>),
      (''embed'', tf_embed file, t_embed, \<lambda>d s. s\<lparr>t_embed := d\<rparr>),
      (''speech'', tf_speech file, t_speech, \<lambda>d s. s\<lparr>t_speech := d\<rparr>),
      (''stream_idle'', tf_stream_idle file, t_stream_idle, \<lambda>d s. s\<lparr>t_stream_idle := d\<rparr>)]"

definition backend_timeout_fields :: "backend_to_file \<Rightarrow> backend_timeouts duration_field list" where
  "backend_timeout_fields e =
     [(''chat'', btf_chat e, bt_chat, \<lambda>d s. s\<lparr>bt_chat := d\<rparr>),
      (''chat_thinking'', btf_chat_thinking e, bt_chat_thinking, \<lambda>d s. s\<lparr>bt_chat_thinking := d\<rparr>),
      (''vision'', btf_vision e, bt_vision, \<lambda>d s. s\<lparr>bt_vision := d\<rparr>),
      (''stream_idle'', btf_stream_idle e, bt_stream_idle, \<lambda>d s. s\<lparr>bt_stream_idle := d\<rparr>)]"

definition backend_timeouts_of :: "timeouts \<Rightarrow> string \<Rightarrow> backend_timeouts" where
  "backend_timeouts_of t bid =
     (case map_of (t_backends t) bid of None \<Rightarrow> zero_backend_timeouts | Some b \<Rightarrow> b)"

text \<open>One round of the loop over the sorted backend ids.\<close>

definition overlay_backend :: "timeouts_file \<Rightarrow> string \<Rightarrow> timeouts \<Rightarrow> timeout_error + timeouts" where
  "overlay_backend file rawID out =
     (case map_of (tf_backends file) rawID of
        None \<Rightarrow> Inr out
      | Some entry \<Rightarrow>
          (let bid = trim_space rawID
           in if bid = [] then Inr out
              else case overlayDurations (''timeouts.backends.'' @ bid) (backend_timeout_fields entry)
                          (backend_timeouts_of out bid) of
                Inl e \<Rightarrow> Inl e
              | Inr cur \<Rightarrow> Inr (out\<lparr>t_backends := put bid cur (t_backends out)\<rparr>)))"

definition parseTimeoutsFile :: "timeouts_file \<Rightarrow> timeout_error + timeouts" where
  "parseTimeoutsFile file =
     (case overlayDurations ''timeouts'' (timeout_fields file) DefaultTimeouts of
        Inl e \<Rightarrow> Inl e
      | Inr out0 \<Rightarrow>
          (case fold_res (overlay_backend file) (sorted_keys (tf_backends file)) out0 of
             Inl e \<Rightarrow> Inl e
           | Inr out \<Rightarrow>
               if t_min out \<le> 0 \<or> t_max out < t_min out then Inl MaxBelowMin else Inr out))"

section \<open>Resolving\<close>

definition clamp :: "timeouts \<Rightarrow> int \<Rightarrow> int" where
  "clamp t d =
     (let lo = (if t_min t \<le> 0 then defaultTimeoutMin else t_min t);
          hi = (if t_max t < lo then defaultTimeoutMax else t_max t)
      in if d < lo then lo else if d > hi then hi else d)"

definition headerOr :: "timeouts \<Rightarrow> string \<Rightarrow> int \<Rightarrow> int" where
  "headerOr t header fallback =
     (let raw = trim_space header
      in if raw \<noteq> [] then
           (case parseTimeoutValue raw of Inr d \<Rightarrow> clamp t d | Inl _ \<Rightarrow> clamp t fallback)
         else clamp t fallback)"

fun firstPositive :: "int list \<Rightarrow> int" where
  "firstPositive [] = 0"
| "firstPositive (d # ds) = (if d > 0 then d else firstPositive ds)"

datatype chat_kind = ChatPlain | ChatVision | ChatThinking

definition ChatKindOf :: "bool \<Rightarrow> bool \<Rightarrow> chat_kind" where
  "ChatKindOf vision thinking =
     (if vision then ChatVision else if thinking then ChatThinking else ChatPlain)"

definition ResolveChat :: "timeouts \<Rightarrow> string \<Rightarrow> string \<Rightarrow> chat_kind \<Rightarrow> int" where
  "ResolveChat t header backendID kind =
     (let be = backend_timeouts_of t (trim_space backendID)
      in case kind of
        ChatVision \<Rightarrow> headerOr t header (firstPositive [bt_vision be, t_vision t])
      | ChatThinking \<Rightarrow> headerOr t header (firstPositive [bt_chat_thinking be, t_chat_thinking t])
      | ChatPlain \<Rightarrow> headerOr t header (firstPositive [bt_chat be, t_chat t]))"

definition ResolveStreamIdle :: "timeouts \<Rightarrow> string \<Rightarrow> int" where
  "ResolveStreamIdle t backendID =
     (let be = backend_timeouts_of t (trim_space backendID)
      in if bt_stream_idle be > 0 then bt_stream_idle be
         else if t_stream_idle t > 0 then t_stream_idle t
         else defaultStreamIdle)"

definition ResolveEmbed :: "timeouts \<Rightarrow> string \<Rightarrow> int" where
  "ResolveEmbed t header = headerOr t header (t_embed t)"

definition ResolveSpeech :: "timeouts \<Rightarrow> string \<Rightarrow> int" where
  "ResolveSpeech t header = headerOr t header (t_speech t)"

text \<open>\<open>Duration.Seconds\<close> goes through a \<open>float64\<close>; the whole seconds are exact here.\<close>

definition seconds :: "timeouts \<Rightarrow> int \<Rightarrow> int \<Rightarrow> int" where
  "seconds t d def = max 1 (clamp t (if d \<le> 0 then def else d) div ns_second)"

definition ProviderSeconds :: "timeouts \<Rightarrow> int" where
  "ProviderSeconds t = seconds t (t_max t) defaultTimeoutMax"

section \<open>Budgets stay in bounds\<close>

text \<open>What a loaded configuration promises.\<close>

definition timeouts_ok :: "timeouts \<Rightarrow> bool" where
  "timeouts_ok t = (0 < t_min t \<and> t_min t \<le> t_max t)"

lemma parseTimeoutsFile_ok: "parseTimeoutsFile file = Inr t \<Longrightarrow> timeouts_ok t"
  by (auto simp: parseTimeoutsFile_def timeouts_ok_def split: sum.splits if_splits)

lemma clamp_range: "timeouts_ok t \<Longrightarrow> t_min t \<le> clamp t d \<and> clamp t d \<le> t_max t"
  by (auto simp: clamp_def timeouts_ok_def Let_def)

lemma clamp_id: "timeouts_ok t \<Longrightarrow> t_min t \<le> d \<Longrightarrow> d \<le> t_max t \<Longrightarrow> clamp t d = d"
  by (auto simp: clamp_def timeouts_ok_def Let_def)

lemma headerOr_range: "timeouts_ok t \<Longrightarrow> t_min t \<le> headerOr t h d \<and> headerOr t h d \<le> t_max t"
  by (auto simp: headerOr_def Let_def clamp_range split: sum.splits)

lemma ResolveChat_range:
  "timeouts_ok t \<Longrightarrow> t_min t \<le> ResolveChat t h b k \<and> ResolveChat t h b k \<le> t_max t"
  by (cases k) (simp_all add: ResolveChat_def Let_def headerOr_range)

lemma DefaultTimeouts_ok: "timeouts_ok DefaultTimeouts"
  by (simp add: timeouts_ok_def DefaultTimeouts_def default_timeout_defs ns_defs)

text \<open>A bare number is a duration only if it is zero, so it is read as seconds.\<close>

lemma duration_group_digits:
  "\<forall>c \<in> set ds. is_digit c \<Longrightarrow> duration_group ds = None"
proof -
  assume "\<forall>c \<in> set ds. is_digit c"
  then have tw: "takeWhile is_digit ds = ds" by (simp add: takeWhile_eq_all_conv)
  then show ?thesis
    unfolding duration_group_def Let_def tw by (simp add: unit_map_def split: option.split)
qed

lemma parse_duration_digits:
  assumes "\<forall>c \<in> set ds. is_digit c" "ds \<noteq> []" "ds \<noteq> ''0''"
  shows "parse_duration ds = None"
proof -
  obtain c cs where ds: "ds = c # cs" using assms(2) by (cases ds) auto
  with assms(1) have "c \<noteq> CHR ''-''" "c \<noteq> CHR ''+''" by (auto simp: is_digit_def of_char_less_eq)
  then show ?thesis
    using ds assms duration_group_digits [OF assms(1)]
    by (simp add: parse_duration_def Let_def duration_groups.simps [of "c # cs"])
qed

lemma parseTimeoutValue_seconds:
  assumes "0 < n" "n < 2 ^ 63"
  shows "parseTimeoutValue (nat_text n) = Inr (wrap64 (int n * ns_second))"
proof -
  have "nat_text n \<noteq> ''0''"
    using digits_val_nat_text [of n] assms(1) by (auto simp: digit_val_def is_digit_def)
  then have "parse_duration (nat_text n) = None"
    using nat_text_digits by (intro parse_duration_digits) auto
  then show ?thesis
    using assms by (simp add: parseTimeoutValue_def Let_def parse_int64_nat_text)
qed

section \<open>Properties\<close>

text \<open>C22: Once a timeouts file has loaded, every chat, embeddings and speech budget the gateway resolves from
  it, for any caller header, backend and request kind, is a positive duration between its min and its max; the
  provider timeout is the max in whole seconds, and one second when the max is shorter; and the limit on the gap between the
  chunks of a stream is positive (it is not held to the min and max).\<close>

theorem resolved_budget_in_bounds:
  assumes "parseTimeoutsFile file = Inr t"
  shows "0 < t_min t \<and>
    ResolveChat t header backend kind \<in> {t_min t .. t_max t} \<and>
    ResolveEmbed t header \<in> {t_min t .. t_max t} \<and>
    ResolveSpeech t header \<in> {t_min t .. t_max t} \<and>
    0 < ResolveStreamIdle t backend \<and>
    ProviderSeconds t = max 1 (t_max t div ns_second)"
proof -
  have ok: "timeouts_ok t" using assms by (rule parseTimeoutsFile_ok)
  moreover from ok have "0 < t_max t" "clamp t (t_max t) = t_max t"
    by (auto simp: timeouts_ok_def clamp_id)
  moreover have "0 < ResolveStreamIdle t backend"
    by (simp add: ResolveStreamIdle_def Let_def defaultStreamIdle_def ns_defs)
  ultimately show ?thesis
    using ResolveChat_range [OF ok] headerOr_range [OF ok]
    by (simp add: ResolveEmbed_def ResolveSpeech_def ProviderSeconds_def seconds_def timeouts_ok_def)
qed

definition sample_timeouts_file :: timeouts_file where
  "sample_timeouts_file =
     \<lparr>tf_min = ''10s'', tf_max = ''300'', tf_chat = [], tf_chat_thinking = [], tf_vision = ''1m30s'',
      tf_embed = [], tf_speech = [], tf_stream_idle = [],
      tf_backends = [('' claude '', \<lparr>btf_chat = ''45s'', btf_chat_thinking = [], btf_vision = [],
        btf_stream_idle = []\<rparr>)]\<rparr>"

definition sample_timeouts :: timeouts where
  "sample_timeouts =
     DefaultTimeouts\<lparr>t_min := 10 * ns_second, t_max := 300 * ns_second, t_vision := 90 * ns_second,
       t_backends := [(''claude'', zero_backend_timeouts\<lparr>bt_chat := 45 * ns_second\<rparr>)]\<rparr>"

lemma sample_timeouts_load: "parseTimeoutsFile sample_timeouts_file = Inr sample_timeouts"
  by code_simp

theorem resolved_budget_in_bounds_witness:
  "ResolveChat sample_timeouts ''1h'' ''claude'' ChatPlain \<le> 300 * ns_second \<and> ProviderSeconds sample_timeouts = 300"
  using resolved_budget_in_bounds [OF sample_timeouts_load, of "''1h''" "''claude''" ChatPlain]
  by (simp add: sample_timeouts_def ns_defs)

text \<open>A caller's header of \<open>n\<close> whole seconds that lies within the configured bounds is the
  budget the chat request gets, whatever the backend and the kind.\<close>

theorem caller_header_is_honoured:
  assumes "parseTimeoutsFile file = Inr t"
    and "t_min t \<le> int n * ns_second" and "int n * ns_second \<le> t_max t"
    and "int n * ns_second < 2 ^ 63"
  shows "ResolveChat t (nat_text n) backend kind = int n * ns_second"
proof -
  have ok: "timeouts_ok t" using assms(1) by (rule parseTimeoutsFile_ok)
  with assms(2) have n: "0 < n" by (cases n) (auto simp: timeouts_ok_def)
  have "int n \<le> int n * ns_second" by (simp add: ns_defs)
  with assms(4) have "int n < 2 ^ 63" by linarith
  then have "n < 2 ^ 63" by simp
  then have "parseTimeoutValue (nat_text n) = Inr (int n * ns_second)"
    using n assms(4) by (simp add: parseTimeoutValue_seconds wrap64_id ns_defs)
  then have "headerOr t (nat_text n) d = int n * ns_second" for d
    using clamp_id [OF ok assms(2,3)] by (simp add: headerOr_def Let_def)
  then show ?thesis by (cases kind) (simp_all add: ResolveChat_def Let_def)
qed

theorem caller_header_is_honoured_witness:
  "ResolveChat sample_timeouts (nat_text 42) ''claude'' ChatVision = int 42 * ns_second"
  by (rule caller_header_is_honoured [OF sample_timeouts_load])
    (simp_all add: sample_timeouts_def ns_defs)

text \<open>An integer number of seconds that does not fit a duration wraps around: the value
  \<open>9223372037\<close> (292 years) is accepted as a positive timeout and read as a negative one, so
  that a caller who asks for it gets the shortest budget instead of the longest.\<close>

theorem huge_seconds_wrap:
  "parseTimeoutValue ''9223372037'' = Inr (- 9223372036709551616) \<and>
   ResolveEmbed DefaultTimeouts ''9223372037'' = t_min DefaultTimeouts"
  by code_simp

end
