(* ===== verification/Json.thy ===== *)
theory Json
  imports Prelude
begin

text \<open>
  What the gateway uses of Go's \<open>encoding/json\<close>. \<open>json_parse\<close> reads a text into a tree
  that keeps the raw text of every member and element (a \<open>json.RawMessage\<close> is that
  raw text). The \<open>dec_*\<close> functions are the typed decoding of \<open>json.Unmarshal\<close>: a
  \<open>null\<close> leaves a scalar as it was, another mismatch is an error, an unknown key is
  skipped, keys match exactly or else up to ASCII case, and of repeated keys the last
  one wins. The decoder's nesting limit of 10000 is not modelled.
\<close>

section \<open>Trees\<close>

datatype json =
    JNull
  | JBool bool
  | JNum string
  | JStr string
  | JArr "(string \<times> json) list"
  | JObj "(string \<times> string \<times> json) list"

definition json_ws :: "char \<Rightarrow> bool" where
  "json_ws c = (c = CHR 0x20 \<or> c = CHR 0x09 \<or> c = CHR 0x0A \<or> c = CHR 0x0D)"

definition skip_ws :: "string \<Rightarrow> string" where
  "skip_ws s = dropWhile json_ws s"

lemma length_skip_ws [simp]: "length (skip_ws s) \<le> length s"
  by (simp add: skip_ws_def length_dropWhile_le)

section \<open>UTF-8\<close>

text \<open>The length of the valid encoded character a byte string starts with, 0 for none.\<close>

definition in_range :: "nat \<Rightarrow> nat \<Rightarrow> char \<Rightarrow> bool" where
  "in_range lo hi c = (lo \<le> of_char c \<and> of_char c \<le> hi)"

abbreviation cont :: "char \<Rightarrow> bool" where
  "cont \<equiv> in_range 0x80 0xBF"

definition second_of_3 :: "char \<Rightarrow> char \<Rightarrow> bool" where
  "second_of_3 b b1 = in_range (if b = CHR 0xE0 then 0xA0 else 0x80) (if b = CHR 0xED then 0x9F else 0xBF) b1"

definition second_of_4 :: "char \<Rightarrow> char \<Rightarrow> bool" where
  "second_of_4 b b1 = in_range (if b = CHR 0xF0 then 0x90 else 0x80) (if b = CHR 0xF4 then 0x8F else 0xBF) b1"

fun utf8_len :: "string \<Rightarrow> nat" where
  "utf8_len [] = 0"
| "utf8_len (b # bs) =
     (if in_range 0 0x7F b then 1
      else case bs of [] \<Rightarrow> 0
      | b1 # bs1 \<Rightarrow>
          if in_range 0xC2 0xDF b then (if cont b1 then 2 else 0)
          else case bs1 of [] \<Rightarrow> 0
          | b2 # bs2 \<Rightarrow>
              if in_range 0xE0 0xEF b
              then (if second_of_3 b b1 \<and> cont b2 then 3 else 0)
              else case bs2 of [] \<Rightarrow> 0
              | b3 # bs3 \<Rightarrow>
                  if in_range 0xF0 0xF4 b
                  then (if second_of_4 b b1 \<and> cont b2 \<and> cont b3 then 4 else 0)
                  else 0)"

text \<open>Invalid bytes become U+FFFD, as the decoder does in strings.\<close>

definition replacement :: string where
  "replacement = [CHR 0xEF, CHR 0xBF, CHR 0xBD]"

function utf8_fix :: "string \<Rightarrow> string" where
  "utf8_fix [] = []"
| "utf8_fix (b # bs) =
     (let n = utf8_len (b # bs)
      in if n = 0 then replacement @ utf8_fix bs
         else b # take (n - 1) bs @ utf8_fix (drop (n - 1) bs))"
  by pat_completeness auto
termination
  by (relation "measure length") auto

text \<open>The UTF-8 encoding of a code point.\<close>

definition utf8_encode :: "nat \<Rightarrow> string" where
  "utf8_encode n =
     (if n < 0x80 then [char_of n]
      else if n < 0x800 then [char_of (0xC0 + n div 64), char_of (0x80 + n mod 64)]
      else if n < 0x10000 then
        [char_of (0xE0 + n div 4096), char_of (0x80 + n div 64 mod 64), char_of (0x80 + n mod 64)]
      else
        [char_of (0xF0 + n div 262144), char_of (0x80 + n div 4096 mod 64),
         char_of (0x80 + n div 64 mod 64), char_of (0x80 + n mod 64)])"

section \<open>Strings and numbers\<close>

definition hex_val :: "char \<Rightarrow> nat option" where
  "hex_val c =
     (if is_digit c then Some (digit_val c)
      else if CHR ''a'' \<le> c \<and> c \<le> CHR ''f'' then Some (of_char c - 87)
      else if CHR ''A'' \<le> c \<and> c \<le> CHR ''F'' then Some (of_char c - 55)
      else None)"

fun hex4 :: "string \<Rightarrow> (nat \<times> string) option" where
  "hex4 (a # b # c # d # r) =
     (case (hex_val a, hex_val b, hex_val c, hex_val d) of
        (Some w, Some x, Some y, Some z) \<Rightarrow> Some (4096 * w + 256 * x + 16 * y + z, r)
      | _ \<Rightarrow> None)"
| "hex4 _ = None"

definition simple_escape :: "char \<Rightarrow> char option" where
  "simple_escape c =
     (if c = CHR 0x22 \<or> c = CHR 0x5C \<or> c = CHR ''/'' then Some c
      else if c = CHR ''b'' then Some (CHR 0x08)
      else if c = CHR ''f'' then Some (CHR 0x0C)
      else if c = CHR ''n'' then Some (CHR 0x0A)
      else if c = CHR ''r'' then Some (CHR 0x0D)
      else if c = CHR ''t'' then Some (CHR 0x09)
      else None)"

text \<open>A code unit read from \<open>\u\<close>: a surrogate pair is one character, a lone surrogate U+FFFD.\<close>

definition unit_text :: "nat \<Rightarrow> string \<Rightarrow> string \<times> string" where
  "unit_text u r =
     (if u < 0xD800 \<or> 0xDFFF < u then (utf8_encode u, r)
      else if u < 0xDC00 \<and> has_prefix r [CHR 0x5C, CHR ''u'']
      then (case hex4 (drop 2 r) of
              Some (v, r') \<Rightarrow>
                if 0xDC00 \<le> v \<and> v \<le> 0xDFFF
                then (utf8_encode (0x10000 + (u - 0xD800) * 1024 + (v - 0xDC00)), r')
                else (replacement, r)
            | None \<Rightarrow> (replacement, r))
      else (replacement, r))"

text \<open>The body of a string literal after its opening quote. Every step consumes a byte, so
  the length of the input is fuel enough (the guards never fail).\<close>

function parse_chars :: "string \<Rightarrow> (string \<times> string) option" where
  "parse_chars [] = None"
| "parse_chars (c # cs) =
     (if c = CHR 0x22 then Some ([], cs)
      else if c = CHR 0x5C then
        (case cs of [] \<Rightarrow> None
         | e # es \<Rightarrow>
             (case simple_escape e of
                Some d \<Rightarrow> map_option (\<lambda>(t, r). (d # t, r)) (parse_chars es)
              | None \<Rightarrow>
                  if e = CHR ''u'' then
                    (case hex4 es of None \<Rightarrow> None
                     | Some (u, r) \<Rightarrow>
                         (case unit_text u r of (t0, r0) \<Rightarrow>
                            if length r0 < length (c # cs)
                            then map_option (\<lambda>(t, r1). (t0 @ t, r1)) (parse_chars r0) else None))
                  else None))
      else if in_range 0 0x1F c then None
      else map_option (\<lambda>(t, r). (c # t, r)) (parse_chars cs))"
  by pat_completeness auto
termination
  by (relation "measure length") auto

definition parse_str :: "string \<Rightarrow> (string \<times> string) option" where
  "parse_str s = map_option (\<lambda>(t, r). (utf8_fix t, r)) (parse_chars s)"

definition parse_num :: "string \<Rightarrow> (string \<times> string) option" where
  "parse_num s =
     (let s1 = (if has_prefix s ''-'' then tl s else s);
          ip = (if has_prefix s1 ''0'' then ''0'' else takeWhile is_digit s1);
          s2 = drop (length ip) s1;
          fp = (if has_prefix s2 ''.'' then takeWhile is_digit (tl s2) else []);
          s3 = (if has_prefix s2 ''.'' then drop (length fp) (tl s2) else s2);
          has_e = has_prefix s3 ''e'' \<or> has_prefix s3 ''E'';
          s4 = (if has_e then (if has_prefix (tl s3) ''+'' \<or> has_prefix (tl s3) ''-'' then tl (tl s3) else tl s3) else s3);
          ep = (if has_e then takeWhile is_digit s4 else []);
          r = drop (length ep) s4
      in if ip = [] \<or> has_prefix s2 ''.'' \<and> fp = [] \<or> has_e \<and> ep = [] then None
         else Some (take (length s - length r) s, r))"

section \<open>Values\<close>

text \<open>\<open>parse_value\<close> reads a value, \<open>parse_elems\<close> and \<open>parse_members\<close> the non-empty rest of an
  array and of an object. The length guards hold wherever a value is consumed; they make
  the recursion well-founded.\<close>

function parse_value :: "string \<Rightarrow> (json \<times> string) option"
  and parse_elems :: "string \<Rightarrow> ((string \<times> json) list \<times> string) option"
  and parse_members :: "string \<Rightarrow> ((string \<times> string \<times> json) list \<times> string) option"
where
  "parse_value s =
     (case s of [] \<Rightarrow> None
      | c # cs \<Rightarrow>
          if c = CHR 0x7B then
            (if has_prefix (skip_ws cs) [CHR 0x7D] then Some (JObj [], tl (skip_ws cs))
             else map_option (\<lambda>(ms, r). (JObj ms, r)) (parse_members (skip_ws cs)))
          else if c = CHR 0x5B then
            (if has_prefix (skip_ws cs) [CHR 0x5D] then Some (JArr [], tl (skip_ws cs))
             else map_option (\<lambda>(es, r). (JArr es, r)) (parse_elems (skip_ws cs)))
          else if c = CHR 0x22 then map_option (\<lambda>(t, r). (JStr t, r)) (parse_str cs)
          else if has_prefix s ''true'' then Some (JBool True, drop 4 s)
          else if has_prefix s ''false'' then Some (JBool False, drop 5 s)
          else if has_prefix s ''null'' then Some (JNull, drop 4 s)
          else map_option (\<lambda>(t, r). (JNum t, r)) (parse_num s))"
| "parse_elems s =
     (case parse_value s of None \<Rightarrow> None
      | Some (v, r) \<Rightarrow>
          (let raw = take (length s - length r) s; r1 = skip_ws r; r2 = skip_ws (tl r1)
           in if has_prefix r1 [CHR 0x5D] then Some ([(raw, v)], tl r1)
              else if has_prefix r1 '','' \<and> length r2 < length s
              then map_option (\<lambda>(es, r3). ((raw, v) # es, r3)) (parse_elems r2)
              else None))"
| "parse_members s =
     (if has_prefix s [CHR 0x22] then
        (case parse_str (tl s) of None \<Rightarrow> None
         | Some (k, r) \<Rightarrow>
             (let r1 = skip_ws r; r2 = skip_ws (tl r1)
              in if has_prefix r1 '':'' \<and> length r2 < length s then
                   (case parse_value r2 of None \<Rightarrow> None
                    | Some (v, r3) \<Rightarrow>
                        (let raw = take (length r2 - length r3) r2; r4 = skip_ws r3; r5 = skip_ws (tl r4)
                         in if has_prefix r4 [CHR 0x7D] then Some ([(k, raw, v)], tl r4)
                            else if has_prefix r4 '','' \<and> length r5 < length s
                            then map_option (\<lambda>(ms, r6). ((k, raw, v) # ms, r6)) (parse_members r5)
                            else None))
                 else None))
      else None)"
  by pat_completeness auto
termination
  by (relation "measure (\<lambda>x. case x of Inl s \<Rightarrow> 2 * length s | Inr (Inl s) \<Rightarrow> Suc (2 * length s)
        | Inr (Inr s) \<Rightarrow> Suc (2 * length s))")
    (auto simp: less_Suc_eq_le Suc_le_eq intro!: le_less_trans [OF mult_le_mono2 [OF length_skip_ws]])

declare parse_value.simps [simp del] parse_elems.simps [simp del] parse_members.simps [simp del]

text \<open>The syntax check of \<open>json.Unmarshal\<close>: one value and nothing but white space after it.\<close>

definition json_parse :: "string \<Rightarrow> json option" where
  "json_parse s =
     (case parse_value (skip_ws s) of None \<Rightarrow> None
      | Some (v, r) \<Rightarrow> if skip_ws r = [] then Some v else None)"

section \<open>Typed decoding\<close>

definition dec_string :: "string \<Rightarrow> json \<Rightarrow> string option" where
  "dec_string cur v = (case v of JStr t \<Rightarrow> Some t | JNull \<Rightarrow> Some cur | _ \<Rightarrow> None)"

definition dec_int :: "int \<Rightarrow> json \<Rightarrow> int option" where
  "dec_int cur v = (case v of JNum t \<Rightarrow> parse_int64 t | JNull \<Rightarrow> Some cur | _ \<Rightarrow> None)"

definition dec_bool :: "bool \<Rightarrow> json \<Rightarrow> bool option" where
  "dec_bool cur v = (case v of JBool b \<Rightarrow> Some b | JNull \<Rightarrow> Some cur | _ \<Rightarrow> None)"

text \<open>
  A struct is given by its fields: the JSON key and how a member's raw text and tree
  update the struct (\<open>None\<close> is a type error). \<open>null\<close> leaves the struct as it is.
\<close>

type_synonym 's field_decoder = "string \<times> (string \<Rightarrow> json \<Rightarrow> 's \<Rightarrow> 's option)"

definition field_for :: "'s field_decoder list \<Rightarrow> string \<Rightarrow> (string \<Rightarrow> json \<Rightarrow> 's \<Rightarrow> 's option) option" where
  "field_for fs k =
     (case map_of fs k of Some d \<Rightarrow> Some d
      | None \<Rightarrow> map_option snd (find (\<lambda>(name, d). equal_fold name k) fs))"

fun dec_members :: "'s field_decoder list \<Rightarrow> (string \<times> string \<times> json) list \<Rightarrow> 's \<Rightarrow> 's option" where
  "dec_members fs [] s = Some s"
| "dec_members fs ((k, raw, v) # ms) s =
     (case field_for fs k of None \<Rightarrow> dec_members fs ms s
      | Some d \<Rightarrow> (case d raw v s of None \<Rightarrow> None | Some s' \<Rightarrow> dec_members fs ms s'))"

definition dec_struct :: "'s field_decoder list \<Rightarrow> 's \<Rightarrow> json \<Rightarrow> 's option" where
  "dec_struct fs zero v =
     (case v of JObj ms \<Rightarrow> dec_members fs ms zero | JNull \<Rightarrow> Some zero | _ \<Rightarrow> None)"

text \<open>A slice, its elements decoded in order; \<open>null\<close> is the nil slice.\<close>

fun dec_elems :: "(json \<Rightarrow> 'a option) \<Rightarrow> (string \<times> json) list \<Rightarrow> 'a list option" where
  "dec_elems d [] = Some []"
| "dec_elems d ((raw, v) # es) =
     (case d v of None \<Rightarrow> None
      | Some x \<Rightarrow> map_option (\<lambda>xs. x # xs) (dec_elems d es))"

definition dec_slice :: "(json \<Rightarrow> 'a option) \<Rightarrow> json \<Rightarrow> 'a list option" where
  "dec_slice d v = (case v of JArr es \<Rightarrow> dec_elems d es | JNull \<Rightarrow> Some [] | _ \<Rightarrow> None)"

text \<open>\<open>map[string]json.RawMessage\<close>: raw texts by key, the last of repeated keys.\<close>

definition dec_raw_map :: "json \<Rightarrow> string gomap option" where
  "dec_raw_map v =
     (case v of
        JObj ms \<Rightarrow> Some (fold (\<lambda>(k, raw, _) m. put k raw m) ms [])
      | JNull \<Rightarrow> Some []
      | _ \<Rightarrow> None)"

text \<open>\<open>json.Unmarshal\<close> of a text into a struct.\<close>

definition unmarshal :: "'s field_decoder list \<Rightarrow> 's \<Rightarrow> string \<Rightarrow> 's option" where
  "unmarshal fs zero s = (case json_parse s of None \<Rightarrow> None | Some v \<Rightarrow> dec_struct fs zero v)"

text \<open>The raw text kept for a member or an element is a part of the text that was parsed.\<close>

lemma json_parse_Nil [simp]: "json_parse [] = None"
  by (simp add: json_parse_def skip_ws_def parse_value.simps)

lemma unmarshal_Nil [simp]: "unmarshal fs zero [] = None"
  by (simp add: unmarshal_def)

section \<open>Encoding\<close>

text \<open>
  \<open>json.Marshal\<close> of a string: quotes, backslashes and control characters are escaped, and,
  as the encoder does by default, also the HTML characters, U+2028 and U+2029; invalid UTF-8
  becomes \<open>\ufffd\<close>.
\<close>

definition hex_digit :: "nat \<Rightarrow> char" where
  "hex_digit d = (if d < 10 then char_of (48 + d) else char_of (87 + d))"

definition unicode_escape :: "char \<Rightarrow> string" where
  "unicode_escape c =
     [CHR 0x5C, CHR ''u'', CHR ''0'', CHR ''0'', hex_digit (of_char c div 16), hex_digit (of_char c mod 16)]"

definition html_char :: "char \<Rightarrow> bool" where
  "html_char c = (c = CHR ''<'' \<or> c = CHR ''>'' \<or> c = CHR ''&'')"

definition quote_char :: "char \<Rightarrow> string" where
  "quote_char c =
     (if c = CHR 0x22 \<or> c = CHR 0x5C then [CHR 0x5C, c]
      else if c = CHR 0x08 then [CHR 0x5C, CHR ''b'']
      else if c = CHR 0x0C then [CHR 0x5C, CHR ''f'']
      else if c = CHR 0x0A then [CHR 0x5C, CHR ''n'']
      else if c = CHR 0x0D then [CHR 0x5C, CHR ''r'']
      else if c = CHR 0x09 then [CHR 0x5C, CHR ''t'']
      else if in_range 0 0x1F c \<or> html_char c then unicode_escape c
      else [c])"

text \<open>The two line separators are written as escapes; \<open>sep_escape\<close> is that escape.\<close>

definition line_sep :: "string \<Rightarrow> bool" where
  "line_sep s = (has_prefix s [CHR 0xE2, CHR 0x80, CHR 0xA8] \<or> has_prefix s [CHR 0xE2, CHR 0x80, CHR 0xA9])"

definition sep_escape :: "string \<Rightarrow> string" where
  "sep_escape s = CHR 0x5C # (if has_prefix s [CHR 0xE2, CHR 0x80, CHR 0xA8] then ''u2028'' else ''u2029'')"

function json_chars :: "string \<Rightarrow> string" where
  "json_chars [] = []"
| "json_chars (b # bs) =
     (if in_range 0 0x7F b then quote_char b @ json_chars bs
      else if line_sep (b # bs) then sep_escape (b # bs) @ json_chars (drop 2 bs)
      else let n = utf8_len (b # bs)
           in if n = 0 then CHR 0x5C # ''ufffd'' @ json_chars bs
              else b # take (n - 1) bs @ json_chars (drop (n - 1) bs))"
  by pat_completeness auto
termination
  by (relation "measure length") auto

definition json_quote :: "string \<Rightarrow> string" where
  "json_quote s = CHR 0x22 # json_chars s @ [CHR 0x22]"

text \<open>
  The compaction of a \<open>json.RawMessage\<close> by the encoder: the raw text must be one JSON value;
  white space between tokens goes, the HTML characters and line separators are escaped. The
  flags say whether the position is inside a string and after a backslash there.
\<close>

function compact_loop :: "bool \<Rightarrow> bool \<Rightarrow> string \<Rightarrow> string option" where
  "compact_loop ins esc [] = Some []"
| "compact_loop ins esc (c # cs) =
     (if \<not> ins then
        (if json_ws c then compact_loop False False cs
         else map_option (\<lambda>t. (if html_char c then unicode_escape c else [c]) @ t)
                (compact_loop (c = CHR 0x22) False cs))
      else if in_range 0 0x1F c then None
      else if line_sep (c # cs) then
        map_option (\<lambda>t. sep_escape (c # cs) @ t) (compact_loop True False (drop 2 cs))
      else map_option (\<lambda>t. (if html_char c then unicode_escape c else [c]) @ t)
             (compact_loop (esc \<or> c \<noteq> CHR 0x22) (\<not> esc \<and> c = CHR 0x5C) cs))"
  by pat_completeness auto
termination
  by (relation "measure (\<lambda>(i, e, s). length s)") auto

definition json_compact :: "string \<Rightarrow> string option" where
  "json_compact raw = (if json_parse raw = None then None else compact_loop False False raw)"

section \<open>Encoded texts stay on one line\<close>

lemma hex_digit_no_newline: "d < 16 \<Longrightarrow> hex_digit d \<noteq> CHR 0x0A"
proof
  assume "d < 16" "hex_digit d = CHR 0x0A"
  then have "(of_char (hex_digit d) :: nat) = 10" by simp
  then show False using \<open>d < 16\<close> by (auto simp: hex_digit_def split: if_splits)
qed

lemma unicode_escape_no_newline: "CHR 0x0A \<notin> set (unicode_escape c)"
proof -
  have "of_char c < (256 :: nat)" by simp
  then have "of_char c div 16 < (16 :: nat)" by linarith
  then show ?thesis
    using hex_digit_no_newline [of "of_char c div 16"] hex_digit_no_newline [of "of_char c mod 16"]
    by (auto simp: unicode_escape_def)
qed

lemma quote_char_no_newline: "CHR 0x0A \<notin> set (quote_char c)"
  using unicode_escape_no_newline [of c] by (simp add: quote_char_def)

lemma sep_escape_no_newline: "CHR 0x0A \<notin> set (sep_escape s)"
  by (simp add: sep_escape_def)

lemma utf8_len_cases:
  "utf8_len (b # bs) \<le> 1 \<or>
   (\<exists>b1 bs1. bs = b1 # bs1 \<and> b1 \<noteq> CHR 0x0A \<and> (utf8_len (b # bs) = 2 \<or>
     (\<exists>b2 bs2. bs1 = b2 # bs2 \<and> b2 \<noteq> CHR 0x0A \<and> (utf8_len (b # bs) = 3 \<or>
       (\<exists>b3 bs3. bs2 = b3 # bs3 \<and> b3 \<noteq> CHR 0x0A \<and> utf8_len (b # bs) = 4)))))"
proof -
  have n: "\<not> second_of_3 b (CHR 0x0A)" "\<not> second_of_4 b (CHR 0x0A)" "\<not> cont (CHR 0x0A)"
    by (simp_all add: second_of_3_def second_of_4_def in_range_def)
  then have m: "second_of_3 b c \<Longrightarrow> c \<noteq> CHR 0x0A" "second_of_4 b c \<Longrightarrow> c \<noteq> CHR 0x0A"
    "cont c \<Longrightarrow> c \<noteq> CHR 0x0A" for c
    by auto
  show ?thesis
    by (cases bs; cases "tl bs"; cases "tl (tl bs)") (simp_all add: m)
qed

lemma utf8_len_no_newline:
  assumes "\<not> in_range 0 0x7F b"
  shows "CHR 0x0A \<notin> set (b # take (utf8_len (b # bs) - 1) bs)"
proof -
  have "b \<noteq> CHR 0x0A" using assms by (auto simp: in_range_def)
  then show ?thesis using utf8_len_cases [of b bs] by auto
qed

lemma json_chars_no_newline: "CHR 0x0A \<notin> set (json_chars s)"
proof (induction s rule: json_chars.induct)
  case (2 b bs)
  then show ?case
    using quote_char_no_newline [of b] sep_escape_no_newline [of "b # bs"] utf8_len_no_newline [of b bs]
    by (auto simp: Let_def)
qed simp

lemma json_quote_no_newline: "CHR 0x0A \<notin> set (json_quote s)"
  using json_chars_no_newline [of s] by (simp add: json_quote_def)

lemma compact_loop_no_newline: "compact_loop ins esc s = Some t \<Longrightarrow> CHR 0x0A \<notin> set t"
proof (induction ins esc s arbitrary: t rule: compact_loop.induct)
  case (2 ins esc c cs)
  have "json_ws (CHR 0x0A)" "in_range 0 0x1F (CHR 0x0A)" by (simp_all add: json_ws_def in_range_def)
  with 2 show ?case
    using unicode_escape_no_newline [of c] sep_escape_no_newline [of "c # cs"]
    by (auto split: if_splits)
qed simp

end
