(* ===== verification/Rate_Limit.thy ===== *)
theory Rate_Limit
  imports Errors Json
begin

text \<open>
  \<open>internal/ratelimit/ratelimit.go\<close>: an upstream answer is classified into a domain error
  of code \<open>CodeRateLimited\<close> with the limit's fields, and a \<open>Retry-After\<close> header is read
  as a wait. An \<open>http.Header\<close> is an association list from canonical names to values (nil
  is the empty list); the loop over it runs in list order. \<open>http.ParseTime\<close> is the
  argument \<open>parse_time\<close> (nanoseconds since the epoch). The lemmas show exactly when an
  answer is a rate limit, which fields the error carries, and that a wait never
  overflows.
\<close>

section \<open>Constants\<close>

text \<open>Codes, field names and kinds.\<close>

definition WorkersQuotaCode :: string where "WorkersQuotaCode = ''3036''"
definition WorkersCapacityCode :: string where "WorkersCapacityCode = ''3040''"
definition EdgeBlockCode :: string where "EdgeBlockCode = ''1015''"
definition FieldStatus :: string where "FieldStatus = ''status''"
definition FieldCFCode :: string where "FieldCFCode = ''cf_code''"
definition FieldRetryAfter :: string where "FieldRetryAfter = ''retry_after''"
definition FieldRateLimit :: string where "FieldRateLimit = ''ratelimit''"
definition FieldCFRay :: string where "FieldCFRay = ''cf_ray''"
definition FieldKind :: string where "FieldKind = ''limit_kind''"
definition FieldHeaderPrefix :: string where "FieldHeaderPrefix = ''hdr:''"
definition KindQuota :: string where "KindQuota = ''quota''"
definition KindCapacity :: string where "KindCapacity = ''capacity''"
definition KindEdge :: string where "KindEdge = ''edge''"
definition KindRequest :: string where "KindRequest = ''request''"

lemmas code_defs = WorkersQuotaCode_def WorkersCapacityCode_def EdgeBlockCode_def

lemmas field_defs = FieldStatus_def FieldCFCode_def FieldRetryAfter_def FieldRateLimit_def
  FieldCFRay_def FieldKind_def FieldHeaderPrefix_def

section \<open>Headers\<close>

type_synonym header = "(string \<times> string list) list"

text \<open>\<open>textproto.CanonicalMIMEHeaderKey\<close> and \<open>Header.Get\<close>.\<close>

fun canonical_from :: "bool \<Rightarrow> string \<Rightarrow> string" where
  "canonical_from up [] = []"
| "canonical_from up (c # cs) =
     (if up then upper_char c else lower_char c) # canonical_from (c = CHR ''-'') cs"

definition header_get :: "header \<Rightarrow> string \<Rightarrow> string" where
  "header_get h name = (case map_of h (canonical_from True name) of Some (v # _) \<Rightarrow> v | _ \<Rightarrow> [])"

fun firstHeaderValue :: "string list \<Rightarrow> string" where
  "firstHeaderValue [] = []"
| "firstHeaderValue (v # vs) =
     (let s = trim_space v in if s \<noteq> [] then s else firstHeaderValue vs)"

fun firstHeader :: "header \<Rightarrow> string list \<Rightarrow> string" where
  "firstHeader h [] = []"
| "firstHeader h (name # names) =
     (let v = trim_space (header_get h name) in if v \<noteq> [] then v else firstHeader h names)"

section \<open>The Cloudflare error body\<close>

text \<open>One entry of \<open>errors\<close>: its raw code and its message.\<close>

record workers_error =
  we_code :: string
  we_message :: string

record workersErrorEnvelope =
  env_success :: bool
  env_errors :: "workers_error list"

definition zero_envelope :: workersErrorEnvelope where
  "zero_envelope = \<lparr>env_success = False, env_errors = []\<rparr>"

definition workers_error_fields :: "workers_error field_decoder list" where
  "workers_error_fields =
     [(''code'', \<lambda>raw v s. Some (s\<lparr>we_code := raw\<rparr>)),
      (''message'', \<lambda>raw v s. map_option (\<lambda>t. s\<lparr>we_message := t\<rparr>) (dec_string (we_message s) v))]"

definition envelope_fields :: "workersErrorEnvelope field_decoder list" where
  "envelope_fields =
     [(''success'', \<lambda>raw v s. map_option (\<lambda>b. s\<lparr>env_success := b\<rparr>) (dec_bool (env_success s) v)),
      (''errors'', \<lambda>raw v s. map_option (\<lambda>es. s\<lparr>env_errors := es\<rparr>)
         (dec_slice (dec_struct workers_error_fields \<lparr>we_code = [], we_message = []\<rparr>) v))]"

definition decodeWorkersEnvelope :: "bytes \<Rightarrow> workersErrorEnvelope" where
  "decodeWorkersEnvelope body =
     (if body = [] then zero_envelope
      else case unmarshal envelope_fields zero_envelope body of
        None \<Rightarrow> zero_envelope
      | Some env \<Rightarrow> env)"

definition knownCFCode :: "string \<Rightarrow> string" where
  "knownCFCode code =
     (let c = trim_space code
      in if c = WorkersQuotaCode \<or> c = WorkersCapacityCode \<or> c = EdgeBlockCode then c else [])"

definition parseCFCode :: "string \<Rightarrow> string" where
  "parseCFCode raw0 =
     (let raw = trim_space raw0
      in if raw = [] then []
         else case Option.bind (json_parse raw) (dec_int 0) of
           Some n \<Rightarrow> knownCFCode (itoa n)
         | None \<Rightarrow>
             (case Option.bind (json_parse raw) (dec_string []) of
                Some s \<Rightarrow> knownCFCode (trim_space s)
              | None \<Rightarrow> knownCFCode (trim_char (CHR 0x22) raw)))"

fun first_code :: "('a \<Rightarrow> string) \<Rightarrow> 'a list \<Rightarrow> string" where
  "first_code f [] = []"
| "first_code f (x # xs) = (let c = f x in if c \<noteq> [] then c else first_code f xs)"

definition structuredCode :: "workersErrorEnvelope \<Rightarrow> string list \<Rightarrow> string" where
  "structuredCode env hints =
     (let c = first_code (\<lambda>e. parseCFCode (we_code e)) (env_errors env)
      in if c \<noteq> [] then c else first_code knownCFCode hints)"

text \<open>The regular expressions \<open>\bNNNN\b\<close>: the digits with no word character on either side.\<close>

definition word_char :: "char \<Rightarrow> bool" where
  "word_char c =
     (is_digit c \<or> between (CHR ''a'') (CHR ''z'') c \<or> between (CHR ''A'') (CHR ''Z'') c \<or> c = CHR ''_'')"

fun word_match :: "bool \<Rightarrow> string \<Rightarrow> string \<Rightarrow> bool" where
  "word_match prev code [] = False"
| "word_match prev code (c # cs) =
     (\<not> prev \<and> has_prefix (c # cs) code \<and>
        (case drop (length code) (c # cs) of [] \<Rightarrow> True | d # _ \<Rightarrow> \<not> word_char d)
      \<or> word_match (word_char c) code cs)"

definition workersCodeFromText :: "string \<Rightarrow> string" where
  "workersCodeFromText s =
     (if word_match False WorkersQuotaCode s then WorkersQuotaCode
      else if word_match False WorkersCapacityCode s then WorkersCapacityCode
      else if word_match False EdgeBlockCode s then EdgeBlockCode
      else [])"

definition firstWorkersMessage :: "workersErrorEnvelope \<Rightarrow> string list \<Rightarrow> string" where
  "firstWorkersMessage env hints =
     (let m = first_code (\<lambda>e. trim_space (we_message e)) (env_errors env)
      in if m \<noteq> [] then m else first_code trim_space hints)"

definition annotateQuota :: "string \<Rightarrow> string" where
  "annotateQuota m0 =
     (let m = (if m0 = [] then ''Cloudflare daily neuron quota is exhausted'' else m0)
      in if contains (to_lower m) ''00:00'' then m
         else trim_suffix m ''.'' @ ''. Quota resets daily at 00:00 UTC.'')"

definition annotateCapacity :: "string \<Rightarrow> string" where
  "annotateCapacity m0 =
     (let m = (if m0 = [] then ''Cloudflare model capacity is temporarily exceeded'' else m0)
      in if contains (to_lower m) ''retry'' then m
         else trim_suffix m ''.'' @ ''. Transient capacity; retry with backoff.'')"

definition annotateEdge :: "string \<Rightarrow> string" where
  "annotateEdge m = (if m = [] then ''Cloudflare edge rate limit (1015)'' else m)"

section \<open>Classification\<close>

text \<open>The upstream answer with its body decoded once; the Cloudflare signal is \<open>None\<close> for
  any other backend.\<close>

record response =
  r_status :: int
  r_header :: header
  r_env :: workersErrorEnvelope
  r_hints :: "string list"

text \<open>The loop that copies the \<open>X-RateLimit-*\<close> headers.\<close>

fun copy_limit_headers :: "header \<Rightarrow> derr \<Rightarrow> derr" where
  "copy_limit_headers [] err = err"
| "copy_limit_headers ((name, vals) # rest) err =
     (let lower = to_lower (trim_space name); v = trim_space (firstHeaderValue vals)
      in copy_limit_headers rest
           (if \<not> has_prefix lower ''x-ratelimit-'' then err
            else if v \<noteq> [] then with_field err (FieldHeaderPrefix @ lower) v else err))"

definition with_if :: "bool \<Rightarrow> string \<Rightarrow> string \<Rightarrow> derr \<Rightarrow> derr" where
  "with_if b k v err = (if b then with_field err k v else err)"

text \<open>The error \<open>classify\<close> builds once it has the message and the kind.\<close>

definition limit_error ::
  "string \<Rightarrow> string \<Rightarrow> int \<Rightarrow> string \<Rightarrow> bool \<Rightarrow> string \<Rightarrow> header \<Rightarrow> derr" where
  "limit_error op msg status kind cloudflare cfCode h =
     (let e1 = with_field (err_new CodeRateLimited op msg) FieldStatus (itoa status);
          e2 = with_if cloudflare FieldKind kind e1;
          e3 = with_if (cfCode \<noteq> []) FieldCFCode cfCode e2;
          ra = trim_space (header_get h ''Retry-After'');
          e4 = with_if (ra \<noteq> []) FieldRetryAfter ra e3;
          rl = firstHeader h [''RateLimit'', ''Rate-Limit''];
          e5 = with_if (rl \<noteq> []) FieldRateLimit rl e4;
          ray = trim_space (header_get h ''Cf-Ray'');
          e6 = with_if (ray \<noteq> [] \<and> cloudflare) FieldCFRay ray e5
      in copy_limit_headers h e6)"

definition classify :: "string \<Rightarrow> response \<Rightarrow> string option \<Rightarrow> derr option" where
  "classify op0 r cf =
     (let op = (if trim_space op0 = [] then ''ratelimit.Classify'' else op0);
          cloudflare = (cf \<noteq> None);
          cfCode = (case cf of None \<Rightarrow> [] | Some c \<Rightarrow> c)
      in if r_status r \<noteq> 429 \<and> cfCode = [] then None
         else
           let status = (if r_status r = 0 then 429 else r_status r);
               msg0 = firstWorkersMessage (r_env r) (r_hints r);
               kind = (if cfCode = WorkersQuotaCode then KindQuota
                       else if cfCode = WorkersCapacityCode then KindCapacity
                       else if cfCode = EdgeBlockCode then KindEdge else KindRequest);
               msg = (if cfCode = WorkersQuotaCode then annotateQuota msg0
                      else if cfCode = WorkersCapacityCode then annotateCapacity msg0
                      else if cfCode = EdgeBlockCode then annotateEdge msg0
                      else if msg0 = [] then ''rate limited by upstream'' else msg0)
           in Some (limit_error op msg status kind cloudflare cfCode (r_header r)))"

definition Classify :: "string \<Rightarrow> int \<Rightarrow> header \<Rightarrow> bytes \<Rightarrow> string list \<Rightarrow> derr option" where
  "Classify op status h body hints =
     (let env = decodeWorkersEnvelope body;
          c0 = structuredCode env hints;
          c = (if c0 = [] \<and> status = 429
               then workersCodeFromText (join ''\<newline>'' hints @ ''\<newline>'' @ body) else c0)
      in classify op \<lparr>r_status = status, r_header = h, r_env = env, r_hints = hints\<rparr> (Some c))"

definition ClassifyStatus :: "string \<Rightarrow> int \<Rightarrow> header \<Rightarrow> bytes \<Rightarrow> string list \<Rightarrow> derr option" where
  "ClassifyStatus op status h body hints =
     (if status \<noteq> 429 then None
      else classify op
        \<lparr>r_status = status, r_header = h, r_env = decodeWorkersEnvelope body, r_hints = hints\<rparr> None)"

section \<open>Retry-After\<close>

text \<open>A \<open>time.Duration\<close> is a 64-bit count of nanoseconds; \<open>Time.Sub\<close> saturates.\<close>

definition second_ns :: int where
  "second_ns = 1000000000"

definition maxRetryAfterSeconds :: int where
  "maxRetryAfterSeconds = 366 * 24 * 60 * 60"

definition time_sub :: "int \<Rightarrow> int \<Rightarrow> int" where
  "time_sub a b = max (- (2 ^ 63)) (min (2 ^ 63 - 1) (a - b))"

definition RetryAfter :: "(string \<Rightarrow> int option) \<Rightarrow> header \<Rightarrow> int \<Rightarrow> int option" where
  "RetryAfter parse_time h now =
     (if h = [] then None
      else let v = trim_space (header_get h ''Retry-After'')
           in if v = [] then None
              else case parse_int64 v of
                Some secs \<Rightarrow>
                  if secs < 0 then None else Some (min secs maxRetryAfterSeconds * second_ns)
              | None \<Rightarrow>
                  (case parse_time v of None \<Rightarrow> None | Some t \<Rightarrow> Some (max (time_sub t now) 0)))"

section \<open>When an answer is a rate limit\<close>

lemma knownCFCode_cases:
  "knownCFCode s = [] \<or> knownCFCode s \<in> {WorkersQuotaCode, WorkersCapacityCode, EdgeBlockCode}"
  by (auto simp: knownCFCode_def Let_def)

lemma workersCodeFromText_cases:
  "workersCodeFromText s = [] \<or>
   workersCodeFromText s \<in> {WorkersQuotaCode, WorkersCapacityCode, EdgeBlockCode}"
  by (auto simp: workersCodeFromText_def)

lemma classify_None: "classify op r cf = None \<longleftrightarrow> r_status r \<noteq> 429 \<and> (cf = None \<or> cf = Some [])"
  by (auto simp: classify_def Let_def split: option.splits)

lemma copy_limit_headers_sel [simp]:
  "d_code (copy_limit_headers h err) = d_code err"
  "d_op (copy_limit_headers h err) = d_op err"
  "d_message (copy_limit_headers h err) = d_message err"
  "d_cause (copy_limit_headers h err) = d_cause err"
  by (induction h err rule: copy_limit_headers.induct) (auto simp: Let_def)

lemma with_if_sel [simp]:
  "d_code (with_if b k v err) = d_code err"
  "d_op (with_if b k v err) = d_op err"
  "d_message (with_if b k v err) = d_message err"
  "d_cause (with_if b k v err) = d_cause err"
  by (simp_all add: with_if_def)

lemma field_of_with_if [simp]:
  "field_of (with_if b k v err) k' = (if b \<and> k' = k then v else field_of err k')"
  by (simp add: with_if_def)

text \<open>Copied headers land under the \<open>hdr:\<close> prefix only.\<close>

lemma field_of_copy_limit_headers:
  "\<not> has_prefix k FieldHeaderPrefix \<Longrightarrow> field_of (copy_limit_headers h err) k = field_of err k"
proof (induction h err rule: copy_limit_headers.induct)
  case (2 name vals rest err)
  from "2.prems" have "k \<noteq> FieldHeaderPrefix @ to_lower (trim_space name)" by auto
  with 2 show ?case by (simp add: Let_def)
qed simp

lemma plain_fields:
  "\<not> has_prefix FieldStatus FieldHeaderPrefix"
  "\<not> has_prefix FieldKind FieldHeaderPrefix"
  "\<not> has_prefix FieldCFCode FieldHeaderPrefix"
  "\<not> has_prefix FieldCFRay FieldHeaderPrefix"
  "\<not> has_prefix FieldRetryAfter FieldHeaderPrefix"
  by (simp_all add: field_defs)

lemma limit_error_sel [simp]:
  "d_code (limit_error op msg status kind cl c h) = CodeRateLimited"
  "d_cause (limit_error op msg status kind cl c h) = None"
  by (simp_all add: limit_error_def Let_def)

lemma field_names_distinct [simp]:
  "FieldKind \<noteq> FieldStatus" "FieldCFCode \<noteq> FieldStatus" "FieldRetryAfter \<noteq> FieldStatus"
  "FieldRateLimit \<noteq> FieldStatus" "FieldCFRay \<noteq> FieldStatus" "FieldKind \<noteq> FieldCFCode"
  "FieldKind \<noteq> FieldRetryAfter" "FieldKind \<noteq> FieldRateLimit" "FieldKind \<noteq> FieldCFRay"
  "FieldCFCode \<noteq> FieldRetryAfter" "FieldCFCode \<noteq> FieldRateLimit" "FieldCFCode \<noteq> FieldCFRay"
  "FieldRetryAfter \<noteq> FieldRateLimit" "FieldRetryAfter \<noteq> FieldCFRay" "FieldRateLimit \<noteq> FieldCFRay"
  by (simp_all add: field_defs)

lemmas field_names_distinct' [simp] = field_names_distinct [symmetric]

lemma limit_error_fields:
  "field_of (limit_error op msg status kind cl c h) FieldStatus = itoa status"
  "field_of (limit_error op msg status kind cl c h) FieldKind = (if cl then kind else [])"
  "field_of (limit_error op msg status kind cl c h) FieldCFCode = c"
  "field_of (limit_error op msg status kind cl c h) FieldCFRay =
     (if cl then trim_space (header_get h ''Cf-Ray'') else [])"
  "field_of (limit_error op msg status kind cl c h) FieldRetryAfter = trim_space (header_get h ''Retry-After'')"
  by (simp_all add: limit_error_def Let_def field_of_copy_limit_headers plain_fields)

lemma classify_Some:
  assumes "classify op r cf = Some e"
  shows "\<exists>op' msg kind. e = limit_error op' msg (if r_status r = 0 then 429 else r_status r) kind
           (cf \<noteq> None) (case cf of None \<Rightarrow> [] | Some c \<Rightarrow> c) (r_header r)"
  using assms unfolding classify_def Let_def by (simp split: if_split_asm; blast)

lemma classify_code:
  assumes "classify op r cf = Some e"
  shows "d_code e = CodeRateLimited" "d_cause e = None"
  using classify_Some [OF assms] by auto

lemma classify_fields:
  assumes "classify op r cf = Some e"
  shows "field_of e FieldStatus = itoa (if r_status r = 0 then 429 else r_status r)"
    and "cf = None \<Longrightarrow> field_of e FieldKind = []"
    and "cf = None \<Longrightarrow> field_of e FieldCFRay = []"
    and "field_of e FieldCFCode = (case cf of None \<Rightarrow> [] | Some c \<Rightarrow> c)"
    and "field_of e FieldRetryAfter = trim_space (header_get (r_header r) ''Retry-After'')"
  using classify_Some [OF assms] by (auto simp: limit_error_fields)

lemma Classify_cases:
  assumes "Classify op status h body hints = Some e"
  shows "d_code e = CodeRateLimited" "d_cause e = None"
    and "field_of e FieldStatus = itoa (if status = 0 then 429 else status)"
    and "field_of e FieldRetryAfter = trim_space (header_get h ''Retry-After'')"
  using classify_code classify_fields(1,5) assms by (fastforce simp: Classify_def Let_def)+

lemma RetryAfter_range:
  assumes "RetryAfter parse_time h now = Some d"
  shows "0 \<le> d \<and> d < 2 ^ 63"
  using assms
  by (auto simp: RetryAfter_def Let_def maxRetryAfterSeconds_def second_ns_def time_sub_def
      split: if_splits option.splits)

section \<open>Properties\<close>

text \<open>An answer is not a rate limit exactly when its status is not 429 and neither the
  body's structured errors nor the hints carry one of the known Cloudflare codes.\<close>

theorem rate_limit_iff:
  "Classify op status h body hints = None \<longleftrightarrow>
     status \<noteq> 429 \<and> structuredCode (decodeWorkersEnvelope body) hints = []"
  by (simp add: Classify_def Let_def classify_None)

text \<open>A classified rate limit has code \<open>rate_limited\<close>, answers 429 whatever the upstream
  status was, hides the upstream text behind its own message, and carries the upstream status
  and the trimmed \<open>Retry-After\<close> header as fields.\<close>

theorem rate_limit_error:
  assumes "Classify op status h body hints = Some e"
  shows "d_code e = CodeRateLimited \<and> http_status (Some (DomainErr e)) = 429 \<and>
    public_parts True (Some (DomainErr e)) \<in> {[], [trim_space (d_message e)]} \<and>
    field_of e FieldStatus = itoa (if status = 0 then 429 else status) \<and>
    field_of e FieldRetryAfter = trim_space (header_get h ''Retry-After'')"
  using Classify_cases [OF assms] by (simp add: http_status_def public_parts.simps Let_def)

text \<open>A Cloudflare capacity error inside an answer of status 503.\<close>

definition capacity_body :: bytes where
  "capacity_body = ''{\"errors\":[{\"code\":3040,\"message\":\"busy\"}]}''"

definition capacity_header :: header where
  "capacity_header = [(''Retry-After'', ['' 7 ''])]"

lemma capacity_classified: "Classify ''op'' 503 capacity_header capacity_body [] \<noteq> None"
  unfolding rate_limit_iff by code_simp

theorem rate_limit_error_witness:
  "\<exists>e. d_code e = CodeRateLimited \<and> field_of e FieldStatus = itoa 503 \<and>
     field_of e FieldRetryAfter = trim_space '' 7 ''"
proof -
  obtain e where e: "Classify ''op'' 503 capacity_header capacity_body [] = Some e"
    using capacity_classified by (cases "Classify ''op'' 503 capacity_header capacity_body []") auto
  have "header_get capacity_header ''Retry-After'' = '' 7 ''" by code_simp
  with rate_limit_error [OF e] show ?thesis by auto
qed

text \<open>Without the Cloudflare signal only status 429 is a rate limit, and no Cloudflare code,
  kind or ray id is attached, whatever the body says.\<close>

theorem classify_status_marks_no_cloudflare:
  assumes "ClassifyStatus op status h body hints = Some e"
  shows "status = 429 \<and> field_of e FieldKind = [] \<and> field_of e FieldCFCode = [] \<and>
    field_of e FieldCFRay = []"
proof -
  have c: "classify op \<lparr>r_status = status, r_header = h, r_env = decodeWorkersEnvelope body,
      r_hints = hints\<rparr> None = Some e" and "status = 429"
    using assms by (auto simp: ClassifyStatus_def split: if_splits)
  with classify_fields [OF c] show ?thesis by simp
qed

theorem classify_status_marks_no_cloudflare_witness:
  "\<exists>e. ClassifyStatus [] 429 [] [] [] = Some e \<and> field_of e FieldCFCode = []"
proof -
  have "ClassifyStatus [] 429 [] [] [] \<noteq> None" by (simp add: ClassifyStatus_def classify_None)
  then obtain e where "ClassifyStatus [] 429 [] [] [] = Some e" by blast
  with classify_status_marks_no_cloudflare [OF this] show ?thesis by blast
qed

text \<open>A wait read from \<open>Retry-After\<close> is never negative and never overflows a duration,
  for any header, any date parser and any clock.\<close>

theorem retry_after_bounded:
  assumes "RetryAfter parse_time h now = Some d"
  shows "0 \<le> d \<and> d < 2 ^ 63"
  using assms by (rule RetryAfter_range)

theorem retry_after_bounded_witness:
  "(0::int) \<le> maxRetryAfterSeconds * second_ns \<and> maxRetryAfterSeconds * second_ns < 2 ^ 63"
proof (rule retry_after_bounded)
  show "RetryAfter (\<lambda>_. None) [(''Retry-After'', [''99999999999''])] 0 =
      Some (maxRetryAfterSeconds * second_ns)"
    by code_simp
qed

end
