(* ===== verification/Breakers.thy ===== *)
theory Breakers
  imports Timeouts Rate_Limit
begin

text \<open>
  \<open>internal/gateway/upstream\<close>: the board of per-upstream circuit breakers
  (\<open>board.go\<close>), the attribution of dial failures (\<open>classify.go\<close>) and the health snapshot
  (\<open>snapshot.go\<close>). The breaker itself is the library failsafe-go, which the repository does
  not hold: it is the record of functions \<open>breaker_api\<close>, whose \<open>Run\<close> is split into its two
  halves around the call, and what the board relies on is \<open>failsafe_contract\<close>. The function
  run under a breaker may itself change the board, as other calls do while it runs.
\<close>

section \<open>The breaker library\<close>

datatype breaker_state = ClosedState | OpenState | HalfOpenState | OtherState

record 'r breaker_metrics =
  m_executions :: nat
  m_successes :: nat
  m_failures :: nat
  m_failure_rate :: 'r

text \<open>\<open>br_new k d s\<close> builds a breaker with failure threshold \<open>k\<close>, delay \<open>d\<close> and success
  threshold \<open>s\<close>; \<open>br_enter\<close> asks for a permit at a time, \<open>br_leave\<close> records the outcome of
  the permitted call.\<close>

record ('b, 'r) breaker_api =
  br_new :: "nat \<Rightarrow> int \<Rightarrow> nat \<Rightarrow> 'b"
  br_enter :: "int \<Rightarrow> 'b \<Rightarrow> goerr + 'b"
  br_leave :: "int \<Rightarrow> bool \<Rightarrow> 'b \<Rightarrow> 'b"
  br_state :: "'b \<Rightarrow> breaker_state"
  br_metrics :: "'b \<Rightarrow> 'r breaker_metrics"

text \<open>A run of \<open>k\<close> failures in a list of outcomes, \<open>n\<close> failures having come before.\<close>

fun fail_run :: "nat \<Rightarrow> nat \<Rightarrow> bool list \<Rightarrow> bool" where
  "fail_run k n [] = False"
| "fail_run k n (ok # oks) =
     (if ok then fail_run k 0 oks else k \<le> Suc n \<or> fail_run k (Suc n) oks)"

text \<open>Completed calls: when each entered, when it left, and whether it succeeded.\<close>

type_synonym round = "int \<times> int \<times> bool"

fun rounds :: "('b, 'r) breaker_api \<Rightarrow> round list \<Rightarrow> 'b \<Rightarrow> 'b" where
  "rounds api [] b = b"
| "rounds api ((t0, t1, ok) # rs) b =
     (case br_enter api t0 b of
        Inl _ \<Rightarrow> rounds api rs b
      | Inr b' \<Rightarrow> rounds api rs (br_leave api t1 ok b'))"

definition round_ok :: "round \<Rightarrow> bool" where
  "round_ok r = snd (snd r)"

lemma round_ok_simp [simp]: "round_ok (t0, t1, ok) = ok"
  by (simp add: round_ok_def)

text \<open>
  The documented behaviour of a count-based breaker: it grants every call until the last
  \<open>k\<close> calls all failed; then it is open and refuses with \<open>ErrOpen\<close> until its delay is over.
\<close>

definition failsafe_contract :: "('b, 'r) breaker_api \<Rightarrow> bool" where
  "failsafe_contract api \<longleftrightarrow>
     (\<forall>k d s rs. 0 < k \<and> \<not> fail_run k 0 (map round_ok rs) \<longrightarrow>
        br_state api (rounds api rs (br_new api k d s)) = ClosedState \<and>
        (\<forall>t. \<exists>b'. br_enter api t (rounds api rs (br_new api k d s)) = Inr b')) \<and>
     (\<forall>k d s rs t0 t1 t. 0 < k \<and> \<not> fail_run k 0 (map round_ok rs) \<and>
        fail_run k 0 (map round_ok rs @ [False]) \<and> t1 \<le> t \<and> t < t1 + d \<longrightarrow>
        br_state api (rounds api (rs @ [(t0, t1, False)]) (br_new api k d s)) = OpenState \<and>
        br_enter api t (rounds api (rs @ [(t0, t1, False)]) (br_new api k d s)) = Inl (Sent BreakerOpen))"

section \<open>The board\<close>

definition OpenTimeout :: int where "OpenTimeout = 30 * ns_second"
definition halfOpenMaxRequests :: nat where "halfOpenMaxRequests = 1"
definition ConsecutiveFailuresTrip :: nat where "ConsecutiveFailuresTrip = 3"
definition NameSwitchyard :: string where "NameSwitchyard = ''switchyard''"
definition unknownUpstream :: string where "unknownUpstream = ''unknown''"
definition FieldUpstream :: string where "FieldUpstream = ''upstream''"

record 'b board =
  bd_cb :: "'b gomap"
  bd_open_delay :: int

definition NewBoard :: "'b board" where
  "NewBoard = \<lparr>bd_cb = [], bd_open_delay = 0\<rparr>"

definition normalizeName :: "string \<Rightarrow> string" where
  "normalizeName name = (if name = [] then unknownUpstream else name)"

definition board_delay :: "'b board \<Rightarrow> int" where
  "board_delay b = (if bd_open_delay b \<le> 0 then OpenTimeout else bd_open_delay b)"

text \<open>The method \<open>breaker\<close>: the named breaker, created at its first use.\<close>

definition board_breaker :: "('b, 'r) breaker_api \<Rightarrow> string \<Rightarrow> 'b board \<Rightarrow> 'b \<times> 'b board" where
  "board_breaker api name b =
     (case map_of (bd_cb b) name of
        Some c \<Rightarrow> (c, b)
      | None \<Rightarrow>
          (let c = br_new api ConsecutiveFailuresTrip (board_delay b) halfOpenMaxRequests
           in (c, b\<lparr>bd_cb := put name c (bd_cb b)\<rparr>)))"

definition answeredClientError :: "goerr option \<Rightarrow> bool" where
  "answeredClientError err =
     (case parse_int64 (err_field err FieldStatus) of
        None \<Rightarrow> False
      | Some status \<Rightarrow> 400 \<le> status \<and> status < 500)"

definition backendFault :: "go_context option \<Rightarrow> goerr option \<Rightarrow> bool" where
  "backendFault ctx err =
     (if err = None then False
      else case code_of err of
        CodeUnavailable \<Rightarrow> \<not> answeredClientError err
      | CodeTimeout \<Rightarrow> \<not> CallerBudgetFrom ctx
      | CodeRateLimited \<Rightarrow> False | CodeInvalid \<Rightarrow> False | CodeUnauthorized \<Rightarrow> False
      | CodeNotFound \<Rightarrow> False | CodeConflict \<Rightarrow> False | CodeCanceled \<Rightarrow> False
      | CodeNotReady \<Rightarrow> False | CodeFailedPrecondition \<Rightarrow> False | CodeInternal \<Rightarrow> False
      | CodeUnimplemented \<Rightarrow> False
      | NoCode \<Rightarrow> False)"

definition UnavailableError :: "string \<Rightarrow> sentinel \<Rightarrow> goerr" where
  "UnavailableError name err =
     DomainErr (with_field
       (err_wrap (Some (Sent err)) CodeUnavailable ''upstream.Execute''
         (''upstream '' @ name @ '' unavailable''))
       FieldUpstream name)"

text \<open>
  \<open>Execute\<close>. The call runs on the board and the rest of the world; \<open>clock\<close> reads the time
  off the world. A nil board is \<open>None\<close>.
\<close>

type_synonym ('b, 'w) call = "'b board option \<times> 'w \<Rightarrow> goerr option \<times> 'b board option \<times> 'w"

definition leave_breaker ::
  "('b, 'r) breaker_api \<Rightarrow> string \<Rightarrow> int \<Rightarrow> bool \<Rightarrow> 'b board option \<Rightarrow> 'b board option" where
  "leave_breaker api name t ok bd =
     map_option (\<lambda>b. case map_of (bd_cb b) name of
         None \<Rightarrow> b
       | Some c \<Rightarrow> b\<lparr>bd_cb := put name (br_leave api t ok c) (bd_cb b)\<rparr>) bd"

definition Execute ::
  "('b, 'r) breaker_api \<Rightarrow> ('w \<Rightarrow> int) \<Rightarrow> go_context option \<Rightarrow> string \<Rightarrow> ('b, 'w) call \<Rightarrow> ('b, 'w) call" where
  "Execute api clock ctx name0 fn = (\<lambda>(bd, w).
     case bd of
       None \<Rightarrow> fn (bd, w)
     | Some b0 \<Rightarrow>
         let name = normalizeName name0
         in case board_breaker api name b0 of
           (cb, b) \<Rightarrow>
             (case br_enter api (clock w) cb of
                Inr cb' \<Rightarrow>
                  (case fn (Some (b\<lparr>bd_cb := put name cb' (bd_cb b)\<rparr>), w) of
                     (fnErr, bd', w') \<Rightarrow>
                       (fnErr, leave_breaker api name (clock w') (\<not> backendFault ctx fnErr) bd', w'))
              | Inl err \<Rightarrow>
                  (if \<not> is_sentinel (Some err) BreakerOpen then (Some err, Some b, w)
                   else if br_state api cb = HalfOpenState
                     then (Some (UnavailableError name ErrHalfOpen), Some b, w)
                   else (Some (UnavailableError name ErrOpen), Some b, w))))"

definition Unavailable :: "goerr option \<Rightarrow> bool" where
  "Unavailable err = (is_sentinel err ErrOpen \<or> is_sentinel err ErrHalfOpen)"

definition ResponseWritten :: "goerr option \<Rightarrow> bool" where
  "ResponseWritten err = is_sentinel err ErrResponseWritten"

section \<open>Attribution\<close>

definition LayerCloudflare :: string where "LayerCloudflare = ''cloudflare''"
definition LayerPolypusBreaker :: string where "LayerPolypusBreaker = ''polypus_breaker''"
definition LayerSwitchyard :: string where "LayerSwitchyard = ''switchyard''"
definition LayerLeaf :: string where "LayerLeaf = ''leaf''"
definition stateClosed :: string where "stateClosed = ''closed''"
definition stateOpen :: string where "stateOpen = ''open''"
definition stateHalfOpen :: string where "stateHalfOpen = ''half-open''"
definition stateUnknown :: string where "stateUnknown = ''unknown''"

record failure_class =
  fc_layer :: string
  fc_upstream :: string
  fc_http_status :: int
  fc_breaker_state :: string

definition upstreamNameFromUnavailable :: "goerr option \<Rightarrow> string" where
  "upstreamNameFromUnavailable err = trim_space (err_field err FieldUpstream)"

definition ResolveUpstreamName :: "goerr option \<Rightarrow> string \<Rightarrow> string" where
  "ResolveUpstreamName err hint0 =
     (let hint = trim_space hint0; name = upstreamNameFromUnavailable err
      in if hint \<noteq> [] \<and> hint \<noteq> unknownUpstream then normalizeName hint
         else if name \<noteq> [] then name
         else normalizeName hint)"

definition hasCloudflareMetadata :: "goerr option \<Rightarrow> bool" where
  "hasCloudflareMetadata err =
     list_ex (\<lambda>key. err_field err key \<noteq> []) [FieldCFCode, FieldCFRay, FieldKind]"

definition hasCloudflareOp :: "goerr option \<Rightarrow> bool" where
  "hasCloudflareOp err =
     walk_err err (\<lambda>de found. let f = has_prefix (d_op de) ''cloudflare.'' in (f, \<not> f)) False"

definition isCloudflareDialFailure :: "goerr option \<Rightarrow> bool" where
  "isCloudflareDialFailure err = (hasCloudflareMetadata err \<or> hasCloudflareOp err)"

definition upstreamStatus :: "goerr option \<Rightarrow> int" where
  "upstreamStatus err =
     (case parse_int64 (trim_space (err_field err FieldStatus)) of None \<Rightarrow> 0 | Some n \<Rightarrow> n)"

definition ClassifyDialFailure :: "goerr option \<Rightarrow> string \<Rightarrow> failure_class" where
  "ClassifyDialFailure err upstreamName0 =
     (if err = None then
        \<lparr>fc_layer = [], fc_upstream = [], fc_http_status = 0, fc_breaker_state = []\<rparr>
      else
        let upstreamName = ResolveUpstreamName err upstreamName0
        in if Unavailable err then
             \<lparr>fc_layer = LayerPolypusBreaker, fc_upstream = upstreamName, fc_http_status = 0,
              fc_breaker_state = (if is_sentinel err ErrHalfOpen then stateHalfOpen else stateOpen)\<rparr>
           else if upstreamName = NameSwitchyard then
             \<lparr>fc_layer = LayerSwitchyard, fc_upstream = upstreamName, fc_http_status = 0,
              fc_breaker_state = []\<rparr>
           else
             \<lparr>fc_layer = (if isCloudflareDialFailure err then LayerCloudflare else LayerLeaf),
              fc_upstream = upstreamName, fc_http_status = upstreamStatus err,
              fc_breaker_state = []\<rparr>)"

section \<open>The snapshot\<close>

fun breakerStateString :: "breaker_state \<Rightarrow> string" where
  "breakerStateString ClosedState = stateClosed"
| "breakerStateString OpenState = stateOpen"
| "breakerStateString HalfOpenState = stateHalfOpen"
| "breakerStateString OtherState = stateUnknown"

record 'r snapshot =
  sn_name :: string
  sn_state :: string
  sn_metrics :: "'r breaker_metrics"

definition board_snapshot :: "('b, 'r) breaker_api \<Rightarrow> 'b board option \<Rightarrow> 'r snapshot list" where
  "board_snapshot api bd =
     (case bd of
        None \<Rightarrow> []
      | Some b \<Rightarrow> sort_key sn_name
          (map (\<lambda>(name, cb). \<lparr>sn_name = name, sn_state = breakerStateString (br_state api cb),
             sn_metrics = br_metrics api cb\<rparr>) (bd_cb b)))"

section \<open>What counts against a backend\<close>

text \<open>Only two codes can be a backend's fault.\<close>

lemma backendFault_iff:
  "backendFault ctx err \<longleftrightarrow>
     err \<noteq> None \<and> (if code_of err = CodeUnavailable then \<not> answeredClientError err
       else code_of err = CodeTimeout \<and> \<not> CallerBudgetFrom ctx)"
  by (auto simp: backendFault_def split: code.split)

lemma backendFault_status: "backendFault ctx err \<Longrightarrow> http_status err = 502 \<or> http_status err = 504"
  by (auto simp: backendFault_iff http_status_def split: if_splits)

lemma field_upstream_trim [simp]: "trim_space FieldUpstream = FieldUpstream"
  by (simp add: FieldUpstream_def trim_space_id graphic_def)

lemma UnavailableError_facts:
  "http_status (Some (UnavailableError name s)) = 502"
  "is_sentinel (Some (UnavailableError name s)) s' \<longleftrightarrow> s' = s"
  "upstreamNameFromUnavailable (Some (UnavailableError name s)) = trim_space name"
proof -
  show "http_status (Some (UnavailableError name s)) = 502"
    by (simp add: UnavailableError_def http_status_def)
  show "is_sentinel (Some (UnavailableError name s)) s' \<longleftrightarrow> s' = s"
    by (auto simp: UnavailableError_def is_sentinel_def err_wrap_def)
  have "FieldUpstream \<noteq> []" by (simp add: FieldUpstream_def)
  then show "upstreamNameFromUnavailable (Some (UnavailableError name s)) = trim_space name"
    by (auto simp: upstreamNameFromUnavailable_def UnavailableError_def err_field_find
        split: if_splits option.splits)
qed

text \<open>A refusal is attributed to the breaker, whatever name the caller had for the upstream.\<close>

lemma classify_refusal:
  "s = ErrOpen \<or> s = ErrHalfOpen \<Longrightarrow>
   fc_layer (ClassifyDialFailure (Some (UnavailableError name s)) hint) = LayerPolypusBreaker \<and>
   fc_breaker_state (ClassifyDialFailure (Some (UnavailableError name s)) hint) =
     (if s = ErrHalfOpen then stateHalfOpen else stateOpen)"
  by (auto simp: ClassifyDialFailure_def Unavailable_def UnavailableError_facts Let_def)

section \<open>Sequences of calls\<close>

text \<open>A call that does not itself touch the board.\<close>

definition plain_call :: "('w \<Rightarrow> goerr option \<times> 'w) \<Rightarrow> ('b, 'w) call" where
  "plain_call f = (\<lambda>(bd, w). case f w of (e, w') \<Rightarrow> (e, bd, w'))"

type_synonym 'w work = "go_context option \<times> ('w \<Rightarrow> goerr option \<times> 'w)"

fun run_calls ::
  "('b, 'r) breaker_api \<Rightarrow> ('w \<Rightarrow> int) \<Rightarrow> string \<Rightarrow> 'w work list \<Rightarrow> 'b board option \<times> 'w
   \<Rightarrow> goerr option list \<times> 'b board option \<times> 'w" where
  "run_calls api clock name [] s = ([], s)"
| "run_calls api clock name ((ctx, f) # cs) s =
     (case Execute api clock ctx name (plain_call f) s of
        (e, s1) \<Rightarrow> (case run_calls api clock name cs s1 of (es, s2) \<Rightarrow> (e # es, s2)))"

text \<open>The same calls with no breaker, and which of them the breaker may count as answered.\<close>

fun run_direct :: "'w work list \<Rightarrow> 'w \<Rightarrow> goerr option list \<times> 'w" where
  "run_direct [] w = ([], w)"
| "run_direct ((ctx, f) # cs) w =
     (case f w of (e, w1) \<Rightarrow> (case run_direct cs w1 of (es, w2) \<Rightarrow> (e # es, w2)))"

fun outcomes :: "'w work list \<Rightarrow> 'w \<Rightarrow> bool list" where
  "outcomes [] w = []"
| "outcomes ((ctx, f) # cs) w = (\<not> backendFault ctx (fst (f w))) # outcomes cs (snd (f w))"

lemma rounds_append: "rounds api (rs @ qs) b = rounds api qs (rounds api rs b)"
  by (induction api rs b rule: rounds.induct) (auto split: sum.splits)

lemma fail_run_append_False: "\<not> fail_run k n (xs @ ys) \<Longrightarrow> \<not> fail_run k n xs"
  by (induction k n xs rule: fail_run.induct) auto

lemma outcomes_append: "outcomes (cs @ ds) w = outcomes cs w @ outcomes ds (snd (run_direct cs w))"
  by (induction cs w rule: outcomes.induct) (auto split: prod.splits)

lemma run_calls_append:
  "run_calls api clock name (cs @ ds) s =
     (case run_calls api clock name cs s of
        (es, s1) \<Rightarrow> (case run_calls api clock name ds s1 of (es', s2) \<Rightarrow> (es @ es', s2)))"
  by (induction api clock name cs s rule: run_calls.induct) (auto split: prod.splits)

text \<open>The board has seen the rounds \<open>rs\<close> of the named upstream.\<close>

definition has_seen :: "('b, 'r) breaker_api \<Rightarrow> string \<Rightarrow> round list \<Rightarrow> 'b board \<Rightarrow> bool" where
  "has_seen api name rs b \<longleftrightarrow>
     fst (board_breaker api name b) =
       rounds api rs (br_new api ConsecutiveFailuresTrip (board_delay b) halfOpenMaxRequests) \<and>
     (rs = [] \<or> map_of (bd_cb b) name \<noteq> None)"

lemma board_delay_new [simp]: "board_delay NewBoard = OpenTimeout"
  by (simp add: board_delay_def NewBoard_def)

lemma has_seen_new [simp]: "has_seen api name [] NewBoard"
  by (simp add: has_seen_def board_breaker_def NewBoard_def Let_def board_delay_def)

lemma fail_run_snoc_True: "fail_run k n (xs @ [True]) = fail_run k n xs"
  by (induction k n xs rule: fail_run.induct) auto

lemma board_delay_put [simp]: "board_delay (b\<lparr>bd_cb := m\<rparr>) = board_delay b"
  by (simp add: board_delay_def)

lemma board_breaker_delay: "board_breaker api name b = (c, b') \<Longrightarrow> board_delay b' = board_delay b"
  by (auto simp: board_breaker_def Let_def split: option.splits)

lemma board_breaker_put [simp]:
  "fst (board_breaker api name (b\<lparr>bd_cb := put name c m\<rparr>)) = c"
  by (simp add: board_breaker_def)

lemma Execute_permitted:
  assumes fs: "failsafe_contract api" and seen: "has_seen api (normalizeName name) rs b"
    and no: "\<not> fail_run ConsecutiveFailuresTrip 0 (map round_ok rs)"
  shows "\<exists>b'. Execute api clock ctx name (plain_call f) (Some b, w) = (fst (f w), Some b', snd (f w)) \<and>
    has_seen api (normalizeName name)
      (rs @ [(clock w, clock (snd (f w)), \<not> backendFault ctx (fst (f w)))]) b' \<and>
    board_delay b' = board_delay b"
proof -
  let ?n = "normalizeName name"
  let ?new = "br_new api ConsecutiveFailuresTrip (board_delay b) halfOpenMaxRequests"
  obtain cb b1 where bb: "board_breaker api ?n b = (cb, b1)" by fastforce
  with seen have cb: "cb = rounds api rs ?new" by (simp add: has_seen_def)
  have "0 < ConsecutiveFailuresTrip" by (simp add: ConsecutiveFailuresTrip_def)
  with fs no have "\<exists>c. br_enter api (clock w) (rounds api rs ?new) = Inr c"
    unfolding failsafe_contract_def by blast
  then obtain c where c: "br_enter api (clock w) cb = Inr c" using cb by blast
  obtain e w' where f: "f w = (e, w')" by fastforce
  show ?thesis
    using bb c f board_breaker_delay [OF bb]
    by (simp add: Execute_def plain_call_def leave_breaker_def has_seen_def rounds_append cb [symmetric])
qed

lemma run_calls_permitted:
  assumes fs: "failsafe_contract api" and "has_seen api (normalizeName name) rs b"
    and "\<not> fail_run ConsecutiveFailuresTrip 0 (map round_ok rs @ outcomes cs w)"
  shows "\<exists>b' qs. run_calls api clock name cs (Some b, w) =
      (fst (run_direct cs w), Some b', snd (run_direct cs w)) \<and>
    has_seen api (normalizeName name) (rs @ qs) b' \<and> map round_ok qs = outcomes cs w \<and>
    board_delay b' = board_delay b"
  using assms(2-)
proof (induction cs arbitrary: rs b w)
  case Nil
  then show ?case by (auto intro: exI [of _ "[]"])
next
  case (Cons c cs)
  obtain ctx f where c: "c = (ctx, f)" by (cases c)
  obtain e w1 where f: "f w = (e, w1)" by fastforce
  let ?r = "(clock w, clock w1, \<not> backendFault ctx e)"
  have "\<not> fail_run ConsecutiveFailuresTrip 0 (map round_ok rs)"
    using Cons.prems(2) by (rule fail_run_append_False)
  from Execute_permitted [OF fs Cons.prems(1) this, of clock ctx f w] obtain b1 where
    b1: "Execute api clock ctx name (plain_call f) (Some b, w) = (e, Some b1, w1)"
      "has_seen api (normalizeName name) (rs @ [?r]) b1" "board_delay b1 = board_delay b"
    using f by auto
  have "\<not> fail_run ConsecutiveFailuresTrip 0 (map round_ok (rs @ [?r]) @ outcomes cs w1)"
    using Cons.prems(2) c f by simp
  from Cons.IH [OF b1(2) this] obtain b' qs where
    "run_calls api clock name cs (Some b1, w1) = (fst (run_direct cs w1), Some b', snd (run_direct cs w1))"
    "has_seen api (normalizeName name) ((rs @ [?r]) @ qs) b'" "map round_ok qs = outcomes cs w1"
    "board_delay b' = board_delay b1"
    by blast
  then show ?case
    using b1 c f by (intro exI [of _ b'] exI [of _ "?r # qs"]) (simp split: prod.split)
qed

section \<open>A breaker that meets the contract\<close>

text \<open>A count-based breaker with one trial call, on which the hypotheses below can hold.\<close>

datatype count_breaker = CB (cb_k: nat) (cb_d: int) (cb_run: nat) (cb_opened: int) (cb_st: breaker_state)

fun count_enter :: "int \<Rightarrow> count_breaker \<Rightarrow> goerr + count_breaker" where
  "count_enter t (CB k d n o1 ClosedState) = Inr (CB k d n o1 ClosedState)"
| "count_enter t (CB k d n o1 OpenState) =
     (if t < o1 + d then Inl (Sent BreakerOpen) else Inr (CB k d n o1 HalfOpenState))"
| "count_enter t (CB k d n o1 _) = Inl (Sent BreakerOpen)"

fun count_leave :: "int \<Rightarrow> bool \<Rightarrow> count_breaker \<Rightarrow> count_breaker" where
  "count_leave t ok (CB k d n o1 ClosedState) =
     (if ok then CB k d 0 o1 ClosedState
      else if k \<le> Suc n then CB k d 0 t OpenState
      else CB k d (Suc n) o1 ClosedState)"
| "count_leave t ok (CB k d n o1 HalfOpenState) =
     (if ok then CB k d 0 o1 ClosedState else CB k d 0 t OpenState)"
| "count_leave t ok b = b"

definition count_api :: "(count_breaker, nat) breaker_api" where
  "count_api = \<lparr>br_new = (\<lambda>k d s. CB k d 0 0 ClosedState), br_enter = count_enter,
     br_leave = count_leave, br_state = cb_st,
     br_metrics = (\<lambda>b. \<lparr>m_executions = 0, m_successes = 0, m_failures = cb_run b, m_failure_rate = 0\<rparr>)\<rparr>"

lemma count_rounds:
  "\<not> fail_run k n (map round_ok rs) \<Longrightarrow>
   \<exists>m. rounds count_api rs (CB k d n o1 ClosedState) = CB k d m o1 ClosedState \<and>
     (\<forall>os. fail_run k n (map round_ok rs @ os) = fail_run k m os)"
proof (induction rs arbitrary: n)
  case (Cons r rs)
  obtain t0 t1 ok where r: "r = (t0, t1, ok)" by (cases r)
  with Cons.prems have "\<not> fail_run k (if ok then 0 else Suc n) (map round_ok rs)"
    by (auto split: if_splits)
  from Cons.IH [OF this] Cons.prems r show ?case
    by (auto simp: count_api_def split: if_splits)
qed (simp add: count_api_def)

lemma count_api_contract: "failsafe_contract count_api"
  unfolding failsafe_contract_def
proof (intro conjI allI impI)
  fix k :: nat and d :: int and s :: nat and rs :: "round list" and t :: int
  assume "0 < k \<and> \<not> fail_run k 0 (map round_ok rs)"
  then obtain m where m: "rounds count_api rs (CB k d 0 0 ClosedState) = CB k d m 0 ClosedState"
    using count_rounds by blast
  then show "br_state count_api (rounds count_api rs (br_new count_api k d s)) = ClosedState"
    and "\<exists>b'. br_enter count_api t (rounds count_api rs (br_new count_api k d s)) = Inr b'"
    by (simp_all add: count_api_def)
next
  fix k :: nat and d :: int and s :: nat and rs :: "round list" and t0 t1 t :: int
  assume a: "0 < k \<and> \<not> fail_run k 0 (map round_ok rs) \<and>
    fail_run k 0 (map round_ok rs @ [False]) \<and> t1 \<le> t \<and> t < t1 + d"
  then obtain m where m: "rounds count_api rs (CB k d 0 0 ClosedState) = CB k d m 0 ClosedState"
    "\<forall>os. fail_run k 0 (map round_ok rs @ os) = fail_run k m os"
    using count_rounds by blast
  with a have "k \<le> Suc m" by simp
  then have "rounds count_api (rs @ [(t0, t1, False)]) (br_new count_api k d s) = CB k d 0 t1 OpenState"
    using m(1) by (simp add: rounds_append) (simp add: count_api_def)
  then show "br_state count_api (rounds count_api (rs @ [(t0, t1, False)]) (br_new count_api k d s)) = OpenState"
    and "br_enter count_api t (rounds count_api (rs @ [(t0, t1, False)]) (br_new count_api k d s)) =
      Inl (Sent BreakerOpen)"
    using a by (simp_all add: count_api_def)
qed

section \<open>Properties\<close>

text \<open>C16: While no three calls in a row are the backend's fault, the breaker of an upstream is
  invisible: each call runs, and returns what it would have returned without a breaker.\<close>

theorem breaker_transparent:
  assumes "failsafe_contract api"
    and "\<not> fail_run ConsecutiveFailuresTrip 0 (outcomes cs w)"
  shows "\<exists>bd. run_calls api clock name cs (Some NewBoard, w) =
    (fst (run_direct cs w), Some bd, snd (run_direct cs w))"
  using run_calls_permitted [where name = name and rs = "[]" and b = NewBoard and clock = clock
      and cs = cs and w = w, OF assms(1)] assms(2) by auto

text \<open>Two timeouts, then a call that the caller cancelled, then a timeout on the caller's own budget.\<close>

definition faulty :: "code \<Rightarrow> nat \<Rightarrow> goerr option \<times> nat" where
  "faulty c w = (Some (DomainErr (err_new c ''dial'' ''failed'')), Suc w)"

definition mixed_calls :: "nat work list" where
  "mixed_calls =
     [(None, faulty CodeTimeout), (None, faulty CodeTimeout), (None, faulty CodeCanceled),
      (Some \<lparr>ctx_err = None, caller_budget = True\<rparr>, faulty CodeTimeout)]"

theorem breaker_transparent_witness:
  "\<exists>bd. run_calls count_api int ''a'' mixed_calls (Some NewBoard, 0) =
    (fst (run_direct mixed_calls 0), Some bd, snd (run_direct mixed_calls 0))"
  by (rule breaker_transparent [OF count_api_contract])
    (simp add: mixed_calls_def faulty_def backendFault_iff CallerBudgetFrom_def ConsecutiveFailuresTrip_def)

text \<open>Once three calls in a row have been the backend's fault, every further call within the open
  time is refused and the function is not run: the world and the board stay as they are.\<close>

lemma three_faults_refuse:
  assumes "failsafe_contract api"
    and "\<not> fail_run ConsecutiveFailuresTrip 0 (outcomes cs w)"
    and "fail_run ConsecutiveFailuresTrip 0 (outcomes (cs @ [c]) w)"
    and "run_calls api clock name (cs @ [c]) (Some NewBoard, w) = (es, bd, w1)"
    and "clock w1 \<le> clock w2" and "clock w2 < clock w1 + OpenTimeout"
  shows "Execute api clock ctx name fn (bd, w2) = (Some (UnavailableError (normalizeName name) ErrOpen), bd, w2)"
proof -
  let ?n = "normalizeName name"
  obtain b qs where b:
    "run_calls api clock name cs (Some NewBoard, w) =
       (fst (run_direct cs w), Some b, snd (run_direct cs w))"
    "has_seen api ?n qs b" "map round_ok qs = outcomes cs w" "board_delay b = OpenTimeout"
    using run_calls_permitted [where name = name and rs = "[]" and b = NewBoard and clock = clock
        and cs = cs and w = w, OF assms(1)] assms(2) by auto
  obtain ctx' f where c: "c = (ctx', f)" by (cases c)
  let ?w = "snd (run_direct cs w)"
  let ?r = "(clock ?w, clock (snd (f ?w)), \<not> backendFault ctx' (fst (f ?w)))"
  from Execute_permitted [OF assms(1) b(2), of clock ctx' f ?w] assms(2) b(3) obtain b' where
    b': "Execute api clock ctx' name (plain_call f) (Some b, ?w) = (fst (f ?w), Some b', snd (f ?w))"
      "has_seen api ?n (qs @ [?r]) b'" "board_delay b' = board_delay b"
    by auto
  have w1: "bd = Some b'" "w1 = snd (f ?w)"
    using assms(4) b(1) b'(1) c by (auto simp: run_calls_append)
  have fault: "backendFault ctx' (fst (f ?w))"
    using assms(2,3) c
    by (cases "backendFault ctx' (fst (f ?w))") (auto simp: outcomes_append fail_run_snoc_True)
  have d: "board_delay b' = OpenTimeout"
    using b(4) b'(3) by simp
  obtain cb where cb: "board_breaker api ?n b' = (cb, b')"
    using b'(2) by (auto simp: has_seen_def board_breaker_def)
  have "cb = rounds api (qs @ [?r]) (br_new api ConsecutiveFailuresTrip OpenTimeout halfOpenMaxRequests)"
    using cb b'(2) d by (simp add: has_seen_def)
  moreover have "0 < ConsecutiveFailuresTrip" by (simp add: ConsecutiveFailuresTrip_def)
  moreover have "fail_run ConsecutiveFailuresTrip 0 (map round_ok qs @ [False])"
    using assms(3) b(3) c fault by (simp add: outcomes_append)
  ultimately have "br_state api cb = OpenState" "br_enter api (clock w2) cb = Inl (Sent BreakerOpen)"
    using assms(1,2,5,6) b(3) fault w1(2) unfolding failsafe_contract_def by simp_all
  then show ?thesis using cb w1(1) by (simp add: Execute_def is_sentinel_def)
qed

definition timeout_calls :: "nat work list" where
  "timeout_calls = [(None, faulty CodeTimeout), (None, faulty CodeTimeout)]"

text \<open>An error counts against a backend's breaker only when the gateway answers it with 502
  and the upstream itself did not answer with a 4xx, or with 504 on a budget the caller did not
  choose: rate limits, client errors and errors raised inside the gateway never count.\<close>

theorem backend_fault_only_server_side:
  assumes "backendFault ctx err"
  shows "http_status err = 502 \<and> upstreamStatus err \<notin> {400..<500} \<or>
    http_status err = 504 \<and> CallerBudgetFrom ctx = False"
proof -
  have "trim_space (err_field err FieldStatus) = err_field err FieldStatus"
    using err_field_find [of FieldStatus err]
    by (cases "trim_space FieldStatus = []") (auto simp: err_field_Nil split: option.split)
  then show ?thesis
    using assms by (auto simp: backendFault_iff http_status_def upstreamStatus_def answeredClientError_def
        split: if_splits option.splits)
qed

theorem backend_fault_only_server_side_witness:
  "http_status (Some (DomainErr (err_new CodeTimeout ''dial'' ''slow''))) = 502 \<and>
     upstreamStatus (Some (DomainErr (err_new CodeTimeout ''dial'' ''slow''))) \<notin> {400..<500} \<or>
   http_status (Some (DomainErr (err_new CodeTimeout ''dial'' ''slow''))) = 504 \<and>
     CallerBudgetFrom None = False"
  by (rule backend_fault_only_server_side) (simp add: backendFault_iff CallerBudgetFrom_def)

end
