(* ===== verification/Backends.thy ===== *)
theory Backends
  imports Timeouts
begin

text \<open>
  Backends and their model gates: the \<open>BackendDef\<close> part of
  \<open>internal/config/router_config.go\<close>, \<open>internal/config/models.go\<close> and the union of the
  runtime allow overlay in \<open>internal/config/allow_overlay.go\<close>. A capability is the string
  the configuration holds. The lemmas reduce the many comparisons of the allow gate to one
  on normalised ids, and show that what the gateway lists from an allow list passes the gate.
\<close>

section \<open>Capabilities and backends\<close>

type_synonym capability = string

definition CapChat :: capability where "CapChat = ''chat''"
definition CapVision :: capability where "CapVision = ''vision''"
definition CapEmbed :: capability where "CapEmbed = ''embed''"
definition CapTTS :: capability where "CapTTS = ''tts''"
definition CapSTT :: capability where "CapSTT = ''stt''"
definition CapVoices :: capability where "CapVoices = ''voices''"
definition CapSystemOne :: capability where "CapSystemOne = ''systemone''"
definition CapBatch :: capability where "CapBatch = ''batch''"

lemmas cap_defs = CapChat_def CapVision_def CapEmbed_def CapTTS_def CapSTT_def CapVoices_def
  CapSystemOne_def CapBatch_def

definition capability_valid :: "capability \<Rightarrow> bool" where
  "capability_valid c \<longleftrightarrow>
     c \<in> set [CapChat, CapVision, CapEmbed, CapTTS, CapSTT, CapVoices, CapSystemOne, CapBatch]"

definition ExtensionCloudflare :: string where "ExtensionCloudflare = ''cloudflare''"
definition ExtensionGemini :: string where "ExtensionGemini = ''gemini''"
definition ExtensionAnthropic :: string where "ExtensionAnthropic = ''anthropic''"
definition ExtensionTypesafe :: string where "ExtensionTypesafe = ''typesafe''"
definition openRouterBackendID :: string where "openRouterBackendID = ''openrouter''"
definition DefaultSystemOneDownstream :: string where "DefaultSystemOneDownstream = ''typesafe/jev''"

record backend_models =
  bm_sync :: "bool option"
  bm_allow_configured :: bool
  bm_allow :: "string list"
  bm_systemone_allow_configured :: bool
  bm_systemone_allow :: "string list"

record backend_def =
  bk_id :: string
  bk_remote :: bool
  bk_extension :: string
  bk_base_url :: string
  bk_bearer_env :: string
  bk_extra_headers :: "string gomap"
  bk_capabilities :: "capability list"
  bk_models :: "backend_models option"
  bk_prompt_cache :: "bool option"

definition hasExtension :: "backend_def \<Rightarrow> string \<Rightarrow> bool" where
  "hasExtension b name = equal_fold (trim_space (bk_extension b)) (trim_space name)"

definition IsCloudflareExtension :: "backend_def \<Rightarrow> bool" where
  "IsCloudflareExtension b = hasExtension b ExtensionCloudflare"

definition IsGeminiExtension :: "backend_def \<Rightarrow> bool" where
  "IsGeminiExtension b = hasExtension b ExtensionGemini"

definition IsAnthropicExtension :: "backend_def \<Rightarrow> bool" where
  "IsAnthropicExtension b = hasExtension b ExtensionAnthropic"

definition IsTypesafeExtension :: "backend_def \<Rightarrow> bool" where
  "IsTypesafeExtension b = hasExtension b ExtensionTypesafe"

definition hasSystemOneRoute :: "backend_def \<Rightarrow> bool" where
  "hasSystemOneRoute b =
     (IsCloudflareExtension b \<or> bk_id b = openRouterBackendID \<or> IsTypesafeExtension b)"

definition AutoPromptCache :: "backend_def \<Rightarrow> bool" where
  "AutoPromptCache b =
     (if \<not> IsAnthropicExtension b then False
      else case bk_prompt_cache b of None \<Rightarrow> True | Some p \<Rightarrow> p)"

definition baseURLOptional :: "backend_def \<Rightarrow> bool" where
  "baseURLOptional b = (IsGeminiExtension b \<or> IsAnthropicExtension b \<or> IsTypesafeExtension b)"

definition HasCapability :: "backend_def \<Rightarrow> capability \<Rightarrow> bool" where
  "HasCapability b want = list_ex (\<lambda>c. c = want) (bk_capabilities b)"

section \<open>The allow gate\<close>

text \<open>\<open>UnmarshalYAML\<close> on the decoded block: an absent list is \<open>None\<close>.\<close>

definition backend_models_of_yaml ::
  "bool option \<Rightarrow> string list option \<Rightarrow> string list option \<Rightarrow> backend_models" where
  "backend_models_of_yaml sync allow systemone_allow =
     \<lparr>bm_sync = sync,
      bm_allow_configured = (allow \<noteq> None),
      bm_allow = (case allow of None \<Rightarrow> [] | Some as \<Rightarrow> as),
      bm_systemone_allow_configured = (systemone_allow \<noteq> None),
      bm_systemone_allow = (case systemone_allow of None \<Rightarrow> [] | Some as \<Rightarrow> as)\<rparr>"

definition ShouldSync :: "backend_models option \<Rightarrow> bool" where
  "ShouldSync m =
     (case m of None \<Rightarrow> True | Some bm \<Rightarrow> (case bm_sync bm of None \<Rightarrow> True | Some s \<Rightarrow> s))"

definition HasAllowGate :: "backend_models option \<Rightarrow> bool" where
  "HasAllowGate m = (case m of None \<Rightarrow> False | Some bm \<Rightarrow> bm_allow_configured bm)"

definition NormalizeDownstream :: "string \<Rightarrow> string \<Rightarrow> string" where
  "NormalizeDownstream backendID0 model0 =
     (let backendID = trim_space backendID0; model = trim_space model0
      in if model = [] then []
         else if backendID \<noteq> [] \<and> has_prefix model (backendID @ ''/'')
           then trim_space (drop (length backendID + 1) model)
         else model)"

definition entry_matches :: "string \<Rightarrow> string \<Rightarrow> string \<Rightarrow> bool" where
  "entry_matches backendID model entry0 =
     (let down = NormalizeDownstream backendID model;
          entry = trim_space entry0;
          entryDown = NormalizeDownstream backendID entry
      in if entry = [] then False
         else if model = entry \<or> model = entryDown \<or> down = entry \<or> down = entryDown then True
         else if backendID \<noteq> [] then
           model = backendID @ ''/'' @ entryDown \<or> model = backendID @ ''/'' @ entry \<or>
           entry = backendID @ ''/'' @ down
         else False)"

definition ModelInAllowList :: "string \<Rightarrow> string \<Rightarrow> string list \<Rightarrow> bool" where
  "ModelInAllowList backendID model0 allow =
     (let model = trim_space model0
      in if model = [] then False else list_ex (entry_matches backendID model) allow)"

definition IsModelAllowed :: "backend_def \<Rightarrow> string \<Rightarrow> bool" where
  "IsModelAllowed b model =
     (case bk_models b of
        None \<Rightarrow> True
      | Some bm \<Rightarrow>
          if \<not> HasAllowGate (Some bm) then True else ModelInAllowList (bk_id b) model (bm_allow bm))"

definition IsSystemOneDownstream :: "backend_def \<Rightarrow> string \<Rightarrow> bool" where
  "IsSystemOneDownstream b downstream =
     (if \<not> HasCapability b CapSystemOne then False
      else case bk_models b of
        Some bm \<Rightarrow>
          if bm_systemone_allow_configured bm
          then ModelInAllowList (bk_id b) downstream (bm_systemone_allow bm)
          else ModelInAllowList (bk_id b) downstream [DefaultSystemOneDownstream]
      | None \<Rightarrow> ModelInAllowList (bk_id b) downstream [DefaultSystemOneDownstream])"

text \<open>The loop of \<open>SyntheticAllowModels\<close>; \<open>seen\<close> and \<open>out\<close> are its two variables.\<close>

fun synthetic_loop :: "string \<Rightarrow> string list \<Rightarrow> string set \<Rightarrow> string list \<Rightarrow> string list" where
  "synthetic_loop backendID [] seen out = out"
| "synthetic_loop backendID (e # es) seen out =
     (let entry = trim_space e; down = NormalizeDownstream backendID entry;
          bid = (if backendID = [] then down else backendID @ ''/'' @ down)
      in if entry = [] \<or> down = [] \<or> bid \<in> seen then synthetic_loop backendID es seen out
         else synthetic_loop backendID es (insert bid seen) (out @ [bid]))"

definition SyntheticAllowModels :: "string \<Rightarrow> string list \<Rightarrow> string list" where
  "SyntheticAllowModels backendID allow = synthetic_loop backendID allow {} []"

text \<open>\<open>validate\<close>: the first blank entry, by its list and index.\<close>

datatype models_error = AllowEmpty string nat | SystemOneAllowEmpty string nat

fun blank_at :: "nat \<Rightarrow> string list \<Rightarrow> nat option" where
  "blank_at i [] = None"
| "blank_at i (a # as) = (if trim_space a = [] then Some i else blank_at (Suc i) as)"

definition validate_models :: "backend_models option \<Rightarrow> string \<Rightarrow> models_error option" where
  "validate_models m backendID =
     (case m of
        None \<Rightarrow> None
      | Some bm \<Rightarrow> first_error
          [if bm_allow_configured bm then map_option (AllowEmpty backendID) (blank_at 0 (bm_allow bm)) else None,
           if bm_systemone_allow_configured bm
           then map_option (SystemOneAllowEmpty backendID) (blank_at 0 (bm_systemone_allow bm)) else None])"

section \<open>The overlay union\<close>

datatype skip_reason = SkipUnknownBackend | SkipNoAllowGate

text \<open>The inner loop of \<open>applyAllowOverlay\<close> over one backend's overlay entries.\<close>

fun union_allow :: "string \<Rightarrow> string list \<Rightarrow> string list \<Rightarrow> string list" where
  "union_allow backendID [] allow = allow"
| "union_allow backendID (e # es) allow =
     (let entry = trim_space e
      in if entry = [] \<or> ModelInAllowList backendID entry allow then union_allow backendID es allow
         else union_allow backendID es (allow @ [NormalizeDownstream backendID entry]))"

text \<open>One backend of the overlay, and the whole overlay in sorted order.\<close>

definition overlay_step ::
  "string list gomap \<Rightarrow> string \<Rightarrow> backend_def gomap \<times> (string \<times> skip_reason) list
   \<Rightarrow> backend_def gomap \<times> (string \<times> skip_reason) list" where
  "overlay_step overlay backendID = (\<lambda>(backends, skipped).
     let extra = (case map_of overlay backendID of None \<Rightarrow> [] | Some as \<Rightarrow> as)
     in case map_of backends backendID of
          None \<Rightarrow> (backends, skipped @ [(backendID, SkipUnknownBackend)])
        | Some b \<Rightarrow>
            (case bk_models b of
               Some bm \<Rightarrow>
                 if HasAllowGate (Some bm) then
                   (put backendID
                      (b\<lparr>bk_models := Some (bm\<lparr>bm_allow := union_allow backendID extra (bm_allow bm)\<rparr>)\<rparr>)
                      backends, skipped)
                 else (backends, skipped @ [(backendID, SkipNoAllowGate)])
             | None \<Rightarrow> (backends, skipped @ [(backendID, SkipNoAllowGate)])))"

definition apply_overlay ::
  "string list gomap \<Rightarrow> backend_def gomap \<Rightarrow> backend_def gomap \<times> (string \<times> skip_reason) list" where
  "apply_overlay overlay backends = fold (overlay_step overlay) (sorted_keys overlay) (backends, [])"

section \<open>Normalised ids\<close>

lemma NormalizeDownstream_trim [simp]:
  "trim_space (NormalizeDownstream b m) = NormalizeDownstream b m"
  by (simp add: NormalizeDownstream_def Let_def)

lemma NormalizeDownstream_trim_arg [simp]:
  "NormalizeDownstream b (trim_space m) = NormalizeDownstream b m"
  "NormalizeDownstream (trim_space b) m = NormalizeDownstream b m"
  by (simp_all add: NormalizeDownstream_def Let_def)

lemma drop_slash: "drop (length b + 1) (b @ CHR ''/'' # t) = t"
  by (induction b) auto

lemma NormalizeDownstream_prefixed:
  assumes "b \<noteq> []" "trim_space b = b" "trim_space x = x"
  shows "NormalizeDownstream b (b @ CHR ''/'' # x) = x"
proof -
  have "trim_space (b @ CHR ''/'' # x) = b @ CHR ''/'' # x"
    using assms by (intro trim_space_sep) (simp_all add: graphic_def)
  moreover have "has_prefix (b @ CHR ''/'' # x) (b @ ''/'')"
    using has_prefix_append [of "b @ ''/''" x] by simp
  ultimately show ?thesis
    using assms drop_slash [of b x] by (simp add: NormalizeDownstream_def Let_def)
qed

lemma NormalizeDownstream_Nil [simp]: "NormalizeDownstream [] m = trim_space m"
  by (simp add: NormalizeDownstream_def Let_def)

text \<open>The comparisons that build a prefixed id add nothing to those on normalised ids.\<close>

lemma entry_matches_iff:
  assumes "trim_space b = b" "trim_space m = m"
  shows "entry_matches b m e \<longleftrightarrow> trim_space e \<noteq> [] \<and>
    (NormalizeDownstream b m = NormalizeDownstream b e \<or> m = NormalizeDownstream b e \<or>
     NormalizeDownstream b m = trim_space e)"
proof (cases "b = []")
  case True
  then show ?thesis using assms by (auto simp: entry_matches_def Let_def)
next
  case b: False
  let ?N = "NormalizeDownstream b"
  have p: "?N (b @ ''/'' @ x) = x" if "trim_space x = x" for x
    using NormalizeDownstream_prefixed [OF b assms(1) that] by simp
  have "?N m = ?N e" if "m = b @ ''/'' @ ?N e"
    using that p [of "?N e"] by simp
  moreover have "?N m = trim_space e" if "m = b @ ''/'' @ trim_space e"
    using that p [of "trim_space e"] by simp
  moreover have "?N m = ?N e" if "trim_space e = b @ ''/'' @ ?N m"
  proof -
    have "?N (trim_space e) = ?N m" unfolding that by (rule p) simp
    then show ?thesis by simp
  qed
  moreover have "?N m = ?N e" if "m = trim_space e"
    using that by simp
  ultimately have "(m = trim_space e \<or> m = ?N e \<or> ?N m = trim_space e \<or> ?N m = ?N e \<or>
      m = b @ ''/'' @ ?N e \<or> m = b @ ''/'' @ trim_space e \<or> trim_space e = b @ ''/'' @ ?N m) \<longleftrightarrow>
    (?N m = ?N e \<or> m = ?N e \<or> ?N m = trim_space e)"
    by blast
  then show ?thesis
    using b by (simp only: entry_matches_def Let_def NormalizeDownstream_trim_arg if_True if_False simp_thms) metis
qed

lemma ModelInAllowList_iff:
  assumes "trim_space b = b"
  shows "ModelInAllowList b m allow \<longleftrightarrow> trim_space m \<noteq> [] \<and>
    (\<exists>e \<in> set allow. trim_space e \<noteq> [] \<and>
      (NormalizeDownstream b m = NormalizeDownstream b e \<or> trim_space m = NormalizeDownstream b e \<or>
       NormalizeDownstream b m = trim_space e))"
  using assms by (auto simp: ModelInAllowList_def Let_def list_ex_iff entry_matches_iff)

lemma ModelInAllowList_mono:
  "ModelInAllowList b m allow \<Longrightarrow> set allow \<subseteq> set allow' \<Longrightarrow> ModelInAllowList b m allow'"
  by (auto simp: ModelInAllowList_def Let_def list_ex_iff split: if_splits)

definition public_id :: "string \<Rightarrow> string \<Rightarrow> string" where
  "public_id b e =
     (if b = [] then NormalizeDownstream b e else b @ ''/'' @ NormalizeDownstream b e)"

lemma synthetic_loop_Cons:
  "synthetic_loop b (e # es) seen out =
     (if NormalizeDownstream b e = [] \<or> public_id b e \<in> seen then synthetic_loop b es seen out
      else synthetic_loop b es (insert (public_id b e) seen) (out @ [public_id b e]))"
proof -
  have "NormalizeDownstream b e = []" if "trim_space e = []"
    using that by (simp add: NormalizeDownstream_def Let_def)
  then have "(trim_space e = [] \<or> NormalizeDownstream b e = [] \<or> X) = (NormalizeDownstream b e = [] \<or> X)" for X
    by blast
  then show ?thesis
    by (simp only: synthetic_loop.simps Let_def public_id_def NormalizeDownstream_trim_arg)
qed

lemma synthetic_loop_inv:
  assumes "distinct out"
  shows "distinct (synthetic_loop b es (set out) out) \<and>
    set (synthetic_loop b es (set out) out) =
      set out \<union> public_id b ` {e \<in> set es. NormalizeDownstream b e \<noteq> []}"
  using assms
proof (induction es arbitrary: out)
  case (Cons e es)
  show ?case
  proof (cases "NormalizeDownstream b e = [] \<or> public_id b e \<in> set out")
    case True
    with Cons show ?thesis unfolding synthetic_loop_Cons by auto
  next
    case False
    have "insert (public_id b e) (set out) = set (out @ [public_id b e])" by simp
    moreover have "distinct (out @ [public_id b e])" using False Cons.prems by simp
    ultimately show ?thesis
      using False Cons.IH [of "out @ [public_id b e]"] unfolding synthetic_loop_Cons by auto
  qed
qed simp

lemma union_allow_extends: "\<exists>new. union_allow b es allow = allow @ new"
proof (induction b es allow rule: union_allow.induct)
  case (2 b e es allow)
  then show ?case by (fastforce simp: Let_def)
qed simp

lemma union_allow_admits:
  assumes "trim_space b = b" "e \<in> set es" "NormalizeDownstream b e \<noteq> []"
  shows "ModelInAllowList b e (union_allow b es allow)"
  using assms
proof (induction b es allow rule: union_allow.induct)
  case (2 b f es allow)
  let ?a = "if trim_space f = [] \<or> ModelInAllowList b (trim_space f) allow then allow
    else allow @ [NormalizeDownstream b (trim_space f)]"
  have u: "union_allow b (f # es) allow = union_allow b es ?a" by (simp add: Let_def)
  have ne: "trim_space e \<noteq> []" using "2.prems"(3) by (auto simp: NormalizeDownstream_def Let_def)
  show ?case
  proof (cases "e \<in> set es")
    case True
    with "2.IH" "2.prems" show ?thesis by (auto simp: Let_def)
  next
    case False
    with "2.prems" have [simp]: "f = e" by simp
    have "ModelInAllowList b e ?a"
      using "2.prems" ne by (auto simp: ModelInAllowList_iff)
    moreover have "set ?a \<subseteq> set (union_allow b es ?a)"
      using union_allow_extends [of b es ?a] by (metis set_append Un_upper1)
    ultimately show ?thesis unfolding u by (rule ModelInAllowList_mono)
  qed
qed simp

text \<open>What the overlay does to one backend: a gated allow list grows, anything else stays.\<close>

definition widen :: "string list \<Rightarrow> string \<Rightarrow> backend_def \<Rightarrow> backend_def" where
  "widen extra k b =
     (case bk_models b of
        None \<Rightarrow> b
      | Some bm \<Rightarrow>
          if bm_allow_configured bm
          then b\<lparr>bk_models := Some (bm\<lparr>bm_allow := union_allow k extra (bm_allow bm)\<rparr>)\<rparr>
          else b)"

definition overlay_extra :: "string list gomap \<Rightarrow> string \<Rightarrow> string list" where
  "overlay_extra overlay k = (case map_of overlay k of None \<Rightarrow> [] | Some as \<Rightarrow> as)"

lemma overlay_step_lookup:
  "map_of (fst (overlay_step overlay k s)) k' =
     (if k' = k then map_option (widen (overlay_extra overlay k) k) (map_of (fst s) k)
      else map_of (fst s) k')"
  by (cases s) (auto simp: overlay_step_def widen_def overlay_extra_def Let_def HasAllowGate_def
      split: option.splits)

lemma overlay_fold_lookup:
  "distinct ks \<Longrightarrow> map_of (fst (fold (overlay_step overlay) ks s)) k =
     (if k \<in> set ks then map_option (widen (overlay_extra overlay k) k) (map_of (fst s) k)
      else map_of (fst s) k)"
  by (induction ks arbitrary: s) (auto simp: overlay_step_lookup)

lemma apply_overlay_lookup:
  assumes "distinct (map fst overlay)"
  shows "map_of (fst (apply_overlay overlay bs)) k =
    (if k \<in> fst ` set overlay then map_option (widen (overlay_extra overlay k) k) (map_of bs k)
     else map_of bs k)"
proof -
  have "distinct (sorted_keys overlay)" using assms by (simp add: sorted_keys_def)
  then show ?thesis
    by (simp add: apply_overlay_def overlay_fold_lookup)
qed

lemma widen_sel [simp]:
  "bk_id (widen extra k b) = bk_id b" "bk_capabilities (widen extra k b) = bk_capabilities b"
  "HasAllowGate (bk_models (widen extra k b)) = HasAllowGate (bk_models b)"
  by (auto simp: widen_def HasAllowGate_def split: option.split)

lemma widen_mono: "IsModelAllowed b m \<Longrightarrow> IsModelAllowed (widen extra k b) m"
proof -
  have "set as \<subseteq> set (union_allow k extra as)" for as
    using union_allow_extends [of k extra as] by (metis set_append Un_upper1)
  then show "IsModelAllowed b m \<Longrightarrow> IsModelAllowed (widen extra k b) m"
    by (auto simp: widen_def IsModelAllowed_def HasAllowGate_def split: option.splits if_splits
        intro: ModelInAllowList_mono)
qed

lemma widen_admits:
  assumes "bk_id b = k" "trim_space k = k" "e \<in> set extra" "NormalizeDownstream k e \<noteq> []"
  shows "IsModelAllowed (widen extra k b) e"
  using union_allow_admits [of k e extra] assms
  by (auto simp: widen_def IsModelAllowed_def HasAllowGate_def split: option.splits)

section \<open>Properties\<close>

text \<open>Every id the gateway lists from a backend's allow list alone is listed once, and passes
  that backend's allow gate when a client sends it back.\<close>

theorem synthetic_models_pass_the_gate:
  assumes "trim_space backend = backend"
  shows "distinct (SyntheticAllowModels backend allow) \<and>
    (\<forall>m \<in> set (SyntheticAllowModels backend allow). ModelInAllowList backend m allow)"
proof -
  let ?N = "NormalizeDownstream backend"
  have inv: "distinct (SyntheticAllowModels backend allow)"
    "set (SyntheticAllowModels backend allow) = public_id backend ` {e \<in> set allow. ?N e \<noteq> []}"
    using synthetic_loop_inv [of "[]" backend allow] by (simp_all add: SyntheticAllowModels_def)
  have "ModelInAllowList backend (public_id backend e) allow" if e: "e \<in> set allow" "?N e \<noteq> []" for e
  proof -
    have ne: "trim_space e \<noteq> []" using e(2) by (auto simp: NormalizeDownstream_def Let_def)
    have "?N (public_id backend e) = ?N e \<and> trim_space (public_id backend e) \<noteq> []"
    proof (cases "backend = []")
      case False
      have "?N (backend @ CHR ''/'' # ?N e) = ?N e"
        using False assms by (intro NormalizeDownstream_prefixed) simp_all
      moreover have "trim_space (backend @ CHR ''/'' # ?N e) = backend @ CHR ''/'' # ?N e"
        using assms by (intro trim_space_sep) (simp_all add: graphic_def)
      ultimately show ?thesis using False by (simp add: public_id_def)
    qed (use ne in \<open>simp add: public_id_def\<close>)
    with e ne show ?thesis using assms by (auto simp: ModelInAllowList_iff)
  qed
  then show ?thesis using inv by auto
qed

theorem synthetic_models_pass_the_gate_witness:
  "SyntheticAllowModels ''ds'' [''ds/chat'', '' chat '', ''coder''] = [''ds/chat'', ''ds/coder''] \<and>
   ModelInAllowList ''ds'' ''ds/coder'' [''ds/chat'', '' chat '', ''coder'']"
proof -
  have t: "trim_space ''ds'' = ''ds''" by (simp add: trim_space_id graphic_def)
  have e: "SyntheticAllowModels ''ds'' [''ds/chat'', '' chat '', ''coder''] = [''ds/chat'', ''ds/coder'']"
    by code_simp
  with synthetic_models_pass_the_gate [OF t, of "[''ds/chat'', '' chat '', ''coder'']"] show ?thesis
    by simp
qed

text \<open>The runtime overlay only widens: it adds and removes no backend, a model a backend
  allowed stays allowed, every overlay entry that names a model is allowed on its backend
  afterwards, and a backend the overlay does not mention is untouched.\<close>

theorem overlay_only_widens:
  assumes "distinct (map fst overlay)" and "map_of backends k = Some b"
  shows "\<exists>b'. map_of (fst (apply_overlay overlay backends)) k = Some b' \<and>
    (\<forall>m. IsModelAllowed b m \<longrightarrow> IsModelAllowed b' m) \<and>
    (\<forall>es e. map_of overlay k = Some es \<and> e \<in> set es \<and> NormalizeDownstream k e \<noteq> [] \<and>
       bk_id b = k \<and> trim_space k = k \<longrightarrow> IsModelAllowed b' e) \<and>
    (map_of overlay k = None \<longrightarrow> b' = b)"
proof (cases "map_of overlay k")
  case None
  then have "k \<notin> fst ` set overlay" by (simp add: map_of_eq_None_iff)
  with assms None show ?thesis by (simp add: apply_overlay_lookup)
next
  case (Some es)
  then have "k \<in> fst ` set overlay" by (rule map_of_mem)
  with assms Some show ?thesis
    by (auto simp: apply_overlay_lookup overlay_extra_def intro: widen_mono widen_admits)
qed

definition gated_backend :: backend_def where
  "gated_backend =
     \<lparr>bk_id = ''ds'', bk_remote = True, bk_extension = [], bk_base_url = ''https://ds'',
      bk_bearer_env = ''DS'', bk_extra_headers = [], bk_capabilities = [CapChat],
      bk_models = Some (backend_models_of_yaml None (Some [''chat'']) None), bk_prompt_cache = None\<rparr>"

theorem overlay_only_widens_witness:
  "\<exists>b'. map_of (fst (apply_overlay [(''ds'', [''ds/coder''])] [(''ds'', gated_backend)])) ''ds'' = Some b' \<and>
     \<not> IsModelAllowed gated_backend ''ds/coder'' \<and> IsModelAllowed b' ''ds/coder''"
proof -
  let ?ov = "[(''ds'', [''ds/coder''])]" and ?bs = "[(''ds'', gated_backend)]"
  have n: "NormalizeDownstream ''ds'' ''ds/coder'' \<noteq> []" "trim_space ''ds'' = ''ds''"
    "bk_id gated_backend = ''ds''" "\<not> IsModelAllowed gated_backend ''ds/coder''"
    by code_simp+
  have "distinct (map fst ?ov)" "map_of ?bs ''ds'' = Some gated_backend" by simp_all
  from overlay_only_widens [OF this] obtain b' where
    b': "map_of (fst (apply_overlay ?ov ?bs)) ''ds'' = Some b'"
    "\<forall>es e. map_of ?ov ''ds'' = Some es \<and> e \<in> set es \<and> NormalizeDownstream ''ds'' e \<noteq> [] \<and>
       bk_id gated_backend = ''ds'' \<and> trim_space ''ds'' = ''ds'' \<longrightarrow> IsModelAllowed b' e"
    by blast
  have "IsModelAllowed b' ''ds/coder''"
    by (rule b'(2) [rule_format, of "[''ds/coder'']"]) (simp add: n(1-3))
  with b'(1) n(4) show ?thesis by blast
qed

end
