(* ===== verification/Named_Routers.thy ===== *)
theory Named_Routers
  imports Complex_Main Backends Json
begin

text \<open>
  \<open>internal/config/routers.go\<close>: the named \<open>router/<name>\<close> entries of the configuration, from
  the decoded YAML to a validated route. A route is a passthrough, a stage router, a
  classifier or an ordered fallback; the composed ones are served by Switchyard, under target
  names this file derives. An error is the configuration path it names and the problem there.
  A YAML float is a rational number, an infinity or NaN. The lemmas show what a route that
  loads satisfies, and that the target names emitted for all routers are distinct.
\<close>

section \<open>Data\<close>

datatype yaml_float = Fin rat | PosInf | NegInf | NaN

text \<open>Go's \<open><\<close> on \<open>float64\<close>: false on NaN.\<close>

fun float_less :: "yaml_float \<Rightarrow> yaml_float \<Rightarrow> bool" where
  "float_less (Fin a) (Fin b) = (a < b)"
| "float_less NegInf (Fin _) = True"
| "float_less NegInf PosInf = True"
| "float_less (Fin _) PosInf = True"
| "float_less _ _ = False"

definition RouterIDPrefix :: string where "RouterIDPrefix = ''router/''"
definition reservedBackendID :: string where "reservedBackendID = ''router''"
definition RoutePassthrough :: string where "RoutePassthrough = ''passthrough''"
definition RouteStageRouter :: string where "RouteStageRouter = ''stage_router''"
definition RouteLLMClassifier :: string where "RouteLLMClassifier = ''llm_classifier''"
definition RouteFallback :: string where "RouteFallback = ''fallback''"
definition PickerEfficientFirst :: string where "PickerEfficientFirst = ''efficient_first''"
definition PickerCapableFirst :: string where "PickerCapableFirst = ''capable_first''"
definition ClassifierModeCustom :: string where "ClassifierModeCustom = ''custom''"
definition PolicyTargetSelector :: string where "PolicyTargetSelector = ''target_selector''"
definition DefaultSwitchyardBaseURL :: string where
  "DefaultSwitchyardBaseURL = ''http://127.0.0.1:4000''"

lemmas route_type_defs = RoutePassthrough_def RouteStageRouter_def RouteLLMClassifier_def RouteFallback_def

record classifier_target =
  ct_name :: string
  ct_model :: string

record router_route =
  rt_type :: string
  rt_target :: string
  rt_capable :: string
  rt_efficient :: string
  rt_picker :: string
  rt_confidence_threshold :: yaml_float
  rt_recent_turn_window :: "int option"
  rt_mode :: string
  rt_classifier :: string
  rt_targets :: "classifier_target list"
  rt_default_target :: string
  rt_prompt :: string
  rt_response_schema :: string
  rt_policy_type :: string
  rt_policy_selector :: string
  rt_session_affinity :: "bool option"
  rt_message_hash_fallback :: "bool option"
  rt_max_output_tokens :: "int option"
  rt_fallback_targets :: "string list"

definition zero_route :: router_route where
  "zero_route =
     \<lparr>rt_type = [], rt_target = [], rt_capable = [], rt_efficient = [], rt_picker = [],
      rt_confidence_threshold = Fin 0, rt_recent_turn_window = None, rt_mode = [],
      rt_classifier = [], rt_targets = [], rt_default_target = [], rt_prompt = [],
      rt_response_schema = [], rt_policy_type = [], rt_policy_selector = [],
      rt_session_affinity = None, rt_message_hash_fallback = None, rt_max_output_tokens = None,
      rt_fallback_targets = []\<rparr>"

record named_router =
  nr_name :: string
  nr_capability :: capability
  nr_route :: router_route

record switchyard_config =
  sy_base_url :: string
  sy_config_path :: string

record policy_file =
  pf_type :: string
  pf_selector :: string

record route_file =
  rf_type :: string
  rf_target :: string
  rf_capable :: string
  rf_efficient :: string
  rf_picker :: string
  rf_confidence_threshold :: "yaml_float option"
  rf_recent_turn_window :: "int option"
  rf_mode :: string
  rf_classifier :: string
  rf_targets_named :: "string gomap"
  rf_targets_ordered :: "string list"
  rf_default_target :: string
  rf_prompt :: string
  rf_response_schema :: string
  rf_policy :: "policy_file option"
  rf_session_affinity :: "bool option"
  rf_message_hash_fallback :: "bool option"
  rf_max_output_tokens :: "int option"

record router_file =
  rfile_capability :: string
  rfile_route :: route_file

text \<open>The problems the loader reports.\<close>

datatype router_problem =
    MissingValue
  | MustNotBeEmpty
  | NotAllowedFor string
  | UnsupportedValue string
  | BadName string
  | NameStartsWithDigit string
  | OutOfRange
  | TooFewTargets
  | RepeatsLeaf string
  | CollidesWithJudge
  | DuplicateTarget
  | NotATargetName string
  | HasSchemaPlaceholder
  | NotJson
  | NotJsonObject
  | EmptyJsonObject
  | NotAPointer
  | NeedsSessionAffinity
  | MustBeList
  | MustBeMapping
  | ReservedBackend
  | NotChat
  | LeafShape string
  | LeafWithoutModel string
  | RouterBackend
  | UnknownBackend string
  | LacksCapability string capability
  | NotInAllowList string
  | TargetConflict string string

datatype router_error = RouterErr string router_problem

definition at_route :: "string \<Rightarrow> string \<Rightarrow> string" where
  "at_route name suffix = ''routers.'' @ name @ ''.route.'' @ suffix"

definition fails :: "bool \<Rightarrow> string \<Rightarrow> router_problem \<Rightarrow> router_error option" where
  "fails b path p = (if b then Some (RouterErr path p) else None)"

section \<open>Names\<close>

definition RouterPublicID :: "string \<Rightarrow> string" where
  "RouterPublicID name = RouterIDPrefix @ trim_space name"

definition isComposed :: "named_router \<Rightarrow> bool" where
  "isComposed r =
     (rt_type (nr_route r) = RouteStageRouter \<or> rt_type (nr_route r) = RouteLLMClassifier \<or>
      rt_type (nr_route r) = RouteFallback)"

definition FallbackTargetName :: "string \<Rightarrow> nat \<Rightarrow> string" where
  "FallbackTargetName routerName index = trim_space routerName @ ''_'' @ nat_text index"

definition StageTargetNames :: "string \<Rightarrow> string \<times> string" where
  "StageTargetNames routerName =
     (let n = trim_space routerName in (n @ ''_capable'', n @ ''_efficient''))"

definition ClassifierTargetName :: "string \<Rightarrow> string" where
  "ClassifierTargetName routerName = trim_space routerName @ ''_classifier''"

definition name_char :: "char \<Rightarrow> bool" where
  "name_char c =
     (between (CHR ''a'') (CHR ''z'') c \<or> between (CHR ''A'') (CHR ''Z'') c \<or> is_digit c \<or>
      c = CHR ''_'' \<or> c = CHR ''-'')"

fun name_loop :: "nat \<Rightarrow> string \<Rightarrow> string \<Rightarrow> router_problem option" where
  "name_loop i name [] = None"
| "name_loop i name (c # cs) =
     (if \<not> name_char c then Some (BadName name)
      else if i = 0 \<and> is_digit c then Some (NameStartsWithDigit name)
      else name_loop (Suc i) name cs)"

definition validateRouterName :: "string \<Rightarrow> router_problem option" where
  "validateRouterName name = (if name = [] then Some MustNotBeEmpty else name_loop 0 name name)"

section \<open>Refusing the fields of other route types\<close>

definition rejectStageOnlyFields :: "string \<Rightarrow> string \<Rightarrow> route_file \<Rightarrow> router_error option" where
  "rejectStageOnlyFields name routeType file =
     first_error
      [fails (trim_space (rf_capable file) \<noteq> []) (at_route name ''capable'') (NotAllowedFor routeType),
       fails (trim_space (rf_efficient file) \<noteq> []) (at_route name ''efficient'') (NotAllowedFor routeType),
       fails (trim_space (rf_picker file) \<noteq> []) (at_route name ''picker'') (NotAllowedFor routeType),
       fails (rf_confidence_threshold file \<noteq> None) (at_route name ''confidence_threshold'') (NotAllowedFor routeType),
       fails (rf_recent_turn_window file \<noteq> None) (at_route name ''recent_turn_window'') (NotAllowedFor routeType)]"

definition targets_empty :: "route_file \<Rightarrow> bool" where
  "targets_empty file = (rf_targets_named file = [] \<and> rf_targets_ordered file = [])"

definition rejectClassifierOnlyFields :: "string \<Rightarrow> string \<Rightarrow> route_file \<Rightarrow> router_error option" where
  "rejectClassifierOnlyFields name routeType file =
     first_error
      [fails (trim_space (rf_mode file) \<noteq> []) (at_route name ''mode'') (NotAllowedFor routeType),
       fails (trim_space (rf_classifier file) \<noteq> []) (at_route name ''classifier'') (NotAllowedFor routeType),
       fails (\<not> targets_empty file) (at_route name ''targets'') (NotAllowedFor routeType),
       fails (trim_space (rf_default_target file) \<noteq> []) (at_route name ''default_target'') (NotAllowedFor routeType),
       fails (trim_space (rf_prompt file) \<noteq> []) (at_route name ''prompt'') (NotAllowedFor routeType),
       fails (trim_space (rf_response_schema file) \<noteq> []) (at_route name ''response_schema'') (NotAllowedFor routeType),
       fails (rf_policy file \<noteq> None) (at_route name ''policy'') (NotAllowedFor routeType),
       fails (rf_session_affinity file \<noteq> None) (at_route name ''session_affinity'') (NotAllowedFor routeType),
       fails (rf_message_hash_fallback file \<noteq> None) (at_route name ''message_hash_fallback'') (NotAllowedFor routeType),
       fails (rf_max_output_tokens file \<noteq> None) (at_route name ''max_output_tokens'') (NotAllowedFor routeType)]"

definition rejectPassthroughRouteExtras :: "string \<Rightarrow> route_file \<Rightarrow> router_error option" where
  "rejectPassthroughRouteExtras name file =
     first_error [rejectStageOnlyFields name RoutePassthrough file,
       rejectClassifierOnlyFields name RoutePassthrough file]"

definition rejectFallbackRouteExtras :: "string \<Rightarrow> route_file \<Rightarrow> router_error option" where
  "rejectFallbackRouteExtras name file =
     (let rest = file\<lparr>rf_targets_named := [], rf_targets_ordered := []\<rparr>
      in first_error
        [fails (rf_targets_named file \<noteq> []) (at_route name ''targets'') MustBeList,
         fails (trim_space (rf_target file) \<noteq> []) (at_route name ''target'') (NotAllowedFor RouteFallback),
         rejectStageOnlyFields name RouteFallback rest,
         rejectClassifierOnlyFields name RouteFallback rest])"

definition rejectStageRouteExtras :: "string \<Rightarrow> route_file \<Rightarrow> router_error option" where
  "rejectStageRouteExtras name file =
     first_error
      [fails (trim_space (rf_target file) \<noteq> []) (at_route name ''target'') (NotAllowedFor RouteStageRouter),
       rejectClassifierOnlyFields name RouteStageRouter file]"

definition rejectClassifierRouteExtras :: "string \<Rightarrow> route_file \<Rightarrow> router_error option" where
  "rejectClassifierRouteExtras name file =
     first_error
      [fails (rf_targets_ordered file \<noteq> []) (at_route name ''targets'') MustBeMapping,
       fails (trim_space (rf_target file) \<noteq> []) (at_route name ''target'') (NotAllowedFor RouteLLMClassifier),
       rejectStageOnlyFields name RouteLLMClassifier (file\<lparr>rf_recent_turn_window := None\<rparr>)]"

section \<open>Parsing a route\<close>

definition parseStageRoute :: "string \<Rightarrow> route_file \<Rightarrow> router_error + router_route" where
  "parseStageRoute name file =
     (let capable = trim_space (rf_capable file);
          efficient = trim_space (rf_efficient file);
          picker = trim_space (rf_picker file)
      in if capable = [] then Inl (RouterErr (at_route name ''capable'') MissingValue)
         else if efficient = [] then Inl (RouterErr (at_route name ''efficient'') MissingValue)
         else if picker = [] then Inl (RouterErr (at_route name ''picker'') MissingValue)
         else if picker \<noteq> PickerEfficientFirst \<and> picker \<noteq> PickerCapableFirst
           then Inl (RouterErr (at_route name ''picker'') (UnsupportedValue picker))
         else case rf_confidence_threshold file of
           None \<Rightarrow> Inl (RouterErr (at_route name ''confidence_threshold'') MissingValue)
         | Some threshold \<Rightarrow>
             if float_less threshold (Fin 0) \<or> float_less (Fin 1) threshold
             then Inl (RouterErr (at_route name ''confidence_threshold'') OutOfRange)
             else if (case rf_recent_turn_window file of None \<Rightarrow> False | Some w \<Rightarrow> w < 1)
             then Inl (RouterErr (at_route name ''recent_turn_window'') OutOfRange)
             else Inr (zero_route\<lparr>rt_type := RouteStageRouter, rt_capable := capable,
               rt_efficient := efficient, rt_picker := picker, rt_confidence_threshold := threshold,
               rt_recent_turn_window := rf_recent_turn_window file\<rparr>))"

text \<open>The loop of \<open>parseFallbackRoute\<close> from index \<open>i\<close>; \<open>leaves\<close> holds what \<open>seen\<close> holds.\<close>

fun fallback_loop :: "string \<Rightarrow> nat \<Rightarrow> string list \<Rightarrow> string list \<Rightarrow> router_error + string list" where
  "fallback_loop name i [] leaves = Inr leaves"
| "fallback_loop name i (raw # rest) leaves =
     (let leaf = trim_space raw
      in if leaf = [] then Inl (RouterErr (at_route name (''targets['' @ nat_text i @ '']'')) MustNotBeEmpty)
         else if leaf \<in> set leaves
           then Inl (RouterErr (at_route name (''targets['' @ nat_text i @ '']'')) (RepeatsLeaf leaf))
         else fallback_loop name (Suc i) rest (leaves @ [leaf]))"

definition parseFallbackRoute :: "string \<Rightarrow> route_file \<Rightarrow> router_error + router_route" where
  "parseFallbackRoute name file =
     (if length (rf_targets_ordered file) < 2 then Inl (RouterErr (at_route name ''targets'') TooFewTargets)
      else case fallback_loop name 0 (rf_targets_ordered file) [] of
        Inl e \<Rightarrow> Inl e
      | Inr leaves \<Rightarrow> Inr (zero_route\<lparr>rt_type := RouteFallback, rt_fallback_targets := leaves\<rparr>))"

text \<open>One round of \<open>parseClassifierTargets\<close>; \<open>seen\<close> is the set of the names so far.\<close>

definition classifier_step ::
  "string \<Rightarrow> string gomap \<Rightarrow> string \<Rightarrow> classifier_target list \<Rightarrow> router_error + classifier_target list" where
  "classifier_step name named rawKey targets =
     (let key = trim_space rawKey;
          path = at_route name (''targets.'' @ key)
      in if key = [] then Inl (RouterErr (at_route name ''targets'') MustNotBeEmpty)
         else case validateRouterName key of Some p \<Rightarrow> Inl (RouterErr path p)
         | None \<Rightarrow>
           if key = ClassifierTargetName name then Inl (RouterErr path CollidesWithJudge)
           else if key \<in> ct_name ` set targets then Inl (RouterErr path DuplicateTarget)
           else
             let model = trim_space (case map_of named rawKey of None \<Rightarrow> [] | Some v \<Rightarrow> v)
             in if model = [] then Inl (RouterErr path MissingValue)
                else Inr (targets @ [\<lparr>ct_name = key, ct_model = model\<rparr>]))"

definition parseClassifierTargets :: "string \<Rightarrow> string gomap \<Rightarrow> router_error + classifier_target list" where
  "parseClassifierTargets name named = fold_res (classifier_step name named) (sorted_keys named) []"

definition classifierSelector :: "string \<Rightarrow> policy_file option \<Rightarrow> router_error + string" where
  "classifierSelector name policy =
     (case policy of
        None \<Rightarrow> Inl (RouterErr (at_route name ''policy'') MissingValue)
      | Some p \<Rightarrow>
          (let policyType = trim_space (pf_type p); selector = trim_space (pf_selector p)
           in if policyType = [] then Inl (RouterErr (at_route name ''policy.type'') MissingValue)
              else if policyType \<noteq> PolicyTargetSelector
                then Inl (RouterErr (at_route name ''policy.type'') (UnsupportedValue policyType))
              else if selector = [] then Inl (RouterErr (at_route name ''policy.selector'') MissingValue)
              else if \<not> has_prefix selector ''/''
                then Inl (RouterErr (at_route name ''policy.selector'') NotAPointer)
              else Inr selector))"

definition validateClassifierKnobs :: "string \<Rightarrow> route_file \<Rightarrow> router_error option" where
  "validateClassifierKnobs name file =
     first_error
      [fails (case rf_recent_turn_window file of None \<Rightarrow> False | Some w \<Rightarrow> w < 0)
         (at_route name ''recent_turn_window'') OutOfRange,
       fails (case rf_max_output_tokens file of None \<Rightarrow> False | Some n \<Rightarrow> n < 1)
         (at_route name ''max_output_tokens'') OutOfRange,
       fails (rf_message_hash_fallback file = Some True \<and> rf_session_affinity file \<noteq> Some True)
         (at_route name ''message_hash_fallback'') NeedsSessionAffinity]"

text \<open>\<open>json.Unmarshal\<close> into \<open>any\<close>; numbers beyond a \<open>float64\<close> are read here as numbers.\<close>

definition validateClassifierResponseSchema :: "string \<Rightarrow> string \<Rightarrow> router_error option" where
  "validateClassifierResponseSchema name schema =
     (case json_parse schema of
        None \<Rightarrow> Some (RouterErr (at_route name ''response_schema'') NotJson)
      | Some (JObj ms) \<Rightarrow>
          if ms = [] then Some (RouterErr (at_route name ''response_schema'') EmptyJsonObject) else None
      | Some _ \<Rightarrow> Some (RouterErr (at_route name ''response_schema'') NotJsonObject))"

definition parseLLMClassifierRoute :: "string \<Rightarrow> route_file \<Rightarrow> router_error + router_route" where
  "parseLLMClassifierRoute name file =
     (let mode = trim_space (rf_mode file);
          classifier = trim_space (rf_classifier file);
          defaultTarget = trim_space (rf_default_target file);
          prompt = trim_space (rf_prompt file);
          schema = trim_space (rf_response_schema file)
      in case first_error
           [fails (mode = []) (at_route name ''mode'') MissingValue,
            fails (mode \<noteq> ClassifierModeCustom) (at_route name ''mode'') (UnsupportedValue mode),
            fails (classifier = []) (at_route name ''classifier'') MissingValue,
            fails (length (rf_targets_named file) < 2) (at_route name ''targets'') TooFewTargets] of
         Some e \<Rightarrow> Inl e
       | None \<Rightarrow>
         (case parseClassifierTargets name (rf_targets_named file) of
            Inl e \<Rightarrow> Inl e
          | Inr targets \<Rightarrow>
            (case first_error
               [fails (defaultTarget = []) (at_route name ''default_target'') MissingValue,
                fails (defaultTarget \<notin> ct_name ` set targets) (at_route name ''default_target'')
                  (NotATargetName defaultTarget),
                fails (prompt = []) (at_route name ''prompt'') MissingValue,
                fails (contains prompt ''{{RESPONSE_SCHEMA}}'') (at_route name ''prompt'') HasSchemaPlaceholder,
                fails (schema = []) (at_route name ''response_schema'') MissingValue,
                validateClassifierResponseSchema name schema] of
               Some e \<Rightarrow> Inl e
             | None \<Rightarrow>
               (case classifierSelector name (rf_policy file) of
                  Inl e \<Rightarrow> Inl e
                | Inr selector \<Rightarrow>
                  (case validateClassifierKnobs name file of
                     Some e \<Rightarrow> Inl e
                   | None \<Rightarrow>
                     Inr (zero_route\<lparr>rt_type := RouteLLMClassifier, rt_mode := ClassifierModeCustom,
                       rt_classifier := classifier, rt_targets := targets,
                       rt_default_target := defaultTarget, rt_prompt := prompt,
                       rt_response_schema := schema, rt_policy_type := PolicyTargetSelector,
                       rt_policy_selector := selector,
                       rt_recent_turn_window := rf_recent_turn_window file,
                       rt_session_affinity := rf_session_affinity file,
                       rt_message_hash_fallback := rf_message_hash_fallback file,
                       rt_max_output_tokens := rf_max_output_tokens file\<rparr>))))))"

definition parseRouterRoute :: "string \<Rightarrow> route_file \<Rightarrow> router_error + router_route" where
  "parseRouterRoute name file =
     (let routeType = trim_space (rf_type file); target = trim_space (rf_target file)
      in if routeType = [] then Inl (RouterErr (at_route name ''type'') MissingValue)
         else if routeType = RoutePassthrough then
           (case rejectPassthroughRouteExtras name file of
              Some e \<Rightarrow> Inl e
            | None \<Rightarrow>
                if target = [] then Inl (RouterErr (at_route name ''target'') MissingValue)
                else Inr (zero_route\<lparr>rt_type := RoutePassthrough, rt_target := target\<rparr>))
         else if routeType = RouteStageRouter then
           (case rejectStageRouteExtras name file of Some e \<Rightarrow> Inl e | None \<Rightarrow> parseStageRoute name file)
         else if routeType = RouteLLMClassifier then
           (case rejectClassifierRouteExtras name file of
              Some e \<Rightarrow> Inl e | None \<Rightarrow> parseLLMClassifierRoute name file)
         else if routeType = RouteFallback then
           (case rejectFallbackRouteExtras name file of Some e \<Rightarrow> Inl e | None \<Rightarrow> parseFallbackRoute name file)
         else Inl (RouterErr (at_route name ''type'') (UnsupportedValue routeType)))"

definition router_step ::
  "router_file gomap \<Rightarrow> string \<Rightarrow> named_router gomap \<Rightarrow> router_error + named_router gomap" where
  "router_step raw rawName out =
     (case map_of raw rawName of
        None \<Rightarrow> Inr out
      | Some entry \<Rightarrow>
        (let name = trim_space rawName; cap = trim_space (rfile_capability entry)
         in if name = [] then Inl (RouterErr ''routers'' MustNotBeEmpty)
            else case validateRouterName name of Some p \<Rightarrow> Inl (RouterErr (''routers.'' @ name) p)
            | None \<Rightarrow>
              if cap = [] then Inl (RouterErr (''routers.'' @ name @ ''.capability'') MissingValue)
              else case parseRouterRoute name (rfile_route entry) of
                Inl e \<Rightarrow> Inl e
              | Inr route \<Rightarrow>
                  Inr (put name \<lparr>nr_name = name, nr_capability = cap, nr_route = route\<rparr> out)))"

definition parseNamedRouters :: "router_file gomap \<Rightarrow> router_error + named_router gomap" where
  "parseNamedRouters raw = fold_res (router_step raw) (sorted_keys raw) []"

section \<open>Validating the routers against the backends\<close>

record route_leaf =
  rl_field :: string
  rl_leaf :: string
  rl_target :: string

definition fallback_leaf :: "string \<Rightarrow> nat \<times> string \<Rightarrow> route_leaf" where
  "fallback_leaf name = (\<lambda>(i, leaf).
     \<lparr>rl_field = at_route name (''targets['' @ nat_text i @ '']''), rl_leaf = leaf,
      rl_target = FallbackTargetName name i\<rparr>)"

definition routeLeaves :: "string \<Rightarrow> router_route \<Rightarrow> router_error + route_leaf list" where
  "routeLeaves name route =
     (if rt_type route = RoutePassthrough then
        Inr [\<lparr>rl_field = at_route name ''target'', rl_leaf = rt_target route, rl_target = []\<rparr>]
      else if rt_type route = RouteStageRouter then
        (case StageTargetNames name of (capable, efficient) \<Rightarrow>
          Inr [\<lparr>rl_field = at_route name ''capable'', rl_leaf = rt_capable route, rl_target = capable\<rparr>,
               \<lparr>rl_field = at_route name ''efficient'', rl_leaf = rt_efficient route, rl_target = efficient\<rparr>])
      else if rt_type route = RouteLLMClassifier then
        Inr (\<lparr>rl_field = at_route name ''classifier'', rl_leaf = rt_classifier route,
               rl_target = ClassifierTargetName name\<rparr> #
             map (\<lambda>t. \<lparr>rl_field = at_route name (''targets.'' @ ct_name t), rl_leaf = ct_model t,
               rl_target = ct_name t\<rparr>) (rt_targets route))
      else if rt_type route = RouteFallback then
        Inr (map (fallback_leaf name) (enumerate 0 (rt_fallback_targets route)))
      else Inl (RouterErr (at_route name ''type'') (UnsupportedValue (rt_type route))))"

definition splitLeafModel :: "string \<Rightarrow> router_problem + string \<times> string" where
  "splitLeafModel leaf0 =
     (let leaf = trim_space leaf0
      in case cut leaf (CHR ''/'') of
           (b, None) \<Rightarrow> Inl (LeafShape leaf)
         | (b, Some rest) \<Rightarrow>
             if b = [] then Inl (LeafShape leaf)
             else if trim_space rest = [] then Inl (LeafWithoutModel leaf)
             else Inr (b, trim_space rest))"

definition validateChatLeaf :: "backend_def gomap \<Rightarrow> string \<Rightarrow> string \<Rightarrow> router_error option" where
  "validateChatLeaf backends leaf field =
     (case splitLeafModel leaf of
        Inl p \<Rightarrow> Some (RouterErr field p)
      | Inr (backendID, model) \<Rightarrow>
          if backendID = reservedBackendID then Some (RouterErr field RouterBackend)
          else case map_of backends backendID of
            None \<Rightarrow> Some (RouterErr field (UnknownBackend backendID))
          | Some b \<Rightarrow>
              if \<not> HasCapability b CapChat then Some (RouterErr field (LacksCapability backendID CapChat))
              else if \<not> IsModelAllowed b model \<and> \<not> IsModelAllowed b leaf
                then Some (RouterErr field (NotInAllowList leaf))
              else None)"

text \<open>The inner loop over one router's leaves; \<open>owners\<close> maps a target name to its router.\<close>

definition leaf_step ::
  "backend_def gomap \<Rightarrow> string \<Rightarrow> route_leaf \<Rightarrow> string gomap \<Rightarrow> router_error + string gomap" where
  "leaf_step backends name l owners =
     (case validateChatLeaf backends (rl_leaf l) (rl_field l) of
        Some e \<Rightarrow> Inl e
      | None \<Rightarrow>
          if rl_target l = [] then Inr owners
          else case map_of owners (rl_target l) of
            Some other \<Rightarrow>
              if other \<noteq> name then Inl (RouterErr (rl_field l) (TargetConflict (rl_target l) other))
              else Inr (put (rl_target l) name owners)
          | None \<Rightarrow> Inr (put (rl_target l) name owners))"

definition validate_router ::
  "backend_def gomap \<Rightarrow> named_router gomap \<Rightarrow> string \<Rightarrow> string gomap \<Rightarrow> router_error + string gomap" where
  "validate_router backends routers name owners =
     (case map_of routers name of
        None \<Rightarrow> Inr owners
      | Some router \<Rightarrow>
          if nr_capability router \<noteq> CapChat then Inl (RouterErr (''routers.'' @ name @ ''.capability'') NotChat)
          else case routeLeaves name (nr_route router) of
            Inl e \<Rightarrow> Inl e
          | Inr leaves \<Rightarrow> fold_res (leaf_step backends name) leaves owners)"

definition validateRouters :: "backend_def gomap \<Rightarrow> named_router gomap \<Rightarrow> router_error option" where
  "validateRouters backends routers =
     (if map_of backends reservedBackendID \<noteq> None then Some (RouterErr ''backends.router'' ReservedBackend)
      else case fold_res (validate_router backends routers) (sorted_keys routers) [] of
        Inl e \<Rightarrow> Some e
      | Inr owners \<Rightarrow> None)"

section \<open>Switchyard and lookup\<close>

definition mergeSwitchyardFile :: "switchyard_config \<Rightarrow> switchyard_config" where
  "mergeSwitchyardFile file =
     \<lparr>sy_base_url = trim_right_char (CHR ''/'') (trim_space (sy_base_url file)),
      sy_config_path = trim_space (sy_config_path file)\<rparr>"

definition HasComposedRouters :: "named_router gomap \<Rightarrow> bool" where
  "HasComposedRouters routers = list_ex (\<lambda>(_, r). isComposed r) routers"

text \<open>The default path depends on the environment: it is the argument \<open>default_path\<close>.\<close>

definition fillSwitchyardDefaults ::
  "(goerr + string) \<Rightarrow> named_router gomap \<Rightarrow> switchyard_config \<Rightarrow> goerr + switchyard_config" where
  "fillSwitchyardDefaults default_path routers sy =
     (if \<not> HasComposedRouters routers then Inr sy
      else
        let sy1 = (if sy_base_url sy = [] then sy\<lparr>sy_base_url := DefaultSwitchyardBaseURL\<rparr> else sy)
        in if sy_config_path sy1 = [] then
             (case default_path of
                Inl e \<Rightarrow> Inl (Wrapf (''router: switchyard.config_path default: '' @ err_text e) e)
              | Inr p \<Rightarrow> Inr (sy1\<lparr>sy_config_path := p\<rparr>))
           else Inr sy1)"

definition EffectiveSwitchyardBaseURL :: "switchyard_config \<Rightarrow> string" where
  "EffectiveSwitchyardBaseURL sy =
     (let v = trim_right_char (CHR ''/'') (trim_space (sy_base_url sy))
      in if v \<noteq> [] then v else DefaultSwitchyardBaseURL)"

definition ResolveSwitchyardConfigPath :: "(goerr + string) \<Rightarrow> switchyard_config \<Rightarrow> goerr + string" where
  "ResolveSwitchyardConfigPath default_path sy =
     (let v = trim_space (sy_config_path sy) in if v \<noteq> [] then Inr v else default_path)"

definition LookupNamedRouter :: "named_router gomap \<Rightarrow> string \<Rightarrow> named_router option" where
  "LookupNamedRouter routers name0 =
     (let name = trim_prefix (trim_space name0) RouterIDPrefix
      in if name = [] then None else map_of routers name)"

section \<open>What a parsed route satisfies\<close>

lemma fails_None [simp]: "fails b path p = None \<longleftrightarrow> \<not> b"
  by (simp add: fails_def)

definition classifier_ok :: "string \<Rightarrow> router_route \<Rightarrow> bool" where
  "classifier_ok name r \<longleftrightarrow>
     2 \<le> length (rt_targets r) \<and> distinct (map ct_name (rt_targets r)) \<and>
     ClassifierTargetName name \<notin> ct_name ` set (rt_targets r) \<and>
     rt_default_target r \<in> ct_name ` set (rt_targets r) \<and>
     (\<forall>t \<in> set (rt_targets r). ct_name t \<noteq> [] \<and> ct_model t \<noteq> []) \<and>
     rt_classifier r \<noteq> [] \<and> rt_prompt r \<noteq> []"

definition stage_ok :: "router_route \<Rightarrow> bool" where
  "stage_ok r \<longleftrightarrow>
     rt_capable r \<noteq> [] \<and> rt_efficient r \<noteq> [] \<and>
     rt_picker r \<in> {PickerEfficientFirst, PickerCapableFirst} \<and>
     (case rt_confidence_threshold r of Fin q \<Rightarrow> 0 \<le> q \<and> q \<le> 1 | NaN \<Rightarrow> True | _ \<Rightarrow> False)"

definition fallback_ok :: "router_route \<Rightarrow> bool" where
  "fallback_ok r \<longleftrightarrow>
     2 \<le> length (rt_fallback_targets r) \<and> distinct (rt_fallback_targets r) \<and>
     [] \<notin> set (rt_fallback_targets r)"

definition route_ok :: "string \<Rightarrow> router_route \<Rightarrow> bool" where
  "route_ok name r \<longleftrightarrow>
     (if rt_type r = RoutePassthrough then rt_target r \<noteq> []
      else if rt_type r = RouteStageRouter then stage_ok r
      else if rt_type r = RouteLLMClassifier then classifier_ok name r
      else if rt_type r = RouteFallback then fallback_ok r else False)"

lemma route_types_distinct [simp]:
  "RouteStageRouter \<noteq> RoutePassthrough" "RouteLLMClassifier \<noteq> RoutePassthrough"
  "RouteFallback \<noteq> RoutePassthrough" "RouteLLMClassifier \<noteq> RouteStageRouter"
  "RouteFallback \<noteq> RouteStageRouter" "RouteFallback \<noteq> RouteLLMClassifier"
  by (simp_all add: route_type_defs)

lemmas route_types_distinct' [simp] = route_types_distinct [symmetric]

lemma fallback_loop_ok:
  "fallback_loop name i raw leaves = Inr out \<Longrightarrow> distinct leaves \<Longrightarrow> [] \<notin> set leaves \<Longrightarrow>
   distinct out \<and> [] \<notin> set out \<and> length out = length leaves + length raw"
  by (induction name i raw leaves rule: fallback_loop.induct) (auto simp: Let_def split: if_splits)

lemma parseStageRoute_ok: "parseStageRoute name file = Inr r \<Longrightarrow> rt_type r = RouteStageRouter \<and> stage_ok r"
  by (auto simp: parseStageRoute_def stage_ok_def Let_def zero_route_def
      split: if_splits option.splits yaml_float.splits)

lemma parseFallbackRoute_ok:
  "parseFallbackRoute name file = Inr r \<Longrightarrow> rt_type r = RouteFallback \<and> fallback_ok r"
  by (auto simp: parseFallbackRoute_def fallback_ok_def zero_route_def
      split: if_splits sum.splits dest!: fallback_loop_ok)

lemma classifier_step_Inr:
  assumes "classifier_step name named k ts = Inr ts'"
  shows "\<exists>t. ts' = ts @ [t] \<and> ct_name t \<notin> ct_name ` set ts \<and> ct_name t \<noteq> [] \<and> ct_model t \<noteq> [] \<and>
    ct_name t \<noteq> ClassifierTargetName name"
  using assms by (auto simp: classifier_step_def Let_def split: if_splits option.splits)

lemma classifier_fold_length:
  "fold_res (classifier_step name named) ks ts = Inr ts' \<Longrightarrow> length ts' = length ts + length ks"
  by (induction ks arbitrary: ts) (auto split: sum.splits dest!: classifier_step_Inr)

lemma parseClassifierTargets_ok:
  assumes "parseClassifierTargets name named = Inr ts"
  shows "length ts = length named \<and> distinct (map ct_name ts) \<and>
    ClassifierTargetName name \<notin> ct_name ` set ts \<and> (\<forall>t \<in> set ts. ct_name t \<noteq> [] \<and> ct_model t \<noteq> [])"
proof -
  let ?P = "\<lambda>ts. distinct (map ct_name ts) \<and> ClassifierTargetName name \<notin> ct_name ` set ts \<and>
    (\<forall>t \<in> set ts. ct_name t \<noteq> [] \<and> ct_model t \<noteq> [])"
  have f: "fold_res (classifier_step name named) (sorted_keys named) [] = Inr ts"
    using assms by (simp add: parseClassifierTargets_def)
  have "?P ts"
    by (rule fold_res_invariant [OF f]) (auto dest!: classifier_step_Inr)
  moreover have "length (sorted_keys named) = length named" by (simp add: sorted_keys_def)
  ultimately show ?thesis using classifier_fold_length [OF f] by simp
qed

lemma parseLLMClassifierRoute_ok:
  assumes "parseLLMClassifierRoute name file = Inr r"
  shows "rt_type r = RouteLLMClassifier \<and> classifier_ok name r"
proof -
  obtain ts where ts: "parseClassifierTargets name (rf_targets_named file) = Inr ts"
    and len: "\<not> length (rf_targets_named file) < 2"
    and r: "rt_type r = RouteLLMClassifier" "rt_targets r = ts" "rt_default_target r \<in> ct_name ` set ts"
      "rt_classifier r \<noteq> []" "rt_prompt r \<noteq> []"
    using assms
    by (auto simp: parseLLMClassifierRoute_def Let_def zero_route_def first_error_None
        split: sum.splits option.splits)
  with parseClassifierTargets_ok [OF ts] show ?thesis by (simp add: classifier_ok_def)
qed

lemma parseRouterRoute_ok: "parseRouterRoute name file = Inr r \<Longrightarrow> route_ok name r"
  by (auto simp: parseRouterRoute_def route_ok_def Let_def zero_route_def
      split: if_splits option.splits
      dest!: parseStageRoute_ok parseFallbackRoute_ok parseLLMClassifierRoute_ok)

definition routers_ok :: "named_router gomap \<Rightarrow> bool" where
  "routers_ok rs \<longleftrightarrow> distinct (map fst rs) \<and>
     (\<forall>(n, r) \<in> set rs. nr_name r = n \<and> validateRouterName n = None \<and> route_ok n (nr_route r))"

lemma set_put: "distinct (map fst m) \<Longrightarrow> set (put k v m) = insert (k, v) {(a, b) \<in> set m. a \<noteq> k}"
  by (induction m) (auto simp: image_iff)

lemma distinct_put: "distinct (map fst m) \<Longrightarrow> distinct (map fst (put k v m))"
  by (rule distinct_update)

lemma router_step_ok:
  assumes "routers_ok s" "router_step raw k s = Inr s'"
  shows "routers_ok s'"
proof -
  from assms(2) consider "s' = s"
    | e name r where "validateRouterName name = None" "route_ok name r"
        "s' = put name \<lparr>nr_name = name, nr_capability = e, nr_route = r\<rparr> s"
    by (auto simp: router_step_def Let_def split: option.splits if_splits sum.splits
        intro: parseRouterRoute_ok)
  then show ?thesis
    using assms(1) by cases (auto simp: routers_ok_def set_put distinct_put)
qed

lemma parseNamedRouters_ok: "parseNamedRouters raw = Inr rs \<Longrightarrow> routers_ok rs"
  unfolding parseNamedRouters_def
  by (erule fold_res_invariant) (auto intro: router_step_ok simp: routers_ok_def [of "[]"])

section \<open>The emitted target names\<close>

definition emitted :: "string \<Rightarrow> router_route \<Rightarrow> string list" where
  "emitted name route =
     (case routeLeaves name route of
        Inl _ \<Rightarrow> []
      | Inr ls \<Rightarrow> filter (\<lambda>t. t \<noteq> []) (map rl_target ls))"

lemma nat_text_inj: "nat_text i = nat_text j \<longleftrightarrow> i = j"
  by (metis digits_val_nat_text option.inject)

lemma fallback_target_inj: "FallbackTargetName n i = FallbackTargetName n j \<longleftrightarrow> i = j"
  by (simp add: FallbackTargetName_def nat_text_inj)

lemma fallback_targets_eq:
  "map rl_target (map (fallback_leaf name) (enumerate k ls)) =
     map (FallbackTargetName name) [k ..< k + length ls]"
  by (induction ls arbitrary: k) (simp_all add: fallback_leaf_def upt_rec)

lemma emitted_distinct: "route_ok name r \<Longrightarrow> distinct (emitted name r)"
proof -
  assume ok: "route_ok name r"
  have "inj_on (FallbackTargetName name) A" for A
    by (simp add: inj_on_def fallback_target_inj)
  then have fb: "distinct (map rl_target (map (fallback_leaf name) (enumerate 0 (rt_fallback_targets r))))"
    unfolding fallback_targets_eq by (simp add: distinct_map)
  show ?thesis
    using ok fb
    by (auto simp: route_ok_def emitted_def routeLeaves_def StageTargetNames_def Let_def classifier_ok_def
        comp_def image_iff split: if_splits)
qed

text \<open>The owners map only grows, and each emitted name ends up owned by its router.\<close>

definition owners_le :: "string gomap \<Rightarrow> string gomap \<Rightarrow> bool" where
  "owners_le o1 o2 \<longleftrightarrow> (\<forall>t n. map_of o1 t = Some n \<longrightarrow> map_of o2 t = Some n)"

lemma owners_le_refl [simp]: "owners_le s s"
  by (simp add: owners_le_def)

lemma owners_le_trans: "owners_le a b \<Longrightarrow> owners_le b c \<Longrightarrow> owners_le a c"
  by (auto simp: owners_le_def)

lemma leaf_step_Inr:
  assumes "leaf_step bs name l s = Inr s'"
  shows "owners_le s s' \<and> (rl_target l \<noteq> [] \<longrightarrow> map_of s' (rl_target l) = Some name) \<and>
    validateChatLeaf bs (rl_leaf l) (rl_field l) = None"
  using assms by (auto simp: leaf_step_def owners_le_def split: option.splits if_splits)

lemma leaves_fold_Inr:
  "fold_res (leaf_step bs name) ls s = Inr s' \<Longrightarrow>
   owners_le s s' \<and> (\<forall>l \<in> set ls. (rl_target l \<noteq> [] \<longrightarrow> map_of s' (rl_target l) = Some name) \<and>
     validateChatLeaf bs (rl_leaf l) (rl_field l) = None)"
proof (induction ls arbitrary: s)
  case (Cons l ls)
  then obtain s1 where s1: "leaf_step bs name l s = Inr s1" "fold_res (leaf_step bs name) ls s1 = Inr s'"
    by (auto split: sum.splits)
  show ?case
    using leaf_step_Inr [OF s1(1)] Cons.IH [OF s1(2)] by (auto simp: owners_le_def)
qed simp

definition leaves_served :: "backend_def gomap \<Rightarrow> string \<Rightarrow> named_router \<Rightarrow> bool" where
  "leaves_served bs name r \<longleftrightarrow>
     nr_capability r = CapChat \<and>
     (\<exists>ls. routeLeaves name (nr_route r) = Inr ls \<and>
       (\<forall>l \<in> set ls. validateChatLeaf bs (rl_leaf l) (rl_field l) = None))"

lemma validate_router_Inr:
  assumes "validate_router bs rs name s = Inr s'" "map_of rs name = Some r"
  shows "owners_le s s' \<and> leaves_served bs name r \<and>
    (\<forall>t \<in> set (emitted name (nr_route r)). map_of s' t = Some name)"
proof -
  obtain ls where ls: "routeLeaves name (nr_route r) = Inr ls" "nr_capability r = CapChat"
      "fold_res (leaf_step bs name) ls s = Inr s'"
    using assms by (auto simp: validate_router_def split: if_splits sum.splits)
  with leaves_fold_Inr [OF ls(3)] show ?thesis
    by (auto simp: leaves_served_def emitted_def)
qed

lemma validate_router_le: "validate_router bs rs name s = Inr s' \<Longrightarrow> owners_le s s'"
proof (cases "map_of rs name")
  case None
  then show "validate_router bs rs name s = Inr s' \<Longrightarrow> ?thesis" by (simp add: validate_router_def)
qed (use validate_router_Inr in blast)

lemma routers_fold_Inr:
  "fold_res (validate_router bs rs) ns s = Inr s' \<Longrightarrow>
   owners_le s s' \<and> (\<forall>n \<in> set ns. \<forall>r. map_of rs n = Some r \<longrightarrow> leaves_served bs n r \<and>
     (\<forall>t \<in> set (emitted n (nr_route r)). map_of s' t = Some n))"
proof (induction ns arbitrary: s)
  case (Cons n ns)
  then obtain s1 where s1: "validate_router bs rs n s = Inr s1" "fold_res (validate_router bs rs) ns s1 = Inr s'"
    by (auto split: sum.splits)
  have "owners_le s s'"
    using validate_router_le [OF s1(1)] Cons.IH [OF s1(2)] owners_le_trans by blast
  then show ?case
    using validate_router_Inr [OF s1(1)] Cons.IH [OF s1(2)] by (auto simp: owners_le_def)
qed simp

lemma validateRouters_None:
  assumes "validateRouters bs rs = None"
  shows "\<exists>owners. \<forall>n r. map_of rs n = Some r \<longrightarrow> leaves_served bs n r \<and>
    (\<forall>t \<in> set (emitted n (nr_route r)). map_of owners t = Some n)"
proof -
  obtain owners where "fold_res (validate_router bs rs) (sorted_keys rs) [] = Inr owners"
    using assms by (auto simp: validateRouters_def split: if_splits sum.splits)
  from routers_fold_Inr [OF this] show ?thesis by (metis map_of_mem set_sorted_keys)
qed

section \<open>Properties\<close>

text \<open>A named route that loads is well formed: a stage router has two leaves, a known picker
  and a threshold in [0, 1] (or NaN, which the comparison lets through), a classifier has at least
  two distinct named targets, none of them the judge's, and a default among them, a fallback at
  least two distinct leaves.\<close>

theorem parsed_route_is_well_formed:
  assumes "parseRouterRoute name file = Inr r"
  shows "route_ok name r"
  using assms by (rule parseRouterRoute_ok)

text \<open>The route files of the witnesses.\<close>

definition blank_route_file :: route_file where
  "blank_route_file =
     \<lparr>rf_type = [], rf_target = [], rf_capable = [], rf_efficient = [], rf_picker = [],
      rf_confidence_threshold = None, rf_recent_turn_window = None, rf_mode = [], rf_classifier = [],
      rf_targets_named = [], rf_targets_ordered = [], rf_default_target = [], rf_prompt = [],
      rf_response_schema = [], rf_policy = None, rf_session_affinity = None,
      rf_message_hash_fallback = None, rf_max_output_tokens = None\<rparr>"

definition fallback_file :: route_file where
  "fallback_file = blank_route_file\<lparr>rf_type := ''fallback'', rf_targets_ordered := [''ds/chat'', '' ds/coder'']\<rparr>"

definition stage_file :: "yaml_float \<Rightarrow> route_file" where
  "stage_file q = blank_route_file\<lparr>rf_type := ''stage_router'', rf_capable := ''ds/coder'',
     rf_efficient := ''ds/chat'', rf_picker := ''capable_first'', rf_confidence_threshold := Some q\<rparr>"

definition sample_router_files :: "router_file gomap" where
  "sample_router_files =
     [(''fast'', \<lparr>rfile_capability = ''chat'', rfile_route = fallback_file\<rparr>),
      (''smart'', \<lparr>rfile_capability = '' chat'', rfile_route = stage_file (Fin 0)\<rparr>)]"

definition fast_route :: router_route where
  "fast_route = zero_route\<lparr>rt_type := RouteFallback, rt_fallback_targets := [''ds/chat'', ''ds/coder'']\<rparr>"

definition smart_route :: router_route where
  "smart_route = zero_route\<lparr>rt_type := RouteStageRouter, rt_capable := ''ds/coder'',
     rt_efficient := ''ds/chat'', rt_picker := PickerCapableFirst, rt_confidence_threshold := Fin 0\<rparr>"

definition sample_routers :: "named_router gomap" where
  "sample_routers =
     [(''fast'', \<lparr>nr_name = ''fast'', nr_capability = CapChat, nr_route = fast_route\<rparr>),
      (''smart'', \<lparr>nr_name = ''smart'', nr_capability = CapChat, nr_route = smart_route\<rparr>)]"

lemma sample_routers_load: "parseNamedRouters sample_router_files = Inr sample_routers"
  by code_simp

lemma fast_route_loads: "parseRouterRoute ''fast'' fallback_file = Inr fast_route"
  by code_simp

theorem parsed_route_is_well_formed_witness: "route_ok ''fast'' fast_route"
  by (rule parsed_route_is_well_formed [OF fast_route_loads])

definition two_model_backend :: backend_def where
  "two_model_backend = 
     \<lparr>bk_id = ''ds'', bk_remote = True, bk_extension = [], bk_base_url = ''https://ds'',
      bk_bearer_env = ''DS'', bk_extra_headers = [], bk_capabilities = [CapChat],
      bk_models = Some (backend_models_of_yaml None (Some [''chat'', ''ds/coder'']) None),
      bk_prompt_cache = None\<rparr>"

lemma sample_routers_valid: "validateRouters [(''ds'', two_model_backend)] sample_routers = None"
  by code_simp

text \<open>C20: In a configuration that loads and validates, the target names emitted for all routers
  together are pairwise distinct, so Switchyard's target table has one entry per leaf.\<close>

theorem switchyard_targets_unique:
  assumes "parseNamedRouters raw = Inr routers" and "validateRouters backends routers = None"
  shows "distinct (concat (map (\<lambda>(name, r). emitted name (nr_route r)) routers))"
proof -
  have ok: "routers_ok routers" using assms(1) by (rule parseNamedRouters_ok)
  obtain owners where own: "\<And>n r t. map_of routers n = Some r \<Longrightarrow> t \<in> set (emitted n (nr_route r)) \<Longrightarrow>
      map_of owners t = Some n"
    using validateRouters_None [OF assms(2)] by blast
  have keys: "distinct (map fst routers)" using ok by (simp add: routers_ok_def)
  have "distinct (concat (map (\<lambda>(name, r). emitted name (nr_route r)) rs))"
    if "set rs \<subseteq> set routers" "distinct (map fst rs)" for rs
    using that
  proof (induction rs)
    case (Cons nr rs)
    obtain n r where nr: "nr = (n, r)" by (cases nr)
    with Cons.prems have mem: "(n, r) \<in> set routers" by simp
    have "distinct (emitted n (nr_route r))"
      using ok mem by (intro emitted_distinct) (auto simp: routers_ok_def)
    moreover have "t \<notin> set (emitted n' (nr_route r'))"
      if "t \<in> set (emitted n (nr_route r))" "(n', r') \<in> set rs" for t n' r'
    proof
      assume t: "t \<in> set (emitted n' (nr_route r'))"
      have "(n', r') \<in> set routers" using that(2) Cons.prems(1) by auto
      with keys have "map_of routers n' = Some r'" "map_of routers n = Some r"
        using mem by simp_all
      from own [OF this(1) t] own [OF this(2) that(1)] have "n = n'" by simp
      with that(2) Cons.prems(2) nr show False by force
    qed
    ultimately show ?case using Cons nr by (auto simp: set_concat)
  qed simp
  with keys show ?thesis by blast
qed

theorem switchyard_targets_unique_witness:
  "distinct (concat (map (\<lambda>(name, r). emitted name (nr_route r)) sample_routers))"
  by (rule switchyard_targets_unique [OF sample_routers_load sample_routers_valid])

text \<open>Every router that validates serves chat, and every leaf it can dial names a configured
  backend that has the chat capability and whose allow gate admits the leaf.\<close>

theorem validated_leaves_are_served:
  assumes "validateRouters backends routers = None" and "map_of routers name = Some r"
  shows "nr_capability r = CapChat \<and>
    (\<exists>ls. routeLeaves name (nr_route r) = Inr ls \<and>
      (\<forall>l \<in> set ls. \<exists>backendID model b. splitLeafModel (rl_leaf l) = Inr (backendID, model) \<and>
        map_of backends backendID = Some b \<and> HasCapability b CapChat \<and>
        (IsModelAllowed b model \<or> IsModelAllowed b (rl_leaf l))))"
proof -
  have "\<exists>backendID model b. splitLeafModel leaf = Inr (backendID, model) \<and>
      map_of backends backendID = Some b \<and> HasCapability b CapChat \<and>
      (IsModelAllowed b model \<or> IsModelAllowed b leaf)"
    if "validateChatLeaf backends leaf field = None" for leaf field
    using that by (auto simp: validateChatLeaf_def split: sum.splits if_splits option.splits)
  moreover have "leaves_served backends name r"
    using validateRouters_None [OF assms(1)] assms(2) by blast
  ultimately show ?thesis by (fastforce simp: leaves_served_def)
qed

theorem validated_leaves_are_served_witness:
  "\<exists>ls. routeLeaves ''fast'' fast_route = Inr ls \<and>
    (\<forall>l \<in> set ls. \<exists>backendID model b. splitLeafModel (rl_leaf l) = Inr (backendID, model) \<and>
      map_of [(''ds'', two_model_backend)] backendID = Some b \<and> HasCapability b CapChat \<and>
      (IsModelAllowed b model \<or> IsModelAllowed b (rl_leaf l)))"
  using validated_leaves_are_served [OF sample_routers_valid, of "''fast''"
      "\<lparr>nr_name = ''fast'', nr_capability = CapChat, nr_route = fast_route\<rparr>"]
  by (simp add: sample_routers_def)

lemma name_char_graphic: "name_char c \<Longrightarrow> graphic c"
  by (auto simp: name_char_def graphic_def is_digit_def of_char_less_eq)

lemma name_loop_chars: "name_loop i name cs = None \<Longrightarrow> \<forall>c \<in> set cs. name_char c"
  by (induction i name cs rule: name_loop.induct) (auto split: if_splits)

text \<open>A configured router is found under its public id exactly as under its bare name.\<close>

theorem public_id_round_trip:
  assumes "parseNamedRouters raw = Inr routers" and "map_of routers name = Some r"
  shows "LookupNamedRouter routers (RouterPublicID name) = Some r \<and>
    LookupNamedRouter routers name = Some r"
proof -
  have "(name, r) \<in> set routers" using assms(2) by (rule map_of_SomeD)
  with parseNamedRouters_ok [OF assms(1)] have v: "validateRouterName name = None"
    by (auto simp: routers_ok_def)
  then have chars: "\<forall>c \<in> set name. name_char c" and ne: "name \<noteq> []"
    by (auto simp: validateRouterName_def dest: name_loop_chars split: if_splits)
  then have g: "graphic (hd name)" "graphic (last name)" by (auto intro: name_char_graphic)
  have t: "trim_space name = name" using g by (intro trim_space_id) simp
  have t2: "trim_space (RouterIDPrefix @ name) = RouterIDPrefix @ name"
    using g ne by (intro trim_space_id) (simp add: RouterIDPrefix_def graphic_def)
  have "\<not> has_prefix name RouterIDPrefix"
  proof
    assume "has_prefix name RouterIDPrefix"
    then have "CHR ''/'' \<in> set name" by (auto simp: has_prefix_iff RouterIDPrefix_def)
    with chars have "name_char (CHR ''/'')" by blast
    then show False by (simp add: name_char_def is_digit_def of_char_less_eq)
  qed
  then show ?thesis
    using t t2 ne assms(2) by (simp add: LookupNamedRouter_def RouterPublicID_def trim_prefix_def)
qed

theorem public_id_round_trip_witness:
  "LookupNamedRouter sample_routers (RouterPublicID ''smart'') =
     Some \<lparr>nr_name = ''smart'', nr_capability = CapChat, nr_route = smart_route\<rparr> \<and>
   LookupNamedRouter sample_routers ''smart'' =
     Some \<lparr>nr_name = ''smart'', nr_capability = CapChat, nr_route = smart_route\<rparr>"
  by (rule public_id_round_trip [OF sample_routers_load]) (simp add: sample_routers_def)

text \<open>The range check on a stage router's confidence threshold lets NaN through.\<close>

theorem nan_threshold_is_accepted:
  "\<exists>r. parseRouterRoute ''smart'' (stage_file NaN) = Inr r \<and> rt_confidence_threshold r = NaN"
proof -
  have "parseRouterRoute ''smart'' (stage_file NaN) = Inr (smart_route\<lparr>rt_confidence_threshold := NaN\<rparr>)"
    by code_simp
  then show ?thesis by (simp add: smart_route_def)
qed

end
