(* ===== verification/Router_Config.thy ===== *)
theory Router_Config
  imports Named_Routers
begin

text \<open>
  The rest of \<open>internal/config/router_config.go\<close>, with \<open>policy.go\<close>, \<open>processes.go\<close>'s
  environment booleans and \<open>models_inventory.go\<close>: the multi-backend configuration, its
  environment overrides and its normalisation. The environment is a function from names to
  values (unset is the empty string); \<open>operatorconfig.SanitizeSecret\<close> is the argument
  \<open>sanitize\<close> and the default Switchyard path the argument \<open>default_path\<close>. The lemmas show what
  a configuration that normalises guarantees to the handlers that route by it.
\<close>

type_synonym environ = "string \<Rightarrow> string"

section \<open>Environment values\<close>

definition EnvOr :: "environ \<Rightarrow> string \<Rightarrow> string \<Rightarrow> string" where
  "EnvOr env key def = (let v = trim_space (env key) in if v \<noteq> [] then v else def)"

definition parseBoolishEnv :: "string \<Rightarrow> bool option" where
  "parseBoolishEnv raw =
     (let w = to_lower (trim_space raw)
      in if w \<in> set [''1'', ''true'', ''yes'', ''on''] then Some True
         else if w \<in> set [''0'', ''false'', ''no'', ''off''] then Some False
         else None)"

definition ParseEnvBool :: "environ \<Rightarrow> string \<Rightarrow> bool \<Rightarrow> bool \<times> goerr option" where
  "ParseEnvBool env key fallback =
     (let raw = trim_space (env key)
      in if raw = [] then (fallback, None)
         else case parseBoolishEnv raw of
           Some v \<Rightarrow> (v, None)
         | None \<Rightarrow>
             (fallback, Some (DomainErr (with_field (with_field
               (err_new CodeInvalid ''config.ParseEnvBool''
                 (key @ '' is not a boolean (use 1, true, yes, on, 0, false, no or off)''))
               ''env'' key) ''value'' raw))))"

definition SwitchyardEnabled :: "environ \<Rightarrow> bool" where
  "SwitchyardEnabled env =
     (case ParseEnvBool env ''POLYPUS_SWITCHYARD'' True of (on, None) \<Rightarrow> on | (_, Some _) \<Rightarrow> True)"

record models_inventory =
  mi_warmup :: bool
  mi_refresh_interval :: int
  mi_cache_ttl :: int

definition DefaultModelsRefreshInterval :: int where "DefaultModelsRefreshInterval = 30 * ns_minute"
definition DefaultModelsCacheTTL :: int where "DefaultModelsCacheTTL = ns_hour"

definition RefreshEnabled :: "models_inventory \<Rightarrow> bool" where
  "RefreshEnabled m = (mi_warmup m \<and> mi_refresh_interval m > 0)"

text \<open>The error of \<open>time.ParseDuration\<close> is a foreign error; its text plays no part.\<close>

definition envDurationOrOff :: "environ \<Rightarrow> string \<Rightarrow> int \<Rightarrow> int \<times> goerr option" where
  "envDurationOrOff env key fallback =
     (let raw = trim_space (env key); op = ''config.envDurationOrOff'';
          bad = (\<lambda>e. Some (DomainErr (with_field (with_field e ''env'' key) ''value'' raw)))
      in if raw = [] then (fallback, None)
         else if parseBoolishEnv raw = Some False then (0, None)
         else case parse_duration raw of
           None \<Rightarrow> (fallback, bad (err_wrap (Some (Leaf ''time: invalid duration'')) CodeInvalid op
             ''not a duration or off''))
         | Some d \<Rightarrow>
             if d \<le> 0 then (fallback, bad (err_new CodeInvalid op ''duration must be positive''))
             else (d, None))"

definition LoadModelsInventory :: "environ \<Rightarrow> models_inventory \<times> goerr option" where
  "LoadModelsInventory env =
     (case ParseEnvBool env ''POLYPUS_MODELS_WARMUP'' True of (warmup, warmErr) \<Rightarrow>
      case envDurationOrOff env ''POLYPUS_MODELS_REFRESH_INTERVAL'' DefaultModelsRefreshInterval of
        (refresh, refreshErr) \<Rightarrow>
      case envDurationOrOff env ''POLYPUS_MODELS_CACHE_TTL'' DefaultModelsCacheTTL of
        (ttl0, ttlErr0) \<Rightarrow>
      let ttlErr = (if ttl0 = 0 then err_join [ttlErr0, Some (DomainErr (with_field
             (err_new CodeInvalid ''config.LoadModelsInventory'' ''cache TTL cannot be off'')
             ''env'' ''POLYPUS_MODELS_CACHE_TTL''))] else ttlErr0);
          ttl = (if ttl0 = 0 then DefaultModelsCacheTTL else ttl0);
          out = \<lparr>mi_warmup = warmup, mi_refresh_interval = refresh, mi_cache_ttl = ttl\<rparr>
      in case err_join [warmErr, refreshErr, ttlErr] of
           Some e \<Rightarrow> (out, Some (DomainErr (err_wrap (Some e) CodeInvalid
             ''config.LoadModelsInventory'' ''models inventory settings'')))
         | None \<Rightarrow> (out, None))"

section \<open>The configuration\<close>

record router_policy =
  reject_non_loopback_backends :: bool

definition DefaultRouterPolicy :: router_policy where
  "DefaultRouterPolicy = \<lparr>reject_non_loopback_backends = True\<rparr>"

definition merge_policy :: "bool option \<Rightarrow> router_policy" where
  "merge_policy f =
     (case f of None \<Rightarrow> DefaultRouterPolicy
      | Some b \<Rightarrow> DefaultRouterPolicy\<lparr>reject_non_loopback_backends := b\<rparr>)"

record capability_backend =
  cb_enabled :: bool
  cb_default :: string

definition parseCapabilityBackend :: "bool option \<Rightarrow> string \<Rightarrow> capability_backend" where
  "parseCapabilityBackend enabled dflt =
     \<lparr>cb_enabled = (case enabled of None \<Rightarrow> False | Some b \<Rightarrow> b), cb_default = trim_space dflt\<rparr>"

record router_config =
  rc_chat :: capability_backend
  rc_vision :: capability_backend
  rc_embed :: capability_backend
  rc_tts :: capability_backend
  rc_stt :: capability_backend
  rc_proxy :: capability_backend
  rc_systemone :: capability_backend
  rc_batch :: capability_backend
  rc_timeouts :: timeouts
  rc_policy :: router_policy
  rc_backends :: "backend_def gomap"
  rc_routers :: "named_router gomap"
  rc_switchyard :: switchyard_config
  rc_default_tts_model :: string
  rc_default_stt_model :: string
  rc_batch_specified :: bool

text \<open>The eight \<open>Effective\<dots>Backend\<close> methods differ in the slot only.\<close>

definition effective_backend :: "capability_backend \<Rightarrow> string" where
  "effective_backend slot = (if \<not> cb_enabled slot then [] else cb_default slot)"

definition EffectiveChatBackend :: "router_config \<Rightarrow> string" where
  "EffectiveChatBackend c = effective_backend (rc_chat c)"
definition EffectiveVisionBackend :: "router_config \<Rightarrow> string" where
  "EffectiveVisionBackend c = effective_backend (rc_vision c)"
definition EffectiveEmbedBackend :: "router_config \<Rightarrow> string" where
  "EffectiveEmbedBackend c = effective_backend (rc_embed c)"
definition EffectiveTTSBackend :: "router_config \<Rightarrow> string" where
  "EffectiveTTSBackend c = effective_backend (rc_tts c)"
definition EffectiveSTTBackend :: "router_config \<Rightarrow> string" where
  "EffectiveSTTBackend c = effective_backend (rc_stt c)"
definition EffectiveProxyBackend :: "router_config \<Rightarrow> string" where
  "EffectiveProxyBackend c = effective_backend (rc_proxy c)"
definition EffectiveSystemOneBackend :: "router_config \<Rightarrow> string" where
  "EffectiveSystemOneBackend c = effective_backend (rc_systemone c)"
definition EffectiveBatchBackend :: "router_config \<Rightarrow> string" where
  "EffectiveBatchBackend c = effective_backend (rc_batch c)"

section \<open>Defaults and overrides\<close>

definition mlxLocalID :: string where "mlxLocalID = ''mlx_local''"
definition DefaultMLXURL :: string where "DefaultMLXURL = ''http://127.0.0.1:1322''"

definition backend_of :: "router_config \<Rightarrow> string \<Rightarrow> backend_def option" where
  "backend_of cfg k = map_of (rc_backends cfg) k"

definition off_slot :: capability_backend where
  "off_slot = \<lparr>cb_enabled = False, cb_default = []\<rparr>"

definition mlx_slot :: capability_backend where
  "mlx_slot = \<lparr>cb_enabled = True, cb_default = mlxLocalID\<rparr>"

definition mlx_backend :: "string \<Rightarrow> backend_def" where
  "mlx_backend backend =
     \<lparr>bk_id = mlxLocalID, bk_remote = False, bk_extension = [], bk_base_url = backend,
      bk_bearer_env = [], bk_extra_headers = [], bk_capabilities = [CapTTS, CapSTT, CapVoices],
      bk_models = None, bk_prompt_cache = None\<rparr>"

definition default_config :: "string \<Rightarrow> router_config" where
  "default_config backend =
     \<lparr>rc_chat = off_slot, rc_vision = off_slot, rc_embed = off_slot, rc_tts = mlx_slot,
      rc_stt = mlx_slot, rc_proxy = mlx_slot, rc_systemone = off_slot, rc_batch = off_slot,
      rc_timeouts = DefaultTimeouts, rc_policy = DefaultRouterPolicy,
      rc_backends = [(mlxLocalID, mlx_backend backend)],
      rc_routers = [], rc_switchyard = \<lparr>sy_base_url = [], sy_config_path = []\<rparr>,
      rc_default_tts_model = [], rc_default_stt_model = [], rc_batch_specified = False\<rparr>"

definition defaultRouterFromEnv :: "string \<Rightarrow> router_config" where
  "defaultRouterFromEnv backend_url =
     (let b0 = trim_right_char (CHR ''/'') (trim_space backend_url)
      in default_config (if b0 = [] then DefaultMLXURL else b0))"

definition firstCloudflareBackendID :: "router_config \<Rightarrow> string" where
  "firstCloudflareBackendID cfg =
     (let chat = trim_space (cb_default (rc_chat cfg));
          ids = sort (map fst (filter (\<lambda>(_, b). IsCloudflareExtension b) (rc_backends cfg)));
          first = (case ids of [] \<Rightarrow> [] | i # _ \<Rightarrow> i)
      in if chat \<noteq> [] then
           (case backend_of cfg chat of
              Some b \<Rightarrow> if IsCloudflareExtension b then chat else first
            | None \<Rightarrow> first)
         else first)"

definition ensureCapability :: "string \<Rightarrow> capability \<Rightarrow> router_config \<Rightarrow> router_config" where
  "ensureCapability bid want cfg =
     (case backend_of cfg bid of
        None \<Rightarrow> cfg
      | Some b \<Rightarrow>
          if HasCapability b want then cfg
          else cfg\<lparr>rc_backends :=
            put bid (b\<lparr>bk_capabilities := bk_capabilities b @ [want]\<rparr>) (rc_backends cfg)\<rparr>)"

definition fillDefaultBatchBackend :: "router_config \<Rightarrow> router_config" where
  "fillDefaultBatchBackend cfg =
     (let d = trim_space (cb_default (rc_batch cfg));
          bid = (if d = [] then firstCloudflareBackendID cfg else d)
      in if bid = [] then cfg
         else case backend_of cfg bid of
           None \<Rightarrow> cfg
         | Some b \<Rightarrow>
             if \<not> IsCloudflareExtension b then cfg
             else
               let batch = rc_batch cfg;
                   batch1 = (if \<not> rc_batch_specified cfg
                     then \<lparr>cb_enabled = True, cb_default = (if d = [] then bid else cb_default batch)\<rparr>
                     else batch);
                   cfg1 = cfg\<lparr>rc_batch := batch1\<rparr>
               in if cb_enabled batch1 then ensureCapability bid CapBatch cfg1 else cfg1)"

definition inheritTTSDefault :: "router_config \<Rightarrow> capability_backend \<Rightarrow> capability_backend" where
  "inheritTTSDefault cfg slot =
     (if cb_enabled slot \<and> cb_default slot = [] \<and> cb_enabled (rc_tts cfg) \<and> cb_default (rc_tts cfg) \<noteq> []
      then slot\<lparr>cb_default := cb_default (rc_tts cfg)\<rparr> else slot)"

section \<open>The slots\<close>

record capability_slot =
  sl_field :: string
  sl_env :: string
  sl_capability :: capability
  sl_get :: "router_config \<Rightarrow> capability_backend"
  sl_set :: "capability_backend \<Rightarrow> router_config \<Rightarrow> router_config"
  sl_speech :: bool
  sl_before :: "router_config \<Rightarrow> router_config"

definition capabilitySlots :: "capability_slot list" where
  "capabilitySlots =
    [\<lparr>sl_field = ''chat_backend'', sl_env = ''POLYPUS_DEFAULT_CHAT_BACKEND'', sl_capability = CapChat,
      sl_get = rc_chat, sl_set = (\<lambda>s c. c\<lparr>rc_chat := s\<rparr>), sl_speech = False, sl_before = (\<lambda>c. c)\<rparr>,
     \<lparr>sl_field = ''vision_backend'', sl_env = ''POLYPUS_DEFAULT_VISION_BACKEND'', sl_capability = CapVision,
      sl_get = rc_vision, sl_set = (\<lambda>s c. c\<lparr>rc_vision := s\<rparr>), sl_speech = False, sl_before = (\<lambda>c. c)\<rparr>,
     \<lparr>sl_field = ''embed_backend'', sl_env = ''POLYPUS_DEFAULT_EMBED_BACKEND'', sl_capability = CapEmbed,
      sl_get = rc_embed, sl_set = (\<lambda>s c. c\<lparr>rc_embed := s\<rparr>), sl_speech = False, sl_before = (\<lambda>c. c)\<rparr>,
     \<lparr>sl_field = ''tts_backend'', sl_env = ''POLYPUS_DEFAULT_TTS_BACKEND'', sl_capability = CapTTS,
      sl_get = rc_tts, sl_set = (\<lambda>s c. c\<lparr>rc_tts := s\<rparr>), sl_speech = True, sl_before = (\<lambda>c. c)\<rparr>,
     \<lparr>sl_field = ''stt_backend'', sl_env = ''POLYPUS_DEFAULT_STT_BACKEND'', sl_capability = CapSTT,
      sl_get = rc_stt, sl_set = (\<lambda>s c. c\<lparr>rc_stt := s\<rparr>), sl_speech = True,
      sl_before = (\<lambda>c. c\<lparr>rc_stt := inheritTTSDefault c (rc_stt c)\<rparr>)\<rparr>,
     \<lparr>sl_field = ''proxy_backend'', sl_env = ''POLYPUS_DEFAULT_PROXY_BACKEND'', sl_capability = CapVoices,
      sl_get = rc_proxy, sl_set = (\<lambda>s c. c\<lparr>rc_proxy := s\<rparr>), sl_speech = True,
      sl_before = (\<lambda>c. c\<lparr>rc_proxy := inheritTTSDefault c (rc_proxy c)\<rparr>)\<rparr>,
     \<lparr>sl_field = ''systemone_backend'', sl_env = ''POLYPUS_DEFAULT_SYSTEMONE_BACKEND'',
      sl_capability = CapSystemOne,
      sl_get = rc_systemone, sl_set = (\<lambda>s c. c\<lparr>rc_systemone := s\<rparr>), sl_speech = False, sl_before = (\<lambda>c. c)\<rparr>,
     \<lparr>sl_field = ''batch_backend'', sl_env = ''POLYPUS_DEFAULT_BATCH_BACKEND'', sl_capability = CapBatch,
      sl_get = rc_batch, sl_set = (\<lambda>s c. c\<lparr>rc_batch := s\<rparr>), sl_speech = False,
      sl_before = fillDefaultBatchBackend\<rparr>]"

definition override_slot :: "environ \<Rightarrow> capability_slot \<Rightarrow> router_config \<Rightarrow> router_config" where
  "override_slot env sl cfg =
     (let v = trim_space (env (sl_env sl))
      in if v \<noteq> [] then sl_set sl \<lparr>cb_enabled = True, cb_default = v\<rparr> cfg else cfg)"

definition applyRouterEnvOverrides :: "environ \<Rightarrow> string \<Rightarrow> router_config \<Rightarrow> router_config" where
  "applyRouterEnvOverrides env backend_url cfg0 =
     (let cfg1 = cfg0\<lparr>rc_default_tts_model := trim_space (env ''POLYPUS_DEFAULT_MODEL''),
                     rc_default_stt_model := trim_space (env ''POLYPUS_DEFAULT_STT_MODEL'')\<rparr>;
          cfg2 = fold (override_slot env) capabilitySlots cfg1;
          cfg3 = (if trim_space (env ''POLYPUS_DEFAULT_BATCH_BACKEND'') \<noteq> []
                  then cfg2\<lparr>rc_batch_specified := True\<rparr> else cfg2)
      in if backend_url \<noteq> [] then
           (case backend_of cfg3 mlxLocalID of
              None \<Rightarrow> cfg3
            | Some b \<Rightarrow> cfg3\<lparr>rc_backends := put mlxLocalID
                (b\<lparr>bk_base_url := trim_right_char (CHR ''/'') (trim_space backend_url)\<rparr>) (rc_backends cfg3)\<rparr>)
         else cfg3)"

definition applySwitchyardEnvOverrides :: "environ \<Rightarrow> router_config \<Rightarrow> router_config" where
  "applySwitchyardEnvOverrides env cfg =
     (let url = trim_space (env ''POLYPUS_SWITCHYARD_BASE_URL'');
          path = trim_space (env ''POLYPUS_SWITCHYARD_CONFIG'');
          sy = rc_switchyard cfg;
          sy1 = (if url \<noteq> [] then sy\<lparr>sy_base_url := trim_right_char (CHR ''/'') url\<rparr> else sy);
          sy2 = (if path \<noteq> [] then sy1\<lparr>sy_config_path := path\<rparr> else sy1)
      in cfg\<lparr>rc_switchyard := sy2\<rparr>)"

section \<open>Normalisation\<close>

datatype config_error =
    NoBackends
  | SlotDefaultRequired string
  | BaseURLRequired string
  | BearerError string goerr
  | CapabilitiesRequired string
  | SystemOneNeedsRoute string
  | ModelsError models_error
  | DefaultNotFound string string
  | DefaultLacksCapability string string capability
  | RoutersError router_error
  | SwitchyardError goerr

definition ResolveBearerToken :: "(string \<Rightarrow> string) \<Rightarrow> environ \<Rightarrow> string \<Rightarrow> goerr + string" where
  "ResolveBearerToken sanitize env bearer_env =
     (let op = ''config.ResolveBearerToken''; name = trim_space bearer_env; token = sanitize (env name)
      in if name = [] then
           Inl (DomainErr (err_new CodeNotReady op ''auth.bearer_env required for remote backend''))
         else if token = [] then
           Inl (DomainErr (with_field
             (err_new CodeNotReady op (''environment variable \"'' @ name @ ''\" required for remote backend''))
             ''env'' name))
         else Inr token)"

definition normalizeCapabilityBackend ::
  "router_config \<Rightarrow> capability_backend \<Rightarrow> string \<Rightarrow> bool \<Rightarrow> config_error + capability_backend" where
  "normalizeCapabilityBackend cfg slot field allowMLXFill =
     (if \<not> cb_enabled slot then Inr (slot\<lparr>cb_default := []\<rparr>)
      else if cb_default slot = [] then
        (if allowMLXFill \<and> backend_of cfg mlxLocalID \<noteq> None then Inr (slot\<lparr>cb_default := mlxLocalID\<rparr>)
         else Inl (SlotDefaultRequired field))
      else Inr slot)"

definition normalize_slot :: "capability_slot \<Rightarrow> router_config \<Rightarrow> config_error + router_config" where
  "normalize_slot sl cfg0 =
     (let cfg = sl_before sl cfg0
      in case normalizeCapabilityBackend cfg (sl_get sl cfg) (sl_field sl) (sl_speech sl) of
           Inl e \<Rightarrow> Inl e
         | Inr slot \<Rightarrow> Inr (sl_set sl slot cfg))"

definition check_backend ::
  "(string \<Rightarrow> string) \<Rightarrow> environ \<Rightarrow> string \<Rightarrow> backend_def \<Rightarrow> config_error option" where
  "check_backend sanitize env bid b =
     (if bk_base_url b = [] \<and> \<not> baseURLOptional b then Some (BaseURLRequired bid)
      else case (if bk_remote b then ResolveBearerToken sanitize env (bk_bearer_env b) else Inr []) of
        Inl e \<Rightarrow> Some (BearerError bid e)
      | Inr _ \<Rightarrow>
          if bk_capabilities b = [] then Some (CapabilitiesRequired bid)
          else if HasCapability b CapSystemOne \<and> \<not> hasSystemOneRoute b then Some (SystemOneNeedsRoute bid)
          else map_option ModelsError (validate_models (bk_models b) bid))"

definition normalize_backend ::
  "(string \<Rightarrow> string) \<Rightarrow> environ \<Rightarrow> string \<Rightarrow> router_config \<Rightarrow> config_error + router_config" where
  "normalize_backend sanitize env bid cfg =
     (case backend_of cfg bid of
        None \<Rightarrow> Inr cfg
      | Some b0 \<Rightarrow>
          (let b = (if bk_id b0 = [] then b0\<lparr>bk_id := bid\<rparr> else b0)
           in case check_backend sanitize env bid b of
                Some e \<Rightarrow> Inl e
              | None \<Rightarrow> Inr (cfg\<lparr>rc_backends := put bid b (rc_backends cfg)\<rparr>)))"

definition normalizeBackends ::
  "(string \<Rightarrow> string) \<Rightarrow> environ \<Rightarrow> router_config \<Rightarrow> config_error + router_config" where
  "normalizeBackends sanitize env cfg =
     fold_res (normalize_backend sanitize env) (sorted_keys (rc_backends cfg)) cfg"

text \<open>\<open>fillCloudflareChatTimeouts\<close> of \<open>timeouts.go\<close>; the loop runs in map order.\<close>

definition cloudflare_timeout :: "string \<times> backend_def \<Rightarrow> timeouts \<Rightarrow> timeouts" where
  "cloudflare_timeout = (\<lambda>(bid, b) t.
     if \<not> IsCloudflareExtension b then t
     else
       let bt = backend_timeouts_of t bid
       in if bt_chat bt = 0
          then t\<lparr>t_backends := put bid (bt\<lparr>bt_chat := defaultTimeoutChatCF\<rparr>) (t_backends t)\<rparr> else t)"

definition fillCloudflareChatTimeouts :: "router_config \<Rightarrow> router_config" where
  "fillCloudflareChatTimeouts cfg =
     cfg\<lparr>rc_timeouts := fold cloudflare_timeout (rc_backends cfg) (rc_timeouts cfg)\<rparr>"

definition requireBackend :: "router_config \<Rightarrow> string \<Rightarrow> capability \<Rightarrow> string \<Rightarrow> config_error option" where
  "requireBackend cfg bid want field =
     (case backend_of cfg bid of
        None \<Rightarrow> Some (DefaultNotFound field bid)
      | Some b \<Rightarrow>
          if \<not> HasCapability b want then Some (DefaultLacksCapability field bid want) else None)"

definition require_slot :: "router_config \<Rightarrow> capability_slot \<Rightarrow> config_error option" where
  "require_slot cfg sl =
     (let slot = sl_get sl cfg
      in if cb_enabled slot
         then requireBackend cfg (cb_default slot) (sl_capability sl) (sl_field sl @ ''.default'')
         else None)"

definition normalizeRouterConfig ::
  "(string \<Rightarrow> string) \<Rightarrow> environ \<Rightarrow> (goerr + string) \<Rightarrow> router_config \<Rightarrow> config_error + router_config" where
  "normalizeRouterConfig sanitize env default_path cfg0 =
     (if rc_backends cfg0 = [] then Inl NoBackends
      else case fold_res normalize_slot capabilitySlots cfg0 of
        Inl e \<Rightarrow> Inl e
      | Inr cfg1 \<Rightarrow>
          (case normalizeBackends sanitize env cfg1 of
             Inl e \<Rightarrow> Inl e
           | Inr cfg2 \<Rightarrow>
               (let cfg = fillCloudflareChatTimeouts cfg2
                in case first_error (map (require_slot cfg) capabilitySlots) of
                     Some e \<Rightarrow> Inl e
                   | None \<Rightarrow>
                       (case validateRouters (rc_backends cfg) (rc_routers cfg) of
                          Some e \<Rightarrow> Inl (RoutersError e)
                        | None \<Rightarrow>
                            (case fillSwitchyardDefaults default_path (rc_routers cfg) (rc_switchyard cfg) of
                               Inl e \<Rightarrow> Inl (SwitchyardError e)
                             | Inr sy \<Rightarrow> Inr (cfg\<lparr>rc_switchyard := sy\<rparr>))))))"

section \<open>Lookups on a loaded configuration\<close>

definition BackendIDs :: "router_config \<Rightarrow> string list" where
  "BackendIDs cfg = sorted_keys (rc_backends cfg)"

definition ProxyBackendURL :: "router_config \<Rightarrow> string" where
  "ProxyBackendURL cfg =
     (let proxy = EffectiveProxyBackend cfg; ids = BackendIDs cfg;
          url = (\<lambda>bid. case backend_of cfg bid of None \<Rightarrow> [] | Some b \<Rightarrow> bk_base_url b);
          voices = (\<lambda>bid. case backend_of cfg bid of None \<Rightarrow> False | Some b \<Rightarrow> HasCapability b CapVoices)
      in if proxy \<noteq> [] \<and> backend_of cfg proxy \<noteq> None then url proxy
         else case find voices ids of
           Some bid \<Rightarrow> url bid
         | None \<Rightarrow> (case ids of [] \<Rightarrow> [] | bid # _ \<Rightarrow> url bid))"

section \<open>What a normalised configuration guarantees\<close>

lemma envDurationOrOff_nonneg: "0 \<le> fallback \<Longrightarrow> 0 \<le> fst (envDurationOrOff env key fallback)"
  by (auto simp: envDurationOrOff_def Let_def split: option.split)

lemma slot_get_switchyard [simp]:
  "sl \<in> set capabilitySlots \<Longrightarrow> sl_get sl (cfg\<lparr>rc_switchyard := sy\<rparr>) = sl_get sl cfg"
  by (auto simp: capabilitySlots_def)

lemma backend_of_switchyard [simp]:
  "backend_of (cfg\<lparr>rc_switchyard := sy\<rparr>) k = backend_of cfg k"
  "backend_of (cfg\<lparr>rc_timeouts := t\<rparr>) k = backend_of cfg k"
  by (simp_all add: backend_of_def)

lemma require_slot_None:
  "require_slot cfg sl = None \<Longrightarrow> cb_enabled (sl_get sl cfg) \<Longrightarrow>
   \<exists>b. backend_of cfg (cb_default (sl_get sl cfg)) = Some b \<and> HasCapability b (sl_capability sl)"
  by (auto simp: require_slot_def requireBackend_def Let_def split: option.splits if_splits)

lemma normalizeRouterConfig_Inr:
  assumes "normalizeRouterConfig sanitize env dp cfg0 = Inr cfg"
  obtains cfg1 cfg2 sy where "fold_res normalize_slot capabilitySlots cfg0 = Inr cfg1"
    "normalizeBackends sanitize env cfg1 = Inr cfg2"
    "first_error (map (require_slot (fillCloudflareChatTimeouts cfg2)) capabilitySlots) = None"
    "validateRouters (rc_backends (fillCloudflareChatTimeouts cfg2)) (rc_routers (fillCloudflareChatTimeouts cfg2)) = None"
    "cfg = (fillCloudflareChatTimeouts cfg2)\<lparr>rc_switchyard := sy\<rparr>"
  using assms by (auto simp: normalizeRouterConfig_def Let_def split: if_splits sum.splits option.splits)

text \<open>Each backend is stored back checked, and the later ones leave it alone.\<close>

definition checked ::
  "(string \<Rightarrow> string) \<Rightarrow> environ \<Rightarrow> router_config \<Rightarrow> string \<Rightarrow> bool" where
  "checked sanitize env cfg k \<longleftrightarrow>
     (\<forall>b. backend_of cfg k = Some b \<longrightarrow> check_backend sanitize env k b = None \<and> (k \<noteq> [] \<longrightarrow> bk_id b \<noteq> []))"

lemma normalize_backend_checked:
  assumes "normalize_backend sanitize env k cfg = Inr cfg'"
  shows "checked sanitize env cfg' k \<and> (\<forall>k'. k' \<noteq> k \<longrightarrow> backend_of cfg' k' = backend_of cfg k')"
  using assms by (auto simp: normalize_backend_def checked_def backend_of_def Let_def
      split: option.splits if_splits)

lemma normalize_fold:
  "fold_res (normalize_backend sanitize env) ks cfg = Inr cfg' \<Longrightarrow>
   (\<forall>k \<in> set ks. checked sanitize env cfg' k) \<and>
   (\<forall>k. k \<notin> set ks \<longrightarrow> backend_of cfg' k = backend_of cfg k)"
proof (induction ks arbitrary: cfg)
  case (Cons k ks)
  then obtain c1 where c1: "normalize_backend sanitize env k cfg = Inr c1"
    "fold_res (normalize_backend sanitize env) ks c1 = Inr cfg'"
    by (auto split: sum.splits)
  note n = normalize_backend_checked [OF c1(1)]
  have "checked sanitize env cfg' k"
  proof (cases "k \<in> set ks")
    case False
    with Cons.IH [OF c1(2)] have "backend_of cfg' k = backend_of c1 k" by blast
    with n show ?thesis by (simp add: checked_def)
  qed (use Cons.IH [OF c1(2)] in blast)
  with Cons.IH [OF c1(2)] n show ?case by auto
qed simp

lemma normalizeBackends_checked:
  assumes "normalizeBackends sanitize env cfg = Inr cfg'"
  shows "checked sanitize env cfg' k"
proof -
  note n = normalize_fold [OF assms [unfolded normalizeBackends_def]]
  show ?thesis
  proof (cases "k \<in> fst ` set (rc_backends cfg)")
    case False
    then have "backend_of cfg k = None" by (simp add: backend_of_def map_of_eq_None_iff)
    with n False show ?thesis by (simp add: checked_def)
  qed (use n in \<open>auto simp del: set_map\<close>)
qed

lemma cloudflare_timeout_keeps:
  "bt_chat (backend_timeouts_of t k) \<noteq> 0 \<Longrightarrow> bt_chat (backend_timeouts_of (cloudflare_timeout kb t) k) \<noteq> 0"
  by (cases kb) (auto simp: cloudflare_timeout_def backend_timeouts_of_def Let_def
      defaultTimeoutChatCF_def ns_defs split: option.splits)

lemma cloudflare_timeout_sets:
  "IsCloudflareExtension b \<Longrightarrow> bt_chat (backend_timeouts_of (cloudflare_timeout (k, b) t) k) \<noteq> 0"
  by (auto simp: cloudflare_timeout_def backend_timeouts_of_def Let_def
      defaultTimeoutChatCF_def ns_defs split: option.splits)

lemma cloudflare_fold_keeps:
  "bt_chat (backend_timeouts_of t k) \<noteq> 0 \<Longrightarrow>
   bt_chat (backend_timeouts_of (fold cloudflare_timeout bs t) k) \<noteq> 0"
proof (induction bs arbitrary: t)
  case (Cons kb bs)
  from Cons.IH [OF cloudflare_timeout_keeps [OF Cons.prems]] show ?case by simp
qed simp

lemma cloudflare_fold:
  "(k, b) \<in> set bs \<Longrightarrow> IsCloudflareExtension b \<Longrightarrow>
   bt_chat (backend_timeouts_of (fold cloudflare_timeout bs t) k) \<noteq> 0"
proof (induction bs arbitrary: t)
  case (Cons kb bs)
  then show ?case
    using cloudflare_fold_keeps [OF cloudflare_timeout_sets [of b k t]] by auto
qed simp

text \<open>An enabled slot of a normalised configuration is served.\<close>

lemma normalized_slot:
  assumes "normalizeRouterConfig sanitize env dp cfg0 = Inr cfg"
    and "sl \<in> set capabilitySlots" and "cb_enabled (sl_get sl cfg)"
  shows "\<exists>b. backend_of cfg (cb_default (sl_get sl cfg)) = Some b \<and> HasCapability b (sl_capability sl)"
proof (rule normalizeRouterConfig_Inr [OF assms(1)])
  fix cfg1 cfg2 sy
  assume "first_error (map (require_slot (fillCloudflareChatTimeouts cfg2)) capabilitySlots) = None"
    and cfg: "cfg = (fillCloudflareChatTimeouts cfg2)\<lparr>rc_switchyard := sy\<rparr>"
  then have "require_slot (fillCloudflareChatTimeouts cfg2) sl = None"
    using assms(2) by (auto simp: first_error_None)
  with require_slot_None [OF this] assms(2,3) show ?thesis by (simp add: cfg)
qed

text \<open>The default configuration, slot by slot.\<close>

lemma mlx_backend_facts [simp]:
  "IsCloudflareExtension (mlx_backend u) = False"
  "HasCapability (mlx_backend u) c \<longleftrightarrow> c = CapTTS \<or> c = CapSTT \<or> c = CapVoices"
  "bk_base_url (mlx_backend u) = u"
  by (auto simp: mlx_backend_def IsCloudflareExtension_def hasExtension_def ExtensionCloudflare_def
      trim_space_id graphic_def equal_fold_def to_lower_def HasCapability_def)

lemma mlxLocalID_simps [simp]: "mlxLocalID \<noteq> []" "trim_space mlxLocalID = mlxLocalID"
  by (simp_all add: mlxLocalID_def trim_space_id graphic_def)

lemma default_config_sel [simp]:
  "rc_chat (default_config u) = off_slot" "rc_vision (default_config u) = off_slot"
  "rc_embed (default_config u) = off_slot" "rc_tts (default_config u) = mlx_slot"
  "rc_stt (default_config u) = mlx_slot" "rc_proxy (default_config u) = mlx_slot"
  "rc_systemone (default_config u) = off_slot" "rc_batch (default_config u) = off_slot"
  "rc_backends (default_config u) = [(mlxLocalID, mlx_backend u)]"
  "rc_routers (default_config u) = []"
  by (simp_all add: default_config_def)

lemma default_config_upd [simp]:
  "default_config u\<lparr>rc_chat := off_slot\<rparr> = default_config u"
  "default_config u\<lparr>rc_vision := off_slot\<rparr> = default_config u"
  "default_config u\<lparr>rc_embed := off_slot\<rparr> = default_config u"
  "default_config u\<lparr>rc_tts := mlx_slot\<rparr> = default_config u"
  "default_config u\<lparr>rc_stt := mlx_slot\<rparr> = default_config u"
  "default_config u\<lparr>rc_proxy := mlx_slot\<rparr> = default_config u"
  "default_config u\<lparr>rc_systemone := off_slot\<rparr> = default_config u"
  "default_config u\<lparr>rc_batch := off_slot\<rparr> = default_config u"
  "default_config u\<lparr>rc_backends := [(mlxLocalID, mlx_backend u)]\<rparr> = default_config u"
  by (simp_all add: default_config_def)

lemma slot_facts [simp]:
  "cb_enabled off_slot = False" "cb_default off_slot = []" "off_slot\<lparr>cb_default := []\<rparr> = off_slot"
  "cb_enabled mlx_slot = True" "cb_default mlx_slot = mlxLocalID"
  by (simp_all add: off_slot_def mlx_slot_def)

lemma default_slots:
  "fold_res normalize_slot capabilitySlots (default_config u) = Inr (default_config u)"
proof -
  have b: "fillDefaultBatchBackend (default_config u) = default_config u"
    by (simp add: fillDefaultBatchBackend_def firstCloudflareBackendID_def)
  show ?thesis
    unfolding capabilitySlots_def fold_res.simps normalize_slot_def Let_def
    by (simp add: b normalizeCapabilityBackend_def inheritTTSDefault_def)
qed

lemma default_backends:
  "u \<noteq> [] \<Longrightarrow> normalizeBackends sanitize env (default_config u) = Inr (default_config u)"
  by (simp add: normalizeBackends_def sorted_keys_def normalize_backend_def
      backend_of_def check_backend_def cap_defs Let_def)
    (simp add: mlx_backend_def validate_models_def)

lemma default_require:
  "sl \<in> set capabilitySlots \<Longrightarrow> require_slot (default_config u) sl = None"
  by (auto simp: capabilitySlots_def require_slot_def requireBackend_def Let_def backend_of_def)

lemma default_rest:
  "fillCloudflareChatTimeouts (default_config u) = default_config u"
  "validateRouters (rc_backends (default_config u)) (rc_routers (default_config u)) = None"
  "fillSwitchyardDefaults dp (rc_routers (default_config u)) sy = Inr sy"
  by (simp add: fillCloudflareChatTimeouts_def cloudflare_timeout_def)
    (simp_all add: validateRouters_def sorted_keys_def reservedBackendID_def mlxLocalID_def
      fillSwitchyardDefaults_def HasComposedRouters_def)

lemma default_normalizes:
  "u \<noteq> [] \<Longrightarrow> normalizeRouterConfig sanitize env dp (default_config u) = Inr (default_config u)"
proof -
  assume u: "u \<noteq> []"
  have "first_error (map (require_slot (default_config u)) capabilitySlots) = None"
    using default_require by (auto simp: first_error_None)
  then show ?thesis
    using u default_rest(2) [of u] default_rest(3) [of dp u]
    by (simp add: normalizeRouterConfig_def default_slots default_backends default_rest(1) Let_def)
qed

section \<open>Properties\<close>

text \<open>C21: In a configuration that normalises, every enabled slot (chat, vision, embed, tts, stt,
  proxy, systemone, batch) defaults to a configured backend with that slot's capability.\<close>

theorem enabled_slots_are_served:
  assumes "normalizeRouterConfig sanitize env dp cfg0 = Inr cfg"
    and "sl \<in> set capabilitySlots" and "cb_enabled (sl_get sl cfg)"
  shows "\<exists>b. backend_of cfg (cb_default (sl_get sl cfg)) = Some b \<and> HasCapability b (sl_capability sl)"
  by (rule normalized_slot [OF assms])

theorem enabled_slots_are_served_witness:
  "\<exists>b. backend_of (default_config ''http://mlx'') mlxLocalID = Some b \<and> HasCapability b CapTTS"
  using enabled_slots_are_served [OF default_normalizes [where u = "''http://mlx''"
      and sanitize = "\<lambda>s. s" and env = "\<lambda>_. []" and dp = "Inr []"], of "capabilitySlots ! 3"]
  by (simp add: capabilitySlots_def)

text \<open>In a configuration that normalises, every backend has a capability, a base URL unless
  its extension supplies one, a bearer token in the environment if it is remote, a client for the
  decisions it claims to serve, and no blank allow entry; a Cloudflare backend has a chat budget
  of its own.\<close>

theorem backends_are_checked:
  assumes "normalizeRouterConfig sanitize env dp cfg0 = Inr cfg" and "backend_of cfg k = Some b"
  shows "bk_capabilities b \<noteq> [] \<and> (bk_base_url b = [] \<longrightarrow> baseURLOptional b) \<and>
    (bk_remote b \<longrightarrow> sanitize (env (trim_space (bk_bearer_env b))) \<noteq> []) \<and>
    (HasCapability b CapSystemOne \<longrightarrow> hasSystemOneRoute b) \<and>
    validate_models (bk_models b) k = None \<and>
    (IsCloudflareExtension b \<longrightarrow> bt_chat (backend_timeouts_of (rc_timeouts cfg) k) \<noteq> 0)"
proof (rule normalizeRouterConfig_Inr [OF assms(1)])
  fix cfg1 cfg2 sy
  assume nb: "normalizeBackends sanitize env cfg1 = Inr cfg2"
    and cfg: "cfg = (fillCloudflareChatTimeouts cfg2)\<lparr>rc_switchyard := sy\<rparr>"
  have b2: "backend_of cfg2 k = Some b"
    using assms(2) cfg by (simp add: fillCloudflareChatTimeouts_def)
  with normalizeBackends_checked [OF nb, of k] have c: "check_backend sanitize env k b = None"
    by (simp add: checked_def)
  have "bt_chat (backend_timeouts_of (rc_timeouts cfg) k) \<noteq> 0" if "IsCloudflareExtension b"
    using cloudflare_fold [OF map_of_SomeD that] b2 cfg
    by (simp add: fillCloudflareChatTimeouts_def backend_of_def)
  moreover have "sanitize (env (trim_space (bk_bearer_env b))) \<noteq> []" if "bk_remote b"
    using c that by (auto simp: check_backend_def ResolveBearerToken_def Let_def split: if_splits)
  ultimately show ?thesis
    using c by (auto simp: check_backend_def split: if_splits sum.splits)
qed

theorem backends_are_checked_witness:
  "bk_capabilities (mlx_backend ''http://mlx'') \<noteq> [] \<and>
   validate_models (bk_models (mlx_backend ''http://mlx'')) mlxLocalID = None"
  using backends_are_checked [OF default_normalizes [where u = "''http://mlx''"
      and sanitize = "\<lambda>s. s" and env = "\<lambda>_. []" and dp = "Inr []"], of mlxLocalID]
  by (simp add: backend_of_def)

text \<open>With no configuration file and no overrides the gateway starts: the default
  configuration normalises for every backend URL, environment and default path, and proxies to
  the local audio backend.\<close>

theorem default_config_starts:
  "\<exists>cfg. normalizeRouterConfig sanitize env dp (defaultRouterFromEnv url) = Inr cfg \<and>
     EffectiveTTSBackend cfg = mlxLocalID \<and> EffectiveProxyBackend cfg = mlxLocalID \<and>
     EffectiveChatBackend cfg = [] \<and>
     ProxyBackendURL cfg = ProxyBackendURL (defaultRouterFromEnv url) \<and> ProxyBackendURL cfg \<noteq> []"
proof -
  obtain u where u: "u \<noteq> []" "defaultRouterFromEnv url = default_config u"
    by (cases "trim_right_char (CHR ''/'') (trim_space url) = []")
      (auto simp: defaultRouterFromEnv_def Let_def DefaultMLXURL_def)
  have "ProxyBackendURL (default_config u) = u"
    by (simp add: ProxyBackendURL_def EffectiveProxyBackend_def effective_backend_def backend_of_def
        Let_def)
  with u show ?thesis
    by (simp add: default_normalizes EffectiveTTSBackend_def EffectiveProxyBackend_def
        EffectiveChatBackend_def effective_backend_def)
qed

text \<open>Whatever the environment holds, the model catalog's cache lifetime is positive and its
  refresh interval is not negative; a malformed value is reported, never used.\<close>

theorem inventory_settings_are_usable:
  "0 < mi_cache_ttl (fst (LoadModelsInventory env)) \<and>
   0 \<le> mi_refresh_interval (fst (LoadModelsInventory env))"
proof -
  obtain r re where r: "envDurationOrOff env ''POLYPUS_MODELS_REFRESH_INTERVAL'' DefaultModelsRefreshInterval = (r, re)"
    by fastforce
  obtain t te where t: "envDurationOrOff env ''POLYPUS_MODELS_CACHE_TTL'' DefaultModelsCacheTTL = (t, te)"
    by fastforce
  have "0 \<le> r" "0 \<le> t"
    using envDurationOrOff_nonneg [of DefaultModelsRefreshInterval env "''POLYPUS_MODELS_REFRESH_INTERVAL''"]
      envDurationOrOff_nonneg [of DefaultModelsCacheTTL env "''POLYPUS_MODELS_CACHE_TTL''"] r t
    by (simp_all add: DefaultModelsRefreshInterval_def DefaultModelsCacheTTL_def ns_defs)
  then show ?thesis
    using r t by (auto simp: LoadModelsInventory_def Let_def DefaultModelsCacheTTL_def ns_defs
        split: prod.split option.split)
qed

end
