(* ===== verification/Batch_Core.thy ===== *)
theory Batch_Core
  imports Errors Json Durations
begin

text \<open>
  The provider-neutral core of \<open>internal/batch\<close>: the stored records (\<open>types.go\<close>), ids
  (\<open>ids.go\<close>), completion windows (\<open>completion_window.go\<close>), the validation of a batch input
  file (\<open>jsonl.go\<close>) and the output and error files (\<open>output.go\<close>). The text of an
  \<open>encoding/json\<close> error is an argument where the code shows it to the user. The lemmas give
  the shape of accepted inputs and windows and count the lines of the output files.
\<close>

section \<open>Records\<close>

record file_record =
  fr_id :: string
  fr_object :: string
  fr_bytes :: int
  fr_created_at :: int
  fr_filename :: string
  fr_purpose :: string
  fr_status :: string

definition FilePurposeBatch :: string where "FilePurposeBatch = ''batch''"

record request_counts =
  rq_total :: int
  rq_completed :: int
  rq_failed :: int

text \<open>A status is the string the API shows; a stored record may hold any other.\<close>

datatype status =
    StatusValidating | StatusInProgress | StatusCompleted | StatusFailed | StatusCancelling
  | StatusCancelled | StatusExpired | OtherStatus string

fun status_name :: "status \<Rightarrow> string" where
  "status_name StatusValidating = ''validating''"
| "status_name StatusInProgress = ''in_progress''"
| "status_name StatusCompleted = ''completed''"
| "status_name StatusFailed = ''failed''"
| "status_name StatusCancelling = ''cancelling''"
| "status_name StatusCancelled = ''cancelled''"
| "status_name StatusExpired = ''expired''"
| "status_name (OtherStatus s) = s"

definition Terminal :: "status \<Rightarrow> bool" where
  "Terminal st =
     (case st of
        StatusCompleted \<Rightarrow> True | StatusFailed \<Rightarrow> True | StatusCancelled \<Rightarrow> True | StatusExpired \<Rightarrow> True
      | StatusValidating \<Rightarrow> False | StatusInProgress \<Rightarrow> False | StatusCancelling \<Rightarrow> False
      | OtherStatus _ \<Rightarrow> False)"

record meta =
  m_id :: string
  m_object :: string
  m_endpoint :: string
  m_input_file_id :: string
  m_output_file_id :: string
  m_error_file_id :: string
  m_completion_window :: string
  m_status :: status
  m_backend_id :: string
  m_public_model :: string
  m_cf_model :: string
  m_cf_request_id :: string
  m_upstream_batch_id :: string
  m_request_counts :: request_counts
  m_created_at :: int
  m_in_progress_at :: int
  m_completed_at :: int
  m_failed_at :: int
  m_cancelled_at :: int
  m_expires_at :: int

record public_batch =
  pb_id :: string
  pb_object :: string
  pb_endpoint :: string
  pb_input_file_id :: string
  pb_output_file_id :: string
  pb_error_file_id :: string
  pb_completion_window :: string
  pb_status :: status
  pb_request_counts :: request_counts
  pb_created_at :: int
  pb_in_progress_at :: int
  pb_completed_at :: int
  pb_failed_at :: int
  pb_cancelled_at :: int
  pb_expires_at :: int

definition Public :: "meta \<Rightarrow> public_batch" where
  "Public m =
     \<lparr>pb_id = m_id m, pb_object = (let obj = trim_space (m_object m) in if obj = [] then ''batch'' else obj),
      pb_endpoint = m_endpoint m, pb_input_file_id = m_input_file_id m,
      pb_output_file_id = m_output_file_id m, pb_error_file_id = m_error_file_id m,
      pb_completion_window = m_completion_window m, pb_status = m_status m,
      pb_request_counts = m_request_counts m, pb_created_at = m_created_at m,
      pb_in_progress_at = m_in_progress_at m, pb_completed_at = m_completed_at m,
      pb_failed_at = m_failed_at m, pb_cancelled_at = m_cancelled_at m,
      pb_expires_at = m_expires_at m\<rparr>"

section \<open>Ids\<close>

text \<open>\<open>rand.Text()\<close> is the argument \<open>rand\<close>.\<close>

definition newID :: "string \<Rightarrow> string \<Rightarrow> string" where
  "newID prefix rand = prefix @ ''_'' @ to_lower rand"

definition isIDRune :: "char \<Rightarrow> bool" where
  "isIDRune r =
     (between (CHR ''a'') (CHR ''z'') r \<or> between (CHR ''A'') (CHR ''Z'') r \<or> is_digit r \<or>
      r = CHR ''_'' \<or> r = CHR ''-'')"

definition checkID :: "string \<Rightarrow> string \<Rightarrow> goerr + string" where
  "checkID op id0 =
     (let i = trim_space id0
      in if i = [] then Inl (DomainErr (err_new CodeInvalid op ''id required''))
         else if \<not> list_all isIDRune i then Inl (DomainErr (err_new CodeInvalid op ''invalid id''))
         else Inr i)"

section \<open>Completion windows\<close>

definition window_error :: "string \<Rightarrow> string \<Rightarrow> goerr" where
  "window_error msg window =
     DomainErr (with_field (err_new CodeInvalid ''batch.parseCompletionWindow'' msg) ''completion_window'' window)"

definition parseCompletionWindow :: "string \<Rightarrow> goerr + int" where
  "parseCompletionWindow window0 =
     (let window = trim_space (to_lower window0)
      in if window = [] then Inr (24 * ns_hour)
         else if \<not> has_suffix window ''h'' \<and> \<not> has_suffix window ''m''
           then Inl (window_error ''unsupported completion_window'' window)
         else if parse_int64 (take (length window - 1) window) = None
           then Inl (window_error ''invalid completion_window'' window)
         else case parse_duration window of
           None \<Rightarrow> Inl (window_error ''invalid completion_window'' window)
         | Some d \<Rightarrow>
             if d \<le> 0 then Inl (window_error ''invalid completion_window'' window) else Inr d)"

text \<open>\<open>int64(d.Seconds())\<close> is exact: an accepted window is a whole number of minutes.\<close>

definition ExpiresAtUnix :: "int \<Rightarrow> string \<Rightarrow> goerr + int" where
  "ExpiresAtUnix createdAt completionWindow =
     (case parseCompletionWindow completionWindow of
        Inl e \<Rightarrow> Inl e
      | Inr d \<Rightarrow> Inr (wrap64 (createdAt + d div ns_second)))"

section \<open>Batch input\<close>

definition EndpointChatCompletions :: string where "EndpointChatCompletions = ''/v1/chat/completions''"
definition EndpointEmbeddings :: string where "EndpointEmbeddings = ''/v1/embeddings''"
definition opParseBatchJSONL :: string where "opParseBatchJSONL = ''batch.ParseBatchJSONL''"

record input_line =
  il_custom_id :: string
  il_method :: string
  il_url :: string
  il_body :: string

record parsed_input =
  pi_endpoint :: string
  pi_model :: string
  pi_lines :: "input_line list"

definition input_line_fields :: "input_line field_decoder list" where
  "input_line_fields =
     [(''custom_id'', \<lambda>raw v s. map_option (\<lambda>t. s\<lparr>il_custom_id := t\<rparr>) (dec_string (il_custom_id s) v)),
      (''method'', \<lambda>raw v s. map_option (\<lambda>t. s\<lparr>il_method := t\<rparr>) (dec_string (il_method s) v)),
      (''url'', \<lambda>raw v s. map_option (\<lambda>t. s\<lparr>il_url := t\<rparr>) (dec_string (il_url s) v)),
      (''body'', \<lambda>raw v s. Some (s\<lparr>il_body := raw\<rparr>))]"

definition zero_input_line :: input_line where
  "zero_input_line = \<lparr>il_custom_id = [], il_method = [], il_url = [], il_body = []\<rparr>"

definition splitJSONL :: "bytes \<Rightarrow> bytes list" where
  "splitJSONL raw =
     filter (\<lambda>line. line \<noteq> []) (map trim_space (split_char (CHR 0x0A) raw))"

text \<open>The error of \<open>json.Unmarshal\<close>: only that it is foreign matters.\<close>

definition json_error :: goerr where "json_error = Leaf ''json''"

definition extractModelFromBody :: "string \<Rightarrow> goerr + string" where
  "extractModelFromBody body =
     (case unmarshal [(''model'', \<lambda>raw v s. dec_string s v)] [] body of
        None \<Rightarrow> Inl json_error
      | Some m \<Rightarrow>
          (let model = trim_space m
           in if model = []
              then Inl (DomainErr (err_new CodeInvalid ''batch.extractModelFromBody'' ''model required''))
              else Inr model))"

definition validateBodyForEndpoint :: "string \<Rightarrow> string \<Rightarrow> goerr option" where
  "validateBodyForEndpoint endpoint body =
     (let op = ''batch.validateBodyForEndpoint''
      in case Option.bind (json_parse body) dec_raw_map of
           None \<Rightarrow> Some json_error
         | Some m \<Rightarrow>
             if (case map_of m ''stream'' of
                   None \<Rightarrow> False
                 | Some stream \<Rightarrow> Option.bind (json_parse stream) (dec_bool False) = Some True)
             then Some (DomainErr (err_new CodeInvalid op ''stream not supported in batch''))
             else if endpoint = EndpointChatCompletions \<and> map_of m ''messages'' = None
             then Some (DomainErr (err_new CodeInvalid op ''messages required''))
             else if endpoint = EndpointEmbeddings \<and> map_of m ''input'' = None
             then Some (DomainErr (err_new CodeInvalid op ''input required''))
             else None)"

definition line_invalid :: "nat \<Rightarrow> string \<Rightarrow> goerr option \<Rightarrow> derr" where
  "line_invalid i msg cause =
     with_field (err_wrap cause CodeInvalid opParseBatchJSONL msg) ''line'' (nat_text (i + 1))"

text \<open>The body of the loop on line \<open>i\<close>; the \<open>seen\<close> set holds the custom ids of \<open>out\<close>.\<close>

definition parse_line :: "string \<Rightarrow> nat \<Rightarrow> bytes \<Rightarrow> parsed_input \<Rightarrow> derr + parsed_input" where
  "parse_line endpoint i line out =
     (case unmarshal input_line_fields zero_input_line line of
        None \<Rightarrow> Inl (line_invalid i ''parse line'' (Some json_error))
      | Some req0 \<Rightarrow>
          (let req = req0\<lparr>il_custom_id := trim_space (il_custom_id req0)\<rparr>
           in if il_custom_id req = [] then Inl (line_invalid i ''custom_id required'' None)
              else if to_upper (trim_space (il_method req)) \<noteq> ''POST''
                then Inl (line_invalid i ''method must be POST'' None)
              else if trim_space (il_url req) \<noteq> endpoint
                then Inl (line_invalid i ''line url must match batch endpoint'' None)
              else case extractModelFromBody (il_body req) of
                Inl e \<Rightarrow> Inl (line_invalid i ''model in body'' (Some e))
              | Inr lineModel \<Rightarrow>
                  if pi_model out \<noteq> [] \<and> pi_model out \<noteq> lineModel
                  then Inl (with_field (line_invalid i ''all lines must use the same model'' None) ''model'' lineModel)
                  else case validateBodyForEndpoint endpoint (il_body req) of
                    Some e \<Rightarrow> Inl (line_invalid i ''body'' (Some e))
                  | None \<Rightarrow>
                      if il_custom_id req \<in> il_custom_id ` set (pi_lines out)
                      then Inl (with_field (line_invalid i ''duplicate custom_id'' None) ''custom_id'' (il_custom_id req))
                      else Inr (out\<lparr>pi_model := lineModel, pi_lines := pi_lines out @ [req]\<rparr>)))"

definition ParseBatchJSONL :: "bytes \<Rightarrow> string \<Rightarrow> derr + parsed_input" where
  "ParseBatchJSONL raw endpoint0 =
     (let endpoint = trim_space endpoint0; lines = splitJSONL raw
      in if endpoint \<noteq> EndpointChatCompletions \<and> endpoint \<noteq> EndpointEmbeddings
         then Inl (with_field (err_new CodeInvalid opParseBatchJSONL ''unsupported endpoint'') ''endpoint'' endpoint)
         else if lines = [] then Inl (err_new CodeInvalid opParseBatchJSONL ''empty input'')
         else fold_res (\<lambda>(i, line). parse_line endpoint i line) (enumerate 0 lines)
                \<lparr>pi_endpoint = endpoint, pi_model = [], pi_lines = []\<rparr>)"

section \<open>Batch output\<close>

definition LineErrFailed :: string where "LineErrFailed = ''batch_failed''"
definition LineErrSynthesis :: string where "LineErrSynthesis = ''synthesis_failed''"
definition lineErrEncode :: string where "lineErrEncode = ''output_encode_failed''"

record line_result =
  lr_custom_id :: string
  lr_body :: string
  lr_err_code :: string
  lr_err_message :: string

text \<open>The encoded members of an \<open>outputLine\<close>: one of response and error is null.\<close>

definition marshal_ok_line :: "string \<Rightarrow> string \<Rightarrow> string option" where
  "marshal_ok_line customID body =
     map_option (\<lambda>b. ''{\"id\":'' @ json_quote (''batch_req_'' @ customID) @
         '',\"custom_id\":'' @ json_quote customID @
         '',\"response\":{\"status_code\":200,\"body\":'' @ b @ ''},\"error\":null}'')
       (json_compact body)"

definition marshal_err_line :: "string \<Rightarrow> string \<Rightarrow> string \<Rightarrow> string" where
  "marshal_err_line customID code msg =
     ''{\"id\":'' @ json_quote (''batch_req_'' @ customID) @ '',\"custom_id\":'' @ json_quote customID @
     '',\"response\":null,\"error\":{\"code\":'' @ json_quote code @ '',\"message\":'' @ json_quote msg @ ''}}''"

text \<open>
  One line: \<open>Inl\<close> is a line of the error file, \<open>Inr\<close> of the output file. Encoding strings
  never fails, so the last resort of the code is never reached. \<open>encode_error\<close> is the text
  of the encoder's error for a body that is no JSON.
\<close>

definition output_line :: "(string \<Rightarrow> string) \<Rightarrow> line_result \<Rightarrow> string + string" where
  "output_line encode_error item =
     (let customID = trim_space (lr_custom_id item)
      in if lr_body item \<noteq> [] \<and> lr_err_code item = [] then
           (case marshal_ok_line customID (lr_body item) of
              Some b \<Rightarrow> Inr b
            | None \<Rightarrow> Inl (marshal_err_line customID lineErrEncode (encode_error (lr_body item))))
         else Inl (marshal_err_line customID (lr_err_code item) (lr_err_message item)))"

definition jsonl_file :: "string list \<Rightarrow> bytes" where
  "jsonl_file lines = (if lines = [] then [] else join [CHR 0x0A] lines @ [CHR 0x0A])"

definition BuildOutput :: "(string \<Rightarrow> string) \<Rightarrow> line_result list \<Rightarrow> bytes \<times> bytes \<times> nat \<times> nat" where
  "BuildOutput encode_error lines =
     (let outs = map (output_line encode_error) lines;
          okLines = List.map_filter (\<lambda>o1. case o1 of Inr b \<Rightarrow> Some b | Inl _ \<Rightarrow> None) outs;
          errLines = List.map_filter (\<lambda>o1. case o1 of Inl b \<Rightarrow> Some b | Inr _ \<Rightarrow> None) outs
      in (jsonl_file okLines, jsonl_file errLines, length okLines, length errLines))"

section \<open>Accepted windows\<close>

lemma digits_val_digits: "digits_val acc s = Some n \<Longrightarrow> \<forall>c \<in> set s. is_digit c"
  by (induction acc s rule: digits_val.induct) (auto split: if_splits)

lemma window_split:
  assumes "has_suffix w ''h'' \<or> has_suffix w ''m''"
  obtains u where "w = take (length w - 1) w @ u" "u = ''h'' \<or> u = ''m''"
  using assms by (auto simp: has_suffix_iff)

text \<open>A digit string and a unit: if it parses at all, it is that many units.\<close>

lemma parse_duration_unit:
  assumes "digits_val 0 ds = Some n" "ds \<noteq> []" "u = ''h'' \<or> u = ''m''" "map_of unit_map u = Some k"
    and "parse_duration (ds @ u) = Some d"
  shows "d = int (n * k)"
proof -
  have dig: "\<forall>c \<in> set ds. is_digit c" using assms(1) by (rule digits_val_digits)
  have u: "\<forall>c \<in> set u. \<not> digit_or_dot c" "\<not> has_prefix u ''.''" "u \<noteq> []" "\<not> is_digit (hd u)"
    using assms(3) by (auto simp: is_digit_def digit_or_dot_def of_char_less_eq)
  have u': "takeWhile (\<lambda>c. \<not> digit_or_dot c) u = u" using u(1) by (simp add: takeWhile_eq_all_conv)
  have tw: "takeWhile is_digit (ds @ u) = ds" using dig u(3,4) by (cases u) auto
  have dr: "drop (length ds) (ds @ u) = u" by simp
  have grp: "w = n * k \<and> r = []" if "duration_group (ds @ u) = Some (w, r)" for w r
    using that assms(1,2,4) u(2) unfolding duration_group_def Let_def tw dr
    by (simp add: u' split: if_splits)
  obtain c cs where ds: "ds = c # cs" using assms(2) by (cases ds) auto
  with dig have c: "c \<noteq> CHR ''-''" "c \<noteq> CHR ''+''" by (auto simp: is_digit_def of_char_less_eq)
  have "\<exists>m. duration_groups (ds @ u) 0 = Some m \<and> d = int m"
    using assms(5) ds c u(3) by (auto simp: parse_duration_def Let_def split: option.splits if_splits)
  then obtain m where m: "duration_groups (ds @ u) 0 = Some m" "d = int m" by blast
  then obtain w r where "duration_group (ds @ u) = Some (w, r)"
    using ds by (auto simp: duration_groups.simps [of "c # cs @ u" 0] split: option.splits)
  with grp m have "m = n * k"
    using ds by (auto simp: duration_groups.simps [of "c # cs @ u" 0] duration_groups.simps [of "[]"]
        split: if_splits)
  with m show ?thesis by simp
qed

lemma parse_duration_signed:
  "parse_duration (CHR ''+'' # s) = Some d \<Longrightarrow> \<not> has_prefix s ''-'' \<Longrightarrow> \<not> has_prefix s ''+'' \<Longrightarrow> parse_duration s = Some d"
  "parse_duration (CHR ''-'' # s) = Some d \<Longrightarrow> d \<le> 0"
  by (auto simp: parse_duration_def Let_def split: if_splits option.splits)

lemma parse_int64_digits:
  assumes "parse_int64 s = Some i"
  obtains n where "digits_val 0 s = Some n" "s \<noteq> []"
    | cs n where "s = CHR ''+'' # cs" "digits_val 0 cs = Some n" "cs \<noteq> []"
    | cs where "s = CHR ''-'' # cs"
  using assms by (auto simp: parse_int64_def Let_def split: list.splits if_splits option.splits)

lemma unit_minutes:
  assumes "u = ''h'' \<or> u = ''m''"
  obtains k where "map_of unit_map u = Some k" "ns_minute dvd int k"
  using assms by (auto simp: unit_map_def ns_minute_def ns_second_def dvd_def)

lemma window_minutes:
  assumes "parseCompletionWindow w = Inr d"
  shows "0 < d \<and> d < 2 ^ 63 \<and> ns_minute dvd d"
proof (cases "trim_space (to_lower w) = []")
  case True
  then show ?thesis using assms by (simp add: parseCompletionWindow_def ns_hour_def ns_minute_def ns_second_def)
next
  case False
  let ?w = "trim_space (to_lower w)"
  from False assms have w: "has_suffix ?w ''h'' \<or> has_suffix ?w ''m''" "parse_duration ?w = Some d" "0 < d"
    "\<exists>i. parse_int64 (take (length ?w - 1) ?w) = Some i"
    by (auto simp: parseCompletionWindow_def Let_def split: if_splits option.splits)
  obtain u where u: "?w = take (length ?w - 1) ?w @ u" "u = ''h'' \<or> u = ''m''"
    using window_split [OF w(1)] by blast
  obtain k where k: "map_of unit_map u = Some k" "ns_minute dvd int k" using unit_minutes [OF u(2)] by blast
  obtain i where "parse_int64 (take (length ?w - 1) ?w) = Some i" using w(4) by blast
  then have "\<exists>n. d = int (n * k)"
  proof (cases rule: parse_int64_digits)
    case (1 n)
    then show ?thesis using parse_duration_unit [OF _ _ u(2) k(1)] w(2) u(1) by metis
  next
    case (2 cs n)
    then have "parse_duration (CHR ''+'' # cs @ u) = Some d" using w(2) u(1) by (metis append_Cons)
    moreover have "\<not> has_prefix (cs @ u) ''-''" "\<not> has_prefix (cs @ u) ''+''"
      using digits_val_digits [OF 2(2)] 2(3)
      by (cases cs; auto simp: is_digit_def of_char_less_eq)+
    ultimately have "parse_duration (cs @ u) = Some d" by (rule parse_duration_signed)
    then show ?thesis using parse_duration_unit [OF 2(2,3) u(2) k(1)] by blast
  next
    case (3 cs)
    then have "parse_duration (CHR ''-'' # cs @ u) = Some d" using w(2) u(1) by (metis append_Cons)
    then have "d \<le> 0" by (rule parse_duration_signed)
    then show ?thesis using w(3) by simp
  qed
  with k(2) have "ns_minute dvd d" by auto
  then show ?thesis using w(2,3) parse_duration_range by blast
qed

section \<open>Accepted inputs\<close>

definition lines_ok :: "string \<Rightarrow> parsed_input \<Rightarrow> bool" where
  "lines_ok endpoint p \<longleftrightarrow>
     distinct (map il_custom_id (pi_lines p)) \<and>
     (\<forall>l \<in> set (pi_lines p). il_custom_id l \<noteq> [] \<and> trim_space (il_url l) = endpoint \<and>
        to_upper (trim_space (il_method l)) = ''POST'' \<and>
        extractModelFromBody (il_body l) = Inr (pi_model p) \<and>
        validateBodyForEndpoint endpoint (il_body l) = None) \<and>
     (pi_lines p \<noteq> [] \<longrightarrow> pi_model p \<noteq> []) \<and> (pi_model p = [] \<longrightarrow> pi_lines p = [])"

lemma extractModel_nonblank: "extractModelFromBody body = Inr m \<Longrightarrow> m \<noteq> []"
  by (auto simp: extractModelFromBody_def Let_def split: option.splits if_splits)

lemma parse_line_ok:
  assumes "parse_line endpoint i line p = Inr p'" "lines_ok endpoint p"
  shows "lines_ok endpoint p' \<and> pi_endpoint p' = pi_endpoint p \<and>
    length (pi_lines p') = Suc (length (pi_lines p))"
proof -
  from assms(1) obtain r0 m where
    "trim_space (il_custom_id r0) \<noteq> []" "to_upper (trim_space (il_method r0)) = ''POST''"
    "trim_space (il_url r0) = endpoint" "extractModelFromBody (il_body r0) = Inr m"
    "pi_model p = [] \<or> pi_model p = m" "validateBodyForEndpoint endpoint (il_body r0) = None"
    "trim_space (il_custom_id r0) \<notin> il_custom_id ` set (pi_lines p)"
    and p': "p' = p\<lparr>pi_model := m,
      pi_lines := pi_lines p @ [r0\<lparr>il_custom_id := trim_space (il_custom_id r0)\<rparr>]\<rparr>"
    by (auto simp: parse_line_def Let_def split: option.splits if_splits sum.splits)
  with assms(2) extractModel_nonblank [OF this(4)] show ?thesis
    by (auto simp: lines_ok_def)
qed

lemma parse_lines_ok:
  assumes "fold_res (\<lambda>(i, line). parse_line endpoint i line) (enumerate k ls) p = Inr p'" "lines_ok endpoint p"
  shows "lines_ok endpoint p' \<and> pi_endpoint p' = pi_endpoint p \<and>
    length (pi_lines p') = length (pi_lines p) + length ls"
  using assms
proof (induction ls arbitrary: k p)
  case (Cons l ls)
  then obtain p1 where p1: "parse_line endpoint k l p = Inr p1"
    "fold_res (\<lambda>(i, line). parse_line endpoint i line) (enumerate (Suc k) ls) p1 = Inr p'"
    by (auto split: sum.splits)
  with parse_line_ok [OF p1(1) Cons.prems(2)] Cons.IH [OF p1(2)] show ?case by auto
qed simp

lemma ParseBatchJSONL_ok:
  assumes "ParseBatchJSONL raw endpoint = Inr p"
  shows "lines_ok (pi_endpoint p) p \<and> length (pi_lines p) = length (splitJSONL raw) \<and> splitJSONL raw \<noteq> [] \<and>
    pi_endpoint p \<in> {EndpointChatCompletions, EndpointEmbeddings}"
proof -
  let ?e = "trim_space endpoint" and ?ls = "splitJSONL raw"
  have "?e \<in> {EndpointChatCompletions, EndpointEmbeddings}" "?ls \<noteq> []"
    and f: "fold_res (\<lambda>(i, line). parse_line ?e i line) (enumerate 0 ?ls)
      \<lparr>pi_endpoint = ?e, pi_model = [], pi_lines = []\<rparr> = Inr p"
    using assms by (auto simp: ParseBatchJSONL_def Let_def split: if_splits)
  moreover have "lines_ok ?e p \<and> pi_endpoint p = ?e \<and> length (pi_lines p) = length ?ls"
    using parse_lines_ok [OF f] by (simp add: lines_ok_def)
  ultimately show ?thesis by auto
qed

section \<open>Lines of the output files\<close>

lemma split_char_sep: "c \<notin> set l \<Longrightarrow> split_char c (l @ c # t) = l # split_char c t"
  by (induction l) auto

lemma split_join_lines:
  "\<forall>l \<in> set ls. c \<notin> set l \<Longrightarrow> ls \<noteq> [] \<Longrightarrow> split_char c (join [c] ls @ [c]) = ls @ [[]]"
  by (induction ls rule: induct_list012) (simp_all add: split_char_sep)

definition jsonl_line :: "string \<Rightarrow> bool" where
  "jsonl_line l \<longleftrightarrow> l \<noteq> [] \<and> hd l = CHR ''{'' \<and> last l = CHR ''}'' \<and> CHR 0x0A \<notin> set l"

lemma splitJSONL_file:
  assumes "\<forall>l \<in> set ls. jsonl_line l"
  shows "splitJSONL (jsonl_file ls) = ls"
proof (cases "ls = []")
  case False
  have t: "trim_space l = l \<and> l \<noteq> []" if "l \<in> set ls" for l
    using assms that by (auto simp: jsonl_line_def graphic_def intro!: trim_space_id)
  then have "map trim_space ls = ls" by (simp add: map_idI)
  moreover have "filter (\<lambda>line. line \<noteq> []) ls = ls" using t by (simp add: filter_id_conv)
  ultimately show ?thesis
    using False assms by (simp add: splitJSONL_def jsonl_file_def split_join_lines jsonl_line_def)
qed (simp add: splitJSONL_def jsonl_file_def)

lemma marshal_lines:
  "marshal_ok_line c b = Some l \<Longrightarrow> jsonl_line l" "jsonl_line (marshal_err_line c code msg)"
  using json_quote_no_newline
  by (auto simp: marshal_ok_line_def marshal_err_line_def jsonl_line_def json_compact_def
      split: if_splits dest: compact_loop_no_newline)

lemma output_line_jsonl:
  "output_line f item = Inl l \<Longrightarrow> jsonl_line l" "output_line f item = Inr l \<Longrightarrow> jsonl_line l"
  using marshal_lines by (auto simp: output_line_def Let_def split: option.splits if_splits)

lemma partition_lines:
  "\<forall>l \<in> set (List.map_filter (\<lambda>o1. case o1 of Inr b \<Rightarrow> Some b | Inl _ \<Rightarrow> None) (map (output_line f) items)). jsonl_line l"
  "\<forall>l \<in> set (List.map_filter (\<lambda>o1. case o1 of Inl b \<Rightarrow> Some b | Inr _ \<Rightarrow> None) (map (output_line f) items)). jsonl_line l"
  "length (List.map_filter (\<lambda>o1. case o1 of Inr b \<Rightarrow> Some b | Inl _ \<Rightarrow> None) (map (output_line f) items)) +
   length (List.map_filter (\<lambda>o1. case o1 of Inl b \<Rightarrow> Some b | Inr _ \<Rightarrow> None) (map (output_line f) items)) = length items"
  by (induction items) (auto simp: map_filter_simps output_line_jsonl split: sum.splits option.splits)

section \<open>Properties\<close>

text \<open>Every finished line lands in exactly one of the two output files: the counts add up to
  the number of lines, and each file, split again as batch input is split, has exactly as many
  lines as its count, whatever the provider put in bodies, ids and messages.\<close>

theorem output_files_account_for_every_line:
  "BuildOutput encode_error lines = (okJSONL, errJSONL, completed, failed) \<Longrightarrow>
   completed + failed = length lines \<and>
   length (splitJSONL okJSONL) = completed \<and> length (splitJSONL errJSONL) = failed"
  using partition_lines [of encode_error lines]
  by (auto simp: BuildOutput_def Let_def splitJSONL_file)

definition sample_results :: "line_result list" where
  "sample_results =
     [\<lparr>lr_custom_id = '' a '', lr_body = ''{\"x\": [1, 2]}'', lr_err_code = [], lr_err_message = []\<rparr>,
      \<lparr>lr_custom_id = ''b'', lr_body = ''{oops}'', lr_err_code = [], lr_err_message = []\<rparr>,
      \<lparr>lr_custom_id = ''c'', lr_body = [], lr_err_code = LineErrFailed, lr_err_message = ''no\<newline>go''\<rparr>]"

theorem output_files_account_for_every_line_witness:
  "\<exists>ok er c f. BuildOutput (\<lambda>_. ''bad'') sample_results = (ok, er, c, f) \<and> c + f = 3 \<and>
     length (splitJSONL ok) = c \<and> length (splitJSONL er) = f"
proof -
  obtain ok er c f where b: "BuildOutput (\<lambda>_. ''bad'') sample_results = (ok, er, c, f)"
    by (cases "BuildOutput (\<lambda>_. ''bad'') sample_results")
  from output_files_account_for_every_line [OF b] have "c + f = length sample_results"
    "length (splitJSONL ok) = c" "length (splitJSONL er) = f" by blast+
  then show ?thesis using b by (simp add: sample_results_def)
qed

text \<open>C27: An accepted batch input has one request per non-blank line of the file, its custom ids
  are pairwise distinct and non-blank, and all its requests post to the batch endpoint with one
  and the same model, with the fields that endpoint needs and without streaming.\<close>

theorem accepted_input_is_uniform:
  assumes "ParseBatchJSONL raw endpoint = Inr p"
  shows "length (pi_lines p) = length (splitJSONL raw) \<and> pi_lines p \<noteq> [] \<and> pi_model p \<noteq> [] \<and>
    pi_endpoint p \<in> {EndpointChatCompletions, EndpointEmbeddings} \<and>
    distinct (map il_custom_id (pi_lines p)) \<and>
    (\<forall>l \<in> set (pi_lines p). il_custom_id l \<noteq> [] \<and> trim_space (il_url l) = pi_endpoint p \<and>
       to_upper (trim_space (il_method l)) = ''POST'' \<and>
       extractModelFromBody (il_body l) = Inr (pi_model p) \<and>
       validateBodyForEndpoint (pi_endpoint p) (il_body l) = None)"
  using ParseBatchJSONL_ok [OF assms] by (auto simp: lines_ok_def)

definition sample_input :: bytes where
  "sample_input =
     ''{\"custom_id\":\"a\",\"method\":\"post\",\"url\":\"/v1/embeddings\",\"body\":{\"model\":\"m\",\"input\":1}}\<newline>''"

lemma sample_input_accepted: "ParseBatchJSONL sample_input EndpointEmbeddings = Inr
   \<lparr>pi_endpoint = EndpointEmbeddings, pi_model = ''m'',
    pi_lines = [\<lparr>il_custom_id = ''a'', il_method = ''post'', il_url = EndpointEmbeddings,
      il_body = ''{\"model\":\"m\",\"input\":1}''\<rparr>]\<rparr>"
  by code_simp

theorem accepted_input_is_uniform_witness: "length (splitJSONL sample_input) = 1"
  using accepted_input_is_uniform [OF sample_input_accepted] by simp

text \<open>An accepted completion window is a positive whole number of minutes, so a batch expires
  at least a minute after it was created.\<close>

theorem accepted_window_is_minutes:
  assumes "parseCompletionWindow window = Inr d"
  shows "0 < d \<and> ns_minute dvd d \<and>
    (\<forall>created \<in> {0..2 ^ 62}. \<exists>e. ExpiresAtUnix created window = Inr e \<and> created + 60 \<le> e)"
proof -
  have d: "0 < d" "d < 2 ^ 63" "ns_minute dvd d" using window_minutes [OF assms] by auto
  then have "ns_minute \<le> d" by (simp add: zdvd_imp_le)
  then have "60 \<le> d div ns_second"
    using zdiv_mono1 [of ns_minute d ns_second] by (simp add: ns_minute_def ns_second_def)
  moreover have "d div ns_second < 2 ^ 34"
    using d by (simp add: ns_second_def div_less_iff_less_mult)
  ultimately show ?thesis
    using d assms by (auto simp: ExpiresAtUnix_def wrap64_id)
qed

theorem accepted_window_is_minutes_witness: "(0::int) < 90 * ns_minute"
proof -
  have "parseCompletionWindow '' 90M'' = Inr (90 * ns_minute)" by code_simp
  from accepted_window_is_minutes [OF this] show ?thesis by simp
qed

end
