(* ===== verification/Http_Client.thy ===== *)
theory Http_Client
  imports Batch_Core Rate_Limit Timeouts
begin

text \<open>
  What the provider clients share: reading an upstream answer
  (\<open>internal/clients/httpx/httpx.go\<close>), the encoding of JSON objects held as
  \<open>map[string]json.RawMessage\<close>, and \<open>url.PathEscape\<close>. Sending a request is the library and
  the outbound policies: a transport is a record of functions, and an answer carries the outcome
  of reading its body. A Go panic is a value of the type \<open>run\<close>.
\<close>

section \<open>Panics\<close>

datatype 'a run = Panics | Returns 'a

fun run_bind :: "'a run \<Rightarrow> ('a \<Rightarrow> 'b run) \<Rightarrow> 'b run" where
  "run_bind Panics f = Panics"
| "run_bind (Returns x) f = f x"

lemma run_bind_Returns: "run_bind r f = Returns y \<longleftrightarrow> (\<exists>x. r = Returns x \<and> f x = Returns y)"
  by (cases r) auto

lemma run_bind_Panics: "run_bind r f = Panics \<longleftrightarrow> r = Panics \<or> (\<exists>x. r = Returns x \<and> f x = Panics)"
  by (cases r) auto

section \<open>Answers\<close>

record http_answer =
  ha_status :: int
  ha_header :: header
  ha_body :: "goerr + bytes"

text \<open>\<open>tr_request\<close> is the failure of building the request (a URL that does not parse);
  \<open>tr_send\<close> sends it, under the retry policy when the flag says so.\<close>

record 'u transport =
  tr_request :: "string \<Rightarrow> goerr option"
  tr_send :: "go_context option \<Rightarrow> bool \<Rightarrow> string \<Rightarrow> string \<Rightarrow> bytes option \<Rightarrow> 'u \<Rightarrow> (goerr + http_answer) \<times> 'u"

definition ok_status :: "int \<Rightarrow> bool" where
  "ok_status status \<longleftrightarrow> 200 \<le> status \<and> status < 300"

definition StatusCode :: "int \<Rightarrow> code" where
  "StatusCode status =
     (if status = 429 then CodeRateLimited
      else if status = 401 \<or> status = 403 then CodeUnauthorized
      else if status = 404 \<or> status = 410 then CodeNotFound
      else if 400 \<le> status \<and> status < 500 then CodeInvalid
      else CodeUnavailable)"

text \<open>The runes of a string; an invalid byte is the replacement character.\<close>

function runes :: "string \<Rightarrow> string list" where
  "runes [] = []"
| "runes (b # bs) =
     (let n = utf8_len (b # bs)
      in if n = 0 then replacement # runes bs
         else (b # take (n - 1) bs) # runes (drop (n - 1) bs))"
  by pat_completeness auto
termination
  by (relation "measure length") auto

definition Truncate :: "string \<Rightarrow> nat \<Rightarrow> string" where
  "Truncate s0 n =
     (let s = trim_space s0; r = runes s
      in if length r \<le> n then s else concat (take n r) @ ''...'')"

definition ReadCapped :: "goerr + bytes \<Rightarrow> nat \<Rightarrow> string \<Rightarrow> goerr + bytes" where
  "ReadCapped body limit op =
     (case body of
        Inl e \<Rightarrow> Inl (DomainErr (err_wrap (Some e) CodeUnavailable op ''read body''))
      | Inr raw \<Rightarrow>
          if limit < length raw
          then Inl (DomainErr (with_field (err_new CodeUnavailable op ''upstream response too large'')
                 ''limit_bytes'' (nat_text limit)))
          else Inr raw)"

definition errorBodyMax_httpx :: nat where "errorBodyMax_httpx = 200"

definition statusError :: "string \<Rightarrow> int \<Rightarrow> bytes \<Rightarrow> derr option" where
  "statusError op status body =
     (if ok_status status then None
      else if status = 401 \<or> status = 403
      then Some (with_field (err_new CodeUnauthorized op ''API key rejected'') ''status'' (itoa status))
      else Some (with_field
             (err_new (StatusCode status) op
               (''status '' @ itoa status @ '': '' @ Truncate body errorBodyMax_httpx))
             ''status'' (itoa status)))"

text \<open>\<open>GetJSON\<close> with its decoder; the context, client and headers are the transport's.\<close>

definition GetJSON ::
  "'u transport option \<Rightarrow> go_context option \<Rightarrow> string \<Rightarrow> string \<Rightarrow> nat \<Rightarrow> (bytes \<Rightarrow> 'a option) \<Rightarrow> 'u \<Rightarrow> (goerr + 'a) \<times> 'u" where
  "GetJSON tr ctx op url max_body decode u =
     (if ctx = None then (Inl (DomainErr (err_new CodeInvalid op ''context required'')), u)
      else case tr of
        None \<Rightarrow> (Inl (DomainErr (err_new CodeInternal op ''http client required'')), u)
      | Some t \<Rightarrow>
          (case tr_request t url of
             Some e \<Rightarrow> (Inl (DomainErr (err_wrap (Some e) CodeInternal op ''request'')), u)
           | None \<Rightarrow>
               (case tr_send t ctx True ''GET'' url None u of
                  (Inl e, u') \<Rightarrow>
                    (Inl (DomainErr (err_wrap (Some e) (code_or (Some e) CodeUnavailable) op ''fetch'')), u')
                | (Inr a, u') \<Rightarrow>
                    (case ReadCapped (ha_body a) max_body op of
                       Inl e \<Rightarrow> (Inl e, u')
                     | Inr raw \<Rightarrow>
                         (case statusError op (ha_status a) raw of
                            Some d \<Rightarrow> (Inl (DomainErr d), u')
                          | None \<Rightarrow>
                              (case decode raw of
                                 None \<Rightarrow> (Inl (DomainErr (err_wrap (Some json_error) CodeUnavailable op ''decode'')), u')
                               | Some v \<Rightarrow> (Inr v, u')))))))"

section \<open>Raw JSON objects\<close>

text \<open>
  \<open>json.Unmarshal\<close> into a \<open>map[string]json.RawMessage\<close>: the outer \<open>None\<close> is an error, the
  inner one the nil map that \<open>null\<close> leaves.
\<close>

definition unmarshal_map :: "bytes \<Rightarrow> string gomap option option" where
  "unmarshal_map raw =
     (case json_parse raw of
        None \<Rightarrow> None
      | Some JNull \<Rightarrow> Some None
      | Some v \<Rightarrow> map_option Some (dec_raw_map v))"

text \<open>A member's value: raw text, which the encoder checks and compacts, or a Go value.\<close>

datatype member = RawVal bytes | TextVal string | IntVal int

fun member_text :: "member \<Rightarrow> bytes option" where
  "member_text (RawVal raw) = json_compact raw"
| "member_text (TextVal s) = Some (json_quote s)"
| "member_text (IntVal i) = Some (itoa i)"

fun member_texts :: "(string \<times> member) list \<Rightarrow> bytes list option" where
  "member_texts [] = Some []"
| "member_texts ((k, v) # ms) =
     (case member_text v of
        None \<Rightarrow> None
      | Some t \<Rightarrow> map_option (\<lambda>ts. (json_quote k @ '':'' @ t) # ts) (member_texts ms))"

definition object_text :: "(string \<times> member) list \<Rightarrow> bytes option" where
  "object_text ms = map_option (\<lambda>ts. ''{'' @ join '','' ts @ ''}'') (member_texts ms)"

text \<open>\<open>json.Marshal\<close> of a map sorts its keys; the nil map is \<open>null\<close>.\<close>

definition marshal_members :: "member gomap \<Rightarrow> bytes option" where
  "marshal_members m =
     object_text (map (\<lambda>k. (k, case map_of m k of Some v \<Rightarrow> v | None \<Rightarrow> RawVal ''null'')) (sorted_keys m))"

definition marshal_map :: "string gomap option \<Rightarrow> bytes option" where
  "marshal_map m =
     (case m of
        None \<Rightarrow> Some ''null''
      | Some kv \<Rightarrow> marshal_members (map (\<lambda>(k, v). (k, RawVal v)) kv))"

text \<open>\<open>delete\<close> on a map, nil or not, and assignment, which panics on the nil map.\<close>

definition map_delete :: "string \<Rightarrow> string gomap option \<Rightarrow> string gomap option" where
  "map_delete k m = map_option (AList.delete k) m"

definition map_assign :: "string \<Rightarrow> string \<Rightarrow> string gomap option \<Rightarrow> string gomap run" where
  "map_assign k v m = (case m of None \<Rightarrow> Panics | Some kv \<Rightarrow> Returns (put k v kv))"

text \<open>A pointer to a struct: \<open>null\<close> is nil.\<close>

definition dec_ptr :: "(json \<Rightarrow> 'a option) \<Rightarrow> json \<Rightarrow> 'a option option" where
  "dec_ptr d v = (case v of JNull \<Rightarrow> Some None | _ \<Rightarrow> map_option Some (d v))"

section \<open>Path escaping\<close>

definition hex_upper :: "nat \<Rightarrow> char" where
  "hex_upper d = (if d < 10 then digit_char d else char_of (55 + d))"

definition path_char :: "char \<Rightarrow> bool" where
  "path_char c \<longleftrightarrow>
     between (CHR ''a'') (CHR ''z'') c \<or> between (CHR ''A'') (CHR ''Z'') c \<or> is_digit c \<or>
     c \<in> set ''-_.~$&+:=@''"

definition path_escape :: "string \<Rightarrow> string" where
  "path_escape s =
     concat (map (\<lambda>c. if path_char c then [c]
       else [CHR ''%'', hex_upper (of_char c div 16), hex_upper (of_char c mod 16)]) s)"

section \<open>Facts\<close>

lemma unmarshal_map_object: "unmarshal_map raw = Some (Some m) \<Longrightarrow> \<exists>ms. json_parse raw = Some (JObj ms)"
  by (auto simp: unmarshal_map_def dec_raw_map_def split: option.splits json.splits)

lemma unmarshal_map_nil: "unmarshal_map raw = Some None \<longleftrightarrow> json_parse raw = Some JNull"
  by (auto simp: unmarshal_map_def split: option.splits json.splits)

lemma map_delete_simps [simp]:
  "map_delete k None = None" "map_delete k (Some m) = Some (AList.delete k m)"
  by (simp_all add: map_delete_def)

lemma map_assign_Some [simp]: "map_assign k v (Some m) = Returns (put k v m)"
  by (simp add: map_assign_def)

lemma StatusCode_client: "400 \<le> s \<Longrightarrow> s < 500 \<Longrightarrow> StatusCode s \<noteq> CodeUnavailable"
  by (simp add: StatusCode_def)

lemma statusError_code:
  "statusError op s body = Some d \<Longrightarrow> d_code d = StatusCode s \<and> \<not> ok_status s"
  by (auto simp: statusError_def StatusCode_def split: if_splits)

lemma runes_chunks: "c \<in> set (runes s) \<Longrightarrow> c \<noteq> []"
  by (induction s rule: runes.induct) (auto simp: Let_def replacement_def split: if_splits)

lemma ReadCapped_bound: "ReadCapped body limit op = Inr raw \<Longrightarrow> length raw \<le> limit \<and> body = Inr raw"
  by (auto simp: ReadCapped_def split: sum.splits if_splits)

end
