(* ===== verification/Outbound.thy ===== *)
theory Outbound
  imports Http_Client
begin

text \<open>
  \<open>internal/outbound/outbound.go\<close>: the seam every outbound HTTP request goes through. Which
  failures are worth another attempt, the delay between attempts, the circuit breaker per
  dependency, and the two ways to send a request: \<open>Do\<close>, under retry, and \<open>DoOnce\<close>. The library
  failsafe-go that drives the attempts is not in the repository: it is the record \<open>failsafe\<close>, a
  parameter, and what the code relies on is \<open>executor_contract\<close>. The HTTP client, the clock and
  \<open>http.ParseTime\<close> are the record \<open>wire\<close>, over a world of any type.
\<close>

section \<open>Names\<close>

definition DepHealth :: string where "DepHealth = ''health''"
definition DepDockerDaemon :: string where "DepDockerDaemon = ''docker-daemon''"
definition DepCloudflare :: string where "DepCloudflare = ''cloudflare''"
definition DepGemini :: string where "DepGemini = ''gemini''"
definition DepAnthropic :: string where "DepAnthropic = ''anthropic''"
definition DepOpenRouter :: string where "DepOpenRouter = ''openrouter''"
definition DepSmoke :: string where "DepSmoke = ''smoke''"
definition DepGateway :: string where "DepGateway = ''gateway''"
definition DepGitHub :: string where "DepGitHub = ''github''"
definition DepGHCR :: string where "DepGHCR = ''ghcr''"
definition DepRegistry :: string where "DepRegistry = ''registry''"

definition defaultBackoffMin :: int where "defaultBackoffMin = ns_second"
definition defaultBackoffMax :: int where "defaultBackoffMax = 8 * ns_second"
definition maxRetries :: nat where "maxRetries = 3"

definition Scoped :: "string \<Rightarrow> string \<Rightarrow> string" where
  "Scoped dep scope = (if trim_space scope = [] then dep else dep @ ''/'' @ scope)"

definition depOf :: "string \<Rightarrow> string" where
  "depOf name = takeWhile (\<lambda>c. c \<noteq> CHR ''/'') name"

section \<open>Marking errors\<close>

definition mark :: "sentinel \<Rightarrow> goerr option \<Rightarrow> goerr" where
  "mark s err =
     (case err of
        None \<Rightarrow> Wrapf (sentinel_text s @ '': nil'') (Sent s)
      | Some e \<Rightarrow> Joined (sentinel_text s @ '': '' @ err_text e) [Sent s, e])"

definition Retry :: "goerr option \<Rightarrow> goerr" where "Retry err = mark ErrRetry err"
definition Abort :: "goerr option \<Rightarrow> goerr" where "Abort err = mark ErrAbort err"

section \<open>What is worth another attempt\<close>

definition httpStatusRetryable :: "int \<Rightarrow> bool" where
  "httpStatusRetryable status = (if status = 429 then True else 500 \<le> status \<and> status \<le> 599)"

definition HTTPStatusPermanent :: "int \<Rightarrow> bool" where
  "HTTPStatusPermanent status =
     (if status = 429 then False
      else if 200 \<le> status \<and> status < 300 then False
      else if 500 \<le> status then False
      else 400 \<le> status \<and> status < 500)"

text \<open>\<open>errors.As\<close> finds the first node of a type in the tree. Every type here with a
  \<open>Timeout()\<close> is a \<open>net.Error\<close>, a DNS error too; a context deadline and the connection errors
  are as well, but those are decided before or after by identity.\<close>

fun timeout_flag :: "goerr \<Rightarrow> bool option" where
  "timeout_flag (Typed (NetErr t timeout)) = Some timeout"
| "timeout_flag (Typed (DNSErr t temporary timeout)) = Some timeout"
| "timeout_flag e = None"

fun dns_flags :: "goerr \<Rightarrow> (bool \<times> bool) option" where
  "dns_flags (Typed (DNSErr t temporary timeout)) = Some (temporary, timeout)"
| "dns_flags e = None"

fun status_flags :: "goerr \<Rightarrow> (int \<times> int) option" where
  "status_flags (Typed (StatusErr status retryAfter)) = Some (status, retryAfter)"
| "status_flags e = None"

definition error_as :: "(goerr \<Rightarrow> 'a option) \<Rightarrow> goerr option \<Rightarrow> 'a option" where
  "error_as f err =
     (case err of
        None \<Rightarrow> None
      | Some e \<Rightarrow> (case List.map_filter f (err_nodes e) of [] \<Rightarrow> None | x # _ \<Rightarrow> Some x))"

definition isTemporaryDNS :: "goerr option \<Rightarrow> bool" where
  "isTemporaryDNS err = (case error_as dns_flags err of None \<Rightarrow> False | Some (temporary, timeout) \<Rightarrow> temporary \<or> timeout)"

definition transportRetryable :: "goerr option \<Rightarrow> bool" where
  "transportRetryable err =
     (if err = None \<or> is_sentinel err ErrAbort then False
      else if is_sentinel err CtxCanceled \<or> is_sentinel err CtxDeadlineExceeded then False
      else if error_as timeout_flag err = Some True then True
      else is_sentinel err ConnReset \<or> is_sentinel err ConnRefused \<or> is_sentinel err ConnAborted \<or>
        is_sentinel err BrokenPipe \<or> is_sentinel err IoUnexpectedEOF \<or> is_sentinel err IoEOF \<or>
        isTemporaryDNS err)"

definition retryableErr :: "goerr option \<Rightarrow> bool" where
  "retryableErr err =
     (if err = None \<or> is_sentinel err ErrAbort then False
      else if is_sentinel err ErrRetry \<or> transportRetryable err then True
      else case error_as status_flags err of None \<Rightarrow> False | Some (status, _) \<Rightarrow> httpStatusRetryable status)"

definition breakerStatusFailure :: "int \<Rightarrow> bool" where
  "breakerStatusFailure status \<longleftrightarrow> 500 \<le> status \<and> status \<le> 599"

section \<open>Contexts\<close>

text \<open>A context of the outbound calls: its deadline, and its \<open>Err()\<close>, which the world decides.\<close>

record 'u out_ctx =
  oc_deadline :: "int option"
  oc_err :: "'u \<Rightarrow> sentinel option"

definition requireCtx :: "'u out_ctx option \<Rightarrow> goerr option" where
  "requireCtx ctx =
     (if ctx = None then Some (DomainErr (err_new CodeInvalid ''outbound'' ''context required'')) else None)"

definition validateCtx :: "'u out_ctx option \<Rightarrow> goerr option" where
  "validateCtx ctx =
     (case requireCtx ctx of
        Some e \<Rightarrow> Some e
      | None \<Rightarrow>
          (case ctx of
             Some c \<Rightarrow>
               if oc_deadline c = None
               then Some (DomainErr (err_new CodeFailedPrecondition ''outbound'' ''missing deadline''))
               else None
           | None \<Rightarrow> None))"

definition contextCode :: "sentinel \<Rightarrow> code" where
  "contextCode s = (if s = CtxCanceled then CodeCanceled else CodeTimeout)"

section \<open>Delays\<close>

record backoff =
  bo_min :: int
  bo_max :: int

text \<open>The loop of \<open>delay\<close>; a duration is 64 bits and doubling wraps.\<close>

fun double_up :: "nat \<Rightarrow> int \<Rightarrow> int \<Rightarrow> int" where
  "double_up 0 hi d = d"
| "double_up (Suc n) hi d = (if d < hi then double_up n hi (wrap64 (d * 2)) else d)"

text \<open>\<open>jitter\<close> is the multiplication by a random factor between 0.8 and 1.2.\<close>

definition delay :: "(int \<Rightarrow> int) \<Rightarrow> backoff \<Rightarrow> nat \<Rightarrow> goerr option \<Rightarrow> int" where
  "delay jitter b retries lastErr =
     (case error_as status_flags lastErr of
        Some (_, retryAfter) \<Rightarrow>
          if 0 < retryAfter then retryAfter
          else jitter (min (double_up retries (bo_max b) (bo_min b)) (bo_max b))
      | None \<Rightarrow> jitter (min (double_up retries (bo_max b) (bo_min b)) (bo_max b)))"

definition normal_backoff :: "backoff \<Rightarrow> backoff" where
  "normal_backoff b =
     (let lo = (if bo_min b \<le> 0 then defaultBackoffMin else bo_min b);
          hi = (if bo_max b \<le> 0 then defaultBackoffMax else bo_max b)
      in \<lparr>bo_min = lo, bo_max = max hi lo\<rparr>)"

text \<open>A retry policy: what it handles, how often it retries, how long it waits.\<close>

record retry_policy =
  rt_handle :: "goerr option \<Rightarrow> bool"
  rt_max :: nat
  rt_delay :: "nat \<Rightarrow> goerr option \<Rightarrow> int"

definition newRetryPolicy :: "(int \<Rightarrow> int) \<Rightarrow> backoff \<Rightarrow> retry_policy" where
  "newRetryPolicy jitter b =
     \<lparr>rt_handle = retryableErr, rt_max = maxRetries, rt_delay = delay jitter (normal_backoff b)\<rparr>"

definition no_backoff :: backoff where "no_backoff = \<lparr>bo_min = 0, bo_max = 0\<rparr>"

definition productionRetry :: "(int \<Rightarrow> int) \<Rightarrow> retry_policy" where
  "productionRetry jitter = newRetryPolicy jitter no_backoff"

section \<open>Requests and what happens to them\<close>

text \<open>A request: \<open>rq_body\<close> is \<open>None\<close> for a nil body and for \<open>http.NoBody\<close>; \<open>rq_get_body\<close> is
  \<open>GetBody\<close>, which may fail.\<close>

record request =
  rq_method :: string
  rq_url :: string
  rq_body :: "bytes option"
  rq_get_body :: "(goerr + bytes) option"

text \<open>A response holds its connection until its body is closed: \<open>rs_handle\<close> is the body,
  \<open>None\<close> once it was replaced by \<open>http.NoBody\<close>.\<close>

record response =
  rs_answer :: http_answer
  rs_handle :: "nat option"

text \<open>The state of one exchange: the captured \<open>resp\<close>, the bodies open and the next new one,
  whether the request's own body has been read, the bodies sent so far with what became of each
  attempt, and the world.\<close>

record 'u exchange =
  ex_resp :: "response option"
  ex_open :: "nat list"
  ex_next :: nat
  ex_spent :: bool
  ex_sent :: "(bytes option \<times> (goerr + int)) list"
  ex_up :: 'u

record 'u wire =
  wr_send :: "request \<Rightarrow> bytes option \<Rightarrow> 'u \<Rightarrow> (goerr + http_answer) \<times> 'u"
  wr_clock :: "'u \<Rightarrow> int"
  wr_parse_time :: "string \<Rightarrow> int option"

text \<open>\<open>client.Do\<close> with the given body.\<close>

definition client_do ::
  "'u wire \<Rightarrow> request \<Rightarrow> bytes option \<Rightarrow> 'u exchange \<Rightarrow> (goerr + response) \<times> 'u exchange" where
  "client_do w req body s =
     (case wr_send w req body (ex_up s) of
        (Inl e, u) \<Rightarrow> (Inl e, s\<lparr>ex_sent := ex_sent s @ [(body, Inl e)], ex_up := u\<rparr>)
      | (Inr a, u) \<Rightarrow>
          (Inr \<lparr>rs_answer = a, rs_handle = Some (ex_next s)\<rparr>,
           s\<lparr>ex_sent := ex_sent s @ [(body, Inr (ha_status a))], ex_up := u,
             ex_open := ex_next s # ex_open s, ex_next := Suc (ex_next s)\<rparr>))"

definition CloseResponse :: "response option \<Rightarrow> 'u exchange \<Rightarrow> 'u exchange" where
  "CloseResponse resp s =
     (case resp of
        None \<Rightarrow> s
      | Some r \<Rightarrow>
          (case rs_handle r of
             None \<Rightarrow> s
           | Some h \<Rightarrow> s\<lparr>ex_open := List.filter (\<lambda>x. x \<noteq> h) (ex_open s)\<rparr>))"

text \<open>Draining reads and then closes; what is read is discarded.\<close>

definition drainAndClose :: "response option \<Rightarrow> 'u exchange \<Rightarrow> 'u exchange" where
  "drainAndClose resp s = CloseResponse resp s"

text \<open>The body of one attempt: reopened from \<open>GetBody\<close>, or the request's own, which is empty
  once it has been read.\<close>

definition shared_body :: "request \<Rightarrow> 'u exchange \<Rightarrow> bytes option \<times> 'u exchange" where
  "shared_body req s =
     (case rq_body req of
        None \<Rightarrow> (None, s)
      | Some b \<Rightarrow> (Some (if ex_spent s then [] else b), s\<lparr>ex_spent := True\<rparr>))"

definition cloneRequest :: "request \<Rightarrow> 'u exchange \<Rightarrow> (goerr + bytes option) \<times> 'u exchange" where
  "cloneRequest req s =
     (case (rq_get_body req, rq_body req) of
        (Some (Inl e), Some _) \<Rightarrow> (Inl (Wrapf (''outbound: reopen request body: '' @ err_text e) e), s)
      | (Some (Inr b), Some _) \<Rightarrow> (Inr (Some b), s)
      | _ \<Rightarrow> (case shared_body req s of (b, s') \<Rightarrow> (Inr b, s')))"

definition replayable :: "request \<Rightarrow> bool" where
  "replayable req \<longleftrightarrow> rq_body req = None \<or> rq_get_body req \<noteq> None"

section \<open>One attempt\<close>

definition retryableStatus :: "'u wire \<Rightarrow> 'u out_ctx \<Rightarrow> response \<Rightarrow> 'u exchange \<Rightarrow> goerr" where
  "retryableStatus w ctx r s =
     (let status = ha_status (rs_answer r); now = wr_clock w (ex_up s)
      in case RetryAfter (wr_parse_time w) (ha_header (rs_answer r)) now of
           None \<Rightarrow> Typed (StatusErr status 0)
         | Some wait \<Rightarrow>
             (let se = Typed (StatusErr status wait)
              in case oc_deadline ctx of
                   Some deadline \<Rightarrow> if time_sub deadline now \<le> wait then Abort (Some se) else se
                 | None \<Rightarrow> se))"

type_synonym 'u attempt = "'u exchange \<Rightarrow> goerr option \<times> 'u exchange"

definition do_attempt :: "'u wire \<Rightarrow> 'u out_ctx \<Rightarrow> string \<Rightarrow> request \<Rightarrow> 'u attempt" where
  "do_attempt w ctx name req s0 =
     (let s = (case ex_resp s0 of None \<Rightarrow> s0 | Some r \<Rightarrow> (drainAndClose (Some r) s0)\<lparr>ex_resp := None\<rparr>)
      in case cloneRequest req s of
           (Inl e, s1) \<Rightarrow> (Some (Abort (Some e)), s1)
         | (Inr body, s1) \<Rightarrow>
             (case client_do w req body s1 of
                (Inl e, s2) \<Rightarrow> (Some e, s2)
              | (Inr r, s2) \<Rightarrow>
                  (let status = ha_status (rs_answer r); s3 = s2\<lparr>ex_resp := Some r\<rparr>
                   in if depOf name \<noteq> DepHealth \<and> HTTPStatusPermanent status
                      then (Some (Abort (Some (Typed (StatusErr status 0)))), s3)
                      else if depOf name \<noteq> DepHealth \<and> httpStatusRetryable status
                      then (Some (retryableStatus w ctx r s3), s3)
                      else (None, s3))))"

definition once_attempt :: "'u wire \<Rightarrow> request \<Rightarrow> 'u attempt" where
  "once_attempt w req s =
     (case shared_body req s of
        (body, s1) \<Rightarrow>
          (case client_do w req body s1 of
             (Inl e, s2) \<Rightarrow> (Some e, s2)
           | (Inr r, s2) \<Rightarrow>
               (let status = ha_status (rs_answer r); s3 = s2\<lparr>ex_resp := Some r\<rparr>
                in if breakerStatusFailure status then (Some (Typed (StatusErr status 0)), s3) else (None, s3))))"

section \<open>The library\<close>

text \<open>\<open>fs_breaker\<close> builds a breaker from what it handles, a failure threshold and a delay;
  \<open>fs_run\<close> runs a function under a breaker and a retry policy, each if there is one.\<close>

record ('b, 'u) failsafe =
  fs_breaker :: "(goerr option \<Rightarrow> bool) \<Rightarrow> nat \<Rightarrow> int \<Rightarrow> 'b"
  fs_run :: "'b option \<Rightarrow> retry_policy option \<Rightarrow> 'u out_ctx \<Rightarrow> 'u attempt \<Rightarrow> 'u exchange \<Rightarrow>
    goerr option \<times> 'b option \<times> 'u exchange"

text \<open>A sequence of attempts with the outcome of each. Time passes before, between and after
  them; nothing but the world changes meanwhile.\<close>

inductive attempts :: "'u attempt \<Rightarrow> goerr option list \<Rightarrow> 'u exchange \<Rightarrow> 'u exchange \<Rightarrow> bool"
  for fn :: "'u attempt" where
  rest: "attempts fn [] s (s\<lparr>ex_up := u\<rparr>)"
| again: "fn (s\<lparr>ex_up := u\<rparr>) = (r, s1) \<Longrightarrow> attempts fn rs s1 s2 \<Longrightarrow> attempts fn (r # rs) s s2"

inductive_cases attempts_NilE: "attempts fn [] s s'"
inductive_cases attempts_ConsE: "attempts fn (r # rs) s s'"

text \<open>
  What the library documents: a run makes attempts one after the other, one without a retry
  policy and at most one more than the retries with it; it goes on only after an outcome that the
  policy handles; it reports success only for a last attempt that succeeded; and when it reports
  an error after a successful attempt, the context had ended.
\<close>

definition executor_contract :: "('b, 'u) failsafe \<Rightarrow> bool" where
  "executor_contract fs \<longleftrightarrow>
     (\<forall>cb retry ctx fn s r cb' s'. fs_run fs cb retry ctx fn s = (r, cb', s') \<longrightarrow>
        (\<exists>rs. attempts fn rs s s' \<and>
          length rs \<le> (case retry of None \<Rightarrow> 1 | Some rt \<Rightarrow> Suc (rt_max rt)) \<and>
          (\<forall>rt. retry = Some rt \<longrightarrow> (\<forall>o' \<in> set (butlast rs). rt_handle rt o')) \<and>
          (r = None \<longrightarrow> rs \<noteq> [] \<and> last rs = None) \<and>
          (r \<noteq> None \<longrightarrow> rs = [] \<or> last rs \<noteq> None \<or> oc_err ctx (ex_up s') \<noteq> None)))"

section \<open>Policies\<close>

record 'b policies =
  pl_breakers :: "'b gomap"
  pl_retry :: "retry_policy option"

definition NewPoliciesWith :: "(int \<Rightarrow> int) \<Rightarrow> backoff \<Rightarrow> 'b policies" where
  "NewPoliciesWith jitter b = \<lparr>pl_breakers = [], pl_retry = Some (newRetryPolicy jitter b)\<rparr>"

definition NewPolicies :: "(int \<Rightarrow> int) \<Rightarrow> 'b policies" where
  "NewPolicies jitter = NewPoliciesWith jitter no_backoff"

definition retryPolicy :: "(int \<Rightarrow> int) \<Rightarrow> 'b policies \<Rightarrow> retry_policy" where
  "retryPolicy jitter p = (case pl_retry p of None \<Rightarrow> productionRetry jitter | Some rt \<Rightarrow> rt)"

definition breakerFor :: "('b, 'u) failsafe \<Rightarrow> string \<Rightarrow> 'b policies \<Rightarrow> 'b option \<times> 'b policies" where
  "breakerFor fs name p =
     (if depOf name \<notin> {DepCloudflare, DepGemini, DepAnthropic, DepOpenRouter, DepGitHub, DepGHCR, DepRegistry}
      then (None, p)
      else case map_of (pl_breakers p) name of
        Some b \<Rightarrow> (Some b, p)
      | None \<Rightarrow>
          (let b = fs_breaker fs retryableErr 5 (30 * ns_second)
           in (Some b, p\<lparr>pl_breakers := put name b (pl_breakers p)\<rparr>)))"

text \<open>\<open>failsafe.With(...).WithContext(ctx).Run(fn)\<close> over the policies of a name; the breaker
  lives in the policies.\<close>

definition run_under ::
  "('b, 'u) failsafe \<Rightarrow> string \<Rightarrow> retry_policy option \<Rightarrow> 'u out_ctx \<Rightarrow> 'u attempt \<Rightarrow> 'b policies \<times> 'u exchange \<Rightarrow>
   goerr option \<times> 'b policies \<times> 'u exchange" where
  "run_under fs name retry ctx fn = (\<lambda>(p0, s).
     case breakerFor fs name p0 of
       (cb, p) \<Rightarrow>
         (case fs_run fs cb retry ctx fn s of
            (r, cb', s') \<Rightarrow>
              (r, (case cb' of None \<Rightarrow> p | Some b \<Rightarrow> p\<lparr>pl_breakers := put name b (pl_breakers p)\<rparr>), s')))"

section \<open>Sending\<close>

definition dialError :: "'u out_ctx \<Rightarrow> string \<Rightarrow> goerr \<Rightarrow> 'u exchange \<Rightarrow> goerr" where
  "dialError ctx name err s =
     (let code = (case oc_err ctx (ex_up s) of None \<Rightarrow> code_or (Some err) CodeUnavailable | Some c \<Rightarrow> contextCode c)
      in DomainErr (err_wrap (Some err) code (''outbound.'' @ name) ''dial''))"

definition refused :: "string \<Rightarrow> goerr" where
  "refused msg = DomainErr (err_new CodeInvalid ''outbound'' msg)"

type_synonym sent = "response option \<times> goerr option"

text \<open>\<open>Run\<close>, for a function on the exchange.\<close>

definition Run ::
  "('b, 'u) failsafe \<Rightarrow> (int \<Rightarrow> int) \<Rightarrow> 'u out_ctx option \<Rightarrow> string \<Rightarrow> 'u attempt \<Rightarrow> 'b policies \<times> 'u exchange \<Rightarrow>
   goerr option \<times> 'b policies \<times> 'u exchange" where
  "Run fs jitter ctx name fn ps =
     (case (validateCtx ctx, ctx) of
        (None, Some c) \<Rightarrow> run_under fs name (Some (retryPolicy jitter (fst ps))) c fn ps
      | (e, _) \<Rightarrow> (e, ps))"

text \<open>What \<open>Do\<close> makes of the outcome of the run.\<close>

definition do_result ::
  "'u out_ctx \<Rightarrow> string \<Rightarrow> goerr option \<Rightarrow> 'u exchange \<Rightarrow> sent \<times> 'u exchange" where
  "do_result ctx name err s =
     (case err of
        None \<Rightarrow> ((ex_resp s, None), s)
      | Some e \<Rightarrow>
          (case ex_resp s of
             None \<Rightarrow> ((None, Some (dialError ctx name e s)), s)
           | Some r \<Rightarrow>
               (case oc_err ctx (ex_up s) of
                  None \<Rightarrow> ((Some r, None), s)
                | Some c \<Rightarrow>
                    ((Some (r\<lparr>rs_handle := None\<rparr>),
                      Some (DomainErr (with_field (with_field
                        (err_wrap (Some (Sent c)) (contextCode c) (''outbound.'' @ name) ''deadline during retries'')
                        ''dependency'' name) ''last_status'' (itoa (ha_status (rs_answer r)))))),
                     CloseResponse (Some r) s))))"

text \<open>\<open>Do\<close> and \<open>DoOnce\<close> on a fresh exchange in a world: the captured response starts nil and the
  request's body unread. A nil client is \<open>None\<close>, and so is a nil request.\<close>

definition Do ::
  "('b, 'u) failsafe \<Rightarrow> (int \<Rightarrow> int) \<Rightarrow> 'u out_ctx option \<Rightarrow> string \<Rightarrow> 'u wire option \<Rightarrow> request option \<Rightarrow>
   'b policies \<times> 'u exchange \<Rightarrow> sent \<times> 'b policies \<times> 'u exchange" where
  "Do fs jitter ctx name client req = (\<lambda>(p, s).
     case (validateCtx ctx, ctx) of
       (None, Some c) \<Rightarrow>
         (case client of
            None \<Rightarrow> ((None, Some (refused ''http client is required'')), p, s)
          | Some w \<Rightarrow>
              (case req of
                 None \<Rightarrow> ((None, Some (refused ''nil request'')), p, s)
               | Some rq \<Rightarrow>
                   (let retry = (if replayable rq then Some (retryPolicy jitter p) else None)
                    in case run_under fs name retry c (do_attempt w c name rq) (p, s\<lparr>ex_resp := None, ex_spent := False\<rparr>) of
                         (err, p', s1) \<Rightarrow> (case do_result c name err s1 of (r, s2) \<Rightarrow> (r, p', s2)))))
     | (e, _) \<Rightarrow> ((None, e), p, s))"

definition once ::
  "('b, 'u) failsafe \<Rightarrow> 'u out_ctx \<Rightarrow> string \<Rightarrow> 'u wire option \<Rightarrow> request option \<Rightarrow>
   'b policies \<times> 'u exchange \<Rightarrow> sent \<times> 'b policies \<times> 'u exchange" where
  "once fs ctx name client req = (\<lambda>(p, s).
     case client of
       None \<Rightarrow> ((None, Some (refused ''http client is required'')), p, s)
     | Some w \<Rightarrow>
         (case req of
            None \<Rightarrow> ((None, Some (refused ''nil request'')), p, s)
          | Some rq \<Rightarrow>
              (case run_under fs name None ctx (once_attempt w rq) (p, s\<lparr>ex_resp := None, ex_spent := False\<rparr>) of
                 (err, p', s1) \<Rightarrow>
                   (case err of
                      None \<Rightarrow> ((ex_resp s1, None), p', s1)
                    | Some e \<Rightarrow>
                        (case ex_resp s1 of
                           Some r \<Rightarrow> ((Some r, None), p', s1)
                         | None \<Rightarrow> ((None, Some (dialError ctx name e s1)), p', s1))))))"

definition DoOnce ::
  "('b, 'u) failsafe \<Rightarrow> 'u out_ctx option \<Rightarrow> string \<Rightarrow> 'u wire option \<Rightarrow> request option \<Rightarrow>
   'b policies \<times> 'u exchange \<Rightarrow> sent \<times> 'b policies \<times> 'u exchange" where
  "DoOnce fs ctx name client req = (\<lambda>(p, s).
     case (validateCtx ctx, ctx) of
       (None, Some c) \<Rightarrow> once fs c name client req (p, s)
     | (e, _) \<Rightarrow> ((None, e), p, s))"

text \<open>A nil set of policies is the process default: the methods run on that one instead. The
  package-level functions are the methods on the nil set.\<close>

definition orDefault_policies :: "'b policies \<Rightarrow> 'b policies option \<Rightarrow> 'b policies" where
  "orDefault_policies dflt p = (case p of None \<Rightarrow> dflt | Some q \<Rightarrow> q)"

definition on_policies ::
  "('b policies \<times> 'u exchange \<Rightarrow> 'x \<times> 'b policies \<times> 'u exchange) \<Rightarrow>
   ('b policies \<times> 'b policies option) \<times> 'u exchange \<Rightarrow> 'x \<times> ('b policies \<times> 'b policies option) \<times> 'u exchange" where
  "on_policies f = (\<lambda>((dflt, own), s).
     case f (orDefault_policies dflt own, s) of
       (x, p, s') \<Rightarrow> (x, (case own of None \<Rightarrow> (p, None) | Some _ \<Rightarrow> (dflt, Some p)), s'))"

section \<open>Sequences of attempts\<close>

text \<open>What holds of the exchange before an attempt whatever the time, and is kept by it, holds after
  any number of them.\<close>

lemma attempts_invariant:
  assumes "attempts fn rs s s'" and "I s"
    and "\<And>s u. I s \<Longrightarrow> I (s\<lparr>ex_up := u\<rparr>)" and "\<And>s r s1. I s \<Longrightarrow> fn s = (r, s1) \<Longrightarrow> I s1"
  shows "I s'"
  using assms(1,2)
proof (induction rule: attempts.induct)
  case (rest s u)
  then show ?case by (rule assms(3))
next
  case (again u s r s1 rs s2)
  then show ?case using assms(3,4) by blast
qed

text \<open>The same with the outcome of the last attempt.\<close>

lemma attempts_last:
  assumes "attempts fn rs s s'" and "rs \<noteq> []" and "I s"
    and "\<And>s u. I s \<Longrightarrow> I (s\<lparr>ex_up := u\<rparr>)" and "\<And>s r s1. I s \<Longrightarrow> fn s = (r, s1) \<Longrightarrow> I s1 \<and> J r s1"
    and "\<And>r s u. J r s \<Longrightarrow> J r (s\<lparr>ex_up := u\<rparr>)"
  shows "I s' \<and> J (last rs) s'"
  using assms(1,2,3)
proof (induction rule: attempts.induct)
  case (again u s r s1 rs s2)
  then have i: "I s1 \<and> J r s1" using assms(4,5) by blast
  show ?case
  proof (cases "rs = []")
    case True
    with again(2) obtain v where "s2 = s1\<lparr>ex_up := v\<rparr>" by (blast elim: attempts_NilE)
    with i True assms(4,6) show ?thesis by simp
  next
    case False
    with again i show ?thesis by simp
  qed
qed simp

section \<open>Classification\<close>

lemma is_sentinel_mark:
  "is_sentinel (Some (mark m err)) s \<longleftrightarrow> s = m \<or> is_sentinel err s"
  by (cases err) (auto simp: mark_def is_sentinel_def)

lemma Abort_not_retried: "\<not> retryableErr (Some (Abort err))"
  by (simp add: retryableErr_def Abort_def is_sentinel_mark)

lemma Retry_retried: "retryableErr (Some (Retry err)) \<longleftrightarrow> \<not> is_sentinel err ErrAbort"
  by (simp add: retryableErr_def Retry_def is_sentinel_mark)

lemma status_retried [simp]: "retryableErr (Some (Typed (StatusErr status wait))) \<longleftrightarrow> httpStatusRetryable status"
  by (simp add: retryableErr_def transportRetryable_def is_sentinel_def error_as_def isTemporaryDNS_def List.map_filter_def)

lemma permanent_not_retryable: "HTTPStatusPermanent status \<Longrightarrow> \<not> httpStatusRetryable status"
  by (simp add: HTTPStatusPermanent_def httpStatusRetryable_def split: if_splits)

lemma contextCode_range: "contextCode s \<in> {CodeTimeout, CodeCanceled}"
  by (simp add: contextCode_def)

section \<open>Bodies\<close>

text \<open>Between attempts the only body open beyond the ones that were open before is that of the
  captured response.\<close>

definition tidy :: "nat list \<Rightarrow> 'u exchange \<Rightarrow> bool" where
  "tidy before s \<longleftrightarrow>
     (\<forall>h \<in> set before. h < ex_next s) \<and>
     (case ex_resp s of
        None \<Rightarrow> ex_open s = before
      | Some r \<Rightarrow> (\<exists>h. rs_handle r = Some h \<and> h \<notin> set before \<and> h < ex_next s \<and> ex_open s = h # before))"

lemma tidy_elapse [simp]: "tidy before (s\<lparr>ex_up := u\<rparr>) = tidy before s"
  by (simp add: tidy_def split: option.split)

lemma tidy_fields:
  "tidy before s \<Longrightarrow> ex_resp s' = ex_resp s \<Longrightarrow> ex_open s' = ex_open s \<Longrightarrow> ex_next s' = ex_next s \<Longrightarrow> tidy before s'"
  by (auto simp: tidy_def split: option.splits)

lemma close_captured:
  assumes "tidy before s"
  shows "tidy before ((CloseResponse (ex_resp s) s)\<lparr>ex_resp := None\<rparr>)" "ex_open (CloseResponse (ex_resp s) s) = before"
proof -
  have "filter (\<lambda>x. x \<noteq> h) before = before" if "h \<notin> set before" for h
    using that by (intro filter_True) auto
  with assms show "tidy before ((CloseResponse (ex_resp s) s)\<lparr>ex_resp := None\<rparr>)"
    and "ex_open (CloseResponse (ex_resp s) s) = before"
    by (auto simp: tidy_def CloseResponse_def split: option.splits)
qed

lemma client_do_tidy:
  assumes "client_do w req body s = (a, s')" and "tidy before s" and "ex_resp s = None"
  shows "case a of Inl _ \<Rightarrow> tidy before s' | Inr r \<Rightarrow> tidy before (s'\<lparr>ex_resp := Some r\<rparr>)"
  using assms by (auto simp: client_do_def tidy_def split: prod.splits sum.splits)

lemma shared_body_same:
  "shared_body req s = (b, s') \<Longrightarrow>
   ex_resp s' = ex_resp s \<and> ex_open s' = ex_open s \<and> ex_next s' = ex_next s \<and> ex_sent s' = ex_sent s \<and> ex_up s' = ex_up s"
  by (auto simp: shared_body_def split: option.splits)

lemma cloneRequest_same:
  "cloneRequest req s = (b, s') \<Longrightarrow>
   ex_resp s' = ex_resp s \<and> ex_open s' = ex_open s \<and> ex_next s' = ex_next s \<and> ex_sent s' = ex_sent s \<and> ex_up s' = ex_up s"
  by (auto simp: cloneRequest_def dest: shared_body_same split: option.splits sum.splits prod.splits)

text \<open>The part of an attempt before the request is sent: the captured response is gone.\<close>

lemma released:
  assumes "tidy before s0"
  defines "s \<equiv> (case ex_resp s0 of None \<Rightarrow> s0 | Some r \<Rightarrow> (drainAndClose (Some r) s0)\<lparr>ex_resp := None\<rparr>)"
  shows "tidy before s" "ex_resp s = None" "ex_sent s = ex_sent s0"
proof -
  show "tidy before s" using assms(1) close_captured(1) [OF assms(1)]
    by (auto simp: s_def drainAndClose_def split: option.splits)
  show "ex_resp s = None" by (auto simp: s_def split: option.splits)
  show "ex_sent s = ex_sent s0" by (auto simp: s_def drainAndClose_def CloseResponse_def split: option.splits)
qed

lemma do_attempt_tidy:
  assumes "do_attempt w ctx name req s0 = (r, s')" and "tidy before s0"
  shows "tidy before s' \<and> (r = None \<longrightarrow> ex_resp s' \<noteq> None)"
proof -
  define s where "s = (case ex_resp s0 of None \<Rightarrow> s0 | Some r \<Rightarrow> (drainAndClose (Some r) s0)\<lparr>ex_resp := None\<rparr>)"
  note rel = released [OF assms(2), folded s_def]
  obtain c s1 where c: "cloneRequest req s = (c, s1)" by (rule prod.exhaust)
  have t1: "tidy before s1" "ex_resp s1 = None"
    using cloneRequest_same [OF c] tidy_fields [OF rel(1)] rel(2) by auto
  show ?thesis
  proof (cases c)
    case (Inl e)
    with assms(1) c t1 show ?thesis by (auto simp: do_attempt_def Let_def s_def [symmetric])
  next
    case (Inr body)
    obtain a s2 where a: "client_do w req body s1 = (a, s2)" by (rule prod.exhaust)
    from client_do_tidy [OF a t1] assms(1) c Inr a show ?thesis
      by (auto simp: do_attempt_def Let_def s_def [symmetric] split: sum.splits if_splits)
  qed
qed

lemma once_attempt_tidy:
  assumes "once_attempt w req s0 = (r, s')" and "tidy before s0" and "ex_resp s0 = None"
  shows "tidy before s' \<and> (r = None \<longrightarrow> ex_resp s' \<noteq> None)"
proof -
  obtain body s1 where c: "shared_body req s0 = (body, s1)" by (rule prod.exhaust)
  have t1: "tidy before s1" "ex_resp s1 = None"
    using shared_body_same [OF c] tidy_fields [OF assms(2)] assms(3) by auto
  obtain a s2 where a: "client_do w req body s1 = (a, s2)" by (rule prod.exhaust)
  from client_do_tidy [OF a t1] assms(1) c a show ?thesis
    by (auto simp: once_attempt_def Let_def split: sum.splits if_splits)
qed

section \<open>What was sent\<close>

text \<open>What became of a request that may be repeated.\<close>

fun transient :: "goerr + int \<Rightarrow> bool" where
  "transient (Inl e) = retryableErr (Some e)"
| "transient (Inr status) = httpStatusRetryable status"

text \<open>\<open>GetBody\<close> gives the body again.\<close>

definition true_copy :: "request \<Rightarrow> bool" where
  "true_copy req \<longleftrightarrow> (case rq_get_body req of Some (Inr b) \<Rightarrow> rq_body req \<in> {None, Some b} | _ \<Rightarrow> True)"

lemma client_do_sent:
  "client_do w req body s = (a, s') \<Longrightarrow>
   ex_sent s' = ex_sent s @ [(body, case a of Inl e \<Rightarrow> Inl e | Inr r \<Rightarrow> Inr (ha_status (rs_answer r)))]"
  by (auto simp: client_do_def split: prod.splits sum.splits)

lemma retryableStatus_cases:
  "retryableStatus w ctx r s = Abort (Some (Typed (StatusErr (ha_status (rs_answer r)) wait))) \<or>
   (\<exists>wait. retryableStatus w ctx r s = Typed (StatusErr (ha_status (rs_answer r)) wait))"
  if "RetryAfter (wr_parse_time w) (ha_header (rs_answer r)) (wr_clock w (ex_up s)) \<in> {None, Some wait}"
  using that by (auto simp: retryableStatus_def Let_def split: option.splits)

lemma retryableStatus_retried:
  "retryableErr (Some (retryableStatus w ctx r s)) \<Longrightarrow> httpStatusRetryable (ha_status (rs_answer r))"
  by (auto simp: retryableStatus_def Let_def Abort_not_retried split: option.splits if_splits)

lemma clone_body:
  assumes "cloneRequest req s = (Inr body, s')" and "replayable req" and "true_copy req"
  shows "body = rq_body req"
  using assms
  by (auto simp: cloneRequest_def replayable_def true_copy_def shared_body_def split: option.splits sum.splits prod.splits)

lemma do_attempt_sent:
  assumes "do_attempt w ctx name req s0 = (r, s')"
  shows "(\<exists>body o'. ex_sent s' = ex_sent s0 @ [(body, o')] \<and> (retryableErr r \<longrightarrow> transient o') \<and>
            (replayable req \<and> true_copy req \<longrightarrow> body = rq_body req)) \<or>
         ex_sent s' = ex_sent s0 \<and> \<not> retryableErr r"
proof -
  define s where "s = (case ex_resp s0 of None \<Rightarrow> s0 | Some r \<Rightarrow> (drainAndClose (Some r) s0)\<lparr>ex_resp := None\<rparr>)"
  have s: "ex_sent s = ex_sent s0"
    by (auto simp: s_def drainAndClose_def CloseResponse_def split: option.splits)
  obtain c s1 where c: "cloneRequest req s = (c, s1)" by (rule prod.exhaust)
  have s1: "ex_sent s1 = ex_sent s0" using cloneRequest_same [OF c] s by simp
  show ?thesis
  proof (cases c)
    case (Inl e)
    with assms c s1 show ?thesis by (auto simp: do_attempt_def Let_def s_def [symmetric] Abort_not_retried)
  next
    case (Inr body)
    obtain a s2 where a: "client_do w req body s1 = (a, s2)" by (rule prod.exhaust)
    have b: "replayable req \<and> true_copy req \<longrightarrow> body = rq_body req" using c Inr clone_body by blast
    from client_do_sent [OF a] assms c Inr a s1 b show ?thesis
      by (auto simp: do_attempt_def Let_def s_def [symmetric] Abort_not_retried retryableErr_def [of None]
          dest: retryableStatus_retried split: sum.splits if_splits)
  qed
qed

lemma do_attempts_sent:
  assumes "attempts (do_attempt w ctx name req) rs s s'" and "\<forall>r \<in> set (butlast rs). retryableErr r"
  shows "\<exists>ts. ex_sent s' = ex_sent s @ ts \<and> length ts \<le> length rs \<and>
    (\<forall>x \<in> set (butlast ts). transient (snd x)) \<and>
    (replayable req \<and> true_copy req \<longrightarrow> (\<forall>x \<in> set ts. fst x = rq_body req))"
  using assms
proof (induction rule: attempts.induct)
  case (rest s u)
  show ?case by (rule exI [of _ "[]"]) simp
next
  case (again u s r s1 rs s2)
  then have "\<forall>r \<in> set (butlast rs). retryableErr r" by (cases rs) auto
  with again obtain ts where ts: "ex_sent s2 = ex_sent s1 @ ts" "length ts \<le> length rs"
    "\<forall>x \<in> set (butlast ts). transient (snd x)"
    "replayable req \<and> true_copy req \<longrightarrow> (\<forall>x \<in> set ts. fst x = rq_body req)" by blast
  from do_attempt_sent [OF again(1)] show ?case
  proof (elim disjE exE conjE)
    fix body o'
    assume o: "ex_sent s1 = ex_sent (s\<lparr>ex_up := u\<rparr>) @ [(body, o')]" "retryableErr r \<longrightarrow> transient o'"
      "replayable req \<and> true_copy req \<longrightarrow> body = rq_body req"
    have "transient o'" if "ts \<noteq> []"
    proof -
      from that ts(2) have "rs \<noteq> []" by auto
      with again.prems o(2) show ?thesis by simp
    qed
    with o ts show ?case
      by (intro exI [of _ "(body, o') # ts"]) auto
  next
    assume "ex_sent s1 = ex_sent (s\<lparr>ex_up := u\<rparr>)"
    with ts show ?case by (intro exI [of _ ts]) simp
  qed
qed

section \<open>What a run does\<close>

definition attempts_allowed :: "retry_policy option \<Rightarrow> nat" where
  "attempts_allowed retry = (case retry of None \<Rightarrow> 1 | Some rt \<Rightarrow> Suc (rt_max rt))"

lemma run_under_attempts:
  assumes "executor_contract fs" and "run_under fs name retry ctx fn (p, s) = (r, p', s')"
  obtains rs where "attempts fn rs s s'" "length rs \<le> attempts_allowed retry"
    "\<And>rt. retry = Some rt \<Longrightarrow> \<forall>o' \<in> set (butlast rs). rt_handle rt o'"
    "r = None \<Longrightarrow> rs \<noteq> [] \<and> last rs = None"
    "r \<noteq> None \<Longrightarrow> rs = [] \<or> last rs \<noteq> None \<or> oc_err ctx (ex_up s') \<noteq> None"
proof -
  obtain cb p1 where b: "breakerFor fs name p = (cb, p1)" by (rule prod.exhaust)
  obtain q cb' s1 where q: "fs_run fs cb retry ctx fn s = (q, cb', s1)" by (rule pair_right)
  from assms(2) b q have "q = r" "s1 = s'" by (auto simp: run_under_def)
  with assms(1) q that show ?thesis
    unfolding executor_contract_def attempts_allowed_def by metis
qed

text \<open>Policies the package builds.\<close>

definition built_policies :: "'b policies \<Rightarrow> bool" where
  "built_policies p \<longleftrightarrow> (\<forall>rt. pl_retry p = Some rt \<longrightarrow> rt_handle rt = retryableErr \<and> rt_max rt = maxRetries)"

lemma built_NewPoliciesWith [simp]: "built_policies (NewPoliciesWith jitter b)"
  by (simp add: built_policies_def NewPoliciesWith_def newRetryPolicy_def)

lemma built_retry:
  "built_policies p \<Longrightarrow> rt_handle (retryPolicy jitter p) = retryableErr \<and> rt_max (retryPolicy jitter p) = maxRetries"
  by (auto simp: built_policies_def retryPolicy_def productionRetry_def newRetryPolicy_def split: option.splits)

lemma validateCtx_None: "validateCtx ctx = None \<longleftrightarrow> (\<exists>c. ctx = Some c \<and> oc_deadline c \<noteq> None)"
  by (cases ctx) (simp_all add: validateCtx_def requireCtx_def)

text \<open>\<open>Do\<close> either refuses, and nothing happens, or runs attempts.\<close>

lemma Do_cases:
  assumes "executor_contract fs" and "Do fs jitter ctx name client req (p, s) = (x, p', s')"
  obtains (refused) e where "x = (None, Some e)" "s' = s"
  | (ran) c w rq rs err s1 where "ctx = Some c" "oc_deadline c \<noteq> None" "client = Some w" "req = Some rq"
      "attempts (do_attempt w c name rq) rs (s\<lparr>ex_resp := None, ex_spent := False\<rparr>) s1"
      "length rs \<le> (if replayable rq then Suc (rt_max (retryPolicy jitter p)) else 1)"
      "\<forall>o' \<in> set (butlast rs). rt_handle (retryPolicy jitter p) o'"
      "err = None \<Longrightarrow> rs \<noteq> [] \<and> last rs = None"
      "do_result c name err s1 = (x, s')"
proof (cases "validateCtx ctx = None \<and> client \<noteq> None \<and> req \<noteq> None")
  case False
  with assms(2) refused show ?thesis
    by (auto simp: Do_def validateCtx_None split: option.splits prod.splits)
next
  case True
  then obtain c w rq where c: "ctx = Some c" "oc_deadline c \<noteq> None" "client = Some w" "req = Some rq"
    "validateCtx ctx = None" by (auto simp: validateCtx_None)
  define retry where "retry = (if replayable rq then Some (retryPolicy jitter p) else None)"
  obtain err p1 s1 where r: "run_under fs name retry c (do_attempt w c name rq) (p, s\<lparr>ex_resp := None, ex_spent := False\<rparr>) = (err, p1, s1)"
    by (rule pair_right)
  obtain rs where rs: "attempts (do_attempt w c name rq) rs (s\<lparr>ex_resp := None, ex_spent := False\<rparr>) s1"
    "length rs \<le> attempts_allowed retry" "\<And>rt. retry = Some rt \<Longrightarrow> \<forall>o' \<in> set (butlast rs). rt_handle rt o'"
    "err = None \<Longrightarrow> rs \<noteq> [] \<and> last rs = None"
    using run_under_attempts [OF assms(1) r] by metis
  have len: "length rs \<le> (if replayable rq then Suc (rt_max (retryPolicy jitter p)) else 1)"
    using rs(2) by (simp add: retry_def attempts_allowed_def split: if_splits)
  have h: "\<forall>o' \<in> set (butlast rs). rt_handle (retryPolicy jitter p) o'"
  proof (cases "replayable rq")
    case True
    then show ?thesis using rs(3) by (simp add: retry_def)
  next
    case False
    with len show ?thesis by (cases rs) auto
  qed
  from assms(2) c r have "do_result c name err s1 = (x, s')"
    by (auto simp: Do_def retry_def split: prod.splits)
  with ran c rs len h show ?thesis by blast
qed

text \<open>Handles are given out in order.\<close>

definition opened :: "'u exchange \<Rightarrow> bool" where
  "opened s \<longleftrightarrow> (\<forall>h \<in> set (ex_open s). h < ex_next s)"

text \<open>What the caller gets with the bodies left open.\<close>

definition handed_back :: "nat list \<Rightarrow> sent \<Rightarrow> 'u exchange \<Rightarrow> bool" where
  "handed_back before x s' \<longleftrightarrow> opened s' \<and>
     (case x of
        (resp, None) \<Rightarrow> (\<exists>r h. resp = Some r \<and> rs_handle r = Some h \<and> h \<notin> set before \<and> ex_open s' = h # before)
      | (resp, Some _) \<Rightarrow> ex_open s' = before \<and> (\<forall>r. resp = Some r \<longrightarrow> rs_handle r = None))"

lemma tidy_opened: "tidy before s \<Longrightarrow> opened s"
  by (auto simp: tidy_def opened_def split: option.splits)

lemma tidy_start: "opened s \<Longrightarrow> tidy (ex_open s) (s\<lparr>ex_resp := None, ex_spent := sp\<rparr>)"
  by (simp add: tidy_def opened_def)

lemma next_closed [simp]: "ex_next (CloseResponse r s) = ex_next s"
  by (simp add: CloseResponse_def split: option.split)

lemma opened_less: "opened s \<Longrightarrow> ex_open s' = before \<Longrightarrow> set before \<subseteq> set (ex_open s) \<Longrightarrow> ex_next s' = ex_next s \<Longrightarrow> opened s'"
  by (auto simp: opened_def)

lemma do_result_open:
  assumes "do_result c name err s1 = (x, s')" and "tidy before s1" and "err = None \<longrightarrow> ex_resp s1 \<noteq> None"
  shows "handed_back before x s'"
proof (cases "ex_resp s1")
  case None
  with assms tidy_opened [OF assms(2)] show ?thesis
    by (cases err) (auto simp: do_result_def tidy_def handed_back_def)
next
  case (Some r)
  then obtain h where h: "rs_handle r = Some h" "h \<notin> set before" "ex_open s1 = h # before"
    using assms(2) by (auto simp: tidy_def)
  have o: "opened s1" using assms(2) by (rule tidy_opened)
  have c: "ex_open (CloseResponse (Some r) s1) = before" "ex_next (CloseResponse (Some r) s1) = ex_next s1"
    using close_captured(2) [OF assms(2)] Some by simp_all
  then have "opened (CloseResponse (Some r) s1)" using h by (intro opened_less [OF o c(1)]) auto
  with assms(1) Some c h o show ?thesis
    by (cases err; cases "oc_err c (ex_up s1)")
      (auto simp: do_result_def handed_back_def eq_commute [of "Some r"])
qed

lemma Do_handed_back:
  assumes "executor_contract fs" and "Do fs jitter ctx name client req (p, s) = (x, p', s')" and "opened s"
  shows "handed_back (ex_open s) x s'"
  using assms(1,2)
proof (cases rule: Do_cases)
  case (refused e')
  with assms(3) show ?thesis by (simp add: handed_back_def)
next
  case (ran c w rq rs err s1)
  note start = tidy_start [OF assms(3)]
  have "tidy (ex_open s) s1" using ran(5) start
    by (rule attempts_invariant) (auto dest: do_attempt_tidy)
  moreover have "err = None \<longrightarrow> ex_resp s1 \<noteq> None"
  proof
    assume "err = None"
    with ran(8) have l: "rs \<noteq> []" "last rs = None" by auto
    have "tidy (ex_open s) s1 \<and> (last rs = None \<longrightarrow> ex_resp s1 \<noteq> None)"
      using ran(5) l(1) start by (rule attempts_last) (auto dest: do_attempt_tidy)
    with l(2) show "ex_resp s1 \<noteq> None" by simp
  qed
  ultimately show ?thesis using do_result_open [OF ran(9)] by simp
qed

section \<open>Properties\<close>

text \<open>An executor without breakers or waits that satisfies the contract.\<close>

fun retry_loop :: "nat \<Rightarrow> (goerr option \<Rightarrow> bool) \<Rightarrow> 'u attempt \<Rightarrow> 'u attempt" where
  "retry_loop n handle fn s =
     (case fn s of (r, s') \<Rightarrow>
        (case n of Suc m \<Rightarrow> if handle r then retry_loop m handle fn s' else (r, s') | 0 \<Rightarrow> (r, s')))"

declare retry_loop.simps [simp del]

definition plain_failsafe :: "(unit, 'u) failsafe" where
  "plain_failsafe = \<lparr>fs_breaker = \<lambda>_ _ _. (),
     fs_run = \<lambda>cb retry ctx fn s.
       (case (case retry of None \<Rightarrow> fn s | Some rt \<Rightarrow> retry_loop (rt_max rt) (rt_handle rt) fn s) of
          (r, s') \<Rightarrow> (r, cb, s'))\<rparr>"

lemma attempts_one: "fn s = (r, s') \<Longrightarrow> attempts fn [r] s s'"
  using attempts.again [of fn "ex_up s" s r s' "[]" s'] attempts.rest [of fn s' "ex_up s'"] by simp

lemma retry_loop_attempts:
  "retry_loop n handle fn s = (r, s') \<Longrightarrow>
   \<exists>rs. attempts fn (rs @ [r]) s s' \<and> length rs \<le> n \<and> (\<forall>o' \<in> set rs. handle o')"
proof (induction n arbitrary: s)
  case 0
  then have "fn s = (r, s')" by (simp add: retry_loop.simps split: prod.splits)
  with attempts_one show ?case by (intro exI [of _ "[]"]) simp
next
  case (Suc n)
  obtain q s1 where q: "fn s = (q, s1)" by (rule prod.exhaust)
  show ?case
  proof (cases "handle q")
    case True
    with Suc.prems q have "retry_loop n handle fn s1 = (r, s')" by (simp add: retry_loop.simps [of "Suc n"])
    then obtain rs where rs: "attempts fn (rs @ [r]) s1 s'" "length rs \<le> n" "\<forall>o' \<in> set rs. handle o'"
      using Suc.IH by blast
    have "attempts fn (q # rs @ [r]) s s'" using attempts.again [of fn "ex_up s" s] q rs(1) by simp
    with rs True show ?thesis by (intro exI [of _ "q # rs"]) simp
  next
    case False
    with Suc.prems q have "fn s = (r, s')" by (simp add: retry_loop.simps)
    with attempts_one show ?thesis by (intro exI [of _ "[]"]) simp
  qed
qed

lemma plain_contract: "executor_contract plain_failsafe"
proof -
  have "\<exists>rs. attempts fn rs s s' \<and> length rs \<le> (case retry of None \<Rightarrow> 1 | Some rt \<Rightarrow> Suc (rt_max rt)) \<and>
      (\<forall>rt. retry = Some rt \<longrightarrow> (\<forall>o' \<in> set (butlast rs). rt_handle rt o')) \<and> rs \<noteq> [] \<and> last rs = r"
    if "fs_run plain_failsafe cb retry ctx fn s = (r, cb', s')"
    for cb :: "unit option" and retry and ctx :: "'a out_ctx" and fn :: "'a attempt" and s r cb' s'
  proof (cases retry)
    case None
    with that have "fn s = (r, s')" by (simp add: plain_failsafe_def split: prod.splits)
    with attempts_one None show ?thesis by (intro exI [of _ "[r]"]) simp
  next
    case (Some rt)
    with that have "retry_loop (rt_max rt) (rt_handle rt) fn s = (r, s')"
      by (simp add: plain_failsafe_def split: prod.splits)
    from retry_loop_attempts [OF this] Some show ?thesis by force
  qed
  then show ?thesis unfolding executor_contract_def by metis
qed

text \<open>A server that is busy the first time and answers the second.\<close>

definition sample_wire :: "nat wire" where
  "sample_wire = \<lparr>wr_send = \<lambda>req body u.
       (Inr \<lparr>ha_status = (if u = 0 then 503 else 200), ha_header = [], ha_body = Inr ''ok''\<rparr>, Suc u),
     wr_clock = int, wr_parse_time = \<lambda>_. None\<rparr>"

definition sample_ctx :: "nat out_ctx" where
  "sample_ctx = \<lparr>oc_deadline = Some 100, oc_err = \<lambda>_. None\<rparr>"

definition sample_post :: request where
  "sample_post = \<lparr>rq_method = ''POST'', rq_url = ''u'', rq_body = Some ''b'', rq_get_body = Some (Inr ''b'')\<rparr>"

definition fresh_exchange :: "'u \<Rightarrow> 'u exchange" where
  "fresh_exchange u = \<lparr>ex_resp = None, ex_open = [], ex_next = 0, ex_spent = False, ex_sent = [], ex_up = u\<rparr>"

lemmas sample_outbound = sample_wire_def sample_ctx_def sample_post_def fresh_exchange_def

text \<open>C18: No connection leaks: after a request sent under retry, the only body left open beyond those
  that were open before is that of the response handed back, and there is none when the call
  returned an error. Without an error there is a response.\<close>

theorem do_leaks_no_body:
  assumes "executor_contract fs" and "Do fs jitter ctx name client req (p, s) = ((resp, e), p', s')"
    and "opened s"
  shows "case e of
      None \<Rightarrow> \<exists>r h. resp = Some r \<and> rs_handle r = Some h \<and> h \<notin> set (ex_open s) \<and> ex_open s' = h # ex_open s
    | Some _ \<Rightarrow> ex_open s' = ex_open s \<and> (\<forall>r. resp = Some r \<longrightarrow> rs_handle r = None)"
  using Do_handed_back [OF assms] by (cases e) (auto simp: handed_back_def)

definition sample_answer :: response where
  "sample_answer = \<lparr>rs_answer = \<lparr>ha_status = 200, ha_header = [], ha_body = Inr ''ok''\<rparr>, rs_handle = Some 1\<rparr>"

abbreviation sample_do where
  "sample_do \<equiv> Do (plain_failsafe :: (unit, nat) failsafe) (\<lambda>d. d) (Some sample_ctx) DepGateway (Some sample_wire)
     (Some sample_post) (NewPolicies (\<lambda>d. d), fresh_exchange 0)"

lemma sample_do_runs:
  "fst sample_do = (Some sample_answer, None) \<and> ex_open (snd (snd sample_do)) = [1] \<and>
   ex_sent (snd (snd sample_do)) = [(Some ''b'', Inr 503), (Some ''b'', Inr 200)]"
  by code_simp

theorem do_leaks_no_body_witness:
  "\<exists>r h. fst sample_do = (Some r, None) \<and> rs_handle r = Some h \<and> ex_open (snd (snd sample_do)) = [h]"
proof -
  obtain p' s' where r: "sample_do = ((Some sample_answer, None), p', s')"
    using sample_do_runs by (metis prod.collapse)
  from do_leaks_no_body [OF plain_contract r] r show ?thesis by (auto simp: fresh_exchange_def opened_def)
qed

text \<open>C19: A request is sent at most four times, and at most once when its body cannot be reopened;
  it is sent again only after a transient failure (a connection error, a 429 or a 5xx answer), and
  every time with its whole body.\<close>

theorem requests_are_repeated_safely:
  assumes "executor_contract fs" and "built_policies p"
    and "Do fs jitter ctx name client (Some rq) (p, s) = (x, p', s')"
  shows "\<exists>ts. ex_sent s' = ex_sent s @ ts \<and> length ts \<le> (if replayable rq then 4 else 1) \<and>
    (\<forall>t \<in> set (butlast ts). transient (snd t)) \<and>
    (replayable rq \<and> true_copy rq \<longrightarrow> (\<forall>t \<in> set ts. fst t = rq_body rq))"
  using assms(1,3)
proof (cases rule: Do_cases)
  case (refused e)
  then show ?thesis by (intro exI [of _ "[]"]) simp
next
  case (ran c w rq' rs err s1)
  have h: "\<forall>o' \<in> set (butlast rs). retryableErr o'" using ran(7) built_retry [OF assms(2)] by simp
  have "ex_sent s' = ex_sent s1"
    using ran(9) by (auto simp: do_result_def CloseResponse_def split: option.splits)
  with do_attempts_sent [OF ran(5) h] ran(4,6) built_retry [OF assms(2), of jitter] show ?thesis
    by (auto simp: maxRetries_def)
qed

theorem requests_are_repeated_safely_witness:
  "\<exists>ts. ex_sent (snd (snd sample_do)) = ts \<and> length ts \<le> 4 \<and> (\<forall>t \<in> set ts. fst t = Some ''b'')"
proof -
  obtain p' s' where r: "sample_do = ((Some sample_answer, None), p', s')"
    using sample_do_runs by (metis prod.collapse)
  have "built_policies (NewPolicies (\<lambda>d. d) :: unit policies)" by (simp add: NewPolicies_def)
  from requests_are_repeated_safely [OF plain_contract this r] r show ?thesis
    by (auto simp: fresh_exchange_def sample_post_def replayable_def true_copy_def)
qed

text \<open>A run without retries sends the request at most once.\<close>

lemma once_run_sent:
  assumes "executor_contract fs" and "run_under fs name None c (once_attempt w rq) (p, s) = (err, p1, s1)"
  shows "ex_sent s1 = ex_sent s \<or>
    (\<exists>body ans. ex_sent s1 = ex_sent s @ [(body, case ans of Inl e \<Rightarrow> Inl e | Inr r \<Rightarrow> Inr (ha_status (rs_answer r)))] \<and>
       (\<forall>r. ans = Inr r \<longrightarrow> ex_resp s1 = Some r))"
proof -
  obtain rs where rs: "attempts (once_attempt w rq) rs s s1" "length rs \<le> 1"
    using run_under_attempts [OF assms] by (metis attempts_allowed_def option.simps(4))
  show ?thesis
  proof (cases rs)
    case Nil
    with rs show ?thesis by (auto elim: attempts_NilE)
  next
    case (Cons q qs)
    with rs obtain u s2 v where a: "once_attempt w rq (s\<lparr>ex_up := u\<rparr>) = (q, s2)" "s1 = s2\<lparr>ex_up := v\<rparr>"
      by (auto elim!: attempts_ConsE attempts_NilE)
    obtain body s3 where b: "shared_body rq (s\<lparr>ex_up := u\<rparr>) = (body, s3)" by (rule prod.exhaust)
    obtain ans s4 where d: "client_do w rq body s3 = (ans, s4)" by (rule prod.exhaust)
    from client_do_sent [OF d] shared_body_same [OF b] a b d
    have "ex_sent s1 = ex_sent s @ [(body, case ans of Inl e \<Rightarrow> Inl e | Inr r \<Rightarrow> Inr (ha_status (rs_answer r)))]"
      by (auto simp: once_attempt_def Let_def split: sum.splits if_splits)
    moreover have "\<forall>r. ans = Inr r \<longrightarrow> ex_resp s1 = Some r"
      using a b d by (auto simp: once_attempt_def Let_def split: if_splits)
    ultimately show ?thesis by blast
  qed
qed

lemma DoOnce_sent:
  assumes "executor_contract fs" and "DoOnce fs ctx name client (Some rq) (p, s) = ((resp, e), p', s')"
  shows "ex_sent s' = ex_sent s \<or>
    (\<exists>body o'. ex_sent s' = ex_sent s @ [(body, o')] \<and>
       (\<forall>status. o' = Inr status \<longrightarrow> e = None \<and> (\<exists>r. resp = Some r \<and> ha_status (rs_answer r) = status)))"
proof (cases "validateCtx ctx = None \<and> client \<noteq> None")
  case False
  with assms(2) show ?thesis
    by (auto simp: DoOnce_def once_def validateCtx_None split: option.splits prod.splits)
next
  case True
  then obtain c w where c: "ctx = Some c" "validateCtx ctx = None" "client = Some w" by (auto simp: validateCtx_None)
  let ?s = "s\<lparr>ex_resp := None, ex_spent := False\<rparr>"
  obtain err p1 s1 where r: "run_under fs name None c (once_attempt w rq) (p, ?s) = (err, p1, s1)" by (rule pair_right)
  from assms(2) c r have "s' = s1" "(resp, e) = (case err of None \<Rightarrow> (ex_resp s1, None)
      | Some e \<Rightarrow> (case ex_resp s1 of Some r \<Rightarrow> (Some r, None) | None \<Rightarrow> (None, Some (dialError c name e s1))))"
    by (auto simp: DoOnce_def once_def eq_commute [of "Some _" "ex_resp _"] split: option.splits)
  with once_run_sent [OF assms(1) r] show ?thesis
  proof (elim disjE exE conjE)
    fix body ans
    assume "ex_sent s1 = ex_sent ?s @ [(body, case ans of Inl e \<Rightarrow> Inl e | Inr r \<Rightarrow> Inr (ha_status (rs_answer r)))]"
      "\<forall>r. ans = Inr r \<longrightarrow> ex_resp s1 = Some r"
    with \<open>s' = s1\<close> \<open>(resp, e) = _\<close> show ?thesis by (cases ans; cases err) auto
  qed simp
qed

text \<open>The same for a single request.\<close>

lemma DoOnce_handed_back:
  assumes "executor_contract fs" and "DoOnce fs ctx name client req (p, s) = (x, p', s')" and "opened s"
  shows "handed_back (ex_open s) x s'"
proof (cases "validateCtx ctx = None \<and> client \<noteq> None \<and> req \<noteq> None")
  case False
  then obtain e where "x = (None, Some e)" "s' = s"
    using assms(2) by (auto simp: DoOnce_def once_def validateCtx_None split: option.splits prod.splits)
  with assms(3) show ?thesis by (simp add: handed_back_def)
next
  case True
  then obtain c w rq where c: "ctx = Some c" "validateCtx ctx = None" "client = Some w" "req = Some rq"
    by (auto simp: validateCtx_None)
  let ?s = "s\<lparr>ex_resp := None, ex_spent := False\<rparr>"
  obtain err p1 s1 where r: "run_under fs name None c (once_attempt w rq) (p, ?s) = (err, p1, s1)" by (rule pair_right)
  obtain rs where rs: "attempts (once_attempt w rq) rs ?s s1" "length rs \<le> 1" "err = None \<Longrightarrow> rs \<noteq> [] \<and> last rs = None"
    using run_under_attempts [OF assms(1) r] by (metis attempts_allowed_def option.simps(4))
  have "tidy (ex_open s) s1 \<and> (err = None \<longrightarrow> ex_resp s1 \<noteq> None)"
  proof (cases rs)
    case Nil
    with rs tidy_start [OF assms(3)] show ?thesis by (auto elim: attempts_NilE)
  next
    case (Cons q qs)
    with rs obtain u s2 v where a: "once_attempt w rq (?s\<lparr>ex_up := u\<rparr>) = (q, s2)" "s1 = s2\<lparr>ex_up := v\<rparr>" "err = None \<longrightarrow> q = None"
      by (cases err) (auto elim!: attempts_ConsE attempts_NilE)
    have "tidy (ex_open s) (?s\<lparr>ex_up := u\<rparr>)" using tidy_start [OF assms(3)] by simp
    from once_attempt_tidy [OF a(1) this] a(2,3) show ?thesis by simp
  qed
  moreover from assms(2) c r have "s' = s1" "x = (case err of None \<Rightarrow> (ex_resp s1, None)
      | Some e \<Rightarrow> (case ex_resp s1 of Some r \<Rightarrow> (Some r, None) | None \<Rightarrow> (None, Some (dialError c name e s1))))"
    by (auto simp: DoOnce_def once_def eq_commute [of "Some _" "ex_resp _"] split: option.splits)
  ultimately show ?thesis using tidy_opened [of "ex_open s" s1]
    by (auto simp: handed_back_def tidy_def split: option.splits)
qed

text \<open>\<open>DoOnce\<close> sends a request at most once, and an upstream answer, whatever its status,
  comes back with a nil error.\<close>

theorem once_is_once:
  assumes "executor_contract fs" and "DoOnce fs ctx name client (Some rq) (p, s) = ((resp, e), p', s')"
  shows "ex_sent s' = ex_sent s \<or>
    (\<exists>body o'. ex_sent s' = ex_sent s @ [(body, o')] \<and>
       (\<forall>status. o' = Inr status \<longrightarrow> e = None \<and> (\<exists>r. resp = Some r \<and> ha_status (rs_answer r) = status)))"
  using assms by (rule DoOnce_sent)

theorem once_is_once_witness:
  "\<exists>x p' s'. DoOnce (plain_failsafe :: (unit, nat) failsafe) (Some sample_ctx) DepGateway (Some sample_wire)
     (Some sample_post) (NewPolicies (\<lambda>d. d), fresh_exchange 0) = (x, p', s') \<and> length (ex_sent s') \<le> 1"
proof -
  obtain resp e p' s' where r: "DoOnce (plain_failsafe :: (unit, nat) failsafe) (Some sample_ctx) DepGateway (Some sample_wire)
     (Some sample_post) (NewPolicies (\<lambda>d. d), fresh_exchange 0) = ((resp, e), p', s')" by (metis prod.collapse)
  from once_is_once [OF plain_contract r] r show ?thesis by (auto simp: fresh_exchange_def)
qed

text \<open>When the caller's context has ended, an error of \<open>Do\<close> says so: its code is a timeout or a
  cancel, never the upstream's failure. A response comes with an error only on that path, and
  its connection is already given back.\<close>

theorem ended_context_is_the_cause:
  assumes "Do fs jitter (Some c) name (Some w) (Some rq) (p, s) = ((resp, Some e), p', s')" and "oc_deadline c \<noteq> None"
  shows "(oc_err c (ex_up s') \<noteq> None \<longrightarrow> code_of (Some e) \<in> {CodeTimeout, CodeCanceled}) \<and>
    (\<forall>r. resp = Some r \<longrightarrow> oc_err c (ex_up s') \<noteq> None \<and> rs_handle r = None)"
proof -
  obtain err p1 s1 where r: "run_under fs name (if replayable rq then Some (retryPolicy jitter p) else None) c
      (do_attempt w c name rq) (p, s\<lparr>ex_resp := None, ex_spent := False\<rparr>) = (err, p1, s1)" by (rule pair_right)
  have "validateCtx (Some c) = None" using assms(2) by (auto simp: validateCtx_None)
  with assms(1) have "do_result c name err s1 = ((resp, Some e), s')"
    by (auto simp: Do_def r split: prod.splits)
  moreover have "ex_up (CloseResponse r s1) = ex_up s1" for r
    by (simp add: CloseResponse_def split: option.splits)
  ultimately show ?thesis
    by (auto simp: do_result_def dialError_def Let_def code_of_def contextCode_def split: option.splits)
qed

definition late_ctx :: "nat out_ctx" where
  "late_ctx = \<lparr>oc_deadline = Some 100, oc_err = \<lambda>u. if u = 0 then None else Some CtxDeadlineExceeded\<rparr>"

definition broken_wire :: "nat wire" where
  "broken_wire = \<lparr>wr_send = \<lambda>req body u. (Inl (Sent ConnReset), Suc u), wr_clock = int, wr_parse_time = \<lambda>_. None\<rparr>"

abbreviation late_do where
  "late_do \<equiv> Do (plain_failsafe :: (unit, nat) failsafe) (\<lambda>d. d) (Some late_ctx) DepGateway (Some broken_wire)
     (Some sample_post) (NewPolicies (\<lambda>d. d), fresh_exchange 0)"

lemma late_do_runs:
  "fst (fst late_do) = None \<and> snd (fst late_do) \<noteq> None \<and> ex_up (snd (snd late_do)) = 4"
  by code_simp

theorem ended_context_is_the_cause_witness:
  "code_of (snd (fst late_do)) \<in> {CodeTimeout, CodeCanceled}"
proof -
  obtain e p' s' where r: "late_do = ((None, Some e), p', s')"
    using late_do_runs by (metis prod.collapse option.exhaust)
  have "oc_deadline late_ctx \<noteq> None" "oc_err late_ctx (ex_up s') \<noteq> None"
    using late_do_runs r by (simp_all add: late_ctx_def)
  with ended_context_is_the_cause [OF r] r show ?thesis by simp
qed

section \<open>Delays and texts\<close>

lemma double_up_closed:
  "0 < d \<Longrightarrow> d \<le> hi \<Longrightarrow> hi < 2 ^ 62 \<Longrightarrow> min (double_up n hi d) hi = min (d * 2 ^ n) hi"
proof (induction n arbitrary: d)
  case (Suc n)
  show ?case
  proof (cases "d < hi")
    case True
    with Suc.prems have w: "wrap64 (d * 2) = d * 2" by (intro wrap64_id) auto
    show ?thesis
    proof (cases "d * 2 \<le> hi")
      case True
      with Suc.IH [of "d * 2"] Suc.prems \<open>d < hi\<close> w show ?thesis by (simp add: mult.assoc)
    next
      case False
      then have "double_up n hi (d * 2) = d * 2" by (cases n) auto
      moreover have "d * 2 * 1 \<le> d * 2 * 2 ^ n" using Suc.prems(1) by (intro mult_left_mono) simp_all
      with False have "\<not> d * (2 * 2 ^ n) \<le> hi" by (simp add: mult.assoc)
      ultimately show ?thesis using False True w by (simp add: min_def)
    qed
  next
    case False
    then have "hi = d" using Suc.prems by simp
    moreover have "d * 1 \<le> d * 2 ^ Suc n" using Suc.prems(1) by (intro mult_left_mono one_le_power) simp_all
    ultimately show ?thesis using False by simp
  qed
qed simp

text \<open>The wait before a retry: the upstream's Retry-After when it sent one, as sent; otherwise the
  jittered value of the minimum doubled once per earlier retry and capped at the maximum. The
  loop that computes it never overflows for a maximum below \<open>2\<^sup>6\<^sup>2\<close> nanoseconds (146 years).\<close>

theorem delay_is_capped_doubling:
  assumes "bo_max b < 2 ^ 62" and "bo_min b < 2 ^ 62"
  shows "delay jitter (normal_backoff b) retries lastErr =
    (case error_as status_flags lastErr of
       Some (_, retryAfter) \<Rightarrow>
         if 0 < retryAfter then retryAfter
         else jitter (min (bo_min (normal_backoff b) * 2 ^ retries) (bo_max (normal_backoff b)))
     | None \<Rightarrow> jitter (min (bo_min (normal_backoff b) * 2 ^ retries) (bo_max (normal_backoff b)))) \<and>
   0 < bo_min (normal_backoff b) \<and> bo_min (normal_backoff b) \<le> bo_max (normal_backoff b)"
proof -
  have n: "0 < bo_min (normal_backoff b)" "bo_min (normal_backoff b) \<le> bo_max (normal_backoff b)" "bo_max (normal_backoff b) < 2 ^ 62"
    using assms by (auto simp: normal_backoff_def Let_def defaultBackoffMin_def defaultBackoffMax_def ns_second_def)
  show ?thesis unfolding delay_def double_up_closed [OF n] using n by simp
qed

theorem delay_is_capped_doubling_witness:
  "map (\<lambda>n. delay (\<lambda>d. d) (normal_backoff no_backoff) n None) [0, 1, 2, 3, 4] =
     map (\<lambda>s. s * ns_second) [1, 2, 4, 8, 8]"
  using delay_is_capped_doubling [of no_backoff "\<lambda>d. d" _ None]
  by (simp add: no_backoff_def error_as_def normal_backoff_def Let_def defaultBackoffMin_def defaultBackoffMax_def ns_second_def)

text \<open>\<open>retext f\<close> rewrites every text of an error tree: messages, op names, fields and foreign texts.\<close>

fun retext :: "(string \<Rightarrow> string) \<Rightarrow> goerr \<Rightarrow> goerr" where
  "retext f (DomainErr (DErr c op m fs cause)) =
     DomainErr (DErr c (f op) (f m) (map (\<lambda>(k, v). (k, f v)) fs) (case cause of None \<Rightarrow> None | Some e \<Rightarrow> Some (retext f e)))"
| "retext f (Sent s) = Sent s"
| "retext f (Leaf t) = Leaf (f t)"
| "retext f (Wrapf t e) = Wrapf (f t) (retext f e)"
| "retext f (Joined t es) = Joined (f t) (map (retext f) es)"
| "retext f (Typed (NetErr t timeout)) = Typed (NetErr (f t) timeout)"
| "retext f (Typed (DNSErr t temporary timeout)) = Typed (DNSErr (f t) temporary timeout)"
| "retext f (Typed (StatusErr status retryAfter)) = Typed (StatusErr status retryAfter)"
| "retext f (Typed MaxBytesErr) = Typed MaxBytesErr"

lemma err_nodes_retext: "err_nodes (retext f e) = map (retext f) (err_nodes e)"
proof (induction f e rule: retext.induct)
  case (1 f c op m fs cause)
  then show ?case by (cases cause) auto
next
  case (5 f t es)
  then have "map (err_nodes \<circ> retext f) es = map (map (retext f) \<circ> err_nodes) es" by (simp add: map_eq_conv)
  then show ?case by (simp only: retext.simps err_nodes.simps map_map map_concat list.map)
qed auto

lemma flags_retext [simp]:
  "timeout_flag (retext f e) = timeout_flag e" "dns_flags (retext f e) = dns_flags e"
  "status_flags (retext f e) = status_flags e" "retext f e = Sent s \<longleftrightarrow> e = Sent s"
  by (cases "(f, e)" rule: retext.cases; simp)+

lemma error_as_retext:
  "(\<And>e. g (retext f e) = g e) \<Longrightarrow> error_as g (Some (retext f e)) = error_as g (Some e)"
  by (simp add: error_as_def err_nodes_retext List.map_filter_def filter_map comp_def)

lemma is_sentinel_retext: "is_sentinel (Some (retext f e)) s = is_sentinel (Some e) s"
  by (auto simp: is_sentinel_def err_nodes_retext image_iff) (metis flags_retext(4))+

text \<open>Whether a failure is worth another attempt depends on the types and the identities of the
  errors in the tree alone, never on a text.\<close>

theorem retry_ignores_texts: "retryableErr (Some (retext f e)) = retryableErr (Some e)"
  by (simp add: retryableErr_def transportRetryable_def isTemporaryDNS_def is_sentinel_retext error_as_retext)

end
