(* ===== verification/Batch_Clients.thy ===== *)
theory Batch_Clients
  imports Http_Client
begin

text \<open>
  The batch calls of the provider clients: Workers AI async batch
  (\<open>internal/clients/cloudflare/batch.go\<close>, with the parts of \<open>workersai.go\<close> and \<open>urls.go\<close> it
  uses) and the OpenRouter Batch API (\<open>internal/clients/openrouter/batch.go\<close>). Request bodies
  are translated as raw JSON; the transport is a parameter. The lemmas show that accepted batch
  input cannot make the translation panic.
\<close>

section \<open>Workers AI\<close>

definition opSubmitBatch :: string where "opSubmitBatch = ''cloudflare.SubmitBatch''"
definition opPollBatch :: string where "opPollBatch = ''cloudflare.PollBatch''"
definition opPostBatchRun :: string where "opPostBatchRun = ''cloudflare.postBatchRun''"
definition opEmbedInput :: string where "opEmbedInput = ''cloudflare.embeddingInputToText''"
definition cf_batchMaxPayload :: nat where "cf_batchMaxPayload = 10 * 1048576"
definition runMaxBody :: nat where "runMaxBody = 64 * 1048576"
definition errorBodyMax :: nat where "errorBodyMax = 256"

datatype batch_poll_state = BatchPollNone | BatchPollQueued | BatchPollRunning | BatchPollCompleted | BatchPollFailed

record batch_response_item =
  bri_external_reference :: string
  bri_success :: bool
  bri_result :: bytes
  bri_error_message :: string

record batch_poll_result =
  bpr_state :: batch_poll_state
  bpr_responses :: "batch_response_item list"

record cf_client =
  cf_api_base :: string

definition NormalizeModel :: "string \<Rightarrow> string" where
  "NormalizeModel model0 =
     (let model = trim_space model0
      in if model = [] then []
         else if has_prefix model ''@'' then model
         else case cut model (CHR ''/'') of
           (before, Some after) \<Rightarrow>
             (let rest = trim_space after
              in if before \<noteq> [] \<and> (has_prefix rest ''@'' \<or> contains rest ''/'') then rest else model)
         | (_, None) \<Rightarrow> model)"

definition batchAllowedModels :: "string list" where
  "batchAllowedModels =
     [''@cf/google/gemma-4-26b-a4b-it'', ''@cf/meta/llama-3.3-70b-instruct-fp8-fast'',
      ''@cf/meta/llama-4-scout-17b-16e-instruct'', ''@cf/openai/gpt-oss-120b'', ''@cf/openai/gpt-oss-20b'',
      ''@cf/qwen/qwen3-30b-a3b-fp8'', ''@cf/qwen/qwen3.8-27b'', ''@cf/deepseek-ai/deepseek-v4-flash-0731'',
      ''@cf/moonshotai/kimi-k2.6'', ''@cf/baai/bge-base-en-v1.5'', ''@cf/baai/bge-large-en-v1.5'',
      ''@cf/baai/bge-small-en-v1.5'']"

definition ModelSupportsBatch :: "string \<Rightarrow> bool" where
  "ModelSupportsBatch model0 =
     (let model = NormalizeModel (trim_space model0)
      in model \<noteq> [] \<and> model \<in> set batchAllowedModels)"

definition runURL :: "string \<Rightarrow> string \<Rightarrow> string" where
  "runURL apiBase model0 =
     trim_right_char (CHR ''/'') apiBase @ ''/run/'' @ trim_prefix (trim_space model0) ''/''"

definition batchRunURL :: "string \<Rightarrow> string \<Rightarrow> string" where
  "batchRunURL apiBase model = runURL apiBase model @ ''?queueRequest=true''"

definition message_fields :: "string field_decoder list" where
  "message_fields = [(''message'', \<lambda>raw v s. dec_string s v)]"

definition firstErrorMessage :: "string list \<Rightarrow> string \<Rightarrow> string" where
  "firstErrorMessage errs fallback =
     (case errs of
        [] \<Rightarrow> fallback
      | e # _ \<Rightarrow> (let msg = trim_space e in if msg \<noteq> [] then msg else fallback))"

definition workersAIErrorMessage :: "bytes \<Rightarrow> string \<Rightarrow> string" where
  "workersAIErrorMessage raw fallback =
     (case unmarshal [(''errors'', \<lambda>raw v s. dec_slice (dec_struct message_fields []) v)] [] raw of
        None \<Rightarrow> fallback
      | Some errs \<Rightarrow> firstErrorMessage errs fallback)"

definition upstreamError :: "string \<Rightarrow> http_answer \<Rightarrow> bytes \<Rightarrow> derr" where
  "upstreamError op resp body =
     (case Classify op (ha_status resp) (ha_header resp) body [] of
        Some rl \<Rightarrow> rl
      | None \<Rightarrow>
          with_field (with_field
            (err_new (StatusCode (ha_status resp)) op (workersAIErrorMessage body ''workers ai error''))
            ''status'' (itoa (ha_status resp)))
            ''body'' (Truncate body errorBodyMax))"

subsection \<open>Requests\<close>

definition withString :: "string gomap option \<Rightarrow> string \<Rightarrow> string \<Rightarrow> string gomap run" where
  "withString m key s = map_assign key (json_quote s) m"

definition chatLineToCF :: "bytes \<Rightarrow> string \<Rightarrow> (goerr + string gomap) run" where
  "chatLineToCF body customID =
     (case unmarshal_map body of
        None \<Rightarrow> Returns (Inl (DomainErr (err_wrap (Some json_error) CodeInvalid ''cloudflare.chatLineToCF'' ''parse body'')))
      | Some m \<Rightarrow>
          run_bind (withString (map_delete ''stream'' (map_delete ''model'' m)) ''external_reference'' customID)
            (\<lambda>item. Returns (Inr item)))"

definition decode_text :: "bytes \<Rightarrow> string option" where
  "decode_text raw = Option.bind (json_parse raw) (dec_string [])"

definition embeddingInputToText :: "bytes \<Rightarrow> goerr + string" where
  "embeddingInputToText raw =
     (let required = Inl (DomainErr (err_new CodeInvalid opEmbedInput ''input required''));
          checked = (\<lambda>text. if trim_space text = [] then required else Inr text)
      in if raw = [] then required
         else case decode_text raw of
           Some text \<Rightarrow> checked text
         | None \<Rightarrow>
             (case Option.bind (json_parse raw) (dec_slice (dec_string [])) of
                Some [text] \<Rightarrow> checked text
              | _ \<Rightarrow> Inl (DomainErr (err_new CodeInvalid opEmbedInput
                    ''batch embeddings require a single string input per line''))))"

definition embedLineToCF :: "bytes \<Rightarrow> string \<Rightarrow> (goerr + string gomap) run" where
  "embedLineToCF body customID =
     (case unmarshal_map body of
        None \<Rightarrow> Returns (Inl (DomainErr (err_wrap (Some json_error) CodeInvalid ''cloudflare.embedLineToCF'' ''parse body'')))
      | Some m0 \<Rightarrow>
          (let m = map_delete ''model'' m0;
               input = (case Option.bind m (\<lambda>kv. map_of kv ''input'') of None \<Rightarrow> [] | Some raw \<Rightarrow> raw);
               m1 = map_delete ''input'' m
           in case embeddingInputToText input of
                Inl e \<Rightarrow> Returns (Inl e)
              | Inr text \<Rightarrow>
                  run_bind (withString m1 ''text'' text) (\<lambda>m2.
                  run_bind (withString (Some m2) ''external_reference'' customID) (\<lambda>item. Returns (Inr item)))))"

fun translateBatchRequests :: "string \<Rightarrow> input_line list \<Rightarrow> (goerr + string gomap list) run" where
  "translateBatchRequests endpoint [] = Returns (Inr [])"
| "translateBatchRequests endpoint (line # lines) =
     run_bind
       (if endpoint = EndpointChatCompletions then chatLineToCF (il_body line) (il_custom_id line)
        else if endpoint = EndpointEmbeddings then embedLineToCF (il_body line) (il_custom_id line)
        else Returns (Inl (DomainErr (err_new CodeInvalid ''cloudflare.translateBatchRequests'' ''unsupported endpoint''))))
       (\<lambda>r. case r of
          Inl e \<Rightarrow> Returns (Inl e)
        | Inr item \<Rightarrow>
            run_bind (translateBatchRequests endpoint lines)
              (\<lambda>rs. Returns (case rs of Inl e \<Rightarrow> Inl e | Inr items \<Rightarrow> Inr (item # items))))"

fun all_some :: "'a option list \<Rightarrow> 'a list option" where
  "all_some [] = Some []"
| "all_some (x # xs) = (case x of None \<Rightarrow> None | Some y \<Rightarrow> map_option (\<lambda>ys. y # ys) (all_some xs))"

definition marshal_requests :: "string gomap list \<Rightarrow> bytes option" where
  "marshal_requests items =
     map_option (\<lambda>ts. ''{\"requests\":['' @ join '','' ts @ '']}'') (all_some (map (\<lambda>m. marshal_map (Some m)) items))"

subsection \<open>Answers\<close>

record batch_envelope =
  be_success :: "bool option"
  be_result :: bytes
  be_errors :: "string list"

definition batch_envelope_fields :: "batch_envelope field_decoder list" where
  "batch_envelope_fields =
     [(''success'', \<lambda>raw v s. map_option (\<lambda>b. s\<lparr>be_success := b\<rparr>) (dec_ptr (dec_bool False) v)),
      (''result'', \<lambda>raw v s. Some (s\<lparr>be_result := raw\<rparr>)),
      (''errors'', \<lambda>raw v s. map_option (\<lambda>es. s\<lparr>be_errors := es\<rparr>) (dec_slice (dec_struct message_fields []) v))]"

definition unwrapBatchEnvelope :: "bytes \<Rightarrow> goerr + bytes" where
  "unwrapBatchEnvelope raw0 =
     (let raw = trim_space raw0
      in case unmarshal batch_envelope_fields \<lparr>be_success = None, be_result = [], be_errors = []\<rparr> raw of
           None \<Rightarrow> Inr raw
         | Some env \<Rightarrow>
             if be_success env = Some False
             then Inl (DomainErr (err_new CodeUnavailable ''cloudflare.unwrapBatchEnvelope''
                    (firstErrorMessage (be_errors env) ''workers ai error'')))
             else if be_result env \<noteq> [] then Inr (be_result env)
             else Inr raw)"

definition parseSubmitRequestID :: "bytes \<Rightarrow> goerr + string" where
  "parseSubmitRequestID raw =
     (let op = ''cloudflare.parseSubmitRequestID''
      in case unmarshal [(''request_id'', \<lambda>raw v s. dec_string s v)] [] raw of
           None \<Rightarrow> Inl (DomainErr (err_wrap (Some json_error) CodeUnavailable op ''parse''))
         | Some rid \<Rightarrow>
             (let i = trim_space rid
              in if i = [] then Inl (DomainErr (err_new CodeUnavailable op ''missing request_id'')) else Inr i))"

definition cfBatchRowErrorMessage :: "bytes \<Rightarrow> string" where
  "cfBatchRowErrorMessage raw =
     (let message = (case unmarshal message_fields [] raw of None \<Rightarrow> [] | Some m \<Rightarrow> trim_space m);
          text = (case decode_text raw of None \<Rightarrow> [] | Some s \<Rightarrow> trim_space s)
      in if raw = [] then [] else if message \<noteq> [] then message else if text \<noteq> [] then text else trim_space raw)"

record cf_row =
  row_external_reference :: string
  row_success :: bool
  row_result :: bytes
  row_error :: bytes

definition cf_row_fields :: "cf_row field_decoder list" where
  "cf_row_fields =
     [(''external_reference'', \<lambda>raw v s. map_option (\<lambda>t. s\<lparr>row_external_reference := t\<rparr>) (dec_string (row_external_reference s) v)),
      (''success'', \<lambda>raw v s. map_option (\<lambda>b. s\<lparr>row_success := b\<rparr>) (dec_bool (row_success s) v)),
      (''result'', \<lambda>raw v s. Some (s\<lparr>row_result := raw\<rparr>)),
      (''error'', \<lambda>raw v s. Some (s\<lparr>row_error := raw\<rparr>))]"

definition zero_row :: cf_row where
  "zero_row = \<lparr>row_external_reference = [], row_success = False, row_result = [], row_error = []\<rparr>"

definition poll_fields :: "(string \<times> cf_row list) field_decoder list" where
  "poll_fields =
     [(''status'', \<lambda>raw v (st, rows). map_option (\<lambda>t. (t, rows)) (dec_string st v)),
      (''responses'', \<lambda>raw v (st, rows). map_option (\<lambda>rs. (st, rs)) (dec_slice (dec_struct cf_row_fields zero_row) v))]"

definition row_item :: "cf_row \<Rightarrow> batch_response_item" where
  "row_item r =
     \<lparr>bri_external_reference = row_external_reference r, bri_success = row_success r, bri_result = row_result r,
      bri_error_message = cfBatchRowErrorMessage (row_error r)\<rparr>"

definition parsePollResult :: "bytes \<Rightarrow> goerr + batch_poll_result" where
  "parsePollResult raw =
     (let op = ''cloudflare.parsePollResult''; in_state = (\<lambda>st. Inr \<lparr>bpr_state = st, bpr_responses = []\<rparr>)
      in case unmarshal poll_fields ([], []) raw of
           None \<Rightarrow> Inl (DomainErr (err_wrap (Some json_error) CodeUnavailable op ''parse''))
         | Some (status0, rows) \<Rightarrow>
             (let status = to_lower (trim_space status0)
              in if rows \<noteq> [] then Inr \<lparr>bpr_state = BatchPollCompleted, bpr_responses = map row_item rows\<rparr>
                 else if status = [] then
                   Inl (DomainErr (with_field (err_new CodeUnavailable op ''poll answer has no status and no responses'')
                     ''body'' (Truncate raw errorBodyMax)))
                 else if status = ''queued'' then in_state BatchPollQueued
                 else if status = ''running'' \<or> status = ''in_progress'' then in_state BatchPollRunning
                 else if status = ''failed'' \<or> status = ''error'' \<or> status = ''cancelled'' then in_state BatchPollFailed
                 else Inl (DomainErr (with_field (err_new CodeUnavailable op ''unexpected batch status'') ''status'' status))))"

subsection \<open>Calls\<close>

text \<open>\<open>run\<close> and \<open>postBatchRun\<close>: the request is a POST of the payload.\<close>

definition postBatchRun ::
  "'u transport \<Rightarrow> cf_client \<Rightarrow> go_context option \<Rightarrow> string \<Rightarrow> bytes \<Rightarrow> bool \<Rightarrow> 'u \<Rightarrow> (goerr + bytes) \<times> 'u" where
  "postBatchRun tr c ctx model payload retry u =
     (let target = batchRunURL (cf_api_base c) model; op = opPostBatchRun
      in case tr_request tr target of
           Some e \<Rightarrow> (Inl (DomainErr (err_wrap (Some e) CodeInternal op ''request'')), u)
         | None \<Rightarrow>
             (case tr_send tr ctx retry ''POST'' target (Some payload) u of
                (Inl e, u') \<Rightarrow>
                  (Inl (DomainErr (with_field (err_wrap (Some e) (code_or (Some e) CodeUnavailable) op ''post /run'')
                     ''target'' target)), u')
              | (Inr resp, u') \<Rightarrow>
                  (case ReadCapped (ha_body resp) runMaxBody op of
                     Inl e \<Rightarrow> (Inl e, u')
                   | Inr raw \<Rightarrow>
                       (if \<not> ok_status (ha_status resp) then Inl (DomainErr (upstreamError op resp raw))
                        else unwrapBatchEnvelope raw, u'))))"

definition cf_SubmitBatch ::
  "'u transport \<Rightarrow> cf_client option \<Rightarrow> go_context option \<Rightarrow> string \<Rightarrow> string \<Rightarrow> input_line list \<Rightarrow> 'u \<Rightarrow>
   (goerr + string) run \<times> 'u" where
  "cf_SubmitBatch tr client ctx model0 endpoint lines u =
     (let op = opSubmitBatch; fail = (\<lambda>code msg. (Returns (Inl (DomainErr (err_new code op msg))), u))
      in if ctx = None then fail CodeInvalid ''context required''
         else case client of
           None \<Rightarrow> fail CodeNotReady ''not configured''
         | Some c \<Rightarrow>
             (let model = NormalizeModel (trim_space model0)
              in if model = [] then fail CodeInvalid ''model required''
                 else if \<not> ModelSupportsBatch model then
                   (Returns (Inl (DomainErr (with_field (err_new CodeInvalid op ''model does not support batch'') ''model'' model))), u)
                 else case translateBatchRequests endpoint lines of
                   Panics \<Rightarrow> (Panics, u)
                 | Returns (Inl e) \<Rightarrow> (Returns (Inl e), u)
                 | Returns (Inr requests) \<Rightarrow>
                     (case marshal_requests requests of
                        None \<Rightarrow> (Returns (Inl (DomainErr (err_wrap (Some json_error) CodeInternal op ''marshal''))), u)
                      | Some payload \<Rightarrow>
                          if cf_batchMaxPayload < length payload
                          then fail CodeInvalid ''batch payload exceeds 10MB limit''
                          else (case postBatchRun tr c ctx model payload False u of
                            (Inl e, u') \<Rightarrow> (Returns (Inl e), u')
                          | (Inr raw, u') \<Rightarrow> (Returns (parseSubmitRequestID raw), u')))))"

definition PollBatch ::
  "'u transport \<Rightarrow> cf_client option \<Rightarrow> go_context option \<Rightarrow> string \<Rightarrow> string \<Rightarrow> 'u \<Rightarrow>
   (goerr + batch_poll_result) \<times> 'u" where
  "PollBatch tr client ctx model0 requestID0 u =
     (let op = opPollBatch; fail = (\<lambda>code msg. (Inl (DomainErr (err_new code op msg)), u))
      in if ctx = None then fail CodeInvalid ''context required''
         else case client of
           None \<Rightarrow> fail CodeNotReady ''not configured''
         | Some c \<Rightarrow>
             (let model = NormalizeModel (trim_space model0); requestID = trim_space requestID0
              in if model = [] \<or> requestID = [] then fail CodeInvalid ''model and request_id required''
                 else case postBatchRun tr c ctx model (''{\"request_id\":'' @ json_quote requestID @ ''}'') True u of
                   (Inl e, u') \<Rightarrow> (Inl e, u')
                 | (Inr raw, u') \<Rightarrow>
                     (case parsePollResult raw of
                        Inl e \<Rightarrow>
                          (Inl (DomainErr (with_field (err_wrap (Some e) (code_or (Some e) CodeUnavailable) op ''poll answer'')
                             ''request_id'' requestID)), u')
                      | Inr poll \<Rightarrow> (Inr poll, u'))))"

section \<open>OpenRouter\<close>

definition or_batchMaxBody :: nat where "or_batchMaxBody = 64 * 1048576"
definition opDo :: string where "opDo = ''openrouter.do''"

datatype or_status =
    OrValidating | OrInProgress | OrFinalizing | OrCompleted | OrFailed | OrExpired | OrCancelled | OrOther string

definition or_status_of :: "string \<Rightarrow> or_status" where
  "or_status_of s =
     (if s = ''validating'' then OrValidating else if s = ''in_progress'' then OrInProgress
      else if s = ''finalizing'' then OrFinalizing else if s = ''completed'' then OrCompleted
      else if s = ''failed'' then OrFailed else if s = ''expired'' then OrExpired
      else if s = ''cancelled'' then OrCancelled else OrOther s)"

record or_response =
  orr_status :: int
  orr_body :: bytes

record or_item_error =
  ore_type :: string
  ore_message :: string

record or_result =
  ort_custom_id :: string
  ort_response :: "or_response option"
  ort_error :: "or_item_error option"

record or_batch =
  orb_id :: string
  orb_status :: string
  orb_results :: "or_result list"

definition or_response_fields :: "or_response field_decoder list" where
  "or_response_fields =
     [(''status_code'', \<lambda>raw v s. map_option (\<lambda>n. s\<lparr>orr_status := n\<rparr>) (dec_int (orr_status s) v)),
      (''body'', \<lambda>raw v s. Some (s\<lparr>orr_body := raw\<rparr>))]"

definition or_item_error_fields :: "or_item_error field_decoder list" where
  "or_item_error_fields =
     [(''type'', \<lambda>raw v s. map_option (\<lambda>t. s\<lparr>ore_type := t\<rparr>) (dec_string (ore_type s) v)),
      (''message'', \<lambda>raw v s. map_option (\<lambda>t. s\<lparr>ore_message := t\<rparr>) (dec_string (ore_message s) v))]"

definition or_result_fields :: "or_result field_decoder list" where
  "or_result_fields =
     [(''custom_id'', \<lambda>raw v s. map_option (\<lambda>t. s\<lparr>ort_custom_id := t\<rparr>) (dec_string (ort_custom_id s) v)),
      (''response'', \<lambda>raw v s. map_option (\<lambda>r. s\<lparr>ort_response := r\<rparr>)
         (dec_ptr (dec_struct or_response_fields \<lparr>orr_status = 0, orr_body = []\<rparr>) v)),
      (''error'', \<lambda>raw v s. map_option (\<lambda>e. s\<lparr>ort_error := e\<rparr>)
         (dec_ptr (dec_struct or_item_error_fields \<lparr>ore_type = [], ore_message = []\<rparr>) v))]"

definition zero_result :: or_result where
  "zero_result = \<lparr>ort_custom_id = [], ort_response = None, ort_error = None\<rparr>"

text \<open>The counts and the batch-level error are decoded for their types only; nothing reads them.\<close>

definition or_counts_fields :: "(int \<times> int \<times> int) field_decoder list" where
  "or_counts_fields =
     [(''total'', \<lambda>raw v (t, c, f). map_option (\<lambda>n. (n, c, f)) (dec_int t v)),
      (''completed'', \<lambda>raw v (t, c, f). map_option (\<lambda>n. (t, n, f)) (dec_int c v)),
      (''failed'', \<lambda>raw v (t, c, f). map_option (\<lambda>n. (t, c, n)) (dec_int f v))]"

definition or_batch_fields :: "or_batch field_decoder list" where
  "or_batch_fields =
     [(''id'', \<lambda>raw v s. map_option (\<lambda>t. s\<lparr>orb_id := t\<rparr>) (dec_string (orb_id s) v)),
      (''status'', \<lambda>raw v s. map_option (\<lambda>t. s\<lparr>orb_status := t\<rparr>) (dec_string (orb_status s) v)),
      (''request_counts'', \<lambda>raw v s. map_option (\<lambda>_. s) (dec_struct or_counts_fields (0, 0, 0) v)),
      (''results'', \<lambda>raw v s. map_option (\<lambda>rs. s\<lparr>orb_results := rs\<rparr>) (dec_slice (dec_struct or_result_fields zero_result) v)),
      (''error'', \<lambda>raw v s. map_option (\<lambda>_. s) (dec_ptr (dec_struct message_fields []) v))]"

definition decode_or_batch :: "bytes \<Rightarrow> or_batch option" where
  "decode_or_batch raw = unmarshal or_batch_fields \<lparr>orb_id = [], orb_status = [], orb_results = []\<rparr> raw"

definition batchItemBody :: "bytes \<Rightarrow> goerr + bytes" where
  "batchItemBody raw =
     (case unmarshal_map raw of
        None \<Rightarrow> Inl (DomainErr (err_wrap (Some json_error) CodeInvalid ''openrouter.batchItemBody'' ''parse body''))
      | Some m \<Rightarrow>
          (case marshal_map (map_delete ''stream'' (map_delete ''model'' m)) of
             None \<Rightarrow> Inl json_error
           | Some t \<Rightarrow> Inr t))"

definition or_errorMessage :: "bytes \<Rightarrow> int \<Rightarrow> string" where
  "or_errorMessage raw status =
     (let fallback = ''openrouter batch: status '' @ itoa status @ '': '' @ Truncate raw 200
      in case unmarshal [(''error'', \<lambda>raw v s. dec_struct message_fields s v)] [] raw of
           None \<Rightarrow> fallback
         | Some m \<Rightarrow> if trim_space m \<noteq> [] then m else fallback)"

text \<open>\<open>do\<close>: a GET may be retried, anything else is sent once.\<close>

definition or_do ::
  "'u transport \<Rightarrow> go_context option \<Rightarrow> string \<Rightarrow> string \<Rightarrow> bytes option \<Rightarrow> 'u \<Rightarrow> (goerr + bytes) \<times> 'u" where
  "or_do tr ctx meth target payload u =
     (if ctx = None then (Inl (DomainErr (err_new CodeInvalid opDo ''context required'')), u)
      else case tr_request tr target of
        Some e \<Rightarrow> (Inl (DomainErr (err_wrap (Some e) CodeInternal opDo ''request'')), u)
      | None \<Rightarrow>
          (case tr_send tr ctx (meth = ''GET'') meth target payload u of
             (Inl e, u') \<Rightarrow>
               (Inl (DomainErr (with_field (err_wrap (Some e) (code_or (Some e) CodeUnavailable) opDo (to_lower meth))
                  ''target'' target)), u')
           | (Inr resp, u') \<Rightarrow>
               (case ReadCapped (ha_body resp) or_batchMaxBody opDo of
                  Inl e \<Rightarrow> (Inl e, u')
                | Inr raw \<Rightarrow>
                    (if \<not> ok_status (ha_status resp)
                     then Inl (DomainErr (with_field
                            (err_new (StatusCode (ha_status resp)) opDo (or_errorMessage raw (ha_status resp)))
                            ''status'' (itoa (ha_status resp))))
                     else Inr raw, u'))))"

fun or_items :: "input_line list \<Rightarrow> goerr + (string \<times> bytes) list" where
  "or_items [] = Inr []"
| "or_items (line # lines) =
     (case batchItemBody (il_body line) of
        Inl e \<Rightarrow>
          Inl (DomainErr (with_field (err_wrap (Some e) CodeInvalid ''openrouter.SubmitBatch'' ''line body'')
            ''custom_id'' (il_custom_id line)))
      | Inr body \<Rightarrow> (case or_items lines of Inl e \<Rightarrow> Inl e | Inr items \<Rightarrow> Inr ((il_custom_id line, body) # items)))"

definition or_submit_body :: "string \<Rightarrow> string \<Rightarrow> (string \<times> bytes) list \<Rightarrow> bytes option" where
  "or_submit_body endpoint model items =
     map_option (\<lambda>ts.
         ''{\"endpoint\":'' @ json_quote endpoint @ '',\"model\":'' @ json_quote model @
         '',\"completion_window\":\"24h\",\"requests\":['' @ join '','' ts @ '']}'')
       (all_some (map (\<lambda>(cid, body).
          map_option (\<lambda>b. ''{\"custom_id\":'' @ json_quote cid @ '',\"body\":'' @ b @ ''}'') (json_compact body)) items))"

definition or_SubmitBatch ::
  "'u transport \<Rightarrow> string option \<Rightarrow> go_context option \<Rightarrow> string \<Rightarrow> string \<Rightarrow> input_line list \<Rightarrow> 'u \<Rightarrow> (goerr + string) \<times> 'u" where
  "or_SubmitBatch tr apiBase ctx model endpoint lines u =
     (let op = ''openrouter.SubmitBatch''
      in case apiBase of
           None \<Rightarrow> (Inl (DomainErr (err_new CodeNotReady op ''not configured'')), u)
         | Some base \<Rightarrow>
             (case or_items lines of
                Inl e \<Rightarrow> (Inl e, u)
              | Inr items \<Rightarrow>
                  (case or_submit_body endpoint model items of
                     None \<Rightarrow> (Inl (DomainErr (err_wrap (Some json_error) CodeInternal op ''marshal'')), u)
                   | Some payload \<Rightarrow>
                       (case or_do tr ctx ''POST'' (base @ ''/batches'') (Some payload) u of
                          (Inl e, u') \<Rightarrow> (Inl e, u')
                        | (Inr raw, u') \<Rightarrow>
                            (case decode_or_batch raw of
                               None \<Rightarrow> (Inl (DomainErr (err_wrap (Some json_error) CodeUnavailable op ''decode create response'')), u')
                             | Some created \<Rightarrow>
                                 (if trim_space (orb_id created) = []
                                  then Inl (DomainErr (err_new CodeUnavailable op ''batch id missing from response''))
                                  else Inr (orb_id created), u'))))))"

definition or_GetBatch ::
  "'u transport \<Rightarrow> string option \<Rightarrow> go_context option \<Rightarrow> string \<Rightarrow> 'u \<Rightarrow> (goerr + or_batch) \<times> 'u" where
  "or_GetBatch tr apiBase ctx id0 u =
     (let op = ''openrouter.GetBatch''
      in case apiBase of
           None \<Rightarrow> (Inl (DomainErr (err_new CodeNotReady op ''not configured'')), u)
         | Some base \<Rightarrow>
             (let i = trim_space id0
              in if i = [] then (Inl (DomainErr (err_new CodeInvalid op ''batch id required'')), u)
                 else case or_do tr ctx ''GET'' (base @ ''/batches/'' @ path_escape i) None u of
                   (Inl e, u') \<Rightarrow> (Inl e, u')
                 | (Inr raw, u') \<Rightarrow>
                     (case decode_or_batch raw of
                        None \<Rightarrow> (Inl (DomainErr (err_wrap (Some json_error) CodeUnavailable op ''decode'')), u')
                      | Some b \<Rightarrow> (Inr b, u'))))"

section \<open>Accepted input does not panic\<close>

text \<open>A body with a model is an object, so the map is not nil.\<close>

lemma extractModel_object:
  assumes "extractModelFromBody body = Inr m"
  shows "\<exists>kv. unmarshal_map body = Some (Some kv)"
proof (cases "json_parse body")
  case None
  with assms show ?thesis by (simp add: extractModelFromBody_def unmarshal_def)
next
  case (Some v)
  with assms have "v \<noteq> JNull" "\<exists>ms. v = JObj ms"
    by (auto simp: extractModelFromBody_def unmarshal_def dec_struct_def split: json.splits)
  with Some show ?thesis by (auto simp: unmarshal_map_def dec_raw_map_def)
qed

lemma chatLine_no_panic: "unmarshal_map body = Some (Some kv) \<Longrightarrow> chatLineToCF body cid \<noteq> Panics"
  by (simp add: chatLineToCF_def withString_def)

lemma embedLine_no_panic: "unmarshal_map body = Some (Some kv) \<Longrightarrow> embedLineToCF body cid \<noteq> Panics"
  by (simp add: embedLineToCF_def withString_def Let_def split: sum.splits)

lemma translate_no_panic:
  "\<forall>l \<in> set lines. \<exists>kv. unmarshal_map (il_body l) = Some (Some kv) \<Longrightarrow>
   translateBatchRequests endpoint lines \<noteq> Panics"
proof (induction lines)
  case (Cons l ls)
  then obtain kv where kv: "unmarshal_map (il_body l) = Some (Some kv)" by auto
  obtain r where r: "translateBatchRequests endpoint ls = Returns r"
    using Cons by (cases "translateBatchRequests endpoint ls") auto
  show ?case
    using chatLine_no_panic [OF kv, of "il_custom_id l"] embedLine_no_panic [OF kv, of "il_custom_id l"] r
    by (cases "chatLineToCF (il_body l) (il_custom_id l)"; cases "embedLineToCF (il_body l) (il_custom_id l)")
      (auto split: sum.splits)
qed simp

text \<open>A translated line never asks for another model or for streaming, and carries its custom id.\<close>

lemma delete_key [simp]: "map_of (AList.delete k m) k = None"
  by (simp add: delete_conv')

lemma map_of_delete_other: "k' \<noteq> k \<Longrightarrow> map_of (AList.delete k m) k' = map_of m k'"
  by (simp add: delete_conv')

text \<open>The request carries the line: its custom id, and every other member of the body as it stands.\<close>

definition carries :: "input_line \<Rightarrow> string gomap \<Rightarrow> bool" where
  "carries line item \<longleftrightarrow>
     map_of item ''external_reference'' = Some (json_quote (il_custom_id line)) \<and>
     map_of item ''model'' = None \<and> map_of item ''stream'' = None \<and>
     (\<exists>kv. unmarshal_map (il_body line) = Some (Some kv) \<and>
       (\<forall>k. k \<notin> {''model'', ''stream'', ''external_reference''} \<longrightarrow> map_of item k = map_of kv k))"

lemma chatLine_carries:
  assumes "unmarshal_map (il_body line) = Some (Some kv)"
  shows "\<exists>item. chatLineToCF (il_body line) (il_custom_id line) = Returns (Inr item) \<and> carries line item"
  using assms
  by (auto simp: chatLineToCF_def withString_def map_assign_def map_delete_def delete_conv' carries_def)

lemma translate_chat:
  "\<forall>l \<in> set lines. \<exists>kv. unmarshal_map (il_body l) = Some (Some kv) \<Longrightarrow>
   \<exists>items. translateBatchRequests EndpointChatCompletions lines = Returns (Inr items) \<and> list_all2 carries lines items"
proof (induction lines)
  case (Cons l ls)
  then obtain kv items where kv: "unmarshal_map (il_body l) = Some (Some kv)"
    and items: "translateBatchRequests EndpointChatCompletions ls = Returns (Inr items)" "list_all2 carries ls items"
    by auto
  from chatLine_carries [OF kv] obtain item where
    "chatLineToCF (il_body l) (il_custom_id l) = Returns (Inr item)" "carries l item" by blast
  with items show ?case by auto
qed simp

section \<open>Properties\<close>

text \<open>Batch input that was accepted can be submitted to Workers AI without a panic, whatever the
  client, the model and the answers are: every accepted body is an object, so no nil map is written.
  Every line of an accepted chat batch becomes one request with its custom id, without model and
  stream, and with every other member of its body unchanged.\<close>

theorem accepted_input_submits:
  assumes "ParseBatchJSONL raw endpoint = Inr p"
  shows "fst (cf_SubmitBatch tr client ctx model (pi_endpoint p) (pi_lines p) u) \<noteq> Panics \<and>
    (\<exists>items. translateBatchRequests EndpointChatCompletions (pi_lines p) = Returns (Inr items) \<and>
       list_all2 carries (pi_lines p) items)"
proof -
  have ok: "\<forall>l \<in> set (pi_lines p). \<exists>kv. unmarshal_map (il_body l) = Some (Some kv)"
    using ParseBatchJSONL_ok [OF assms] by (auto simp: lines_ok_def intro: extractModel_object)
  then have "translateBatchRequests (pi_endpoint p) (pi_lines p) \<noteq> Panics" by (rule translate_no_panic)
  then have "fst (cf_SubmitBatch tr client ctx model (pi_endpoint p) (pi_lines p) u) \<noteq> Panics"
    by (auto simp: cf_SubmitBatch_def Let_def split: option.splits run.splits sum.splits prod.splits)
  with translate_chat [OF ok] show ?thesis by blast
qed

definition silent :: "unit transport" where
  "silent = \<lparr>tr_request = \<lambda>_. None, tr_send = \<lambda>_ _ _ _ _ u. (Inl (Leaf ''reset''), u)\<rparr>"

theorem accepted_input_submits_witness:
  "fst (cf_SubmitBatch silent (Some \<lparr>cf_api_base = ''b''\<rparr>) None ''@cf/baai/bge-base-en-v1.5'' EndpointEmbeddings
     [\<lparr>il_custom_id = ''a'', il_method = ''post'', il_url = EndpointEmbeddings,
       il_body = ''{\"model\":\"m\",\"input\":1}''\<rparr>] ()) \<noteq> Panics"
  using accepted_input_submits [OF sample_input_accepted, of silent "Some \<lparr>cf_api_base = ''b''\<rparr>" None "''@cf/baai/bge-base-en-v1.5''" "()"]
  by simp

end
