(* ===== verification/Statefile.thy ===== *)
theory Statefile
  imports Timeouts
begin

text \<open>
  \<open>internal/statefile\<close>: atomic replacement of a file (\<open>atomic.go\<close>) and the advisory lock
  beside it (\<open>lock.go\<close>). A disk maps paths to the contents a running process reads; the temp
  files are kept apart, since \<open>os.CreateTemp\<close> never reuses a name and no reader looks at them.
  Beside what processes read, the disk records what has not reached stable storage: files whose
  data is not synced, and directory entries a crash may turn back. Every call into the operating
  system takes the next outcome from a list of faults, so a fact about every list is a fact about
  every pattern of failures. \<open>WriteAtomic\<close> is a small-step machine, one system call per step: a
  crash is a run that stops after any number of steps, and \<open>crash_leaves\<close> is what it may leave at
  a path. The lemmas show that this is what a crash before the write could have left, or the new
  content whole, and that the wait for a lock is bounded.
\<close>

section \<open>The disk\<close>

text \<open>
  Contents are whole values: bytes are cut up only by a write that did not finish or was not
  synced, and what such a write leaves is \<open>Partial\<close> (an empty file, a prefix, blocks of zeros).
  A temp file carries its contents and whether \<open>Sync\<close> has returned for them. \<open>dk_unsynced\<close> are the
  paths whose file was written without a sync, \<open>dk_stale\<close> the contents (\<open>None\<close>: no file) a path had
  before a change of its directory entry that is not synced.
\<close>

datatype 'c data = Partial | Whole 'c

datatype filename = Named string | TempFile nat

record 'c disk =
  dk_files :: "(string \<times> 'c) list"
  dk_temps :: "(nat \<times> 'c data \<times> bool) list"
  dk_next :: nat
  dk_unsynced :: "string list"
  dk_stale :: "(string \<times> 'c data option) list"
  dk_faults :: "goerr option list"

definition os_call :: "'c disk \<Rightarrow> goerr option \<times> 'c disk" where
  "os_call d = (case dk_faults d of [] \<Rightarrow> (None, d) | x # xs \<Rightarrow> (x, d\<lparr>dk_faults := xs\<rparr>))"

definition look :: "'c disk \<Rightarrow> string \<Rightarrow> 'c option" where
  "look d path = map_of (dk_files d) path"

text \<open>Everything the machine may find at \<open>path\<close> when it comes up after a crash.\<close>

definition crash_leaves :: "'c disk \<Rightarrow> string \<Rightarrow> 'c data option list" where
  "crash_leaves d path =
     map_option Whole (look d path) #
     (if path \<in> set (dk_unsynced d) then [Some Partial] else []) @
     map snd (filter (\<lambda>(q, _). q = path) (dk_stale d))"

text \<open>
  The file operations, on any file: writing a named file in place makes its new contents visible at
  once and safe only after a sync, and renaming a file moves its contents as they are, safe or not.
\<close>

definition create_temp :: "nat \<Rightarrow> 'c disk \<Rightarrow> 'c disk" where
  "create_temp t d = d\<lparr>dk_temps := AList.update t (Partial, False) (dk_temps d), dk_next := Suc t\<rparr>"

fun write_file :: "filename \<Rightarrow> 'c \<Rightarrow> 'c disk \<Rightarrow> 'c disk" where
  "write_file (TempFile t) c d = d\<lparr>dk_temps := AList.update t (Whole c, False) (dk_temps d)\<rparr>"
| "write_file (Named p) c d =
     d\<lparr>dk_files := put p c (dk_files d), dk_unsynced := List.insert p (dk_unsynced d)\<rparr>"

fun sync_file :: "filename \<Rightarrow> 'c disk \<Rightarrow> 'c disk" where
  "sync_file (TempFile t) d =
     d\<lparr>dk_temps := (case map_of (dk_temps d) t of
        None \<Rightarrow> dk_temps d | Some (x, _) \<Rightarrow> AList.update t (x, True) (dk_temps d))\<rparr>"
| "sync_file (Named p) d = d\<lparr>dk_unsynced := removeAll p (dk_unsynced d)\<rparr>"

definition rename_temp :: "nat \<Rightarrow> string \<Rightarrow> 'c disk \<Rightarrow> 'c disk" where
  "rename_temp t p d =
     (case map_of (dk_temps d) t of
        None \<Rightarrow> d
      | Some (x, synced) \<Rightarrow>
          d\<lparr>dk_files := (case x of Whole c \<Rightarrow> put p c (dk_files d) | Partial \<Rightarrow> AList.delete p (dk_files d)),
            dk_temps := AList.delete t (dk_temps d),
            dk_unsynced := (if synced \<and> x \<noteq> Partial then removeAll p (dk_unsynced d)
                            else List.insert p (dk_unsynced d)),
            dk_stale := map (Pair p) (crash_leaves d p) @ dk_stale d\<rparr>)"

definition remove_temp :: "nat \<Rightarrow> 'c disk \<Rightarrow> 'c disk" where
  "remove_temp t d = d\<lparr>dk_temps := AList.delete t (dk_temps d)\<rparr>"

text \<open>Only the entry of \<open>p\<close> is taken to be settled by a sync of its directory, which allows more
  crashes than the operating system does.\<close>

definition sync_dir :: "string \<Rightarrow> 'c disk \<Rightarrow> 'c disk" where
  "sync_dir p d = d\<lparr>dk_stale := filter (\<lambda>(q, _). q \<noteq> p) (dk_stale d)\<rparr>"

section \<open>Atomic replacement\<close>

datatype wa_pc =
    PMkdir | PTemp | PChmod | PWrite | PSync | PClose | PRename | PSyncDir | PCleanup derr | PDone
  | PFail derr

record 'c wa_state =
  wa_disk :: "'c disk"
  wa_pc :: wa_pc
  wa_tmp :: nat

definition wa_error :: "goerr \<Rightarrow> string \<Rightarrow> derr" where
  "wa_error e what = err_wrap (Some e) CodeInternal ''statefile.WriteAtomic'' what"

text \<open>A step that makes one system call and, when it fails, goes on to \<open>fail\<close>.\<close>

definition wa_call ::
  "(derr \<Rightarrow> wa_pc) \<Rightarrow> string \<Rightarrow> ('c disk \<Rightarrow> 'c wa_state) \<Rightarrow> 'c wa_state \<Rightarrow> 'c wa_state" where
  "wa_call fail what next s =
     (case os_call (wa_disk s) of
        (Some e, d) \<Rightarrow> s\<lparr>wa_disk := d, wa_pc := fail (wa_error e what)\<rparr>
      | (None, d) \<Rightarrow> next d)"

text \<open>
  A failing \<open>Write\<close> leaves the temp file \<open>Partial\<close>, as \<open>CreateTemp\<close> made it; a failing \<open>Sync\<close> leaves
  it not synced. \<open>PCleanup\<close> is the deferred \<open>Close\<close> and \<open>Remove\<close>, \<open>PSyncDir\<close> the call of \<open>syncDir\<close>,
  whose failure is ignored.
\<close>

definition wa_step :: "string \<Rightarrow> 'c \<Rightarrow> 'c wa_state \<Rightarrow> 'c wa_state" where
  "wa_step path content s =
     (let t = wa_tmp s
      in case wa_pc s of
        PMkdir \<Rightarrow> wa_call PFail ''mkdir'' (\<lambda>d. s\<lparr>wa_disk := d, wa_pc := PTemp\<rparr>) s
      | PTemp \<Rightarrow> wa_call PFail ''temp''
          (\<lambda>d. s\<lparr>wa_disk := create_temp (dk_next d) d, wa_pc := PChmod, wa_tmp := dk_next d\<rparr>) s
      | PChmod \<Rightarrow> wa_call PCleanup ''chmod'' (\<lambda>d. s\<lparr>wa_disk := d, wa_pc := PWrite\<rparr>) s
      | PWrite \<Rightarrow> wa_call PCleanup ''write''
          (\<lambda>d. s\<lparr>wa_disk := write_file (TempFile t) content d, wa_pc := PSync\<rparr>) s
      | PSync \<Rightarrow> wa_call PCleanup ''sync''
          (\<lambda>d. s\<lparr>wa_disk := sync_file (TempFile t) d, wa_pc := PClose\<rparr>) s
      | PClose \<Rightarrow> wa_call PCleanup ''close'' (\<lambda>d. s\<lparr>wa_disk := d, wa_pc := PRename\<rparr>) s
      | PRename \<Rightarrow> wa_call PCleanup ''rename''
          (\<lambda>d. s\<lparr>wa_disk := rename_temp t path d, wa_pc := PSyncDir\<rparr>) s
      | PSyncDir \<Rightarrow>
          s\<lparr>wa_disk := (case os_call (wa_disk s) of (Some _, d) \<Rightarrow> d | (None, d) \<Rightarrow> sync_dir path d),
            wa_pc := PDone\<rparr>
      | PCleanup e \<Rightarrow>
          s\<lparr>wa_disk := (case os_call (wa_disk s) of (Some _, d) \<Rightarrow> d | (None, d) \<Rightarrow> remove_temp t d),
            wa_pc := PFail e\<rparr>
      | PDone \<Rightarrow> s
      | PFail _ \<Rightarrow> s)"

definition wa_init :: "'c disk \<Rightarrow> 'c wa_state" where
  "wa_init d = \<lparr>wa_disk = d, wa_pc = PMkdir, wa_tmp = 0\<rparr>"

text \<open>Nine steps reach the end of every run (\<open>wa_run_ends\<close>).\<close>

definition WriteAtomic :: "string \<Rightarrow> 'c \<Rightarrow> 'c disk \<Rightarrow> goerr option \<times> 'c disk" where
  "WriteAtomic path content d =
     (let s = (wa_step path content ^^ 9) (wa_init d)
      in (case wa_pc s of PFail e \<Rightarrow> Some (DomainErr e) | _ \<Rightarrow> None, wa_disk s))"

text \<open>The states a crash can leave behind.\<close>

inductive wa_reach :: "string \<Rightarrow> 'c \<Rightarrow> 'c disk \<Rightarrow> 'c wa_state \<Rightarrow> bool" for path content d0 where
  wa_start: "wa_reach path content d0 (wa_init d0)"
| wa_next: "wa_reach path content d0 s \<Longrightarrow> wa_reach path content d0 (wa_step path content s)"

section \<open>The lock\<close>

definition lockWait :: int where "lockWait = 30 * ns_second"
definition lockPoll :: int where "lockPoll = 10000000"

definition lockPath :: "string \<Rightarrow> string" where
  "lockPath path = path @ ''.lock''"

text \<open>
  What the operating system and the clock answer: the outcomes of \<open>MkdirAll\<close> and of opening the
  lock file, of the \<open>k\<close>-th \<open>tryLock\<close>, and whether the caller's context is done at the \<open>k\<close>-th
  poll. Poll \<open>k\<close> runs \<open>k\<close> ticks of \<open>lockPoll\<close> after the first.
\<close>

record lock_env =
  le_mkdir :: "goerr option"
  le_open :: "goerr option"
  le_try :: "nat \<Rightarrow> goerr option"
  le_ctx :: "nat \<Rightarrow> sentinel option"

definition ctx_at :: "lock_env \<Rightarrow> nat \<Rightarrow> sentinel option" where
  "ctx_at env k =
     (case le_ctx env k of
        Some s \<Rightarrow> Some s
      | None \<Rightarrow> if lockWait \<le> int k * lockPoll then Some CtxDeadlineExceeded else None)"

lemma ctx_at_deadline: "ctx_at env k = None \<Longrightarrow> k < 3000"
  by (auto simp: ctx_at_def lockWait_def lockPoll_def ns_second_def split: option.splits if_splits)

function lockFile :: "lock_env \<Rightarrow> nat \<Rightarrow> derr option" where
  "lockFile env k =
     (case le_try env k of
        None \<Rightarrow> None
      | Some err \<Rightarrow>
          if \<not> is_sentinel (Some err) LockHeld
          then Some (err_wrap (Some err) CodeInternal ''statefile.lockFile'' ''lock'')
          else case ctx_at env k of
            Some s \<Rightarrow>
              Some (err_wrap (err_join [Some err, Some (Sent s)])
                (if s = CtxCanceled then CodeCanceled else CodeTimeout)
                ''statefile.lockFile'' ''lock wait ended'')
          | None \<Rightarrow> lockFile env (Suc k))"
  by pat_completeness auto
termination
  by (relation "measure (\<lambda>(env, k). 3000 - k)") (auto dest: ctx_at_deadline)

declare lockFile.simps [simp del]

definition WithFileLock ::
  "lock_env \<Rightarrow> go_context option \<Rightarrow> string \<Rightarrow> ('w \<Rightarrow> goerr option \<times> 'w) option \<Rightarrow> 'w \<Rightarrow> goerr option \<times> 'w" where
  "WithFileLock env ctx path fn w =
     (let op = ''statefile.WithFileLock''; lp = lockPath path
      in case (ctx, fn) of
        (Some _, Some f) \<Rightarrow>
          (case le_mkdir env of
             Some e \<Rightarrow> (Some (DomainErr (err_wrap (Some e) CodeInternal op ''mkdir'')), w)
           | None \<Rightarrow>
             (case le_open env of
                Some e \<Rightarrow> (Some (DomainErr (err_wrap (Some e) CodeInternal op ''open lock'')), w)
              | None \<Rightarrow>
                (case lockFile env 0 of
                   Some e \<Rightarrow>
                     (Some (DomainErr (with_field
                        (err_wrap (Some (DomainErr e)) (code_of (Some (DomainErr e))) op ''lock'') ''path'' lp)), w)
                 | None \<Rightarrow> f w)))
      | _ \<Rightarrow> (Some (DomainErr (err_new CodeInvalid op ''context and fn are required'')), w))"

section \<open>Replacement is atomic\<close>

lemma os_call_files [simp]:
  "dk_files (snd (os_call d)) = dk_files d" "dk_temps (snd (os_call d)) = dk_temps d"
  "look (snd (os_call d)) p = look d p"
  by (simp_all add: os_call_def look_def split: list.split)

lemma os_call_pair:
  "os_call d = (r, d') \<Longrightarrow> dk_files d' = dk_files d \<and> dk_temps d' = dk_temps d \<and>
     dk_unsynced d' = dk_unsynced d \<and> dk_stale d' = dk_stale d \<and> (\<forall>p. crash_leaves d' p = crash_leaves d p)"
  by (auto simp: os_call_def crash_leaves_def look_def split: list.splits)

lemma os_call_crash:
  "dk_unsynced (snd (os_call d)) = dk_unsynced d" "dk_stale (snd (os_call d)) = dk_stale d"
  by (simp_all add: os_call_def split: list.split)

lemma os_call_pair':
  "os_call d = (r, d') \<Longrightarrow> dk_faults d = [] \<Longrightarrow> r = None \<and> d' = d"
  by (auto simp: os_call_def split: list.splits)

text \<open>What holds at each point of a run that started on \<open>d0\<close>: up to the rename the files and what a
  crash leaves of them are those of \<open>d0\<close>, and the file to be renamed is complete and synced; the
  rename adds the new content, whole, and nothing else; the directory sync leaves it alone.\<close>

definition wa_inv :: "string \<Rightarrow> 'c \<Rightarrow> 'c disk \<Rightarrow> 'c wa_state \<Rightarrow> bool" where
  "wa_inv path content d0 s \<longleftrightarrow>
     (let d = wa_disk s; temp = map_of (dk_temps d) (wa_tmp s)
      in (if wa_pc s = PSyncDir \<or> wa_pc s = PDone
          then dk_files d = put path content (dk_files d0) \<and>
               dk_unsynced d = removeAll path (dk_unsynced d0) \<and>
               (dk_stale d = map (Pair path) (crash_leaves d0 path) @ dk_stale d0 \<or>
                wa_pc s = PDone \<and> dk_stale d = filter (\<lambda>(q, _). q \<noteq> path) (dk_stale d0)) \<and>
               (dk_faults d0 = [] \<longrightarrow> dk_faults d = [] \<and>
                 (wa_pc s = PDone \<longrightarrow> dk_stale d = filter (\<lambda>(q, _). q \<noteq> path) (dk_stale d0)))
          else dk_files d = dk_files d0 \<and> dk_unsynced d = dk_unsynced d0 \<and> dk_stale d = dk_stale d0 \<and>
               (dk_faults d0 = [] \<longrightarrow> dk_faults d = [] \<and> (\<forall>e. wa_pc s \<noteq> PFail e \<and> wa_pc s \<noteq> PCleanup e))) \<and>
         (wa_pc s = PSync \<longrightarrow> (\<exists>b. temp = Some (Whole content, b))) \<and>
         (wa_pc s \<in> {PClose, PRename} \<longrightarrow> temp = Some (Whole content, True)))"

lemma filter_stale: "filter (\<lambda>(q, _). q \<noteq> p) (map (Pair p) xs @ ys) = filter (\<lambda>(q, _). q \<noteq> p) ys"
  by (induction xs) auto

lemma crash_leaves_cong:
  "dk_files d = dk_files d' \<Longrightarrow> dk_unsynced d = dk_unsynced d' \<Longrightarrow> dk_stale d = dk_stale d' \<Longrightarrow>
   crash_leaves d = crash_leaves d'"
  by (simp add: crash_leaves_def look_def fun_eq_iff)

lemmas wa_step_defs = wa_inv_def wa_step_def wa_call_def Let_def create_temp_def rename_temp_def
  remove_temp_def sync_dir_def update_conv' filter_stale

lemma wa_inv_step: "wa_inv path content d0 s \<Longrightarrow> wa_inv path content d0 (wa_step path content s)"
proof (cases "wa_pc s")
  case PRename
  assume i: "wa_inv path content d0 s"
  obtain r d where c: "os_call (wa_disk s) = (r, d)" by fastforce
  note d = os_call_pair [OF c] os_call_pair' [OF c]
  have l: "crash_leaves d = crash_leaves d0"
    using i d PRename by (intro crash_leaves_cong) (auto simp: wa_inv_def Let_def)
  show ?thesis
  proof (cases r)
    case None
    with i d l PRename c show ?thesis by (auto simp: wa_step_defs)
  next
    case (Some e)
    with i d PRename c show ?thesis by (auto simp: wa_step_defs)
  qed
qed (auto simp: wa_step_defs split: prod.splits option.splits dest: os_call_pair os_call_pair')

lemma wa_reach_inv: "wa_reach path content d0 s \<Longrightarrow> wa_inv path content d0 s"
proof (induction rule: wa_reach.induct)
  case wa_start
  show ?case by (simp add: wa_inv_def wa_init_def)
next
  case (wa_next s)
  then show ?case by (blast intro: wa_inv_step)
qed

text \<open>What the invariant says of readers and of crashes.\<close>

lemma stale_of_path: "map snd (filter (\<lambda>(q, _). q = p) (map (Pair p) xs @ ys)) = xs @ map snd (filter (\<lambda>(q, _). q = p) ys)"
  by (induction xs) auto

lemma stale_elsewhere: "q \<noteq> p \<Longrightarrow> filter (\<lambda>(r, _). r = q) (map (Pair p) xs @ ys) = filter (\<lambda>(r, _). r = q) ys"
  by (induction xs) auto

lemma wa_inv_crash:
  assumes i: "wa_inv path content d s"
  shows "set (crash_leaves (wa_disk s) path) \<subseteq> insert (Some (Whole content)) (set (crash_leaves d path)) \<and>
    (\<forall>q. q \<noteq> path \<longrightarrow> crash_leaves (wa_disk s) q = crash_leaves d q \<and> look (wa_disk s) q = look d q) \<and>
    look (wa_disk s) path \<in> {look d path, Some content} \<and>
    (dk_faults d = [] \<longrightarrow> wa_pc s = PDone \<longrightarrow> crash_leaves (wa_disk s) path = [Some (Whole content)])"
proof (cases "wa_pc s = PSyncDir \<or> wa_pc s = PDone")
  case False
  with i have same: "dk_files (wa_disk s) = dk_files d" "dk_unsynced (wa_disk s) = dk_unsynced d"
      "dk_stale (wa_disk s) = dk_stale d"
    by (simp_all add: wa_inv_def Let_def)
  then have "look (wa_disk s) q = look d q" for q by (simp add: look_def)
  with False crash_leaves_cong [OF same] show ?thesis by auto
next
  case True
  let ?stale = "\<lambda>st. map snd (filter (\<lambda>(q, _). q = path) st)"
  define st where "st = dk_stale (wa_disk s)"
  have new: "crash_leaves (wa_disk s) path = Some (Whole content) # ?stale st"
    using True i by (simp add: wa_inv_def Let_def crash_leaves_def look_def st_def)
  have gone: "?stale (filter (\<lambda>(q, _). q \<noteq> path) xs) = []" for xs :: "(string \<times> 'a data option) list"
    by (induction xs) auto
  from True i have st: "st = map (Pair path) (crash_leaves d path) @ dk_stale d \<or> st = filter (\<lambda>(q, _). q \<noteq> path) (dk_stale d)"
    and settled: "dk_faults d = [] \<Longrightarrow> wa_pc s = PDone \<Longrightarrow> st = filter (\<lambda>(q, _). q \<noteq> path) (dk_stale d)"
    by (simp_all add: wa_inv_def Let_def st_def) blast
  have "set (?stale (dk_stale d)) \<subseteq> set (crash_leaves d path)"
    unfolding crash_leaves_def by (simp only: set_append list.set) blast
  with st have "set (?stale st) \<subseteq> set (crash_leaves d path)"
    by (elim disjE) (simp_all only: stale_of_path gone set_append, simp_all)
  with new settled gone have "set (crash_leaves (wa_disk s) path) \<subseteq> insert (Some (Whole content)) (set (crash_leaves d path)) \<and>
      (dk_faults d = [] \<longrightarrow> wa_pc s = PDone \<longrightarrow> crash_leaves (wa_disk s) path = [Some (Whole content)])"
    by (simp add: subset_insertI2)
  moreover have "crash_leaves (wa_disk s) q = crash_leaves d q \<and> look (wa_disk s) q = look d q" if q: "q \<noteq> path" for q
  proof -
    have "filter (\<lambda>(r, _). r = q) (filter (\<lambda>(r, _). r \<noteq> path) xs) = filter (\<lambda>(r, _). r = q) xs" for xs :: "(string \<times> 'a data option) list"
      using q by (induction xs) auto
    with True i q show ?thesis by (auto simp: wa_inv_def Let_def crash_leaves_def look_def stale_elsewhere)
  qed
  ultimately show ?thesis using True i by (auto simp: wa_inv_def Let_def look_def)
qed

lemma wa_reach_funpow: "wa_reach path content d ((wa_step path content ^^ n) (wa_init d))"
  by (induction n) (auto intro: wa_reach.intros)

text \<open>How many steps are left at most.\<close>

fun wa_left :: "wa_pc \<Rightarrow> nat" where
  "wa_left PMkdir = 9"
| "wa_left PTemp = 8"
| "wa_left PChmod = 7"
| "wa_left PWrite = 6"
| "wa_left PSync = 5"
| "wa_left PClose = 4"
| "wa_left PRename = 3"
| "wa_left PSyncDir = 1"
| "wa_left (PCleanup e) = 1"
| "wa_left PDone = 0"
| "wa_left (PFail e) = 0"

lemma wa_left_step: "wa_left (wa_pc (wa_step path content s)) \<le> wa_left (wa_pc s) - 1"
  by (cases "wa_pc s") (auto simp: wa_step_def wa_call_def Let_def split: prod.splits option.splits)

lemma wa_left_funpow: "wa_left (wa_pc ((wa_step path content ^^ n) s)) \<le> wa_left (wa_pc s) - n"
proof (induction n)
  case (Suc n)
  show ?case using wa_left_step [of path content "(wa_step path content ^^ n) s"] Suc by simp
qed simp

lemma wa_run_ends: "wa_pc ((wa_step path content ^^ 9) (wa_init d)) = PDone \<or>
    (\<exists>e. wa_pc ((wa_step path content ^^ 9) (wa_init d)) = PFail e)"
proof -
  have "wa_left (wa_pc ((wa_step path content ^^ 9) (wa_init d))) \<le> 0"
    using wa_left_funpow [where n = 9 and s = "wa_init d"] by (simp add: wa_init_def del: funpow.simps)
  then show ?thesis
    by (cases "wa_pc ((wa_step path content ^^ 9) (wa_init d))") (simp_all del: funpow.simps)
qed

lemma WriteAtomic_ok: "WriteAtomic path content d = (None, d') \<Longrightarrow> dk_files d' = put path content (dk_files d)"
  using wa_run_ends [of path content d] wa_reach_inv [OF wa_reach_funpow [where path = path and content = content and d = d and n = 9]]
  by (auto simp: WriteAtomic_def Let_def wa_inv_def split: wa_pc.splits simp del: funpow.simps)

lemma WriteAtomic_error: "WriteAtomic path content d = (Some e, d') \<Longrightarrow> dk_files d' = dk_files d"
  using wa_reach_inv [OF wa_reach_funpow [where path = path and content = content and d = d and n = 9]]
  by (auto simp: WriteAtomic_def Let_def wa_inv_def split: wa_pc.splits simp del: funpow.simps)

text \<open>A run without failing calls.\<close>

definition wa_clean :: "'c wa_state \<Rightarrow> bool" where
  "wa_clean s \<longleftrightarrow> dk_faults (wa_disk s) = [] \<and> (\<forall>e. wa_pc s \<noteq> PFail e \<and> wa_pc s \<noteq> PCleanup e)"

lemma wa_clean_step: "wa_clean s \<Longrightarrow> wa_clean (wa_step path content s)"
  by (cases "wa_pc s")
    (auto simp: wa_clean_def wa_step_def wa_call_def os_call_def Let_def create_temp_def rename_temp_def sync_dir_def
      split: option.split data.split)

lemma wa_clean_run: "dk_faults d = [] \<Longrightarrow> wa_clean ((wa_step path content ^^ n) (wa_init d))"
  by (induction n) (simp_all add: wa_clean_step, simp add: wa_clean_def wa_init_def)

lemma WriteAtomic_clean:
  assumes "dk_faults d = []"
  shows "fst (WriteAtomic path content d) = None"
proof -
  define s where "s = (wa_step path content ^^ 9) (wa_init d)"
  have "wa_clean s" using wa_clean_run [OF assms] by (simp only: s_def)
  then have "(case wa_pc s of PFail e \<Rightarrow> Some (DomainErr e) | _ \<Rightarrow> None) = None"
    by (auto simp: wa_clean_def split: wa_pc.splits)
  then show ?thesis by (simp only: WriteAtomic_def Let_def fst_conv s_def)
qed

text \<open>For evaluation: the nine steps written out.\<close>

lemma WriteAtomic_code [code]:
  "WriteAtomic path content d =
     (let f = wa_step path content; s3 = f (f (f (wa_init d))); s6 = f (f (f s3)); s = f (f (f s6))
      in (case wa_pc s of PFail e \<Rightarrow> Some (DomainErr e) | _ \<Rightarrow> None, wa_disk s))"
proof -
  have "(wa_step path content ^^ 9) z = (wa_step path content ^^ 3) ((wa_step path content ^^ 3) ((wa_step path content ^^ 3) z))" for z
    using funpow_add [of 3 6 "wa_step path content"] funpow_add [of 3 3 "wa_step path content"] by (simp del: funpow.simps)
  moreover have "(wa_step path content ^^ 3) z = wa_step path content (wa_step path content (wa_step path content z))" for z
    by (simp add: numeral_3_eq_3)
  ultimately show ?thesis by (simp only: WriteAtomic_def Let_def)
qed

text \<open>The disk after a write that met no failure, and a write refused at its first call.\<close>

lemma os_call_None: "dk_faults d = None # fs \<Longrightarrow> os_call d = (None, d\<lparr>dk_faults := fs\<rparr>)"
  by (simp add: os_call_def)
lemma os_call_Nil: "dk_faults d = [] \<Longrightarrow> os_call d = (None, d)"
  by (simp add: os_call_def)

definition disk_written :: "string \<Rightarrow> 'c \<Rightarrow> 'c disk \<Rightarrow> 'c disk" where
  "disk_written path c d = d\<lparr>dk_files := put path c (dk_files d),
     dk_temps := AList.delete (dk_next d) (AList.update (dk_next d) (Whole c, True)
       (AList.update (dk_next d) (Whole c, False) (AList.update (dk_next d) (Partial, False) (dk_temps d)))),
     dk_next := Suc (dk_next d), dk_unsynced := removeAll path (dk_unsynced d),
     dk_stale := filter (\<lambda>(q, _). q \<noteq> path) (dk_stale d)\<rparr>"

lemma WriteAtomic_clean_run:
  assumes "dk_faults d = replicate 8 None @ fs"
  shows "WriteAtomic path c d = (None, (disk_written path c d)\<lparr>dk_faults := fs\<rparr>)"
proof -
  have f: "dk_faults d = [None, None, None, None, None, None, None, None] @ fs"
    using assms by (simp add: eval_nat_numeral)
  show ?thesis
    unfolding WriteAtomic_code Let_def wa_init_def
    by (simp add: f wa_step_def wa_call_def os_call_None wa_step_defs disk_written_def)
qed

lemma WriteAtomic_quiet:
  assumes "dk_faults d = []"
  shows "WriteAtomic path c d = (None, disk_written path c d)"
    unfolding WriteAtomic_code Let_def wa_init_def
    by (simp add: assms wa_step_def wa_call_def os_call_Nil wa_step_defs disk_written_def)

lemma WriteAtomic_refused:
  assumes "dk_faults d = Some e # fs"
  shows "WriteAtomic path c d = (Some (DomainErr (wa_error e ''mkdir'')), d\<lparr>dk_faults := fs\<rparr>)"
  unfolding WriteAtomic_code Let_def wa_init_def
  by (simp add: assms wa_step_def wa_call_def os_call_def)

section \<open>Writers as an interface\<close>

text \<open>
  What a store asks of the way it writes a record: success makes the new content visible at that
  path and nowhere else, failure changes nothing. A sequence of writes that stops at the first
  error therefore leaves every path it did not name as it was.
\<close>

locale atomic_writer =
  fixes put_file :: "string \<Rightarrow> 'c \<Rightarrow> 'd \<Rightarrow> goerr option \<times> 'd"
    and lookup :: "'d \<Rightarrow> string \<Rightarrow> 'c option"
  assumes write_ok: "put_file p c d = (None, d') \<Longrightarrow> lookup d' q = (if q = p then Some c else lookup d q)"
    and write_error: "put_file p c d = (Some e, d') \<Longrightarrow> lookup d' q = lookup d q"
begin

fun write_all :: "(string \<times> 'c) list \<Rightarrow> 'd \<Rightarrow> goerr option \<times> 'd" where
  "write_all [] d = (None, d)"
| "write_all ((p, c) # ws) d =
     (case put_file p c d of (Some e, d') \<Rightarrow> (Some e, d') | (None, d') \<Rightarrow> write_all ws d')"

lemma write_all_frame:
  "write_all ws d = (r, d') \<Longrightarrow> q \<notin> fst ` set ws \<Longrightarrow> lookup d' q = lookup d q"
proof (induction ws arbitrary: d)
  case (Cons w ws)
  obtain p c where w: "w = (p, c)" by (cases w)
  obtain r1 d1 where r1: "put_file p c d = (r1, d1)" by fastforce
  show ?case
  proof (cases r1)
    case None
    with Cons w r1 write_ok [of p c d d1 q] show ?thesis by auto
  next
    case (Some e)
    with Cons w r1 write_error [of p c d e d1 q] show ?thesis by auto
  qed
qed simp

lemma write_all_done:
  "write_all ws d = (None, d') \<Longrightarrow> distinct (map fst ws) \<Longrightarrow> (p, c) \<in> set ws \<Longrightarrow> lookup d' p = Some c"
proof (induction ws arbitrary: d)
  case (Cons w ws)
  obtain p1 c1 where w: "w = (p1, c1)" by (cases w)
  with Cons.prems(1) obtain d1 where d1: "put_file p1 c1 d = (None, d1)" "write_all ws d1 = (None, d')"
    by (auto split: prod.splits option.splits)
  show ?case
  proof (cases "(p, c) \<in> set ws")
    case False
    with Cons.prems w have "p = p1" "c = c1" "p \<notin> fst ` set ws" by auto
    with write_all_frame [OF d1(2), of p] write_ok [OF d1(1), of p] show ?thesis by simp
  qed (use Cons d1 w in auto)
qed simp

end

interpretation wa: atomic_writer WriteAtomic look
proof (unfold_locales, goal_cases)
  case (1 p c d d' q)
  then show ?case by (simp add: look_def WriteAtomic_ok)
next
  case (2 p c d e d' q)
  then show ?case by (simp add: look_def WriteAtomic_error)
qed

section \<open>Waiting for the lock\<close>

lemma lockFile_held:
  assumes "\<And>k. le_try env k = Some (Sent LockHeld)"
  shows "\<exists>e. lockFile env k = Some e \<and> d_code e \<in> {CodeTimeout, CodeCanceled}"
  using assms
proof (induction env k rule: lockFile.induct)
  case (1 env k)
  show ?case
  proof (cases "ctx_at env k")
    case None
    with 1 show ?thesis by (simp add: lockFile.simps [of env k] is_sentinel_def)
  next
    case (Some s)
    with 1 show ?thesis by (auto simp: lockFile.simps [of env k] is_sentinel_def)
  qed
qed

lemma lockFile_acquired: "lockFile env k = None \<Longrightarrow> k \<le> 3000 \<Longrightarrow> \<exists>j. j \<le> 3000 \<and> le_try env j = None"
proof (induction env k rule: lockFile.induct)
  case (1 env k)
  show ?case
  proof (cases "le_try env k")
    case None
    with 1 show ?thesis by blast
  next
    case (Some err)
    with 1 have "is_sentinel (Some err) LockHeld" "ctx_at env k = None" "lockFile env (Suc k) = None"
      by (auto simp: lockFile.simps [of env k] split: if_splits option.splits)
    with 1 Some ctx_at_deadline [of env k] show ?thesis by simp
  qed
qed

text \<open>A caller either ran the function under the lock or has an error and an unchanged world.\<close>

lemma WithFileLock_cases:
  "WithFileLock env ctx path (Some f) w = f w \<or> (\<exists>e. WithFileLock env ctx path (Some f) w = (Some e, w))"
  by (auto simp: WithFileLock_def Let_def split: option.splits)

definition lock_free :: "lock_env \<Rightarrow> bool" where
  "lock_free env \<longleftrightarrow> le_mkdir env = None \<and> le_open env = None \<and> le_try env 0 = None"

lemma WithFileLock_free: "lock_free env \<Longrightarrow> WithFileLock env (Some ctx) path (Some f) w = f w"
  by (simp add: lock_free_def WithFileLock_def lockFile.simps [of env 0])

definition free_lock :: lock_env where
  "free_lock = \<lparr>le_mkdir = None, le_open = None, le_try = \<lambda>_. None, le_ctx = \<lambda>_. None\<rparr>"

lemma lock_free_free_lock [simp]: "lock_free free_lock"
  by (simp add: lock_free_def free_lock_def)

section \<open>Properties\<close>

text \<open>C24: Wherever \<open>WriteAtomic\<close> is stopped by a crash, and whatever system calls fail, the machine comes
  up with the new content whole at \<open>path\<close>, or with what a crash before the write could have left there;
  at any other path the write changes nothing. Running readers too see the old content or the whole new
  one. A write that ends without a failing call has the new content on stable storage: it is all a
  crash can leave.\<close>

theorem replacement_is_atomic:
  assumes "wa_reach path content d s"
  shows "set (crash_leaves (wa_disk s) path) \<subseteq> insert (Some (Whole content)) (set (crash_leaves d path)) \<and>
    (\<forall>q. q \<noteq> path \<longrightarrow> crash_leaves (wa_disk s) q = crash_leaves d q \<and> look (wa_disk s) q = look d q) \<and>
    look (wa_disk s) path \<in> {look d path, Some content} \<and>
    (dk_faults d = [] \<longrightarrow> wa_pc s = PDone \<longrightarrow> crash_leaves (wa_disk s) path = [Some (Whole content)])"
  using wa_inv_crash [OF wa_reach_inv [OF assms]] .

definition sample_disk :: "string disk" where
  "sample_disk = \<lparr>dk_files = [(''a'', ''old''), (''b'', ''other'')], dk_temps = [], dk_next = 0,
     dk_unsynced = [], dk_stale = [], dk_faults = [None, None, None, None, None, None, None, Some (Leaf ''io'')]\<rparr>"

text \<open>After the rename and before the directory sync a crash leaves the old file or the new one.\<close>

theorem replacement_is_atomic_witness:
  "set (crash_leaves (wa_disk ((wa_step ''a'' ''new'' ^^ 7) (wa_init sample_disk))) ''a'') \<subseteq>
     {Some (Whole ''new''), Some (Whole ''old'')} \<and>
   look (wa_disk ((wa_step ''a'' ''new'' ^^ 7) (wa_init sample_disk))) ''b'' = Some ''other''"
proof -
  have "crash_leaves sample_disk ''a'' = [Some (Whole ''old'')]" "look sample_disk ''b'' = Some ''other''"
    by (simp_all add: sample_disk_def look_def crash_leaves_def)
  with replacement_is_atomic [OF wa_reach_funpow [where n = 7 and path = "''a''" and content = "''new''" and d = sample_disk]]
  show ?thesis by (auto simp del: funpow.simps)
qed

text \<open>The result of \<open>WriteAtomic\<close> is what happened: without an error the file has the new content,
  with one no file changed, and without a failing system call there is no error.\<close>

theorem write_result_is_the_outcome:
  assumes "WriteAtomic path content d = (r, d')"
  shows "(\<forall>q. look d' q = (if r = None \<and> q = path then Some content else look d q)) \<and>
    (dk_faults d = [] \<longrightarrow> r = None)"
proof (intro conjI allI impI)
  show "look d' q = (if r = None \<and> q = path then Some content else look d q)" for q
    using assms wa.write_ok [of path content d d' q] wa.write_error [of path content d _ d' q]
    by (cases r) auto
  show "r = None" if "dk_faults d = []"
    using assms WriteAtomic_clean [OF that, of path content] by simp
qed

theorem write_result_is_the_outcome_witness:
  "\<exists>d'. WriteAtomic ''a'' ''new'' (sample_disk\<lparr>dk_faults := []\<rparr>) = (None, d') \<and>
     look d' ''a'' = Some ''new'' \<and> look d' ''b'' = Some ''other''"
proof -
  let ?d = "sample_disk\<lparr>dk_faults := []\<rparr>"
  obtain r d' where w: "WriteAtomic ''a'' ''new'' ?d = (r, d')" by fastforce
  have "look ?d ''b'' = Some ''other''" "dk_faults ?d = []" by (simp_all add: sample_disk_def look_def)
  with write_result_is_the_outcome [OF w] w show ?thesis by auto
qed

text \<open>\<open>WithFileLock\<close> always returns, and within 3001 attempts: either an attempt took the lock and
  the result is that of the function, run once, or the function has not run and the result is an
  error of the package. When every attempt finds the lock held, the error is a timeout or a
  cancellation.\<close>

theorem lock_guards_the_function:
  "((\<exists>k. k \<le> 3000 \<and> le_try env k = None) \<and> WithFileLock env (Some ctx) path (Some f) w = f w) \<or>
   (\<exists>e. WithFileLock env (Some ctx) path (Some f) w = (Some (DomainErr e), w) \<and>
      (le_mkdir env = None \<longrightarrow> le_open env = None \<longrightarrow> (\<forall>k. le_try env k = Some (Sent LockHeld)) \<longrightarrow>
       d_code e \<in> {CodeTimeout, CodeCanceled}))"
proof (cases "le_mkdir env = None \<and> le_open env = None")
  case ready: True
  show ?thesis
  proof (cases "lockFile env 0")
    case None
    with ready lockFile_acquired [OF None] show ?thesis by (auto simp: WithFileLock_def)
  next
    case (Some e)
    have "d_code e \<in> {CodeTimeout, CodeCanceled}" if "\<forall>k. le_try env k = Some (Sent LockHeld)"
      using lockFile_held [of env 0] that Some by simp
    with ready Some show ?thesis
      by (cases "\<forall>k. le_try env k = Some (Sent LockHeld)") (auto simp: WithFileLock_def Let_def)
  qed
qed (auto simp: WithFileLock_def Let_def split: option.splits)

theorem lock_guards_the_function_witness:
  "\<exists>e. WithFileLock \<lparr>le_mkdir = None, le_open = None, le_try = \<lambda>_. Some (Sent LockHeld), le_ctx = \<lambda>_. None\<rparr>
     (Some \<lparr>ctx_err = None, caller_budget = False\<rparr>) ''store'' (Some (\<lambda>w. (None, Suc w))) 0 = (Some (DomainErr e), 0) \<and>
     d_code e \<in> {CodeTimeout, CodeCanceled}"
  using lock_guards_the_function [of "\<lparr>le_mkdir = None, le_open = None, le_try = \<lambda>_. Some (Sent LockHeld), le_ctx = \<lambda>_. None\<rparr>"
    "\<lparr>ctx_err = None, caller_budget = False\<rparr>" "''store''" "\<lambda>w. (None, Suc w)" 0]
  by auto

end
