(* ===== verification/Batch_Store.thy ===== *)
theory Batch_Store
  imports Batch_Core Statefile
begin

text \<open>
  The store of files and batches, \<open>internal/batch/store.go\<close> and \<open>finalize.go\<close>, on the disk of
  the theory \<open>Statefile\<close>. Paths are relative to the root of the store. A record that the code
  marshals is a typed entry; a metadata file with any other entry is one that does not decode.
  Random text and the clock are read from supplies in the state, and every read, write, listing
  and removal can fail as the disk's faults say. The lemmas frame what each operation may change;
  the properties say what deleting and finalising promise, also when they fail.
\<close>

named_theorems store_simps "what the operations of the store leave readable"

section \<open>The store\<close>

datatype entry = FileMeta file_record | BatchMeta meta | Raw bytes

record store =
  st_root :: string
  st_disk :: "entry disk"
  st_rand :: "nat \<Rightarrow> string"
  st_drawn :: nat
  st_clock :: "nat \<Rightarrow> int"
  st_ticks :: nat

definition st_look :: "store \<Rightarrow> string \<Rightarrow> entry option" where
  "st_look s p = look (st_disk s) p"

text \<open>\<open>filepath.Clean\<close> on a slash-separated path.\<close>

fun clean_parts :: "bool \<Rightarrow> string list \<Rightarrow> string list \<Rightarrow> string list" where
  "clean_parts rooted out [] = rev out"
| "clean_parts rooted out (p # ps) =
     (if p = [] \<or> p = ''.'' then clean_parts rooted out ps
      else if p = ''..'' then
        (case out of
           [] \<Rightarrow> clean_parts rooted (if rooted then [] else [p]) ps
         | q # qs \<Rightarrow> if q = ''..'' then clean_parts rooted (p # out) ps else clean_parts rooted qs ps)
      else clean_parts rooted (p # out) ps)"

definition filepath_clean :: "string \<Rightarrow> string" where
  "filepath_clean path =
     (let rooted = has_prefix path ''/'';
          rest = join ''/'' (clean_parts rooted [] (split_char (CHR ''/'') path))
      in if rooted then ''/'' @ rest else if rest = [] then ''.'' else rest)"

definition root_path :: "store \<Rightarrow> string \<Rightarrow> string" where
  "root_path s p = filepath_clean (st_root s @ ''/'' @ p)"

definition file_meta_path :: "string \<Rightarrow> string" where
  "file_meta_path i = ''files/'' @ i @ ''.json''"
definition file_content_path :: "string \<Rightarrow> string" where
  "file_content_path i = ''files/content/'' @ i"
definition batch_path :: "string \<Rightarrow> string" where
  "batch_path i = ''batches/'' @ i @ ''.json''"
definition lockBase :: string where "lockBase = ''store''"

definition not_ready :: "string \<Rightarrow> goerr" where
  "not_ready op = DomainErr (err_new CodeNotReady op ''not configured'')"

text \<open>A method on a nil store answers \<open>r\<close>.\<close>

definition on_store :: "'r \<Rightarrow> (store \<Rightarrow> 'r \<times> store) \<Rightarrow> store option \<Rightarrow> 'r \<times> store option" where
  "on_store r f s = (case s of None \<Rightarrow> (r, None) | Some st \<Rightarrow> (case f st of (r', st') \<Rightarrow> (r', Some st')))"

text \<open>A call that can only fail: \<open>os.MkdirAll\<close>, or the answer of a read before its content.\<close>

definition st_call :: "store \<Rightarrow> goerr option \<times> store" where
  "st_call s = (case os_call (st_disk s) of (r, d) \<Rightarrow> (r, s\<lparr>st_disk := d\<rparr>))"

fun mkdirs :: "string list \<Rightarrow> store \<Rightarrow> goerr + store" where
  "mkdirs [] s = Inr s"
| "mkdirs (sub # subs) s =
     (case st_call s of
        (Some e, s') \<Rightarrow> Inl (DomainErr (err_wrap (Some e) CodeInternal ''batch.NewDiskStore'' ''mkdir''))
      | (None, s') \<Rightarrow> mkdirs subs s')"

definition NewDiskStore ::
  "string \<Rightarrow> (nat \<Rightarrow> int) option \<Rightarrow> entry disk \<Rightarrow> (nat \<Rightarrow> string) \<Rightarrow> goerr + store" where
  "NewDiskStore root0 now d rand =
     (let root = filepath_clean (trim_space root0)
      in if root = [] then Inl (DomainErr (err_new CodeInvalid ''batch.NewDiskStore'' ''root required''))
         else case now of
           None \<Rightarrow> Inl (DomainErr (err_new CodeInvalid ''batch.NewDiskStore'' ''clock required''))
         | Some clock \<Rightarrow>
             mkdirs [''files'', ''files/content'', ''batches'']
               \<lparr>st_root = root, st_disk = d, st_rand = rand, st_drawn = 0, st_clock = clock, st_ticks = 0\<rparr>)"

definition unixNow :: "store \<Rightarrow> int \<times> store" where
  "unixNow s = (st_clock s (st_ticks s), s\<lparr>st_ticks := Suc (st_ticks s)\<rparr>)"

definition draw_id :: "string \<Rightarrow> store \<Rightarrow> string \<times> store" where
  "draw_id prefix s = (newID prefix (st_rand s (st_drawn s)), s\<lparr>st_drawn := Suc (st_drawn s)\<rparr>)"

text \<open>
  \<open>withWriteLock\<close>: \<open>r0\<close> holds the captured variables before \<open>fn\<close> runs. The error of \<open>fn\<close> is
  returned as it is, that of the lock wrapped.
\<close>

definition withWriteLock ::
  "lock_env \<Rightarrow> go_context option \<Rightarrow> string \<Rightarrow> (store \<Rightarrow> (goerr option \<times> 'r) \<times> store) \<Rightarrow> 'r \<Rightarrow>
   store \<Rightarrow> (goerr option \<times> 'r) \<times> store" where
  "withWriteLock env ctx op fn r0 s =
     (case WithFileLock env ctx (root_path s lockBase)
             (Some (\<lambda>w. case fn (snd w) of (out, s') \<Rightarrow> (None, (out, s')))) ((None, r0), s) of
        (Some e, (out, s')) \<Rightarrow>
          ((Some (DomainErr (err_wrap (Some e) (code_or (Some e) CodeInternal) op ''lock'')), snd out), s')
      | (None, (out, s')) \<Rightarrow> (out, s'))"

section \<open>Reading and writing records\<close>

definition read_entry :: "string \<Rightarrow> store \<Rightarrow> (goerr + entry) \<times> store" where
  "read_entry p s =
     (case st_call s of
        (Some e, s') \<Rightarrow> (Inl e, s')
      | (None, s') \<Rightarrow>
          (case st_look s' p of
             None \<Rightarrow> (Inl (Wrapf ''open'' (Sent FsNotExist)), s')
           | Some c \<Rightarrow> (Inr c, s')))"

definition writeFileAtomic :: "string \<Rightarrow> entry \<Rightarrow> store \<Rightarrow> goerr option \<times> store" where
  "writeFileAtomic p c s =
     (case WriteAtomic p c (st_disk s) of
        (Some e, d) \<Rightarrow>
          (Some (DomainErr (with_field
             (err_wrap (Some e) (code_or (Some e) CodeInternal) ''batch.writeFileAtomic'' ''write'') ''path'' (root_path s p))),
           s\<lparr>st_disk := d\<rparr>)
      | (None, d) \<Rightarrow> (None, s\<lparr>st_disk := d\<rparr>))"

definition readFileMeta :: "string \<Rightarrow> string \<Rightarrow> store \<Rightarrow> (goerr + file_record) \<times> store" where
  "readFileMeta op i s =
     (case read_entry (file_meta_path i) s of
        (Inl e, s') \<Rightarrow>
          (Inl (DomainErr (if is_sentinel (Some e) FsNotExist then err_new CodeNotFound op ''file not found''
                           else err_wrap (Some e) CodeInternal op ''read meta'')), s')
      | (Inr (FileMeta rec), s') \<Rightarrow> (Inr rec, s')
      | (Inr _, s') \<Rightarrow> (Inl (DomainErr (err_wrap (Some json_error) CodeInternal op ''read meta'')), s'))"

definition readBatchMetaUnlocked :: "string \<Rightarrow> store \<Rightarrow> (goerr + meta) \<times> store" where
  "readBatchMetaUnlocked i s =
     (case read_entry (batch_path i) s of
        (Inl e, s') \<Rightarrow> (Inl e, s')
      | (Inr (BatchMeta m), s') \<Rightarrow> (Inr m, s')
      | (Inr _, s') \<Rightarrow> (Inl json_error, s'))"

definition getBatchUnlocked :: "string \<Rightarrow> string \<Rightarrow> store \<Rightarrow> (goerr + meta) \<times> store" where
  "getBatchUnlocked op i s =
     (case readBatchMetaUnlocked i s of
        (Inl e, s') \<Rightarrow>
          (Inl (DomainErr (if is_sentinel (Some e) FsNotExist then err_new CodeNotFound op ''batch not found''
                           else err_wrap (Some e) CodeInternal op ''read'')), s')
      | (Inr m, s') \<Rightarrow> (Inr m, s'))"

definition writeBatchMeta :: "string \<Rightarrow> meta \<Rightarrow> store \<Rightarrow> goerr option \<times> store" where
  "writeBatchMeta op m s =
     (case checkID op (m_id m) of
        Inl e \<Rightarrow> (Some e, s)
      | Inr _ \<Rightarrow> writeFileAtomic (batch_path (m_id m)) (BatchMeta m) s)"

definition readable :: "go_context option \<Rightarrow> string \<Rightarrow> goerr option" where
  "readable ctx op =
     (case ctx of
        None \<Rightarrow> Some (DomainErr (err_new CodeInvalid op ''context required''))
      | Some c \<Rightarrow>
          (case ctx_err c of
             None \<Rightarrow> None
           | Some s \<Rightarrow>
               Some (DomainErr (err_wrap (Some (Sent s))
                 (if s = CtxCanceled then CodeCanceled else CodeTimeout) op ''context done''))))"

section \<open>Files\<close>

definition zero_file :: file_record where
  "zero_file = \<lparr>fr_id = [], fr_object = [], fr_bytes = 0, fr_created_at = 0, fr_filename = [],
     fr_purpose = [], fr_status = []\<rparr>"

definition prepareFileRecordLocked :: "file_record \<Rightarrow> bytes \<Rightarrow> store \<Rightarrow> file_record \<times> store" where
  "prepareFileRecordLocked rec0 content s0 =
     (let (i, s1) = (if fr_id rec0 = [] then draw_id ''file'' s0 else (fr_id rec0, s0));
          (t, s2) = (if fr_created_at rec0 = 0 then unixNow s1 else (fr_created_at rec0, s1))
      in (rec0\<lparr>fr_id := i,
            fr_object := (if fr_object rec0 = [] then ''file'' else fr_object rec0),
            fr_created_at := t,
            fr_status := (if fr_status rec0 = [] then ''processed'' else fr_status rec0),
            fr_bytes := int (length content)\<rparr>, s2))"

definition saveFileUnlocked :: "file_record \<Rightarrow> bytes \<Rightarrow> store \<Rightarrow> goerr option \<times> store" where
  "saveFileUnlocked rec content s =
     (case checkID ''batch.SaveFile'' (fr_id rec) of
        Inl e \<Rightarrow> (Some e, s)
      | Inr _ \<Rightarrow>
          (case writeFileAtomic (file_content_path (fr_id rec)) (Raw content) s of
             (Some e, s') \<Rightarrow> (Some e, s')
           | (None, s') \<Rightarrow> writeFileAtomic (file_meta_path (fr_id rec)) (FileMeta rec) s'))"

definition SaveFile ::
  "lock_env \<Rightarrow> go_context option \<Rightarrow> file_record option \<Rightarrow> bytes \<Rightarrow> store option \<Rightarrow>
   (goerr option \<times> file_record option) \<times> store option" where
  "SaveFile env ctx rec content =
     (case rec of
        None \<Rightarrow> (\<lambda>s. ((Some (not_ready ''batch.SaveFile''), None), s))
      | Some rec0 \<Rightarrow>
          on_store (Some (not_ready ''batch.SaveFile''), rec)
            (withWriteLock env ctx ''batch.SaveFile''
              (\<lambda>s. let (rec1, s1) = prepareFileRecordLocked rec0 content s;
                       (e, s2) = saveFileUnlocked rec1 content s1
                   in ((e, Some rec1), s2)) rec))"

definition GetFile :: "go_context option \<Rightarrow> string \<Rightarrow> store option \<Rightarrow> (goerr + file_record) \<times> store option" where
  "GetFile ctx id0 =
     on_store (Inl (not_ready ''batch.GetFile''))
       (\<lambda>s. case readable ctx ''batch.GetFile'' of
          Some e \<Rightarrow> (Inl e, s)
        | None \<Rightarrow>
            (case checkID ''batch.GetFile'' id0 of
               Inl e \<Rightarrow> (Inl e, s)
             | Inr i \<Rightarrow> readFileMeta ''batch.GetFile'' i s))"

definition ReadFileContent :: "go_context option \<Rightarrow> string \<Rightarrow> store option \<Rightarrow> (goerr + entry) \<times> store option" where
  "ReadFileContent ctx id0 =
     (let op = ''batch.ReadFileContent''
      in on_store (Inl (not_ready op))
       (\<lambda>s. case readable ctx op of
          Some e \<Rightarrow> (Inl e, s)
        | None \<Rightarrow>
            (case checkID op id0 of
               Inl e \<Rightarrow> (Inl e, s)
             | Inr i \<Rightarrow>
                 (case read_entry (file_content_path i) s of
                    (Inr raw, s') \<Rightarrow> (Inr raw, s')
                  | (Inl e, s') \<Rightarrow>
                      (Inl (DomainErr (if is_sentinel (Some e) FsNotExist then err_new CodeNotFound op ''file not found''
                                       else err_wrap (Some e) CodeInternal op ''read content'')), s')))))"

text \<open>\<open>os.Remove\<close>: it fails on a missing path too.\<close>

definition remove_entry :: "string \<Rightarrow> store \<Rightarrow> goerr option \<times> store" where
  "remove_entry p s =
     (case st_call s of
        (Some e, s') \<Rightarrow> (Some e, s')
      | (None, s') \<Rightarrow>
          (case st_look s' p of
             None \<Rightarrow> (Some (Wrapf ''remove'' (Sent FsNotExist)), s')
           | Some _ \<Rightarrow> (None, s'\<lparr>st_disk := (st_disk s')\<lparr>dk_files := AList.delete p (dk_files (st_disk s'))\<rparr>\<rparr>)))"

fun remove_paths :: "string \<Rightarrow> string list \<Rightarrow> store \<Rightarrow> goerr option \<times> store" where
  "remove_paths i [] s = (None, s)"
| "remove_paths i (p # ps) s =
     (case remove_entry p s of
        (r, s') \<Rightarrow>
          if r \<noteq> None \<and> \<not> is_sentinel r FsNotExist
          then (Some (DomainErr (with_field (err_wrap r CodeInternal ''batch.removeFile'' ''remove'') ''file_id'' i)), s')
          else remove_paths i ps s')"

definition removeFileUnlocked :: "string \<Rightarrow> store \<Rightarrow> goerr option \<times> store" where
  "removeFileUnlocked i = remove_paths i [file_meta_path i, file_content_path i]"

section \<open>Batches\<close>

text \<open>The names of the batch directory, sorted as \<open>os.ReadDir\<close> sorts them.\<close>

definition batch_ids :: "store \<Rightarrow> string list" where
  "batch_ids s =
     List.map_filter (\<lambda>p.
         let name = drop (length ''batches/'') p
         in if has_prefix p ''batches/'' \<and> CHR ''/'' \<notin> set name \<and> has_suffix name ''.json''
            then Some (trim_suffix name ''.json'') else None)
       (sorted_keys (dk_files (st_disk s)))"

text \<open>The loop over the batches: \<open>fn\<close> updates the captured variables and says whether to go on.\<close>

fun each_batch_loop ::
  "string \<Rightarrow> (meta \<Rightarrow> 'a \<Rightarrow> 'a \<times> bool) \<Rightarrow> string list \<Rightarrow> 'a \<Rightarrow> store \<Rightarrow> (goerr option \<times> 'a) \<times> store" where
  "each_batch_loop op fn [] a s = ((None, a), s)"
| "each_batch_loop op fn (i # is) a s =
     (case readBatchMetaUnlocked i s of
        (Inl e, s') \<Rightarrow>
          if is_sentinel (Some e) FsNotExist then each_batch_loop op fn is a s'
          else ((Some (DomainErr (with_field (err_wrap (Some e) CodeInternal op ''read batch meta'') ''batch_id'' i)), a), s')
      | (Inr m, s') \<Rightarrow>
          (case fn m a of (a', True) \<Rightarrow> each_batch_loop op fn is a' s' | (a', False) \<Rightarrow> ((None, a'), s')))"

definition eachBatchUnlocked ::
  "string \<Rightarrow> (meta \<Rightarrow> 'a \<Rightarrow> 'a \<times> bool) \<Rightarrow> 'a \<Rightarrow> store \<Rightarrow> (goerr option \<times> 'a) \<times> store" where
  "eachBatchUnlocked op fn a s =
     (case st_call s of
        (Some e, s') \<Rightarrow>
          if is_sentinel (Some e) FsNotExist then ((None, a), s')
          else ((Some (DomainErr (err_wrap (Some e) CodeInternal op ''readdir'')), a), s')
      | (None, s') \<Rightarrow> each_batch_loop op fn (batch_ids s') a s')"

definition references :: "meta \<Rightarrow> string \<Rightarrow> bool" where
  "references m i \<longleftrightarrow> m_input_file_id m = i \<or> m_output_file_id m = i \<or> m_error_file_id m = i"

definition fileReferencedByBatchLocked :: "string \<Rightarrow> store \<Rightarrow> (goerr option \<times> bool) \<times> store" where
  "fileReferencedByBatchLocked i s =
     eachBatchUnlocked ''batch.fileReferencedByBatchLocked''
       (\<lambda>m inUse. (references m i, \<not> references m i)) False s"

definition DeleteFile ::
  "lock_env \<Rightarrow> go_context option \<Rightarrow> string \<Rightarrow> store option \<Rightarrow> goerr option \<times> store option" where
  "DeleteFile env ctx id0 =
     (let op = ''batch.DeleteFile''
      in on_store (Some (not_ready op))
       (\<lambda>s0. case checkID op id0 of
          Inl e \<Rightarrow> (Some e, s0)
        | Inr i \<Rightarrow>
            (case withWriteLock env ctx op
                (\<lambda>s. case readFileMeta op i s of
                   (Inl e, s1) \<Rightarrow> ((Some e, ()), s1)
                 | (Inr _, s1) \<Rightarrow>
                     (case fileReferencedByBatchLocked i s1 of
                        ((Some e, _), s2) \<Rightarrow> ((Some e, ()), s2)
                      | ((None, inUse), s2) \<Rightarrow>
                          if inUse
                          then ((Some (DomainErr (err_new CodeConflict op ''file referenced by a batch'')), ()), s2)
                          else (case removeFileUnlocked i s2 of (r, s3) \<Rightarrow> ((r, ()), s3)))) () s0 of
               ((r, _), s') \<Rightarrow> (r, s'))))"

definition SaveBatch ::
  "lock_env \<Rightarrow> go_context option \<Rightarrow> meta option \<Rightarrow> store option \<Rightarrow> (goerr option \<times> meta option) \<times> store option" where
  "SaveBatch env ctx m s =
     (case m of
        None \<Rightarrow> ((Some (not_ready ''batch.SaveBatch''), None), s)
      | Some m0 \<Rightarrow>
          on_store (Some (not_ready ''batch.SaveBatch''), m)
            (\<lambda>s0. let (i, s1) = (if m_id m0 = [] then draw_id ''batch'' s0 else (m_id m0, s0));
                      (t, s2) = (if m_created_at m0 = 0 then unixNow s1 else (m_created_at m0, s1));
                      m1 = m0\<lparr>m_id := i, m_object := (if m_object m0 = [] then ''batch'' else m_object m0),
                              m_created_at := t\<rparr>
                  in withWriteLock env ctx ''batch.SaveBatch''
                       (\<lambda>s3. case writeBatchMeta ''batch.SaveBatch'' m1 s3 of (e, s4) \<Rightarrow> ((e, Some m1), s4))
                       (Some m1) s2) s)"

definition UpdateBatch ::
  "lock_env \<Rightarrow> go_context option \<Rightarrow> meta \<Rightarrow> store option \<Rightarrow> goerr option \<times> store option" where
  "UpdateBatch env ctx m =
     on_store (Some (not_ready ''batch.UpdateBatch''))
       (\<lambda>s. case checkID ''batch.UpdateBatch'' (m_id m) of
          Inl e \<Rightarrow> (Some e, s)
        | Inr _ \<Rightarrow>
            (case withWriteLock env ctx ''batch.UpdateBatch''
                (\<lambda>s1. case writeBatchMeta ''batch.UpdateBatch'' m s1 of (e, s2) \<Rightarrow> ((e, ()), s2)) () s of
               ((e, _), s') \<Rightarrow> (e, s')))"

definition GetBatch :: "go_context option \<Rightarrow> string \<Rightarrow> store option \<Rightarrow> (goerr + meta) \<times> store option" where
  "GetBatch ctx id0 =
     on_store (Inl (not_ready ''batch.GetBatch''))
       (\<lambda>s. case readable ctx ''batch.GetBatch'' of
          Some e \<Rightarrow> (Inl e, s)
        | None \<Rightarrow>
            (case checkID ''batch.GetBatch'' id0 of
               Inl e \<Rightarrow> (Inl e, s)
             | Inr i \<Rightarrow> getBatchUnlocked ''batch.GetBatch'' i s))"

text \<open>The context is looked at before the listing (\<open>ctxs 0\<close>) and before each batch.\<close>

definition ListBatches :: "(nat \<Rightarrow> go_context option) \<Rightarrow> store option \<Rightarrow> (goerr + meta list) \<times> store option" where
  "ListBatches ctxs =
     (let op = ''batch.ListBatches''
      in on_store (Inl (not_ready op))
       (\<lambda>s. case readable (ctxs 0) op of
          Some e \<Rightarrow> (Inl e, s)
        | None \<Rightarrow>
            (case eachBatchUnlocked op
                (\<lambda>m (out, k, ctxErr).
                   case readable (ctxs k) op of
                     Some e \<Rightarrow> ((out, Suc k, Some e), False)
                   | None \<Rightarrow> ((out @ [m], Suc k, None), True)) ([], 1, None) s of
               ((Some e, _), s') \<Rightarrow> (Inl e, s')
             | ((None, (out, _, Some e)), s') \<Rightarrow> (Inl e, s')
             | ((None, (out, _, None)), s') \<Rightarrow> (Inr out, s'))))"

section \<open>Finalising\<close>

record finalize_patch =
  fp_ok :: bytes
  fp_err :: bytes
  fp_counts :: request_counts
  fp_status :: status
  fp_completed_at :: int
  fp_failed_at :: int
  fp_cancelled_at :: int

definition statusAllowsFinalize :: "status \<Rightarrow> bool" where
  "statusAllowsFinalize st \<longleftrightarrow> st = StatusValidating \<or> st = StatusInProgress \<or> st = StatusCancelling"

definition zero_meta :: meta where
  "zero_meta = \<lparr>m_id = [], m_object = [], m_endpoint = [], m_input_file_id = [], m_output_file_id = [],
     m_error_file_id = [], m_completion_window = [], m_status = OtherStatus [], m_backend_id = [],
     m_public_model = [], m_cf_model = [], m_cf_request_id = [], m_upstream_batch_id = [],
     m_request_counts = \<lparr>rq_total = 0, rq_completed = 0, rq_failed = 0\<rparr>, m_created_at = 0,
     m_in_progress_at = 0, m_completed_at = 0, m_failed_at = 0, m_cancelled_at = 0, m_expires_at = 0\<rparr>"

text \<open>The local functions \<open>save\<close> and \<open>fail\<close>.\<close>

definition finalize_save :: "meta \<Rightarrow> string \<Rightarrow> bytes \<Rightarrow> store \<Rightarrow> (goerr + string) \<times> store" where
  "finalize_save m name content s =
     (case prepareFileRecordLocked (zero_file\<lparr>fr_filename := m_id m @ name, fr_purpose := FilePurposeBatch\<rparr>) content s of
        (rec, s1) \<Rightarrow>
          (case saveFileUnlocked rec content s1 of
             (Some e, s2) \<Rightarrow> (Inl e, s2)
           | (None, s2) \<Rightarrow> (Inr (fr_id rec), s2)))"

fun finalize_fail :: "meta \<Rightarrow> string list \<Rightarrow> goerr option \<Rightarrow> store \<Rightarrow> (goerr option \<times> (meta \<times> bool)) \<times> store" where
  "finalize_fail m [] err s = ((err, (m, False)), s)"
| "finalize_fail m (w # ws) err s =
     (case removeFileUnlocked w s of (r, s') \<Rightarrow> finalize_fail m ws (err_join [err, r]) s')"

text \<open>The output file and then the error file, each only when it has content.\<close>

definition finalize_files ::
  "meta \<Rightarrow> finalize_patch \<Rightarrow> store \<Rightarrow> (goerr option \<times> meta \<times> string list) \<times> store" where
  "finalize_files m patch s =
     (case (if fp_ok patch = [] then (Inr (m_output_file_id m), s) else finalize_save m ''_output.jsonl'' (fp_ok patch) s) of
        (Inl e, s1) \<Rightarrow> ((Some e, m\<lparr>m_output_file_id := []\<rparr>, []), s1)
      | (Inr o1, s1) \<Rightarrow>
          (let m1 = m\<lparr>m_output_file_id := o1\<rparr>; written = (if fp_ok patch = [] then [] else [o1])
           in case (if fp_err patch = [] then (Inr (m_error_file_id m1), s1)
                    else finalize_save m1 ''_error.jsonl'' (fp_err patch) s1) of
                (Inl e, s2) \<Rightarrow> ((Some e, m1\<lparr>m_error_file_id := []\<rparr>, written), s2)
              | (Inr e1, s2) \<Rightarrow>
                  ((None, m1\<lparr>m_error_file_id := e1\<rparr>, written @ (if fp_err patch = [] then [] else [e1])), s2)))"

definition finalizeLocked ::
  "string \<Rightarrow> string \<Rightarrow> finalize_patch \<Rightarrow> store \<Rightarrow> (goerr option \<times> (meta \<times> bool)) \<times> store" where
  "finalizeLocked op i patch s =
     (case getBatchUnlocked op i s of
        (Inl e, s1) \<Rightarrow> ((Some e, (zero_meta, False)), s1)
      | (Inr m, s1) \<Rightarrow>
          if \<not> statusAllowsFinalize (m_status m) then ((None, (m, False)), s1)
          else (case finalize_files (m\<lparr>m_request_counts := fp_counts patch\<rparr>) patch s1 of
             ((Some e, m1, written), s2) \<Rightarrow> finalize_fail m1 written (Some e) s2
           | ((None, m1, written), s2) \<Rightarrow>
               (let m2 = m1\<lparr>m_status := fp_status patch, m_completed_at := fp_completed_at patch,
                           m_failed_at := fp_failed_at patch, m_cancelled_at := fp_cancelled_at patch\<rparr>
                in case writeBatchMeta op m2 s2 of
                     (Some e, s3) \<Rightarrow> finalize_fail m2 written (Some e) s3
                   | (None, s3) \<Rightarrow> ((None, (m2, True)), s3))))"

definition TryFinalizeBatch ::
  "lock_env \<Rightarrow> go_context option \<Rightarrow> string \<Rightarrow> finalize_patch \<Rightarrow> store option \<Rightarrow>
   (goerr option \<times> (meta \<times> bool)) \<times> store option" where
  "TryFinalizeBatch env ctx id0 patch =
     (let op = ''batch.TryFinalizeBatch''
      in on_store (Some (not_ready op), (zero_meta, False))
       (\<lambda>s. case checkID op id0 of
          Inl e \<Rightarrow> ((Some e, (zero_meta, False)), s)
        | Inr i \<Rightarrow> withWriteLock env ctx op (finalizeLocked op i patch) (zero_meta, False) s))"

section \<open>What the operations leave alone\<close>

abbreviation st_files :: "store \<Rightarrow> (string \<times> entry) list" where
  "st_files s \<equiv> dk_files (st_disk s)"

abbreviation st_faults :: "store \<Rightarrow> goerr option list" where
  "st_faults s \<equiv> dk_faults (st_disk s)"

text \<open>The operating system says that a path does not exist only when it does not.\<close>

definition honest :: "store \<Rightarrow> bool" where
  "honest s \<longleftrightarrow> (\<forall>f \<in> set (st_faults s). \<not> is_sentinel f FsNotExist)"

lemma st_call_cases:
  obtains r s' where "st_call s = (r, s')" "st_files s' = st_files s" "honest s \<Longrightarrow> honest s'"
    "honest s \<Longrightarrow> \<not> is_sentinel r FsNotExist" "st_faults s = [] \<Longrightarrow> r = None \<and> s' = s"
proof (cases "st_faults s")
  case Nil
  then show ?thesis by (intro that [of None s]) (simp_all add: st_call_def os_call_def is_sentinel_def)
next
  case (Cons x xs)
  then show ?thesis
    by (intro that [of x "s\<lparr>st_disk := (st_disk s)\<lparr>dk_faults := xs\<rparr>\<rparr>"])
      (simp_all add: st_call_def os_call_def honest_def)
qed

lemma st_call_facts:
  "st_call s = (r, s') \<Longrightarrow> st_files s' = st_files s \<and> (honest s \<longrightarrow> honest s' \<and> \<not> is_sentinel r FsNotExist)"
  by (cases rule: st_call_cases [of s]) auto

lemma read_entry_facts:
  assumes "read_entry p s = (r, s')"
  shows "st_files s' = st_files s \<and> (honest s \<longrightarrow> honest s') \<and>
    (\<forall>c. r = Inr c \<longrightarrow> st_look s p = Some c) \<and>
    (honest s \<longrightarrow> (\<forall>e. r = Inl e \<longrightarrow> is_sentinel (Some e) FsNotExist \<longrightarrow> st_look s p = None))"
  using assms
  by (cases rule: st_call_cases [of s])
    (auto simp: read_entry_def st_look_def look_def split: option.splits)

lemma read_entry_quiet:
  "st_faults s = [] \<Longrightarrow>
   read_entry p s = (case st_look s p of None \<Rightarrow> Inl (Wrapf ''open'' (Sent FsNotExist)) | Some c \<Rightarrow> Inr c, s)"
  by (cases rule: st_call_cases [of s]) (auto simp: read_entry_def split: option.splits)

lemma readFileMeta_facts:
  assumes "readFileMeta op i s = (r, s')"
  shows "st_files s' = st_files s \<and> (honest s \<longrightarrow> honest s') \<and>
    (\<forall>rec. r = Inr rec \<longrightarrow> st_look s (file_meta_path i) = Some (FileMeta rec))"
proof -
  obtain q s1 where q: "read_entry (file_meta_path i) s = (q, s1)" by fastforce
  from read_entry_facts [OF q] assms q show ?thesis
    by (auto simp: readFileMeta_def split: sum.splits entry.splits)
qed

lemma readBatchMeta_facts:
  assumes "readBatchMetaUnlocked i s = (r, s')"
  shows "st_files s' = st_files s \<and> (honest s \<longrightarrow> honest s') \<and>
    (\<forall>m. r = Inr m \<longrightarrow> st_look s (batch_path i) = Some (BatchMeta m)) \<and>
    (honest s \<longrightarrow> (\<forall>e. r = Inl e \<longrightarrow> is_sentinel (Some e) FsNotExist \<longrightarrow> st_look s (batch_path i) = None))"
proof -
  obtain q s1 where q: "read_entry (batch_path i) s = (q, s1)" by fastforce
  from read_entry_facts [OF q] assms q show ?thesis
    by (auto simp: readBatchMetaUnlocked_def is_sentinel_def json_error_def split: sum.splits entry.splits)
qed

lemma getBatch_facts:
  assumes "getBatchUnlocked op i s = (r, s')"
  shows "st_files s' = st_files s \<and> (\<forall>m. r = Inr m \<longrightarrow> st_look s (batch_path i) = Some (BatchMeta m))"
proof -
  obtain q s1 where q: "readBatchMetaUnlocked i s = (q, s1)" by fastforce
  from readBatchMeta_facts [OF q] assms q show ?thesis
    by (auto simp: getBatchUnlocked_def split: sum.splits)
qed

lemma getBatch_quiet:
  "st_faults s = [] \<Longrightarrow> st_look s (batch_path i) = Some (BatchMeta m) \<Longrightarrow> getBatchUnlocked op i s = (Inr m, s)"
  by (simp add: getBatchUnlocked_def readBatchMetaUnlocked_def read_entry_quiet)

lemma write_entry_facts:
  assumes "writeFileAtomic p c s = (r, s')"
  shows "st_files s' = (if r = None then put p c (st_files s) else st_files s)"
proof -
  obtain e d where w: "WriteAtomic p c (st_disk s) = (e, d)" by fastforce
  with assms WriteAtomic_ok [of p c "st_disk s" d] WriteAtomic_error [of p c "st_disk s" _ d]
  show ?thesis by (auto simp: writeFileAtomic_def split: option.splits)
qed

lemma st_look_put: "st_files s' = put p c (st_files s) \<Longrightarrow> st_look s' q = (if q = p then Some c else st_look s q)"
  by (simp add: st_look_def look_def)

lemma st_look_same: "st_files s' = st_files s \<Longrightarrow> st_look s' q = st_look s q"
  by (simp add: st_look_def look_def)

lemma prepare_facts:
  assumes "prepareFileRecordLocked rec0 content s = (rec, s')"
  shows "st_disk s' = st_disk s \<and> fr_bytes rec = int (length content) \<and> fr_filename rec = fr_filename rec0 \<and>
    st_rand s' = st_rand s \<and>
    (if fr_id rec0 = [] then fr_id rec = newID ''file'' (st_rand s (st_drawn s)) \<and> st_drawn s' = Suc (st_drawn s)
     else fr_id rec = fr_id rec0 \<and> st_drawn s' = st_drawn s)"
  using assms
  by (auto simp: prepareFileRecordLocked_def draw_id_def unixNow_def Let_def split: if_splits)

lemma withWriteLock_cases:
  obtains "withWriteLock env ctx op fn r0 s = fn s"
  | e where "withWriteLock env ctx op fn r0 s = ((Some e, r0), s)"
  using WithFileLock_cases [of env ctx "root_path s lockBase"
      "\<lambda>w. case fn (snd w) of (out, s') \<Rightarrow> (None, (out, s'))" "((None, r0), s)"]
  by (auto simp: withWriteLock_def split: prod.splits)

lemma withWriteLock_free: "lock_free env \<Longrightarrow> withWriteLock env (Some ctx) op fn r0 s = fn s"
  by (simp add: withWriteLock_def WithFileLock_free split: prod.splits)

section \<open>Paths\<close>

lemma checkID_chars:
  "checkID op i0 = Inr i \<Longrightarrow> i \<noteq> [] \<and> i = trim_space i0 \<and> (\<forall>c \<in> set i. isIDRune c)"
  by (auto simp: checkID_def Let_def list_all_iff split: if_splits)

lemma slash_no_id: "\<not> isIDRune (CHR ''/'')" "\<not> isIDRune (CHR ''.'')"
proof -
  have "\<not> isIDRune (CHR ''/'') \<and> \<not> isIDRune (CHR ''.'')" by code_simp
  then show "\<not> isIDRune (CHR ''/'')" "\<not> isIDRune (CHR ''.'')" by simp_all
qed

lemma path_inject [simp]:
  "file_meta_path i = file_meta_path j \<longleftrightarrow> i = j" "file_content_path i = file_content_path j \<longleftrightarrow> i = j"
  "batch_path i = batch_path j \<longleftrightarrow> i = j"
  "file_meta_path i \<noteq> batch_path j" "file_content_path i \<noteq> batch_path j"
  "batch_path j \<noteq> file_meta_path i" "batch_path j \<noteq> file_content_path i"
  by (simp_all add: file_meta_path_def file_content_path_def batch_path_def)

lemma meta_content_paths: "CHR ''/'' \<notin> set i \<Longrightarrow> file_meta_path i \<noteq> file_content_path j"
proof
  assume "CHR ''/'' \<notin> set i" and "file_meta_path i = file_content_path j"
  then have "CHR ''/'' \<in> set (i @ ''.json'')"
    by (simp add: file_meta_path_def file_content_path_def)
  with \<open>CHR ''/'' \<notin> set i\<close> show False by simp
qed

lemma checkID_no_slash: "checkID op i0 = Inr i \<Longrightarrow> CHR ''/'' \<notin> set i"
  using checkID_chars slash_no_id by blast

section \<open>Saving and removing files\<close>

lemma saveFile_facts:
  assumes "saveFileUnlocked rec content s = (r, s')"
  shows "(\<forall>q. q \<noteq> file_content_path (fr_id rec) \<longrightarrow> q \<noteq> file_meta_path (fr_id rec) \<longrightarrow> st_look s' q = st_look s q) \<and>
    (r = None \<longrightarrow> CHR ''/'' \<notin> set (trim_space (fr_id rec)) \<and> st_look s' (file_meta_path (fr_id rec)) = Some (FileMeta rec) \<and>
      (CHR ''/'' \<notin> set (fr_id rec) \<longrightarrow> st_look s' (file_content_path (fr_id rec)) = Some (Raw content)))"
proof (cases "checkID ''batch.SaveFile'' (fr_id rec)")
  case (Inl e)
  with assms show ?thesis by (auto simp: saveFileUnlocked_def)
next
  case (Inr i)
  obtain r1 s1 where w1: "writeFileAtomic (file_content_path (fr_id rec)) (Raw content) s = (r1, s1)" by fastforce
  obtain r2 s2 where w2: "writeFileAtomic (file_meta_path (fr_id rec)) (FileMeta rec) s1 = (r2, s2)" by fastforce
  have f: "st_look s1 q = (if r1 = None \<and> q = file_content_path (fr_id rec) then Some (Raw content) else st_look s q)"
    "st_look s2 q = (if r2 = None \<and> q = file_meta_path (fr_id rec) then Some (FileMeta rec) else st_look s1 q)" for q
    using write_entry_facts [OF w1] write_entry_facts [OF w2] by (simp_all add: st_look_def look_def)
  have c: "CHR ''/'' \<notin> set (trim_space (fr_id rec))"
    using checkID_no_slash [OF Inr] checkID_chars [OF Inr] by simp
  have m: "CHR ''/'' \<notin> set (fr_id rec) \<Longrightarrow> file_content_path (fr_id rec) \<noteq> file_meta_path (fr_id rec)"
    using meta_content_paths by metis
  show ?thesis
    using assms w1 w2 Inr c m f by (cases r1) (auto simp: saveFileUnlocked_def)
qed

lemma remove_entry_facts:
  assumes "remove_entry p s = (r, s')"
  shows "(\<forall>q. q \<noteq> p \<longrightarrow> st_look s' q = st_look s q) \<and> (r = None \<longrightarrow> st_look s' p = None) \<and>
    (r \<noteq> None \<longrightarrow> st_look s' p = st_look s p) \<and>
    (honest s \<longrightarrow> honest s' \<and> (is_sentinel r FsNotExist \<longrightarrow> st_look s' p = None))"
  using assms
  by (cases rule: st_call_cases [of s])
    (auto simp: remove_entry_def st_look_def look_def delete_conv' honest_def split: option.splits)

lemma remove_paths_facts:
  assumes "remove_paths i ps s = (r, s')"
  shows "(\<forall>q. q \<notin> set ps \<longrightarrow> st_look s' q = st_look s q) \<and>
    (honest s \<longrightarrow> honest s' \<and> (r = None \<longrightarrow> (\<forall>q \<in> set ps. st_look s' q = None)))"
  using assms
proof (induction ps arbitrary: s)
  case (Cons p ps)
  obtain r1 s1 where r1: "remove_entry p s = (r1, s1)" by fastforce
  note f = remove_entry_facts [OF r1]
  show ?case
  proof (cases "r1 \<noteq> None \<and> \<not> is_sentinel r1 FsNotExist")
    case True
    with Cons.prems r1 f show ?thesis by auto
  next
    case False
    with Cons.prems r1 have "remove_paths i ps s1 = (r, s')" by (auto split: if_splits)
    from Cons.IH [OF this] f False show ?thesis
      by (auto simp: is_sentinel_def split: option.splits)
  qed
qed simp

lemmas removeFile_facts =
  remove_paths_facts [where ps = "[file_meta_path i, file_content_path i]" and i = i for i,
    folded removeFileUnlocked_def]

section \<open>The scan of the batches\<close>

lemma batch_ids_mem:
  assumes "st_look s (batch_path i) \<noteq> None" and "CHR ''/'' \<notin> set i"
  shows "i \<in> set (batch_ids s)"
proof -
  have "batch_path i \<in> set (sorted_keys (st_files s))"
    using assms(1) by (auto simp: st_look_def look_def dest: map_of_mem)
  moreover have "drop (length ''batches/'') (batch_path i) = i @ ''.json''"
    by (simp add: batch_path_def)
  moreover have "has_prefix (batch_path i) ''batches/''"
    unfolding batch_path_def by (rule has_prefix_append)
  ultimately show ?thesis
    using assms(2) by (force simp: batch_ids_def map_filter_def Let_def)
qed

lemma each_batch_keeps:
  "each_batch_loop op fn is a s = ((r, a'), s') \<Longrightarrow> st_files s' = st_files s \<and> (honest s \<longrightarrow> honest s')"
proof (induction op fn "is" a s rule: each_batch_loop.induct)
  case (2 op fn i "is" a s)
  obtain q s1 where q: "readBatchMetaUnlocked i s = (q, s1)" by fastforce
  note f = readBatchMeta_facts [OF q]
  show ?case
    using 2 q f by (cases q) (auto split: if_splits prod.splits bool.splits)
qed simp

text \<open>A scan for references that finds none has read every batch that is there.\<close>

lemma each_batch_no_reference:
  assumes "each_batch_loop op (\<lambda>m inUse. (references m i, \<not> references m i)) is a s = ((None, False), s')"
    and "honest s" and "b \<in> set is" and "st_look s (batch_path b) = Some (BatchMeta m)"
  shows "\<not> references m i"
  using assms
proof (induction "is" arbitrary: a s)
  case (Cons b1 bs)
  obtain q s1 where q: "readBatchMetaUnlocked b1 s = (q, s1)" by fastforce
  note f = readBatchMeta_facts [OF q]
  have look: "st_look s1 p = st_look s p" for p using f by (intro st_look_same) simp
  show ?case
  proof (cases q)
    case (Inl e)
    with Cons.prems(1) q have "is_sentinel (Some e) FsNotExist"
      and rest: "each_batch_loop op (\<lambda>m inUse. (references m i, \<not> references m i)) bs a s1 = ((None, False), s')"
      by (auto split: if_splits)
    with f Inl Cons.prems have "b \<noteq> b1" by auto
    with Cons.IH [OF rest] Cons.prems f look show ?thesis by simp
  next
    case (Inr m1)
    with Cons.prems(1) q have "\<not> references m1 i"
      and rest: "each_batch_loop op (\<lambda>m inUse. (references m i, \<not> references m i)) bs False s1 = ((None, False), s')"
      by (auto split: bool.splits)
    with f Inr Cons.prems Cons.IH [OF rest] look show ?thesis by (cases "b = b1") auto
  qed
qed simp

lemma fileReferenced_facts:
  assumes "fileReferencedByBatchLocked i s = ((r, inUse), s')"
  shows "st_files s' = st_files s \<and> (honest s \<longrightarrow> honest s') \<and>
    (honest s \<and> r = None \<and> \<not> inUse \<longrightarrow>
      (\<forall>b m. CHR ''/'' \<notin> set b \<longrightarrow> st_look s (batch_path b) = Some (BatchMeta m) \<longrightarrow> \<not> references m i))"
proof -
  obtain c s1 where c1: "st_call s = (c, s1)" by fastforce
  note c = c1 st_call_facts [OF c1, THEN conjunct1]
    and h = st_call_facts [OF c1, THEN conjunct2, rule_format]
  show ?thesis
  proof (cases c)
    case None
    with assms c have l: "each_batch_loop ''batch.fileReferencedByBatchLocked''
        (\<lambda>m inUse. (references m i, \<not> references m i)) (batch_ids s1) False s1 = ((r, inUse), s')"
      by (simp add: fileReferencedByBatchLocked_def eachBatchUnlocked_def)
    have "\<not> references m i" if "honest s" "r = None" "\<not> inUse" "CHR ''/'' \<notin> set b"
      "st_look s (batch_path b) = Some (BatchMeta m)" for b m
    proof (rule each_batch_no_reference)
      show "each_batch_loop ''batch.fileReferencedByBatchLocked''
        (\<lambda>m inUse. (references m i, \<not> references m i)) (batch_ids s1) False s1 = ((None, False), s')"
        using l that by simp
      show "honest s1" using h that by simp
      show "st_look s1 (batch_path b) = Some (BatchMeta m)" using that st_look_same [OF c(2)] by simp
      then show "b \<in> set (batch_ids s1)" using that by (intro batch_ids_mem) simp_all
    qed
    with each_batch_keeps [OF l] c h show ?thesis by auto
  next
    case (Some e)
    with assms c h show ?thesis
      by (auto simp: fileReferencedByBatchLocked_def eachBatchUnlocked_def split: if_splits)
  qed
qed

section \<open>Steps of a finalisation\<close>

text \<open>The random texts of the next draws are base32 and give different file ids.\<close>

definition rand_text :: "string \<Rightarrow> bool" where
  "rand_text t \<longleftrightarrow> (\<forall>c \<in> set t. between (CHR ''A'') (CHR ''Z'') c \<or> between (CHR ''2'') (CHR ''7'') c)"

definition next_file_id :: "store \<Rightarrow> nat \<Rightarrow> string" where
  "next_file_id s k = newID ''file'' (st_rand s (st_drawn s + k))"

definition fresh_draws :: "store \<Rightarrow> bool" where
  "fresh_draws s \<longleftrightarrow> rand_text (st_rand s (st_drawn s)) \<and> rand_text (st_rand s (Suc (st_drawn s))) \<and>
     next_file_id s 0 \<noteq> next_file_id s 1"

lemma rand_text_no_slash: "rand_text t \<Longrightarrow> CHR ''/'' \<notin> set (newID ''file'' t)"
proof
  assume r: "rand_text t" and "CHR ''/'' \<in> set (newID ''file'' t)"
  then obtain c where c: "c \<in> set t" "lower_char c = CHR ''/''"
    by (auto simp: newID_def to_lower_def)
  have "\<forall>c. between (CHR ''A'') (CHR ''Z'') c \<or> between (CHR ''2'') (CHR ''7'') c \<longrightarrow> lower_char c \<noteq> CHR ''/''"
    by code_simp
  with r c show False by (auto simp: rand_text_def)
qed

lemma write_entry_supplies: "writeFileAtomic p c s = (r, s') \<Longrightarrow> st_rand s' = st_rand s \<and> st_drawn s' = st_drawn s"
  by (auto simp: writeFileAtomic_def split: prod.splits option.splits)

lemma saveFile_supplies: "saveFileUnlocked rec c s = (r, s') \<Longrightarrow> st_rand s' = st_rand s \<and> st_drawn s' = st_drawn s"
  by (auto simp: saveFileUnlocked_def split: sum.splits prod.splits option.splits dest!: write_entry_supplies)

lemma read_supplies: "getBatchUnlocked op i s = (r, s') \<Longrightarrow> st_rand s' = st_rand s \<and> st_drawn s' = st_drawn s"
  by (auto simp: getBatchUnlocked_def readBatchMetaUnlocked_def read_entry_def st_call_def
      split: sum.splits prod.splits option.splits entry.splits)

lemma finalize_save_facts:
  assumes "finalize_save m name content s = (r, s')"
  shows "st_rand s' = st_rand s \<and> st_drawn s' = Suc (st_drawn s) \<and>
    (\<forall>q. q \<noteq> file_content_path (next_file_id s 0) \<longrightarrow> q \<noteq> file_meta_path (next_file_id s 0) \<longrightarrow>
       st_look s' q = st_look s q) \<and>
    (\<forall>w. r = Inr w \<longrightarrow> w = next_file_id s 0 \<and>
       (\<exists>rec. st_look s' (file_meta_path w) = Some (FileMeta rec) \<and> fr_id rec = w \<and> fr_bytes rec = int (length content)) \<and>
       (CHR ''/'' \<notin> set w \<longrightarrow> st_look s' (file_content_path w) = Some (Raw content)))"
proof -
  obtain rec s1 where p: "prepareFileRecordLocked (zero_file\<lparr>fr_filename := m_id m @ name, fr_purpose := FilePurposeBatch\<rparr>)
    content s = (rec, s1)" by fastforce
  obtain e s2 where w: "saveFileUnlocked rec content s1 = (e, s2)" by fastforce
  have "fr_id rec = next_file_id s 0" "st_rand s1 = st_rand s" "st_drawn s1 = Suc (st_drawn s)" "st_disk s1 = st_disk s"
    "fr_bytes rec = int (length content)"
    using prepare_facts [OF p] by (simp_all add: zero_file_def next_file_id_def)
  moreover from this have "st_look s1 q = st_look s q" for q by (simp add: st_look_def)
  ultimately show ?thesis
    using assms p w saveFile_facts [OF w] saveFile_supplies [OF w]
    by (auto simp: finalize_save_def split: option.splits)
qed

lemma finalize_files_facts:
  assumes "finalize_files m patch s = ((r, m1, written), s')"
  shows "m1 = m\<lparr>m_output_file_id := m_output_file_id m1, m_error_file_id := m_error_file_id m1\<rparr> \<and>
    set written \<subseteq> {next_file_id s 0, next_file_id s 1} \<and>
    (\<forall>q. (\<forall>w \<in> {next_file_id s 0, next_file_id s 1}. q \<noteq> file_content_path w \<and> q \<noteq> file_meta_path w) \<longrightarrow>
       st_look s' q = st_look s q) \<and>
    (r = None \<and> fresh_draws s \<longrightarrow>
       (if fp_ok patch = [] then m_output_file_id m1 = m_output_file_id m
        else st_look s' (file_content_path (m_output_file_id m1)) = Some (Raw (fp_ok patch))) \<and>
       (if fp_err patch = [] then m_error_file_id m1 = m_error_file_id m
        else st_look s' (file_content_path (m_error_file_id m1)) = Some (Raw (fp_err patch))))"
proof -
  obtain q1 s1 where f1: "(if fp_ok patch = [] then (Inr (m_output_file_id m), s)
    else finalize_save m ''_output.jsonl'' (fp_ok patch) s) = (q1, s1)" by fastforce
  show ?thesis
  proof (cases q1)
    case (Inl e)
    then have "fp_ok patch \<noteq> []" "finalize_save m ''_output.jsonl'' (fp_ok patch) s = (Inl e, s1)"
      using f1 by (auto split: if_splits)
    with finalize_save_facts [OF this(2)] assms f1 Inl show ?thesis by (auto simp: finalize_files_def)
  next
    case (Inr o1)
    let ?m1 = "m\<lparr>m_output_file_id := o1\<rparr>"
    obtain q2 s2 where f2: "(if fp_err patch = [] then (Inr (m_error_file_id ?m1), s1)
      else finalize_save ?m1 ''_error.jsonl'' (fp_err patch) s1) = (q2, s2)" by fastforce
    have n: "CHR ''/'' \<notin> set (next_file_id s 0) \<and> CHR ''/'' \<notin> set (next_file_id s 1) \<and>
        next_file_id s 0 \<noteq> next_file_id s 1" if "fresh_draws s"
      using that by (auto simp: fresh_draws_def next_file_id_def rand_text_no_slash)
    have g1: "if fp_ok patch = [] then s1 = s \<and> o1 = m_output_file_id m
      else next_file_id s1 0 = next_file_id s 1 \<and> o1 = next_file_id s 0 \<and>
        (\<forall>q. q \<noteq> file_content_path o1 \<longrightarrow> q \<noteq> file_meta_path o1 \<longrightarrow> st_look s1 q = st_look s q) \<and>
        (CHR ''/'' \<notin> set o1 \<longrightarrow> st_look s1 (file_content_path o1) = Some (Raw (fp_ok patch)))"
      using f1 Inr finalize_save_facts [of m "''_output.jsonl''" "fp_ok patch" s "Inr o1" s1]
      by (auto simp: next_file_id_def split: if_splits)
    have g2: "if fp_err patch = [] then s2 = s1 \<and> q2 = Inr (m_error_file_id m)
      else (\<forall>q. q \<noteq> file_content_path (next_file_id s1 0) \<longrightarrow> q \<noteq> file_meta_path (next_file_id s1 0) \<longrightarrow>
          st_look s2 q = st_look s1 q) \<and>
        (\<forall>w. q2 = Inr w \<longrightarrow> w = next_file_id s1 0 \<and>
          (CHR ''/'' \<notin> set w \<longrightarrow> st_look s2 (file_content_path w) = Some (Raw (fp_err patch))))"
      using f2 finalize_save_facts [of ?m1 "''_error.jsonl''" "fp_err patch" s1 q2 s2]
      by (auto split: if_splits)
    show ?thesis
    proof (cases q2)
      case (Inl e)
      with assms f1 \<open>q1 = Inr o1\<close> f2 g1 g2 show ?thesis
        by (auto simp: finalize_files_def Let_def split: if_splits)
    next
      case (Inr e1)
      have "r = None" "m1 = ?m1\<lparr>m_error_file_id := e1\<rparr>" "s' = s2"
        "written = (if fp_ok patch = [] then [] else [o1]) @ (if fp_err patch = [] then [] else [e1])"
        using assms f1 \<open>q1 = Inr o1\<close> f2 Inr by (auto simp: finalize_files_def Let_def)
      moreover have "file_content_path o1 \<noteq> file_meta_path (next_file_id s 1)" if "fresh_draws s"
        using meta_content_paths [of "next_file_id s 1" o1] n [OF that] by metis
      ultimately show ?thesis using g1 g2 n Inr by (auto split: if_splits)
    qed
  qed
qed

lemma finalize_fail_facts:
  assumes "finalize_fail m ws err s = (out, s')"
  shows "(\<exists>e. out = (e, (m, False)) \<and> (err \<noteq> None \<longrightarrow> e \<noteq> None)) \<and>
    (\<forall>q. (\<forall>w \<in> set ws. q \<noteq> file_content_path w \<and> q \<noteq> file_meta_path w) \<longrightarrow> st_look s' q = st_look s q)"
  using assms
proof (induction ws arbitrary: err s)
  case (Cons w ws)
  obtain r s1 where r: "removeFileUnlocked w s = (r, s1)" by fastforce
  have "err \<noteq> None \<Longrightarrow> err_join [err, r] \<noteq> None"
    by (auto simp: err_join_def map_filter_def split: list.splits)
  with Cons.IH [of "err_join [err, r]" s1] Cons.prems r removeFile_facts [OF r] show ?case by auto
qed auto

text \<open>What a finalisation under the lock does, whichever way it ends.\<close>

lemma finalizeLocked_facts:
  assumes "finalizeLocked op i patch s = ((e, (m', applied)), s')"
  shows "(\<forall>q. (\<forall>w \<in> {next_file_id s 0, next_file_id s 1}. q \<noteq> file_content_path w \<and> q \<noteq> file_meta_path w) \<longrightarrow>
         (applied \<longrightarrow> q \<noteq> batch_path (m_id m')) \<longrightarrow> st_look s' q = st_look s q) \<and>
    (applied \<longrightarrow> e = None \<and> m_status m' = fp_status patch \<and> m_request_counts m' = fp_counts patch \<and>
       st_look s' (batch_path (m_id m')) = Some (BatchMeta m') \<and>
       (\<exists>m. st_look s (batch_path i) = Some (BatchMeta m) \<and> m_id m' = m_id m \<and> statusAllowsFinalize (m_status m) \<and>
         (fresh_draws s \<longrightarrow>
           (if fp_ok patch = [] then m_output_file_id m' = m_output_file_id m
            else st_look s' (file_content_path (m_output_file_id m')) = Some (Raw (fp_ok patch))) \<and>
           (if fp_err patch = [] then m_error_file_id m' = m_error_file_id m
            else st_look s' (file_content_path (m_error_file_id m')) = Some (Raw (fp_err patch)))))) \<and>
    (\<not> applied \<and> e = None \<longrightarrow>
       st_look s (batch_path i) = Some (BatchMeta m') \<and> \<not> statusAllowsFinalize (m_status m') \<and>
       (\<forall>q. st_look s' q = st_look s q))"
proof -
  obtain g s1 where g: "getBatchUnlocked op i s = (g, s1)" by fastforce
  note gf = getBatch_facts [OF g] read_supplies [OF g]
  have look1: "st_look s1 q = st_look s q" for q using gf by (intro st_look_same) simp
  have ids: "next_file_id s1 k = next_file_id s k" for k using gf by (simp add: next_file_id_def)
  have fresh: "fresh_draws s1 = fresh_draws s" using gf ids by (simp add: fresh_draws_def)
  show ?thesis
  proof (cases g)
    case (Inl err)
    with assms g look1 show ?thesis by (auto simp: finalizeLocked_def)
  next
    case (Inr m)
    show ?thesis
    proof (cases "statusAllowsFinalize (m_status m)")
      case False
      with assms g Inr look1 gf show ?thesis by (auto simp: finalizeLocked_def)
    next
      case True
      obtain r m1 ws s2 where ff: "finalize_files (m\<lparr>m_request_counts := fp_counts patch\<rparr>) patch s1 = ((r, m1, ws), s2)"
        by (cases "finalize_files (m\<lparr>m_request_counts := fp_counts patch\<rparr>) patch s1") auto
      note f = finalize_files_facts [OF ff, unfolded ids fresh]
      let ?m2 = "m1\<lparr>m_status := fp_status patch, m_completed_at := fp_completed_at patch,
                    m_failed_at := fp_failed_at patch, m_cancelled_at := fp_cancelled_at patch\<rparr>"
      have sel: "m_id m1 = m_id m" "m_request_counts m1 = fp_counts patch"
        using arg_cong [OF conjunct1 [OF f], of m_id] arg_cong [OF conjunct1 [OF f], of m_request_counts] by simp_all
      obtain w s3 where w: "writeBatchMeta op ?m2 s2 = (w, s3)" by fastforce
      have wf: "st_look s3 q = (if w = None \<and> q = batch_path (m_id m) then Some (BatchMeta ?m2) else st_look s2 q)" for q
        using w sel by (auto simp: writeBatchMeta_def st_look_def look_def split: sum.splits dest!: write_entry_facts)
      show ?thesis
      proof (cases r)
        case (Some err)
        then have "finalize_fail m1 ws (Some err) s2 = ((e, (m', applied)), s')"
          using assms g Inr True ff by (simp add: finalizeLocked_def)
        note ff1 = finalize_fail_facts [OF this]
        have "st_look s' q = st_look s q"
          if "\<forall>w \<in> {next_file_id s 0, next_file_id s 1}. q \<noteq> file_content_path w \<and> q \<noteq> file_meta_path w" for q
        proof -
          have "\<forall>w \<in> set ws. q \<noteq> file_content_path w \<and> q \<noteq> file_meta_path w" using f that by blast
          with ff1 have "st_look s' q = st_look s2 q" by simp
          also have "st_look s2 q = st_look s1 q" using f that by simp
          finally show ?thesis by (simp add: look1)
        qed
        with ff1 show ?thesis by auto
      next
        case None
        show ?thesis
        proof (cases w)
          case (Some err)
          then have "finalize_fail ?m2 ws (Some err) s3 = ((e, (m', applied)), s')"
            using assms g Inr True ff None w by (simp add: finalizeLocked_def)
          from finalize_fail_facts [OF this] f look1 wf Some show ?thesis by auto
        next
          case wNone: None
          then have "e = None" "m' = ?m2" "applied" "s' = s3"
            using assms g Inr True ff None w by (simp_all add: finalizeLocked_def)
          with f look1 wf wNone None True Inr gf sel show ?thesis by auto
        qed
      qed
    qed
  qed
qed

text \<open>The same for the operation that callers use.\<close>

lemma TryFinalize_cases:
  assumes "TryFinalizeBatch env ctx i0 patch (Some s) = ((e, (m', applied)), s'')"
  obtains i s' where "checkID ''batch.TryFinalizeBatch'' i0 = Inr i"
      "finalizeLocked ''batch.TryFinalizeBatch'' i patch s = ((e, (m', applied)), s')" "s'' = Some s'"
  | "\<not> applied" "e \<noteq> None" "s'' = Some s"
proof (cases "checkID ''batch.TryFinalizeBatch'' i0")
  case (Inl err)
  with assms that show ?thesis by (auto simp: TryFinalizeBatch_def on_store_def)
next
  case (Inr i)
  show ?thesis
    by (rule withWriteLock_cases [of env ctx "''batch.TryFinalizeBatch''"
          "finalizeLocked ''batch.TryFinalizeBatch'' i patch" "(zero_meta, False)" s])
      (use assms that Inr in \<open>auto simp: TryFinalizeBatch_def on_store_def Let_def split: prod.splits\<close>)
qed

text \<open>With the lock free, the operation is the locked part.\<close>

lemma TryFinalize_free:
  "lock_free env \<Longrightarrow> checkID ''batch.TryFinalizeBatch'' i0 = Inr i \<Longrightarrow>
   TryFinalizeBatch env (Some ctx) i0 patch (Some s) =
     (case finalizeLocked ''batch.TryFinalizeBatch'' i patch s of (out, s') \<Rightarrow> (out, Some s'))"
  by (simp add: TryFinalizeBatch_def on_store_def withWriteLock_free Let_def)

section \<open>Finalising without failures\<close>

lemma rand_text_id: "rand_text t \<Longrightarrow> checkID op (newID ''file'' t) = Inr (newID ''file'' t)"
proof -
  assume r: "rand_text t"
  have "\<forall>c. between (CHR ''A'') (CHR ''Z'') c \<or> between (CHR ''2'') (CHR ''7'') c \<longrightarrow>
      isIDRune (lower_char c) \<and> graphic (lower_char c)" by code_simp
  with r have l: "isIDRune (lower_char c)" "graphic (lower_char c)" if "c \<in> set t" for c
    using that by (auto simp: rand_text_def)
  have f: "list_all isIDRune ''file_'' \<and> graphic (CHR ''f'') \<and> graphic (CHR ''_'')" by code_simp
  let ?n = "''file_'' @ map lower_char t"
  have n: "newID ''file'' t = ?n" by (simp add: newID_def to_lower_def)
  have "graphic (last ?n)" using f l [of "last t"] by (cases "t = []") (simp_all add: last_map)
  then have "trim_space ?n = ?n" using f by (intro trim_space_id) simp
  moreover have "list_all isIDRune ?n" using f l by (auto simp: list_all_iff)
  ultimately show ?thesis unfolding n by (simp add: checkID_def)
qed

lemma write_entry_quiet:
  "st_faults s = [] \<Longrightarrow> writeFileAtomic p c s = (None, s\<lparr>st_disk := disk_written p c (st_disk s)\<rparr>)"
  by (simp add: writeFileAtomic_def WriteAtomic_quiet)

lemma disk_written_faults [simp]: "dk_faults (disk_written p c d) = dk_faults d"
  by (simp add: disk_written_def)

lemma finalize_save_quiet:
  assumes "st_faults s = []" and "rand_text (st_rand s (st_drawn s))"
  shows "\<exists>s'. finalize_save m name content s = (Inr (next_file_id s 0), s') \<and> st_faults s' = []"
  using assms
  by (simp add: finalize_save_def prepareFileRecordLocked_def draw_id_def unixNow_def zero_file_def Let_def
      saveFileUnlocked_def rand_text_id write_entry_quiet next_file_id_def)

lemma finalize_files_quiet:
  assumes "st_faults s = []" and "fresh_draws s"
  shows "\<exists>m' ws s'. finalize_files m patch s = ((None, m', ws), s') \<and> st_faults s' = []"
proof -
  have r: "rand_text (st_rand s (st_drawn s))" "rand_text (st_rand s (Suc (st_drawn s)))"
    using assms(2) by (simp_all add: fresh_draws_def)
  obtain s1 where s1: "finalize_save m ''_output.jsonl'' (fp_ok patch) s = (Inr (next_file_id s 0), s1)" "st_faults s1 = []"
    using finalize_save_quiet [OF assms(1) r(1)] by blast
  with finalize_save_facts [OF s1(1)] r have r1: "rand_text (st_rand s1 (st_drawn s1))" by simp
  show ?thesis
  proof (cases "fp_ok patch = []")
    case True
    then show ?thesis
      using finalize_save_quiet [OF assms(1) r(1), of "m" "''_error.jsonl''" "fp_err patch"] assms(1)
      by (auto simp: finalize_files_def)
  next
    case False
    then show ?thesis
      using s1 finalize_save_quiet [OF s1(2) r1, of "m\<lparr>m_output_file_id := next_file_id s 0\<rparr>" "''_error.jsonl''" "fp_err patch"]
      by (auto simp: finalize_files_def Let_def)
  qed
qed

lemma finalizeLocked_quiet:
  assumes "st_faults s = []" and "st_look s (batch_path i) = Some (BatchMeta m)" and "statusAllowsFinalize (m_status m)"
    and "fresh_draws s" and "checkID op (m_id m) = Inr j"
  shows "\<exists>m' s'. finalizeLocked op i patch s = ((None, (m', True)), s') \<and> m_id m' = m_id m"
proof -
  obtain m1 ws s1 where f: "finalize_files (m\<lparr>m_request_counts := fp_counts patch\<rparr>) patch s = ((None, m1, ws), s1)"
    "st_faults s1 = []" using finalize_files_quiet [OF assms(1,4)] by blast
  have "m_id m1 = m_id m"
    using arg_cong [OF conjunct1 [OF finalize_files_facts [OF f(1)]], of m_id] by simp
  with assms f show ?thesis
    by (simp add: finalizeLocked_def getBatch_quiet writeBatchMeta_def write_entry_quiet Let_def)
qed

text \<open>The run in which the ninth call after the read fails: the first of the write of the metadata.\<close>

lemma finalizeLocked_orphan:
  assumes "st_faults s = replicate 9 None @ [Some err]" and "st_look s (batch_path i) = Some (BatchMeta m)"
    and "statusAllowsFinalize (m_status m)" and "rand_text (st_rand s (st_drawn s))" and "fp_ok patch \<noteq> []"
  shows "\<exists>e m' s'. finalizeLocked op i patch s = ((Some e, (m', False)), s') \<and>
    st_files s' = put (file_content_path (next_file_id s 0)) (Raw (fp_ok patch)) (st_files s)"
proof -
  let ?s1 = "s\<lparr>st_disk := (st_disk s)\<lparr>dk_faults := replicate 8 None @ [Some err]\<rparr>\<rparr>"
  have c: "st_call s = (None, ?s1)"
    using assms(1) by (simp add: st_call_def os_call_def eval_nat_numeral)
  have "st_look ?s1 q = st_look s q" for q by (simp add: st_look_def look_def)
  with c assms(2) have g: "getBatchUnlocked op i s = (Inr m, ?s1)"
    by (simp add: getBatchUnlocked_def readBatchMetaUnlocked_def read_entry_def)
  let ?c = "Raw (fp_ok patch)" and ?p = "file_content_path (newID ''file'' (st_rand s (st_drawn s)))"
  have w: "WriteAtomic ?p ?c (st_disk s\<lparr>dk_faults := replicate 8 None @ [Some err]\<rparr>) =
      (None, (disk_written ?p ?c (st_disk s\<lparr>dk_faults := replicate 8 None @ [Some err]\<rparr>))\<lparr>dk_faults := [Some err]\<rparr>)"
    by (intro WriteAtomic_clean_run) simp
  have fs: "\<exists>e s2. finalize_save m1 name (fp_ok patch) ?s1 = (Inl e, s2) \<and> st_files s2 = put ?p ?c (st_files s)" for m1 name
    using assms(4) w
    by (simp add: finalize_save_def prepareFileRecordLocked_def draw_id_def unixNow_def zero_file_def Let_def
        saveFileUnlocked_def rand_text_id writeFileAtomic_def WriteAtomic_refused disk_written_def)
  obtain e s2 where s2: "finalize_save (m\<lparr>m_request_counts := fp_counts patch\<rparr>) ''_output.jsonl'' (fp_ok patch) ?s1 = (Inl e, s2)"
    "st_files s2 = put ?p ?c (st_files s)" using fs by blast
  show ?thesis
    using g assms(3,5) s2 by (simp add: finalizeLocked_def finalize_files_def next_file_id_def)
qed

section \<open>What a caller sees of the store\<close>

lemma UpdateBatch_facts:
  assumes "UpdateBatch env ctx m (Some s) = (r, s'')"
  shows "\<exists>s'. s'' = Some s' \<and>
    (\<forall>q. st_look s' q = (if r = None \<and> q = batch_path (m_id m) then Some (BatchMeta m) else st_look s q))"
proof (cases "checkID ''batch.UpdateBatch'' (m_id m)")
  case (Inl e)
  with assms show ?thesis by (auto simp: UpdateBatch_def on_store_def)
next
  case (Inr i)
  let ?fn = "\<lambda>s1. case writeBatchMeta ''batch.UpdateBatch'' m s1 of (e, s2) \<Rightarrow> ((e, ()), s2)"
  obtain e s1 where w: "writeFileAtomic (batch_path (m_id m)) (BatchMeta m) s = (e, s1)" by fastforce
  then have f: "?fn s = ((e, ()), s1)" using Inr by (simp add: writeBatchMeta_def)
  have l: "st_look s1 q = (if e = None \<and> q = batch_path (m_id m) then Some (BatchMeta m) else st_look s q)" for q
    using write_entry_facts [OF w] by (simp add: st_look_def look_def)
  show ?thesis
    by (rule withWriteLock_cases [of env ctx "''batch.UpdateBatch''" ?fn "()" s])
      (use assms Inr f l in \<open>auto simp: UpdateBatch_def on_store_def\<close>)
qed

lemma UpdateBatch_quiet:
  assumes "st_faults s = []" and "lock_free env" and "checkID ''batch.UpdateBatch'' (m_id m) = Inr i"
  shows "\<exists>s'. UpdateBatch env (Some ctx) m (Some s) = (None, Some s')"
  using assms
  by (simp add: UpdateBatch_def on_store_def withWriteLock_free writeBatchMeta_def write_entry_quiet)

lemma GetBatch_facts:
  assumes "GetBatch ctx i (Some s) = (r, s'')"
  shows "\<exists>s'. s'' = Some s' \<and> (\<forall>q. st_look s' q = st_look s q) \<and>
    (\<forall>m. r = Inr m \<longrightarrow> st_look s (batch_path (trim_space i)) = Some (BatchMeta m))"
proof -
  obtain g s1 where g: "getBatchUnlocked ''batch.GetBatch'' (trim_space i) s = (g, s1)" by fastforce
  have "st_look s1 q = st_look s q" for q using getBatch_facts [OF g] by (intro st_look_same) simp
  with assms g getBatch_facts [OF g] show ?thesis
    using checkID_chars by (auto simp: GetBatch_def on_store_def split: option.splits sum.splits)
qed

lemma TryFinalize_batches:
  assumes "TryFinalizeBatch env ctx i patch (Some s) = ((e, (m', applied)), s'')"
  shows "\<exists>s'. s'' = Some s' \<and>
    (\<not> applied \<longrightarrow> (\<forall>b. st_look s' (batch_path b) = st_look s (batch_path b))) \<and>
    (applied \<longrightarrow> e = None \<and> m_status m' = fp_status patch \<and> st_look s' (batch_path (m_id m')) = Some (BatchMeta m'))"
  using assms
proof (cases rule: TryFinalize_cases)
  case (1 i s')
  then show ?thesis using finalizeLocked_facts [OF 1(2)] by auto
qed auto

lemma SaveBatch_facts:
  assumes "SaveBatch env ctx (Some m) (Some s) = ((r, m'), s'')"
  shows "\<exists>s' m1. s'' = Some s' \<and> m' = Some m1 \<and> m_status m1 = m_status m \<and> m_backend_id m1 = m_backend_id m \<and>
    (\<forall>q. st_look s' q = (if r = None \<and> q = batch_path (m_id m1) then Some (BatchMeta m1) else st_look s q))"
proof -
  obtain i s1 where i: "(if m_id m = [] then draw_id ''batch'' s else (m_id m, s)) = (i, s1)" by fastforce
  obtain t s2 where t: "(if m_created_at m = 0 then unixNow s1 else (m_created_at m, s1)) = (t, s2)" by fastforce
  have d: "st_look s2 q = st_look s q" for q
    using i t by (auto simp: draw_id_def unixNow_def st_look_def split: if_splits)
  let ?m = "m\<lparr>m_id := i, m_object := (if m_object m = [] then ''batch'' else m_object m), m_created_at := t\<rparr>"
  let ?fn = "\<lambda>s3. case writeBatchMeta ''batch.SaveBatch'' ?m s3 of (e, s4) \<Rightarrow> ((e, Some ?m), s4)"
  obtain e s3 where w: "writeBatchMeta ''batch.SaveBatch'' ?m s2 = (e, s3)" by fastforce
  have l: "st_look s3 q = (if e = None \<and> q = batch_path i then Some (BatchMeta ?m) else st_look s q)" for q
    using w d by (auto simp: writeBatchMeta_def st_look_def look_def split: sum.splits dest!: write_entry_facts)
  show ?thesis
    by (rule withWriteLock_cases [of env ctx "''batch.SaveBatch''" ?fn "Some ?m" s2])
      (use assms i t w l d in \<open>auto simp: SaveBatch_def on_store_def split: prod.splits\<close>)
qed

section \<open>Deleting\<close>

text \<open>The body of \<open>DeleteFile\<close> under the lock.\<close>

lemma delete_locked_facts:
  assumes "(case readFileMeta op i s of
       (Inl e, s1) \<Rightarrow> ((Some e, ()), s1)
     | (Inr _, s1) \<Rightarrow>
         (case fileReferencedByBatchLocked i s1 of
            ((Some e, _), s2) \<Rightarrow> ((Some e, ()), s2)
          | ((None, inUse), s2) \<Rightarrow>
              if inUse then ((Some err, ()), s2)
              else (case removeFileUnlocked i s2 of (r, s3) \<Rightarrow> ((r, ()), s3)))) = ((r, u), s')"
    and "honest s"
  shows "(\<forall>q. q \<noteq> file_meta_path i \<longrightarrow> q \<noteq> file_content_path i \<longrightarrow> st_look s' q = st_look s q) \<and>
    (r = None \<longrightarrow> st_look s' (file_meta_path i) = None \<and> st_look s' (file_content_path i) = None) \<and>
    ((\<exists>b m. CHR ''/'' \<notin> set b \<and> st_look s (batch_path b) = Some (BatchMeta m) \<and> references m i) \<longrightarrow>
       r \<noteq> None \<and> (\<forall>q. st_look s' q = st_look s q))"
proof -
  obtain g s1 where g: "readFileMeta op i s = (g, s1)" by fastforce
  note gf = readFileMeta_facts [OF g]
  have l1: "st_look s1 q = st_look s q" for q using gf by (intro st_look_same) simp
  obtain e inUse s2 where c: "fileReferencedByBatchLocked i s1 = ((e, inUse), s2)"
    by (cases "fileReferencedByBatchLocked i s1") auto
  note cf = fileReferenced_facts [OF c]
  have l2: "st_look s2 q = st_look s q" for q using st_look_same [OF conjunct1 [OF cf], of q] l1 by simp
  obtain r3 s3 where d: "removeFileUnlocked i s2 = (r3, s3)" by fastforce
  note df = removeFile_facts [OF d]
  show ?thesis
  proof (cases g)
    case (Inl e1)
    with assms(1) g have "r = Some e1" "s' = s1" by simp_all
    with l1 show ?thesis by simp
  next
    case (Inr rec)
    have b: "(case e of Some e \<Rightarrow> ((Some e, ()), s2)
        | None \<Rightarrow> if inUse then ((Some err, ()), s2) else ((r3, ()), s3)) = ((r, u), s')"
      using assms(1) unfolding g Inr prod.case sum.case c d by (cases e) auto
    show ?thesis
    proof (cases "e = None \<and> \<not> inUse")
      case True
      with b have "r = r3" "s' = s3" by simp_all
      with df cf gf l1 l2 assms(2) True show ?thesis by auto
    next
      case False
      with b have "r \<noteq> None" "s' = s2" by (cases e; auto split: if_splits)+
      with l2 show ?thesis by auto
    qed
  qed
qed

section \<open>Properties\<close>

definition sample_meta :: meta where
  "sample_meta = zero_meta\<lparr>m_id := ''batch_1'', m_object := ''batch'', m_input_file_id := ''file_in'',
     m_status := StatusInProgress\<rparr>"

definition sample_files :: "(string \<times> entry) list" where
  "sample_files =
     [(batch_path ''batch_1'', BatchMeta sample_meta),
      (file_meta_path ''file_in'', FileMeta (zero_file\<lparr>fr_id := ''file_in''\<rparr>)),
      (file_content_path ''file_in'', Raw ''{}'')]"

definition sample_store :: "goerr option list \<Rightarrow> store" where
  "sample_store faults = \<lparr>st_root = ''/b'',
     st_disk = \<lparr>dk_files = sample_files, dk_temps = [], dk_next = 0, dk_unsynced = [], dk_stale = [], dk_faults = faults\<rparr>,
     st_rand = \<lambda>n. if n = 0 then ''AAAA'' else ''BBBB'', st_drawn = 0, st_clock = \<lambda>_. 1000, st_ticks = 0\<rparr>"

definition alive :: go_context where
  "alive = \<lparr>ctx_err = None, caller_budget = False\<rparr>"

definition sample_patch :: finalize_patch where
  "sample_patch = \<lparr>fp_ok = ''ok'', fp_err = ''err'', fp_counts = \<lparr>rq_total = 2, rq_completed = 1, rq_failed = 1\<rparr>,
     fp_status = StatusCompleted, fp_completed_at = 5, fp_failed_at = 0, fp_cancelled_at = 0\<rparr>"

lemma sample_store_fresh: "fresh_draws (sample_store fs)"
proof -
  have "rand_text ''AAAA'' \<and> rand_text ''BBBB'' \<and> newID ''file'' ''AAAA'' \<noteq> newID ''file'' ''BBBB''" by code_simp
  then show ?thesis by (simp add: fresh_draws_def next_file_id_def sample_store_def)
qed

lemma sample_check: "checkID op ''batch_1'' = Inr ''batch_1''" "checkID op ''file_in'' = Inr ''file_in''"
proof -
  have "checkID [] ''batch_1'' = Inr ''batch_1'' \<and> checkID [] ''file_in'' = Inr ''file_in''" by code_simp
  then show "checkID op ''batch_1'' = Inr ''batch_1''" "checkID op ''file_in'' = Inr ''file_in''"
    by (auto simp: checkID_def Let_def split: if_splits)
qed

lemma sample_finalize:
  obtains m' s' where "TryFinalizeBatch free_lock (Some alive) ''batch_1'' sample_patch (Some (sample_store [])) =
    ((None, (m', True)), Some s')" "m_id m' = ''batch_1''"
proof -
  have "st_look (sample_store []) (batch_path ''batch_1'') = Some (BatchMeta sample_meta)" "st_faults (sample_store []) = []"
    by (simp_all add: st_look_def look_def sample_store_def sample_files_def)
  moreover have "statusAllowsFinalize (m_status sample_meta)" "m_id sample_meta = ''batch_1''"
    by (simp_all add: sample_meta_def statusAllowsFinalize_def)
  ultimately show ?thesis
    using finalizeLocked_quiet [of "sample_store []" "''batch_1''" sample_meta "''batch.TryFinalizeBatch''" "''batch_1''" sample_patch]
      sample_store_fresh sample_check that
    by (auto simp: TryFinalize_free [OF lock_free_free_lock sample_check(1)])
qed

text \<open>A finalisation that was applied found an open batch, stored its final status and counts, and
  its output and error files hold exactly the content given; every other batch is as before. The
  next two random texts are assumed to be base32 and different.\<close>

theorem finalize_stores_the_outcome:
  assumes "TryFinalizeBatch env ctx i0 patch (Some s) = ((e, (m', True)), s'')" and "fresh_draws s"
  shows "\<exists>s' m. s'' = Some s' \<and> e = None \<and> st_look s (batch_path (trim_space i0)) = Some (BatchMeta m) \<and>
    statusAllowsFinalize (m_status m) \<and> m_id m' = m_id m \<and>
    m_status m' = fp_status patch \<and> m_request_counts m' = fp_counts patch \<and>
    st_look s' (batch_path (m_id m)) = Some (BatchMeta m') \<and>
    (fp_ok patch \<noteq> [] \<longrightarrow> st_look s' (file_content_path (m_output_file_id m')) = Some (Raw (fp_ok patch))) \<and>
    (fp_err patch \<noteq> [] \<longrightarrow> st_look s' (file_content_path (m_error_file_id m')) = Some (Raw (fp_err patch))) \<and>
    (\<forall>b. b \<noteq> m_id m \<longrightarrow> st_look s' (batch_path b) = st_look s (batch_path b))"
  using assms(1)
proof (cases rule: TryFinalize_cases)
  case (1 i s')
  then show ?thesis
    using finalizeLocked_facts [OF 1(2)] assms(2) checkID_chars [OF 1(1)] by (auto split: if_splits)
qed simp

theorem finalize_stores_the_outcome_witness:
  "\<exists>m' s'. st_look s' (batch_path ''batch_1'') = Some (BatchMeta m') \<and> m_status m' = StatusCompleted \<and>
     st_look s' (file_content_path (m_output_file_id m')) = Some (Raw ''ok'') \<and>
     st_look s' (file_content_path (m_error_file_id m')) = Some (Raw ''err'')"
proof (rule sample_finalize)
  fix m' s' assume f: "TryFinalizeBatch free_lock (Some alive) ''batch_1'' sample_patch (Some (sample_store [])) =
    ((None, (m', True)), Some s')" and i: "m_id m' = ''batch_1''"
  from finalize_stores_the_outcome [OF f sample_store_fresh]
  show ?thesis unfolding i [symmetric] by (intro exI [of _ m'] exI [of _ s']) (auto simp: sample_patch_def)
qed

text \<open>Finalising gets done: when no system call fails and the lock is free, an open batch whose
  record carries a valid id is finalised.\<close>

theorem open_batch_is_finalized:
  assumes "st_faults s = []" and "lock_free env" and "checkID ''batch.TryFinalizeBatch'' i0 = Inr i"
    and "st_look s (batch_path i) = Some (BatchMeta m)" and "statusAllowsFinalize (m_status m)"
    and "fresh_draws s" and "checkID ''batch.TryFinalizeBatch'' (m_id m) = Inr j"
  shows "\<exists>m' s'. TryFinalizeBatch env (Some ctx) i0 patch (Some s) = ((None, (m', True)), Some s')"
  using finalizeLocked_quiet [OF assms(1,4,5,6,7), of patch]
  by (auto simp: TryFinalize_free [OF assms(2,3)])

theorem open_batch_is_finalized_witness:
  "\<exists>m' s'. TryFinalizeBatch free_lock (Some alive) ''batch_1'' sample_patch (Some (sample_store [])) = ((None, (m', True)), Some s')"
proof (rule open_batch_is_finalized)
  show "st_faults (sample_store []) = []" "lock_free free_lock" "fresh_draws (sample_store [])"
    by (simp_all add: sample_store_fresh) (simp add: sample_store_def)
  show "checkID ''batch.TryFinalizeBatch'' ''batch_1'' = Inr ''batch_1''" by (rule sample_check)
  show "st_look (sample_store []) (batch_path ''batch_1'') = Some (BatchMeta sample_meta)"
    by (simp add: st_look_def look_def sample_store_def sample_files_def)
  show "statusAllowsFinalize (m_status sample_meta)" by (simp add: sample_meta_def statusAllowsFinalize_def)
  show "checkID ''batch.TryFinalizeBatch'' (m_id sample_meta) = Inr ''batch_1''"
    by (simp add: sample_meta_def sample_check)
qed

text \<open>A finalisation that was not applied, whatever went wrong, leaves the metadata of every batch
  as it was and touches no file but the new ones; without an error it changes nothing at all and
  reports the stored batch, which was not open.\<close>

theorem unapplied_finalize_keeps_batches:
  assumes "TryFinalizeBatch env ctx i0 patch (Some s) = ((e, (m', False)), s'')"
  shows "\<exists>s'. s'' = Some s' \<and> (\<forall>b. st_look s' (batch_path b) = st_look s (batch_path b)) \<and>
    (\<forall>w. w \<noteq> next_file_id s 0 \<longrightarrow> w \<noteq> next_file_id s 1 \<longrightarrow> CHR ''/'' \<notin> set w \<longrightarrow>
       CHR ''/'' \<notin> set (next_file_id s 0 @ next_file_id s 1) \<longrightarrow>
       st_look s' (file_meta_path w) = st_look s (file_meta_path w) \<and>
       st_look s' (file_content_path w) = st_look s (file_content_path w)) \<and>
    (e = None \<longrightarrow> st_look s (batch_path (trim_space i0)) = Some (BatchMeta m') \<and>
       \<not> statusAllowsFinalize (m_status m') \<and> (\<forall>q. st_look s' q = st_look s q))"
  using assms
proof (cases rule: TryFinalize_cases)
  case (1 i s')
  have "file_content_path w \<noteq> file_meta_path v" if "CHR ''/'' \<notin> set v" for v w
    using meta_content_paths [OF that] by metis
  with 1 finalizeLocked_facts [OF 1(2)] checkID_chars [OF 1(1)] meta_content_paths show ?thesis by auto
qed auto

theorem unapplied_finalize_keeps_batches_witness:
  "\<exists>e m' s'. TryFinalizeBatch free_lock (Some alive) ''b/1'' sample_patch (Some (sample_store [])) = ((e, (m', False)), Some s') \<and>
     e \<noteq> None \<and> st_look s' (batch_path ''batch_1'') = Some (BatchMeta sample_meta)"
proof -
  have "\<exists>e. checkID ''batch.TryFinalizeBatch'' ''b/1'' = Inl e"
  proof -
    have "Sum_Type.isl (checkID ''batch.TryFinalizeBatch'' ''b/1'')" by code_simp
    then show ?thesis by (cases "checkID ''batch.TryFinalizeBatch'' ''b/1''") simp_all
  qed
  then obtain e where f: "TryFinalizeBatch free_lock (Some alive) ''b/1'' sample_patch (Some (sample_store [])) =
      ((Some e, (zero_meta, False)), Some (sample_store []))"
    by (auto simp: TryFinalizeBatch_def on_store_def)
  have "st_look (sample_store []) (batch_path ''batch_1'') = Some (BatchMeta sample_meta)"
    by (simp add: st_look_def look_def sample_store_def sample_files_def)
  with unapplied_finalize_keeps_batches [OF f] f show ?thesis by auto
qed

text \<open>
  What may happen to a store without a write of the record of batch \<open>i\<close> by its id: finalisations of
  any batch, updates and creations of other batches, uploads, deletions of files and reads. In a
  store the code wrote, a record lies under its own id (\<open>writeBatchMeta\<close>).
\<close>

inductive other_step :: "string \<Rightarrow> store \<Rightarrow> store \<Rightarrow> bool" for i where
  finalize: "TryFinalizeBatch env ctx j patch (Some s) = (r, Some s') \<Longrightarrow> other_step i s s'"
| update: "UpdateBatch env ctx m (Some s) = (r, Some s') \<Longrightarrow> m_id m \<noteq> i \<Longrightarrow> other_step i s s'"
| create: "SaveBatch env ctx (Some m) (Some s) = ((r, Some m1), Some s') \<Longrightarrow> m_id m1 \<noteq> i \<Longrightarrow> other_step i s s'"
| upload: "SaveFile env ctx rec content (Some s) = (r, Some s') \<Longrightarrow> other_step i s s'"
| delete: "DeleteFile env ctx f (Some s) = (r, Some s') \<Longrightarrow> other_step i s s'"
| read: "st_files s' = st_files s \<Longrightarrow> other_step i s s'"

definition named :: "store \<Rightarrow> bool" where
  "named s \<longleftrightarrow> (\<forall>b m. st_look s (batch_path b) = Some (BatchMeta m) \<longrightarrow> m_id m = b)"

lemma on_store_Some: "\<exists>r t. on_store r0 f (Some s) = (r, Some t)"
  by (cases "f s") (simp add: on_store_def)

lemma SaveFile_batches:
  assumes "SaveFile env ctx rec content (Some s) = (r, Some s')"
  shows "st_look s' (batch_path b) = st_look s (batch_path b)"
proof (cases rec)
  case (Some rec0)
  let ?fn = "\<lambda>s. let (rec1, s1) = prepareFileRecordLocked rec0 content s; (e, s2) = saveFileUnlocked rec1 content s1
    in ((e, Some rec1), s2)"
  obtain rec1 s1 where p: "prepareFileRecordLocked rec0 content s = (rec1, s1)" by fastforce
  obtain e s2 where v: "saveFileUnlocked rec1 content s1 = (e, s2)" by fastforce
  have "st_look s1 q = st_look s q" for q using prepare_facts [OF p] by (simp add: st_look_def)
  with saveFile_facts [OF v] have "st_look s2 (batch_path b) = st_look s (batch_path b)" by simp
  then show ?thesis
    by (cases rule: withWriteLock_cases [of env ctx "''batch.SaveFile''" ?fn "Some rec0" s])
      (use assms Some p v in \<open>auto simp: SaveFile_def on_store_def split: prod.splits\<close>)
qed (use assms in \<open>simp add: SaveFile_def\<close>)

lemma DeleteFile_batches:
  assumes "DeleteFile env ctx f (Some s) = (r, Some s')"
  shows "st_look s' (batch_path b) = st_look s (batch_path b)"
proof (cases "checkID ''batch.DeleteFile'' f")
  case (Inr i)
  let ?fn = "\<lambda>s. case readFileMeta ''batch.DeleteFile'' i s of
       (Inl e, s1) \<Rightarrow> ((Some e, ()), s1)
     | (Inr _, s1) \<Rightarrow>
         (case fileReferencedByBatchLocked i s1 of
            ((Some e, _), s2) \<Rightarrow> ((Some e, ()), s2)
          | ((None, inUse), s2) \<Rightarrow>
              if inUse then ((Some (DomainErr (err_new CodeConflict ''batch.DeleteFile'' ''file referenced by a batch'')), ()), s2)
              else (case removeFileUnlocked i s2 of (r, s3) \<Rightarrow> ((r, ()), s3)))"
  obtain g s1 where g: "readFileMeta ''batch.DeleteFile'' i s = (g, s1)" by fastforce
  obtain e inUse s2 where c: "fileReferencedByBatchLocked i s1 = ((e, inUse), s2)" by (rule pair_left)
  obtain r3 s3 where d: "removeFileUnlocked i s2 = (r3, s3)" by fastforce
  have same: "st_look s1 q = st_look s q" "st_look s2 q = st_look s q" for q
    using readFileMeta_facts [OF g] fileReferenced_facts [OF c] by (auto simp: st_look_def look_def)
  then have "st_look s3 (batch_path b) = st_look s (batch_path b)" using removeFile_facts [OF d] by simp
  with same g c d have f: "snd (?fn s) \<in> {s1, s2, s3}"
    by (cases g; cases e; cases inUse) simp_all
  then show ?thesis using assms Inr same \<open>st_look s3 (batch_path b) = st_look s (batch_path b)\<close>
    by (cases rule: withWriteLock_cases [of env ctx "''batch.DeleteFile''" ?fn "()" s])
      (auto simp: DeleteFile_def on_store_def Let_def split: prod.splits)
qed (use assms in \<open>simp add: DeleteFile_def on_store_def\<close>)

lemma other_step_keeps:
  assumes "other_step i s s'" and "named s"
    and "st_look s (batch_path i) = Some (BatchMeta m)" and "\<not> statusAllowsFinalize (m_status m)"
  shows "named s' \<and> st_look s' (batch_path i) = Some (BatchMeta m)"
proof -
  have same: ?thesis if "\<And>b. st_look s' (batch_path b) = st_look s (batch_path b)"
    using that assms(2,3) by (simp add: named_def)
  have put: ?thesis if "\<And>b. st_look s' (batch_path b) = (if ok \<and> b = m_id x then Some (BatchMeta x) else st_look s (batch_path b))"
    "m_id x \<noteq> i" for ok x
    using that assms(2,3) by (simp add: named_def)
  from assms(1) show ?thesis
  proof (cases rule: other_step.cases)
    case (finalize env ctx j patch r)
    obtain e m' applied where r: "r = (e, (m', applied))" by (cases r) auto
    note f = finalize [unfolded r]
    show ?thesis
    proof (cases applied)
      case False
      with TryFinalize_batches [OF f] same show ?thesis by auto
    next
      case True
      from f obtain k where l: "finalizeLocked ''batch.TryFinalizeBatch'' k patch s = ((e, (m', True)), s')"
        using True by (cases rule: TryFinalize_cases) auto
      from finalizeLocked_facts [OF l] obtain n where n: "st_look s (batch_path k) = Some (BatchMeta n)" "m_id m' = m_id n"
        "statusAllowsFinalize (m_status n)" "st_look s' (batch_path (m_id m')) = Some (BatchMeta m')"
        "\<And>b. b \<noteq> m_id m' \<Longrightarrow> st_look s' (batch_path b) = st_look s (batch_path b)" by auto
      moreover have "m_id n = k" using n(1) assms(2) by (simp add: named_def)
      moreover from n assms(3,4) have "k \<noteq> i" by auto
      ultimately show ?thesis by (intro put [of True m']) auto
    qed
  next
    case (update env ctx x r)
    with UpdateBatch_facts [OF update(1)] show ?thesis by (intro put [of "r = None" x]) auto
  next
    case (create env ctx x r m1)
    with SaveBatch_facts [OF create(1)] show ?thesis by (intro put [of "r = None" m1]) auto
  next
    case (upload env ctx rec content r)
    from SaveFile_batches [OF this] show ?thesis by (rule same)
  next
    case (delete env ctx f r)
    from DeleteFile_batches [OF this] show ?thesis by (rule same)
  next
    case read
    from st_look_same [OF this] show ?thesis by (rule same)
  qed
qed

lemma other_steps_keep:
  assumes "(other_step i)\<^sup>*\<^sup>* s t" and "named s"
    and "st_look s (batch_path i) = Some (BatchMeta m)" and "\<not> statusAllowsFinalize (m_status m)"
  shows "named t \<and> st_look t (batch_path i) = Some (BatchMeta m)"
  using assms by (induction rule: rtranclp_induct) (simp, blast dest: other_step_keeps)

text \<open>C25: Once a finalisation with a final status has been applied, no later one of the same batch is, under any
  lock, context, patch and failure, whatever operations the store served in between, as long as none of them is a write
  of that batch's own record by \<open>UpdateBatch\<close> or \<open>SaveBatch\<close> (a stale cancel is one). Records lie under their
  own ids at the start.\<close>

theorem finalized_at_most_once:
  assumes "TryFinalizeBatch env ctx i0 patch (Some s) = ((e, (m', True)), Some s')"
    and "Terminal (fp_status patch)" and "named s"
    and "(other_step (trim_space i0))\<^sup>*\<^sup>* s' t"
    and "TryFinalizeBatch env2 ctx2 i0 patch2 (Some t) = ((e2, (m2, applied2)), t')"
  shows "\<not> applied2 \<and> (e2 = None \<longrightarrow> m2 = m')"
proof -
  have "named s' \<and> st_look s' (batch_path (trim_space i0)) = Some (BatchMeta m') \<and> m_status m' = fp_status patch"
    using assms(1)
  proof (cases rule: TryFinalize_cases)
    case (1 i s1)
    from finalizeLocked_facts [OF 1(2)] obtain n where n: "st_look s (batch_path i) = Some (BatchMeta n)" "m_id m' = m_id n"
      "st_look s' (batch_path (m_id m')) = Some (BatchMeta m')" "m_status m' = fp_status patch"
      "\<And>b. b \<noteq> m_id m' \<Longrightarrow> st_look s' (batch_path b) = st_look s (batch_path b)" using 1 by auto
    moreover have "m_id n = i" using n(1) assms(3) by (simp add: named_def)
    moreover have "named s'"
      unfolding named_def using n(3,5) assms(3) unfolding named_def by (metis entry.inject option.inject)
    ultimately show ?thesis using checkID_chars [OF 1(1)] by auto
  qed simp
  moreover have "\<not> statusAllowsFinalize (fp_status patch)"
    using assms(2) by (auto simp: statusAllowsFinalize_def Terminal_def)
  ultimately have stored: "st_look t (batch_path (trim_space i0)) = Some (BatchMeta m')" "\<not> statusAllowsFinalize (m_status m')"
    using other_steps_keep [OF assms(4)] by auto
  show ?thesis
    using assms(5)
  proof (cases rule: TryFinalize_cases)
    case (1 i t1)
    then show ?thesis using finalizeLocked_facts [OF 1(2)] stored checkID_chars [OF 1(1)] by auto
  qed auto
qed

text \<open>The batch is finalised, an upload follows, and it is finalised again.\<close>

theorem finalized_at_most_once_witness:
  "\<exists>s' r t e2 m2 t'. SaveFile free_lock (Some alive) (Some zero_file) ''{}'' (Some s') = (r, Some t) \<and>
     TryFinalizeBatch free_lock (Some alive) ''batch_1'' sample_patch (Some t) = ((e2, (m2, False)), t')"
proof (rule sample_finalize)
  fix m' s' assume f: "TryFinalizeBatch free_lock (Some alive) ''batch_1'' sample_patch (Some (sample_store [])) =
    ((None, (m', True)), Some s')" and i: "m_id m' = ''batch_1''"
  have "\<exists>r t. SaveFile free_lock (Some alive) (Some zero_file) ''{}'' (Some s') = (r, Some t)"
    by (simp only: SaveFile_def option.case on_store_Some)
  then obtain r t where u: "SaveFile free_lock (Some alive) (Some zero_file) ''{}'' (Some s') = (r, Some t)" by (elim exE)
  obtain e2 m2 ap t' where g: "TryFinalizeBatch free_lock (Some alive) ''batch_1'' sample_patch (Some t) = ((e2, (m2, ap)), t')"
    by (metis prod.collapse)
  have p: "Terminal (fp_status sample_patch)" by (simp add: sample_patch_def Terminal_def)
  have n: "named (sample_store [])"
    by (auto simp: named_def st_look_def look_def sample_store_def sample_files_def sample_meta_def split: if_splits)
  have o: "(other_step (trim_space ''batch_1''))\<^sup>*\<^sup>* s' t" using other_step.upload [OF u] by blast
  have "ap = False" using finalized_at_most_once [OF f p n o g] by simp
  with g have "TryFinalizeBatch free_lock (Some alive) ''batch_1'' sample_patch (Some t) = ((e2, (m2, False)), t')"
    by (simp only:)
  with u show ?thesis by (intro exI conjI)
qed

text \<open>C26: Deleting a file never removes one that a stored batch names as its input, output or error
  file, whether the batch is still active or finished: the call then fails and changes nothing. In any case it touches no other record, and without
  an error the file is gone. The operating system is assumed to report a missing path only for one
  that is missing; any other failure is covered.\<close>

theorem delete_spares_referenced_files:
  assumes "DeleteFile env ctx i0 (Some s) = (r, s'')" and "honest s"
  shows "\<exists>s'. s'' = Some s' \<and>
    (\<forall>q. q \<noteq> file_meta_path (trim_space i0) \<longrightarrow> q \<noteq> file_content_path (trim_space i0) \<longrightarrow> st_look s' q = st_look s q) \<and>
    (r = None \<longrightarrow> st_look s' (file_meta_path (trim_space i0)) = None \<and>
       st_look s' (file_content_path (trim_space i0)) = None) \<and>
    ((\<exists>b m. CHR ''/'' \<notin> set b \<and> st_look s (batch_path b) = Some (BatchMeta m) \<and> references m (trim_space i0)) \<longrightarrow>
       r \<noteq> None \<and> (\<forall>q. st_look s' q = st_look s q))"
proof (cases "checkID ''batch.DeleteFile'' i0")
  case (Inl err)
  with assms show ?thesis by (auto simp: DeleteFile_def on_store_def)
next
  case (Inr i)
  then have i: "i = trim_space i0" using checkID_chars by blast
  let ?fn = "\<lambda>s. case readFileMeta ''batch.DeleteFile'' i s of
       (Inl e, s1) \<Rightarrow> ((Some e, ()), s1)
     | (Inr _, s1) \<Rightarrow>
         (case fileReferencedByBatchLocked i s1 of
            ((Some e, _), s2) \<Rightarrow> ((Some e, ()), s2)
          | ((None, inUse), s2) \<Rightarrow>
              if inUse then ((Some (DomainErr (err_new CodeConflict ''batch.DeleteFile'' ''file referenced by a batch'')), ()), s2)
              else (case removeFileUnlocked i s2 of (r, s3) \<Rightarrow> ((r, ()), s3)))"
  obtain u s' where w: "withWriteLock env ctx ''batch.DeleteFile'' ?fn () s = ((r, u), s')" "s'' = Some s'"
    using assms(1) Inr by (auto simp: DeleteFile_def on_store_def Let_def split: prod.splits)
  show ?thesis
  proof (rule withWriteLock_cases [of env ctx "''batch.DeleteFile''" ?fn "()" s])
    assume "withWriteLock env ctx ''batch.DeleteFile'' ?fn () s = ?fn s"
    with w have "?fn s = ((r, u), s')" by simp
    from delete_locked_facts [OF this assms(2)] w(2) show ?thesis unfolding i by blast
  next
    fix e assume "withWriteLock env ctx ''batch.DeleteFile'' ?fn () s = ((Some e, ()), s)"
    with w show ?thesis by auto
  qed
qed

theorem delete_spares_referenced_files_witness:
  "\<exists>r s'. DeleteFile free_lock (Some alive) ''file_in'' (Some (sample_store [])) = (r, Some s') \<and> r \<noteq> None \<and>
     st_look s' (file_content_path ''file_in'') = Some (Raw ''{}'')"
proof -
  obtain r s'' where d: "DeleteFile free_lock (Some alive) ''file_in'' (Some (sample_store [])) = (r, s'')" by fastforce
  have t: "trim_space ''file_in'' = ''file_in''" using checkID_chars [OF sample_check(2)] by simp
  have h: "honest (sample_store [])" by (simp add: honest_def sample_store_def)
  have "st_look (sample_store []) (batch_path ''batch_1'') = Some (BatchMeta sample_meta)"
    "st_look (sample_store []) (file_content_path ''file_in'') = Some (Raw ''{}'')"
    by (simp_all add: st_look_def look_def sample_store_def sample_files_def)
      (simp add: batch_path_def file_content_path_def file_meta_path_def)
  moreover have "references sample_meta ''file_in''" "CHR ''/'' \<notin> set ''batch_1''"
    by (simp_all add: references_def sample_meta_def)
  ultimately show ?thesis
    using delete_spares_referenced_files [OF d h] t d by metis
qed

text \<open>A file that was saved is read back: its record by \<open>GetFile\<close> and its content by
  \<open>ReadFileContent\<close>, with the size of the content in the record.\<close>

theorem saved_file_reads_back:
  assumes "SaveFile env ctx (Some rec0) content (Some s) = ((None, rec'), Some s')"
    and "\<forall>rec. rec' = Some rec \<longrightarrow> list_all isIDRune (fr_id rec) \<and> trim_space (fr_id rec) = fr_id rec"
    and "st_faults s' = []" and "ctx_err c = None"
  shows "\<exists>rec. rec' = Some rec \<and> fr_bytes rec = int (length content) \<and>
    GetFile (Some c) (fr_id rec) (Some s') = (Inr rec, Some s') \<and>
    ReadFileContent (Some c) (fr_id rec) (Some s') = (Inr (Raw content), Some s')"
proof -
  let ?fn = "\<lambda>s. let (rec1, s1) = prepareFileRecordLocked rec0 content s;
                     (e, s2) = saveFileUnlocked rec1 content s1
                 in ((e, Some rec1), s2)"
  have w: "withWriteLock env ctx ''batch.SaveFile'' ?fn (Some rec0) s = ((None, rec'), s')"
    using assms(1) by (auto simp: SaveFile_def on_store_def split: prod.splits)
  have f: "?fn s = ((None, rec'), s')"
    by (rule withWriteLock_cases [of env ctx "''batch.SaveFile''" ?fn "Some rec0" s]) (use w in auto)
  obtain rec1 s1 where p: "prepareFileRecordLocked rec0 content s = (rec1, s1)" by fastforce
  with f have v: "saveFileUnlocked rec1 content s1 = (None, s')" "rec' = Some rec1"
    by (auto split: prod.splits)
  with assms(2) have i: "list_all isIDRune (fr_id rec1)" "trim_space (fr_id rec1) = fr_id rec1" by simp_all
  moreover have "fr_id rec1 \<noteq> []"
    using v i by (auto simp: saveFileUnlocked_def checkID_def)
  ultimately have ok: "checkID op (fr_id rec1) = Inr (fr_id rec1)" for op by (simp add: checkID_def)
  then have "CHR ''/'' \<notin> set (fr_id rec1)" by (rule checkID_no_slash)
  with saveFile_facts [OF v(1)] prepare_facts [OF p] v(2) assms(3,4) ok show ?thesis
    by (auto simp: GetFile_def ReadFileContent_def on_store_def readable_def readFileMeta_def read_entry_quiet Let_def)
qed

theorem saved_file_reads_back_witness:
  "\<exists>(rec :: file_record) s'. ReadFileContent (Some alive) (fr_id rec) (Some s') = (Inr (Raw ''data''), Some s')"
proof -
  let ?fn = "\<lambda>s. let (rec1, s1) = prepareFileRecordLocked zero_file ''data'' s;
                     (e, s2) = saveFileUnlocked rec1 ''data'' s1
                 in ((e, Some rec1), s2)"
  obtain x s' where x: "?fn (sample_store []) = (x, s')" by (rule prod.exhaust)
  obtain e r where "x = (e, r)" by (rule prod.exhaust)
  with x have f: "?fn (sample_store []) = ((e, r), s')" by (simp only:)
  have i: "rand_text ''AAAA''" by code_simp
  have "e = None \<and> st_faults s' = [] \<and> (\<exists>rec. r = Some rec \<and> fr_id rec = newID ''file'' ''AAAA'')"
    using f by (auto simp: prepareFileRecordLocked_def draw_id_def unixNow_def zero_file_def Let_def sample_store_def
        saveFileUnlocked_def rand_text_id [OF i] write_entry_quiet)
  then obtain rec where r: "r = Some rec" "e = None" "fr_id rec = newID ''file'' ''AAAA''" "st_faults s' = []"
    by blast
  moreover have "list_all isIDRune (fr_id rec) \<and> trim_space (fr_id rec) = fr_id rec"
    using checkID_chars [OF rand_text_id [OF i]] r(3) by (simp add: list_all_iff)
  moreover have "SaveFile free_lock (Some alive) (Some zero_file) ''data'' (Some (sample_store [])) = ((None, r), Some s')"
    using f r(2) by (simp add: SaveFile_def on_store_def withWriteLock_free split: prod.splits)
  ultimately have "ReadFileContent (Some alive) (newID ''file'' ''AAAA'') (Some s') = (Inr (Raw ''data''), Some s')"
    using saved_file_reads_back [of free_lock "Some alive" zero_file "''data''" "sample_store []" r s' alive]
    by (auto simp: alive_def)
  then show ?thesis unfolding r(3) [symmetric] by blast
qed

text \<open>When the content of the output file was written and the write of its metadata fails, the
  finalisation reports the error but leaves the content behind: it is under \<open>files/content\<close>, no
  record names it, and nothing will remove it. The code removes only files whose save succeeded.\<close>

theorem failed_finalize_leaves_content:
  "\<exists>faults e m' s'. finalizeLocked ''batch.TryFinalizeBatch'' ''batch_1'' sample_patch (sample_store faults) =
       ((Some e, (m', False)), s') \<and>
     st_look (sample_store faults) (file_content_path ''file_aaaa'') = None \<and>
     st_look s' (file_content_path ''file_aaaa'') = Some (Raw ''ok'') \<and>
     st_look s' (file_meta_path ''file_aaaa'') = None"
proof -
  let ?s = "sample_store (replicate 9 None @ [Some (Leaf ''no space'')])"
  have "st_faults ?s = replicate 9 None @ [Some (Leaf ''no space'')]" "st_look ?s (batch_path ''batch_1'') = Some (BatchMeta sample_meta)"
    "fp_ok sample_patch = ''ok''" "statusAllowsFinalize (m_status sample_meta)"
    by (simp_all add: st_look_def look_def sample_store_def sample_files_def sample_patch_def sample_meta_def statusAllowsFinalize_def)
  moreover have i: "next_file_id ?s 0 = ''file_aaaa''" "rand_text (st_rand ?s (st_drawn ?s))"
    using sample_store_fresh [unfolded fresh_draws_def]
    by (simp_all add: next_file_id_def sample_store_def newID_def) code_simp
  ultimately obtain e m' s' where f: "finalizeLocked ''batch.TryFinalizeBatch'' ''batch_1'' sample_patch ?s = ((Some e, (m', False)), s')"
    "st_files s' = put (file_content_path ''file_aaaa'') (Raw ''ok'') (st_files ?s)"
    using finalizeLocked_orphan [of ?s _ "''batch_1''" sample_meta sample_patch "''batch.TryFinalizeBatch''"] by auto
  moreover have "st_look s' q = (if q = file_content_path ''file_aaaa'' then Some (Raw ''ok'') else st_look ?s q)" for q
    by (rule st_look_put) (rule f(2))
  moreover have "st_look ?s (file_content_path ''file_aaaa'') = None" "st_look ?s (file_meta_path ''file_aaaa'') = None"
    "file_meta_path ''file_aaaa'' \<noteq> file_content_path ''file_aaaa''"
    by (simp_all add: st_look_def look_def sample_store_def sample_files_def file_meta_path_def file_content_path_def batch_path_def)
  ultimately show ?thesis by (metis (full_types))
qed

text \<open>A blank root is not refused: \<open>filepath.Clean\<close> turns the empty path into a dot, so the check
  for an empty root never fires and the store is created in the working directory.\<close>

theorem blank_root_is_accepted:
  "list_all (\<lambda>c. c = CHR '' '') root \<Longrightarrow> dk_faults d = [] \<Longrightarrow>
   \<exists>s. NewDiskStore root (Some clock) d rand = Inr s \<and> st_root s = ''.''"
proof -
  assume r: "list_all (\<lambda>c. c = CHR '' '') root" and d: "dk_faults d = []"
  have "trim_space root = []"
  proof (rule ccontr)
    assume "trim_space root \<noteq> []"
    moreover have "set (trim_space root) \<subseteq> {CHR '' ''}"
      using set_trim_space [of root] r by (auto simp: list_all_iff)
    ultimately have "hd (trim_space root) = CHR '' ''"
      using hd_in_set [of "trim_space root"] by blast
    with \<open>trim_space root \<noteq> []\<close> obtain t where "trim_space root = ''  '' @ t \<or> trim_space root = '' '' @ t"
      by (cases "trim_space root") auto
    moreover have "'' '' \<in> set white_seqs" by code_simp
    ultimately show False
      using trim_space_done(1) [of root] by (auto simp: lead_seq_None_iff)
  qed
  moreover have "filepath_clean [] = ''.''" by code_simp
  ultimately show ?thesis
    using d by (simp add: NewDiskStore_def st_call_def os_call_def Let_def)
qed

theorem blank_root_is_accepted_witness:
  "\<exists>s. NewDiskStore ''  '' (Some (\<lambda>_. 0)) (st_disk (sample_store [])) (\<lambda>_. []) = Inr s \<and> st_root s = ''.''"
  by (rule blank_root_is_accepted) (simp_all add: sample_store_def)

end
