(* ===== verification/Batch_Submitters.thy ===== *)
theory Batch_Submitters
  imports Batch_Clients Batch_Store Backends
begin

text \<open>
  The providers behind the batch service, \<open>internal/gateway/batches\<close>: the interface
  (\<open>submitter.go\<close>) as a record of functions with its contract as the locale \<open>submitter_laws\<close>, and
  its three implementations for Workers AI (\<open>cloudflare.go\<close>), OpenRouter (\<open>openrouter.go\<close>) and
  Anthropic Message Batches (\<open>claude.go\<close>), each of which interprets the locale. The lemmas show
  that the lines a provider returns become one output line each, in order.
\<close>

section \<open>The interface\<close>

record job =
  jb_downstream :: string
  jb_endpoint :: string
  jb_lines :: "input_line list"

datatype poll_state = PollUnknown | PollRunning | PollDone | PollFailed | PollExpired | PollCancelled

record poll =
  po_state :: poll_state
  po_lines :: "line_result list"

definition in_state :: "poll_state \<Rightarrow> poll" where
  "in_state st = \<lparr>po_state = st, po_lines = []\<rparr>"

text \<open>\<open>sb_submit\<close> returns the record as the call left it.\<close>

record 'u submitter =
  sb_validate :: "job \<Rightarrow> goerr option"
  sb_submit :: "go_context option \<Rightarrow> job \<Rightarrow> meta \<Rightarrow> 'u \<Rightarrow> (goerr option \<times> meta) run \<times> 'u"
  sb_poll :: "go_context option \<Rightarrow> meta \<Rightarrow> 'u \<Rightarrow> (goerr + poll) run \<times> 'u"
  sb_cancel :: "go_context option \<Rightarrow> meta \<Rightarrow> 'u \<Rightarrow> goerr option \<times> 'u"

definition orDefault :: "string \<Rightarrow> string \<Rightarrow> string" where
  "orDefault v fallback = (let s = trim_space v in if s \<noteq> [] then s else fallback)"

text \<open>
  What the service relies on: a submit writes nothing but the provider's references into the
  record, and only a poll that says so carries lines.
\<close>

definition same_but_references :: "meta \<Rightarrow> meta \<Rightarrow> bool" where
  "same_but_references m m' \<longleftrightarrow>
     m' = m\<lparr>m_cf_model := m_cf_model m', m_cf_request_id := m_cf_request_id m',
            m_upstream_batch_id := m_upstream_batch_id m'\<rparr>"

locale submitter_laws =
  fixes sub :: "'u submitter"
  assumes submit_references: "sb_submit sub ctx job m u = (Returns (e, m'), u') \<Longrightarrow> same_but_references m m'"
    and poll_known: "sb_poll sub ctx m u = (Returns (Inr p), u') \<Longrightarrow>
      po_state p \<noteq> PollUnknown \<and> (po_lines p \<noteq> [] \<longrightarrow> po_state p = PollDone)"
begin

lemma submit_keeps:
  assumes "sb_submit sub ctx job m u = (Returns (e, m'), u')"
  shows "m_id m' = m_id m" "m_status m' = m_status m" "m_backend_id m' = m_backend_id m"
    "m_request_counts m' = m_request_counts m" "m_expires_at m' = m_expires_at m"
  using submit_references [OF assms, unfolded same_but_references_def]
  by - (erule ssubst, simp)+

lemma submit_keeps_all:
  "sb_submit sub ctx job m u = (Returns (e, m'), u') \<Longrightarrow>
   m_id m' = m_id m \<and> m_status m' = m_status m \<and> m_backend_id m' = m_backend_id m \<and>
   m_request_counts m' = m_request_counts m \<and> m_expires_at m' = m_expires_at m"
  by (simp add: submit_keeps)

lemma poll_lines_done:
  "sb_poll sub ctx m u = (Returns (Inr p), u') \<Longrightarrow> po_lines p \<noteq> [] \<Longrightarrow> po_state p = PollDone"
  using poll_known by blast

end

section \<open>Anthropic\<close>

definition opClaude :: string where "opClaude = ''batches.claude''"

record batch_poll =
  bp_ended :: bool
  bp_cancelling :: bool

text \<open>The Message Batches calls of the router client, which run in the library Bifrost.\<close>

record 'u claude_batches =
  cb_create :: "go_context option \<Rightarrow> string \<Rightarrow> string \<Rightarrow> input_line list \<Rightarrow> 'u \<Rightarrow> (goerr + string) \<times> 'u"
  cb_status :: "go_context option \<Rightarrow> string \<Rightarrow> string \<Rightarrow> 'u \<Rightarrow> (goerr + batch_poll) \<times> 'u"
  cb_results :: "go_context option \<Rightarrow> string \<Rightarrow> string \<Rightarrow> string \<Rightarrow> 'u \<Rightarrow> (goerr + line_result list) \<times> 'u"
  cb_cancel :: "go_context option \<Rightarrow> string \<Rightarrow> string \<Rightarrow> 'u \<Rightarrow> goerr option \<times> 'u"

definition batch_failed :: "string \<Rightarrow> string \<Rightarrow> goerr \<Rightarrow> meta \<Rightarrow> goerr" where
  "batch_failed op what e m =
     DomainErr (with_field (err_wrap (Some e) (code_or (Some e) CodeUnavailable) op what) ''batch_id'' (m_id m))"

definition claudeSubmitter :: "'u claude_batches \<Rightarrow> backend_def \<Rightarrow> 'u submitter" where
  "claudeSubmitter cb backend = \<lparr>
     sb_validate = (\<lambda>job.
       if jb_endpoint job \<noteq> EndpointChatCompletions
       then Some (DomainErr (with_field
              (err_new CodeInvalid opClaude ''claude batches support /v1/chat/completions only'')
              ''endpoint'' (jb_endpoint job)))
       else None),
     sb_submit = (\<lambda>ctx job m u.
       case cb_create cb ctx (bk_id backend) (jb_downstream job) (jb_lines job) u of
         (Inl e, u') \<Rightarrow> (Returns (Some (batch_failed opClaude ''submit'' e m), m), u')
       | (Inr i, u') \<Rightarrow> (Returns (None, m\<lparr>m_upstream_batch_id := i\<rparr>), u')),
     sb_poll = (\<lambda>ctx m u.
       case cb_status cb ctx (bk_id backend) (m_upstream_batch_id m) u of
         (Inl e, u') \<Rightarrow> (Returns (Inl (batch_failed opClaude ''status'' e m)), u')
       | (Inr st, u') \<Rightarrow>
           if \<not> bp_ended st then (Returns (Inr (in_state PollRunning)), u')
           else (case cb_results cb ctx (bk_id backend) (m_upstream_batch_id m) (m_public_model m) u' of
             (Inl e, u2) \<Rightarrow> (Returns (Inl (batch_failed opClaude ''results'' e m)), u2)
           | (Inr lines, u2) \<Rightarrow> (Returns (Inr \<lparr>po_state = PollDone, po_lines = lines\<rparr>), u2))),
     sb_cancel = (\<lambda>ctx m u.
       case cb_cancel cb ctx (bk_id backend) (m_upstream_batch_id m) u of
         (Some e, u') \<Rightarrow> (Some (batch_failed opClaude ''cancel'' e m), u')
       | (None, u') \<Rightarrow> (None, u'))\<rparr>"

interpretation claude: submitter_laws "claudeSubmitter cb backend"
  by unfold_locales
    (auto simp: claudeSubmitter_def same_but_references_def in_state_def split: prod.splits sum.splits if_splits)

section \<open>OpenRouter\<close>

definition opOpenRouter :: string where "opOpenRouter = ''batches.openrouter''"

record message_part =
  mp_type :: string
  mp_url :: string

definition message_part_fields :: "message_part field_decoder list" where
  "message_part_fields =
     [(''type'', \<lambda>raw v s. map_option (\<lambda>t. s\<lparr>mp_type := t\<rparr>) (dec_string (mp_type s) v)),
      (''image_url'', \<lambda>raw v s. map_option (\<lambda>t. s\<lparr>mp_url := t\<rparr>)
         (dec_struct [(''url'', \<lambda>raw v s. dec_string s v)] (mp_url s) v))]"

definition contents_of :: "bytes \<Rightarrow> bytes list option" where
  "contents_of body =
     unmarshal [(''messages'', \<lambda>raw v s. dec_slice (dec_struct [(''content'', \<lambda>raw v s. Some raw)] []) v)] [] body"

definition part_has_media :: "message_part \<Rightarrow> bool" where
  "part_has_media p \<longleftrightarrow>
     mp_type p = ''input_audio'' \<or> (mp_type p = ''image_url'' \<and> has_prefix (trim_space (mp_url p)) ''data:'')"

definition hasInlineMedia :: "bytes \<Rightarrow> bool" where
  "hasInlineMedia body =
     (case contents_of body of
        None \<Rightarrow> False
      | Some contents \<Rightarrow>
          list_ex (\<lambda>content.
            case Option.bind (json_parse content) (dec_slice (dec_struct message_part_fields \<lparr>mp_type = [], mp_url = []\<rparr>)) of
              None \<Rightarrow> False
            | Some parts \<Rightarrow> list_ex part_has_media parts) contents)"

text \<open>The model of a body becomes the public id; on \<open>null\<close> the map is nil and Go panics.\<close>

definition relabelModel :: "bytes \<Rightarrow> string \<Rightarrow> bytes run" where
  "relabelModel body publicModel =
     (case unmarshal_map body of
        None \<Rightarrow> Returns body
      | Some m \<Rightarrow>
          run_bind (map_assign ''model'' (json_quote publicModel) m)
            (\<lambda>obj. Returns (case marshal_map (Some obj) of None \<Rightarrow> body | Some out \<Rightarrow> out)))"

definition openRouterLine :: "string \<Rightarrow> or_result \<Rightarrow> line_result run" where
  "openRouterLine publicModel r =
     (let line = \<lparr>lr_custom_id = ort_custom_id r, lr_body = [], lr_err_code = [], lr_err_message = []\<rparr>
      in case ort_error r of
           Some e \<Rightarrow>
             Returns (line\<lparr>lr_err_code := orDefault (ore_type e) LineErrFailed,
                           lr_err_message := orDefault (ore_message e) ''openrouter batch line failed''\<rparr>)
         | None \<Rightarrow>
             (case ort_response r of
                Some resp \<Rightarrow>
                  if ok_status (orr_status resp)
                  then run_bind (relabelModel (orr_body resp) publicModel) (\<lambda>b. Returns (line\<lparr>lr_body := b\<rparr>))
                  else Returns (line\<lparr>lr_err_code := LineErrFailed,
                         lr_err_message := ''openrouter batch line returned no successful response''\<rparr>)
              | None \<Rightarrow>
                  Returns (line\<lparr>lr_err_code := LineErrFailed,
                         lr_err_message := ''openrouter batch line returned no successful response''\<rparr>)))"

fun openRouterLines :: "or_result list \<Rightarrow> string \<Rightarrow> line_result list run" where
  "openRouterLines [] publicModel = Returns []"
| "openRouterLines (r # rs) publicModel =
     run_bind (openRouterLine publicModel r) (\<lambda>l.
     run_bind (openRouterLines rs publicModel) (\<lambda>ls. Returns (l # ls)))"

text \<open>The client is fetched at every call; a client is the API base it talks to.\<close>

definition openRouterSubmitter ::
  "'u transport \<Rightarrow> ('u \<Rightarrow> (goerr + string) \<times> 'u) \<Rightarrow> 'u submitter" where
  "openRouterSubmitter tr client = \<lparr>
     sb_validate = (\<lambda>job.
       case find (\<lambda>line. hasInlineMedia (il_body line)) (jb_lines job) of
         None \<Rightarrow> None
       | Some line \<Rightarrow>
           Some (DomainErr (with_field (err_new CodeInvalid opOpenRouter
             ''openrouter batches take text and public https image URLs only (no base64 images or audio)'')
             ''custom_id'' (il_custom_id line)))),
     sb_submit = (\<lambda>ctx job m u.
       case client u of
         (Inl e, u') \<Rightarrow> (Returns (Some (DomainErr (err_wrap (Some e) CodeNotReady opOpenRouter ''client'')), m), u')
       | (Inr base, u') \<Rightarrow>
           (case or_SubmitBatch tr (Some base) ctx (jb_downstream job) (jb_endpoint job) (jb_lines job) u' of
              (Inl e, u2) \<Rightarrow> (Returns (Some (batch_failed opOpenRouter ''submit'' e m), m), u2)
            | (Inr i, u2) \<Rightarrow> (Returns (None, m\<lparr>m_upstream_batch_id := i\<rparr>), u2))),
     sb_poll = (\<lambda>ctx m u.
       case client u of
         (Inl e, u') \<Rightarrow> (Returns (Inl (DomainErr (err_wrap (Some e) CodeNotReady opOpenRouter ''client''))), u')
       | (Inr base, u') \<Rightarrow>
           (case or_GetBatch tr (Some base) ctx (m_upstream_batch_id m) u' of
              (Inl e, u2) \<Rightarrow> (Returns (Inl (batch_failed opOpenRouter ''poll'' e m)), u2)
            | (Inr b, u2) \<Rightarrow>
                (case or_status_of (orb_status b) of
                   OrCompleted \<Rightarrow>
                     run_bind (openRouterLines (orb_results b) (m_public_model m))
                       (\<lambda>ls. Returns (Inr \<lparr>po_state = PollDone, po_lines = ls\<rparr>))
                 | OrFailed \<Rightarrow> Returns (Inr (in_state PollFailed))
                 | OrExpired \<Rightarrow> Returns (Inr (in_state PollExpired))
                 | OrCancelled \<Rightarrow> Returns (Inr (in_state PollCancelled))
                 | OrValidating \<Rightarrow> Returns (Inr (in_state PollRunning))
                 | OrInProgress \<Rightarrow> Returns (Inr (in_state PollRunning))
                 | OrFinalizing \<Rightarrow> Returns (Inr (in_state PollRunning))
                 | OrOther _ \<Rightarrow> Returns (Inr (in_state PollRunning)), u2))),
     sb_cancel = (\<lambda>ctx m u.
       (Some (DomainErr (err_new CodeUnimplemented opOpenRouter ''openrouter batches cannot be cancelled'')), u))\<rparr>"

interpretation openrouter: submitter_laws "openRouterSubmitter tr client"
  by unfold_locales
    (auto simp: openRouterSubmitter_def same_but_references_def in_state_def run_bind_Returns
      split: prod.splits sum.splits or_status.splits)

section \<open>Workers AI\<close>

definition opCloudflare :: string where "opCloudflare = ''batches.cloudflare''"

text \<open>A result that already has choices keeps its members; the fixed ones are set over them.\<close>

definition chat_wrap :: "string \<Rightarrow> int \<Rightarrow> string gomap \<Rightarrow> member gomap" where
  "chat_wrap publicModel created probe =
     put ''created'' (IntVal created) (put ''model'' (TextVal publicModel)
       (fold (\<lambda>(k, v). put k (RawVal v)) probe
         [(''id'', TextVal ''chatcmpl-batch''), (''object'', TextVal ''chat.completion'')]))"

definition chat_completion_text :: "string \<Rightarrow> int \<Rightarrow> string \<Rightarrow> bytes" where
  "chat_completion_text publicModel created content =
     ''{\"id\":\"chatcmpl-batch\",\"object\":\"chat.completion\",\"created\":'' @ itoa created @
     '',\"model\":'' @ json_quote publicModel @
     '',\"choices\":[{\"index\":0,\"message\":{\"role\":\"assistant\",\"content\":'' @ json_quote content @
     ''},\"finish_reason\":\"stop\"}],\"usage\":{\"prompt_tokens\":0,\"completion_tokens\":0,\"total_tokens\":0}}''"

definition marshalled :: "bytes option \<Rightarrow> goerr + bytes" where
  "marshalled t = (case t of None \<Rightarrow> Inl json_error | Some b \<Rightarrow> Inr b)"

text \<open>The value of a key in a decoded map, nil or not, and whether there is a non-empty one.\<close>

definition value_of :: "string gomap option \<Rightarrow> string \<Rightarrow> bytes" where
  "value_of m k = (case Option.bind m (\<lambda>kv. map_of kv k) of None \<Rightarrow> [] | Some raw \<Rightarrow> raw)"

definition has_value :: "string gomap option \<Rightarrow> string \<Rightarrow> bool" where
  "has_value m k \<longleftrightarrow> value_of m k \<noteq> []"

definition synthesizeChatBody :: "string \<Rightarrow> int \<Rightarrow> bytes \<Rightarrow> goerr + bytes" where
  "synthesizeChatBody publicModel created result =
     (let bad = Inl (DomainErr (err_wrap (Some json_error) CodeUnavailable opCloudflare ''decode chat result''))
      in case unmarshal_map result of
           None \<Rightarrow> bad
         | Some probe \<Rightarrow>
             if has_value probe ''choices''
             then marshalled (marshal_members (chat_wrap publicModel created (case probe of None \<Rightarrow> [] | Some kv \<Rightarrow> kv)))
             else (case unmarshal [(''response'', \<lambda>raw v s. dec_string s v)] [] result of
                None \<Rightarrow> bad
              | Some response \<Rightarrow>
                  if trim_space response = []
                  then Inl (DomainErr (err_new CodeUnavailable opCloudflare
                         ''chat result has neither choices nor response''))
                  else Inr (chat_completion_text publicModel created response)))"

definition synthesizeEmbedBody :: "string \<Rightarrow> bytes \<Rightarrow> goerr + bytes" where
  "synthesizeEmbedBody publicModel result =
     (case unmarshal_map result of
        None \<Rightarrow> Inl (DomainErr (err_wrap (Some json_error) CodeUnavailable opCloudflare ''decode embedding result''))
      | Some probe \<Rightarrow>
          if has_value probe ''data''
          then marshalled (marshal_members
                 [(''object'', TextVal ''list''), (''model'', TextVal publicModel), (''data'', RawVal (value_of probe ''data''))])
          else marshalled (map_option (\<lambda>b. ''{\"object\":\"list\",\"model\":'' @ json_quote publicModel @
                   '',\"data\":[{\"object\":\"embedding\",\"index\":0,\"embedding\":'' @ b @ ''}]}'')
                 (json_compact result)))"

definition synthesizeOpenAIBody :: "string \<Rightarrow> string \<Rightarrow> int \<Rightarrow> bytes \<Rightarrow> goerr + bytes" where
  "synthesizeOpenAIBody endpoint publicModel created result =
     (if result = [] then Inl (DomainErr (err_new CodeUnavailable opCloudflare ''empty result''))
      else if endpoint = EndpointChatCompletions then synthesizeChatBody publicModel created result
      else if endpoint = EndpointEmbeddings then synthesizeEmbedBody publicModel result
      else Inl (DomainErr (with_field (err_new CodeInvalid opCloudflare ''unsupported endpoint'') ''endpoint'' endpoint)))"

definition cloudflareLine :: "string \<Rightarrow> string \<Rightarrow> int \<Rightarrow> batch_response_item \<Rightarrow> line_result" where
  "cloudflareLine endpoint publicModel created item =
     (let line = \<lparr>lr_custom_id = bri_external_reference item, lr_body = [], lr_err_code = [], lr_err_message = []\<rparr>
      in if \<not> bri_success item
         then line\<lparr>lr_err_code := LineErrFailed,
                   lr_err_message := orDefault (bri_error_message item) ''workers ai batch line failed''\<rparr>
         else case synthesizeOpenAIBody endpoint publicModel created (bri_result item) of
           Inl e \<Rightarrow> line\<lparr>lr_err_code := LineErrSynthesis, lr_err_message := err_text e\<rparr>
         | Inr body \<Rightarrow> line\<lparr>lr_body := body\<rparr>)"

definition cloudflareLines :: "string \<Rightarrow> string \<Rightarrow> int \<Rightarrow> batch_response_item list \<Rightarrow> line_result list" where
  "cloudflareLines endpoint publicModel created items = map (cloudflareLine endpoint publicModel created) items"

definition cloudflareSubmitter ::
  "'u transport \<Rightarrow> ('u \<Rightarrow> (goerr + cf_client) \<times> 'u) \<Rightarrow> ('u \<Rightarrow> int) \<Rightarrow> 'u submitter" where
  "cloudflareSubmitter tr client now = \<lparr>
     sb_validate = (\<lambda>job.
       if ModelSupportsBatch (jb_downstream job) then None
       else Some (DomainErr (with_field (err_new CodeInvalid opCloudflare ''model does not support cloudflare batch'')
              ''model'' (jb_downstream job)))),
     sb_submit = (\<lambda>ctx job m u.
       case client u of
         (Inl e, u') \<Rightarrow> (Returns (Some (DomainErr (err_wrap (Some e) CodeNotReady opCloudflare ''client'')), m), u')
       | (Inr c, u') \<Rightarrow>
           (let m1 = m\<lparr>m_cf_model := NormalizeModel (jb_downstream job)\<rparr>
            in case cf_SubmitBatch tr (Some c) ctx (jb_downstream job) (jb_endpoint job) (jb_lines job) u' of
                 (Panics, u2) \<Rightarrow> (Panics, u2)
               | (Returns (Inl e), u2) \<Rightarrow> (Returns (Some (batch_failed opCloudflare ''submit'' e m1), m1), u2)
               | (Returns (Inr i), u2) \<Rightarrow> (Returns (None, m1\<lparr>m_cf_request_id := i\<rparr>), u2))),
     sb_poll = (\<lambda>ctx m u.
       case client u of
         (Inl e, u') \<Rightarrow> (Returns (Inl (DomainErr (err_wrap (Some e) CodeNotReady opCloudflare ''client''))), u')
       | (Inr c, u') \<Rightarrow>
           (case PollBatch tr (Some c) ctx (m_cf_model m) (m_cf_request_id m) u' of
              (Inl e, u2) \<Rightarrow> (Returns (Inl (batch_failed opCloudflare ''poll'' e m)), u2)
            | (Inr p, u2) \<Rightarrow>
                (Returns (Inr (case bpr_state p of
                   BatchPollCompleted \<Rightarrow>
                     \<lparr>po_state = PollDone,
                      po_lines = cloudflareLines (m_endpoint m) (m_public_model m) (now u2) (bpr_responses p)\<rparr>
                 | BatchPollFailed \<Rightarrow> in_state PollFailed
                 | BatchPollQueued \<Rightarrow> in_state PollRunning
                 | BatchPollRunning \<Rightarrow> in_state PollRunning
                 | BatchPollNone \<Rightarrow> in_state PollRunning)), u2))),
     sb_cancel = (\<lambda>ctx m u.
       (Some (DomainErr (err_new CodeUnimplemented opCloudflare ''workers ai batches cannot be cancelled'')), u))\<rparr>"

interpretation cloudflare: submitter_laws "cloudflareSubmitter tr client now"
  by unfold_locales
    (auto simp: cloudflareSubmitter_def same_but_references_def in_state_def Let_def
      split: prod.splits sum.splits run.splits batch_poll_state.splits)

section \<open>Lines\<close>

lemma orDefault_nonempty: "fallback \<noteq> [] \<Longrightarrow> orDefault v fallback \<noteq> []"
  by (simp add: orDefault_def Let_def)

definition or_succeeded :: "or_result \<Rightarrow> bool" where
  "or_succeeded r \<longleftrightarrow>
     ort_error r = None \<and> (case ort_response r of None \<Rightarrow> False | Some resp \<Rightarrow> ok_status (orr_status resp))"

lemma openRouterLine_facts:
  "openRouterLine pm r = Returns l \<Longrightarrow>
   lr_custom_id l = ort_custom_id r \<and> (lr_err_code l = [] \<longleftrightarrow> or_succeeded r) \<and> (\<not> or_succeeded r \<longrightarrow> lr_body l = [])"
  using orDefault_nonempty [of LineErrFailed]
  by (auto simp: openRouterLine_def or_succeeded_def run_bind_Returns LineErrFailed_def Let_def
      split: option.splits if_splits)

lemma openRouterLines_facts:
  "openRouterLines rs pm = Returns ls \<Longrightarrow>
   map lr_custom_id ls = map ort_custom_id rs \<and> map (\<lambda>l. lr_err_code l = []) ls = map or_succeeded rs \<and>
   (\<forall>l \<in> set ls. lr_err_code l \<noteq> [] \<longrightarrow> lr_body l = [])"
proof (induction rs arbitrary: ls)
  case (Cons r rs)
  then obtain l ls' where l: "openRouterLine pm r = Returns l" "openRouterLines rs pm = Returns ls'" "ls = l # ls'"
    by (auto simp: run_bind_Returns)
  with Cons.IH [OF l(2)] openRouterLine_facts [OF l(1)] show ?case by auto
qed simp

lemma cloudflareLine_facts:
  "lr_custom_id (cloudflareLine ep pm t item) = bri_external_reference item \<and>
   (\<not> bri_success item \<longrightarrow> lr_err_code (cloudflareLine ep pm t item) \<noteq> []) \<and>
   (lr_err_code (cloudflareLine ep pm t item) \<noteq> [] \<longrightarrow> lr_body (cloudflareLine ep pm t item) = [])"
  using orDefault_nonempty [of LineErrFailed]
  by (auto simp: cloudflareLine_def Let_def LineErrFailed_def LineErrSynthesis_def split: sum.splits)

section \<open>Properties\<close>

text \<open>What a provider returns becomes one line per result, in order and under the same custom
  id. An OpenRouter result is a success exactly when it has no error and a 2xx response, a Workers AI
  result that failed is never a success, and a failed line carries no body.\<close>

theorem provider_results_become_lines:
  "(openRouterLines rs pm = Returns ls \<longrightarrow>
      map lr_custom_id ls = map ort_custom_id rs \<and> map (\<lambda>l. lr_err_code l = []) ls = map or_succeeded rs \<and>
      (\<forall>l \<in> set ls. lr_err_code l \<noteq> [] \<longrightarrow> lr_body l = [])) \<and>
   map lr_custom_id (cloudflareLines ep pm t items) = map bri_external_reference items \<and>
   (\<forall>item \<in> set items. \<not> bri_success item \<longrightarrow> lr_err_code (cloudflareLine ep pm t item) \<noteq> []) \<and>
   (\<forall>l \<in> set (cloudflareLines ep pm t items). lr_err_code l \<noteq> [] \<longrightarrow> lr_body l = [])"
  using openRouterLines_facts cloudflareLine_facts by (auto simp: cloudflareLines_def)

definition sample_results_or :: "or_result list" where
  "sample_results_or =
     [\<lparr>ort_custom_id = ''a'', ort_response = Some \<lparr>orr_status = 200, orr_body = ''[1]''\<rparr>, ort_error = None\<rparr>,
      \<lparr>ort_custom_id = ''b'', ort_response = None, ort_error = Some \<lparr>ore_type = [], ore_message = ''no''\<rparr>\<rparr>]"

theorem provider_results_become_lines_witness:
  "\<exists>ls. openRouterLines sample_results_or ''m'' = Returns ls \<and> map lr_custom_id ls = [''a'', ''b''] \<and>
     map (\<lambda>l. lr_err_code l = []) ls = [True, False]"
proof -
  have u: "unmarshal_map ''[1]'' = None"
  proof -
    have "Option.is_none (unmarshal_map ''[1]'')" by code_simp
    then show ?thesis by (simp add: Option.is_none_def)
  qed
  obtain ls where ls: "openRouterLines sample_results_or ''m'' = Returns ls"
    by (simp add: sample_results_or_def openRouterLine_def ok_status_def relabelModel_def u Let_def)
  have "map or_succeeded sample_results_or = [True, False]" "map ort_custom_id sample_results_or = [''a'', ''b'']"
    by (simp_all add: sample_results_or_def or_succeeded_def ok_status_def)
  with provider_results_become_lines ls show ?thesis by metis
qed

text \<open>A submit writes nothing into the record of a batch but the provider's references, for every
  provider: its id, status, backend, counts and window stay.\<close>

theorem submit_writes_only_references:
  assumes "sub \<in> {claudeSubmitter cb backend, openRouterSubmitter tr orc, cloudflareSubmitter tr cfc now}"
    and "sb_submit sub ctx job m u = (Returns (e, m'), u')"
  shows "m_id m' = m_id m \<and> m_status m' = m_status m \<and> m_backend_id m' = m_backend_id m \<and>
    m_request_counts m' = m_request_counts m \<and> m_expires_at m' = m_expires_at m"
  using assms claude.submit_keeps_all [of cb backend ctx job m u e m' u']
    openrouter.submit_keeps_all [of tr orc ctx job m u e m' u']
    cloudflare.submit_keeps_all [of tr cfc now ctx job m u e m' u'] by auto

definition claude_backend :: backend_def where
  "claude_backend = \<lparr>bk_id = ''claude_team'', bk_remote = True, bk_extension = ''anthropic'', bk_base_url = [],
     bk_bearer_env = ''CLAUDE_KEY'', bk_extra_headers = [], bk_capabilities = [CapChat, CapBatch], bk_models = None,
     bk_prompt_cache = None\<rparr>"

theorem submit_writes_only_references_witness:
  "\<exists>e m'. sb_submit (claudeSubmitter \<lparr>cb_create = \<lambda>_ _ _ _ u. (Inr ''up'', u), cb_status = \<lambda>_ _ _ u. (Inl json_error, u),
        cb_results = \<lambda>_ _ _ _ u. (Inr [], u), cb_cancel = \<lambda>_ _ _ u. (None, u)\<rparr> claude_backend) None
        \<lparr>jb_downstream = [], jb_endpoint = [], jb_lines = []\<rparr> sample_meta (0::nat) = (Returns (e, m'), 0) \<and>
     m_upstream_batch_id m' = ''up'' \<and> m_status m' = StatusInProgress"
proof -
  let ?cb = "\<lparr>cb_create = \<lambda>_ _ _ _ u. (Inr ''up'', u), cb_status = \<lambda>_ _ _ u. (Inl json_error, u),
        cb_results = \<lambda>_ _ _ _ u. (Inr [], u), cb_cancel = \<lambda>_ _ _ u. (None, u)\<rparr> :: nat claude_batches"
  let ?m = "sample_meta\<lparr>m_upstream_batch_id := ''up''\<rparr>"
  have s: "sb_submit (claudeSubmitter ?cb b) None \<lparr>jb_downstream = [], jb_endpoint = [], jb_lines = []\<rparr> sample_meta 0 =
      (Returns (None, ?m), 0)" for b by (simp add: claudeSubmitter_def)
  from submit_writes_only_references [OF _ s [of claude_backend]] have "m_status ?m = m_status sample_meta" by blast
  then show ?thesis using s by (simp add: sample_meta_def)
qed

text \<open>An OpenRouter result with a 2xx response whose body is the JSON value null makes the poll
  panic: the map the body is decoded into stays nil and the public model is assigned into it.\<close>

theorem null_body_panics:
  "sb_poll (openRouterSubmitter \<lparr>tr_request = \<lambda>_. None, tr_send = \<lambda>_ _ _ _ _ u. (Inr \<lparr>ha_status = 200, ha_header = [],
        ha_body = Inr ''{\"status\":\"completed\",\"results\":[{\"response\":{\"status_code\":200,\"body\":null}}]}''\<rparr>, u)\<rparr>
      (\<lambda>u. (Inr ''https://openrouter.ai'', u))) (Some alive) (sample_meta\<lparr>m_upstream_batch_id := ''b''\<rparr>) u = (Panics, u)"
proof -
  let ?raw = "''{\"status\":\"completed\",\"results\":[{\"response\":{\"status_code\":200,\"body\":null}}]}''"
  have d: "decode_or_batch ?raw = Some \<lparr>orb_id = [], orb_status = ''completed'', orb_results =
      [\<lparr>ort_custom_id = [], ort_response = Some \<lparr>orr_status = 200, orr_body = ''null''\<rparr>, ort_error = None\<rparr>]\<rparr>"
    by code_simp
  have n: "unmarshal_map ''null'' = Some None"
  proof -
    have "(case unmarshal_map ''null'' of Some None \<Rightarrow> True | _ \<Rightarrow> False)" by code_simp
    then show ?thesis by (auto split: option.splits)
  qed
  have c: "or_status_of ''completed'' = OrCompleted" by (simp add: or_status_of_def)
  have "trim_space ''b'' = ''b''" by code_simp
  then have "or_GetBatch tr0 (Some base) (Some alive) ''b'' u =
     (case or_do tr0 (Some alive) ''GET'' (base @ ''/batches/'' @ path_escape ''b'') None u of
        (Inl e, u') \<Rightarrow> (Inl e, u')
      | (Inr raw, u') \<Rightarrow>
          (case decode_or_batch raw of
             None \<Rightarrow> (Inl (DomainErr (err_wrap (Some json_error) CodeUnavailable ''openrouter.GetBatch'' ''decode'')), u')
           | Some b \<Rightarrow> (Inr b, u')))" for tr0 base
    by (simp add: or_GetBatch_def)
  moreover have "length ?raw \<le> or_batchMaxBody" by (simp add: or_batchMaxBody_def)
  ultimately show ?thesis
    by (simp add: openRouterSubmitter_def or_do_def ReadCapped_def ok_status_def d c openRouterLine_def
        relabelModel_def n map_assign_def)
qed

text \<open>A bare vector, which the code means to wrap into an embedding list, is refused: an array does
  not decode into the map that is tried first.\<close>

theorem bare_vector_is_refused:
  assumes "json_parse result = Some (JArr es)"
  shows "\<exists>e. synthesizeOpenAIBody EndpointEmbeddings publicModel created result = Inl e"
  using assms
  by (auto simp: synthesizeOpenAIBody_def synthesizeEmbedBody_def unmarshal_map_def dec_raw_map_def
      EndpointEmbeddings_def EndpointChatCompletions_def)

theorem bare_vector_is_refused_witness:
  "\<exists>e. synthesizeOpenAIBody EndpointEmbeddings ''m'' 0 ''[1]'' = Inl e"
proof -
  have "(case json_parse ''[1]'' of Some (JArr es) \<Rightarrow> True | _ \<Rightarrow> False)" by code_simp
  then obtain es where "json_parse ''[1]'' = Some (JArr es)" by (auto split: option.splits json.splits)
  then show ?thesis by (rule bare_vector_is_refused)
qed

end
