(* ===== verification/Batch_Service.thy ===== *)
theory Batch_Service
  imports Batch_Submitters Breakers
begin

text \<open>
  The batch lifecycle, \<open>internal/gateway/batches/service.go\<close>: create, refresh, finalise and
  cancel, over the store (\<open>Batch_Store\<close>), the breakers (\<open>Breakers\<close>) and a provider
  (\<open>Batch_Submitters\<close>). The state is the board of breakers and a world that holds the store, the
  provider's side, the locks the operations meet, the clock and the log. Tracing spans are not
  modelled. The lemmas say which calls reach the provider, what a call leaves in the store, and
  how a stale record can undo a finished batch.
\<close>

section \<open>The state\<close>

datatype svc_log = LogOrphan meta goerr | LogCancelExpired meta goerr

record 'u world =
  w_store :: "store option"
  w_up :: 'u
  w_locks :: "nat \<Rightarrow> lock_env"
  w_lockno :: nat
  w_clock :: "nat \<Rightarrow> int"
  w_ticks :: nat
  w_log :: "svc_log list"

type_synonym ('b, 'u) svc_state = "'b board option \<times> 'u world"

record ('b, 'r, 'u) service =
  sv_api :: "('b, 'r) breaker_api"
  sv_submitter :: "backend_def \<Rightarrow> goerr + 'u submitter"
  sv_encode_error :: "string \<Rightarrow> string"

definition opCreate :: string where "opCreate = ''batches.Create''"
definition opRefresh :: string where "opRefresh = ''batches.Refresh''"
definition opFinalize :: string where "opFinalize = ''batches.finalize''"
definition opCancel :: string where "opCancel = ''batches.Cancel''"

text \<open>\<open>Now().Unix()\<close>; the clock counts nanoseconds.\<close>

definition svc_now :: "'u world \<Rightarrow> int \<times> 'u world" where
  "svc_now w = (w_clock w (w_ticks w) div ns_second, w\<lparr>w_ticks := Suc (w_ticks w)\<rparr>)"

text \<open>\<open>context.WithoutCancel\<close> keeps the values of a context and drops its end.\<close>

definition WithoutCancel :: "go_context option \<Rightarrow> go_context option" where
  "WithoutCancel ctx = map_option (\<lambda>c. c\<lparr>ctx_err := None\<rparr>) ctx"

text \<open>A call of the store meets the next lock; with \<open>detached\<close> no cancellation ends the wait.\<close>

definition store_call ::
  "bool \<Rightarrow> (lock_env \<Rightarrow> store option \<Rightarrow> 'x \<times> store option) \<Rightarrow> 'u world \<Rightarrow> 'x \<times> 'u world" where
  "store_call detached f w =
     (let env0 = w_locks w (w_lockno w);
          env = (if detached then env0\<lparr>le_ctx := \<lambda>_. None\<rparr> else env0)
      in case f env (w_store w) of
           (r, st) \<Rightarrow> (r, w\<lparr>w_store := st, w_lockno := Suc (w_lockno w)\<rparr>))"

definition up_call :: "('u \<Rightarrow> 'x \<times> 'u) \<Rightarrow> 'u world \<Rightarrow> 'x \<times> 'u world" where
  "up_call f w = (case f (w_up w) of (r, u) \<Rightarrow> (r, w\<lparr>w_up := u\<rparr>))"

text \<open>
  A call under a breaker that assigns captured variables, \<open>x0\<close> before it runs. What the breaker
  records for a call that panics is not modelled.
\<close>

definition guarded ::
  "('b, 'r) breaker_api \<Rightarrow> go_context option \<Rightarrow> string \<Rightarrow> ('u world \<Rightarrow> (goerr option \<times> 'x) run \<times> 'u world) \<Rightarrow> 'x \<Rightarrow>
   ('b, 'u) svc_state \<Rightarrow> (goerr option \<times> 'x) run \<times> ('b, 'u) svc_state" where
  "guarded api ctx name f x0 st =
     (case Execute api (\<lambda>(w, x). w_clock w (w_ticks w)) ctx name
             (\<lambda>(bd, (w, x)). case f w of
                (Panics, w') \<Rightarrow> (None, bd, (w', None))
              | (Returns (e, y), w') \<Rightarrow> (e, bd, (w', Some y)))
             (fst st, (snd st, Some x0)) of
        (e, bd, (w, None)) \<Rightarrow> (Panics, (bd, w))
      | (e, bd, (w, Some y)) \<Rightarrow> (Returns (e, y), (bd, w)))"

definition svc_error :: "goerr option \<Rightarrow> code \<Rightarrow> string \<Rightarrow> string \<Rightarrow> (string \<times> string) list \<Rightarrow> goerr" where
  "svc_error e fallback op what kvs =
     DomainErr (fold (\<lambda>(k, v) d. with_field d k v) kvs (err_wrap e (code_or e fallback) op what))"

section \<open>Cancelling upstream\<close>

definition cancelUpstream ::
  "('b, 'r, 'u) service \<Rightarrow> go_context option \<Rightarrow> 'u submitter \<Rightarrow> meta \<Rightarrow> ('b, 'u) svc_state \<Rightarrow>
   goerr option \<times> ('b, 'u) svc_state" where
  "cancelUpstream svc ctx sub m st =
     (case guarded (sv_api svc) ctx (m_backend_id m)
             (\<lambda>w. case up_call (sb_cancel sub ctx m) w of (e, w') \<Rightarrow> (Returns (e, ()), w')) () st of
        (Returns (e, _), st') \<Rightarrow> (e, st')
      | (Panics, st') \<Rightarrow> (None, st'))"

definition cancelOrphan ::
  "('b, 'r, 'u) service \<Rightarrow> go_context option \<Rightarrow> 'u submitter \<Rightarrow> meta \<Rightarrow> goerr \<Rightarrow> ('b, 'u) svc_state \<Rightarrow>
   goerr \<times> ('b, 'u) svc_state" where
  "cancelOrphan svc ctx sub m saveErr st =
     (case cancelUpstream svc (WithoutCancel ctx) sub m st of
        (cancelErr, (bd, w)) \<Rightarrow>
          (svc_error (err_join [Some saveErr, cancelErr]) (code_or (Some saveErr) CodeInternal) opCreate
             (if cancelErr = None then ''save in progress, upstream cancelled''
              else ''save in progress, upstream not cancelled'') [(''batch_id'', m_id m)],
           (bd, case cancelErr of None \<Rightarrow> w | Some e \<Rightarrow> w\<lparr>w_log := w_log w @ [LogOrphan m e]\<rparr>)))"

definition cancelExpired ::
  "('b, 'r, 'u) service \<Rightarrow> go_context option \<Rightarrow> backend_def \<Rightarrow> meta \<Rightarrow> ('b, 'u) svc_state \<Rightarrow> ('b, 'u) svc_state" where
  "cancelExpired svc ctx backend m st =
     (if m_upstream_batch_id m = [] \<and> m_cf_request_id m = [] then st
      else case (case sv_submitter svc backend of
                   Inl e \<Rightarrow> (Some e, st)
                 | Inr sub \<Rightarrow> cancelUpstream svc ctx sub m st) of
        (None, st') \<Rightarrow> st'
      | (Some e, (bd, w)) \<Rightarrow>
          if code_of (Some e) = CodeUnimplemented then (bd, w)
          else (bd, w\<lparr>w_log := w_log w @ [LogCancelExpired m e]\<rparr>))"

section \<open>Create\<close>

record create_request =
  cr_backend :: backend_def
  cr_public_model :: string
  cr_input_file_id :: string
  cr_completion_window :: string
  cr_job :: job

definition new_meta :: "create_request \<Rightarrow> int \<Rightarrow> int \<Rightarrow> meta" where
  "new_meta req now expiresAt = zero_meta\<lparr>
     m_endpoint := jb_endpoint (cr_job req), m_input_file_id := cr_input_file_id req,
     m_completion_window := cr_completion_window req, m_status := StatusValidating,
     m_backend_id := bk_id (cr_backend req), m_public_model := cr_public_model req,
     m_request_counts := \<lparr>rq_total = int (length (jb_lines (cr_job req))), rq_completed = 0, rq_failed = 0\<rparr>,
     m_created_at := now, m_expires_at := expiresAt\<rparr>"

text \<open>From the answer of the submit on: the record of that answer is saved whatever happens to
  the caller.\<close>

definition create_record ::
  "('b, 'r, 'u) service \<Rightarrow> go_context option \<Rightarrow> string \<Rightarrow> 'u submitter \<Rightarrow> goerr option \<Rightarrow> meta \<Rightarrow>
   ('b, 'u) svc_state \<Rightarrow> (meta \<times> goerr option) \<times> ('b, 'u) svc_state" where
  "create_record svc ctx backendID sub submitErr m st =
     (case st of (bd, w0) \<Rightarrow>
      case svc_now w0 of (now, w) \<Rightarrow>
      (case submitErr of
         Some e \<Rightarrow>
           (let m1 = m\<lparr>m_status := StatusFailed, m_failed_at := now\<rparr>;
                kvs = [(''backend'', backendID), (''batch_id'', m_id m1)]
            in case store_call True (\<lambda>env. UpdateBatch env (WithoutCancel ctx) m1) w of
                 (Some err, w') \<Rightarrow>
                   ((m1, Some (svc_error (err_join [Some e, Some err]) (code_or (Some e) CodeUnavailable) opCreate
                      ''submit, then save failed status'' kvs)), (bd, w'))
               | (None, w') \<Rightarrow> ((m1, Some (svc_error (Some e) CodeUnavailable opCreate ''submit'' kvs)), (bd, w')))
       | None \<Rightarrow>
           (let m1 = m\<lparr>m_status := StatusInProgress, m_in_progress_at := now\<rparr>
            in case store_call True (\<lambda>env. UpdateBatch env (WithoutCancel ctx) m1) w of
                 (Some err, w') \<Rightarrow>
                   (case cancelOrphan svc ctx sub m1 err (bd, w') of (e, st') \<Rightarrow> ((m1, Some e), st'))
               | (None, w') \<Rightarrow> ((m1, None), (bd, w')))))"

definition Create ::
  "('b, 'r, 'u) service \<Rightarrow> go_context option \<Rightarrow> create_request \<Rightarrow> ('b, 'u) svc_state \<Rightarrow>
   (meta \<times> goerr option) run \<times> ('b, 'u) svc_state" where
  "Create svc ctx req st0 =
     (case st0 of (bd, w0) \<Rightarrow>
      let backend = cr_backend req; backendID = bk_id backend; job = cr_job req;
          refuse = (\<lambda>e st. (Returns (zero_meta, Some e), st))
      in if \<not> HasCapability backend CapBatch then
           refuse (DomainErr (with_field
             (err_new CodeFailedPrecondition opCreate ''backend lacks batch capability'') ''backend'' backendID)) st0
         else case sv_submitter svc backend of
           Inl e \<Rightarrow> refuse (svc_error (Some e) CodeFailedPrecondition opCreate ''submitter'' [(''backend'', backendID)]) st0
         | Inr sub \<Rightarrow>
             (case sb_validate sub job of
                Some e \<Rightarrow> refuse (svc_error (Some e) CodeInvalid opCreate ''validate'' [(''backend'', backendID)]) st0
              | None \<Rightarrow>
                  (case svc_now w0 of (now, w1) \<Rightarrow>
                   case ExpiresAtUnix now (cr_completion_window req) of
                     Inl e \<Rightarrow> refuse (svc_error (Some e) CodeInvalid opCreate ''completion window'' []) (bd, w1)
                   | Inr expiresAt \<Rightarrow>
                       (case store_call False (\<lambda>env. SaveBatch env ctx (Some (new_meta req now expiresAt))) w1 of
                          ((Some e, _), w2) \<Rightarrow>
                            refuse (svc_error (Some e) CodeInternal opCreate ''save'' [(''backend'', backendID)]) (bd, w2)
                        | ((None, saved), w2) \<Rightarrow>
                            (let m = (case saved of Some m \<Rightarrow> m | None \<Rightarrow> zero_meta)
                             in case guarded (sv_api svc) ctx backendID (up_call (sb_submit sub ctx job m)) m (bd, w2) of
                                  (Panics, st3) \<Rightarrow> (Panics, st3)
                                | (Returns (submitErr, m3), st3) \<Rightarrow>
                                    (case create_record svc ctx backendID sub submitErr m3 st3 of
                                       (r, st4) \<Rightarrow> (Returns r, st4)))))))"

section \<open>Refresh and cancel\<close>

definition svc_save ::
  "bool \<Rightarrow> go_context option \<Rightarrow> string \<Rightarrow> meta \<Rightarrow> ('b, 'u) svc_state \<Rightarrow> goerr option \<times> ('b, 'u) svc_state" where
  "svc_save detached ctx op m st =
     (case st of (bd, w) \<Rightarrow>
      case store_call detached (\<lambda>env. UpdateBatch env ctx m) w of
        (Some e, w') \<Rightarrow> (Some (svc_error (Some e) CodeInternal op ''save'' [(''batch_id'', m_id m)]), (bd, w'))
      | (None, w') \<Rightarrow> (None, (bd, w')))"

text \<open>The patch of \<open>finalize\<close>: a batch that was cancelling ends cancelled.\<close>

definition outcome_patch :: "meta \<Rightarrow> int \<Rightarrow> bytes \<times> bytes \<times> nat \<times> nat \<Rightarrow> finalize_patch" where
  "outcome_patch m now out =
     (case out of (okJSONL, errJSONL, completed, failed) \<Rightarrow>
      let p = \<lparr>fp_ok = okJSONL, fp_err = errJSONL,
               fp_counts = \<lparr>rq_total = rq_total (m_request_counts m), rq_completed = int completed, rq_failed = int failed\<rparr>,
               fp_status = StatusCompleted, fp_completed_at = 0, fp_failed_at = 0, fp_cancelled_at = 0\<rparr>
      in if m_status m = StatusCancelling then p\<lparr>fp_status := StatusCancelled, fp_cancelled_at := now\<rparr>
         else if 0 < failed \<and> completed = 0 then p\<lparr>fp_status := StatusFailed, fp_failed_at := now\<rparr>
         else p\<lparr>fp_completed_at := now\<rparr>)"

definition svc_finalize ::
  "('b, 'r, 'u) service \<Rightarrow> go_context option \<Rightarrow> meta \<Rightarrow> line_result list \<Rightarrow> ('b, 'u) svc_state \<Rightarrow>
   (meta \<times> goerr option) \<times> ('b, 'u) svc_state" where
  "svc_finalize svc ctx m lines st =
     (case st of (bd, w0) \<Rightarrow>
      case svc_now w0 of (now, w) \<Rightarrow>
      (case store_call False (\<lambda>env. TryFinalizeBatch env ctx (m_id m)
              (outcome_patch m now (BuildOutput (sv_encode_error svc) lines))) w of
         ((Some e, _), w1) \<Rightarrow>
           ((m, Some (svc_error (Some e) CodeInternal opFinalize ''finalize'' [(''batch_id'', m_id m)])), (bd, w1))
       | ((None, (updated, True)), w1) \<Rightarrow> ((updated, None), (bd, w1))
       | ((None, (updated, False)), w1) \<Rightarrow>
           (case store_call False (\<lambda>env. GetBatch ctx (m_id m)) w1 of
              (Inl e, w2) \<Rightarrow>
                ((m, Some (svc_error (Some e) CodeInternal opFinalize ''reload'' [(''batch_id'', m_id m)])), (bd, w2))
            | (Inr stored, w2) \<Rightarrow> ((stored, None), (bd, w2)))))"

text \<open>The switch on the state a poll reports.\<close>

definition refresh_poll ::
  "('b, 'r, 'u) service \<Rightarrow> go_context option \<Rightarrow> meta \<Rightarrow> poll \<Rightarrow> ('b, 'u) svc_state \<Rightarrow>
   (meta \<times> goerr option) \<times> ('b, 'u) svc_state" where
  "refresh_poll svc ctx m p st0 =
     (case st0 of (bd, w0) \<Rightarrow>
      case svc_now w0 of (now, w) \<Rightarrow>
      let st = (bd, w);
          save = (\<lambda>m1. case svc_save False ctx opRefresh m1 st of (e, st') \<Rightarrow> ((m1, e), st'))
      in case po_state p of
           PollUnknown \<Rightarrow>
             ((m, Some (DomainErr (with_field (err_new CodeInternal opRefresh ''submitter returned no poll state'')
                 ''batch_id'' (m_id m)))), st)
         | PollDone \<Rightarrow> svc_finalize svc ctx m (po_lines p) st
         | PollFailed \<Rightarrow> save (m\<lparr>m_status := StatusFailed, m_failed_at := now\<rparr>)
         | PollExpired \<Rightarrow> save (m\<lparr>m_status := StatusExpired\<rparr>)
         | PollCancelled \<Rightarrow> save (m\<lparr>m_status := StatusCancelled, m_cancelled_at := now\<rparr>)
         | PollRunning \<Rightarrow>
             if m_status m \<noteq> StatusValidating then ((m, None), st)
             else save (m\<lparr>m_status := StatusInProgress\<rparr>))"

text \<open>Whether the window of a batch is over; the clock is read only when there is a window.\<close>

definition past_window :: "meta \<Rightarrow> 'u world \<Rightarrow> bool \<times> 'u world" where
  "past_window m w =
     (if 0 < m_expires_at m
      then case svc_now w of (now, w') \<Rightarrow> (m_expires_at m < now \<and> m_status m \<noteq> StatusCancelling, w')
      else (False, w))"

definition Refresh ::
  "('b, 'r, 'u) service \<Rightarrow> go_context option \<Rightarrow> backend_def \<Rightarrow> meta \<Rightarrow> ('b, 'u) svc_state \<Rightarrow>
   (meta \<times> goerr option) run \<times> ('b, 'u) svc_state" where
  "Refresh svc ctx backend m st0 =
     (if Terminal (m_status m) then (Returns (m, None), st0)
      else case st0 of (bd, w0) \<Rightarrow>
      case past_window m w0 of
        (True, w1) \<Rightarrow>
          (let m1 = m\<lparr>m_status := StatusExpired\<rparr>
           in case svc_save False ctx opRefresh m1 (cancelExpired svc ctx backend m (bd, w1)) of
                (e, st) \<Rightarrow> (Returns (m1, e), st))
      | (False, w1) \<Rightarrow>
          (case sv_submitter svc backend of
             Inl e \<Rightarrow>
               (Returns (m, Some (svc_error (Some e) CodeFailedPrecondition opRefresh ''submitter'' [(''batch_id'', m_id m)])),
                (bd, w1))
           | Inr sub \<Rightarrow>
               (case guarded (sv_api svc) ctx (m_backend_id m)
                       (\<lambda>w. case up_call (sb_poll sub ctx m) w of
                          (Panics, w') \<Rightarrow> (Panics, w')
                        | (Returns (Inl e), w') \<Rightarrow> (Returns (Some e, in_state PollUnknown), w')
                        | (Returns (Inr p), w') \<Rightarrow> (Returns (None, p), w'))
                       (in_state PollUnknown) (bd, w1) of
                  (Panics, st) \<Rightarrow> (Panics, st)
                | (Returns (Some e, _), st) \<Rightarrow>
                    (Returns (m, Some (svc_error (Some e) CodeUnavailable opRefresh ''poll'' [(''batch_id'', m_id m)])), st)
                | (Returns (None, p), st) \<Rightarrow>
                    (case refresh_poll svc ctx m p st of (r, st') \<Rightarrow> (Returns r, st')))))"

definition Cancel ::
  "('b, 'r, 'u) service \<Rightarrow> go_context option \<Rightarrow> backend_def \<Rightarrow> meta \<Rightarrow> ('b, 'u) svc_state \<Rightarrow>
   (meta \<times> goerr option) \<times> ('b, 'u) svc_state" where
  "Cancel svc ctx backend m st0 =
     (if m_status m \<noteq> StatusValidating \<and> m_status m \<noteq> StatusInProgress then ((m, None), st0)
      else case sv_submitter svc backend of
        Inl e \<Rightarrow>
          ((m, Some (svc_error (Some e) CodeFailedPrecondition opCancel ''submitter'' [(''batch_id'', m_id m)])), st0)
      | Inr sub \<Rightarrow>
          (case cancelUpstream svc ctx sub m st0 of
             (Some e, st) \<Rightarrow>
               ((m, Some (svc_error (Some e) CodeUnavailable opCancel ''cancel'' [(''batch_id'', m_id m)])), st)
           | (None, st) \<Rightarrow>
               (let m1 = m\<lparr>m_status := StatusCancelling\<rparr>
                in case svc_save True (WithoutCancel ctx) opCancel m1 st of
                     (e, st') \<Rightarrow> ((m1, e), st'))))"

section \<open>Calls under a breaker\<close>

text \<open>The call ran once, or the breaker refused it and nothing but the board changed.\<close>

lemma guarded_cases:
  assumes "guarded api ctx name f x0 (bd, w) = (r, (bd', w'))"
  obtains "f w = (r, w')" | e where "r = Returns (Some e, x0)" "w' = w"
proof -
  obtain q w1 where f: "f w = (q, w1)" by fastforce
  show ?thesis
  proof (cases bd)
    case None
    with assms f that show ?thesis
      by (cases q) (auto simp: guarded_def Execute_def)
  next
    case (Some b0)
    obtain cb b where cb: "board_breaker api (normalizeName name) b0 = (cb, b)" by fastforce
    show ?thesis
    proof (cases "br_enter api (w_clock w (w_ticks w)) cb")
      case (Inl err)
      with assms Some cb that show ?thesis
        by (auto simp: guarded_def Execute_def Let_def split: if_splits)
    next
      case (Inr cb')
      with assms Some cb f that show ?thesis
        by (cases q) (auto simp: guarded_def Execute_def Let_def)
    qed
  qed
qed

lemma up_call_store [simp]: "up_call f w = (r, w') \<Longrightarrow> w_store w' = w_store w"
  by (auto simp: up_call_def split: prod.splits)

lemma cancelUpstream_store:
  assumes "cancelUpstream svc ctx sub m (bd, w) = (e, (bd', w'))"
  shows "w_store w' = w_store w"
proof -
  obtain r bd1 w1 where g: "guarded (sv_api svc) ctx (m_backend_id m)
      (\<lambda>w. case up_call (sb_cancel sub ctx m) w of (e, w') \<Rightarrow> (Returns (e, ()), w')) () (bd, w) = (r, (bd1, w1))"
    by (rule pair_right)
  with assms have "w1 = w'" by (auto simp: cancelUpstream_def split: run.splits prod.splits)
  with g show ?thesis by (cases rule: guarded_cases) (auto split: prod.splits)
qed

lemma cancelExpired_store:
  "cancelExpired svc ctx backend m (bd, w) = (bd', w') \<Longrightarrow> w_store w' = w_store w"
  by (auto simp: cancelExpired_def split: if_splits sum.splits prod.splits option.splits dest!: cancelUpstream_store)

lemma svc_now_facts: "svc_now w = (t, w') \<Longrightarrow> w_store w' = w_store w \<and> w_up w' = w_up w"
  by (auto simp: svc_now_def)

lemma past_window_store: "past_window m w = (b, w') \<Longrightarrow> w_store w' = w_store w"
  by (auto simp: past_window_def svc_now_def split: if_splits)

text \<open>Whether every batch record of the store is as it was.\<close>

definition batches_kept :: "store option \<Rightarrow> store option \<Rightarrow> bool" where
  "batches_kept s s' \<longleftrightarrow>
     (case (s, s') of
        (Some a, Some b) \<Rightarrow> (\<forall>i. st_look b (batch_path i) = st_look a (batch_path i))
      | (None, None) \<Rightarrow> True
      | _ \<Rightarrow> False)"

definition stored :: "store option \<Rightarrow> meta \<Rightarrow> bool" where
  "stored s m \<longleftrightarrow> (case s of None \<Rightarrow> False | Some a \<Rightarrow> \<exists>i. st_look a (batch_path i) = Some (BatchMeta m))"

lemma batches_kept_refl [simp]: "batches_kept s s"
  by (simp add: batches_kept_def split: option.splits)

lemma batches_kept_trans: "batches_kept s t \<Longrightarrow> batches_kept t u \<Longrightarrow> batches_kept s u"
  by (auto simp: batches_kept_def split: option.splits)

lemma svc_save_facts:
  assumes "svc_save detached ctx op m (bd, w) = (e, (bd', w'))"
  shows "if e = None then stored (w_store w') m else batches_kept (w_store w) (w_store w')"
proof (cases "w_store w")
  case None
  with assms show ?thesis
    by (auto simp: svc_save_def store_call_def UpdateBatch_def on_store_def batches_kept_def Let_def)
next
  case (Some s)
  let ?env = "if detached then w_locks w (w_lockno w)\<lparr>le_ctx := \<lambda>_. None\<rparr> else w_locks w (w_lockno w)"
  obtain r s'' where u: "UpdateBatch ?env ctx m (Some s) = (r, s'')" by fastforce
  from UpdateBatch_facts [OF u] u assms Some show ?thesis
    by (auto simp: svc_save_def store_call_def batches_kept_def stored_def Let_def split: option.splits)
qed

lemma svc_finalize_facts:
  assumes "svc_finalize svc ctx m lines (bd, w) = ((m', e), (bd', w'))"
  shows "if e = None then stored (w_store w') m' else batches_kept (w_store w) (w_store w')"
proof -
  obtain now w1 where n: "svc_now w = (now, w1)" by fastforce
  then have st: "w_store w1 = w_store w" by (auto dest: svc_now_facts)
  let ?p = "outcome_patch m now (BuildOutput (sv_encode_error svc) lines)"
  let ?env = "w_locks w1 (w_lockno w1)"
  show ?thesis
  proof (cases "w_store w")
    case None
    with assms n st show ?thesis
      by (auto simp: svc_finalize_def store_call_def TryFinalizeBatch_def on_store_def batches_kept_def Let_def)
  next
    case (Some s)
    obtain e1 m1 a s1 where t: "TryFinalizeBatch ?env ctx (m_id m) ?p (Some s) = ((e1, (m1, a)), s1)"
      by (rule pair_left_right)
    obtain g s2 where g: "GetBatch ctx (m_id m) s1 = (g, s2)" by fastforce
    from TryFinalize_batches [OF t] obtain s1' where s1': "s1 = Some s1'"
      "\<not> a \<longrightarrow> (\<forall>b. st_look s1' (batch_path b) = st_look s (batch_path b))"
      "a \<longrightarrow> e1 = None \<and> st_look s1' (batch_path (m_id m1)) = Some (BatchMeta m1)" by blast
    from GetBatch_facts [OF g [unfolded s1'(1)]] obtain s2' where s2': "s2 = Some s2'"
      "\<forall>q. st_look s2' q = st_look s1' q" "\<forall>k. g = Inr k \<longrightarrow> st_look s1' (batch_path (trim_space (m_id m))) = Some (BatchMeta k)"
      by blast
    show ?thesis
      using assms n st Some t g s1' s2'
      by (cases e1; cases a; cases g)
        (auto simp: svc_finalize_def store_call_def batches_kept_def stored_def Let_def)
  qed
qed

lemma refresh_poll_facts:
  assumes "refresh_poll svc ctx m p (bd, w) = ((m', e), (bd', w'))"
  shows "if e = None then m' = m \<or> stored (w_store w') m' else batches_kept (w_store w) (w_store w')"
proof -
  obtain now w1 where n: "svc_now w = (now, w1)" by fastforce
  then have st: "w_store w1 = w_store w" by (auto dest: svc_now_facts)
  show ?thesis
    using assms n st svc_save_facts [of False ctx opRefresh _ bd w1 e bd' w']
      svc_finalize_facts [of svc ctx m "po_lines p" bd w1 m' e bd' w']
    by (cases "po_state p") (auto simp: refresh_poll_def Let_def split: if_splits prod.splits)
qed

lemma poll_guarded_store:
  assumes "guarded api ctx name
      (\<lambda>w. case up_call (sb_poll sub ctx m) w of
         (Panics, w') \<Rightarrow> (Panics, w')
       | (Returns (Inl e), w') \<Rightarrow> (Returns (Some e, in_state PollUnknown), w')
       | (Returns (Inr p), w') \<Rightarrow> (Returns (None, p), w')) x0 (bd, w) = (r, (bd', w'))"
  shows "w_store w' = w_store w"
  using assms
  by (cases rule: guarded_cases) (auto split: prod.splits run.splits sum.splits)

lemma Refresh_facts:
  assumes "Refresh svc ctx backend m (bd, w) = (r, (bd', w'))"
  shows "case r of Returns (m', None) \<Rightarrow> m' = m \<or> stored (w_store w') m'
    | _ \<Rightarrow> batches_kept (w_store w) (w_store w')"
proof (cases "Terminal (m_status m)")
  case True
  with assms show ?thesis by (auto simp: Refresh_def)
next
  case nt: False
  obtain late w1 where p: "past_window m w = (late, w1)" by fastforce
  then have st1: "w_store w1 = w_store w" by (rule past_window_store)
  show ?thesis
  proof (cases late)
    case True
    obtain bd2 w2 where c: "cancelExpired svc ctx backend m (bd, w1) = (bd2, w2)" by fastforce
    then have st2: "w_store w2 = w_store w" using st1 by (auto dest: cancelExpired_store)
    obtain e bd3 w3 where s: "svc_save False ctx opRefresh (m\<lparr>m_status := StatusExpired\<rparr>) (bd2, w2) = (e, (bd3, w3))"
      by (rule pair_right)
    from svc_save_facts [OF s] assms nt p True c s st2 show ?thesis
      by (auto simp: Refresh_def split: option.splits if_splits)
  next
    case False
    show ?thesis
    proof (cases "sv_submitter svc backend")
      case (Inl e)
      with assms nt p False st1 show ?thesis by (auto simp: Refresh_def)
    next
      case (Inr sub)
      let ?f = "\<lambda>w. case up_call (sb_poll sub ctx m) w of
         (Panics, w') \<Rightarrow> (Panics, w')
       | (Returns (Inl e), w') \<Rightarrow> (Returns (Some e, in_state PollUnknown), w')
       | (Returns (Inr p), w') \<Rightarrow> (Returns (None, p), w')"
      obtain q bd2 w2 where g: "guarded (sv_api svc) ctx (m_backend_id m) ?f (in_state PollUnknown) (bd, w1) = (q, (bd2, w2))"
        by (rule pair_right)
      then have st2: "w_store w2 = w_store w" using st1 by (auto dest: poll_guarded_store)
      show ?thesis
      proof (cases q)
        case Panics
        with assms nt p False Inr g st2 show ?thesis by (auto simp: Refresh_def)
      next
        case (Returns y)
        obtain e1 p1 where y: "y = (e1, p1)" by fastforce
        show ?thesis
        proof (cases e1)
          case None
          obtain m' e bd3 w3 where rp: "refresh_poll svc ctx m p1 (bd2, w2) = ((m', e), (bd3, w3))"
            by (rule pair_both)
          from refresh_poll_facts [OF rp] assms nt p False Inr g Returns y None rp st2 show ?thesis
            by (auto simp: Refresh_def split: option.splits if_splits)
        next
          case (Some e)
          with assms nt p False Inr g Returns y st2 show ?thesis by (auto simp: Refresh_def)
        qed
      qed
    qed
  qed
qed

section \<open>Which calls reach the provider\<close>

datatype up_kind = CallSubmit | CallPoll | CallCancel

text \<open>One call at the provider, and the sequences of calls that lead it from one state to another.\<close>

fun provider_step :: "'u submitter \<Rightarrow> job \<Rightarrow> up_kind \<Rightarrow> 'u \<Rightarrow> 'u \<Rightarrow> bool" where
  "provider_step sub job CallSubmit u u' \<longleftrightarrow> (\<exists>ctx m x. sb_submit sub ctx job m u = (x, u'))"
| "provider_step sub job CallPoll u u' \<longleftrightarrow> (\<exists>ctx m x. sb_poll sub ctx m u = (x, u'))"
| "provider_step sub job CallCancel u u' \<longleftrightarrow> (\<exists>ctx m x. sb_cancel sub ctx m u = (x, u'))"

inductive provider_calls :: "'u submitter \<Rightarrow> job \<Rightarrow> 'u \<Rightarrow> up_kind list \<Rightarrow> 'u \<Rightarrow> bool"
  for sub :: "'u submitter" and job :: job where
  none: "provider_calls sub job u [] u"
| call: "provider_step sub job k u u1 \<Longrightarrow> provider_calls sub job u1 ks u' \<Longrightarrow> provider_calls sub job u (k # ks) u'"

inductive_simps provider_calls_Nil [simp]: "provider_calls sub job u [] u'"
inductive_simps provider_calls_Cons: "provider_calls sub job u (k # ks) u'"

lemma provider_calls_one: "provider_step sub job k u u' \<Longrightarrow> provider_calls sub job u [k] u'"
  by (auto simp: provider_calls_Cons)

lemma provider_calls_append:
  "provider_calls sub job u ks u1 \<Longrightarrow> provider_calls sub job u1 ls u2 \<Longrightarrow> provider_calls sub job u (ks @ ls) u2"
proof (induction rule: provider_calls.induct)
  case (call k u u1 ks u')
  then have "provider_calls sub job u1 (ks @ ls) u2" by simp
  with call(1) show ?case unfolding append_Cons by (rule provider_calls.call)
qed simp

lemma store_call_up [simp]: "store_call d f w = (r, w') \<Longrightarrow> w_up w' = w_up w"
  by (auto simp: store_call_def Let_def split: prod.splits if_splits)

lemma up_call_up: "up_call f w = (r, w') \<Longrightarrow> f (w_up w) = (r, w_up w')"
  by (cases "f (w_up w)") (auto simp: up_call_def)

lemma cancelUpstream_calls:
  assumes "cancelUpstream svc ctx sub m (bd, w) = (e, (bd', w'))"
  shows "\<exists>ks \<in> {[], [CallCancel]}. provider_calls sub job (w_up w) ks (w_up w')"
proof -
  obtain r bd1 w1 where g: "guarded (sv_api svc) ctx (m_backend_id m)
      (\<lambda>w. case up_call (sb_cancel sub ctx m) w of (e, w') \<Rightarrow> (Returns (e, ()), w')) () (bd, w) = (r, (bd1, w1))"
    by (rule pair_right)
  with assms have "w1 = w'" by (auto simp: cancelUpstream_def split: run.splits prod.splits)
  with g show ?thesis
  proof (cases rule: guarded_cases)
    case 1
    obtain e2 w2 where u: "up_call (sb_cancel sub ctx m) w = (e2, w2)" by fastforce
    with 1 \<open>w1 = w'\<close> have "w2 = w'" by simp
    with up_call_up [OF u] have "provider_calls sub job (w_up w) [CallCancel] (w_up w')"
      using \<open>w2 = w'\<close> by (intro provider_calls_one) auto
    then show ?thesis by blast
  qed simp
qed

lemma create_record_facts:
  assumes "create_record svc ctx backendID sub submitErr m (bd, w) = ((m', e), (bd', w'))"
  shows "\<exists>ks \<in> {[], [CallCancel]}. provider_calls sub job (w_up w) ks (w_up w') \<and>
    (submitErr \<noteq> None \<or> e = None \<longrightarrow> ks = []) \<and> (submitErr \<noteq> None \<longrightarrow> e \<noteq> None) \<and>
    (e = None \<longrightarrow> m_status m' = StatusInProgress \<and> stored (w_store w') m')"
proof -
  obtain now w1 where n: "svc_now w = (now, w1)" by fastforce
  then have st: "w_store w1 = w_store w" "w_up w1 = w_up w" by (auto dest: svc_now_facts)
  let ?m = "if submitErr = None then m\<lparr>m_status := StatusInProgress, m_in_progress_at := now\<rparr>
            else m\<lparr>m_status := StatusFailed, m_failed_at := now\<rparr>"
  obtain u w2 where s: "store_call True (\<lambda>env. UpdateBatch env (WithoutCancel ctx) ?m) w1 = (u, w2)" by fastforce
  then have up: "w_up w2 = w_up w" using st by simp
  have sv: "u = None \<Longrightarrow> stored (w_store w2) ?m"
    using svc_save_facts [of True "WithoutCancel ctx" "[]" ?m bd w1 None bd w2] s
    by (simp add: svc_save_def)
  obtain e1 bd3 w3 where c: "cancelOrphan svc ctx sub ?m (the u) (bd, w2) = (e1, (bd3, w3))"
    by (rule pair_right)
  then have "\<exists>ks \<in> {[], [CallCancel]}. provider_calls sub job (w_up w2) ks (w_up w3)"
    using cancelUpstream_calls [of svc "WithoutCancel ctx" sub ?m bd w2 _ _ _ job]
    by (auto simp: cancelOrphan_def split: prod.splits option.splits)
  with assms n s up sv c show ?thesis
    by (cases submitErr; cases u) (auto simp: create_record_def Let_def)
qed

lemma Create_facts:
  assumes "Create svc ctx req (bd, w) = (r, (bd', w'))" and "sv_submitter svc (cr_backend req) = Inr sub"
  shows "\<exists>ks \<in> {[], [CallSubmit], [CallSubmit, CallCancel]}. provider_calls sub (cr_job req) (w_up w) ks (w_up w') \<and>
    (\<forall>m'. r = Returns (m', None) \<longrightarrow>
       ks = [CallSubmit] \<and> m_status m' = StatusInProgress \<and> stored (w_store w') m')"
proof -
  let ?job = "cr_job req" and ?id = "bk_id (cr_backend req)"
  obtain now w1 where n: "svc_now w = (now, w1)" by fastforce
  then have u1: "w_up w1 = w_up w" by (auto dest: svc_now_facts)
  show ?thesis
  proof (cases "HasCapability (cr_backend req) CapBatch \<and> sb_validate sub ?job = None")
    case False
    with assms n u1 show ?thesis
      by (cases "HasCapability (cr_backend req) CapBatch") (auto simp: Create_def Let_def)
  next
    case ok: True
    show ?thesis
    proof (cases "ExpiresAtUnix now (cr_completion_window req)")
      case (Inl e)
      with assms n u1 ok show ?thesis by (auto simp: Create_def Let_def)
    next
      case (Inr expires)
      obtain e2 saved w2 where sv: "store_call False (\<lambda>env. SaveBatch env ctx (Some (new_meta req now expires))) w1 = ((e2, saved), w2)"
        by (rule pair_left)
      then have u2: "w_up w2 = w_up w" using u1 by simp
      let ?m = "case saved of Some m \<Rightarrow> m | None \<Rightarrow> zero_meta"
      show ?thesis
      proof (cases e2)
        case (Some e)
        with assms n ok Inr sv u2 show ?thesis by (auto simp: Create_def Let_def)
      next
        case None
        obtain q bd3 w3 where g: "guarded (sv_api svc) ctx ?id (up_call (sb_submit sub ctx ?job ?m)) ?m (bd, w2) = (q, (bd3, w3))"
          by (rule pair_right)
        then have u3: "provider_calls sub ?job (w_up w) [CallSubmit] (w_up w3) \<or> w_up w3 = w_up w \<and> (\<exists>e. q = Returns (Some e, ?m))"
        proof (cases rule: guarded_cases)
          case 1
          from up_call_up [OF this] u2 show ?thesis by (auto intro!: provider_calls_one)
        next
          case (2 e)
          with u2 show ?thesis by simp
        qed
        show ?thesis
        proof (cases q)
          case Panics
          with assms n ok Inr sv None g have "r = Panics" "w' = w3" by (auto simp: Create_def Let_def)
          with u3 Panics show ?thesis by (intro bexI [of _ "[CallSubmit]"]) auto
        next
          case (Returns y)
          obtain se m3 where y: "y = (se, m3)" by fastforce
          obtain m4 e4 bd4 w4 where cr: "create_record svc ctx ?id sub se m3 (bd3, w3) = ((m4, e4), (bd4, w4))"
            by (rule pair_both)
          have r: "r = Returns (m4, e4)" "w' = w4"
            using assms n ok Inr sv None g Returns y cr by (auto simp: Create_def Let_def)
          obtain ks where k: "ks \<in> {[], [CallCancel]}" "provider_calls sub ?job (w_up w3) ks (w_up w4) \<and>
            (se \<noteq> None \<or> e4 = None \<longrightarrow> ks = []) \<and> (se \<noteq> None \<longrightarrow> e4 \<noteq> None) \<and>
            (e4 = None \<longrightarrow> m_status m4 = StatusInProgress \<and> stored (w_store w4) m4)"
            using create_record_facts [OF cr, of ?job] by (rule bexE)
          note ks = k(1) k(2) [THEN conjunct1] k(2) [THEN conjunct2]
          from u3 show ?thesis
          proof
            assume "provider_calls sub ?job (w_up w) [CallSubmit] (w_up w3)"
            then have "provider_calls sub ?job (w_up w) ([CallSubmit] @ ks) (w_up w4)"
              using ks(2) by (rule provider_calls_append)
            with ks(1,3) r show ?thesis by (intro bexI [of _ "[CallSubmit] @ ks"]) auto
          next
            assume "w_up w3 = w_up w \<and> (\<exists>e. q = Returns (Some e, ?m))"
            with ks r Returns y show ?thesis by (intro bexI [of _ "[]"]) auto
          qed
        qed
      qed
    qed
  qed
qed

text \<open>Without breakers, a job that is valid and whose record is saved is submitted, and at most a cancel
  follows.\<close>

lemma Create_runs_submit:
  assumes "HasCapability (cr_backend req) CapBatch" "sv_submitter svc (cr_backend req) = Inr sub"
    and "sb_validate sub (cr_job req) = None" "svc_now w = (now, w1)" "ExpiresAtUnix now (cr_completion_window req) = Inr ex"
    and "store_call False (\<lambda>env. SaveBatch env ctx (Some (new_meta req now ex))) w1 = ((None, saved), w2)"
  shows "\<exists>x bd' w' m ks. Create svc ctx req (None, w) = (x, (bd', w')) \<and> ks \<in> {[], [CallCancel]} \<and>
    provider_calls sub (cr_job req) (snd (sb_submit sub ctx (cr_job req) m (w_up w))) ks (w_up w')"
proof -
  let ?m = "case saved of Some m \<Rightarrow> m | None \<Rightarrow> zero_meta"
  have up: "w_up w2 = w_up w" using assms(4,6) by (auto dest: svc_now_facts)
  obtain q w3 where g: "up_call (sb_submit sub ctx (cr_job req) ?m) w2 = (q, w3)" by (rule prod.exhaust)
  then have sent: "w_up w3 = snd (sb_submit sub ctx (cr_job req) ?m (w_up w))"
    using up_call_up [OF g] up by simp
  have run: "Create svc ctx req (None, w) = (case q of Panics \<Rightarrow> (Panics, (None, w3))
      | Returns (e, m3) \<Rightarrow> (case create_record svc ctx (bk_id (cr_backend req)) sub e m3 (None, w3) of (r, st4) \<Rightarrow> (Returns r, st4)))"
    using assms g by (simp add: Create_def guarded_def Execute_def Let_def split: run.splits prod.splits)
  show ?thesis
  proof (cases q)
    case Panics
    with run sent show ?thesis by (intro exI [of _ Panics] exI [of _ None] exI [of _ w3] exI [of _ ?m] exI [of _ "[]"]) simp
  next
    case (Returns y)
    obtain e m3 where y: "y = (e, m3)" by fastforce
    obtain m4 e4 bd4 w4 where cr: "create_record svc ctx (bk_id (cr_backend req)) sub e m3 (None, w3) = ((m4, e4), (bd4, w4))"
      by (rule pair_both)
    obtain ks where ks: "ks \<in> {[], [CallCancel]}" "provider_calls sub (cr_job req) (w_up w3) ks (w_up w4)"
      using create_record_facts [OF cr, of "cr_job req"] by blast
    with run Returns y cr sent show ?thesis
      by (intro exI [of _ "Returns (m4, e4)"] exI [of _ bd4] exI [of _ w4] exI [of _ ?m] exI [of _ ks]) simp
  qed
qed

text \<open>A provider that writes down the calls it gets.\<close>

definition recorded :: "'u submitter \<Rightarrow> ('u \<times> up_kind list) submitter" where
  "recorded sub = \<lparr>
     sb_validate = sb_validate sub,
     sb_submit = (\<lambda>ctx job m (u, ks). case sb_submit sub ctx job m u of (r, u') \<Rightarrow> (r, (u', ks @ [CallSubmit]))),
     sb_poll = (\<lambda>ctx m (u, ks). case sb_poll sub ctx m u of (r, u') \<Rightarrow> (r, (u', ks @ [CallPoll]))),
     sb_cancel = (\<lambda>ctx m (u, ks). case sb_cancel sub ctx m u of (r, u') \<Rightarrow> (r, (u', ks @ [CallCancel])))\<rparr>"

abbreviation calls :: "('u \<times> up_kind list) world \<Rightarrow> up_kind list" where
  "calls w \<equiv> snd (w_up w)"

lemma recorded_calls: "provider_calls (recorded sub) job u ks u' \<Longrightarrow> snd u' = snd u @ ks"
proof (induction rule: provider_calls.induct)
  case (call k u u1 ks u')
  have "snd u1 = snd u @ [k]"
    using call(1) by (cases k; cases u; cases u1) (auto simp: recorded_def split_beta)
  with call(3) show ?case by simp
qed simp

section \<open>Properties\<close>

text \<open>A service over one provider, without breakers, and a world around a store.\<close>

definition agreeable :: "unit submitter" where
  "agreeable = \<lparr>sb_validate = \<lambda>_. None, sb_submit = \<lambda>_ _ m u. (Returns (None, m\<lparr>m_upstream_batch_id := ''up''\<rparr>), u),
     sb_poll = \<lambda>_ _ u. (Returns (Inr (in_state PollFailed)), u), sb_cancel = \<lambda>_ _ u. (None, u)\<rparr>"

definition world_of :: "store \<Rightarrow> 'u \<Rightarrow> 'u world" where
  "world_of s u = \<lparr>w_store = Some s, w_up = u, w_locks = \<lambda>_. free_lock, w_lockno = 0, w_clock = \<lambda>_. 0, w_ticks = 0, w_log = []\<rparr>"

definition sample_service :: "'u submitter \<Rightarrow> (count_breaker, nat, 'u) service" where
  "sample_service sub = \<lparr>sv_api = count_api, sv_submitter = \<lambda>_. Inr sub, sv_encode_error = \<lambda>_. []\<rparr>"

text \<open>Creating a batch sends it to the provider at most once. Without an error it was sent, the
  stored record is the returned one and it is in progress; a cancel follows only a submit that was
  answered, and only when the answer could not be recorded.\<close>

theorem create_submits_at_most_once:
  assumes "Create svc ctx req (bd, w) = (r, (bd', w'))" and "sv_submitter svc (cr_backend req) = Inr (recorded sub)"
  shows "\<exists>ks \<in> {[], [CallSubmit], [CallSubmit, CallCancel]}. calls w' = calls w @ ks \<and>
    (\<forall>m'. r = Returns (m', None) \<longrightarrow>
       ks = [CallSubmit] \<and> m_status m' = StatusInProgress \<and> stored (w_store w') m')"
  using Create_facts [OF assms] by (blast dest: recorded_calls)

definition sample_request :: create_request where
  "sample_request = \<lparr>cr_backend = claude_backend, cr_public_model = ''m'', cr_input_file_id = ''file_in'',
     cr_completion_window = ''24h'', cr_job = \<lparr>jb_downstream = ''m'', jb_endpoint = EndpointChatCompletions, jb_lines = []\<rparr>\<rparr>"

theorem create_submits_at_most_once_witness:
  "\<exists>r bd' w' ks. Create (sample_service (recorded agreeable)) (Some alive) sample_request
       (None, world_of (sample_store []) ((), [])) = (r, (bd', w')) \<and>
     ks \<in> {[], [CallSubmit], [CallSubmit, CallCancel]} \<and> calls w' = ks"
proof -
  obtain r bd' w' where c: "Create (sample_service (recorded agreeable)) (Some alive) sample_request
       (None, world_of (sample_store []) ((), [])) = (r, (bd', w'))" by (rule pair_right)
  from create_submits_at_most_once [OF c, of agreeable] c show ?thesis
    by (auto simp: sample_service_def world_of_def)
qed

text \<open>What a refresh reports is what is stored: without an error the batch returned is the one
  given, unchanged, or a record of the store; with an error, or when the provider's adapter panics,
  no record of a batch has changed.\<close>

theorem refresh_reports_the_store:
  assumes "Refresh svc ctx backend m (bd, w) = (r, (bd', w'))"
  shows "case r of Returns (m', None) \<Rightarrow> m' = m \<or> stored (w_store w') m'
    | _ \<Rightarrow> batches_kept (w_store w) (w_store w')"
  by (rule Refresh_facts [OF assms])

theorem refresh_reports_the_store_witness:
  "\<exists>r bd' w'. Refresh (sample_service agreeable) (Some alive) claude_backend sample_meta
       (None, world_of (sample_store []) ()) = (r, (bd', w')) \<and>
     (case r of Returns (m', None) \<Rightarrow> m' = sample_meta \<or> stored (w_store w') m'
      | _ \<Rightarrow> batches_kept (w_store (world_of (sample_store []) ())) (w_store w'))"
proof -
  obtain r bd' w' where c: "Refresh (sample_service agreeable) (Some alive) claude_backend sample_meta
       (None, world_of (sample_store []) ()) = (r, (bd', w'))" by (rule pair_right)
  with refresh_reports_the_store [OF c] show ?thesis by blast
qed

text \<open>C23: A record that is out of date undoes a finished batch: when a cancel starts from a record read
  while the batch ran, and the batch is finished meanwhile, the cancel overwrites the finished record
  by the old one. The batch is open again, its output files are no longer named, and it can be
  finalised a second time.\<close>

theorem stale_cancel_reopens_batch:
  assumes "w_store w = Some s" and "st_faults s = []" and "lock_free (w_locks w (w_lockno w))"
    and "st_look s (batch_path (m_id m)) = Some (BatchMeta finished)" and "Terminal (m_status finished)"
    and "m_status m = StatusInProgress" and "checkID ''batch.UpdateBatch'' (m_id m) = Inr i"
    and "sv_submitter svc backend = Inr sub" and "sb_cancel sub (Some ctx) m (w_up w) = (None, u)"
  shows "\<exists>m' w' s'. Cancel svc (Some ctx) backend m (None, w) = ((m', None), (None, w')) \<and>
    w_store w' = Some s' \<and> st_look s' (batch_path (m_id m)) = Some (BatchMeta m') \<and>
    m' = m\<lparr>m_status := StatusCancelling\<rparr> \<and> statusAllowsFinalize (m_status m')"
proof -
  let ?m = "m\<lparr>m_status := StatusCancelling\<rparr>" and ?env = "w_locks w (w_lockno w)\<lparr>le_ctx := \<lambda>_. None\<rparr>"
  have "lock_free ?env" using assms(3) by (simp add: lock_free_def)
  then obtain s' where u: "UpdateBatch ?env (WithoutCancel (Some ctx)) ?m (Some s) = (None, Some s')"
    using UpdateBatch_quiet [OF assms(2), of ?env ?m i] assms(7) by (auto simp: WithoutCancel_def)
  have "cancelUpstream svc (Some ctx) sub m (None, w) = (None, (None, w\<lparr>w_up := u\<rparr>))"
    using assms(9) by (simp add: cancelUpstream_def guarded_def Execute_def up_call_def)
  with assms(1,6,8) u UpdateBatch_facts [OF u] show ?thesis
    by (simp add: Cancel_def svc_save_def store_call_def statusAllowsFinalize_def)
qed

definition finished_store :: store where
  "finished_store = (sample_store [])\<lparr>st_disk :=
     (st_disk (sample_store []))\<lparr>dk_files := [(batch_path ''batch_1'',
       BatchMeta (sample_meta\<lparr>m_status := StatusCompleted, m_output_file_id := ''file_out''\<rparr>))]\<rparr>\<rparr>"

theorem stale_cancel_reopens_batch_witness:
  "\<exists>m' w' s'. Cancel (sample_service agreeable) (Some alive) claude_backend sample_meta
       (None, world_of finished_store ()) = ((m', None), (None, w')) \<and>
     w_store w' = Some s' \<and> st_look s' (batch_path ''batch_1'') = Some (BatchMeta m') \<and>
     m_output_file_id m' = [] \<and> m_status m' = StatusCancelling"
proof -
  let ?w = "world_of finished_store ()"
  let ?done = "sample_meta\<lparr>m_status := StatusCompleted, m_output_file_id := ''file_out''\<rparr>"
  have "w_store ?w = Some finished_store" "st_faults finished_store = []" "lock_free (w_locks ?w (w_lockno ?w))"
    "st_look finished_store (batch_path (m_id sample_meta)) = Some (BatchMeta ?done)" "Terminal (m_status ?done)"
    "m_status sample_meta = StatusInProgress" "sv_submitter (sample_service agreeable) claude_backend = Inr agreeable"
    "sb_cancel agreeable (Some alive) sample_meta (w_up ?w) = (None, ())"
    by (simp_all add: world_of_def finished_store_def sample_store_def st_look_def look_def Terminal_def sample_meta_def
        sample_service_def agreeable_def)
  moreover have "checkID ''batch.UpdateBatch'' (m_id sample_meta) = Inr ''batch_1''"
    by (simp add: sample_meta_def sample_check)
  ultimately show ?thesis
    using stale_cancel_reopens_batch [of ?w finished_store sample_meta ?done "''batch_1''" "sample_service agreeable" claude_backend agreeable alive "()"]
    by (auto simp: sample_meta_def zero_meta_def)
qed

end
