(* ===== verification/Provider_Transport.thy ===== *)
theory Provider_Transport
  imports Outbound Batch_Service
begin

text \<open>
  The transport of the provider batch clients, built from the outbound seam: the method \<open>run\<close> of
  \<open>internal/clients/cloudflare/workersai.go\<close> and the sending part of the method \<open>do\<close> of
  \<open>internal/clients/openrouter/batch.go\<close>. On it the layers compose: a batch that the service
  creates puts at most one request on the wire, and the clients leave no body open.
\<close>

section \<open>The transport\<close>

text \<open>A request whose body is a byte slice can be reopened; an empty one is \<open>http.NoBody\<close>.\<close>

definition bytes_request :: "string \<Rightarrow> string \<Rightarrow> bytes option \<Rightarrow> request" where
  "bytes_request meth target payload =
     (let body = (if payload = Some [] then None else payload)
      in \<lparr>rq_method = meth, rq_url = target, rq_body = body, rq_get_body = map_option Inr body\<rparr>)"

text \<open>What a client knows: the library, the backoff jitter, its breaker's name, its HTTP client, how
  a context looks to the seam, and which URLs parse.\<close>

record ('b, 'u) seam =
  se_failsafe :: "('b, 'u) failsafe"
  se_jitter :: "int \<Rightarrow> int"
  se_name :: string
  se_client :: "'u wire option"
  se_context :: "go_context \<Rightarrow> 'u out_ctx"
  se_parse :: "string \<Rightarrow> goerr option"

text \<open>Once, or under the retry policy. With an error the response is closed; the client reads the
  body of any other and closes it when it returns. A nil response without an error, which the
  contract of the executor excludes, is the error case too.\<close>

definition seam_send ::
  "('b, 'u) seam \<Rightarrow> go_context option \<Rightarrow> bool \<Rightarrow> string \<Rightarrow> string \<Rightarrow> bytes option \<Rightarrow> 'b policies \<times> 'u exchange \<Rightarrow>
   (goerr + http_answer) \<times> 'b policies \<times> 'u exchange" where
  "seam_send se ctx retry meth target payload ps =
     (let req = Some (bytes_request meth target payload); c = map_option (se_context se) ctx;
          send = (if retry then Do (se_failsafe se) (se_jitter se) c (se_name se) (se_client se) req
                  else DoOnce (se_failsafe se) c (se_name se) (se_client se) req)
      in case send ps of
           ((resp, Some e), p, s) \<Rightarrow> (Inl e, p, CloseResponse resp s)
         | ((Some r, None), p, s) \<Rightarrow> (Inr (rs_answer r), p, CloseResponse (Some r) s)
         | ((None, None), p, s) \<Rightarrow> (Inl (Leaf ''nil response''), p, s))"

definition seam_transport :: "('b, 'u) seam \<Rightarrow> ('b policies \<times> 'u exchange) transport" where
  "seam_transport se = \<lparr>tr_request = se_parse se, tr_send = seam_send se\<rparr>"

section \<open>One request\<close>

text \<open>How many requests a step may put on the wire.\<close>

definition sends_at_most :: "nat \<Rightarrow> 'b policies \<times> 'u exchange \<Rightarrow> 'b policies \<times> 'u exchange \<Rightarrow> bool" where
  "sends_at_most n st st' \<longleftrightarrow>
     (\<exists>ts. ex_sent (snd st') = ex_sent (snd st) @ ts \<and> length ts \<le> n)"

lemma sends_refl [simp]: "sends_at_most n st st"
  by (auto simp: sends_at_most_def)

lemma sends_mono: "sends_at_most n st st' \<Longrightarrow> n \<le> m \<Longrightarrow> sends_at_most m st st'"
  by (auto simp: sends_at_most_def)

lemma sends_closed [simp]:
  "sends_at_most n st (p, CloseResponse r s) = sends_at_most n st (p, s)"
  by (simp add: sends_at_most_def CloseResponse_def split: option.split)

lemma once_sends:
  assumes "executor_contract fs" and "DoOnce fs ctx name client (Some rq) (p, s) = (x, p', s')"
  shows "sends_at_most 1 (p, s) (p', s')"
proof (cases x)
  case (Pair resp e)
  with DoOnce_sent [OF assms(1)] assms(2) show ?thesis by (fastforce simp: sends_at_most_def)
qed

lemma seam_once:
  assumes "executor_contract (se_failsafe se)" and "seam_send se ctx False meth target payload st = (x, st')"
  shows "sends_at_most 1 st st'"
proof -
  obtain p s where st: "st = (p, s)" by (rule prod.exhaust)
  obtain resp e p1 s1 where r: "DoOnce (se_failsafe se) (map_option (se_context se) ctx) (se_name se) (se_client se)
      (Some (bytes_request meth target payload)) (p, s) = ((resp, e), p1, s1)" by (metis prod.exhaust)
  have "st' \<in> {(p1, s1), (p1, CloseResponse resp s1)}"
    using assms(2) st r by (cases e; cases resp) (auto simp: seam_send_def Let_def)
  with once_sends [OF assms(1) r] st show ?thesis by auto
qed

text \<open>A send gives back what it opened.\<close>

lemma seam_closes:
  assumes "executor_contract (se_failsafe se)" and "seam_send se ctx retry meth target payload (p, s) = (x, p', s')"
    and "opened s"
  shows "opened s' \<and> ex_open s' = ex_open s"
proof -
  let ?c = "map_option (se_context se) ctx" and ?req = "Some (bytes_request meth target payload)"
  obtain resp e p1 s1 where r: "(if retry then Do (se_failsafe se) (se_jitter se) ?c (se_name se) (se_client se) ?req
      else DoOnce (se_failsafe se) ?c (se_name se) (se_client se) ?req) (p, s) = ((resp, e), p1, s1)" by (metis prod.exhaust)
  then have h: "handed_back (ex_open s) (resp, e) s1"
    using Do_handed_back [OF assms(1) _ assms(3)] DoOnce_handed_back [OF assms(1) _ assms(3)]
    by (cases retry) auto
  show ?thesis
  proof (cases e)
    case None
    then obtain r' k where k: "resp = Some r'" "rs_handle r' = Some k" "k \<notin> set (ex_open s)" "ex_open s1 = k # ex_open s"
      using h by (auto simp: handed_back_def)
    then have "ex_open (CloseResponse resp s1) = ex_open s" by (auto simp: CloseResponse_def intro: filter_True)
    moreover have "s' = CloseResponse resp s1" using assms(2) r None k(1) by (auto simp: seam_send_def Let_def)
    moreover have "opened s1" using h by (simp add: handed_back_def)
    ultimately show ?thesis using k(4) by (auto intro!: opened_less [of s1] simp: subset_iff)
  next
    case (Some e')
    then have "s' = CloseResponse resp s1" using assms(2) r by (cases resp) (auto simp: seam_send_def Let_def)
    moreover have "CloseResponse resp s1 = s1" using h Some
      by (auto simp: CloseResponse_def handed_back_def split: option.split)
    ultimately show ?thesis using h Some by (simp add: handed_back_def)
  qed
qed

section \<open>The clients on it\<close>

lemma or_do_post_sends:
  assumes "executor_contract (se_failsafe se)" and "or_do (seam_transport se) ctx ''POST'' target payload st = (x, st')"
  shows "sends_at_most 1 st st'"
proof -
  obtain y st1 where s: "seam_send se ctx False ''POST'' target payload st = (y, st1)" by (rule prod.exhaust)
  from assms(2) s have "st' \<in> {st, st1}"
    by (auto simp: or_do_def seam_transport_def split: option.splits sum.splits if_splits)
  with seam_once [OF assms(1) s] show ?thesis by auto
qed

lemma or_submit_sends:
  assumes "executor_contract (se_failsafe se)" and "or_SubmitBatch (seam_transport se) base ctx model endpoint lines st = (x, st')"
  shows "sends_at_most 1 st st'"
proof -
  have "st' = st \<or> (\<exists>target payload y. or_do (seam_transport se) ctx ''POST'' target payload st = (y, st'))"
    using assms(2) by (auto simp: or_SubmitBatch_def Let_def split: option.splits sum.splits prod.splits if_splits)
  then show ?thesis using or_do_post_sends [OF assms(1)] sends_refl by blast
qed

lemma cf_run_sends:
  assumes "executor_contract (se_failsafe se)" and "postBatchRun (seam_transport se) c ctx model payload False st = (x, st')"
  shows "sends_at_most 1 st st'"
proof -
  obtain y st1 where s: "seam_send se ctx False ''POST'' (batchRunURL (cf_api_base c) model) (Some payload) st = (y, st1)"
    by (rule prod.exhaust)
  from assms(2) s have "st' \<in> {st, st1}"
    by (auto simp: postBatchRun_def seam_transport_def Let_def split: option.splits sum.splits if_splits)
  with seam_once [OF assms(1) s] show ?thesis by auto
qed

lemma cf_submit_sends:
  assumes "executor_contract (se_failsafe se)" and "cf_SubmitBatch (seam_transport se) client ctx model endpoint lines st = (x, st')"
  shows "sends_at_most 1 st st'"
proof -
  have "st' = st \<or> (\<exists>c model payload y. postBatchRun (seam_transport se) c ctx model payload False st = (y, st'))"
    using assms(2) by (auto simp: cf_SubmitBatch_def Let_def split: option.splits sum.splits prod.splits run.splits if_splits)
  then show ?thesis using cf_run_sends [OF assms(1)] sends_refl by blast
qed

text \<open>Fetching a client sends nothing.\<close>

definition quiet_getter :: "('b policies \<times> 'u exchange \<Rightarrow> 'c \<times> 'b policies \<times> 'u exchange) \<Rightarrow> bool" where
  "quiet_getter client \<longleftrightarrow> (\<forall>st x st'. client st = (x, st') \<longrightarrow> ex_sent (snd st') = ex_sent (snd st))"

lemma sends_after_getter:
  "quiet_getter client \<Longrightarrow> client st = (x, st1) \<Longrightarrow> sends_at_most n st1 st2 \<Longrightarrow> sends_at_most n st st2"
  unfolding quiet_getter_def sends_at_most_def by metis

text \<open>A provider whose submit sends at most one request and whose cancel sends none.\<close>

definition frugal :: "('b policies \<times> 'u exchange) submitter \<Rightarrow> bool" where
  "frugal sub \<longleftrightarrow>
     (\<forall>ctx job m st x st'. sb_submit sub ctx job m st = (x, st') \<longrightarrow> sends_at_most 1 st st') \<and>
     (\<forall>ctx m st x st'. sb_cancel sub ctx m st = (x, st') \<longrightarrow> st' = st)"

lemma openrouter_frugal:
  assumes "executor_contract (se_failsafe se)" and "quiet_getter client"
  shows "frugal (openRouterSubmitter (seam_transport se) client)"
proof -
  have "sends_at_most 1 st st'" if s: "sb_submit (openRouterSubmitter (seam_transport se) client) ctx job m st = (x, st')"
    for ctx job m st x st'
  proof -
    obtain c st1 where c: "client st = (c, st1)" by (rule prod.exhaust)
    have "st' = st1 \<or> (\<exists>base y. or_SubmitBatch (seam_transport se) base ctx (jb_downstream job) (jb_endpoint job) (jb_lines job) st1 = (y, st'))"
      using s c by (auto simp: openRouterSubmitter_def split: sum.splits prod.splits)
    then have "sends_at_most 1 st1 st'" using or_submit_sends [OF assms(1)] sends_refl by blast
    with sends_after_getter [OF assms(2) c] show ?thesis .
  qed
  moreover have "st' = st" if "sb_cancel (openRouterSubmitter (seam_transport se) client) ctx m st = (x, st')" for ctx m st x st'
    using that by (simp add: openRouterSubmitter_def)
  ultimately show ?thesis unfolding frugal_def by blast
qed

lemma cloudflare_frugal:
  assumes "executor_contract (se_failsafe se)" and "quiet_getter client"
  shows "frugal (cloudflareSubmitter (seam_transport se) client now)"
proof -
  have "sends_at_most 1 st st'" if s: "sb_submit (cloudflareSubmitter (seam_transport se) client now) ctx job m st = (x, st')"
    for ctx job m st x st'
  proof -
    obtain c st1 where c: "client st = (c, st1)" by (rule prod.exhaust)
    have "st' = st1 \<or> (\<exists>cl y. cf_SubmitBatch (seam_transport se) cl ctx (jb_downstream job) (jb_endpoint job) (jb_lines job) st1 = (y, st'))"
      using s c by (auto simp: cloudflareSubmitter_def Let_def split: sum.splits prod.splits run.splits)
    then have "sends_at_most 1 st1 st'" using cf_submit_sends [OF assms(1)] sends_refl by blast
    with sends_after_getter [OF assms(2) c] show ?thesis .
  qed
  moreover have "st' = st" if "sb_cancel (cloudflareSubmitter (seam_transport se) client now) ctx m st = (x, st')" for ctx m st x st'
    using that by (simp add: cloudflareSubmitter_def)
  ultimately show ?thesis unfolding frugal_def by blast
qed

section \<open>Properties\<close>

text \<open>C17: From the service down to the wire, creating a batch sends at most one request, whatever the provider
  answers: the service submits once, the clients send once without the retry policy, and neither an orphaned batch
  nor a failed save adds one. Workers AI and OpenRouter alike, with getters of their clients that send nothing.\<close>

theorem create_sends_one_request:
  assumes "executor_contract (se_failsafe se)" and "quiet_getter cf_client" and "quiet_getter or_client"
    and "sv_submitter svc (cr_backend req) = Inr sub"
    and "sub \<in> {cloudflareSubmitter (seam_transport se) cf_client now, openRouterSubmitter (seam_transport se) or_client}"
    and "Create svc ctx req (bd, w) = (r, (bd', w'))"
  shows "sends_at_most 1 (w_up w) (w_up w')"
proof -
  have f: "frugal sub" using assms(5) cloudflare_frugal [OF assms(1,2)] openrouter_frugal [OF assms(1,3)] by auto
  then have submit: "provider_step sub (cr_job req) CallSubmit st st' \<Longrightarrow> sends_at_most 1 st st'"
    and cancel: "provider_step sub (cr_job req) CallCancel st st' \<Longrightarrow> st' = st" for st st'
    unfolding frugal_def provider_step.simps by blast+
  obtain ks where "ks \<in> {[], [CallSubmit], [CallSubmit, CallCancel]}" "provider_calls sub (cr_job req) (w_up w) ks (w_up w')"
    using Create_facts [OF assms(6,4)] by blast
  then consider "w_up w' = w_up w" | "provider_step sub (cr_job req) CallSubmit (w_up w) (w_up w')"
    | st where "provider_step sub (cr_job req) CallSubmit (w_up w) st" "provider_step sub (cr_job req) CallCancel st (w_up w')"
    unfolding insert_iff empty_iff by (elim disjE) (simp_all only: provider_calls_Cons provider_calls_Nil, blast+)
  then show ?thesis by cases (use submit cancel in \<open>simp, blast, blast\<close>)
qed

definition sample_seam :: "(unit, nat) seam" where
  "sample_seam = \<lparr>se_failsafe = plain_failsafe, se_jitter = \<lambda>d. d, se_name = ''cloudflare/cf'', se_client = Some sample_wire,
     se_context = \<lambda>_. sample_ctx, se_parse = \<lambda>_. None\<rparr>"

definition sample_getter :: "unit policies \<times> nat exchange \<Rightarrow> (goerr + cf_client) \<times> unit policies \<times> nat exchange" where
  "sample_getter st = (Inr \<lparr>cf_api_base = ''b''\<rparr>, st)"

abbreviation sample_provider where
  "sample_provider \<equiv> cloudflareSubmitter (seam_transport sample_seam) sample_getter (\<lambda>_. 0)"

text \<open>A batch of embeddings whose one request is answered with a 503: it is sent, and not again.\<close>

definition embed_lines :: "input_line list" where
  "embed_lines = [\<lparr>il_custom_id = ''a'', il_method = ''POST'', il_url = EndpointEmbeddings, il_body = ''{\"input\":\"hi\"}''\<rparr>]"

definition embed_request :: create_request where
  "embed_request = sample_request\<lparr>cr_job :=
     \<lparr>jb_downstream = ''@cf/baai/bge-base-en-v1.5'', jb_endpoint = EndpointEmbeddings, jb_lines = embed_lines\<rparr>\<rparr>"

definition idle_provider :: "unit policies \<times> nat exchange" where
  "idle_provider = (NewPolicies (\<lambda>d. d), fresh_exchange 0)"

lemma embed_submit_sends:
  "length (ex_sent (snd (snd (cf_SubmitBatch (seam_transport sample_seam) (Some \<lparr>cf_api_base = ''b''\<rparr>) (Some alive)
     ''@cf/baai/bge-base-en-v1.5'' EndpointEmbeddings embed_lines idle_provider)))) = 1"
  by code_simp

lemma embed_creation_sends:
  "\<exists>r bd' w'. Create (sample_service sample_provider) (Some alive) embed_request
     (None, world_of (sample_store []) idle_provider) = (r, (bd', w')) \<and> length (ex_sent (snd (w_up w'))) = 1"
proof -
  let ?w = "world_of (sample_store []) idle_provider"
  have f: "HasCapability claude_backend CapBatch" "ModelSupportsBatch ''@cf/baai/bge-base-en-v1.5''" "ExpiresAtUnix 0 ''24h'' = Inr 86400"
    by code_simp+
  then have v: "HasCapability (cr_backend embed_request) CapBatch" "sb_validate sample_provider (cr_job embed_request) = None"
    "ExpiresAtUnix 0 (cr_completion_window embed_request) = Inr 86400"
    by (simp_all add: embed_request_def sample_request_def cloudflareSubmitter_def)
  have t: "checkID op (newID ''batch'' ''AAAA'') = Inr (newID ''batch'' ''AAAA'')" for op
    using checkID_chars [OF sample_check(2)] by (simp add: checkID_def Let_def, code_simp)
  obtain saved s' where s: "SaveBatch free_lock (Some alive) (Some (new_meta embed_request 0 86400)) (Some (sample_store [])) =
      ((None, saved), Some s')"
    using that by (simp add: SaveBatch_def on_store_def new_meta_def zero_meta_def draw_id_def unixNow_def sample_store_def
        Let_def withWriteLock_free writeBatchMeta_def t write_entry_quiet)
  obtain r bd' w' m ks where c: "Create (sample_service sample_provider) (Some alive) embed_request (None, ?w) = (r, (bd', w'))"
    "ks \<in> {[], [CallCancel]}" "provider_calls sample_provider (cr_job embed_request)
      (snd (sb_submit sample_provider (Some alive) (cr_job embed_request) m (w_up ?w))) ks (w_up w')"
    using Create_runs_submit [OF v(1) _ v(2) _ v(3), of "sample_service sample_provider" ?w "?w\<lparr>w_ticks := 1\<rparr>" "Some alive" saved] s
    by (fastforce simp: sample_service_def svc_now_def world_of_def store_call_def)
  have "provider_calls sample_provider job u ks u' \<Longrightarrow> u' = u" for job u u'
    using c(2) by (auto simp: provider_calls_Cons provider_step.simps cloudflareSubmitter_def)
  with c(3) have "w_up w' = snd (sb_submit sample_provider (Some alive) (cr_job embed_request) m idle_provider)"
    by (simp add: world_of_def)
  moreover have "snd (sb_submit sample_provider (Some alive) (cr_job embed_request) m idle_provider) =
      snd (cf_SubmitBatch (seam_transport sample_seam) (Some \<lparr>cf_api_base = ''b''\<rparr>) (Some alive)
        ''@cf/baai/bge-base-en-v1.5'' EndpointEmbeddings embed_lines idle_provider)"
    by (simp add: cloudflareSubmitter_def sample_getter_def embed_request_def Let_def split: prod.split run.split sum.split)
  ultimately show ?thesis using c(1) embed_submit_sends by auto
qed

theorem create_sends_one_request_witness:
  "\<exists>r bd' w'. Create (sample_service sample_provider) (Some alive) embed_request
     (None, world_of (sample_store []) idle_provider) = (r, (bd', w')) \<and>
     sends_at_most 1 (w_up (world_of (sample_store []) idle_provider)) (w_up w') \<and> length (ex_sent (snd (w_up w'))) = 1"
proof -
  obtain r bd' w' where c: "Create (sample_service sample_provider) (Some alive) embed_request
       (None, world_of (sample_store []) idle_provider) = (r, (bd', w'))" "length (ex_sent (snd (w_up w'))) = 1"
    using embed_creation_sends by blast
  have k: "executor_contract (se_failsafe sample_seam)" using plain_contract by (simp add: sample_seam_def)
  have q: "quiet_getter sample_getter" "quiet_getter (\<lambda>st. (Inl (Leaf ''none''), st))"
    unfolding quiet_getter_def sample_getter_def by auto
  have s: "sv_submitter (sample_service sample_provider) (cr_backend embed_request) = Inr sample_provider"
    by (simp add: sample_service_def)
  from create_sends_one_request [OF k q s _ c(1), of "\<lambda>_. 0"] c show ?thesis by simp
qed

text \<open>The clients leak no connection: whatever a provider answers, after a send through the seam
  exactly the bodies are open that were open before.\<close>

theorem clients_leave_no_body_open:
  assumes "executor_contract (se_failsafe se)" and "opened s"
    and "tr_send (seam_transport se) ctx retry meth target payload (p, s) = (x, p', s')"
  shows "opened s' \<and> ex_open s' = ex_open s"
  using seam_closes [OF assms(1) _ assms(2)] assms(3) by (simp add: seam_transport_def)

theorem clients_leave_no_body_open_witness:
  "\<exists>x p' s'. tr_send (seam_transport sample_seam) (Some alive) True ''POST'' ''u'' (Some ''b'')
     (NewPolicies (\<lambda>d. d), fresh_exchange 0) = (x, p', s') \<and> ex_open s' = []"
proof -
  obtain x p' s' where t: "tr_send (seam_transport sample_seam) (Some alive) True ''POST'' ''u'' (Some ''b'')
     (NewPolicies (\<lambda>d. d), fresh_exchange 0) = (x, p', s')" by (rule pair_right)
  have k: "executor_contract (se_failsafe sample_seam)" using plain_contract by (simp add: sample_seam_def)
  have "opened (fresh_exchange 0 :: nat exchange)" by (simp add: opened_def fresh_exchange_def)
  from clients_leave_no_body_open [OF k this t] t show ?thesis by (auto simp: fresh_exchange_def)
qed

end
