(* ===== verification/Registry.thy ===== *)
theory Registry
  imports Router_Config Json
begin

text \<open>
  The routing table: \<open>internal/gateway/router/registry.go\<close>, the config snapshot of
  \<open>registry_allow.go\<close>, the lookup of a request's target in \<open>internal/gateway/target.go\<close> and
  \<open>backend_auth.go\<close>, and the allow gates at the end of \<open>internal/gateway/models.go\<close>. A registry is
  the content of its atomic pointer, \<open>None\<close> before the first store. The lemmas show where a
  request can be routed, with which model, and which errors a normalised configuration leaves.
\<close>

section \<open>Quoting\<close>

text \<open>The verb \<open>%q\<close>; characters outside ASCII are taken as printable when they are valid UTF-8.\<close>

definition quote_escape :: "char \<Rightarrow> string" where
  "quote_escape c =
     (if c = CHR 0x22 \<or> c = CHR 0x5C then [CHR 0x5C, c]
      else if c = CHR 0x07 then [CHR 0x5C, CHR ''a'']
      else if c = CHR 0x08 then [CHR 0x5C, CHR ''b'']
      else if c = CHR 0x0C then [CHR 0x5C, CHR ''f'']
      else if c = CHR 0x0A then [CHR 0x5C, CHR ''n'']
      else if c = CHR 0x0D then [CHR 0x5C, CHR ''r'']
      else if c = CHR 0x09 then [CHR 0x5C, CHR ''t'']
      else if c = CHR 0x0B then [CHR 0x5C, CHR ''v'']
      else if in_range 0x20 0x7E c then [c]
      else [CHR 0x5C, CHR ''x'', hex_digit (of_char c div 16), hex_digit (of_char c mod 16)])"

function quote_body :: "string \<Rightarrow> string" where
  "quote_body [] = []"
| "quote_body (b # bs) =
     (let n = utf8_len (b # bs)
      in if n < 2 then quote_escape b @ quote_body bs
         else b # take (n - 1) bs @ quote_body (drop (n - 1) bs))"
  by pat_completeness auto
termination
  by (relation "measure length") auto

definition go_quote :: "string \<Rightarrow> string" where
  "go_quote s = [CHR 0x22] @ quote_body s @ [CHR 0x22]"

section \<open>The configuration snapshot\<close>

type_synonym registry = "router_config option"

definition zero_timeouts :: timeouts where
  "zero_timeouts = \<lparr>t_min = 0, t_max = 0, t_chat = 0, t_chat_thinking = 0, t_vision = 0, t_embed = 0,
     t_speech = 0, t_stream_idle = 0, t_backends = []\<rparr>"

definition zero_config :: router_config where
  "zero_config =
     \<lparr>rc_chat = off_slot, rc_vision = off_slot, rc_embed = off_slot, rc_tts = off_slot,
      rc_stt = off_slot, rc_proxy = off_slot, rc_systemone = off_slot, rc_batch = off_slot,
      rc_timeouts = zero_timeouts, rc_policy = \<lparr>reject_non_loopback_backends = False\<rparr>, rc_backends = [],
      rc_routers = [], rc_switchyard = \<lparr>sy_base_url = [], sy_config_path = []\<rparr>,
      rc_default_tts_model = [], rc_default_stt_model = [], rc_batch_specified = False\<rparr>"

text \<open>A backend the configuration does not have is the zero \<open>BackendDef\<close> of a missing map key.\<close>

definition zero_backend :: backend_def where
  "zero_backend = \<lparr>bk_id = [], bk_remote = False, bk_extension = [], bk_base_url = [], bk_bearer_env = [], bk_extra_headers = [],
     bk_capabilities = [], bk_models = None, bk_prompt_cache = None\<rparr>"

definition loadCfg :: "registry option \<Rightarrow> router_config" where
  "loadCfg r = (case r of None \<Rightarrow> zero_config | Some None \<Rightarrow> zero_config | Some (Some c) \<Rightarrow> c)"

definition reg_BackendURL :: "registry \<Rightarrow> string \<Rightarrow> string option" where
  "reg_BackendURL r k = map_option bk_base_url (map_of (rc_backends (loadCfg (Some r))) k)"

definition reg_Backend :: "registry \<Rightarrow> string \<Rightarrow> backend_def option" where
  "reg_Backend r k = map_of (rc_backends (loadCfg (Some r))) k"

definition reg_ProxyBackendURL :: "registry \<Rightarrow> string" where
  "reg_ProxyBackendURL r = ProxyBackendURL (loadCfg (Some r))"

section \<open>Resolution\<close>

definition FieldIntervention :: string where "FieldIntervention = ''intervention''"
definition InterventionEmbedCapabilityMissing :: string where
  "InterventionEmbedCapabilityMissing = ''embed_capability_missing''"
definition opResolve :: string where "opResolve = ''router.resolve''"

definition withEmbedIntervention :: "capability \<Rightarrow> derr \<Rightarrow> derr" where
  "withEmbedIntervention cap err =
     (if cap \<noteq> CapEmbed then err else with_field err FieldIntervention InterventionEmbedCapabilityMissing)"

definition checkDefaultBackend :: "router_config \<Rightarrow> capability \<Rightarrow> string \<Rightarrow> goerr option" where
  "checkDefaultBackend cfg cap dflt =
     (let fail = (\<lambda>code msg. Some (DomainErr (withEmbedIntervention cap (err_new code opResolve msg))))
      in if dflt = [] then
           fail CodeInvalid (''no default backend for '' @ cap @ ''; prefix the model with a backend id'')
         else case backend_of cfg dflt of
           None \<Rightarrow> fail CodeNotReady (''default backend '' @ go_quote dflt @ '' not found'')
         | Some b \<Rightarrow>
             if \<not> HasCapability b cap
             then fail CodeNotReady (''default backend '' @ go_quote dflt @ '' does not support '' @ cap)
             else None)"

text \<open>The default route, once no backend prefix decided.\<close>

definition default_route :: "router_config \<Rightarrow> capability \<Rightarrow> string \<Rightarrow> string \<Rightarrow> goerr + string \<times> string" where
  "default_route cfg cap dflt model =
     (case checkDefaultBackend cfg cap dflt of Some e \<Rightarrow> Inl e | None \<Rightarrow> Inr (dflt, model))"

definition resolveCapability :: "router_config \<Rightarrow> capability \<Rightarrow> string \<Rightarrow> string \<Rightarrow> goerr + string \<times> string" where
  "resolveCapability cfg cap dflt model0 =
     (let model = trim_space model0
      in if model = [] then
           (if cap \<noteq> CapTTS \<and> cap \<noteq> CapSTT
            then Inl (DomainErr (with_field (err_new CodeInvalid opResolve ''model required'') ''capability'' cap))
            else default_route cfg cap dflt [])
         else case cut model (CHR ''/'') of
           (pre, None) \<Rightarrow> default_route cfg cap dflt model
         | (pre, Some after) \<Rightarrow>
             (case (if pre = [] then None else backend_of cfg pre) of
                None \<Rightarrow> default_route cfg cap dflt model
              | Some b \<Rightarrow>
                  if \<not> HasCapability b cap then
                    Inl (DomainErr (withEmbedIntervention cap (with_field
                      (err_new CodeInvalid opResolve (''backend '' @ go_quote pre @ '' does not support '' @ cap))
                      ''backend'' pre)))
                  else let rest = trim_space after
                       in if rest = [] then
                            Inl (DomainErr (with_field
                              (err_new CodeInvalid opResolve ''model required after backend prefix'') ''backend'' pre))
                          else Inr (pre, rest)))"

definition reg_ResolveEmbed :: "registry \<Rightarrow> string \<Rightarrow> goerr + string \<times> string" where
  "reg_ResolveEmbed r model =
     (let cfg = loadCfg (Some r) in resolveCapability cfg CapEmbed (EffectiveEmbedBackend cfg) model)"

definition reg_ResolveChat :: "registry \<Rightarrow> string \<Rightarrow> goerr + string \<times> string" where
  "reg_ResolveChat r model =
     (let cfg = loadCfg (Some r) in resolveCapability cfg CapChat (EffectiveChatBackend cfg) model)"

definition reg_ResolveVision :: "registry \<Rightarrow> string \<Rightarrow> goerr + string \<times> string" where
  "reg_ResolveVision r model =
     (let cfg = loadCfg (Some r); d0 = EffectiveVisionBackend cfg;
          d = (if d0 = [] then EffectiveChatBackend cfg else d0)
      in resolveCapability cfg CapVision d model)"

definition reg_ResolveTTS :: "registry \<Rightarrow> string \<Rightarrow> goerr + string \<times> string" where
  "reg_ResolveTTS r model =
     (let cfg = loadCfg (Some r) in resolveCapability cfg CapTTS (EffectiveTTSBackend cfg) model)"

definition reg_ResolveSTT :: "registry \<Rightarrow> string \<Rightarrow> goerr + string \<times> string" where
  "reg_ResolveSTT r model =
     (let cfg = loadCfg (Some r) in resolveCapability cfg CapSTT (EffectiveSTTBackend cfg) model)"

definition defaultSystemOneModel :: string where "defaultSystemOneModel = ''typesafe/jev''"

definition reg_ResolveSystemOne :: "registry \<Rightarrow> string \<Rightarrow> goerr + string \<times> string" where
  "reg_ResolveSystemOne r model0 =
     (let m = trim_space model0; model = (if m = [] then defaultSystemOneModel else m); cfg = loadCfg (Some r)
      in resolveCapability cfg CapSystemOne (EffectiveSystemOneBackend cfg) model)"

definition reg_ResolveBatch :: "registry \<Rightarrow> string \<Rightarrow> goerr + string \<times> string" where
  "reg_ResolveBatch r model =
     (let cfg = loadCfg (Some r) in resolveCapability cfg CapBatch (EffectiveBatchBackend cfg) (trim_space model))"

section \<open>Gates and targets\<close>

definition ensureModelAllowed :: "registry \<Rightarrow> string \<Rightarrow> string \<Rightarrow> bool" where
  "ensureModelAllowed r backendID model =
     (case reg_Backend r backendID of None \<Rightarrow> False | Some b \<Rightarrow> IsModelAllowed b model)"

definition ensureSystemOneAllowed :: "registry \<Rightarrow> string \<Rightarrow> string \<Rightarrow> string \<Rightarrow> bool" where
  "ensureSystemOneAllowed r backendID publicModel downstream =
     (case reg_Backend r backendID of
        None \<Rightarrow> False
      | Some b \<Rightarrow>
          if \<not> HasCapability b CapSystemOne then ensureModelAllowed r backendID publicModel
          else let d = trim_space downstream
               in IsSystemOneDownstream b (if d = [] then NormalizeDownstream backendID publicModel else d))"

definition parseNamedRouterModel :: "string \<Rightarrow> string option" where
  "parseNamedRouterModel model0 =
     (let model = trim_space model0
      in if \<not> has_prefix model RouterIDPrefix then None
         else let name = trim_space (trim_prefix model RouterIDPrefix)
              in if name = [] \<or> contains name ''/'' then None else Some name)"

record backend_target =
  bt_id :: string
  bt_downstream :: string
  bt_url :: string
  bt_auth :: string
  bt_backend :: backend_def

definition msgBackendNotFound :: string where "msgBackendNotFound = ''polypus: backend not found''"

definition errBackendNotFound :: "string \<Rightarrow> string \<Rightarrow> goerr" where
  "errBackendNotFound op backendID = DomainErr (with_field (err_new CodeNotReady op msgBackendNotFound) ''backend'' backendID)"

definition lookupBackend :: "registry \<Rightarrow> string \<Rightarrow> string \<Rightarrow> goerr + backend_def \<times> string" where
  "lookupBackend r op backendID =
     (case reg_BackendURL r backendID of
        None \<Rightarrow> Inl (errBackendNotFound op backendID)
      | Some url \<Rightarrow>
          (case reg_Backend r backendID of
             None \<Rightarrow> Inl (errBackendNotFound op backendID)
           | Some b \<Rightarrow> Inr (b, url)))"

definition bearerAuthHeader :: "(string \<Rightarrow> string) \<Rightarrow> environ \<Rightarrow> backend_def \<Rightarrow> goerr + string" where
  "bearerAuthHeader sanitize env b =
     (if \<not> bk_remote b then Inr []
      else case ResolveBearerToken sanitize env (bk_bearer_env b) of
        Inl e \<Rightarrow> Inl (DomainErr (with_field
                 (err_wrap (Some e) CodeNotReady ''gateway.bearerAuthHeader'' ''resolve bearer'') ''backend'' (bk_id b)))
      | Inr token \<Rightarrow> Inr (''Bearer '' @ token))"

definition resolveTarget ::
  "(string \<Rightarrow> string) \<Rightarrow> environ \<Rightarrow> registry \<Rightarrow> string \<Rightarrow> string \<Rightarrow> string \<Rightarrow> goerr + backend_target" where
  "resolveTarget sanitize env r op backendID downstream =
     (let op' = ''gateway.resolveTarget''
      in case lookupBackend r op backendID of
           Inl e \<Rightarrow> Inl (DomainErr (err_wrap (Some e) (code_or (Some e) CodeNotReady) op' ''lookup backend''))
         | Inr (b, url) \<Rightarrow>
             (case bearerAuthHeader sanitize env b of
                Inl e \<Rightarrow> Inl (DomainErr (with_field
                         (err_wrap (Some e) (code_or (Some e) CodeNotReady) op' ''backend credential'') ''backend'' (bk_id b)))
              | Inr auth \<Rightarrow> Inr \<lparr>bt_id = backendID, bt_downstream = downstream, bt_url = url, bt_auth = auth, bt_backend = b\<rparr>))"

section \<open>Where a request goes\<close>

lemma code_of_new [simp]:
  "code_of (Some (DomainErr d)) = d_code d"
  "d_code (err_new c op msg) = (if c = NoCode then CodeInternal else c)"
  "d_code (with_field d k v) = d_code d"
  "d_code (withEmbedIntervention cap d) = d_code d"
  by (cases d; simp add: code_of_def code_or_def as_domain_def domain_nodes_def List.map_filter_def err_new_def
      withEmbedIntervention_def)+

lemma checkDefaultBackend_None:
  "checkDefaultBackend cfg cap d = None \<longleftrightarrow> d \<noteq> [] \<and> (\<exists>b. backend_of cfg d = Some b \<and> HasCapability b cap)"
  by (auto simp: checkDefaultBackend_def Let_def split: option.splits if_splits)

lemma default_route_Inr:
  "default_route cfg cap d m = Inr (b, down) \<longleftrightarrow>
     b = d \<and> down = m \<and> d \<noteq> [] \<and> (\<exists>bk. backend_of cfg d = Some bk \<and> HasCapability bk cap)"
  using checkDefaultBackend_None [of cfg cap d] by (cases "checkDefaultBackend cfg cap d") (auto simp: default_route_def)

text \<open>A route is the default backend with the model as sent, or the backend that prefixes the model
  with the rest.\<close>

lemma resolveCapability_Inr:
  assumes "resolveCapability cfg cap d m = Inr (b, down)"
  shows "(\<exists>bk. backend_of cfg b = Some bk \<and> HasCapability bk cap) \<and> b \<noteq> [] \<and>
    (down = [] \<longrightarrow> cap \<in> {CapTTS, CapSTT} \<and> trim_space m = []) \<and>
    (b = d \<and> down = trim_space m \<and>
       (\<forall>pre rest. cut (trim_space m) (CHR ''/'') = (pre, Some rest) \<longrightarrow> pre = [] \<or> backend_of cfg pre = None) \<or>
     (\<exists>rest. cut (trim_space m) (CHR ''/'') = (b, Some rest) \<and> down = trim_space rest \<and> down \<noteq> []))"
proof (cases "trim_space m = []")
  case True
  with assms show ?thesis
    by (auto simp: resolveCapability_def default_route_Inr split: if_splits)
next
  case False
  obtain pre after where c: "cut (trim_space m) (CHR ''/'') = (pre, after)" by (rule prod.exhaust)
  show ?thesis
  proof (cases after)
    case None
    with assms False c show ?thesis by (auto simp: resolveCapability_def Let_def default_route_Inr)
  next
    case (Some rest)
    with assms False c show ?thesis
      by (auto simp: resolveCapability_def Let_def default_route_Inr split: option.splits if_splits)
  qed
qed

lemma resolveCapability_prefixed:
  assumes "backend_of cfg b = Some bk" and "HasCapability bk cap" and "b \<noteq> []" and "CHR ''/'' \<notin> set b"
    and "trim_space b = b" and "trim_space x = x" and "x \<noteq> []"
  shows "resolveCapability cfg cap d (b @ ''/'' @ x) = Inr (b, x)"
proof -
  have "trim_space (b @ CHR ''/'' # x) = b @ CHR ''/'' # x"
    using assms by (intro trim_space_sep) (simp_all add: graphic_def)
  with assms show ?thesis by (simp add: resolveCapability_def Let_def)
qed

lemma resolveCapability_Inl:
  assumes "resolveCapability cfg cap d m = Inl e"
  shows "code_of (Some e) = CodeInvalid \<or> checkDefaultBackend cfg cap d = Some e"
  using assms
  by (auto simp: resolveCapability_def Let_def default_route_def split: option.splits if_splits prod.splits)

lemma checkDefaultBackend_slot:
  assumes "normalizeRouterConfig sanitize env dp cfg0 = Inr cfg" and "sl \<in> set capabilitySlots"
    and "checkDefaultBackend cfg (sl_capability sl) (effective_backend (sl_get sl cfg)) = Some e"
  shows "code_of (Some e) = CodeInvalid"
proof (cases "cb_enabled (sl_get sl cfg)")
  case True
  with normalized_slot [OF assms(1,2)] assms(3) show ?thesis
    by (auto simp: checkDefaultBackend_def effective_backend_def Let_def split: if_splits)
next
  case False
  with assms(3) show ?thesis by (auto simp: checkDefaultBackend_def effective_backend_def Let_def)
qed

lemma slot_mem: "n < 8 \<Longrightarrow> capabilitySlots ! n \<in> set capabilitySlots"
  by (rule nth_mem) (simp add: capabilitySlots_def)

lemma slot_nth:
  "sl_capability (capabilitySlots ! 0) = CapChat" "sl_get (capabilitySlots ! 0) = rc_chat"
  "sl_capability (capabilitySlots ! 1) = CapVision" "sl_get (capabilitySlots ! 1) = rc_vision"
  "sl_capability (capabilitySlots ! 2) = CapEmbed" "sl_get (capabilitySlots ! 2) = rc_embed"
  "sl_capability (capabilitySlots ! 3) = CapTTS" "sl_get (capabilitySlots ! 3) = rc_tts"
  "sl_capability (capabilitySlots ! 4) = CapSTT" "sl_get (capabilitySlots ! 4) = rc_stt"
  "sl_capability (capabilitySlots ! 6) = CapSystemOne" "sl_get (capabilitySlots ! 6) = rc_systemone"
  "sl_capability (capabilitySlots ! 7) = CapBatch" "sl_get (capabilitySlots ! 7) = rc_batch"
  by (simp_all add: capabilitySlots_def)

lemma checkDefault_slots:
  assumes "normalizeRouterConfig sanitize env dp cfg0 = Inr cfg"
    and "(cap, d) \<in> {(CapChat, EffectiveChatBackend cfg), (CapVision, EffectiveVisionBackend cfg),
      (CapEmbed, EffectiveEmbedBackend cfg), (CapTTS, EffectiveTTSBackend cfg), (CapSTT, EffectiveSTTBackend cfg),
      (CapSystemOne, EffectiveSystemOneBackend cfg), (CapBatch, EffectiveBatchBackend cfg)}"
    and "checkDefaultBackend cfg cap d = Some e"
  shows "code_of (Some e) = CodeInvalid"
  using assms(2,3) checkDefaultBackend_slot [OF assms(1) slot_mem [of 0]] checkDefaultBackend_slot [OF assms(1) slot_mem [of 1]]
    checkDefaultBackend_slot [OF assms(1) slot_mem [of 2]] checkDefaultBackend_slot [OF assms(1) slot_mem [of 3]]
    checkDefaultBackend_slot [OF assms(1) slot_mem [of 4]] checkDefaultBackend_slot [OF assms(1) slot_mem [of 6]]
    checkDefaultBackend_slot [OF assms(1) slot_mem [of 7]]
  unfolding slot_nth EffectiveChatBackend_def EffectiveVisionBackend_def EffectiveEmbedBackend_def EffectiveTTSBackend_def
    EffectiveSTTBackend_def EffectiveSystemOneBackend_def EffectiveBatchBackend_def
  by auto

section \<open>Properties\<close>

text \<open>C30: Every route the registry gives leads to a configured backend that has the capability asked
  for, with a model; only speech may leave the model to the backend.\<close>

theorem routes_are_served:
  assumes "(cap, res) \<in> {(CapChat, reg_ResolveChat r m), (CapVision, reg_ResolveVision r m),
      (CapEmbed, reg_ResolveEmbed r m), (CapTTS, reg_ResolveTTS r m), (CapSTT, reg_ResolveSTT r m),
      (CapSystemOne, reg_ResolveSystemOne r m), (CapBatch, reg_ResolveBatch r m)}"
    and "res = Inr (b, down)"
  shows "(\<exists>bk. reg_Backend r b = Some bk \<and> HasCapability bk cap) \<and>
    (down = [] \<longrightarrow> cap \<in> {CapTTS, CapSTT} \<and> trim_space m = [])"
proof -
  obtain d m' where d: "resolveCapability (loadCfg (Some r)) cap d m' = Inr (b, down)" "trim_space m' = [] \<longrightarrow> trim_space m = []"
    using assms
    by (auto simp: reg_ResolveChat_def reg_ResolveVision_def reg_ResolveEmbed_def reg_ResolveTTS_def reg_ResolveSTT_def
        reg_ResolveSystemOne_def reg_ResolveBatch_def Let_def)
  from resolveCapability_Inr [OF d(1)] d(2) show ?thesis
    by (auto simp: reg_Backend_def backend_of_def)
qed

text \<open>With a configuration that normalised, a request that cannot be routed is the caller's mistake
  (400), never an unready gateway; only a vision request that falls back to a chat backend without
  vision is answered as not ready.\<close>

theorem unroutable_is_invalid:
  assumes "normalizeRouterConfig sanitize env dp cfg0 = Inr cfg"
    and "(cap, res) \<in> {(CapChat, reg_ResolveChat (Some cfg) m), (CapVision, reg_ResolveVision (Some cfg) m),
      (CapEmbed, reg_ResolveEmbed (Some cfg) m), (CapTTS, reg_ResolveTTS (Some cfg) m), (CapSTT, reg_ResolveSTT (Some cfg) m),
      (CapSystemOne, reg_ResolveSystemOne (Some cfg) m), (CapBatch, reg_ResolveBatch (Some cfg) m)}"
    and "res = Inl e"
  shows "code_of (Some e) = CodeInvalid \<and> http_status (Some e) = 400 \<or>
    cap = CapVision \<and> EffectiveVisionBackend cfg = [] \<and> code_of (Some e) = CodeNotReady"
proof -
  have one: "code_of (Some e) = CodeInvalid" if "resolveCapability cfg c d m' = Inl e"
    "(c, d) \<in> {(CapChat, EffectiveChatBackend cfg), (CapVision, EffectiveVisionBackend cfg),
      (CapEmbed, EffectiveEmbedBackend cfg), (CapTTS, EffectiveTTSBackend cfg), (CapSTT, EffectiveSTTBackend cfg),
      (CapSystemOne, EffectiveSystemOneBackend cfg), (CapBatch, EffectiveBatchBackend cfg)}" for c d m'
    using resolveCapability_Inl [OF that(1)] checkDefault_slots [OF assms(1) that(2)] by blast
  have other: "code_of (Some e) \<in> {CodeInvalid, CodeNotReady}" if "resolveCapability cfg c d m' = Inl e" for c d m'
    using resolveCapability_Inl [OF that] by (auto simp: checkDefaultBackend_def Let_def split: option.splits if_splits)
  have cfg: "loadCfg (Some (Some cfg)) = cfg" by (simp add: loadCfg_def)
  have "code_of (Some e) = CodeInvalid \<or> cap = CapVision \<and> EffectiveVisionBackend cfg = [] \<and> code_of (Some e) = CodeNotReady"
  proof (cases "cap = CapVision \<and> EffectiveVisionBackend cfg = []")
    case True
    then have "resolveCapability cfg CapVision (EffectiveChatBackend cfg) m = Inl e"
      using assms(2,3) by (auto simp: reg_ResolveVision_def Let_def cfg cap_defs)
    from other [OF this] True show ?thesis by auto
  next
    case False
    with assms(2,3) show ?thesis
      by (elim insertE)
        (auto intro: one simp: reg_ResolveChat_def reg_ResolveVision_def reg_ResolveEmbed_def reg_ResolveTTS_def
          reg_ResolveSTT_def reg_ResolveSystemOne_def reg_ResolveBatch_def Let_def cfg)
  qed
  then show ?thesis by (auto simp: http_status_def)
qed

text \<open>What the allow gate admits is what goes out: the downstream model of an admitted request is
  named by an entry of the backend's allow list, or such an entry is that model behind the backend's
  own prefix, twice.\<close>

theorem gate_covers_downstream:
  assumes "resolveCapability cfg cap d m = Inr (b, down)" and "ensureModelAllowed (Some cfg) b m"
    and "backend_of cfg b = Some bk" and "bk_id bk = b" and "bk_models bk = Some bm" and "bm_allow_configured bm"
    and "CHR ''/'' \<notin> set b" and "trim_space b = b"
  shows "\<exists>e \<in> set (bm_allow bm). trim_space e \<noteq> [] \<and>
    (NormalizeDownstream b e = down \<or> trim_space e = down \<or>
     (\<exists>rest. NormalizeDownstream b e = b @ ''/'' @ rest \<and> trim_space rest = down))"
proof -
  let ?N = "NormalizeDownstream b" and ?m = "trim_space m"
  from assms(2-6) have "ModelInAllowList b m (bm_allow bm)"
    by (simp add: ensureModelAllowed_def reg_Backend_def loadCfg_def backend_of_def IsModelAllowed_def HasAllowGate_def)
  then obtain e where e: "e \<in> set (bm_allow bm)" "trim_space e \<noteq> []" "?N m = ?N e \<or> ?m = ?N e \<or> ?N m = trim_space e"
    and "?m \<noteq> []"
    by (auto simp: ModelInAllowList_iff [OF assms(8)])
  have b: "b \<noteq> []" using resolveCapability_Inr [OF assms(1)] by simp
  have "?N m = down \<and> (?m = down \<or> (\<exists>rest. ?m = b @ ''/'' @ rest \<and> trim_space rest = down))"
    using resolveCapability_Inr [OF assms(1)]
  proof (elim conjE disjE exE)
    assume "down = ?m" and dflt: "b = d"
      and pre: "\<forall>pre rest. cut ?m (CHR ''/'') = (pre, Some rest) \<longrightarrow> pre = [] \<or> backend_of cfg pre = None"
    have "\<not> has_prefix ?m (b @ ''/'')"
    proof
      assume "has_prefix ?m (b @ ''/'')"
      then obtain rest where "?m = b @ CHR ''/'' # rest" by (auto simp: has_prefix_iff)
      with assms(7) have "cut ?m (CHR ''/'') = (b, Some rest)" by simp
      with pre b assms(3) show False by auto
    qed
    then have "?N m = ?m" using \<open>?m \<noteq> []\<close> b assms(8) by (simp add: NormalizeDownstream_def Let_def)
    with \<open>down = ?m\<close> show ?thesis by simp
  next
    fix rest
    assume r: "cut ?m (CHR ''/'') = (b, Some rest)" "down = trim_space rest" "down \<noteq> []"
    then have m: "?m = b @ CHR ''/'' # rest" using cut_Some by blast
    then have "has_prefix ?m (b @ ''/'')" by (simp add: has_prefix_iff)
    then have "?N m = trim_space rest"
      using \<open>?m \<noteq> []\<close> b assms(8) m drop_slash [of b rest] by (simp add: NormalizeDownstream_def Let_def)
    with m r show ?thesis by auto
  qed
  with e show ?thesis by (metis (full_types))
qed

section \<open>A gated backend\<close>

definition sample_gated :: backend_def where
  "sample_gated =
     \<lparr>bk_id = ''or'', bk_remote = False, bk_extension = [], bk_base_url = ''http://or'', bk_bearer_env = [],
      bk_extra_headers = [], bk_capabilities = [CapChat],
      bk_models = Some \<lparr>bm_sync = None, bm_allow_configured = True, bm_allow = [''or/or/auto''],
        bm_systemone_allow_configured = False, bm_systemone_allow = []\<rparr>, bk_prompt_cache = None\<rparr>"

definition sample_gated_config :: router_config where
  "sample_gated_config = (default_config ''http://mlx'')\<lparr>rc_chat := \<lparr>cb_enabled = True, cb_default = ''or''\<rparr>,
     rc_backends := [(''or'', sample_gated), (mlxLocalID, mlx_backend ''http://mlx'')]\<rparr>"

text \<open>The third case happens: an entry that names the model \<open>or/auto\<close> of the backend \<open>or\<close> also admits a
  request for its model \<open>auto\<close>.\<close>

lemma sample_route:
  "resolveCapability sample_gated_config CapChat ''or'' ''or/auto'' = Inr (''or'', ''auto'')"
  "ensureModelAllowed (Some sample_gated_config) ''or'' ''or/auto''"
  "\<not> ensureModelAllowed (Some sample_gated_config) ''or'' ''auto''"
  by code_simp+

lemma sample_backend: "backend_of sample_gated_config ''or'' = Some sample_gated"
  by (simp add: sample_gated_config_def backend_of_def)

theorem gate_covers_downstream_witness:
  "\<exists>e \<in> set [''or/or/auto'']. NormalizeDownstream ''or'' e = ''auto'' \<or> trim_space e = ''auto'' \<or>
    (\<exists>rest. NormalizeDownstream ''or'' e = ''or'' @ ''/'' @ rest \<and> trim_space rest = ''auto'')"
  using gate_covers_downstream [OF sample_route(1,2) sample_backend] by (auto simp: sample_gated_def trim_space_id graphic_def)

theorem routes_are_served_witness:
  "\<exists>bk. reg_Backend (Some sample_gated_config) ''or'' = Some bk \<and> HasCapability bk CapChat"
proof -
  have "reg_ResolveChat (Some sample_gated_config) ''or/auto'' = Inr (''or'', ''auto'')" by code_simp
  with routes_are_served [of CapChat _ "Some sample_gated_config" "''or/auto''" "''or''" "''auto''"] show ?thesis by simp
qed

theorem unroutable_is_invalid_witness:
  "\<exists>e. reg_ResolveChat (Some (default_config ''http://mlx'')) ''m'' = Inl e \<and> http_status (Some e) = 400"
proof -
  obtain e where e: "reg_ResolveChat (Some (default_config ''http://mlx'')) ''m'' = Inl e"
    by (auto simp: reg_ResolveChat_def resolveCapability_def default_route_def checkDefaultBackend_def loadCfg_def
        EffectiveChatBackend_def effective_backend_def off_slot_def Let_def trim_space_id graphic_def split: if_splits)
  from unroutable_is_invalid [where cap = CapChat and m = "''m''", OF default_normalizes [where u = "''http://mlx''" and sanitize = "\<lambda>s. s" and env = "\<lambda>_. []" and dp = "Inr []"] _ e] e
  show ?thesis by (auto simp: cap_defs)
qed

end
