(* ===== verification/Allow_Admin.thy ===== *)
theory Allow_Admin
  imports Registry Statefile
begin

text \<open>
  Allowing a model at run time: the compare-and-swap loop of
  \<open>internal/gateway/router/registry_allow.go\<close>, the overlay file of
  \<open>internal/config/allow_overlay.go\<close> and \<open>allowModel\<close> of \<open>internal/gateway/admin_allow.go\<close>. The
  loop is a step relation of several callers over one pointer; a pointer is a number that grows
  with every store, since a pointer a caller still holds is never reused. The overlay file holds
  what \<open>yaml.Marshal\<close> wrote, as a value, or something that does not decode. The lemmas show that
  concurrent calls take effect one after the other, that the loop ends, and that an allowed
  model is still allowed after a restart.
\<close>

section \<open>One call\<close>

text \<open>\<open>withAllowedModel\<close>: an error, or the next snapshot and whether it changed.\<close>

definition withAllowedModel :: "router_config \<Rightarrow> string \<Rightarrow> string \<Rightarrow> goerr + router_config \<times> bool" where
  "withAllowedModel snap backendID model =
     (let op = ''router.AllowModel'';
          no_gate = Inl (DomainErr (with_field (err_new CodeFailedPrecondition op ''backend has no models.allow gate'')
                           ''backend'' backendID))
      in case backend_of snap backendID of
           None \<Rightarrow> Inl (DomainErr (with_field (err_new CodeNotFound op ''backend not found'') ''backend'' backendID))
         | Some b \<Rightarrow>
             (case bk_models b of
                None \<Rightarrow> no_gate
              | Some bm \<Rightarrow>
                  if \<not> HasAllowGate (Some bm) then no_gate
                  else let down = NormalizeDownstream backendID model
                       in if down = [] then Inl (DomainErr (err_new CodeInvalid op ''empty model''))
                          else if ModelInAllowList backendID down (bm_allow bm) then Inr (snap, False)
                          else Inr (snap\<lparr>rc_backends := put backendID
                                 (b\<lparr>bk_models := Some (bm\<lparr>bm_allow_configured := True, bm_allow := bm_allow bm @ [down]\<rparr>)\<rparr>)
                                 (rc_backends snap)\<rparr>, True)))"

text \<open>\<open>AllowModel\<close> with no other caller: the first compare-and-swap succeeds.\<close>

definition AllowModel :: "string \<Rightarrow> string \<Rightarrow> registry \<Rightarrow> goerr option \<times> registry" where
  "AllowModel backendID model r =
     (case withAllowedModel (loadCfg (Some r)) backendID model of
        Inl e \<Rightarrow> (Some e, r)
      | Inr (_, False) \<Rightarrow> (None, r)
      | Inr (nxt, True) \<Rightarrow> (None, Some nxt))"

section \<open>Many calls\<close>

text \<open>The atomic pointer, and where each caller is in the loop.\<close>

record cell =
  ce_ptr :: nat
  ce_cfg :: registry

datatype allow_pc = AmStart | AmLoaded nat router_config | AmDone "goerr option"

record allow_call =
  ac_backend :: string
  ac_model :: string
  ac_pc :: allow_pc

definition am_step1 :: "cell \<Rightarrow> allow_call \<Rightarrow> cell \<times> allow_call" where
  "am_step1 c t =
     (case ac_pc t of
        AmStart \<Rightarrow>
          (case withAllowedModel (loadCfg (Some (ce_cfg c))) (ac_backend t) (ac_model t) of
             Inl e \<Rightarrow> (c, t\<lparr>ac_pc := AmDone (Some e)\<rparr>)
           | Inr (_, False) \<Rightarrow> (c, t\<lparr>ac_pc := AmDone None\<rparr>)
           | Inr (nxt, True) \<Rightarrow> (c, t\<lparr>ac_pc := AmLoaded (ce_ptr c) nxt\<rparr>))
      | AmLoaded old nxt \<Rightarrow>
          if ce_ptr c = old then (c\<lparr>ce_ptr := Suc (ce_ptr c), ce_cfg := Some nxt\<rparr>, t\<lparr>ac_pc := AmDone None\<rparr>)
          else (c, t\<lparr>ac_pc := AmStart\<rparr>)
      | AmDone r \<Rightarrow> (c, t))"

definition am_done :: "allow_call \<Rightarrow> bool" where
  "am_done t \<longleftrightarrow> (case ac_pc t of AmDone _ \<Rightarrow> True | _ \<Rightarrow> False)"

definition am_result :: "allow_call \<Rightarrow> goerr option" where
  "am_result t = (case ac_pc t of AmDone r \<Rightarrow> r | _ \<Rightarrow> None)"

inductive am_step :: "cell \<times> allow_call list \<Rightarrow> cell \<times> allow_call list \<Rightarrow> bool" where
  am: "i < length ts \<Longrightarrow> \<not> am_done (ts ! i) \<Longrightarrow> am_step1 c (ts ! i) = (c', t') \<Longrightarrow> am_step (c, ts) (c', ts[i := t'])"

definition am_start :: "registry \<Rightarrow> (string \<times> string) list \<Rightarrow> cell \<times> allow_call list" where
  "am_start r calls = (\<lparr>ce_ptr = 0, ce_cfg = r\<rparr>,
     map (\<lambda>(b, m). \<lparr>ac_backend = b, ac_model = m, ac_pc = AmStart\<rparr>) calls)"

text \<open>Calls one after the other.\<close>

fun allow_all :: "(string \<times> string) list \<Rightarrow> registry \<Rightarrow> goerr option list \<times> registry" where
  "allow_all [] r = ([], r)"
| "allow_all ((b, m) # calls) r =
     (case AllowModel b m r of (x, r1) \<Rightarrow> (case allow_all calls r1 of (xs, r2) \<Rightarrow> (x # xs, r2)))"

lemma allow_all_snoc:
  "allow_all xs r = (rs, r1) \<Longrightarrow> AllowModel b m r1 = (x, r2) \<Longrightarrow> allow_all (xs @ [(b, m)]) r = (rs @ [x], r2)"
  by (induction xs arbitrary: r rs) (auto split: prod.splits)

text \<open>What holds while the callers run: the finished calls have taken effect in some order, and a
  caller that holds the current pointer has computed the next snapshot from the current one.\<close>

definition call_of :: "allow_call \<Rightarrow> string \<times> string" where
  "call_of t = (ac_backend t, ac_model t)"

definition am_inv :: "registry \<Rightarrow> (string \<times> string) list \<Rightarrow> cell \<times> allow_call list \<Rightarrow> bool" where
  "am_inv r0 calls = (\<lambda>(c, ts).
     map call_of ts = calls \<and>
     (\<exists>ord. distinct ord \<and> set ord = {i. i < length ts \<and> am_done (ts ! i)} \<and>
        allow_all (map (\<lambda>i. call_of (ts ! i)) ord) r0 = (map (\<lambda>i. am_result (ts ! i)) ord, ce_cfg c)) \<and>
     (\<forall>i < length ts. \<forall>p nxt. ac_pc (ts ! i) = AmLoaded p nxt \<longrightarrow> p \<le> ce_ptr c \<and>
        (p = ce_ptr c \<longrightarrow>
           withAllowedModel (loadCfg (Some (ce_cfg c))) (ac_backend (ts ! i)) (ac_model (ts ! i)) = Inr (nxt, True))))"

lemma am_step1_calls: "am_step1 c t = (c', t') \<Longrightarrow> call_of t' = call_of t"
  by (auto simp: am_step1_def call_of_def split: allow_pc.splits sum.splits prod.splits bool.splits if_splits)

text \<open>A step that does not finish its caller changes nothing; one that does is the whole call.\<close>

lemma am_step1_cases:
  assumes "am_step1 c t = (c', t')" and "\<not> am_done t"
    and "\<forall>p nxt. ac_pc t = AmLoaded p nxt \<longrightarrow> p = ce_ptr c \<longrightarrow>
      withAllowedModel (loadCfg (Some (ce_cfg c))) (ac_backend t) (ac_model t) = Inr (nxt, True)"
  shows "(if am_done t' then AllowModel (ac_backend t) (ac_model t) (ce_cfg c) = (am_result t', ce_cfg c') else c' = c) \<and>
    (ce_cfg c' = ce_cfg c \<and> ce_ptr c' = ce_ptr c \<or> ce_ptr c' = Suc (ce_ptr c)) \<and>
    (\<forall>p nxt. ac_pc t' = AmLoaded p nxt \<longrightarrow> p = ce_ptr c \<and> c' = c \<and>
       withAllowedModel (loadCfg (Some (ce_cfg c))) (ac_backend t) (ac_model t) = Inr (nxt, True))"
  using assms
  by (auto simp: am_step1_def am_done_def am_result_def AllowModel_def
      split: allow_pc.splits sum.splits prod.splits bool.splits if_splits)

lemma am_inv_step:
  assumes "am_step s s'" and "am_inv r0 calls s"
  shows "am_inv r0 calls s'"
  using assms(1)
proof (cases rule: am_step.cases)
  case (am i ts c c' t')
  note i = am(3,4) and st = am(5)
  have inv: "map call_of ts = calls"
    "\<forall>i < length ts. \<forall>p nxt. ac_pc (ts ! i) = AmLoaded p nxt \<longrightarrow> p \<le> ce_ptr c \<and>
        (p = ce_ptr c \<longrightarrow>
           withAllowedModel (loadCfg (Some (ce_cfg c))) (ac_backend (ts ! i)) (ac_model (ts ! i)) = Inr (nxt, True))"
    using assms(2) am(1) by (auto simp: am_inv_def)
  obtain ord where ord: "distinct ord" "set ord = {i. i < length ts \<and> am_done (ts ! i)}"
    "allow_all (map (\<lambda>i. call_of (ts ! i)) ord) r0 = (map (\<lambda>i. am_result (ts ! i)) ord, ce_cfg c)"
    using assms(2) am(1) by (auto simp: am_inv_def)
  have c: "call_of t' = call_of (ts ! i)" by (rule am_step1_calls [OF st])
  have facts: "if am_done t' then AllowModel (ac_backend (ts ! i)) (ac_model (ts ! i)) (ce_cfg c) = (am_result t', ce_cfg c') else c' = c"
    "ce_cfg c' = ce_cfg c \<and> ce_ptr c' = ce_ptr c \<or> ce_ptr c' = Suc (ce_ptr c)"
    "\<forall>p nxt. ac_pc t' = AmLoaded p nxt \<longrightarrow> p = ce_ptr c \<and> c' = c \<and>
       withAllowedModel (loadCfg (Some (ce_cfg c))) (ac_backend (ts ! i)) (ac_model (ts ! i)) = Inr (nxt, True)"
    using am_step1_cases [OF st i(2)] inv(2) i(1) by blast+
  have notin: "i \<notin> set ord" using ord(2) i(2) by auto
  have "ts[i := t'] ! x = ts ! x" if "x \<in> set ord" for x
    using that notin by (metis nth_list_update_neq)
  then have old: "map (\<lambda>j. call_of (ts[i := t'] ! j)) ord = map (\<lambda>j. call_of (ts ! j)) ord"
    "map (\<lambda>j. am_result (ts[i := t'] ! j)) ord = map (\<lambda>j. am_result (ts ! j)) ord"
    by simp_all
  have "\<exists>ord'. distinct ord' \<and> set ord' = {j. j < length (ts[i := t']) \<and> am_done (ts[i := t'] ! j)} \<and>
      allow_all (map (\<lambda>j. call_of (ts[i := t'] ! j)) ord') r0 = (map (\<lambda>j. am_result (ts[i := t'] ! j)) ord', ce_cfg c')"
  proof (cases "am_done t'")
    case True
    have "map (\<lambda>j. call_of (ts[i := t'] ! j)) (ord @ [i]) =
        map (\<lambda>i. call_of (ts ! i)) ord @ [(ac_backend (ts ! i), ac_model (ts ! i))]"
      "map (\<lambda>j. am_result (ts[i := t'] ! j)) (ord @ [i]) = map (\<lambda>i. am_result (ts ! i)) ord @ [am_result t']"
      using old c i(1) by (simp_all add: call_of_def)
    with allow_all_snoc [OF ord(3)] True facts(1)
    have "allow_all (map (\<lambda>j. call_of (ts[i := t'] ! j)) (ord @ [i])) r0 =
        (map (\<lambda>j. am_result (ts[i := t'] ! j)) (ord @ [i]), ce_cfg c')" by (simp only: if_True)
    moreover have "set (ord @ [i]) = {j. j < length (ts[i := t']) \<and> am_done (ts[i := t'] ! j)}"
      using ord(2) True i(1) by (auto simp: nth_list_update)
    moreover have "distinct (ord @ [i])" using ord(1) notin by simp
    ultimately show ?thesis by blast
  next
    case False
    then have "{j. j < length (ts[i := t']) \<and> am_done (ts[i := t'] ! j)} = set ord"
      using ord(2) i by (auto simp: nth_list_update)
    moreover have "allow_all (map (\<lambda>j. call_of (ts[i := t'] ! j)) ord) r0 =
        (map (\<lambda>j. am_result (ts[i := t'] ! j)) ord, ce_cfg c')"
      unfolding old using ord(3) facts(1) False by simp
    ultimately show ?thesis using ord(1) by blast
  qed
  moreover have "map call_of (ts[i := t']) = calls"
    using inv(1) c i(1) by (simp add: map_update) (metis list_update_id nth_map)
  moreover have "p \<le> ce_ptr c' \<and> (p = ce_ptr c' \<longrightarrow>
      withAllowedModel (loadCfg (Some (ce_cfg c'))) (ac_backend (ts[i := t'] ! j)) (ac_model (ts[i := t'] ! j)) = Inr (nxt, True))"
    if j: "j < length (ts[i := t'])" "ac_pc (ts[i := t'] ! j) = AmLoaded p nxt" for j p nxt
  proof (cases "j = i")
    case True
    with j i(1) facts(3) c show ?thesis by (simp add: call_of_def)
  next
    case False
    with j inv(2) have "p \<le> ce_ptr c" "p = ce_ptr c \<longrightarrow>
        withAllowedModel (loadCfg (Some (ce_cfg c))) (ac_backend (ts ! j)) (ac_model (ts ! j)) = Inr (nxt, True)" by auto
    with facts(2) False show ?thesis by auto
  qed
  ultimately show ?thesis unfolding am(2) am_inv_def by auto
qed

lemma am_inv_start: "am_inv r0 calls (am_start r0 calls)"
proof -
  have "{i. i < length calls \<and> am_done (map (\<lambda>(b, m). \<lparr>ac_backend = b, ac_model = m, ac_pc = AmStart\<rparr>) calls ! i)} = {}"
    by (auto simp: am_done_def split: prod.splits)
  then show ?thesis
    by (auto simp: am_inv_def am_start_def call_of_def map_idI split: prod.splits intro: exI [of _ "[]"])
qed

lemma am_inv_reach: "am_step\<^sup>*\<^sup>* (am_start r0 calls) s \<Longrightarrow> am_inv r0 calls s"
  by (induction rule: rtranclp_induct) (auto intro: am_inv_start am_inv_step)

section \<open>The loop ends\<close>

text \<open>What is left of one call: a failed compare-and-swap brings it back to the start, and only another
  call's success makes one fail.\<close>

definition am_weight :: "cell \<Rightarrow> allow_call \<Rightarrow> nat" where
  "am_weight c t =
     (case ac_pc t of AmStart \<Rightarrow> 1 | AmLoaded p _ \<Rightarrow> if p = ce_ptr c then 0 else 2 | AmDone _ \<Rightarrow> 0)"

definition am_measure :: "cell \<times> allow_call list \<Rightarrow> nat" where
  "am_measure = (\<lambda>(c, ts).
     length (filter (\<lambda>t. \<not> am_done t) ts) * (2 * length ts + 1) + sum_list (map (am_weight c) ts))"

lemma sum_weights: "sum_list (map (am_weight c) ts) \<le> 2 * length ts"
  by (induction ts) (auto simp: am_weight_def split: allow_pc.splits)

lemma filter_update:
  "i < length xs \<Longrightarrow> P (xs ! i) \<Longrightarrow>
   length (filter P (xs[i := y])) + (if P y then 0 else 1) = length (filter P xs)"
proof (induction xs arbitrary: i)
  case (Cons x xs)
  then show ?case by (cases i) auto
qed simp

lemma sum_list_map_update:
  "i < length xs \<Longrightarrow> sum_list (map f (xs[i := y])) + f (xs ! i) = sum_list (map f xs) + (f y :: nat)"
proof (induction xs arbitrary: i)
  case (Cons x xs)
  then show ?case by (cases i) auto
qed simp

lemma am_measure_step:
  assumes "am_step s s'"
  shows "am_measure s' < am_measure s"
  using assms
proof (cases rule: am_step.cases)
  case (am i ts c c' t')
  let ?open = "\<lambda>t. \<not> am_done t"
  have f: "length (filter ?open (ts[i := t'])) + (if am_done t' then 1 else 0) = length (filter ?open ts)"
    using filter_update [OF am(3), of ?open t'] am(4) by (cases "am_done t'") simp_all
  show ?thesis
  proof (cases "am_done t'")
    case True
    with f have "length (filter ?open ts) = Suc (length (filter ?open (ts[i := t'])))" by simp
    with sum_weights [of c' "ts[i := t']"] show ?thesis by (simp add: am_measure_def am(1,2))
  next
    case False
    with am(4,5) have "c' = c" "am_weight c t' < am_weight c (ts ! i)"
      by (auto simp: am_step1_def am_weight_def am_done_def split: allow_pc.splits sum.splits prod.splits bool.splits if_splits)
    with False f sum_list_map_update [OF am(3), of "am_weight c" t'] show ?thesis by (simp add: am_measure_def am(1,2))
  qed
qed

lemma am_run_bound: "(am_step ^^ k) s s' \<Longrightarrow> k + am_measure s' \<le> am_measure s"
proof (induction k arbitrary: s')
  case (Suc k)
  then obtain t where "(am_step ^^ k) s t" "am_step t s'" by auto
  with Suc.IH [of t] am_measure_step [of t s'] show ?case by simp
qed simp

lemma am_measure_start: "am_measure (am_start r calls) = 2 * (length calls) * (length calls + 1)"
proof -
  have "filter (\<lambda>t. \<not> am_done t) (snd (am_start r calls)) = snd (am_start r calls)"
    by (auto simp: am_start_def am_done_def filter_id_conv)
  moreover have "sum_list (map (am_weight c) (snd (am_start r calls))) = length calls" for c
    by (induction calls) (auto simp: am_start_def am_weight_def)
  ultimately show ?thesis by (simp add: am_measure_def am_start_def algebra_simps split: prod.splits)
qed

lemma am_stuck: "(\<nexists>s'. am_step (c, ts) s') \<longleftrightarrow> (\<forall>t \<in> set ts. am_done t)"
proof
  assume stuck: "\<nexists>s'. am_step (c, ts) s'"
  show "\<forall>t \<in> set ts. am_done t"
  proof (rule ccontr)
    assume "\<not> (\<forall>t \<in> set ts. am_done t)"
    then obtain i where "i < length ts" "\<not> am_done (ts ! i)" by (auto simp: in_set_conv_nth)
    moreover obtain c' t' where "am_step1 c (ts ! i) = (c', t')" by (rule prod.exhaust)
    ultimately show False using stuck am by blast
  qed
qed (auto elim: am_step.cases)

section \<open>The overlay file\<close>

datatype overlay_content = OverlayFile "string list gomap" | OverlayGarbled

definition loadAllowOverlay ::
  "string \<Rightarrow> overlay_content disk \<Rightarrow> (goerr + string list gomap) \<times> overlay_content disk" where
  "loadAllowOverlay path d0 =
     (if trim_space path = [] then (Inr [], d0)
      else case os_call d0 of
        (Some e, d) \<Rightarrow>
          if is_sentinel (Some e) FsNotExist then (Inr [], d)
          else (Inl (DomainErr (err_wrap (Some e) CodeInternal ''config.LoadAllowOverlay'' ''read'')), d)
      | (None, d) \<Rightarrow>
          (case look d path of
             None \<Rightarrow> (Inr [], d)
           | Some OverlayGarbled \<Rightarrow>
               (Inl (DomainErr (with_field (err_wrap (Some (Leaf ''yaml'')) CodeInvalid ''config.LoadAllowOverlay'' ''parse'')
                  ''path'' path)), d)
           | Some (OverlayFile m) \<Rightarrow> (Inr m, d)))"

definition LoadAllowOverlay ::
  "string \<Rightarrow> overlay_content disk \<Rightarrow> (goerr + string list gomap) \<times> overlay_content disk" where
  "LoadAllowOverlay path d0 =
     (case loadAllowOverlay path d0 of
        (Inl e, d) \<Rightarrow>
          (Inl (DomainErr (err_wrap (Some e) (code_or (Some e) CodeInvalid) ''config.LoadAllowOverlay'' ''allow overlay'')), d)
      | (Inr m, d) \<Rightarrow> (Inr m, d))"

definition overlay_add_locked ::
  "string \<Rightarrow> string \<Rightarrow> string \<Rightarrow> overlay_content disk \<Rightarrow> goerr option \<times> overlay_content disk" where
  "overlay_add_locked path backendID downstream d0 =
     (case LoadAllowOverlay path d0 of
        (Inl e, d) \<Rightarrow> (Some e, d)
      | (Inr file, d) \<Rightarrow>
          (let allow = (case map_of file backendID of None \<Rightarrow> [] | Some es \<Rightarrow> es)
           in if list_ex (\<lambda>e. NormalizeDownstream backendID e = downstream) allow then (None, d)
              else WriteAtomic path (OverlayFile (put backendID (allow @ [downstream]) file)) d))"

definition overlay_remove_locked ::
  "string \<Rightarrow> string \<Rightarrow> string \<Rightarrow> overlay_content disk \<Rightarrow> goerr option \<times> overlay_content disk" where
  "overlay_remove_locked path backendID downstream d0 =
     (case LoadAllowOverlay path d0 of
        (Inl e, d) \<Rightarrow> (Some e, d)
      | (Inr file, d) \<Rightarrow>
          (case map_of file backendID of
             None \<Rightarrow> (None, d)
           | Some allow \<Rightarrow>
               (let kept = filter (\<lambda>e. NormalizeDownstream backendID e \<noteq> downstream) allow
                in if length kept = length allow then (None, d)
                   else WriteAtomic path
                          (OverlayFile (if kept = [] then AList.delete backendID file else put backendID kept file)) d)))"

text \<open>The prologue both share: trimmed arguments, neither empty.\<close>

definition overlay_call ::
  "string \<Rightarrow> string \<Rightarrow> (string \<Rightarrow> string \<Rightarrow> string \<Rightarrow> overlay_content disk \<Rightarrow> goerr option \<times> overlay_content disk) \<Rightarrow>
   lock_env \<Rightarrow> go_context option \<Rightarrow> string \<Rightarrow> string \<Rightarrow> string \<Rightarrow> overlay_content disk \<Rightarrow> goerr option \<times> overlay_content disk" where
  "overlay_call op msg locked env ctx path backendID0 downstream0 d =
     (let backendID = trim_space backendID0; downstream = trim_space (NormalizeDownstream backendID downstream0)
      in case (if backendID = [] \<or> downstream = []
               then (Some (DomainErr (err_new CodeInvalid op ''backend and model required'')), d)
               else WithFileLock env ctx path (Some (locked path backendID downstream)) d) of
           (Some e, d') \<Rightarrow> (Some (DomainErr (err_wrap (Some e) (code_or (Some e) CodeInternal) op msg)), d')
         | (None, d') \<Rightarrow> (None, d'))"

definition OverlayAdd ::
  "lock_env \<Rightarrow> go_context option \<Rightarrow> string \<Rightarrow> string \<Rightarrow> string \<Rightarrow> overlay_content disk \<Rightarrow> goerr option \<times> overlay_content disk" where
  "OverlayAdd = overlay_call ''config.OverlayAdd'' ''overlay add'' overlay_add_locked"

definition OverlayRemove ::
  "lock_env \<Rightarrow> go_context option \<Rightarrow> string \<Rightarrow> string \<Rightarrow> string \<Rightarrow> overlay_content disk \<Rightarrow> goerr option \<times> overlay_content disk" where
  "OverlayRemove = overlay_call ''config.OverlayRemove'' ''overlay remove'' overlay_remove_locked"

text \<open>What the file says, when it decodes.\<close>

definition overlay_now :: "string \<Rightarrow> overlay_content disk \<Rightarrow> string list gomap option" where
  "overlay_now path d =
     (if trim_space path = [] then Some []
      else case look d path of None \<Rightarrow> Some [] | Some OverlayGarbled \<Rightarrow> None | Some (OverlayFile m) \<Rightarrow> Some m)"

section \<open>The admin call\<close>

definition prefixModelID :: "string \<Rightarrow> string \<Rightarrow> string" where
  "prefixModelID backendID0 modelID0 =
     (let backendID = trim_space backendID0; modelID = trim_space modelID0
      in if backendID = [] then modelID
         else if has_prefix modelID (backendID @ ''/'') then modelID
         else backendID @ ''/'' @ modelID)"

record allow_request =
  al_backend :: backend_def
  al_model :: string
  al_down :: string
  al_public_id :: string

text \<open>\<open>parseAllowRequest\<close>, once the body is decoded.\<close>

definition check_allow_request :: "registry \<Rightarrow> string \<Rightarrow> string \<Rightarrow> goerr + allow_request" where
  "check_allow_request r backend0 model0 =
     (let op = ''gateway.parseAllowRequest''; backendID = trim_space backend0; model = trim_space model0;
          no_gate = Inl (DomainErr (with_field (err_new CodeFailedPrecondition op ''backend has no models.allow gate'')
                           ''backend'' backendID))
      in if backendID = [] \<or> model = [] then Inl (DomainErr (err_new CodeInvalid op ''backend and model required''))
         else case reg_Backend r backendID of
           None \<Rightarrow> Inl (DomainErr (with_field (err_new CodeNotFound op ''backend not found'') ''backend'' backendID))
         | Some b \<Rightarrow>
             if \<not> HasAllowGate (bk_models b) then no_gate
             else let down = NormalizeDownstream backendID model
                  in if down = [] then Inl (DomainErr (err_new CodeInvalid op ''invalid model''))
                     else case cut model (CHR ''/'') of
                       (pre, Some _) \<Rightarrow>
                         if pre \<noteq> [] \<and> pre \<noteq> backendID \<and> reg_Backend r pre \<noteq> None
                         then Inl (DomainErr (err_new CodeInvalid op ''model backend prefix mismatch''))
                         else Inr \<lparr>al_backend = b, al_model = model, al_down = down, al_public_id = prefixModelID backendID down\<rparr>
                     | (_, None) \<Rightarrow>
                         Inr \<lparr>al_backend = b, al_model = model, al_down = down, al_public_id = prefixModelID backendID down\<rparr>)"

definition adminAllowMaxBody :: nat where "adminAllowMaxBody = 64 * 1024"

definition allow_body_decoder :: "(string \<times> string) field_decoder list" where
  "allow_body_decoder =
     [(''backend'', \<lambda>_ j (b, m). map_option (\<lambda>b'. (b', m)) (dec_string b j)),
      (''model'', \<lambda>_ j (b, m). map_option (\<lambda>m'. (b, m')) (dec_string m j))]"

text \<open>The body is what \<open>MaxBytesReader\<close> let through, or its error.\<close>

definition parseAllowRequest :: "registry \<Rightarrow> goerr + bytes \<Rightarrow> goerr + allow_request" where
  "parseAllowRequest r body =
     (let op = ''gateway.parseAllowRequest''
      in case body of
           Inl e \<Rightarrow> Inl (DomainErr (err_wrap (Some e) CodeInvalid op ''read body''))
         | Inr raw \<Rightarrow>
             (case unmarshal allow_body_decoder ([], []) raw of
                None \<Rightarrow> Inl (DomainErr (err_wrap (Some (Leaf ''json'')) CodeInvalid op ''invalid json''))
              | Some (backend, model) \<Rightarrow> check_allow_request r backend model))"

definition modelInInventory :: "string \<Rightarrow> string \<Rightarrow> string \<Rightarrow> string list \<Rightarrow> bool" where
  "modelInInventory backendID down req models =
     list_ex (\<lambda>m. m = req \<or> m = down \<or> m = prefixModelID backendID down \<or> NormalizeDownstream backendID m = down) models"

record allow_response =
  ar_backend :: string
  ar_model :: string
  ar_public_id :: string
  ar_already :: bool
  ar_allow :: "string list"

definition allow_of :: "backend_models option \<Rightarrow> string list" where
  "allow_of m = (case m of None \<Rightarrow> [] | Some bm \<Rightarrow> bm_allow bm)"

definition errModelNotInInventory :: goerr where
  "errModelNotInInventory = DomainErr (err_new CodeInvalid ''gateway.allowModel'' ''model not in backend inventory'')"

text \<open>\<open>allowModel\<close>; \<open>inventory\<close> is the list of ids the backend's live list has, \<open>env\<close> and \<open>env'\<close>
  the locks of the write and of the rollback. The last component is the rollback's failure, which
  is logged.\<close>

definition allowModel ::
  "lock_env \<Rightarrow> lock_env \<Rightarrow> go_context option \<Rightarrow> string \<Rightarrow> string list \<Rightarrow> allow_request \<Rightarrow> registry \<times> overlay_content disk \<Rightarrow>
   (goerr + allow_response) \<times> (registry \<times> overlay_content disk) \<times> goerr option" where
  "allowModel env env' ctx path inventory req = (\<lambda>(r, d).
     let op = ''gateway.allowModel''; b = al_backend req; backendID = bk_id b;
         resp = \<lparr>ar_backend = backendID, ar_model = al_down req, ar_public_id = al_public_id req, ar_already = False, ar_allow = []\<rparr>
     in if IsModelAllowed b (al_model req) \<or> IsModelAllowed b (al_down req) \<or> IsModelAllowed b (al_public_id req)
        then (Inr (resp\<lparr>ar_already := True, ar_allow := allow_of (bk_models b)\<rparr>), (r, d), None)
        else if \<not> modelInInventory backendID (al_down req) (al_model req) inventory then
          (Inl (if inventory = []
                then DomainErr (with_field (err_new CodeNotReady op ''could not fetch backend inventory'') ''backend'' backendID)
                else errModelNotInInventory), (r, d), None)
        else case OverlayAdd env ctx path backendID (al_down req) d of
          (Some e, d1) \<Rightarrow> (Inl (DomainErr (err_wrap (Some e) CodeInternal op ''overlay'')), (r, d1), None)
        | (None, d1) \<Rightarrow>
            (case AllowModel backendID (al_down req) r of
               (Some e, r1) \<Rightarrow>
                 (case OverlayRemove env' (map_option (\<lambda>c. c\<lparr>ctx_err := None\<rparr>) ctx) path backendID (al_down req) d1 of
                    (rb, d2) \<Rightarrow> (Inl (DomainErr (err_wrap (Some e) CodeInternal op ''allow model'')), (r1, d2), rb))
             | (None, r1) \<Rightarrow>
                 (Inr (resp\<lparr>ar_allow := (case reg_Backend r1 backendID of None \<Rightarrow> [] | Some b2 \<Rightarrow> allow_of (bk_models b2))\<rparr>),
                  (r1, d1), None)))"

section \<open>Concurrent calls\<close>

text \<open>C31: Concurrent calls of \<open>AllowModel\<close> take effect one after the other: whatever the interleaving, the
  finished calls have an order in which running them alone gives the same results and the same
  configuration. So no allowed model is lost.\<close>

theorem concurrent_allows_linearize:
  assumes "am_step\<^sup>*\<^sup>* (am_start r0 calls) (c, ts)"
  shows "map call_of ts = calls \<and>
    (\<exists>ord. distinct ord \<and> set ord = {i. i < length ts \<and> am_done (ts ! i)} \<and>
       allow_all (map (\<lambda>i. calls ! i) ord) r0 = (map (\<lambda>i. am_result (ts ! i)) ord, ce_cfg c))"
proof -
  have inv: "map call_of ts = calls"
    "\<exists>ord. distinct ord \<and> set ord = {i. i < length ts \<and> am_done (ts ! i)} \<and>
        allow_all (map (\<lambda>i. call_of (ts ! i)) ord) r0 = (map (\<lambda>i. am_result (ts ! i)) ord, ce_cfg c)"
    using am_inv_reach [OF assms] by (auto simp: am_inv_def)
  then obtain ord where ord: "distinct ord" "set ord = {i. i < length ts \<and> am_done (ts ! i)}"
    "allow_all (map (\<lambda>i. call_of (ts ! i)) ord) r0 = (map (\<lambda>i. am_result (ts ! i)) ord, ce_cfg c)" by blast
  have "map (\<lambda>i. call_of (ts ! i)) ord = map (\<lambda>i. calls ! i) ord"
  proof (rule map_cong)
    fix i
    assume "i \<in> set ord"
    then have "i < length ts" using ord(2) by simp
    then have "map call_of ts ! i = call_of (ts ! i)" by (rule nth_map)
    then show "call_of (ts ! i) = calls ! i" by (simp only: inv(1))
  qed simp
  with ord(3) have "allow_all (map (\<lambda>i. calls ! i) ord) r0 = (map (\<lambda>i. am_result (ts ! i)) ord, ce_cfg c)" by (simp only:)
  with ord(1,2) inv(1) show ?thesis by blast
qed

text \<open>C32: The compare-and-swap loop ends: \<open>n\<close> concurrent calls take at most \<open>2 n (n + 1)\<close> steps in all,
  and when no step is left every call has returned.\<close>

theorem allow_loop_terminates:
  assumes "(am_step ^^ k) (am_start r0 calls) (c, ts)"
  shows "k \<le> 2 * length calls * (length calls + 1) \<and> ((\<nexists>s. am_step (c, ts) s) \<longrightarrow> (\<forall>t \<in> set ts. am_done t))"
proof
  show "k \<le> 2 * length calls * (length calls + 1)" using am_run_bound [OF assms] by (simp only: am_measure_start)
  show "(\<nexists>s. am_step (c, ts) s) \<longrightarrow> (\<forall>t \<in> set ts. am_done t)" using am_stuck [of c ts] by blast
qed

section \<open>What the overlay file keeps\<close>

definition honest_faults :: "'c disk \<Rightarrow> bool" where
  "honest_faults d \<longleftrightarrow> (\<forall>e. Some e \<in> set (dk_faults d) \<longrightarrow> \<not> is_sentinel (Some e) FsNotExist)"

lemma os_call_honest:
  "os_call d = (r, d') \<Longrightarrow> honest_faults d \<Longrightarrow> honest_faults d' \<and> (\<forall>e. r = Some e \<longrightarrow> \<not> is_sentinel (Some e) FsNotExist)"
  by (cases "dk_faults d") (auto simp: os_call_def honest_faults_def)

lemma LoadAllowOverlay_facts:
  assumes "LoadAllowOverlay path d = (r, d')"
  shows "(\<forall>q. look d' q = look d q) \<and> (honest_faults d \<longrightarrow> (\<forall>m. r = Inr m \<longrightarrow> overlay_now path d = Some m))"
proof -
  obtain x d1 where c: "os_call d = (x, d1)" by (rule prod.exhaust)
  have "look d1 q = look d q" for q using os_call_files(3) [of d q] c by simp
  with assms c os_call_honest [OF c] show ?thesis
    by (auto simp: LoadAllowOverlay_def loadAllowOverlay_def overlay_now_def
        split: if_splits option.splits sum.splits overlay_content.splits)
qed

lemma overlay_now_look: "look d' path = look d path \<Longrightarrow> overlay_now path d' = overlay_now path d"
  by (simp add: overlay_now_def)

text \<open>A write of the file: \<open>locked\<close> run under the lock, or nothing.\<close>

lemma overlay_call_cases:
  assumes "overlay_call op msg locked env ctx path b0 ds0 d = (r, d')"
  obtains "trim_space b0 \<noteq> []" "trim_space (NormalizeDownstream (trim_space b0) ds0) \<noteq> []" "r = None"
      "locked path (trim_space b0) (trim_space (NormalizeDownstream (trim_space b0) ds0)) d = (None, d')"
    | e where "r \<noteq> None" "d' = d \<or> locked path (trim_space b0) (trim_space (NormalizeDownstream (trim_space b0) ds0)) d = (Some e, d')"
proof -
  let ?b = "trim_space b0" and ?ds = "trim_space (NormalizeDownstream (trim_space b0) ds0)"
  obtain x d1 where l: "locked path ?b ?ds d = (x, d1)" by (rule prod.exhaust)
  from WithFileLock_cases [of env ctx path "locked path ?b ?ds" d] assms l show ?thesis
    by (cases x) (auto simp: overlay_call_def Let_def split: if_splits option.splits prod.splits intro: that)
qed

lemma OverlayAdd_facts:
  assumes "OverlayAdd env ctx path b0 ds0 d = (r, d')" and "honest_faults d" and "trim_space path \<noteq> []"
  shows "if r = None
    then \<exists>m m'. overlay_now path d = Some m \<and> overlay_now path d' = Some m' \<and>
      (let b = trim_space b0; ds = NormalizeDownstream b ds0; es = (case map_of m b of None \<Rightarrow> [] | Some es \<Rightarrow> es)
       in if \<exists>e \<in> set es. NormalizeDownstream b e = ds then m' = m else m' = put b (es @ [ds]) m)
    else \<forall>q. look d' q = look d q"
proof -
  let ?b = "trim_space b0" and ?ds = "NormalizeDownstream (trim_space b0) ds0"
  obtain x d1 where x: "LoadAllowOverlay path d = (x, d1)" by (rule prod.exhaust)
  note lf = LoadAllowOverlay_facts [OF x]
  have failed: "\<forall>q. look d'' q = look d q" if "overlay_add_locked path ?b ?ds d = (Some e, d'')" for e d''
    using that x lf wa.write_error [of path _ d1 e d'']
    by (auto simp: overlay_add_locked_def Let_def split: sum.splits if_splits)
  from assms(1) show ?thesis
    unfolding OverlayAdd_def
  proof (cases rule: overlay_call_cases)
    case 1
    then obtain m where m: "x = Inr m" "overlay_now path d = Some m"
      using x lf assms(2) by (auto simp: overlay_add_locked_def split: sum.splits)
    let ?es = "case map_of m ?b of None \<Rightarrow> [] | Some es \<Rightarrow> es"
    show ?thesis
    proof (cases "\<exists>e \<in> set ?es. NormalizeDownstream ?b e = ?ds")
      case True
      with 1 x m have "d' = d1" by (auto simp: overlay_add_locked_def Let_def list_ex_iff)
      with lf m overlay_now_look [of d1 path d] True 1 show ?thesis by (auto simp: Let_def)
    next
      case False
      with 1 x m have w: "WriteAtomic path (OverlayFile (put ?b (?es @ [?ds]) m)) d1 = (None, d')"
        by (auto simp: overlay_add_locked_def Let_def list_ex_iff split: if_splits)
      from wa.write_ok [OF w, of path] False m 1 assms(3) show ?thesis by (auto simp: overlay_now_def Let_def)
    qed
  next
    case (2 e)
    with failed show ?thesis by (auto simp del: NormalizeDownstream_trim_arg)
  qed
qed

text \<open>What \<open>AllowModel\<close> does to the registry.\<close>

lemma AllowModel_cases:
  assumes "AllowModel k model r = (x, r')"
  shows "if x = None
    then \<exists>b bm b' bm'. reg_Backend r k = Some b \<and> bk_models b = Some bm \<and> HasAllowGate (Some bm) \<and>
      NormalizeDownstream k model \<noteq> [] \<and>
      reg_Backend r' k = Some b' \<and> bk_id b' = bk_id b \<and> bk_models b' = Some bm' \<and> HasAllowGate (Some bm') \<and>
      (bm' = bm \<and> ModelInAllowList k (NormalizeDownstream k model) (bm_allow bm) \<or>
       bm_allow bm' = bm_allow bm @ [NormalizeDownstream k model])
    else r' = r"
proof -
  from assms show ?thesis
    by (auto simp: AllowModel_def withAllowedModel_def Let_def reg_Backend_def backend_of_def loadCfg_def HasAllowGate_def
        split: sum.splits option.splits if_splits prod.splits bool.splits)
qed

text \<open>A model whose downstream id is normal passes a gate that admits that id, under each of its names.\<close>

lemma allowed_names:
  assumes "trim_space b = b" and "NormalizeDownstream b down = down" and "down \<noteq> []"
    and "ModelInAllowList b down allow" and "NormalizeDownstream b x = down"
  shows "ModelInAllowList b x allow"
proof -
  have "trim_space x \<noteq> []" using assms(3,5) by (auto simp: NormalizeDownstream_def Let_def)
  moreover have "trim_space down = down" using assms(2) NormalizeDownstream_trim [of b down] by simp
  ultimately show ?thesis using assms(2,4,5) by (auto simp: ModelInAllowList_iff [OF assms(1)])
qed

lemma prefixModelID_normal:
  assumes "trim_space b = b" and "b \<noteq> []" and "NormalizeDownstream b down = down" and "down \<noteq> []"
  shows "NormalizeDownstream b (prefixModelID b down) = down"
proof -
  have t: "trim_space down = down" using assms(3) NormalizeDownstream_trim [of b down] by simp
  have "\<not> has_prefix down (b @ ''/'')"
  proof
    assume "has_prefix down (b @ ''/'')"
    then obtain y where y: "down = b @ CHR ''/'' # y" by (auto simp: has_prefix_iff)
    have "has_prefix (b @ CHR ''/'' # y) (b @ ''/'')" by (simp add: has_prefix_iff)
    with y have "NormalizeDownstream b down = trim_space y"
      using assms(1,2) t drop_slash [of b y] by (simp add: NormalizeDownstream_def Let_def)
    with assms(3) have "length down = length (trim_space y)" by simp
    with y length_trim_space [of y] show False by simp
  qed
  then have "prefixModelID b down = b @ CHR ''/'' # down" using assms t by (simp add: prefixModelID_def Let_def)
  with NormalizeDownstream_prefixed [OF assms(2,1) t] show ?thesis by simp
qed

lemma check_allow_request_Inr:
  "check_allow_request r backend model = Inr req \<Longrightarrow>
   trim_space backend \<noteq> [] \<and> reg_Backend r (trim_space backend) = Some (al_backend req) \<and>
   HasAllowGate (bk_models (al_backend req)) \<and> al_model req = trim_space model \<and>
   al_down req = NormalizeDownstream (trim_space backend) model \<and> al_down req \<noteq> [] \<and>
   al_public_id req = prefixModelID (trim_space backend) (al_down req)"
  by (auto simp: check_allow_request_def Let_def split: if_splits option.splits prod.splits)

text \<open>C33: A model the admin call newly allowed is served at once and after a restart: the registry admits
  it as sent, by its downstream and by its public id, and so does every later configuration with that gated
  backend once the overlay file is applied. Its downstream id must not itself start with the name of the
  backend: such an id is stripped twice and lost (\<open>self_prefixed_allow_is_lost\<close> below). The overlay file
  names a backend once and the model, if at all, by its downstream id; the disk reports a file as
  missing only when it is.\<close>

theorem allowed_model_survives_restart:
  assumes "check_allow_request r backend model = Inr req"
    and "allowModel env env' ctx path inventory req (r, d) = (res, (r', d'), rb)"
    and "bk_id (al_backend req) = b" and "trim_space backend = b"
    and "NormalizeDownstream b (al_down req) = al_down req"
    and "honest_faults d" and "trim_space path \<noteq> []"
    and "\<forall>m. overlay_now path d = Some m \<longrightarrow> distinct (map fst m) \<and>
      (\<forall>es e. map_of m b = Some es \<and> e \<in> set es \<and> NormalizeDownstream b e = al_down req \<longrightarrow> e = al_down req)"
    and "res = Inr resp" and "\<not> ar_already resp" and "x \<in> {trim_space model, al_down req, al_public_id req}"
  shows "ensureModelAllowed r' b x \<and>
    (\<exists>m. overlay_now path d' = Some m \<and>
       (\<forall>bs bk. map_of bs b = Some bk \<and> bk_id bk = b \<longrightarrow>
          (\<exists>bk'. map_of (fst (apply_overlay m bs)) b = Some bk' \<and> IsModelAllowed bk' x)))"
proof -
  let ?down = "al_down req"
  note req = check_allow_request_Inr [OF assms(1)]
  have b: "trim_space b = b" "b \<noteq> []" using assms(4) req by auto
  have down: "?down \<noteq> []" "?down = NormalizeDownstream b model" using req assms(4) by auto
  have names: "NormalizeDownstream b x = ?down"
    using assms(4,5,11) req prefixModelID_normal [OF b assms(5) down(1)] down(2) by auto
  obtain d1 where a: "OverlayAdd env ctx path b ?down d = (None, d1)" "AllowModel b ?down r = (None, r')" "d' = d1"
    using assms(2,3,9,10)
    by (auto simp: allowModel_def Let_def split: if_splits prod.splits option.splits)
  have now: "ensureModelAllowed r' b x"
  proof -
    obtain bk bm' where "reg_Backend r' b = Some bk" "bk_id bk = b" "bk_models bk = Some bm'" "HasAllowGate (Some bm')"
      "ModelInAllowList b ?down (bm_allow bm')"
      using AllowModel_cases [OF a(2)] assms(3,4,5) req b down
      by (auto simp: ModelInAllowList_iff [OF b(1)] HasAllowGate_def)
    with allowed_names [OF b(1) assms(5) down(1) _ names] show ?thesis
      by (simp add: ensureModelAllowed_def IsModelAllowed_def)
  qed
  obtain m m' where m: "overlay_now path d = Some m" "overlay_now path d' = Some m'"
    "?down \<in> set (overlay_extra m' b)" "distinct (map fst m')"
  proof -
    obtain m m' where mm: "overlay_now path d = Some m" "overlay_now path d' = Some m'"
      "let es = (case map_of m b of None \<Rightarrow> [] | Some es \<Rightarrow> es)
       in if \<exists>e \<in> set es. NormalizeDownstream b e = ?down then m' = m else m' = put b (es @ [?down]) m"
      using OverlayAdd_facts [OF a(1) assms(6,7)] assms(5) b a(3) by (auto simp: Let_def)
    with assms(8) have "distinct (map fst m)" "distinct (map fst m')"
      by (auto simp: Let_def distinct_update split: if_splits)
    moreover have "?down \<in> set (overlay_extra m' b)"
    proof (cases "\<exists>e \<in> set (overlay_extra m b). NormalizeDownstream b e = ?down")
      case True
      then obtain e es where e: "map_of m b = Some es" "e \<in> set es" "NormalizeDownstream b e = ?down"
        by (cases "map_of m b") (auto simp: overlay_extra_def)
      with assms(8) mm(1) have "e = ?down" by blast
      with e have "?down \<in> set (overlay_extra m b)" by (simp add: overlay_extra_def)
      moreover have "m' = m" using mm(3) True unfolding Let_def overlay_extra_def by (simp only: if_True)
      ultimately show ?thesis by simp
    next
      case False
      then have "m' = put b (overlay_extra m b @ [?down]) m"
        using mm(3) unfolding Let_def overlay_extra_def by (simp only: if_False)
      then show ?thesis by (simp add: overlay_extra_def)
    qed
    ultimately show ?thesis using mm(1,2) that by blast
  qed
  have "\<exists>bk'. map_of (fst (apply_overlay m' bs)) b = Some bk' \<and> IsModelAllowed bk' x"
    if bs: "map_of bs b = Some bk" "bk_id bk = b" for bs bk
  proof -
    have "b \<in> fst ` set m'" using m(3) by (cases "map_of m' b") (auto simp: overlay_extra_def dest: map_of_mem)
    then have l: "map_of (fst (apply_overlay m' bs)) b = Some (widen (overlay_extra m' b) b bk)"
      using bs(1) apply_overlay_lookup [OF m(4)] by simp
    have "IsModelAllowed (widen (overlay_extra m' b) b bk) ?down"
      by (rule widen_admits [OF bs(2) b(1) m(3)]) (use assms(5) down(1) in simp)
    with allowed_names [OF b(1) assms(5) down(1) _ names] bs(2)
    have "IsModelAllowed (widen (overlay_extra m' b) b bk) x"
      by (auto simp: IsModelAllowed_def split: option.splits if_splits)
    with l show ?thesis by blast
  qed
  with now m(2) show ?thesis by blast
qed

text \<open>An allow for a model whose downstream id begins with the id of its backend is lost: the id is
  normalised again on the way into the registry and the overlay, so the call succeeds and reports
  the model as allowed, but requests for it are still refused.\<close>

theorem self_prefixed_allow_is_lost:
  assumes "check_allow_request r b (b @ ''/'' @ b @ ''/'' @ x) = Inr req"
    and "allowModel env env' ctx path inventory req (r, d) = (Inr resp, (r', d'), rb)" and "\<not> ar_already resp"
    and "bk_id (al_backend req) = b" and "trim_space b = b" and "trim_space x = x" and "x \<noteq> []"
    and "\<not> has_prefix x (b @ ''/'')"
  shows "ar_model resp = b @ ''/'' @ x \<and> \<not> ensureModelAllowed r' b (b @ ''/'' @ b @ ''/'' @ x)"
proof -
  let ?m = "b @ ''/'' @ b @ ''/'' @ x" and ?N = "NormalizeDownstream b"
  note req = check_allow_request_Inr [OF assms(1)]
  have b: "b \<noteq> []" using req assms(5) by auto
  have t1: "trim_space (b @ CHR ''/'' # x) = b @ CHR ''/'' # x"
    using assms(5,6) by (intro trim_space_sep) (simp_all add: graphic_def)
  have "trim_space (b @ CHR ''/'' # (b @ CHR ''/'' # x)) = b @ CHR ''/'' # (b @ CHR ''/'' # x)"
    by (rule trim_space_sep) (use assms(5) t1 in \<open>simp_all add: graphic_def\<close>)
  then have t2: "trim_space ?m = ?m" by simp
  have n: "?N ?m = b @ ''/'' @ x" "?N (b @ ''/'' @ x) = x"
    using NormalizeDownstream_prefixed [OF b assms(5) t1] NormalizeDownstream_prefixed [OF b assms(5,6)] by simp_all
  have nx: "?N x = x" using assms(5-8) by (simp add: NormalizeDownstream_def Let_def)
  have down: "al_down req = b @ ''/'' @ x" using req n assms(5) by simp
  have old: "\<not> IsModelAllowed (al_backend req) ?m"
    using assms(2,3) req t2 by (auto simp: allowModel_def Let_def split: if_splits prod.splits option.splits)
  have a: "AllowModel b (b @ ''/'' @ x) r = (None, r')" and resp: "ar_model resp = b @ ''/'' @ x"
    using assms(2-4) down by (auto simp: allowModel_def Let_def split: if_splits prod.splits option.splits)
  obtain bm bk' bm' where g: "bk_models (al_backend req) = Some bm" "HasAllowGate (Some bm)"
    "reg_Backend r' b = Some bk'" "bk_id bk' = b" "bk_models bk' = Some bm'" "HasAllowGate (Some bm')"
    "bm' = bm \<or> bm_allow bm' = bm_allow bm @ [x]"
    using AllowModel_cases [OF a] req assms(4,5) n(2) by auto
  have "\<not> ModelInAllowList b ?m (bm_allow bm)" using old g(1,2) assms(4) by (simp add: IsModelAllowed_def)
  moreover have "\<not> (?N ?m = ?N x \<or> trim_space ?m = ?N x \<or> ?N ?m = trim_space x)"
    unfolding n nx t2 assms(6) by simp
  ultimately have "\<not> ModelInAllowList b ?m (bm_allow bm')"
    using g(7) unfolding ModelInAllowList_iff [OF assms(5)] by auto
  with g resp show ?thesis by (simp add: ensureModelAllowed_def IsModelAllowed_def)
qed

section \<open>Runs without faults\<close>

lemma OverlayAdd_clean:
  assumes "lock_free env" and "dk_faults d = []" and "overlay_now path d = Some m" and "trim_space path \<noteq> []"
    and "trim_space b \<noteq> []" and "NormalizeDownstream b ds \<noteq> []"
  shows "\<exists>d'. OverlayAdd env (Some ctx) path b ds d = (None, d')"
proof -
  have "LoadAllowOverlay path d = (Inr m, d)"
    using assms(2-4) by (auto simp: LoadAllowOverlay_def loadAllowOverlay_def overlay_now_def os_call_def
        split: option.splits overlay_content.splits)
  with assms(2,5,6) show ?thesis
    by (auto simp: OverlayAdd_def overlay_call_def Let_def WithFileLock_free [OF assms(1)] overlay_add_locked_def
        WriteAtomic_quiet split: option.splits)
qed

definition gated :: "string \<Rightarrow> string list \<Rightarrow> backend_def" where
  "gated b allow = sample_gated\<lparr>bk_id := b, bk_models := Some \<lparr>bm_sync = None, bm_allow_configured = True, bm_allow = allow,
     bm_systemone_allow_configured = False, bm_systemone_allow = []\<rparr>\<rparr>"

definition gated_registry :: registry where
  "gated_registry = Some (sample_gated_config\<lparr>rc_backends := [(''or'', gated ''or'' [''gpt''])]\<rparr>)"

definition empty_disk :: "overlay_content disk" where
  "empty_disk = \<lparr>dk_files = [], dk_temps = [], dk_next = 0, dk_unsynced = [], dk_stale = [], dk_faults = []\<rparr>"

definition alive_context :: go_context where
  "alive_context = \<lparr>ctx_err = None, caller_budget = False\<rparr>"

lemma empty_disk_facts [simp]:
  "dk_faults empty_disk = []" "overlay_now ''/o'' empty_disk = Some []" "honest_faults empty_disk"
  by (simp_all add: empty_disk_def overlay_now_def look_def honest_faults_def)

lemma allow_runs:
  assumes "check_allow_request gated_registry ''or'' model = Inr req" and "bk_id (al_backend req) = ''or''"
    and "\<not> IsModelAllowed (al_backend req) (al_model req)" and "\<not> IsModelAllowed (al_backend req) (al_down req)"
    and "\<not> IsModelAllowed (al_backend req) (al_public_id req)"
    and "modelInInventory ''or'' (al_down req) (al_model req) inventory" and "NormalizeDownstream ''or'' (al_down req) \<noteq> []"
    and "fst (AllowModel ''or'' (al_down req) gated_registry) = None"
  shows "\<exists>resp r' d'. allowModel free_lock free_lock (Some alive_context) ''/o'' inventory req (gated_registry, empty_disk) =
    (Inr resp, (r', d'), None) \<and> \<not> ar_already resp"
proof -
  have "trim_space ''/o'' \<noteq> []" "trim_space ''or'' \<noteq> []" by code_simp+
  then obtain d' where "OverlayAdd free_lock (Some alive_context) ''/o'' ''or'' (al_down req) empty_disk = (None, d')"
    using OverlayAdd_clean [of free_lock empty_disk "''/o''" "[]" "''or''" "al_down req" alive_context] assms(7) by auto
  moreover obtain r' where "AllowModel ''or'' (al_down req) gated_registry = (None, r')" using assms(8) by (metis prod.collapse)
  ultimately show ?thesis using assms(2-6) by (simp add: allowModel_def Let_def)
qed

text \<open>A run under a given schedule; a slot that names no unfinished call is skipped.\<close>

fun am_schedule :: "nat list \<Rightarrow> cell \<times> allow_call list \<Rightarrow> cell \<times> allow_call list" where
  "am_schedule [] s = s"
| "am_schedule (i # is) (c, ts) =
     (if i < length ts \<and> \<not> am_done (ts ! i)
      then (case am_step1 c (ts ! i) of (c', t') \<Rightarrow> am_schedule is (c', ts[i := t']))
      else am_schedule is (c, ts))"

lemma am_schedule_run: "am_step\<^sup>*\<^sup>* s (am_schedule is s)"
proof (induction "is" s rule: am_schedule.induct)
  case (2 i "is" c ts)
  show ?case
  proof (cases "i < length ts \<and> \<not> am_done (ts ! i)")
    case True
    obtain c' t' where s: "am_step1 c (ts ! i) = (c', t')" by (rule prod.exhaust)
    with True have "am_step (c, ts) (c', ts[i := t'])" by (auto intro: am_step.am)
    moreover have "am_step\<^sup>*\<^sup>* (c', ts[i := t']) (am_schedule is (c', ts[i := t']))" using 2(1) True s by simp
    ultimately show ?thesis using True s by (simp add: converse_rtranclp_into_rtranclp)
  qed (use 2(2) in auto)
qed simp

text \<open>Two calls that both load before either swaps: the second one's swap fails and it runs again.\<close>

definition contended :: "cell \<times> allow_call list" where
  "contended = am_schedule [0, 1, 0, 1, 1, 1] (am_start gated_registry [(''or'', ''a''), (''or'', ''b'')])"

lemma contended_result:
  "map am_done (snd contended) = [True, True] \<and> ce_ptr (fst contended) = 2 \<and>
   IsModelAllowed (the (reg_Backend (ce_cfg (fst contended)) ''or'')) ''a'' \<and>
   IsModelAllowed (the (reg_Backend (ce_cfg (fst contended)) ''or'')) ''b''"
  by code_simp

theorem concurrent_allows_linearize_witness:
  "map am_done (snd contended) = [True, True] \<and>
   (\<exists>ord. distinct ord \<and> set ord = {i. i < length (snd contended) \<and> am_done (snd contended ! i)} \<and>
      allow_all (map (\<lambda>i. [(''or'', ''a''), (''or'', ''b'')] ! i) ord) gated_registry =
        (map (\<lambda>i. am_result (snd contended ! i)) ord, ce_cfg (fst contended)))"
proof -
  have "am_step\<^sup>*\<^sup>* (am_start gated_registry [(''or'', ''a''), (''or'', ''b'')]) (fst contended, snd contended)"
    unfolding contended_def by (simp add: am_schedule_run)
  from concurrent_allows_linearize [OF this] contended_result show ?thesis by blast
qed

theorem allowed_model_survives_restart_witness:
  "\<exists>req resp r' d'. check_allow_request gated_registry ''or'' ''or/auto'' = Inr req \<and>
     allowModel free_lock free_lock (Some alive_context) ''/o'' [''or/auto''] req (gated_registry, empty_disk) = (Inr resp, (r', d'), None) \<and>
     ensureModelAllowed r' ''or'' ''or/auto'' \<and>
     (\<exists>m bk'. overlay_now ''/o'' d' = Some m \<and> map_of (fst (apply_overlay m [(''or'', gated ''or'' [''gpt''])])) ''or'' = Some bk' \<and>
        IsModelAllowed bk' ''or/auto'')"
proof -
  let ?req = "\<lparr>al_backend = gated ''or'' [''gpt''], al_model = ''or/auto'', al_down = ''auto'', al_public_id = ''or/auto''\<rparr>"
  have req: "check_allow_request gated_registry ''or'' ''or/auto'' = Inr ?req" by code_simp
  have n: "NormalizeDownstream ''or'' ''auto'' = ''auto''" "trim_space ''/o'' \<noteq> []" "trim_space ''or'' = ''or''"
    "trim_space ''or/auto'' = ''or/auto''" by code_simp+
  have "\<not> IsModelAllowed (gated ''or'' [''gpt'']) ''or/auto''" "\<not> IsModelAllowed (gated ''or'' [''gpt'']) ''auto''"
    "modelInInventory ''or'' ''auto'' ''or/auto'' [''or/auto'']" by code_simp+
  moreover have "fst (AllowModel ''or'' ''auto'' gated_registry) = None" by code_simp
  moreover have i: "bk_id (gated ''or'' [''gpt'']) = ''or''" by (simp add: gated_def)
  ultimately obtain resp r' d' where a: "allowModel free_lock free_lock (Some alive_context) ''/o'' [''or/auto''] ?req (gated_registry, empty_disk) =
      (Inr resp, (r', d'), None)" "\<not> ar_already resp"
    using allow_runs [OF req, of "[''or/auto'']"] n by auto
  have "ensureModelAllowed r' ''or'' ''or/auto'' \<and>
    (\<exists>m. overlay_now ''/o'' d' = Some m \<and>
       (\<forall>bs bk. map_of bs ''or'' = Some bk \<and> bk_id bk = ''or'' \<longrightarrow>
          (\<exists>bk'. map_of (fst (apply_overlay m bs)) ''or'' = Some bk' \<and> IsModelAllowed bk' ''or/auto'')))"
    by (rule allowed_model_survives_restart [OF req a(1) _ _ _ _ _ _ refl a(2)]) (simp_all add: n i)
  then obtain m where m: "ensureModelAllowed r' ''or'' ''or/auto''" "overlay_now ''/o'' d' = Some m"
    "\<forall>bs bk. map_of bs ''or'' = Some bk \<and> bk_id bk = ''or'' \<longrightarrow>
          (\<exists>bk'. map_of (fst (apply_overlay m bs)) ''or'' = Some bk' \<and> IsModelAllowed bk' ''or/auto'')" by blast
  from m(3) [rule_format, of "[(''or'', gated ''or'' [''gpt''])]" "gated ''or'' [''gpt'']"] i
  obtain bk' where "map_of (fst (apply_overlay m [(''or'', gated ''or'' [''gpt''])])) ''or'' = Some bk'" "IsModelAllowed bk' ''or/auto''"
    by auto
  with req a(1) m(1,2) show ?thesis by blast
qed

theorem self_prefixed_allow_is_lost_witness:
  "\<exists>req resp r' d'. check_allow_request gated_registry ''or'' ''or/or/auto'' = Inr req \<and>
     allowModel free_lock free_lock (Some alive_context) ''/o'' [''or/auto''] req (gated_registry, empty_disk) = (Inr resp, (r', d'), None) \<and>
     ar_model resp = ''or/auto'' \<and> \<not> ensureModelAllowed r' ''or'' ''or/or/auto''"
proof -
  let ?req = "\<lparr>al_backend = gated ''or'' [''gpt''], al_model = ''or/or/auto'', al_down = ''or/auto'', al_public_id = ''or/auto''\<rparr>"
  have req: "check_allow_request gated_registry ''or'' ''or/or/auto'' = Inr ?req" by code_simp
  have n: "NormalizeDownstream ''or'' ''or/auto'' = ''auto''" "trim_space ''or'' = ''or''"
    "trim_space ''auto'' = ''auto''" "\<not> has_prefix ''auto'' ''or/''" by code_simp+
  have "\<not> IsModelAllowed (gated ''or'' [''gpt'']) ''or/or/auto''" "\<not> IsModelAllowed (gated ''or'' [''gpt'']) ''or/auto''"
    "modelInInventory ''or'' ''or/auto'' ''or/or/auto'' [''or/auto'']" by code_simp+
  moreover have "fst (AllowModel ''or'' ''or/auto'' gated_registry) = None" by code_simp
  moreover have i: "bk_id (gated ''or'' [''gpt'']) = ''or''" by (simp add: gated_def)
  ultimately obtain resp r' d' where a: "allowModel free_lock free_lock (Some alive_context) ''/o'' [''or/auto''] ?req (gated_registry, empty_disk) =
      (Inr resp, (r', d'), None)" "\<not> ar_already resp"
    using allow_runs [OF req, of "[''or/auto'']"] n by auto
  have req': "check_allow_request gated_registry ''or'' (''or'' @ ''/'' @ ''or'' @ ''/'' @ ''auto'') = Inr ?req" using req by simp
  from self_prefixed_allow_is_lost [OF req' a] n i have "ar_model resp = ''or/auto''" "\<not> ensureModelAllowed r' ''or'' ''or/or/auto''" by simp_all
  with req a(1) show ?thesis by blast
qed

theorem allow_loop_terminates_witness:
  "\<exists>k \<le> 12. (am_step ^^ k) (am_start gated_registry [(''or'', ''a''), (''or'', ''b'')]) contended"
proof -
  obtain k where k: "(am_step ^^ k) (am_start gated_registry [(''or'', ''a''), (''or'', ''b'')]) (fst contended, snd contended)"
    using rtranclp_imp_relpowp [OF am_schedule_run] by (metis contended_def prod.collapse)
  from allow_loop_terminates [OF this] have "k \<le> 12" by simp
  with k show ?thesis by auto
qed

end
