(* ===== verification/Catalog_Clients.thy ===== *)
theory Catalog_Clients
  imports Outbound
begin

text \<open>
  The model catalogs of the providers: the TTL cache and the strict list with its stale fallback
  (\<open>internal/clients/catalog/catalog.go\<close>), and the client of OpenAI-compatible backends
  (\<open>internal/clients/openaicompat/openaicompat.go\<close>). The catalog fetch, the clock and the transport
  are arguments; a clock is read off the world. The property is the outage behaviour of a catalog:
  after a listing that returned models a failing provider never surfaces as an error.
\<close>

section \<open>The cache\<close>

definition ObjectModel :: string where "ObjectModel = ''model''"

record catalog_model =
  cm_id :: string
  cm_object :: string
  cm_created :: int
  cm_owned_by :: string

record catalog_cache =
  cc_models :: "catalog_model list"
  cc_at :: int
  cc_ttl :: int

definition NewCacheClock :: "int \<Rightarrow> catalog_cache" where
  "NewCacheClock ttl = \<lparr>cc_models = [], cc_at = 0, cc_ttl = ttl\<rparr>"

text \<open>\<open>Get\<close>, \<open>GetStale\<close> and \<open>Put\<close> with the time read by the call.\<close>

definition cache_Get :: "int \<Rightarrow> catalog_cache \<Rightarrow> catalog_model list option" where
  "cache_Get now c =
     (if cc_models c = [] then None
      else if time_sub now (cc_at c) > cc_ttl c then None
      else Some (cc_models c))"

definition cache_GetStale :: "catalog_cache \<Rightarrow> catalog_model list option" where
  "cache_GetStale c = (if cc_models c = [] then None else Some (cc_models c))"

definition cache_Put :: "int \<Rightarrow> catalog_model list \<Rightarrow> catalog_cache \<Rightarrow> catalog_cache" where
  "cache_Put now models c = c\<lparr>cc_models := models, cc_at := now\<rparr>"

type_synonym 'u catalog_fetch = "'u \<Rightarrow> (goerr + catalog_model list) \<times> 'u"

text \<open>\<open>ListStrict\<close>; a missing cache or fetch is \<open>None\<close>. The list's object is always \<open>list\<close>.\<close>

definition ListStrict ::
  "('u \<Rightarrow> int) \<Rightarrow> 'u catalog_fetch option \<Rightarrow> catalog_cache option \<times> 'u
   \<Rightarrow> (goerr + catalog_model list) \<times> catalog_cache option \<times> 'u" where
  "ListStrict clock fetch = (\<lambda>(cache, u).
     case (cache, fetch) of
       (Some c, Some f) \<Rightarrow>
         (case cache_Get (clock u) c of
            Some ms \<Rightarrow> (Inr ms, Some c, u)
          | None \<Rightarrow>
              (case f u of
                 (Inl e, u1) \<Rightarrow>
                   (case cache_GetStale c of
                      Some ms \<Rightarrow> (Inr ms, Some c, u1)
                    | None \<Rightarrow> (Inl e, Some c, u1))
               | (Inr ms, u1) \<Rightarrow> (Inr ms, Some (cache_Put (clock u1) ms c), u1)))
     | _ \<Rightarrow> (Inl (DomainErr (err_new CodeInternal ''catalog.ListStrict'' ''cache and fetch required'')), cache, u))"

text \<open>The fetches of a catalog, one call after the other.\<close>

fun list_calls ::
  "('u \<Rightarrow> int) \<Rightarrow> 'u catalog_fetch list \<Rightarrow> catalog_cache option \<times> 'u
   \<Rightarrow> (goerr + catalog_model list) list \<times> catalog_cache option \<times> 'u" where
  "list_calls clock [] s = ([], s)"
| "list_calls clock (f # fs) s =
     (case ListStrict clock (Some f) s of
        (r, s1) \<Rightarrow> (case list_calls clock fs s1 of (rs, s2) \<Rightarrow> (r # rs, s2)))"

section \<open>OpenAI-compatible backends\<close>

definition modelsMaxBody :: nat where "modelsMaxBody = 4 * 1048576"

definition catalog_model_fields :: "catalog_model field_decoder list" where
  "catalog_model_fields =
     [(''id'', \<lambda>_ j m. map_option (\<lambda>v. m\<lparr>cm_id := v\<rparr>) (dec_string (cm_id m) j)),
      (''created'', \<lambda>_ j m. map_option (\<lambda>v. m\<lparr>cm_created := v\<rparr>) (dec_int (cm_created m) j)),
      (''owned_by'', \<lambda>_ j m. map_option (\<lambda>v. m\<lparr>cm_owned_by := v\<rparr>) (dec_string (cm_owned_by m) j))]"

definition zero_model :: catalog_model where
  "zero_model = \<lparr>cm_id = [], cm_object = [], cm_created = 0, cm_owned_by = []\<rparr>"

definition models_list_fields :: "(string \<times> catalog_model list) field_decoder list" where
  "models_list_fields =
     [(''object'', \<lambda>_ j (ob, ms). map_option (\<lambda>v. (v, ms)) (dec_string ob j)),
      (''data'', \<lambda>_ j (ob, ms). map_option (\<lambda>v. (ob, v)) (dec_slice (dec_struct catalog_model_fields zero_model) j))]"

definition withIDs :: "catalog_model list \<Rightarrow> catalog_model list" where
  "withIDs ms = filter (\<lambda>m. cm_id m \<noteq> []) (map (\<lambda>m. m\<lparr>cm_id := trim_space (cm_id m)\<rparr>) ms)"

definition ParseModels :: "bytes \<Rightarrow> catalog_model list" where
  "ParseModels raw =
     (case unmarshal models_list_fields ([], []) raw of
        Some (ob, ms) \<Rightarrow>
          if ob = ''list'' \<or> ms \<noteq> [] then withIDs ms
          else (case Option.bind (json_parse raw) (dec_slice (dec_struct catalog_model_fields zero_model)) of
                  Some arr \<Rightarrow> withIDs arr | None \<Rightarrow> [])
      | None \<Rightarrow>
          (case Option.bind (json_parse raw) (dec_slice (dec_struct catalog_model_fields zero_model)) of
             Some arr \<Rightarrow> withIDs arr | None \<Rightarrow> []))"

text \<open>A client: the transport under an \<open>Authorization\<close> header, or \<open>None\<close> without one of its parts.\<close>

type_synonym 'u compat_client = "(string \<Rightarrow> 'u transport) option"

definition compat_check :: "'u compat_client \<Rightarrow> string \<Rightarrow> goerr + (string \<Rightarrow> 'u transport)" where
  "compat_check c op =
     (case c of
        None \<Rightarrow> Inl (DomainErr (err_new CodeInternal op ''client needs an HTTP client and policies''))
      | Some tr \<Rightarrow> Inr tr)"

definition compat_send ::
  "'u compat_client \<Rightarrow> go_context option \<Rightarrow> string \<Rightarrow> string \<Rightarrow> string \<Rightarrow> 'u \<Rightarrow> (goerr + http_answer) \<times> 'u" where
  "compat_send c ctx op target auth u =
     (case compat_check c op of
        Inl e \<Rightarrow> (Inl e, u)
      | Inr tr \<Rightarrow>
          (case tr_request (tr auth) target of
             Some e \<Rightarrow> (Inl (DomainErr (err_wrap (Some e) CodeInvalid op ''request'')), u)
           | None \<Rightarrow>
               (case tr_send (tr auth) ctx True ''GET'' target None u of
                  (Inl e, u1) \<Rightarrow> (Inl (DomainErr (err_wrap (Some e) (code_or (Some e) CodeUnavailable) op ''get'')), u1)
                | (Inr a, u1) \<Rightarrow> (Inr a, u1))))"

definition compat_ListModels ::
  "'u compat_client \<Rightarrow> go_context option \<Rightarrow> string \<Rightarrow> string \<Rightarrow> 'u \<Rightarrow> (goerr + catalog_model list) \<times> 'u" where
  "compat_ListModels c ctx target auth u =
     (let op = ''openaicompat.ListModels''
      in case compat_send c ctx op target auth u of
           (Inl e, u1) \<Rightarrow> (Inl e, u1)
         | (Inr a, u1) \<Rightarrow>
             if \<not> ok_status (ha_status a)
             then (Inl (DomainErr (with_field (err_new (StatusCode (ha_status a)) op ''models list status'')
                     ''status'' (itoa (ha_status a)))), u1)
             else (case ReadCapped (ha_body a) modelsMaxBody op of
                     Inl e \<Rightarrow> (Inl e, u1)
                   | Inr raw \<Rightarrow> (Inr (ParseModels raw), u1)))"

text \<open>\<open>probe\<close>, \<open>Ping\<close> and \<open>CheckHealth\<close>; the body is drained up to the cap.\<close>

definition compat_probe ::
  "'u compat_client \<Rightarrow> go_context option \<Rightarrow> string \<Rightarrow> string \<Rightarrow> (int \<Rightarrow> bool) \<Rightarrow> 'u \<Rightarrow> goerr option \<times> 'u" where
  "compat_probe c ctx op target healthy u =
     (case compat_send c ctx op target [] u of
        (Inl e, u1) \<Rightarrow> (Some e, u1)
      | (Inr a, u1) \<Rightarrow>
          (case ha_body a of
             Inl e \<Rightarrow> (Some (DomainErr (err_wrap (Some e) CodeUnavailable op ''drain body'')), u1)
           | Inr _ \<Rightarrow>
               if \<not> healthy (ha_status a)
               then (Some (DomainErr (with_field (err_new CodeUnavailable op ''unhealthy status'')
                       ''status'' (itoa (ha_status a)))), u1)
               else (None, u1)))"

definition compat_Ping :: "'u compat_client \<Rightarrow> go_context option \<Rightarrow> string \<Rightarrow> 'u \<Rightarrow> goerr option \<times> 'u" where
  "compat_Ping c ctx target = compat_probe c ctx ''openaicompat.Ping'' target (\<lambda>status. status < 500)"

definition compat_CheckHealth :: "'u compat_client \<Rightarrow> go_context option \<Rightarrow> string \<Rightarrow> 'u \<Rightarrow> goerr option \<times> 'u" where
  "compat_CheckHealth c ctx target = compat_probe c ctx ''openaicompat.CheckHealth'' target ok_status"

section \<open>Properties\<close>

lemma ParseModels_ids: "m \<in> set (ParseModels raw) \<Longrightarrow> cm_id m \<noteq> [] \<and> trim_space (cm_id m) = cm_id m"
  by (auto simp: ParseModels_def withIDs_def split: option.splits prod.splits if_splits)

lemma ListStrict_cases:
  "ListStrict clock (Some f) (Some c, u) = (r, c', u') \<Longrightarrow>
   (\<exists>d. c' = Some d \<and> cc_ttl d = cc_ttl c) \<and>
   (case r of
      Inl e \<Rightarrow> c' = Some c \<and> cc_models c = [] \<and> fst (f u) = Inl e
    | Inr ms \<Rightarrow> (c' = Some c \<and> cc_models c = ms \<and> ms \<noteq> []) \<or>
        (fst (f u) = Inr ms \<and> (\<exists>d. c' = Some d \<and> cc_models d = ms)))"
  by (auto simp: ListStrict_def cache_Get_def cache_GetStale_def cache_Put_def split: if_splits option.splits prod.splits sum.splits)

text \<open>C40: An outage of a provider is not seen once its models have been listed: in any sequence of list
  calls, whatever the fetches do and however much time passes, after a call that returned models the
  next call returns them again or what a fetch that succeeded then returned.\<close>

theorem outage_serves_the_last_list:
  assumes "list_calls clock (fs @ [f]) (Some (NewCacheClock ttl), u) = (rs @ [r], c, u')" and "length rs = length fs"
    and "rs \<noteq> []" and "last rs = Inr ms" and "ms \<noteq> []"
  shows "r = Inr ms \<or> (\<exists>w ms'. fst (f w) = Inr ms' \<and> r = Inr ms')"
proof -
  have inv: "list_calls clock fs (Some c0, u0) = (rs, c1, u1) \<Longrightarrow>
      \<exists>d. c1 = Some d \<and> (rs \<noteq> [] \<longrightarrow> (\<forall>ms. last rs = Inr ms \<longrightarrow> cc_models d = ms))" for fs rs c0 u0 c1 u1
  proof (induction fs arbitrary: rs c0 u0)
    case (Cons f fs)
    obtain r c2 u2 where r: "ListStrict clock (Some f) (Some c0, u0) = (r, c2, u2)" by (rule prod_cases3)
    obtain rs' where rs: "rs = r # rs'" "list_calls clock fs (c2, u2) = (rs', c1, u1)"
      using Cons.prems r by (auto split: prod.splits)
    obtain d where d: "c2 = Some d" using ListStrict_cases [OF r] by blast
    obtain d' where d': "c1 = Some d'" "rs' \<noteq> [] \<longrightarrow> (\<forall>ms. last rs' = Inr ms \<longrightarrow> cc_models d' = ms)"
      using Cons.IH rs(2) d by blast
    show ?case
    proof (cases "rs' = []")
      case True
      then have "c1 = c2" using rs(2) by (cases fs) (auto split: prod.splits)
      then show ?thesis using ListStrict_cases [OF r] True rs(1) d' by auto
    next
      case False
      then show ?thesis using d' rs(1) by auto
    qed
  qed auto
  have split: "list_calls clock (fs @ [f]) s = (case list_calls clock fs s of (rs, s1) \<Rightarrow>
      (case ListStrict clock (Some f) s1 of (r, s2) \<Rightarrow> (rs @ [r], s2)))" for fs f s
    by (induction fs arbitrary: s) (auto split: prod.splits)
  obtain rs' c1 u1 where a: "list_calls clock fs (Some (NewCacheClock ttl), u) = (rs', c1, u1)" by (rule prod_cases3)
  obtain r' c2 u2 where b: "ListStrict clock (Some f) (c1, u1) = (r', c2, u2)" by (rule prod_cases3)
  have "rs' = rs" "r' = r" using assms(1) a b split by auto
  moreover from inv [OF a] obtain d where d: "c1 = Some d" "rs' \<noteq> [] \<longrightarrow> (\<forall>ms. last rs' = Inr ms \<longrightarrow> cc_models d = ms)" by blast
  ultimately have "cc_models d = ms" using assms(3,4) by blast
  with ListStrict_cases [of clock f d u1 r c2 u2] b d(1) \<open>r' = r\<close> assms(5) show ?thesis
    by (cases r) auto
qed

text \<open>A successful but empty listing erases the copy an outage would be served from.\<close>

theorem empty_list_erases_the_copy:
  "fst (list_calls (\<lambda>t. t) [\<lambda>t. (Inr [zero_model\<lparr>cm_id := ''m''\<rparr>], t + 10), \<lambda>t. (Inr [], t + 10), \<lambda>t. (Inl (Leaf ''down''), t + 10)]
     (Some (NewCacheClock (-1)), 0)) =
   [Inr [zero_model\<lparr>cm_id := ''m''\<rparr>], Inr [], Inl (Leaf ''down'')]"
  by code_simp

theorem outage_serves_the_last_list_witness:
  "\<exists>c u'. list_calls (\<lambda>t. t) [\<lambda>t. (Inr [zero_model\<lparr>cm_id := ''m''\<rparr>], t + 10), \<lambda>t. (Inl (Leaf ''down''), t + 100)]
      (Some (NewCacheClock 5), 0) = ([Inr [zero_model\<lparr>cm_id := ''m''\<rparr>], Inr [zero_model\<lparr>cm_id := ''m''\<rparr>]], c, u')"
proof -
  let ?f = "\<lambda>t::int. (Inr [zero_model\<lparr>cm_id := ''m''\<rparr>], t + 10)" and ?g = "\<lambda>t::int. (Inl (Leaf ''down''), t + 100)"
  obtain rs c u' where r: "list_calls (\<lambda>t. t) ([?f] @ [?g]) (Some (NewCacheClock 5), 0) = (rs, c, u')" by (rule prod_cases3)
  then have l: "rs \<noteq> []" "length rs = 2" "hd rs = Inr [zero_model\<lparr>cm_id := ''m''\<rparr>]"
    by (auto simp: ListStrict_def cache_Get_def NewCacheClock_def split: prod.splits)
  then obtain x where rs: "rs = [Inr [zero_model\<lparr>cm_id := ''m''\<rparr>]] @ [x]" by (cases rs; cases "tl rs") auto
  from outage_serves_the_last_list [OF r [unfolded rs]] have "x = Inr [zero_model\<lparr>cm_id := ''m''\<rparr>]" by simp
  with r rs show ?thesis by auto
qed

end
