(* ===== verification/Encodings.thy ===== *)
theory Encodings
  imports Prelude
begin

text \<open>
  The text encodings of Go's standard library that the access keys use: \<open>encoding/base64\<close>, with
  the standard and the URL alphabet, unpadded and padded, and \<open>hex.EncodeToString\<close>. A byte is
  a character. The decoders are those of Go: line ends are skipped anywhere, and the unused low
  bits of the last character are not checked. The lemmas are the round trips.
\<close>

section \<open>Base64\<close>

definition upper_alnum :: string where
  "upper_alnum = ''ABCDEFGHIJKLMNOPQRSTUVWXYZabcdefghijklmnopqrstuvwxyz0123456789''"

definition std_alphabet :: string where "std_alphabet = upper_alnum @ ''+/''"
definition url_alphabet :: string where "url_alphabet = upper_alnum @ ''-_''"

definition sextet_char :: "string \<Rightarrow> nat \<Rightarrow> char" where
  "sextet_char alphabet n = (if n < length alphabet then alphabet ! n else CHR ''A'')"

fun index_of :: "char \<Rightarrow> string \<Rightarrow> nat option" where
  "index_of c [] = None"
| "index_of c (x # xs) = (if c = x then Some 0 else map_option Suc (index_of c xs))"

fun sextets :: "nat list \<Rightarrow> nat list" where
  "sextets (a # b # c # bs) =
     (a div 4) # ((a mod 4) * 16 + b div 16) # ((b mod 16) * 4 + c div 64) # (c mod 64) # sextets bs"
| "sextets [a, b] = [a div 4, (a mod 4) * 16 + b div 16, (b mod 16) * 4]"
| "sextets [a] = [a div 4, (a mod 4) * 16]"
| "sextets [] = []"

fun unsextets :: "nat list \<Rightarrow> nat list option" where
  "unsextets (a # b # c # d # vs) =
     map_option (\<lambda>bs. (a * 4 + b div 16) # ((b mod 16) * 16 + c div 4) # ((c mod 4) * 64 + d) # bs) (unsextets vs)"
| "unsextets [a, b, c] = Some [a * 4 + b div 16, (b mod 16) * 16 + c div 4]"
| "unsextets [a, b] = Some [a * 4 + b div 16]"
| "unsextets [a] = None"
| "unsextets [] = Some []"

definition base64_encode :: "string \<Rightarrow> string \<Rightarrow> string" where
  "base64_encode alphabet s = map (sextet_char alphabet) (sextets (map of_char s))"

definition line_end :: "char \<Rightarrow> bool" where
  "line_end c \<longleftrightarrow> c = char_of (10::nat) \<or> c = char_of (13::nat)"

fun char_values :: "string \<Rightarrow> string \<Rightarrow> nat list option" where
  "char_values alphabet [] = Some []"
| "char_values alphabet (c # cs) =
     (case index_of c alphabet of
        None \<Rightarrow> None
      | Some v \<Rightarrow> map_option (\<lambda>vs. v # vs) (char_values alphabet cs))"

text \<open>The raw encodings: no padding.\<close>

definition base64_raw_decode :: "string \<Rightarrow> string \<Rightarrow> string option" where
  "base64_raw_decode alphabet s =
     Option.bind (char_values alphabet (filter (\<lambda>c. \<not> line_end c) s))
       (\<lambda>vs. map_option (map char_of) (unsextets vs))"

text \<open>The padded encoding: the text is a multiple of four characters, the last one or two of which
  may be \<open>=\<close>.\<close>

definition drop_padding :: "string \<Rightarrow> string" where
  "drop_padding s =
     (if has_suffix s ''=='' then take (length s - 2) s else if has_suffix s ''='' then take (length s - 1) s else s)"

definition base64_decode :: "string \<Rightarrow> string \<Rightarrow> string option" where
  "base64_decode alphabet s =
     (let t = filter (\<lambda>c. \<not> line_end c) s
      in if length t mod 4 \<noteq> 0 then None else base64_raw_decode alphabet (drop_padding t))"

section \<open>Hexadecimal\<close>

definition hex_lower :: "nat \<Rightarrow> char" where
  "hex_lower d = (if d < 10 then digit_char d else char_of (87 + d))"

definition hex_encode :: "string \<Rightarrow> string" where
  "hex_encode s = concat (map (\<lambda>c. [hex_lower (of_char c div 16), hex_lower (of_char c mod 16)]) s)"

section \<open>Round trips\<close>

lemma byte_less [simp]: "of_char c < (256::nat)"
  by (metis of_char_mod_256 mod_less_divisor zero_less_numeral)

lemma sextets_less: "\<forall>b \<in> set bs. b < 256 \<Longrightarrow> \<forall>v \<in> set (sextets bs). v < 64"
  by (induction bs rule: sextets.induct) auto

lemma pack: "x < k \<Longrightarrow> (r * k + x) div k = (r::nat)" "x < k \<Longrightarrow> (r * k + x) mod k = (x::nat)"
  by simp_all

lemma byte_parts: "b < 256 \<Longrightarrow> b div 16 < (16::nat)" "b < 256 \<Longrightarrow> b div 64 < (4::nat)"
  by auto

lemma three_bytes:
  fixes a b c :: nat
  assumes "b < 256" "c < 256"
  shows "a div 4 * 4 + ((a mod 4) * 16 + b div 16) div 16 = a"
    "((a mod 4) * 16 + b div 16) mod 16 * 16 + ((b mod 16) * 4 + c div 64) div 4 = b"
    "((b mod 16) * 4 + c div 64) mod 4 * 64 + c mod 64 = c"
  by (simp_all only: pack [OF byte_parts(1) [OF assms(1)]] pack [OF byte_parts(2) [OF assms(2)]] div_mult_mod_eq)

lemma two_bytes:
  fixes a b :: nat
  assumes "b < 256"
  shows "a div 4 * 4 + ((a mod 4) * 16 + b div 16) div 16 = a"
    "((a mod 4) * 16 + b div 16) mod 16 * 16 + ((b mod 16) * 4) div 4 = b"
  using pack [OF byte_parts(1) [OF assms]] by (simp_all only: div_mult_mod_eq) simp

lemma unsextets_sextets: "\<forall>b \<in> set bs. b < 256 \<Longrightarrow> unsextets (sextets bs) = Some bs"
proof (induction bs rule: sextets.induct)
  case (1 a b c bs)
  then show ?case using three_bytes [of b c] by simp
next
  case (2 a b)
  then show ?case using two_bytes [of b] by simp
next
  case (3 a)
  then have "a div 4 * 4 + (a mod 4) * 16 div 16 = a" by simp
  then show ?case by simp
qed simp

lemma index_of_less: "index_of c xs = Some n \<Longrightarrow> n < length xs \<and> xs ! n = c"
  by (induction xs arbitrary: n) (auto split: if_splits)

lemma index_of_nth: "distinct xs \<Longrightarrow> n < length xs \<Longrightarrow> index_of (xs ! n) xs = Some n"
proof (induction xs arbitrary: n)
  case (Cons x xs)
  then show ?case by (cases n) (auto simp: nth_mem)
qed simp

definition good_alphabet :: "string \<Rightarrow> bool" where
  "good_alphabet alphabet \<longleftrightarrow>
     distinct alphabet \<and> length alphabet = 64 \<and> list_all (\<lambda>c. \<not> line_end c \<and> graphic c) alphabet"

lemma good_std [simp]: "good_alphabet std_alphabet"
  by code_simp

lemma good_url [simp]: "good_alphabet url_alphabet"
  by code_simp

lemma char_values_sextets:
  "good_alphabet alphabet \<Longrightarrow> \<forall>v \<in> set vs. v < 64 \<Longrightarrow> char_values alphabet (map (sextet_char alphabet) vs) = Some vs"
  by (induction vs) (auto simp: good_alphabet_def sextet_char_def index_of_nth)

lemma sextet_char_mem: "good_alphabet alphabet \<Longrightarrow> v < 64 \<Longrightarrow> sextet_char alphabet v \<in> set alphabet"
  by (simp add: good_alphabet_def sextet_char_def)

lemma base64_alphabet:
  assumes "good_alphabet alphabet"
  shows "set (base64_encode alphabet s) \<subseteq> set alphabet"
proof -
  have "\<forall>b \<in> set (map of_char s). b < (256::nat)" by simp
  from sextets_less [OF this] sextet_char_mem [OF assms] show ?thesis by (auto simp: base64_encode_def)
qed

lemma base64_round_trip:
  assumes "good_alphabet alphabet"
  shows "base64_raw_decode alphabet (base64_encode alphabet s) = Some s"
proof -
  have b: "\<forall>b \<in> set (map of_char s). b < (256::nat)" by simp
  have "filter (\<lambda>c. \<not> line_end c) (base64_encode alphabet s) = base64_encode alphabet s"
    using base64_alphabet [OF assms] assms by (intro filter_True) (auto simp: good_alphabet_def list_all_iff)
  then show ?thesis
    using char_values_sextets [OF assms sextets_less [OF b]] unsextets_sextets [OF b]
    by (simp add: base64_raw_decode_def base64_encode_def comp_def)
qed

lemma base64_encode_inject: "good_alphabet alphabet \<Longrightarrow> base64_encode alphabet s = base64_encode alphabet t \<Longrightarrow> s = t"
  by (metis base64_round_trip option.inject)

lemma base64_graphic: "good_alphabet alphabet \<Longrightarrow> \<forall>c \<in> set (base64_encode alphabet s). graphic c"
  using base64_alphabet [of alphabet s] by (auto simp: good_alphabet_def list_all_iff)

lemma base64_encode_neq_Nil [simp]: "base64_encode alphabet s = [] \<longleftrightarrow> s = []"
proof -
  have "sextets bs = [] \<longleftrightarrow> bs = []" for bs by (cases bs rule: sextets.cases) auto
  then show ?thesis by (simp add: base64_encode_def)
qed

lemma hex_lower_facts: "d < 16 \<Longrightarrow> hex_lower d \<in> set ''0123456789abcdef''"
proof -
  assume "d < 16"
  then have "d \<in> set [0..<16]" by simp
  moreover have "\<forall>d \<in> set [0..<16]. hex_lower d \<in> set ''0123456789abcdef''" by code_simp
  ultimately show ?thesis by blast
qed

lemma hex_encode_chars: "c \<in> set (hex_encode s) \<Longrightarrow> c \<in> set ''0123456789abcdef''"
proof -
  assume "c \<in> set (hex_encode s)"
  then obtain x where "c = hex_lower (of_char x div 16) \<or> c = hex_lower (of_char x mod 16)"
    unfolding hex_encode_def by fastforce
  moreover have "of_char x div 16 < (16::nat)" "of_char x mod 16 < (16::nat)"
    using byte_parts(1) [OF byte_less [of x]] by simp_all
  ultimately show ?thesis using hex_lower_facts by metis
qed

lemma hex_encode_length [simp]: "length (hex_encode s) = 2 * length s"
  by (induction s) (simp_all add: hex_encode_def)

end
