(* ===== verification/Access_Keys.thy ===== *)
theory Access_Keys
  imports Encodings Statefile
begin

text \<open>
  \<open>internal/admin/keys\<close>: the gateway's access keys. \<open>hash.go\<close> stores and checks secrets,
  \<open>store.go\<close> keeps the named keys in a locked file, cached by the file's identity, time and
  size. SHA-256 and argon2id are functions of the record \<open>hash_api\<close>; the rest of the checks is
  the code's. The file holds what \<open>json.MarshalIndent\<close> wrote, as a value, or something that does not
  decode; with it comes the \<open>os.FileInfo\<close> of that version. Other processes may replace the file at
  any time, also between the two system calls of one read (\<open>meddle\<close>).
\<close>

section \<open>Hashes\<close>

record hash_api =
  ha_sha256 :: "bytes \<Rightarrow> bytes"
  ha_argon2 :: "bytes \<Rightarrow> bytes \<Rightarrow> nat \<Rightarrow> nat \<Rightarrow> nat \<Rightarrow> nat \<Rightarrow> bytes"

definition sha256Prefix :: string where "sha256Prefix = ''sha256$''"
definition legacyPrefix :: string where "legacyPrefix = ''argon2id$''"
definition sha256_size :: nat where "sha256_size = 32"
definition maxArgonTime :: nat where "maxArgonTime = 10"
definition maxArgonMemory :: nat where "maxArgonMemory = 2 ^ 20"
definition maxArgonKeyLen :: nat where "maxArgonKeyLen = 64"

definition hashSecret :: "hash_api \<Rightarrow> bytes \<Rightarrow> string" where
  "hashSecret h secret = sha256Prefix @ base64_encode std_alphabet (ha_sha256 h secret)"

text \<open>The loop of \<open>parseArgonParams\<close>: the keys seen, and memory, passes and threads so far.\<close>

record argon_params =
  ar_memory :: nat
  ar_passes :: nat
  ar_threads :: nat

definition argon_step :: "string \<Rightarrow> string list \<times> argon_params \<Rightarrow> unit + (string list \<times> argon_params)" where
  "argon_step kv = (\<lambda>(seen, p).
     case cut kv (CHR ''='') of
       (key, None) \<Rightarrow> Inl ()
     | (key, Some val) \<Rightarrow>
         if key \<in> set seen then Inl ()
         else if key = ''m'' then
           (case parse_uint 32 val of None \<Rightarrow> Inl () | Some n \<Rightarrow> Inr (key # seen, p\<lparr>ar_memory := n\<rparr>))
         else if key = ''t'' then
           (case parse_uint 32 val of None \<Rightarrow> Inl () | Some n \<Rightarrow> Inr (key # seen, p\<lparr>ar_passes := n\<rparr>))
         else if key = ''p'' then
           (case parse_uint 8 val of None \<Rightarrow> Inl () | Some n \<Rightarrow> Inr (key # seen, p\<lparr>ar_threads := n\<rparr>))
         else Inl ())"

definition parseArgonParams :: "string \<Rightarrow> argon_params option" where
  "parseArgonParams s =
     (case fold_res argon_step (split_char (CHR '','') s) ([], \<lparr>ar_memory = 0, ar_passes = 0, ar_threads = 0\<rparr>) of
        Inl _ \<Rightarrow> None
      | Inr (seen, p) \<Rightarrow>
          if length seen \<noteq> 3 \<or> ar_passes p < 1 \<or> maxArgonTime < ar_passes p \<or> ar_threads p < 1 \<or>
             ar_memory p < 8 * ar_threads p \<or> maxArgonMemory < ar_memory p
          then None else Some p)"

definition verifyArgon2id :: "hash_api \<Rightarrow> string \<Rightarrow> bytes \<Rightarrow> bool" where
  "verifyArgon2id h encoded secret =
     (case split_char (CHR ''$'') encoded of
        [p0, p1, p2, p3, p4] \<Rightarrow>
          if p0 \<noteq> ''argon2id'' \<or> p1 \<noteq> ''v=19'' then False
          else case parseArgonParams p2 of
            None \<Rightarrow> False
          | Some a \<Rightarrow>
              (case base64_raw_decode std_alphabet p3 of
                 None \<Rightarrow> False
               | Some salt \<Rightarrow>
                   (case base64_raw_decode std_alphabet p4 of
                      None \<Rightarrow> False
                    | Some want \<Rightarrow>
                        if length want = 0 \<or> maxArgonKeyLen < length want then False
                        else ha_argon2 h secret salt (ar_passes a) (ar_memory a) (ar_threads a) (length want) = want))
      | _ \<Rightarrow> False)"

text \<open>Whether the secret matches, and whether the hash is an argon2id one.\<close>

definition verifyHash :: "hash_api \<Rightarrow> string \<Rightarrow> bytes \<Rightarrow> bool \<times> bool" where
  "verifyHash h encoded secret =
     (if has_prefix encoded sha256Prefix then
        (case base64_raw_decode std_alphabet (trim_prefix encoded sha256Prefix) of
           None \<Rightarrow> (False, False)
         | Some want \<Rightarrow>
             if length want \<noteq> sha256_size then (False, False) else (ha_sha256 h secret = want, False))
      else if has_prefix encoded legacyPrefix then (verifyArgon2id h encoded secret, True)
      else (False, False))"

section \<open>The key file\<close>

definition maxKeys :: nat where "maxKeys = 32"
definition tokenPrefix :: string where "tokenPrefix = ''ppk.''"

definition name_head :: "char \<Rightarrow> bool" where
  "name_head c \<longleftrightarrow> is_digit c \<or> between CHR ''a'' CHR ''z'' c \<or> between CHR ''A'' CHR ''Z'' c"

definition namePattern :: "string \<Rightarrow> bool" where
  "namePattern name \<longleftrightarrow>
     (case name of
        [] \<Rightarrow> False
      | c # cs \<Rightarrow> name_head c \<and> length cs \<le> 63 \<and> list_all (\<lambda>c. name_head c \<or> c \<in> set ''._-'') cs)"

record key_record =
  kr_id :: string
  kr_name :: string
  kr_prefix :: string
  kr_hash :: string
  kr_created_at :: string
  kr_rotated_at :: string

record file_payload =
  kp_version :: int
  kp_keys :: "key_record list"

record file_info =
  fi_id :: nat
  fi_mtime :: int
  fi_size :: nat

datatype key_content = KeyFile file_info file_payload | Garbled file_info

fun content_info :: "key_content \<Rightarrow> file_info" where
  "content_info (KeyFile i p) = i"
| "content_info (Garbled i) = i"

text \<open>The store: its path, the disk, the cache, how many files it has parsed, and the supplies of
  random bytes, of times (as RFC 3339 text) and of the file infos its own writes get.\<close>

record key_store =
  ks_path :: string
  ks_disk :: "key_content disk"
  ks_cache :: "(file_info \<times> file_payload) option"
  ks_parses :: nat
  ks_rand :: "nat \<Rightarrow> goerr + (nat \<Rightarrow> char)"
  ks_drawn :: nat
  ks_stamp :: "nat \<Rightarrow> string"
  ks_ticks :: nat
  ks_infos :: "nat \<Rightarrow> file_info"
  ks_written :: nat

definition CreateStore ::
  "string \<Rightarrow> (nat \<Rightarrow> string) option \<Rightarrow> (nat \<Rightarrow> goerr + (nat \<Rightarrow> char)) option \<Rightarrow> (nat \<Rightarrow> goerr + (nat \<Rightarrow> char)) \<Rightarrow>
   key_content disk \<Rightarrow> (nat \<Rightarrow> file_info) \<Rightarrow> goerr + key_store" where
  "CreateStore path clock rnd system_rand d infos =
     (if trim_space path = [] then Inl (DomainErr (err_new CodeInvalid ''keys.CreateStore'' ''path required''))
      else case clock of
        None \<Rightarrow> Inl (DomainErr (err_new CodeInvalid ''keys.CreateStore'' ''clock required''))
      | Some c \<Rightarrow>
          Inr \<lparr>ks_path = path, ks_disk = d, ks_cache = None, ks_parses = 0,
               ks_rand = (case rnd of None \<Rightarrow> system_rand | Some r \<Rightarrow> r), ks_drawn = 0,
               ks_stamp = c, ks_ticks = 0, ks_infos = infos, ks_written = 0\<rparr>)"

definition key_file :: "key_store \<Rightarrow> key_content option" where
  "key_file s = look (ks_disk s) (ks_path s)"

definition key_call :: "key_store \<Rightarrow> goerr option \<times> key_store" where
  "key_call s = (case os_call (ks_disk s) of (r, d) \<Rightarrow> (r, s\<lparr>ks_disk := d\<rparr>))"

definition empty_payload :: file_payload where
  "empty_payload = \<lparr>kp_version = 1, kp_keys = []\<rparr>"

definition versioned :: "file_payload \<Rightarrow> file_payload" where
  "versioned p = (if kp_version p = 0 then p\<lparr>kp_version := 1\<rparr> else p)"

definition key_read :: "key_store \<Rightarrow> (goerr + file_payload) \<times> key_store" where
  "key_read s0 =
     (case key_call s0 of
        (Some e, s) \<Rightarrow>
          if is_sentinel (Some e) FsNotExist then (Inr empty_payload, s)
          else (Inl (DomainErr (err_wrap (Some e) CodeInternal ''keys.read'' ''read'')), s)
      | (None, s) \<Rightarrow>
          (case key_file s of
             None \<Rightarrow> (Inr empty_payload, s)
           | Some (Garbled _) \<Rightarrow> (Inl (DomainErr (err_wrap (Some (Leaf ''json'')) CodeInternal ''keys.read'' ''parse'')), s)
           | Some (KeyFile _ p) \<Rightarrow> (Inr (versioned p), s\<lparr>ks_parses := Suc (ks_parses s)\<rparr>)))"

definition key_write :: "file_payload \<Rightarrow> key_store \<Rightarrow> goerr option \<times> key_store" where
  "key_write file s =
     (let content = KeyFile (ks_infos s (ks_written s)) (file\<lparr>kp_version := 1\<rparr>);
          s1 = s\<lparr>ks_written := Suc (ks_written s)\<rparr>
      in case WriteAtomic (ks_path s) content (ks_disk s) of
           (Some e, d) \<Rightarrow>
             (Some (DomainErr (with_field (err_wrap (Some e) (code_or (Some e) CodeInternal) ''keys.write'' ''write'')
                ''path'' (ks_path s))), s1\<lparr>ks_disk := d\<rparr>)
         | (None, d) \<Rightarrow> (None, s1\<lparr>ks_disk := d, ks_cache := None\<rparr>))"

text \<open>\<open>withLock\<close>: \<open>r0\<close> holds the captured variables before \<open>fn\<close> runs.\<close>

definition key_lock ::
  "lock_env \<Rightarrow> go_context option \<Rightarrow> string \<Rightarrow> (key_store \<Rightarrow> (goerr option \<times> 'r) \<times> key_store) \<Rightarrow> 'r \<Rightarrow>
   key_store \<Rightarrow> (goerr option \<times> 'r) \<times> key_store" where
  "key_lock env ctx op fn r0 s =
     (case WithFileLock env ctx (ks_path s)
             (Some (\<lambda>w. case fn (snd w) of (out, s') \<Rightarrow> (None, (out, s')))) ((None, r0), s) of
        (Some e, (out, s')) \<Rightarrow>
          ((Some (DomainErr (with_field (err_wrap (Some e) (code_or (Some e) CodeInternal) op ''lock key file'')
              ''path'' (ks_path s))), snd out), s')
      | (None, (out, s')) \<Rightarrow> (out, s'))"

section \<open>Tokens\<close>

definition read_full :: "nat \<Rightarrow> key_store \<Rightarrow> (goerr + bytes) \<times> key_store" where
  "read_full n s =
     (case ks_rand s (ks_drawn s) of
        Inl e \<Rightarrow> (Inl e, s\<lparr>ks_drawn := Suc (ks_drawn s)\<rparr>)
      | Inr f \<Rightarrow> (Inr (map f [0..<n]), s\<lparr>ks_drawn := Suc (ks_drawn s)\<rparr>))"

definition key_now :: "key_store \<Rightarrow> string \<times> key_store" where
  "key_now s = (ks_stamp s (ks_ticks s), s\<lparr>ks_ticks := Suc (ks_ticks s)\<rparr>)"

definition token_of :: "string \<Rightarrow> string \<Rightarrow> string" where
  "token_of i secret = tokenPrefix @ i @ ''.'' @ secret"

text \<open>The secret and the token.\<close>

definition secretForID :: "string \<Rightarrow> key_store \<Rightarrow> (goerr + string \<times> string) \<times> key_store" where
  "secretForID i s =
     (case read_full 32 s of
        (Inl e, s') \<Rightarrow> (Inl (DomainErr (err_wrap (Some e) CodeInternal ''keys.secretForID'' ''secret rand'')), s')
      | (Inr b, s') \<Rightarrow>
          (let secret = base64_encode url_alphabet b in (Inr (secret, token_of i secret), s')))"

definition newToken :: "key_store \<Rightarrow> (goerr + string \<times> string \<times> string) \<times> key_store" where
  "newToken s =
     (case read_full 16 s of
        (Inl e, s') \<Rightarrow> (Inl (DomainErr (err_wrap (Some e) CodeInternal ''keys.newToken'' ''id rand'')), s')
      | (Inr b, s1) \<Rightarrow>
          (let i = hex_encode b
           in case secretForID i s1 of
                (Inl e, s2) \<Rightarrow> (Inl e, s2)
              | (Inr (secret, token), s2) \<Rightarrow> (Inr (i, secret, token), s2)))"

definition parseToken :: "string \<Rightarrow> (string \<times> string) option" where
  "parseToken token0 =
     (let token = trim_space token0
      in if \<not> has_prefix token tokenPrefix then None
         else case cut (trim_prefix token tokenPrefix) (CHR ''.'') of
           (i, None) \<Rightarrow> None
         | (i, Some secret) \<Rightarrow> if i = [] \<or> secret = [] then None else Some (i, secret))"

section \<open>Operations on the keys\<close>

definition canAdd :: "file_payload \<Rightarrow> string \<Rightarrow> goerr option" where
  "canAdd file name =
     (if maxKeys \<le> length (kp_keys file)
      then Some (DomainErr (err_new CodeFailedPrecondition ''keys.Generate'' ''max keys reached''))
      else if list_ex (\<lambda>k. kr_name k = name) (kp_keys file)
      then Some (DomainErr (err_new CodeConflict ''keys.Generate'' ''name already exists''))
      else None)"

record generate_result =
  gr_record :: key_record
  gr_key :: string

definition zero_key :: key_record where
  "zero_key = \<lparr>kr_id = [], kr_name = [], kr_prefix = [], kr_hash = [], kr_created_at = [], kr_rotated_at = []\<rparr>"

definition no_result :: generate_result where
  "no_result = \<lparr>gr_record = zero_key, gr_key = []\<rparr>"

definition generate_locked ::
  "hash_api \<Rightarrow> string \<Rightarrow> key_store \<Rightarrow> (goerr option \<times> generate_result) \<times> key_store" where
  "generate_locked h name s0 =
     (case key_read s0 of
        (Inl e, s1) \<Rightarrow> ((Some e, no_result), s1)
      | (Inr file, s1) \<Rightarrow>
          (case canAdd file name of
             Some e \<Rightarrow> ((Some e, no_result), s1)
           | None \<Rightarrow>
               (case newToken s1 of
                  (Inl e, s2) \<Rightarrow> ((Some e, no_result), s2)
                | (Inr (i, secret, token), s2) \<Rightarrow>
                    (case key_now s2 of
                       (now, s3) \<Rightarrow>
                         (let rec = \<lparr>kr_id = i, kr_name = name, kr_prefix = tokenPrefix @ i,
                                     kr_hash = hashSecret h secret, kr_created_at = now, kr_rotated_at = []\<rparr>
                          in case key_write (file\<lparr>kp_keys := kp_keys file @ [rec]\<rparr>) s3 of
                               (Some e, s4) \<Rightarrow> ((Some e, no_result), s4)
                             | (None, s4) \<Rightarrow> ((None, \<lparr>gr_record = rec, gr_key = token\<rparr>), s4))))))"

definition Generate ::
  "hash_api \<Rightarrow> lock_env \<Rightarrow> go_context option \<Rightarrow> string \<Rightarrow> key_store \<Rightarrow> (goerr option \<times> generate_result) \<times> key_store" where
  "Generate h env ctx name0 s =
     (let name = trim_space name0
      in if \<not> namePattern name
         then ((Some (DomainErr (err_new CodeInvalid ''keys.Generate'' ''invalid name'')), no_result), s)
         else key_lock env ctx ''keys.Generate'' (generate_locked h name) no_result s)"

definition CheckGenerate :: "string \<Rightarrow> key_store \<Rightarrow> goerr option \<times> key_store" where
  "CheckGenerate name0 s =
     (let name = trim_space name0
      in if \<not> namePattern name
         then (Some (DomainErr (err_new CodeInvalid ''keys.CheckGenerate'' ''invalid name'')), s)
         else case key_read s of
           (Inl e, s') \<Rightarrow> (Some e, s')
         | (Inr file, s') \<Rightarrow> (canAdd file name, s'))"

fun find_index :: "('a \<Rightarrow> bool) \<Rightarrow> 'a list \<Rightarrow> nat option" where
  "find_index P [] = None"
| "find_index P (x # xs) = (if P x then Some 0 else map_option Suc (find_index P xs))"

definition rotate_locked ::
  "hash_api \<Rightarrow> string \<Rightarrow> key_store \<Rightarrow> (goerr option \<times> generate_result) \<times> key_store" where
  "rotate_locked h name s0 =
     (case key_read s0 of
        (Inl e, s1) \<Rightarrow> ((Some e, no_result), s1)
      | (Inr file, s1) \<Rightarrow>
          (case find_index (\<lambda>k. kr_name k = name) (kp_keys file) of
             None \<Rightarrow> ((Some (DomainErr (err_new CodeNotFound ''keys.Rotate'' ''key not found'')), no_result), s1)
           | Some idx \<Rightarrow>
               (case secretForID (kr_id (kp_keys file ! idx)) s1 of
                  (Inl e, s2) \<Rightarrow> ((Some e, no_result), s2)
                | (Inr (secret, token), s2) \<Rightarrow>
                    (case key_now s2 of
                       (now, s3) \<Rightarrow>
                         (let rec = (kp_keys file ! idx)\<lparr>kr_hash := hashSecret h secret, kr_rotated_at := now\<rparr>
                          in case key_write (file\<lparr>kp_keys := (kp_keys file)[idx := rec]\<rparr>) s3 of
                               (Some e, s4) \<Rightarrow> ((Some e, no_result), s4)
                             | (None, s4) \<Rightarrow> ((None, \<lparr>gr_record = rec, gr_key = token\<rparr>), s4))))))"

definition Rotate ::
  "hash_api \<Rightarrow> lock_env \<Rightarrow> go_context option \<Rightarrow> string \<Rightarrow> key_store \<Rightarrow> (goerr option \<times> generate_result) \<times> key_store" where
  "Rotate h env ctx name s = key_lock env ctx ''keys.Rotate'' (rotate_locked h (trim_space name)) no_result s"

definition delete_locked :: "string \<Rightarrow> key_store \<Rightarrow> (goerr option \<times> unit) \<times> key_store" where
  "delete_locked name s0 =
     (case key_read s0 of
        (Inl e, s1) \<Rightarrow> ((Some e, ()), s1)
      | (Inr file, s1) \<Rightarrow>
          if list_ex (\<lambda>k. kr_name k = name) (kp_keys file)
          then (case key_write (file\<lparr>kp_keys := filter (\<lambda>k. kr_name k \<noteq> name) (kp_keys file)\<rparr>) s1 of
                  (r, s2) \<Rightarrow> ((r, ()), s2))
          else ((Some (DomainErr (err_new CodeNotFound ''keys.Delete'' ''key not found'')), ()), s1))"

definition key_delete :: "lock_env \<Rightarrow> go_context option \<Rightarrow> string \<Rightarrow> key_store \<Rightarrow> goerr option \<times> key_store" where
  "key_delete env ctx name s =
     (case key_lock env ctx ''keys.Delete'' (delete_locked (trim_space name)) () s of ((r, _), s') \<Rightarrow> (r, s'))"

definition key_list :: "key_store \<Rightarrow> (goerr + key_record list) \<times> key_store" where
  "key_list s = (case key_read s of (Inl e, s') \<Rightarrow> (Inl e, s') | (Inr file, s') \<Rightarrow> (Inr (kp_keys file), s'))"

section \<open>Checking a token\<close>

definition invalid_token :: goerr where
  "invalid_token = DomainErr (err_new CodeUnauthorized ''keys.Verify'' ''invalid token'')"

text \<open>The loop stops at the first record with the id.\<close>

definition verifyIn :: "hash_api \<Rightarrow> file_payload \<Rightarrow> string \<Rightarrow> goerr + key_record \<times> bool" where
  "verifyIn h file token =
     (case parseToken token of
        None \<Rightarrow> Inl invalid_token
      | Some (i, secret) \<Rightarrow>
          (case find (\<lambda>k. kr_id k = i) (kp_keys file) of
             None \<Rightarrow> Inl invalid_token
           | Some k \<Rightarrow>
               (case verifyHash h (kr_hash k) secret of
                  (True, old) \<Rightarrow> Inr (k, old)
                | (False, _) \<Rightarrow> Inl invalid_token)))"

definition sameFileState :: "file_info \<Rightarrow> file_info \<Rightarrow> bool" where
  "sameFileState a b \<longleftrightarrow> fi_id a = fi_id b \<and> fi_mtime a = fi_mtime b \<and> fi_size a = fi_size b"

text \<open>What another process does to the file.\<close>

datatype meddle = PutFile key_content | RemoveFile

fun meddled :: "meddle \<Rightarrow> key_store \<Rightarrow> key_store" where
  "meddled (PutFile c) s = s\<lparr>ks_disk := (ks_disk s)\<lparr>dk_files := put (ks_path s) c (dk_files (ks_disk s))\<rparr>\<rparr>"
| "meddled RemoveFile s = s\<lparr>ks_disk := (ks_disk s)\<lparr>dk_files := AList.delete (ks_path s) (dk_files (ks_disk s))\<rparr>\<rparr>"

text \<open>\<open>readCached\<close>; \<open>mid\<close> is what happens between the stat and the read.\<close>

definition readCached :: "meddle list \<Rightarrow> key_store \<Rightarrow> (goerr + file_payload) \<times> key_store" where
  "readCached mid s0 =
     (case key_call s0 of
        (Some e, s) \<Rightarrow>
          if is_sentinel (Some e) FsNotExist then (Inr empty_payload, s)
          else (Inl (DomainErr (err_wrap (Some e) CodeInternal ''keys.read'' ''stat'')), s)
      | (None, s) \<Rightarrow>
          (case key_file s of
             None \<Rightarrow> (Inr empty_payload, s)
           | Some c \<Rightarrow>
               (case ks_cache s of
                  Some (i, f) \<Rightarrow>
                    if sameFileState i (content_info c) then (Inr f, s)
                    else (case key_read (fold meddled mid s) of
                            (Inl e, s') \<Rightarrow> (Inl e, s')
                          | (Inr file, s') \<Rightarrow> (Inr file, s'\<lparr>ks_cache := Some (content_info c, file)\<rparr>))
                | None \<Rightarrow>
                    (case key_read (fold meddled mid s) of
                       (Inl e, s') \<Rightarrow> (Inl e, s')
                     | (Inr file, s') \<Rightarrow> (Inr file, s'\<lparr>ks_cache := Some (content_info c, file)\<rparr>)))))"

definition Verify :: "hash_api \<Rightarrow> meddle list \<Rightarrow> string \<Rightarrow> key_store \<Rightarrow> (goerr + key_record) \<times> key_store" where
  "Verify h mid token s =
     (case readCached mid s of
        (Inl e, s') \<Rightarrow> (Inl e, s')
      | (Inr file, s') \<Rightarrow> (map_sum id fst (verifyIn h file token), s'))"

definition upgrade_locked :: "hash_api \<Rightarrow> string \<Rightarrow> string \<Rightarrow> bytes \<Rightarrow> key_store \<Rightarrow> (goerr option \<times> unit) \<times> key_store" where
  "upgrade_locked h i legacyHash secret s0 =
     (case key_read s0 of
        (Inl e, s1) \<Rightarrow> ((Some e, ()), s1)
      | (Inr file, s1) \<Rightarrow>
          (case find_index (\<lambda>k. kr_id k = i \<and> kr_hash k = legacyHash) (kp_keys file) of
             None \<Rightarrow> ((None, ()), s1)
           | Some idx \<Rightarrow>
               (case key_write (file\<lparr>kp_keys := (kp_keys file)[idx := (kp_keys file ! idx)\<lparr>kr_hash := hashSecret h secret\<rparr>]\<rparr>) s1 of
                  (r, s2) \<Rightarrow> ((r, ()), s2))))"

definition upgradeHash ::
  "hash_api \<Rightarrow> lock_env \<Rightarrow> go_context option \<Rightarrow> string \<Rightarrow> string \<Rightarrow> bytes \<Rightarrow> key_store \<Rightarrow> goerr option \<times> key_store" where
  "upgradeHash h env ctx i legacyHash secret s =
     (case key_lock env ctx ''keys.upgradeHash'' (upgrade_locked h i legacyHash secret) () s of ((r, _), s') \<Rightarrow> (r, s'))"

text \<open>\<open>Authorize\<close>: whether the gateway is unlocked, and the error that refuses the request.\<close>

definition Authorize ::
  "hash_api \<Rightarrow> lock_env \<Rightarrow> meddle list \<Rightarrow> go_context option \<Rightarrow> string \<Rightarrow> key_store \<Rightarrow> (bool \<times> goerr option) \<times> key_store" where
  "Authorize h env mid ctx token s0 =
     (if ctx = None
      then ((False, Some (DomainErr (err_new CodeInvalid ''keys.Authorize'' ''context is required''))), s0)
      else case readCached mid s0 of
        (Inl e, s) \<Rightarrow> ((False, Some e), s)
      | (Inr file, s) \<Rightarrow>
          if kp_keys file = [] then ((True, None), s)
          else (case verifyIn h file token of
                  Inl e \<Rightarrow> ((False, Some e), s)
                | Inr (rec, False) \<Rightarrow> ((False, None), s)
                | Inr (rec, True) \<Rightarrow>
                    (let secret = (case parseToken token of None \<Rightarrow> [] | Some (_, x) \<Rightarrow> x)
                     in case upgradeHash h env ctx (kr_id rec) (kr_hash rec) secret s of
                          (Some e, s') \<Rightarrow>
                            ((False, Some (DomainErr (with_field
                               (err_wrap (Some e) (code_or (Some e) CodeInternal) ''keys.Authorize'' ''upgrade legacy hash'')
                               ''key_id'' (kr_id rec)))), s')
                        | (None, s') \<Rightarrow> ((False, None), s'))))"

section \<open>What the operations leave alone\<close>

text \<open>No fault of the disk claims that a file that is there does not exist.\<close>

definition honest_disk :: "key_store \<Rightarrow> bool" where
  "honest_disk s \<longleftrightarrow> (\<forall>e. Some e \<in> set (dk_faults (ks_disk s)) \<longrightarrow> \<not> is_sentinel (Some e) FsNotExist)"

text \<open>What a read of the file gives, when it decodes.\<close>

definition current_file :: "key_store \<Rightarrow> file_payload option" where
  "current_file s =
     (case key_file s of
        None \<Rightarrow> Some empty_payload
      | Some (KeyFile _ p) \<Rightarrow> Some (versioned p)
      | Some (Garbled _) \<Rightarrow> None)"

text \<open>The parts of the store that decide what is served.\<close>

definition same_view :: "key_store \<Rightarrow> key_store \<Rightarrow> bool" where
  "same_view s s' \<longleftrightarrow> key_file s' = key_file s \<and> ks_cache s' = ks_cache s \<and> ks_path s' = ks_path s \<and>
     (honest_disk s \<longrightarrow> honest_disk s')"

lemma same_view_refl [simp]: "same_view s s"
  by (simp add: same_view_def)

lemma same_view_trans: "same_view s t \<Longrightarrow> same_view t u \<Longrightarrow> same_view s u"
  by (simp add: same_view_def)

lemma same_view_current: "same_view s s' \<Longrightarrow> current_file s' = current_file s"
  by (simp add: same_view_def current_file_def)

lemma key_call_view:
  assumes "key_call s = (r, s')"
  shows "same_view s s' \<and> (honest_disk s \<longrightarrow> \<not> is_sentinel r FsNotExist)"
  using assms
  by (auto simp: key_call_def os_call_def same_view_def key_file_def look_def honest_disk_def is_sentinel_def
      split: list.splits option.splits)

lemma key_read_facts:
  assumes "key_read s = (r, s')"
  shows "same_view s s' \<and> (honest_disk s \<longrightarrow> (\<forall>f. r = Inr f \<longrightarrow> current_file s = Some f)) \<and>
    (\<forall>e. r = Inl e \<longrightarrow> code_of (Some e) = CodeInternal)"
proof -
  obtain c s1 where c: "key_call s = (c, s1)" by (rule prod.exhaust)
  note v = key_call_view [OF c]
  have k: "key_file s1 = key_file s" "same_view s (s1\<lparr>ks_parses := n\<rparr>)" for n
    using v by (auto simp: same_view_def key_file_def honest_disk_def)
  from assms c v k show ?thesis
    by (auto simp: key_read_def current_file_def code_of_def split: option.splits if_splits key_content.splits)
qed

lemma key_write_facts:
  assumes "key_write f s = (r, s')"
  shows "ks_path s' = ks_path s \<and>
    (case r of
       None \<Rightarrow> ks_cache s' = None \<and> (\<exists>i. key_file s' = Some (KeyFile i (f\<lparr>kp_version := 1\<rparr>)))
     | Some e \<Rightarrow> ks_cache s' = ks_cache s \<and> key_file s' = key_file s)"
proof -
  obtain q d where w: "WriteAtomic (ks_path s) (KeyFile (ks_infos s (ks_written s)) (f\<lparr>kp_version := 1\<rparr>)) (ks_disk s) = (q, d)"
    by (rule prod.exhaust)
  show ?thesis
  proof (cases q)
    case None
    with w have "dk_files d = put (ks_path s) (KeyFile (ks_infos s (ks_written s)) (f\<lparr>kp_version := 1\<rparr>)) (dk_files (ks_disk s))"
      by (simp add: WriteAtomic_ok)
    with assms w None show ?thesis by (auto simp: key_write_def Let_def key_file_def look_def)
  next
    case (Some e)
    with w have "dk_files d = dk_files (ks_disk s)" by (simp add: WriteAtomic_error)
    with assms w Some show ?thesis by (auto simp: key_write_def Let_def key_file_def look_def)
  qed
qed

lemma key_write_current:
  "key_write f s = (None, s') \<Longrightarrow> current_file s' = Some (f\<lparr>kp_version := 1\<rparr>)"
  using key_write_facts [of f s None s'] by (auto simp: current_file_def versioned_def)

lemma key_now_view: "key_now s = (x, s') \<Longrightarrow> same_view s s'"
  by (auto simp: key_now_def same_view_def key_file_def honest_disk_def)

lemma read_full_view: "read_full n s = (x, s') \<Longrightarrow> same_view s s'"
  by (auto simp: read_full_def same_view_def key_file_def honest_disk_def split: sum.splits)

lemma secretForID_facts:
  assumes "secretForID i s = (x, s')"
  shows "same_view s s' \<and> (\<forall>secret token. x = Inr (secret, token) \<longrightarrow>
    token = token_of i secret \<and> (\<exists>b. length b = 32 \<and> secret = base64_encode url_alphabet b))"
proof -
  obtain b s1 where b: "read_full 32 s = (b, s1)" by (rule prod.exhaust)
  then have "\<forall>y. b = Inr y \<longrightarrow> length y = 32" by (auto simp: read_full_def split: sum.splits)
  with assms b read_full_view [OF b] show ?thesis by (auto simp: secretForID_def Let_def split: sum.splits)
qed

lemma newToken_facts:
  assumes "newToken s = (x, s')"
  shows "same_view s s' \<and> (\<forall>i secret token. x = Inr (i, secret, token) \<longrightarrow>
    token = token_of i secret \<and> (\<exists>b. length b = 16 \<and> i = hex_encode b) \<and>
    (\<exists>b. length b = 32 \<and> secret = base64_encode url_alphabet b))"
proof -
  obtain b s1 where b: "read_full 16 s = (b, s1)" by (rule prod.exhaust)
  then have l: "\<forall>y. b = Inr y \<longrightarrow> length y = 16" by (auto simp: read_full_def split: sum.splits)
  show ?thesis
  proof (cases b)
    case (Inl e)
    with assms b read_full_view [OF b] show ?thesis by (auto simp: newToken_def)
  next
    case (Inr y)
    obtain z s2 where z: "secretForID (hex_encode y) s1 = (z, s2)" by (rule prod.exhaust)
    with assms b Inr l secretForID_facts [OF z] read_full_view [OF b] show ?thesis
      by (auto simp: newToken_def Let_def split: sum.splits intro: same_view_trans)
  qed
qed

lemma key_lock_cases:
  assumes "key_lock env ctx op fn r0 s = ((r, x), s')"
  obtains "fn s = ((r, x), s')" | e where "r = Some e" "x = r0" "s' = s"
proof -
  let ?f = "\<lambda>w. case fn (snd w) of (out, s') \<Rightarrow> (None, (out, s'))"
  obtain q out t where q: "WithFileLock env ctx (ks_path s) (Some ?f) ((None, r0), s) = (q, (out, t))" by (rule pair_right)
  obtain y u where y: "fn s = (y, u)" by (rule prod.exhaust)
  from q WithFileLock_cases [of env ctx "ks_path s" ?f "((None, r0), s)"] y
  have "q = None \<and> out = y \<and> t = u \<or> (\<exists>e. q = Some e) \<and> out = (None, r0) \<and> t = s" by auto
  with assms q y that show ?thesis by (auto simp: key_lock_def)
qed

section \<open>What the operations do to the file\<close>

lemma Generate_facts:
  assumes "Generate h env ctx name s = ((r, x), s')"
  shows "ks_path s' = ks_path s \<and>
    (case r of
       Some e \<Rightarrow> key_file s' = key_file s \<and> ks_cache s' = ks_cache s
     | None \<Rightarrow> ks_cache s' = None \<and> namePattern (trim_space name) \<and>
         (\<exists>file i secret now.
            (honest_disk s \<longrightarrow> current_file s = Some file) \<and> canAdd file (trim_space name) = None \<and>
            gr_record x = \<lparr>kr_id = i, kr_name = trim_space name, kr_prefix = tokenPrefix @ i,
              kr_hash = hashSecret h secret, kr_created_at = now, kr_rotated_at = []\<rparr> \<and>
            gr_key x = token_of i secret \<and> (\<exists>b. length b = 16 \<and> i = hex_encode b) \<and>
            (\<exists>b. length b = 32 \<and> secret = base64_encode url_alphabet b) \<and>
            current_file s' = Some (file\<lparr>kp_keys := kp_keys file @ [gr_record x], kp_version := 1\<rparr>)))"
proof (cases "namePattern (trim_space name)")
  case False
  with assms show ?thesis by (auto simp: Generate_def Let_def)
next
  case name: True
  with assms have "key_lock env ctx ''keys.Generate'' (generate_locked h (trim_space name)) no_result s = ((r, x), s')"
    by (simp add: Generate_def Let_def)
  then show ?thesis
  proof (cases rule: key_lock_cases)
    case (2 e)
    then show ?thesis by simp
  next
    case 1
    obtain f s1 where f: "key_read s = (f, s1)" by (rule prod.exhaust)
    note rf = key_read_facts [OF f]
    show ?thesis
    proof (cases "\<exists>file. f = Inr file \<and> canAdd file (trim_space name) = None")
      case False
      with 1 f rf show ?thesis
        by (auto simp: generate_locked_def same_view_def split: sum.splits option.splits)
    next
      case True
      then obtain fp where fl: "f = Inr fp" "canAdd fp (trim_space name) = None" by blast
      obtain tk s2 where tk: "newToken s1 = (tk, s2)" by (rule prod.exhaust)
      note tf = newToken_facts [OF tk]
      show ?thesis
      proof (cases tk)
        case (Inl e)
        with 1 f rf fl tk tf show ?thesis by (auto simp: generate_locked_def same_view_def)
      next
        case (Inr y)
        obtain i secret token where y: "y = (i, secret, token)" by (rule pair_right)
        obtain now s3 where now: "key_now s2 = (now, s3)" by (rule prod.exhaust)
        let ?rec = "\<lparr>kr_id = i, kr_name = trim_space name, kr_prefix = tokenPrefix @ i,
              kr_hash = hashSecret h secret, kr_created_at = now, kr_rotated_at = []\<rparr>"
        obtain q s4 where q: "key_write (fp\<lparr>kp_keys := kp_keys fp @ [?rec]\<rparr>) s3 = (q, s4)" by (rule prod.exhaust)
        have v: "same_view s s3" using rf tf key_now_view [OF now] by (blast intro: same_view_trans)
        show ?thesis
        proof (cases q)
          case None
          with 1 f fl tk Inr y now q have "r = None" "x = \<lparr>gr_record = ?rec, gr_key = token\<rparr>" "s' = s4"
            by (auto simp: generate_locked_def Let_def)
          with key_write_facts [OF q] key_write_current [of _ s3 s4] q None v rf tf fl Inr y name show ?thesis
            by (auto simp: same_view_def)
        next
          case (Some e)
          with 1 f fl tk Inr y now q have "r = Some e" "s' = s4" by (auto simp: generate_locked_def Let_def)
          with key_write_facts [OF q] Some v show ?thesis by (simp add: same_view_def)
        qed
      qed
    qed
  qed
qed

lemma find_index_Some:
  "find_index P xs = Some n \<longleftrightarrow> n < length xs \<and> P (xs ! n) \<and> (\<forall>m < n. \<not> P (xs ! m))"
proof (induction xs arbitrary: n)
  case (Cons x xs)
  show ?case
  proof (cases n)
    case 0
    then show ?thesis by auto
  next
    case (Suc m)
    then show ?thesis using Cons.IH [of m] by (auto simp: less_Suc_eq_0_disj)
  qed
qed simp

lemma find_index_None: "find_index P xs = None \<longleftrightarrow> (\<forall>x \<in> set xs. \<not> P x)"
  by (induction xs) auto

lemma map_update_same: "n < length xs \<Longrightarrow> f y = f (xs ! n) \<Longrightarrow> map f (xs[n := y]) = map f xs"
  by (metis list_update_id map_update)

lemma find_distinct: "distinct (map f xs) \<Longrightarrow> n < length xs \<Longrightarrow> find (\<lambda>k. f k = f (xs ! n)) xs = Some (xs ! n)"
proof (induction xs arbitrary: n)
  case (Cons x xs)
  then show ?case by (cases n) (auto simp: image_iff)
qed simp

lemma find_update_other:
  "n < length xs \<Longrightarrow> f y = f (xs ! n) \<Longrightarrow> i \<noteq> f (xs ! n) \<Longrightarrow>
   find (\<lambda>k. f k = i) (xs[n := y]) = find (\<lambda>k. f k = i) xs"
proof (induction xs arbitrary: n)
  case (Cons x xs)
  then show ?case by (cases n) auto
qed simp

lemma find_app: "find P (xs @ ys) = (case find P xs of None \<Rightarrow> find P ys | Some y \<Rightarrow> Some y)"
  by (induction xs) auto

text \<open>A rotated key: the first record of that name, with a new hash.\<close>

lemma Rotate_facts:
  assumes "Rotate h env ctx name s = ((r, x), s')"
  shows "ks_path s' = ks_path s \<and>
    (case r of
       Some e \<Rightarrow> key_file s' = key_file s \<and> ks_cache s' = ks_cache s
     | None \<Rightarrow> ks_cache s' = None \<and>
         (\<exists>fp n secret now.
            (honest_disk s \<longrightarrow> current_file s = Some fp) \<and> find_index (\<lambda>k. kr_name k = trim_space name) (kp_keys fp) = Some n \<and>
            gr_record x = (kp_keys fp ! n)\<lparr>kr_hash := hashSecret h secret, kr_rotated_at := now\<rparr> \<and>
            gr_key x = token_of (kr_id (kp_keys fp ! n)) secret \<and>
            (\<exists>b. length b = 32 \<and> secret = base64_encode url_alphabet b) \<and>
            current_file s' = Some (fp\<lparr>kp_keys := (kp_keys fp)[n := gr_record x], kp_version := 1\<rparr>)))"
proof -
  have "key_lock env ctx ''keys.Rotate'' (rotate_locked h (trim_space name)) no_result s = ((r, x), s')"
    using assms by (simp add: Rotate_def)
  then show ?thesis
  proof (cases rule: key_lock_cases)
    case (2 e)
    then show ?thesis by simp
  next
    case 1
    obtain f s1 where f: "key_read s = (f, s1)" by (rule prod.exhaust)
    note rf = key_read_facts [OF f]
    show ?thesis
    proof (cases "\<exists>fp n. f = Inr fp \<and> find_index (\<lambda>k. kr_name k = trim_space name) (kp_keys fp) = Some n")
      case False
      with 1 f rf show ?thesis
        by (auto simp: rotate_locked_def same_view_def split: sum.splits option.splits)
    next
      case True
      then obtain fp n where fl: "f = Inr fp" "find_index (\<lambda>k. kr_name k = trim_space name) (kp_keys fp) = Some n" by blast
      obtain tk s2 where tk: "secretForID (kr_id (kp_keys fp ! n)) s1 = (tk, s2)" by (rule prod.exhaust)
      note tf = secretForID_facts [OF tk]
      show ?thesis
      proof (cases tk)
        case (Inl e)
        with 1 f rf fl tk tf show ?thesis by (auto simp: rotate_locked_def same_view_def)
      next
        case (Inr y)
        obtain secret token where y: "y = (secret, token)" by (rule prod.exhaust)
        obtain now s3 where now: "key_now s2 = (now, s3)" by (rule prod.exhaust)
        let ?rec = "(kp_keys fp ! n)\<lparr>kr_hash := hashSecret h secret, kr_rotated_at := now\<rparr>"
        obtain q s4 where q: "key_write (fp\<lparr>kp_keys := (kp_keys fp)[n := ?rec]\<rparr>) s3 = (q, s4)" by (rule prod.exhaust)
        have v: "same_view s s3" using rf tf key_now_view [OF now] by (blast intro: same_view_trans)
        show ?thesis
        proof (cases q)
          case None
          with 1 f fl tk Inr y now q have "r = None" "x = \<lparr>gr_record = ?rec, gr_key = token\<rparr>" "s' = s4"
            by (auto simp: rotate_locked_def Let_def)
          with key_write_facts [OF q] key_write_current [of _ s3 s4] q None v rf tf fl Inr y show ?thesis
            by (auto simp: same_view_def)
        next
          case (Some e)
          with 1 f fl tk Inr y now q have "r = Some e" "s' = s4" by (auto simp: rotate_locked_def Let_def)
          with key_write_facts [OF q] Some v show ?thesis by (simp add: same_view_def)
        qed
      qed
    qed
  qed
qed

lemma Delete_facts:
  assumes "key_delete env ctx name s = (r, s')"
  shows "ks_path s' = ks_path s \<and>
    (case r of
       Some e \<Rightarrow> key_file s' = key_file s \<and> ks_cache s' = ks_cache s
     | None \<Rightarrow> ks_cache s' = None \<and>
         (\<exists>fp. (honest_disk s \<longrightarrow> current_file s = Some fp) \<and> (\<exists>k \<in> set (kp_keys fp). kr_name k = trim_space name) \<and>
            current_file s' = Some (fp\<lparr>kp_keys := filter (\<lambda>k. kr_name k \<noteq> trim_space name) (kp_keys fp), kp_version := 1\<rparr>)))"
proof -
  have "key_lock env ctx ''keys.Delete'' (delete_locked (trim_space name)) () s = ((r, ()), s')"
    using assms by (auto simp: key_delete_def split: prod.splits)
  then show ?thesis
  proof (cases rule: key_lock_cases)
    case (2 e)
    then show ?thesis by simp
  next
    case 1
    obtain f s1 where f: "key_read s = (f, s1)" by (rule prod.exhaust)
    note rf = key_read_facts [OF f]
    show ?thesis
    proof (cases "\<exists>fp. f = Inr fp \<and> (\<exists>k \<in> set (kp_keys fp). kr_name k = trim_space name)")
      case False
      with 1 f rf show ?thesis
        by (auto simp: delete_locked_def same_view_def list_ex_iff split: sum.splits)
    next
      case True
      then obtain fp where fl: "f = Inr fp" "\<exists>k \<in> set (kp_keys fp). kr_name k = trim_space name" by blast
      obtain q s2 where q: "key_write (fp\<lparr>kp_keys := filter (\<lambda>k. kr_name k \<noteq> trim_space name) (kp_keys fp)\<rparr>) s1 = (q, s2)"
        by (rule prod.exhaust)
      from 1 f fl q have "r = q" "s' = s2" by (auto simp: delete_locked_def list_ex_iff)
      with key_write_facts [OF q] key_write_current [of _ s1 s2] q rf fl show ?thesis
        by (cases q) (auto simp: same_view_def)
    qed
  qed
qed

lemma upgrade_facts:
  assumes "upgradeHash h env ctx i legacy secret s = (r, s')"
  shows "ks_path s' = ks_path s \<and>
    (key_file s' = key_file s \<and> ks_cache s' = ks_cache s \<or>
     r = None \<and> ks_cache s' = None \<and>
       (\<exists>fp n. (honest_disk s \<longrightarrow> current_file s = Some fp) \<and>
          find_index (\<lambda>k. kr_id k = i \<and> kr_hash k = legacy) (kp_keys fp) = Some n \<and>
          current_file s' = Some (fp\<lparr>kp_keys := (kp_keys fp)[n := (kp_keys fp ! n)\<lparr>kr_hash := hashSecret h secret\<rparr>], kp_version := 1\<rparr>)))"
proof -
  have "key_lock env ctx ''keys.upgradeHash'' (upgrade_locked h i legacy secret) () s = ((r, ()), s')"
    using assms by (auto simp: upgradeHash_def split: prod.splits)
  then show ?thesis
  proof (cases rule: key_lock_cases)
    case (2 e)
    then show ?thesis by simp
  next
    case 1
    obtain f s1 where f: "key_read s = (f, s1)" by (rule prod.exhaust)
    note rf = key_read_facts [OF f]
    show ?thesis
    proof (cases "\<exists>fp n. f = Inr fp \<and> find_index (\<lambda>k. kr_id k = i \<and> kr_hash k = legacy) (kp_keys fp) = Some n")
      case False
      with 1 f rf show ?thesis
        by (auto simp: upgrade_locked_def same_view_def split: sum.splits option.splits)
    next
      case True
      then obtain fp n where fl: "f = Inr fp" "find_index (\<lambda>k. kr_id k = i \<and> kr_hash k = legacy) (kp_keys fp) = Some n" by blast
      obtain q s2 where q: "key_write (fp\<lparr>kp_keys := (kp_keys fp)[n := (kp_keys fp ! n)\<lparr>kr_hash := hashSecret h secret\<rparr>]\<rparr>) s1 = (q, s2)"
        by (rule prod.exhaust)
      from 1 f fl q have "r = q" "s' = s2" by (auto simp: upgrade_locked_def)
      with key_write_facts [OF q] key_write_current [of _ s1 s2] q rf fl show ?thesis
        by (cases q) (auto simp: same_view_def)
    qed
  qed
qed

section \<open>The cache\<close>

text \<open>What is cached is what the file of that identity, time and size holds.\<close>

definition coherent :: "key_store \<Rightarrow> bool" where
  "coherent s \<longleftrightarrow>
     (\<forall>i f c. ks_cache s = Some (i, f) \<and> key_file s = Some c \<and> content_info c = i \<longrightarrow> (\<exists>p. c = KeyFile i p \<and> f = versioned p))"

text \<open>A change by another process that the file's state shows: the new file's info is neither the
  cached one nor that of the file it replaces. This is what the code relies on for changes it did
  not make; its own writes need it not, since they drop the cache.\<close>

fun visible :: "key_store \<Rightarrow> meddle \<Rightarrow> bool" where
  "visible s (PutFile c) \<longleftrightarrow>
     (\<forall>i f. ks_cache s = Some (i, f) \<longrightarrow> content_info c \<noteq> i) \<and>
     (\<forall>c0. key_file s = Some c0 \<longrightarrow> content_info c \<noteq> content_info c0)"
| "visible s RemoveFile \<longleftrightarrow> True"

lemma sameFileState_iff [simp]: "sameFileState a b \<longleftrightarrow> a = b"
  by (auto simp: sameFileState_def intro: file_info.equality)

lemma coherent_None: "ks_cache s = None \<Longrightarrow> coherent s"
  by (simp add: coherent_def)

lemma coherent_same: "coherent s \<Longrightarrow> key_file s' = key_file s \<Longrightarrow> ks_cache s' = ks_cache s \<Longrightarrow> coherent s'"
  unfolding coherent_def by simp

lemma same_view_coherent: "same_view s s' \<Longrightarrow> coherent s \<Longrightarrow> coherent s'"
  by (rule coherent_same) (simp_all add: same_view_def)

lemma meddled_parts [simp]:
  "ks_cache (meddled m s) = ks_cache s" "ks_path (meddled m s) = ks_path s"
  "honest_disk (meddled m s) = honest_disk s"
  by (cases m; simp add: honest_disk_def)+

lemma meddled_file:
  "key_file (meddled m s) = (case m of PutFile c \<Rightarrow> Some c | RemoveFile \<Rightarrow> None)"
  by (cases m) (simp_all add: key_file_def look_def delete_conv')

lemma fold_meddled_parts [simp]:
  "ks_cache (fold meddled mid s) = ks_cache s" "ks_path (fold meddled mid s) = ks_path s"
  "honest_disk (fold meddled mid s) = honest_disk s"
  by (induction mid arbitrary: s) simp_all

lemma fold_meddled_file:
  "key_file (fold meddled mid s) =
     (if mid = [] then key_file s else case last mid of PutFile c \<Rightarrow> Some c | RemoveFile \<Rightarrow> None)"
  by (induction mid rule: rev_induct) (simp_all add: meddled_file)

lemma coherent_meddled: "coherent s \<Longrightarrow> visible s m \<Longrightarrow> coherent (meddled m s)"
  unfolding coherent_def meddled_parts meddled_file by (cases m) auto

text \<open>What a cached read returns is what the file held at the stat or what it holds at the read, and
  the cache stays coherent.\<close>

lemma readCached_facts:
  assumes "readCached mid s = (r, s')" and "coherent s" and "\<forall>m \<in> set mid. visible s m"
    and "honest_disk s"
  shows "coherent s' \<and> ks_path s' = ks_path s \<and> honest_disk s' \<and>
    (key_file s' = key_file s \<or> key_file s' = key_file (fold meddled mid s)) \<and>
    (\<forall>f. r = Inr f \<longrightarrow> current_file s = Some f \<and> key_file s' = key_file s \<or>
         current_file (fold meddled mid s) = Some f \<and> key_file s' = key_file (fold meddled mid s)) \<and>
    (\<forall>e. r = Inl e \<longrightarrow> code_of (Some e) = CodeInternal)"
proof -
  obtain q s1 where c: "key_call s = (q, s1)" by (rule prod.exhaust)
  have v: "same_view s s1" "\<not> is_sentinel q FsNotExist" "honest_disk s1"
    using key_call_view [OF c] assms(4) by (auto simp: same_view_def)
  have coh: "coherent s1" using v(1) assms(2) by (blast intro: same_view_coherent)
  have p: "ks_path s1 = ks_path s" "key_file s1 = key_file s" "ks_cache s1 = ks_cache s"
    using v by (auto simp: same_view_def)
  show ?thesis
  proof (cases q)
    case (Some e)
    with assms(1) c v coh p show ?thesis
      by (auto simp: readCached_def current_file_def same_view_def code_of_def split: if_splits)
  next
    case None
    note q = this
    show ?thesis
    proof (cases "key_file s")
      case None
      with assms(1) c q v coh p show ?thesis
        by (auto simp: readCached_def current_file_def same_view_def)
    next
      case (Some c0)
      show ?thesis
      proof (cases "\<exists>f. ks_cache s = Some (content_info c0, f)")
        case True
        then obtain f where f: "ks_cache s = Some (content_info c0, f)" by blast
        with assms(1) c q Some p have r: "r = Inr f" "s' = s1" by (auto simp: readCached_def)
        from assms(2) f Some have "\<exists>p. c0 = KeyFile (content_info c0) p \<and> f = versioned p"
          by (simp add: coherent_def)
        with Some have "current_file s = Some f" by (cases c0) (auto simp: current_file_def)
        with r coh p v show ?thesis by (auto simp: same_view_def)
      next
        case False
        obtain y s2 where y: "key_read (fold meddled mid s1) = (y, s2)" by (rule prod.exhaust)
        note ry = key_read_facts [OF y]
        have k2: "key_file s2 = key_file (fold meddled mid s1)" "ks_cache s2 = ks_cache s" "ks_path s2 = ks_path s"
          using ry p by (auto simp: same_view_def)
        have mid: "key_file (fold meddled mid s1) = key_file (fold meddled mid s)"
          using p by (simp add: fold_meddled_file)
        then have cur: "current_file (fold meddled mid s1) = current_file (fold meddled mid s)"
          by (simp add: current_file_def)
        have res: "case y of Inl e \<Rightarrow> r = Inl e \<and> s' = s2 | Inr f \<Rightarrow> r = Inr f \<and> s' = s2\<lparr>ks_cache := Some (content_info c0, f)\<rparr>"
          using assms(1) c q Some p False y by (auto simp: readCached_def split: option.splits sum.splits)
        have last: "mid = [] \<or> key_file s2 = None \<or> (\<exists>c. key_file s2 = Some c \<and> content_info c \<noteq> content_info c0 \<and>
            (\<forall>i f. ks_cache s = Some (i, f) \<longrightarrow> content_info c \<noteq> i))"
        proof (cases "mid = []")
          case False
          then have "visible s (last mid)" using assms(3) by simp
          with False Some show ?thesis by (cases "last mid") (auto simp: k2 fold_meddled_file)
        qed simp
        show ?thesis
        proof (cases y)
          case (Inl e)
          have "coherent s2"
            using last assms(2) p Some unfolding coherent_def k2 by (auto simp: fold_meddled_file)
          with res Inl ry k2 v mid show ?thesis by (auto simp: same_view_def)
        next
          case (Inr f)
          have "content_info c = content_info c0 \<longrightarrow> (\<exists>p. c = KeyFile (content_info c0) p \<and> f = versioned p)"
            if "key_file s2 = Some c" for c
          proof
            assume i: "content_info c = content_info c0"
            with last that have "mid = []" by auto
            with that k2 mid Some have "c = c0" by simp
            moreover have "current_file s1 = Some f" using ry Inr \<open>mid = []\<close> v assms(4) by (simp add: same_view_def)
            ultimately show "\<exists>p. c = KeyFile (content_info c0) p \<and> f = versioned p"
              using Some p by (cases c0) (auto simp: current_file_def)
          qed
          moreover have s': "r = Inr f" "ks_cache s' = Some (content_info c0, f)" "key_file s' = key_file s2"
            "honest_disk s' = honest_disk s2" "ks_path s' = ks_path s2"
            using res Inr by (simp_all add: key_file_def honest_disk_def)
          ultimately have "coherent s'" unfolding coherent_def s'(2,3) by auto
          moreover have "honest_disk s2" "current_file (fold meddled mid s) = Some f"
            using ry v(3) cur Inr by (simp_all add: same_view_def)
          ultimately show ?thesis using s' k2 mid by simp
        qed
      qed
    qed
  qed
qed

section \<open>Requests\<close>

lemma verifyIn_Inr:
  "verifyIn h p token = Inr (k, old) \<longleftrightarrow>
     (\<exists>i secret. parseToken token = Some (i, secret) \<and> find (\<lambda>k. kr_id k = i) (kp_keys p) = Some k \<and>
        verifyHash h (kr_hash k) secret = (True, old))"
  by (auto simp: verifyIn_def split: option.splits prod.splits bool.splits)

text \<open>\<open>Authorize\<close> decides on one version of the file; a store that cannot be read refuses.\<close>

lemma Authorize_facts:
  assumes "Authorize h env mid (Some ctx) token s = ((unlocked, err), s')"
    and "coherent s" and "\<forall>m \<in> set mid. visible s m" and "honest_disk s"
  shows "coherent s' \<and>
    (err = None \<longrightarrow> (\<exists>p. (current_file s = Some p \<or> current_file (fold meddled mid s) = Some p) \<and>
       (if unlocked then kp_keys p = [] else kp_keys p \<noteq> [] \<and> (\<exists>k old. verifyIn h p token = Inr (k, old)))))"
proof -
  obtain r s1 where r: "readCached mid s = (r, s1)" by (rule prod.exhaust)
  note rf = readCached_facts [OF r assms(2-4)]
  show ?thesis
  proof (cases r)
    case (Inl e)
    with assms(1) r rf show ?thesis by (auto simp: Authorize_def)
  next
    case (Inr p)
    then have cur: "current_file s = Some p \<or> current_file (fold meddled mid s) = Some p" using rf by blast
    show ?thesis
    proof (cases "kp_keys p = [] \<or> (\<forall>k. verifyIn h p token \<noteq> Inr (k, True))")
      case True
      with assms(1) r rf Inr have "coherent s' \<and> (err = None \<longrightarrow>
          (if unlocked then kp_keys p = [] else kp_keys p \<noteq> [] \<and> (\<exists>k old. verifyIn h p token = Inr (k, old))))"
        by (auto simp: Authorize_def split: sum.splits bool.splits if_splits)
      with cur show ?thesis by blast
    next
      case False
      then obtain k where k: "verifyIn h p token = Inr (k, True)" "kp_keys p \<noteq> []" by blast
      then obtain i secret where sec: "parseToken token = Some (i, secret)" by (auto simp: verifyIn_Inr)
      obtain q s2 where q: "upgradeHash h env (Some ctx) (kr_id k) (kr_hash k) secret s1 = (q, s2)" by (rule prod.exhaust)
      have "coherent s2" using upgrade_facts [OF q] rf coherent_same [of s1 s2] coherent_None [of s2] by blast
      moreover have "s' = s2" "unlocked = False"
        using assms(1) r Inr k sec q by (auto simp: Authorize_def split: option.splits)
      ultimately show ?thesis using cur k by auto
    qed
  qed
qed

lemma Verify_facts:
  assumes "Verify h mid token s = (x, s')"
    and "coherent s" and "\<forall>m \<in> set mid. visible s m" and "honest_disk s"
  shows "coherent s'"
proof -
  obtain r s1 where r: "readCached mid s = (r, s1)" by (rule prod.exhaust)
  with assms(1) have "s' = s1" by (auto simp: Verify_def split: sum.splits)
  with readCached_facts [OF r assms(2-4)] show ?thesis by simp
qed

text \<open>What can happen to a store: its operations, with other processes changing the file at any
  time. \<open>Q\<close> bounds what those write.\<close>

definition allowed :: "(key_content \<Rightarrow> bool) \<Rightarrow> key_store \<Rightarrow> meddle list \<Rightarrow> bool" where
  "allowed Q s mid \<longleftrightarrow> (\<forall>m \<in> set mid. visible s m \<and> (\<forall>c. m = PutFile c \<longrightarrow> Q c))"

inductive key_step :: "hash_api \<Rightarrow> (key_content \<Rightarrow> bool) \<Rightarrow> key_store \<Rightarrow> key_store \<Rightarrow> bool"
  for h :: hash_api and Q :: "key_content \<Rightarrow> bool" where
  generate: "honest_disk s \<Longrightarrow> Generate h env ctx name s = ((r, x), s') \<Longrightarrow> key_step h Q s s'"
| rotate: "honest_disk s \<Longrightarrow> Rotate h env ctx name s = ((r, x), s') \<Longrightarrow> key_step h Q s s'"
| delete: "honest_disk s \<Longrightarrow> key_delete env ctx name s = (r, s') \<Longrightarrow> key_step h Q s s'"
| check: "honest_disk s \<Longrightarrow> CheckGenerate name s = (r, s') \<Longrightarrow> key_step h Q s s'"
| list: "honest_disk s \<Longrightarrow> key_list s = (xs, s') \<Longrightarrow> key_step h Q s s'"
| verify: "honest_disk s \<Longrightarrow> allowed Q s mid \<Longrightarrow> Verify h mid token s = (v, s') \<Longrightarrow> key_step h Q s s'"
| authorize: "honest_disk s \<Longrightarrow> allowed Q s mid \<Longrightarrow> Authorize h env mid (Some c) token s = ((unlocked, e), s') \<Longrightarrow>
    key_step h Q s s'"
| elsewhere: "honest_disk s \<Longrightarrow> allowed Q s [m] \<Longrightarrow> key_step h Q s (meddled m s)"

lemma read_only_ops:
  "CheckGenerate name s = (r, s') \<Longrightarrow> same_view s s'" "key_list s = (xs, s') \<Longrightarrow> same_view s s'"
proof -
  obtain f s1 where f: "key_read s = (f, s1)" by (rule prod.exhaust)
  note v = key_read_facts [OF f]
  show "CheckGenerate name s = (r, s') \<Longrightarrow> same_view s s'"
    using f v by (auto simp: CheckGenerate_def Let_def split: if_splits sum.splits)
  show "key_list s = (xs, s') \<Longrightarrow> same_view s s'"
    using f v by (auto simp: key_list_def split: sum.splits)
qed

lemma key_step_coherent:
  assumes "key_step h Q s s'" and "coherent s"
  shows "coherent s'"
  using assms
proof (cases rule: key_step.cases)
  case (generate env ctx name r x)
  from Generate_facts [OF generate(2)] show ?thesis
    by (cases r) (auto intro: coherent_None coherent_same [OF assms(2)])
next
  case (rotate env ctx name r x)
  from Rotate_facts [OF rotate(2)] show ?thesis
    by (cases r) (auto intro: coherent_None coherent_same [OF assms(2)])
next
  case (delete env ctx name r)
  from Delete_facts [OF delete(2)] show ?thesis
    by (cases r) (auto intro: coherent_None coherent_same [OF assms(2)])
next
  case (check name r)
  with assms(2) read_only_ops same_view_coherent show ?thesis by blast
next
  case (list xs)
  with assms(2) read_only_ops same_view_coherent show ?thesis by blast
next
  case (verify mid token v)
  then show ?thesis using Verify_facts [OF _ assms(2)] by (auto simp: allowed_def)
next
  case (authorize mid env c token unlocked e)
  then show ?thesis using Authorize_facts [OF _ assms(2)] by (auto simp: allowed_def)
next
  case (elsewhere m)
  then show ?thesis using coherent_meddled [OF assms(2)] by (simp add: allowed_def)
qed

lemma key_steps_coherent: "(key_step h Q)\<^sup>*\<^sup>* s0 s \<Longrightarrow> ks_cache s0 = None \<Longrightarrow> coherent s"
  by (induction rule: rtranclp_induct) (auto intro: coherent_None key_step_coherent)

section \<open>Tokens and hashes\<close>

text \<open>A SHA-256 digest has 32 bytes.\<close>

definition digest_law :: "hash_api \<Rightarrow> bool" where
  "digest_law h \<longleftrightarrow> (\<forall>x. length (ha_sha256 h x) = sha256_size)"

lemma verifyHash_hashSecret:
  "digest_law h \<Longrightarrow> verifyHash h (hashSecret h secret) x = (ha_sha256 h x = ha_sha256 h secret, False)"
  by (simp add: verifyHash_def hashSecret_def base64_round_trip digest_law_def)

lemma parseToken_token_of:
  assumes "i = hex_encode a" and "a \<noteq> []" and "secret = base64_encode url_alphabet b" and "b \<noteq> []"
  shows "parseToken (token_of i secret) = Some (i, secret)"
proof -
  have i: "CHR ''.'' \<notin> set i" "i \<noteq> []"
    using hex_encode_chars [of "CHR ''.''" a] assms(1,2) hex_encode_length [of a] by (auto simp del: hex_encode_length)
  have s: "secret \<noteq> []" "\<forall>c \<in> set secret. graphic c" using assms(3,4) base64_graphic [OF good_url] by auto
  have "trim_space (token_of i secret) = token_of i secret"
    using s by (intro trim_space_id) (simp add: token_of_def tokenPrefix_def graphic_def)
  moreover have "cut (i @ CHR ''.'' # secret) (CHR ''.'') = (i, Some secret)" using i(1) by simp
  ultimately show ?thesis using i(2) s(1) by (simp add: parseToken_def Let_def token_of_def)
qed

text \<open>The parameters an argon2id hash is checked with.\<close>

definition argon_ok :: "argon_params \<Rightarrow> bool" where
  "argon_ok a \<longleftrightarrow> 1 \<le> ar_passes a \<and> ar_passes a \<le> 10 \<and> 1 \<le> ar_threads a \<and> ar_threads a < 256 \<and>
     8 * ar_threads a \<le> ar_memory a \<and> ar_memory a \<le> 2 ^ 20"

lemma parseArgonParams_ok: "parseArgonParams s = Some a \<Longrightarrow> argon_ok a"
proof -
  assume a: "parseArgonParams s = Some a"
  then obtain seen where f: "fold_res argon_step (split_char (CHR '','') s) ([], \<lparr>ar_memory = 0, ar_passes = 0, ar_threads = 0\<rparr>) = Inr (seen, a)"
    by (auto simp: parseArgonParams_def split: sum.splits if_splits)
  have "case (seen, a) of (_, q) \<Rightarrow> ar_threads q < 256"
    by (rule fold_res_invariant [OF f]) (auto simp: argon_step_def parse_uint_def split: prod.splits option.splits if_splits)
  with a f show ?thesis
    by (auto simp: parseArgonParams_def argon_ok_def maxArgonTime_def maxArgonMemory_def split: if_splits)
qed

section \<open>Properties\<close>

text \<open>Access follows the key file: whatever operations ran before, whatever other processes wrote
  and whatever is cached, a request that is not refused was decided on the file as it was at the
  stat or is at the read. It was let in without a key only when that file holds none; otherwise its
  token verified there.\<close>

theorem access_follows_the_file:
  assumes "(key_step h Q)\<^sup>*\<^sup>* s0 s" and "ks_cache s0 = None" and "honest_disk s"
    and "Authorize h env mid (Some ctx) token s = ((unlocked, None), s')" and "\<forall>m \<in> set mid. visible s m"
  shows "\<exists>p. (current_file s = Some p \<or> current_file (fold meddled mid s) = Some p) \<and>
    (if unlocked then kp_keys p = [] else kp_keys p \<noteq> [] \<and> (\<exists>k old. verifyIn h p token = Inr (k, old)))"
  using Authorize_facts [OF assms(4) key_steps_coherent [OF assms(1,2)] assms(5,3)] by simp

text \<open>A store that has parsed nothing since its last write, and reads its file without a fault.\<close>

lemma Authorize_uncached:
  assumes "ks_cache s = None" "dk_faults (ks_disk s) = []" "current_file s = Some p"
    and "verifyIn h p token = Inr (k, False)"
  shows "fst (Authorize h env [] (Some ctx) token s) = (False, None)"
proof -
  have c: "key_call s = (None, s)" using assms(2) by (simp add: key_call_def os_call_def)
  have "kp_keys p \<noteq> []" using assms(4) unfolding verifyIn_Inr by auto
  with assms(3) obtain i q where f: "key_file s = Some (KeyFile i q)" "p = versioned q"
    by (auto simp: current_file_def empty_payload_def split: option.splits key_content.splits)
  with assms c \<open>kp_keys p \<noteq> []\<close> show ?thesis
    by (simp add: Authorize_def readCached_def key_read_def)
qed

text \<open>C28: Once \<open>Generate\<close> has returned without an error, the gateway admits the new token at the next request,
  and so it does every token whose secret was stored in the current form and that verified before. The id drawn for the
  key is new in the file, the request carries a context, and its reads of the file meet no fault. Stored in the file, the
  new token verifies to its own record, and any token that verified before does as it did.\<close>

theorem generated_key_opens:
  assumes "Generate h env ctx name s = ((None, x), s')" and "honest_disk s" and "digest_law h"
    and "\<forall>p. current_file s = Some p \<longrightarrow> (\<forall>k \<in> set (kp_keys p). kr_id k \<noteq> kr_id (gr_record x))"
    and "dk_faults (ks_disk s') = []"
  shows "\<exists>p p'. current_file s = Some p \<and> current_file s' = Some p' \<and>
    verifyIn h p' (gr_key x) = Inr (gr_record x, False) \<and>
    (\<forall>token k old. verifyIn h p token = Inr (k, old) \<longrightarrow> verifyIn h p' token = Inr (k, old)) \<and>
    fst (Authorize h env2 [] (Some ctx2) (gr_key x) s') = (False, None) \<and>
    (\<forall>token k. verifyIn h p token = Inr (k, False) \<longrightarrow> fst (Authorize h env2 [] (Some ctx2) token s') = (False, None))"
proof -
  obtain p i secret now a b where p: "current_file s = Some p"
    "gr_record x = \<lparr>kr_id = i, kr_name = trim_space name, kr_prefix = tokenPrefix @ i,
              kr_hash = hashSecret h secret, kr_created_at = now, kr_rotated_at = []\<rparr>"
    "gr_key x = token_of i secret" "length a = 16" "i = hex_encode a"
    "length b = 32" "secret = base64_encode url_alphabet b"
    "current_file s' = Some (p\<lparr>kp_keys := kp_keys p @ [gr_record x], kp_version := 1\<rparr>)" "ks_cache s' = None"
    using Generate_facts [OF assms(1)] assms(2) by auto
  let ?p' = "p\<lparr>kp_keys := kp_keys p @ [gr_record x], kp_version := 1\<rparr>"
  from p have "a \<noteq> []" "b \<noteq> []" by auto
  from parseToken_token_of [OF p(5) this(1) p(7) this(2)] p(3) have t: "parseToken (gr_key x) = Some (i, secret)" by simp
  have "find (\<lambda>k. kr_id k = i) (kp_keys p) = None"
    using assms(4) p(1,2) by (auto simp: find_None_iff)
  then have new: "verifyIn h ?p' (gr_key x) = Inr (gr_record x, False)"
    unfolding verifyIn_Inr using t p(2) assms(3) by (auto simp: find_app verifyHash_hashSecret)
  have old: "verifyIn h ?p' token = Inr (k, old)" if "verifyIn h p token = Inr (k, old)" for token k old
    using that unfolding verifyIn_Inr by (auto simp: find_app)
  from new old Authorize_uncached [OF p(9) assms(5) p(8)] p(1,8) show ?thesis by blast
qed

text \<open>A rotation replaces the secret: the new token opens the gateway, any other token of that key
  only when its secret has the digest of the new one, and tokens of other keys are decided as
  before.\<close>

theorem rotation_replaces_the_secret:
  assumes "Rotate h env ctx name s = ((None, x), s')" and "honest_disk s" and "digest_law h"
    and "current_file s = Some p" and "distinct (map kr_id (kp_keys p))"
    and "\<exists>a. a \<noteq> [] \<and> kr_id (gr_record x) = hex_encode a"
  shows "\<exists>p' secret. current_file s' = Some p' \<and> parseToken (gr_key x) = Some (kr_id (gr_record x), secret) \<and>
    verifyIn h p' (gr_key x) = Inr (gr_record x, False) \<and>
    (\<forall>token i y r. parseToken token = Some (i, y) \<and> verifyIn h p' token = Inr r \<and> i = kr_id (gr_record x) \<longrightarrow>
       ha_sha256 h y = ha_sha256 h secret) \<and>
    (\<forall>token i y. parseToken token = Some (i, y) \<and> i \<noteq> kr_id (gr_record x) \<longrightarrow> verifyIn h p' token = verifyIn h p token)"
proof -
  obtain n secret now b where p: "find_index (\<lambda>k. kr_name k = trim_space name) (kp_keys p) = Some n"
    "gr_record x = (kp_keys p ! n)\<lparr>kr_hash := hashSecret h secret, kr_rotated_at := now\<rparr>"
    "gr_key x = token_of (kr_id (kp_keys p ! n)) secret" "length b = 32" "secret = base64_encode url_alphabet b"
    "current_file s' = Some (p\<lparr>kp_keys := (kp_keys p)[n := gr_record x], kp_version := 1\<rparr>)"
    using Rotate_facts [OF assms(1)] assms(2,4) by auto
  let ?i = "kr_id (kp_keys p ! n)" and ?p' = "p\<lparr>kp_keys := (kp_keys p)[n := gr_record x], kp_version := 1\<rparr>"
  have n: "n < length (kp_keys p)" using p(1) by (simp add: find_index_Some)
  have i: "kr_id (gr_record x) = ?i" using p(2) by simp
  obtain a where a: "a \<noteq> []" "?i = hex_encode a" using assms(6) i by auto
  have "b \<noteq> []" using p(4) by auto
  from parseToken_token_of [OF a(2,1) p(5) this] p(3) have t: "parseToken (gr_key x) = Some (?i, secret)" by simp
  have ids: "map kr_id (kp_keys ?p') = map kr_id (kp_keys p)"
    using map_update_same [of n "kp_keys p" kr_id] n i by simp
  have new: "find (\<lambda>k. kr_id k = ?i) (kp_keys ?p') = Some (gr_record x)"
    using find_distinct [of kr_id "kp_keys ?p'" n] assms(5) ids n i by simp
  have "verifyIn h ?p' (gr_key x) = Inr (gr_record x, False)"
    unfolding verifyIn_Inr using t new p(2) assms(3) by (auto simp: verifyHash_hashSecret)
  moreover have "ha_sha256 h y = ha_sha256 h secret"
    if "parseToken token = Some (j, y)" "verifyIn h ?p' token = Inr r" "j = kr_id (gr_record x)" for token j y r
    using that new i p(2) assms(3) by (auto simp: verifyIn_def verifyHash_hashSecret split: bool.splits)
  moreover have "verifyIn h ?p' token = verifyIn h p token"
    if "parseToken token = Some (j, y)" "j \<noteq> kr_id (gr_record x)" for token j y
    using that find_update_other [of n "kp_keys p" kr_id "gr_record x" j] n i by (simp add: verifyIn_def)
  ultimately show ?thesis using p(6) t unfolding i by (intro exI [of _ ?p'] exI [of _ secret]) blast
qed

text \<open>A deleted key is dead: no token of it opens the gateway any more, and tokens of the other keys
  are decided as before. When it was the last key the file holds none and the gateway is open.\<close>

theorem deleted_key_is_dead:
  assumes "key_delete env ctx name s = (None, s')" and "honest_disk s"
    and "current_file s = Some p" and "distinct (map kr_id (kp_keys p))"
  shows "\<exists>p'. current_file s' = Some p' \<and> set (kp_keys p') = {k \<in> set (kp_keys p). kr_name k \<noteq> trim_space name} \<and>
    (\<forall>token i y. parseToken token = Some (i, y) \<longrightarrow>
       (if \<exists>k \<in> set (kp_keys p). kr_id k = i \<and> kr_name k = trim_space name
        then verifyIn h p' token = Inl invalid_token else verifyIn h p' token = verifyIn h p token))"
proof -
  let ?keep = "\<lambda>k. kr_name k \<noteq> trim_space name"
  let ?p' = "p\<lparr>kp_keys := filter ?keep (kp_keys p), kp_version := 1\<rparr>"
  have p: "current_file s' = Some ?p'" using Delete_facts [OF assms(1)] assms(2,3) by auto
  have dead: "find (\<lambda>k. kr_id k = i) (filter ?keep (kp_keys p)) = None"
    if "k \<in> set (kp_keys p)" "kr_id k = i" "kr_name k = trim_space name" for k i
    using that assms(4) by (auto simp: find_None_iff distinct_map inj_on_def)
  have alive: "find (\<lambda>k. kr_id k = i) (filter ?keep ks) = find (\<lambda>k. kr_id k = i) ks"
    if "\<not> (\<exists>k \<in> set ks. kr_id k = i \<and> kr_name k = trim_space name)" for ks i
    using that by (induction ks) auto
  show ?thesis
  proof (intro exI [of _ ?p'] conjI allI impI)
    show "current_file s' = Some ?p'" by (rule p)
    show "set (kp_keys ?p') = {k \<in> set (kp_keys p). ?keep k}" by auto
    fix token i y
    assume "parseToken token = Some (i, y)"
    then show "if \<exists>k \<in> set (kp_keys p). kr_id k = i \<and> kr_name k = trim_space name
        then verifyIn h ?p' token = Inl invalid_token else verifyIn h ?p' token = verifyIn h p token"
      using dead alive [of "kp_keys p" i] by (auto simp: verifyIn_def)
  qed
qed

section \<open>Well-formed files\<close>

definition wf_keys :: "file_payload \<Rightarrow> bool" where
  "wf_keys p \<longleftrightarrow> length (kp_keys p) \<le> maxKeys \<and> distinct (map kr_name (kp_keys p)) \<and>
     (\<forall>k \<in> set (kp_keys p). namePattern (kr_name k))"

definition wf_content :: "key_content \<Rightarrow> bool" where
  "wf_content c \<longleftrightarrow> (case c of KeyFile _ p \<Rightarrow> wf_keys p | Garbled _ \<Rightarrow> True)"

definition wf_store :: "key_store \<Rightarrow> bool" where
  "wf_store s \<longleftrightarrow> (\<forall>p. current_file s = Some p \<longrightarrow> wf_keys p)"

lemma wf_same: "wf_store s \<Longrightarrow> key_file s' = key_file s \<Longrightarrow> wf_store s'"
  by (simp add: wf_store_def current_file_def)

lemma wf_store_file: "wf_store s \<longleftrightarrow> (\<forall>c. key_file s = Some c \<longrightarrow> wf_content c)"
  by (auto simp: wf_store_def current_file_def wf_content_def wf_keys_def empty_payload_def versioned_def
      split: option.splits key_content.splits)

lemma wf_replace_record:
  "wf_keys fp \<Longrightarrow> n < length (kp_keys fp) \<Longrightarrow> kr_name y = kr_name (kp_keys fp ! n) \<Longrightarrow>
   wf_keys (fp\<lparr>kp_keys := (kp_keys fp)[n := y], kp_version := 1\<rparr>)"
  using map_update_same [of n "kp_keys fp" kr_name y]
  by (auto simp: wf_keys_def dest!: set_update_subset_insert [THEN subsetD])

lemma Generate_wf:
  assumes "Generate h env ctx name s = ((r, x), s')" and "honest_disk s" and "wf_store s"
  shows "wf_store s'"
proof (cases r)
  case (Some e)
  with Generate_facts [OF assms(1)] wf_same [OF assms(3)] show ?thesis by simp
next
  case None
  then obtain fp where fp: "current_file s = Some fp" "canAdd fp (trim_space name) = None" "namePattern (trim_space name)"
    "kr_name (gr_record x) = trim_space name"
    "current_file s' = Some (fp\<lparr>kp_keys := kp_keys fp @ [gr_record x], kp_version := 1\<rparr>)"
    using Generate_facts [OF assms(1)] assms(2) by auto
  with assms(3) show ?thesis
    by (auto simp: wf_store_def wf_keys_def canAdd_def list_ex_iff split: if_splits)
qed

lemma Rotate_wf:
  assumes "Rotate h env ctx name s = ((r, x), s')" and "honest_disk s" and "wf_store s"
  shows "wf_store s'"
proof (cases r)
  case (Some e)
  with Rotate_facts [OF assms(1)] wf_same [OF assms(3)] show ?thesis by simp
next
  case None
  then obtain fp n where fp: "current_file s = Some fp" "find_index (\<lambda>k. kr_name k = trim_space name) (kp_keys fp) = Some n"
    "kr_name (gr_record x) = kr_name (kp_keys fp ! n)"
    "current_file s' = Some (fp\<lparr>kp_keys := (kp_keys fp)[n := gr_record x], kp_version := 1\<rparr>)"
    using Rotate_facts [OF assms(1)] assms(2) by auto
  with assms(3) wf_replace_record [of fp n] show ?thesis by (simp add: wf_store_def find_index_Some)
qed

lemma Delete_wf:
  assumes "key_delete env ctx name s = (r, s')" and "honest_disk s" and "wf_store s"
  shows "wf_store s'"
proof (cases r)
  case (Some e)
  with Delete_facts [OF assms(1)] wf_same [OF assms(3)] show ?thesis by simp
next
  case None
  then obtain fp where fp: "current_file s = Some fp"
    "current_file s' = Some (fp\<lparr>kp_keys := filter (\<lambda>k. kr_name k \<noteq> trim_space name) (kp_keys fp), kp_version := 1\<rparr>)"
    using Delete_facts [OF assms(1)] assms(2) by auto
  with assms(3) show ?thesis
    by (auto simp: wf_store_def wf_keys_def distinct_map_filter intro: le_trans [OF length_filter_le])
qed

lemma wf_meddled: "wf_store s \<Longrightarrow> allowed wf_content s mid \<Longrightarrow> wf_store (fold meddled mid s)"
proof (cases "mid = []")
  case False
  then have "last mid \<in> set mid" by simp
  moreover assume "allowed wf_content s mid"
  ultimately have "\<forall>c. last mid = PutFile c \<longrightarrow> wf_content c" by (auto simp: allowed_def)
  with False show ?thesis by (cases "last mid") (simp_all add: wf_store_file fold_meddled_file)
qed (simp add: wf_store_file)

lemma readCached_wf:
  assumes "readCached mid s = (r, s')" and "coherent s" and "honest_disk s" and "wf_store s" and "allowed wf_content s mid"
  shows "wf_store s'"
proof -
  have m: "\<forall>m \<in> set mid. visible s m" using assms(5) by (simp add: allowed_def)
  from readCached_facts [OF assms(1,2) m assms(3)] wf_same [OF assms(4), of s']
    wf_same [OF wf_meddled [OF assms(4,5)], of s'] show ?thesis by auto
qed

lemma Authorize_wf:
  assumes "Authorize h env mid (Some ctx) token s = ((unlocked, err), s')"
    and "coherent s" and "honest_disk s" and "wf_store s" and "allowed wf_content s mid"
  shows "wf_store s'"
proof -
  obtain r s1 where r: "readCached mid s = (r, s1)" by (rule prod.exhaust)
  have wf: "wf_store s1" by (rule readCached_wf [OF r assms(2-5)])
  have h: "honest_disk s1" using readCached_facts [OF r assms(2) _ assms(3)] assms(5) by (simp add: allowed_def)
  have "s' = s1 \<or> (\<exists>i legacy secret q. upgradeHash h env (Some ctx) i legacy secret s1 = (q, s'))"
    using assms(1) r by (auto simp: Authorize_def split: sum.splits if_splits bool.splits prod.splits option.splits)
  then show ?thesis
  proof
    assume "\<exists>i legacy secret q. upgradeHash h env (Some ctx) i legacy secret s1 = (q, s')"
    then obtain i legacy secret q where u: "upgradeHash h env (Some ctx) i legacy secret s1 = (q, s')" by blast
    show ?thesis
    proof (cases "key_file s' = key_file s1")
      case False
      then obtain fp n where fp: "current_file s1 = Some fp" "find_index (\<lambda>k. kr_id k = i \<and> kr_hash k = legacy) (kp_keys fp) = Some n"
        "current_file s' = Some (fp\<lparr>kp_keys := (kp_keys fp)[n := (kp_keys fp ! n)\<lparr>kr_hash := hashSecret h secret\<rparr>], kp_version := 1\<rparr>)"
        using upgrade_facts [OF u] h by auto
      with wf wf_replace_record [of fp n] show ?thesis by (simp add: wf_store_def find_index_Some)
    qed (rule wf_same [OF wf])
  qed (simp add: wf)
qed

lemma Verify_wf:
  assumes "Verify h mid token s = (v, s')"
    and "coherent s" and "honest_disk s" and "wf_store s" and "allowed wf_content s mid"
  shows "wf_store s'"
proof -
  obtain r s1 where r: "readCached mid s = (r, s1)" by (rule prod.exhaust)
  with assms(1) have "s' = s1" by (auto simp: Verify_def split: sum.splits)
  with readCached_wf [OF r assms(2-5)] show ?thesis by simp
qed

lemma key_step_wf:
  assumes "key_step h wf_content s s'" and "coherent s" and "wf_store s"
  shows "wf_store s'"
  using assms(1)
proof (cases rule: key_step.cases)
  case (check name r)
  with read_only_ops(1) wf_same [OF assms(3)] show ?thesis by (auto simp: same_view_def)
next
  case (list xs)
  with read_only_ops(2) wf_same [OF assms(3)] show ?thesis by (auto simp: same_view_def)
next
  case (elsewhere m)
  then show ?thesis using wf_meddled [OF assms(3), of "[m]"] by simp
next
  case (generate env ctx name r x)
  from Generate_wf [OF generate(2,1) assms(3)] show ?thesis .
next
  case (rotate env ctx name r x)
  from Rotate_wf [OF rotate(2,1) assms(3)] show ?thesis .
next
  case (delete env ctx name r)
  from Delete_wf [OF delete(2,1) assms(3)] show ?thesis .
next
  case (verify mid token v)
  from Verify_wf [OF verify(3) assms(2) verify(1) assms(3) verify(2)] show ?thesis .
next
  case (authorize mid env c token unlocked e)
  from Authorize_wf [OF authorize(3) assms(2) authorize(1) assms(3) authorize(2)] show ?thesis .
qed

text \<open>C29: A well-formed key file stays so: at most 32 keys, under distinct valid names, whatever
  operations run and fail, as long as other processes write only such files.\<close>

theorem key_file_stays_well_formed:
  assumes "(key_step h wf_content)\<^sup>*\<^sup>* s0 s" and "ks_cache s0 = None" and "wf_store s0"
  shows "wf_store s"
  using assms(1,3)
proof (induction rule: rtranclp_induct)
  case (step s1 s2)
  then show ?case using key_step_wf key_steps_coherent [OF step(1) assms(2)] by blast
qed

text \<open>The cost settings an argon2id check runs with are within bounds, whatever the stored hash
  says: the check depends on the values of argon2id for 1 to 10 passes, 1 to 255 threads, 8 KiB per
  thread to 1 GiB of memory and keys of 1 to 64 bytes alone. Outside them the library would
  panic or exhaust memory.\<close>

theorem argon_cost_is_bounded:
  assumes "\<forall>secret salt passes memory threads n. 1 \<le> passes \<and> passes \<le> 10 \<and> 1 \<le> threads \<and> threads < 256 \<and>
      8 * threads \<le> memory \<and> memory \<le> 2 ^ 20 \<and> 1 \<le> n \<and> n \<le> 64 \<longrightarrow>
      ha_argon2 h secret salt passes memory threads n = ha_argon2 h' secret salt passes memory threads n"
  shows "verifyArgon2id h encoded secret = verifyArgon2id h' encoded secret"
proof -
  have same: "(ha_argon2 h secret salt (ar_passes a) (ar_memory a) (ar_threads a) (length want) = want) \<longleftrightarrow>
      (ha_argon2 h' secret salt (ar_passes a) (ar_memory a) (ar_threads a) (length want) = want)"
    if "parseArgonParams p2 = Some a" "want \<noteq> []" "length want \<le> 64" for p2 a salt want
    using assms [rule_format, of "ar_passes a" "ar_threads a" "ar_memory a" "length want" secret salt]
      parseArgonParams_ok [OF that(1)] that(2,3)
    by (cases want) (simp_all add: argon_ok_def)
  show ?thesis
    unfolding verifyArgon2id_def maxArgonKeyLen_def
    by (auto simp: same not_less split: list.splits option.splits)
qed

section \<open>Runs without faults\<close>

definition faultless :: "key_store \<Rightarrow> bool" where
  "faultless s \<longleftrightarrow> dk_faults (ks_disk s) = [] \<and> (\<forall>n. \<exists>f. ks_rand s n = Inr f)"

lemma faultless_honest: "faultless s \<Longrightarrow> honest_disk s"
  by (simp add: faultless_def honest_disk_def)

lemma key_read_clean:
  assumes "faultless s" and "current_file s = Some f"
  shows "\<exists>s'. key_read s = (Inr f, s') \<and> faultless s'"
proof -
  have c: "key_call s = (None, s)" using assms(1) by (simp add: key_call_def os_call_def faultless_def)
  show ?thesis
  proof (cases "key_file s")
    case None
    with assms c show ?thesis by (auto simp: key_read_def current_file_def)
  next
    case (Some k)
    with assms c show ?thesis by (cases k) (auto simp: key_read_def current_file_def faultless_def)
  qed
qed

lemma key_write_faultless: "faultless s \<Longrightarrow> \<exists>s'. key_write f s = (None, s') \<and> faultless s'"
  by (simp add: key_write_def faultless_def Let_def WriteAtomic_quiet disk_written_def)

lemma key_write_clean: "faultless s \<Longrightarrow> \<exists>s'. key_write f s = (None, s')"
  using key_write_faultless by blast

lemma secretForID_clean:
  assumes "faultless s"
  shows "\<exists>secret token s'. secretForID i s = (Inr (secret, token), s') \<and> faultless s'"
proof -
  obtain f where "ks_rand s (ks_drawn s) = Inr f" using assms by (auto simp: faultless_def)
  with assms show ?thesis by (auto simp: secretForID_def read_full_def Let_def faultless_def)
qed

lemma newToken_clean:
  assumes "faultless s"
  shows "\<exists>i secret token s'. newToken s = (Inr (i, secret, token), s') \<and> faultless s'"
proof -
  obtain f where f: "ks_rand s (ks_drawn s) = Inr f" using assms by (auto simp: faultless_def)
  have "faultless (s\<lparr>ks_drawn := Suc (ks_drawn s)\<rparr>)" using assms by (simp add: faultless_def)
  from secretForID_clean [OF this, of "hex_encode (map f [0..<16])"] f
  show ?thesis by (auto simp: newToken_def read_full_def Let_def)
qed

lemma key_now_clean: "faultless s \<Longrightarrow> \<exists>now s'. key_now s = (now, s') \<and> faultless s'"
  by (simp add: key_now_def faultless_def)

text \<open>With the lock free, a working disk and randomness, the operations do what they are asked.\<close>

lemma Generate_clean:
  assumes "lock_free env" and "faultless s" and "namePattern (trim_space name)"
    and "current_file s = Some p" and "canAdd p (trim_space name) = None"
  shows "\<exists>x s'. Generate h env (Some ctx) name s = ((None, x), s') \<and> faultless s'"
proof -
  obtain s1 where r: "key_read s = (Inr p, s1)" "faultless s1" using key_read_clean [OF assms(2,4)] by blast
  obtain i secret token s2 where t: "newToken s1 = (Inr (i, secret, token), s2)" "faultless s2"
    using newToken_clean [OF r(2)] by blast
  obtain now s3 where k: "key_now s2 = (now, s3)" "faultless s3" using key_now_clean [OF t(2)] by blast
  let ?rec = "\<lparr>kr_id = i, kr_name = trim_space name, kr_prefix = tokenPrefix @ i,
    kr_hash = hashSecret h secret, kr_created_at = now, kr_rotated_at = []\<rparr>"
  obtain s4 where "key_write (p\<lparr>kp_keys := kp_keys p @ [?rec]\<rparr>) s3 = (None, s4)" "faultless s4"
    using key_write_faultless [OF k(2)] by blast
  with assms(3,5) r(1) t(1) k(1) show ?thesis
    by (simp add: Generate_def generate_locked_def key_lock_def WithFileLock_free [OF assms(1)] Let_def)
qed

lemma Rotate_clean:
  assumes "lock_free env" and "faultless s" and "current_file s = Some p"
    and "find_index (\<lambda>k. kr_name k = trim_space name) (kp_keys p) = Some n"
  shows "\<exists>x s'. Rotate h env (Some ctx) name s = ((None, x), s')"
proof -
  obtain s1 where r: "key_read s = (Inr p, s1)" "faultless s1" using key_read_clean [OF assms(2,3)] by blast
  obtain secret token s2 where t: "secretForID (kr_id (kp_keys p ! n)) s1 = (Inr (secret, token), s2)" "faultless s2"
    using secretForID_clean [OF r(2)] by blast
  obtain now s3 where k: "key_now s2 = (now, s3)" "faultless s3" using key_now_clean [OF t(2)] by blast
  let ?rec = "(kp_keys p ! n)\<lparr>kr_hash := hashSecret h secret, kr_rotated_at := now\<rparr>"
  obtain s4 where "key_write (p\<lparr>kp_keys := (kp_keys p)[n := ?rec]\<rparr>) s3 = (None, s4)" using key_write_clean [OF k(2)] by blast
  with assms(4) r(1) t(1) k(1) show ?thesis
    by (simp add: Rotate_def rotate_locked_def key_lock_def WithFileLock_free [OF assms(1)] Let_def)
qed

lemma Delete_clean:
  assumes "lock_free env" and "faultless s" and "current_file s = Some p"
    and "\<exists>k \<in> set (kp_keys p). kr_name k = trim_space name"
  shows "\<exists>s'. key_delete env (Some ctx) name s = (None, s')"
proof -
  obtain s1 where r: "key_read s = (Inr p, s1)" "faultless s1" using key_read_clean [OF assms(2,3)] by blast
  obtain s2 where "key_write (p\<lparr>kp_keys := filter (\<lambda>k. kr_name k \<noteq> trim_space name) (kp_keys p)\<rparr>) s1 = (None, s2)"
    using key_write_clean [OF r(2)] by blast
  with assms(4) r(1) show ?thesis
    by (simp add: key_delete_def delete_locked_def key_lock_def WithFileLock_free [OF assms(1)] list_ex_iff)
qed

section \<open>The properties at work\<close>

definition sample_hash :: hash_api where
  "sample_hash = \<lparr>ha_sha256 = \<lambda>x. take 32 (x @ replicate 32 CHR ''.''),
     ha_argon2 = \<lambda>secret salt passes memory threads n. replicate n CHR ''y''\<rparr>"

definition live_context :: go_context where
  "live_context = \<lparr>ctx_err = None, caller_budget = False\<rparr>"

definition alice :: key_record where
  "alice = \<lparr>kr_id = ''61'', kr_name = ''alice'', kr_prefix = ''ppk.61'', kr_hash = hashSecret sample_hash ''x'',
     kr_created_at = ''2026-01-01T00:00:00Z'', kr_rotated_at = []\<rparr>"

definition sample_payload :: file_payload where
  "sample_payload = \<lparr>kp_version = 1, kp_keys = [alice]\<rparr>"

definition sample_keys :: "key_record list \<Rightarrow> key_store" where
  "sample_keys keys = \<lparr>ks_path = ''/keys'',
     ks_disk = \<lparr>dk_files = [(''/keys'', KeyFile \<lparr>fi_id = 1, fi_mtime = 5, fi_size = 200\<rparr> \<lparr>kp_version = 1, kp_keys = keys\<rparr>)],
                dk_temps = [], dk_next = 0, dk_unsynced = [], dk_stale = [], dk_faults = []\<rparr>,
     ks_cache = None, ks_parses = 0, ks_rand = \<lambda>n. Inr (\<lambda>_. if n < 2 then CHR ''a'' else CHR ''b''), ks_drawn = 0,
     ks_stamp = \<lambda>_. ''2026-01-02T00:00:00Z'', ks_ticks = 0,
     ks_infos = \<lambda>n. \<lparr>fi_id = n, fi_mtime = int n, fi_size = 200\<rparr>, ks_written = 2\<rparr>"

lemma sample_facts [simp]:
  "faultless (sample_keys keys)" "honest_disk (sample_keys keys)" "ks_cache (sample_keys keys) = None"
  "current_file (sample_keys keys) = Some \<lparr>kp_version = 1, kp_keys = keys\<rparr>" "digest_law sample_hash"
  by (auto simp: faultless_def honest_disk_def sample_keys_def current_file_def key_file_def look_def versioned_def
      digest_law_def sample_hash_def sha256_size_def)

lemma sample_key: "verifyIn sample_hash \<lparr>kp_version = 1, kp_keys = [alice]\<rparr> ''ppk.61.x'' = Inr (alice, False)"
  unfolding verifyIn_Inr
  by (auto simp: alice_def verifyHash_hashSecret intro!: exI) code_simp

theorem access_follows_the_file_witness:
  "fst (Authorize sample_hash free_lock [] (Some live_context) ''ppk.61.x'' (sample_keys [alice])) = (False, None) \<and>
   (\<exists>k old. verifyIn sample_hash \<lparr>kp_version = 1, kp_keys = [alice]\<rparr> ''ppk.61.x'' = Inr (k, old))"
proof -
  obtain s' where a: "Authorize sample_hash free_lock [] (Some live_context) ''ppk.61.x'' (sample_keys [alice]) = ((False, None), s')"
    using sample_key by (simp add: Authorize_def readCached_def key_call_def os_call_def key_file_def look_def key_read_def versioned_def sample_keys_def)
  show ?thesis
    using access_follows_the_file [OF rtranclp.rtrancl_refl _ _ a] a by simp
qed

text \<open>The file lists a key, which the store has in its cache; a second one is generated.\<close>

definition warm_keys :: key_store where
  "warm_keys = (sample_keys [alice])\<lparr>ks_cache := Some (\<lparr>fi_id = 1, fi_mtime = 5, fi_size = 200\<rparr>, sample_payload)\<rparr>"

theorem generated_key_opens_witness:
  "\<exists>x s'. Generate sample_hash free_lock (Some live_context) ''bob'' warm_keys = ((None, x), s') \<and>
     fst (Authorize sample_hash free_lock [] (Some live_context) (gr_key x) s') = (False, None) \<and>
     fst (Authorize sample_hash free_lock [] (Some live_context) ''ppk.61.x'' s') = (False, None)"
proof -
  have w: "faultless warm_keys" "honest_disk warm_keys" "current_file warm_keys = Some \<lparr>kp_version = 1, kp_keys = [alice]\<rparr>"
    using sample_facts(1,2,4) [of "[alice]"]
    by (simp_all add: warm_keys_def faultless_def honest_disk_def current_file_def key_file_def)
  have "namePattern (trim_space ''bob'')" "trim_space ''bob'' \<noteq> ''alice''" by code_simp+
  then obtain x s' where g: "Generate sample_hash free_lock (Some live_context) ''bob'' warm_keys = ((None, x), s')" "faultless s'"
    using Generate_clean [of free_lock warm_keys "''bob''" _ sample_hash live_context] w
    by (auto simp: canAdd_def maxKeys_def alice_def)
  have d: "dk_faults (ks_disk s') = []" using g(2) by (simp add: faultless_def)
  obtain b where b: "length b = 16" "kr_id (gr_record x) = hex_encode b" using Generate_facts [OF g(1)] by auto
  have "length (kr_id (gr_record x)) = 32" unfolding b(2) by (simp add: b(1))
  then have n: "kr_id (gr_record x) \<noteq> kr_id alice" by (auto simp: alice_def)
  from generated_key_opens [OF g(1) w(2) _ _ d] w(3) n sample_key g show ?thesis by auto
qed

theorem rotation_replaces_the_secret_witness:
  "\<exists>x s' p'. Rotate sample_hash free_lock (Some live_context) ''alice'' (sample_keys [alice]) = ((None, x), s') \<and>
     current_file s' = Some p' \<and> verifyIn sample_hash p' (gr_key x) = Inr (gr_record x, False)"
proof -
  have n: "trim_space ''alice'' = ''alice''" by code_simp
  then obtain x s' where g: "Rotate sample_hash free_lock (Some live_context) ''alice'' (sample_keys [alice]) = ((None, x), s')"
    using Rotate_clean [of free_lock "sample_keys [alice]" _ "''alice''" 0 sample_hash live_context]
    by (auto simp: alice_def)
  have "kr_id (gr_record x) = ''61''"
    using Rotate_facts [OF g] n by (auto simp: alice_def split: if_splits)
  moreover have "''61'' = hex_encode ''a''" by code_simp
  ultimately have "\<exists>a. a \<noteq> [] \<and> kr_id (gr_record x) = hex_encode a" by (metis list.distinct(1))
  with rotation_replaces_the_secret [OF g, of "\<lparr>kp_version = 1, kp_keys = [alice]\<rparr>"] g show ?thesis by auto
qed

theorem deleted_key_is_dead_witness:
  "\<exists>s' p'. key_delete free_lock (Some live_context) ''alice'' (sample_keys [alice]) = (None, s') \<and>
     current_file s' = Some p' \<and> verifyIn sample_hash p' ''ppk.61.x'' = Inl invalid_token"
proof -
  have n: "trim_space ''alice'' = ''alice''" "parseToken ''ppk.61.x'' = Some (''61'', ''x'')" by code_simp+
  then obtain s' where d: "key_delete free_lock (Some live_context) ''alice'' (sample_keys [alice]) = (None, s')"
    using Delete_clean [of free_lock "sample_keys [alice]" _ "''alice''" live_context] by (auto simp: alice_def)
  from deleted_key_is_dead [OF d, of _ sample_hash] d n show ?thesis by (auto simp: alice_def)
qed

theorem key_file_stays_well_formed_witness:
  "\<exists>x s'. Generate sample_hash free_lock (Some live_context) ''alice'' (sample_keys []) = ((None, x), s') \<and> wf_store s'"
proof -
  have "namePattern (trim_space ''alice'')" by code_simp
  then obtain x s' where g: "Generate sample_hash free_lock (Some live_context) ''alice'' (sample_keys []) = ((None, x), s')"
    using Generate_clean [of free_lock "sample_keys []" "''alice''" _ sample_hash live_context]
    by (auto simp: canAdd_def maxKeys_def)
  have "(key_step sample_hash wf_content)\<^sup>*\<^sup>* (sample_keys []) s'"
    by (rule r_into_rtranclp, rule generate [OF _ g]) simp
  from key_file_stays_well_formed [OF this] g show ?thesis by (auto simp: wf_store_def wf_keys_def)
qed

theorem argon_cost_is_bounded_witness:
  "\<forall>encoded secret. verifyArgon2id sample_hash encoded secret =
   verifyArgon2id (sample_hash\<lparr>ha_argon2 := \<lambda>secret salt passes memory threads n.
     if 2 ^ 20 < memory then [] else replicate n CHR ''y''\<rparr>) encoded secret"
  by (intro allI, rule argon_cost_is_bounded) (simp add: sample_hash_def)

end
