(* ===== verification/Responses.thy ===== *)
theory Responses
  imports Registry Breakers Outbound
begin

text \<open>
  How a route answers (\<open>internal/gateway/json_response.go\<close>, \<open>rate_limit.go\<close>, \<open>unavailable.go\<close>,
  \<open>intervention.go\<close> and the error part of \<open>server.go\<close>): the JSON writer, the OpenAI error bodies,
  the headers of a rate limit, the 503 of a refusing breaker and the joined intervention codes.
  The \<open>http.ResponseWriter\<close> keeps its header map, the status and header of the first
  \<open>WriteHeader\<close>, and the body written; later \<open>WriteHeader\<close> calls are ignored as in \<open>net/http\<close>. The
  header of a reply is what the map held at the first \<open>WriteHeader\<close>. Log lines and spans are not
  modelled. The properties say which error type goes with which status, that the reply to a server
  error tells nothing of foreign error texts, and what a rate limited or refused call is told.
\<close>

section \<open>The response writer\<close>

record reply_writer =
  rw_header :: header
  rw_sent :: "(int \<times> header) option"
  rw_body :: bytes

definition fresh_writer :: reply_writer where
  "fresh_writer = \<lparr>rw_header = [], rw_sent = None, rw_body = []\<rparr>"

text \<open>\<open>Header.Set\<close>, \<open>Header.Del\<close>, \<open>WriteHeader\<close> and \<open>Write\<close>, which sends a 200 first when no header
  was sent.\<close>

definition set_header :: "string \<Rightarrow> string \<Rightarrow> reply_writer \<Rightarrow> reply_writer" where
  "set_header k v w = w\<lparr>rw_header := put (canonical_from True k) [v] (rw_header w)\<rparr>"

definition del_header :: "string \<Rightarrow> header \<Rightarrow> header" where
  "del_header k h = AList.delete (canonical_from True k) h"

definition write_header :: "int \<Rightarrow> reply_writer \<Rightarrow> reply_writer" where
  "write_header status w =
     (case rw_sent w of None \<Rightarrow> w\<lparr>rw_sent := Some (status, rw_header w)\<rparr> | Some _ \<Rightarrow> w)"

definition write_bytes :: "bytes \<Rightarrow> reply_writer \<Rightarrow> reply_writer" where
  "write_bytes b w = (let w' = write_header 200 w in w'\<lparr>rw_body := rw_body w' @ b\<rparr>)"

text \<open>\<open>http.Error\<close>.\<close>

definition http_error :: "string \<Rightarrow> int \<Rightarrow> reply_writer \<Rightarrow> reply_writer" where
  "http_error msg status w =
     write_bytes (msg @ ''\<newline>'')
       (write_header status
         (set_header ''X-Content-Type-Options'' ''nosniff''
           (set_header ''Content-Type'' ''text/plain; charset=utf-8''
             (w\<lparr>rw_header := del_header ''Content-Length'' (rw_header w)\<rparr>))))"

text \<open>\<open>writeJSON\<close>; the text is \<open>None\<close> when the value cannot be encoded.\<close>

definition writeJSON :: "int \<Rightarrow> bytes option \<Rightarrow> reply_writer \<Rightarrow> reply_writer" where
  "writeJSON status v w =
     (case v of
        None \<Rightarrow> http_error (status_text 500) 500 w
      | Some raw \<Rightarrow>
          write_bytes (raw @ ''\<newline>'')
            (write_header status (set_header ''Content-Type'' ''application/json'' w)))"

section \<open>Error bodies\<close>

definition errTypeInvalidRequest :: string where "errTypeInvalidRequest = ''invalid_request_error''"
definition errTypeAuthentication :: string where "errTypeAuthentication = ''authentication_error''"
definition errTypeNotFound :: string where "errTypeNotFound = ''not_found_error''"
definition errTypeAPI :: string where "errTypeAPI = ''api_error''"
definition errTypeRateLimit :: string where "errTypeRateLimit = ''rate_limit_error''"
definition errTypeUnavailable :: string where "errTypeUnavailable = ''unavailable_error''"

lemmas err_type_defs = errTypeInvalidRequest_def errTypeAuthentication_def errTypeNotFound_def
  errTypeAPI_def errTypeRateLimit_def errTypeUnavailable_def

record openaiError =
  oe_message :: string
  oe_type :: string
  oe_param :: string
  oe_code :: string

record polypusFailureMeta =
  fm_layer :: string
  fm_upstream :: string

text \<open>The breaker part holds only its state.\<close>

record polypusFailureBody =
  pf_failure :: "polypusFailureMeta option"
  pf_breaker :: "string option"
  pf_intervention :: string

record openaiErrorBody =
  eb_error :: openaiError
  eb_polypus :: "polypusFailureBody option"

text \<open>\<open>json.Marshal\<close> of these types: the fields in order, \<open>omitempty\<close> ones dropped when empty.\<close>

definition json_members :: "(bool \<times> string \<times> string) list \<Rightarrow> string" where
  "json_members ms =
     ''{'' @ join '','' (map (\<lambda>(_, k, v). json_quote k @ '':'' @ v) (filter fst ms)) @ ''}''"

definition marshal_openaiError :: "openaiError \<Rightarrow> string" where
  "marshal_openaiError e = json_members
     [(True, ''message'', json_quote (oe_message e)), (True, ''type'', json_quote (oe_type e)),
      (oe_param e \<noteq> [], ''param'', json_quote (oe_param e)), (True, ''code'', json_quote (oe_code e))]"

definition marshal_polypusFailureBody :: "polypusFailureBody \<Rightarrow> string" where
  "marshal_polypusFailureBody p = json_members
     [(pf_failure p \<noteq> None, ''failure'',
        case pf_failure p of None \<Rightarrow> [] | Some m \<Rightarrow>
          json_members [(True, ''layer'', json_quote (fm_layer m)), (True, ''upstream'', json_quote (fm_upstream m))]),
      (pf_breaker p \<noteq> None, ''circuit_breaker'',
        case pf_breaker p of None \<Rightarrow> [] | Some s \<Rightarrow> json_members [(True, ''state'', json_quote s)]),
      (pf_intervention p \<noteq> [], ''intervention'', json_quote (pf_intervention p))]"

definition marshal_openaiErrorBody :: "openaiErrorBody \<Rightarrow> string" where
  "marshal_openaiErrorBody b = json_members
     [(True, ''error'', marshal_openaiError (eb_error b)),
      (eb_polypus b \<noteq> None, ''polypus'', case eb_polypus b of None \<Rightarrow> [] | Some p \<Rightarrow> marshal_polypusFailureBody p)]"

definition writeOpenAIError :: "int \<Rightarrow> openaiError \<Rightarrow> reply_writer \<Rightarrow> reply_writer" where
  "writeOpenAIError status e =
     writeJSON status (Some (marshal_openaiErrorBody \<lparr>eb_error = e, eb_polypus = None\<rparr>))"

definition codeMethodNotAllowed :: string where "codeMethodNotAllowed = ''method_not_allowed''"

definition allowRead :: "string list" where "allowRead = [''GET'', ''HEAD'']"

definition writeMethodNotAllowed :: "string list \<Rightarrow> reply_writer \<Rightarrow> reply_writer" where
  "writeMethodNotAllowed allow w =
     writeOpenAIError 405
       \<lparr>oe_message = to_lower ''Method Not Allowed'', oe_type = errTypeInvalidRequest, oe_param = [],
        oe_code = codeMethodNotAllowed\<rparr>
       (set_header ''Allow'' (join '', '' allow) w)"

definition writeNotFound :: "reply_writer \<Rightarrow> reply_writer" where
  "writeNotFound =
     writeOpenAIError 404
       \<lparr>oe_message = to_lower (status_text 404), oe_type = errTypeNotFound, oe_param = [],
        oe_code = code_text CodeNotFound\<rparr>"

section \<open>Rate limits\<close>

definition rateLimitClientMessage :: "goerr option \<Rightarrow> string" where
  "rateLimitClientMessage err =
     (let msg = walk_err err (\<lambda>de msg.
          (if d_code de \<noteq> CodeRateLimited then msg
           else let m = trim_space (d_message de) in if m \<noteq> [] then m else msg, True)) []
      in if msg \<noteq> [] then msg else ''rate limited by upstream'')"

definition openaiRateLimitError :: "goerr option \<Rightarrow> openaiError" where
  "openaiRateLimitError err =
     (let code = err_field err FieldCFCode
      in \<lparr>oe_message = rateLimitClientMessage err, oe_type = errTypeRateLimit, oe_param = [],
          oe_code = (if code = [] then code_text CodeRateLimited else code)\<rparr>)"

text \<open>The headers kept in the fields of an error. Go visits a map in no particular order; here it is
  the order of the association list.\<close>

fun set_extra_headers :: "string gomap \<Rightarrow> reply_writer \<Rightarrow> reply_writer" where
  "set_extra_headers [] w = w"
| "set_extra_headers ((k, v) # fs) w =
     set_extra_headers fs
       (if \<not> has_prefix k FieldHeaderPrefix then w
        else let name = trim_prefix k FieldHeaderPrefix
             in if name = [] then w
                else if trim_space v \<noteq> [] then set_header name (trim_space v) w else w)"

definition setRateLimitExtraHeaders :: "goerr option \<Rightarrow> reply_writer \<Rightarrow> reply_writer" where
  "setRateLimitExtraHeaders err w = walk_err err (\<lambda>de w. (set_extra_headers (d_fields de) w, True)) w"

definition set_unless_blank :: "string \<Rightarrow> string \<Rightarrow> reply_writer \<Rightarrow> reply_writer" where
  "set_unless_blank k v w = (if v \<noteq> [] then set_header k v w else w)"

definition writeRateLimitError :: "goerr option \<Rightarrow> reply_writer \<Rightarrow> bool \<times> reply_writer" where
  "writeRateLimitError err w =
     (if err = None \<or> code_of err \<noteq> CodeRateLimited then (False, w)
      else (True,
        writeJSON 429 (Some (marshal_openaiErrorBody \<lparr>eb_error = openaiRateLimitError err, eb_polypus = None\<rparr>))
          (setRateLimitExtraHeaders err
            (set_unless_blank ''Cf-Ray'' (err_field err FieldCFRay)
              (set_unless_blank ''Ratelimit'' (err_field err FieldRateLimit)
                (set_unless_blank ''Retry-After'' (err_field err FieldRetryAfter) w))))))"

section \<open>Interventions\<close>

definition JoinInterventions :: "string \<Rightarrow> string \<Rightarrow> string" where
  "JoinInterventions existing0 code0 =
     (let code = trim_space code0; existing = trim_space existing0
      in if code = [] then existing
         else if existing = [] then code
         else if list_ex (\<lambda>part. trim_space part = code) (split_char (CHR '','') existing) then existing
         else existing @ '','' @ code)"

definition InterventionHeader :: string where "InterventionHeader = ''X-Polypus-Intervention''"

definition joinInterventionHeader :: "string \<Rightarrow> reply_writer \<Rightarrow> reply_writer" where
  "joinInterventionHeader code0 w =
     (let code = trim_space code0
      in if code = [] then w
         else set_header InterventionHeader
                (JoinInterventions (header_get (rw_header w) InterventionHeader) code) w)"

text \<open>\<open>setIntervention\<close> on the header; the span is not modelled.\<close>

definition setIntervention :: "string \<Rightarrow> reply_writer \<Rightarrow> reply_writer" where
  "setIntervention code0 w =
     (let code = trim_space code0 in if code = [] then w else joinInterventionHeader code w)"

section \<open>Failures\<close>

definition writeUnavailableError :: "goerr option \<Rightarrow> string \<Rightarrow> string \<Rightarrow> reply_writer \<Rightarrow> reply_writer" where
  "writeUnavailableError err message upstreamName w =
     (let cls = ClassifyDialFailure err upstreamName;
          w1 = (if Unavailable err then set_header ''Retry-After'' (itoa (OpenTimeout div ns_second)) w else w)
      in writeJSON 503 (Some (marshal_openaiErrorBody
           \<lparr>eb_error = \<lparr>oe_message = message, oe_type = errTypeUnavailable, oe_param = [], oe_code = fc_layer cls\<rparr>,
            eb_polypus = Some \<lparr>pf_failure = Some \<lparr>fm_layer = fc_layer cls, fm_upstream = fc_upstream cls\<rparr>,
              pf_breaker = (if fc_breaker_state cls \<noteq> [] then Some (fc_breaker_state cls) else None),
              pf_intervention = []\<rparr>\<rparr>)) w1)"

definition openaiErrorType :: "int \<Rightarrow> string" where
  "openaiErrorType status =
     (if status = 401 then errTypeAuthentication
      else if status = 404 then errTypeNotFound
      else if status < 500 then errTypeInvalidRequest
      else errTypeAPI)"

definition writeErrorJSON :: "int \<Rightarrow> goerr option \<Rightarrow> string \<Rightarrow> reply_writer \<Rightarrow> reply_writer" where
  "writeErrorJSON status err pre w =
     (let e = \<lparr>oe_message = pre @ public_message err, oe_type = openaiErrorType status, oe_param = [],
               oe_code = code_text (code_of err)\<rparr>;
          intervention = err_field err FieldIntervention
      in if intervention \<noteq> []
         then writeJSON status (Some (marshal_openaiErrorBody \<lparr>eb_error = e, eb_polypus =
                Some \<lparr>pf_failure = None, pf_breaker = None, pf_intervention = intervention\<rparr>\<rparr>))
                (joinInterventionHeader intervention w)
         else writeJSON status (Some (marshal_openaiErrorBody \<lparr>eb_error = e, eb_polypus = None\<rparr>)) w)"

fun too_large :: "goerr \<Rightarrow> unit option" where
  "too_large (Typed MaxBytesErr) = Some ()"
| "too_large e = None"

definition writeHandlerError :: "goerr option \<Rightarrow> reply_writer \<Rightarrow> reply_writer" where
  "writeHandlerError err w =
     (if err = None \<or> ResponseWritten err then w
      else case writeRateLimitError err w of
        (True, w1) \<Rightarrow> w1
      | (False, w1) \<Rightarrow>
          if Unavailable err then writeUnavailableError err (public_message err) (ResolveUpstreamName err []) w1
          else writeErrorJSON
                 (if error_as too_large err \<noteq> None then 413 else int (http_status err)) err [] w1)"

text \<open>A failed dial; the hook for an unreachable upstream is \<open>nil\<close> or a test.\<close>

record dialFailure =
  df_err :: "goerr option"
  df_prefix :: string
  df_upstream :: string
  df_unreachable :: "(goerr option \<Rightarrow> bool) option"

definition isSwitchyardUnreachable :: "goerr option \<Rightarrow> bool" where
  "isSwitchyardUnreachable err \<longleftrightarrow>
     is_sentinel err ConnRefused \<or> is_sentinel err ConnReset \<or> error_as dns_flags err \<noteq> None"

definition writeUpstreamDialError :: "dialFailure \<Rightarrow> reply_writer \<Rightarrow> reply_writer" where
  "writeUpstreamDialError f w =
     (let err = df_err f
      in if err = None \<or> ResponseWritten err then w
         else case writeRateLimitError err w of
           (True, w1) \<Rightarrow> w1
         | (False, w1) \<Rightarrow>
             if Unavailable err \<or> (case df_unreachable f of None \<Rightarrow> False | Some u \<Rightarrow> u err)
             then writeUnavailableError err (df_prefix f @ public_message err) (df_upstream f) w1
             else writeErrorJSON (if as_domain err \<noteq> None then int (http_status err) else 502) err (df_prefix f) w1)"

text \<open>\<open>gatewayErr\<close> (\<open>chat_transport.go\<close>) keeps the code a cause has, and \<open>firstNonEmpty\<close>
  (\<open>models.go\<close>) is shared by the lists and the completions.\<close>

definition gatewayErr :: "goerr \<Rightarrow> string \<Rightarrow> string \<Rightarrow> derr" where
  "gatewayErr e op msg = err_wrap (Some e) (code_or (Some e) CodeUnavailable) op msg"

definition firstNonEmpty :: "string list \<Rightarrow> string" where
  "firstNonEmpty vals = (case find (\<lambda>v. trim_space v \<noteq> []) vals of None \<Rightarrow> [] | Some v \<Rightarrow> trim_space v)"

section \<open>What is sent\<close>

lemma write_header_fresh [simp]: "rw_sent w = None \<Longrightarrow> write_header s w = w\<lparr>rw_sent := Some (s, rw_header w)\<rparr>"
  by (simp add: write_header_def)

lemma write_header_sent [simp]: "rw_sent w = Some x \<Longrightarrow> write_header s w = w"
  by (simp add: write_header_def)

lemma set_header_sel [simp]:
  "rw_sent (set_header k v w) = rw_sent w" "rw_body (set_header k v w) = rw_body w"
  "rw_header (set_header k v w) = put (canonical_from True k) [v] (rw_header w)"
  by (simp_all add: set_header_def)

text \<open>A JSON reply on a writer that sent nothing: one status, the headers set so far with the content
  type, and the text with a newline.\<close>

lemma writeJSON_fresh:
  assumes "rw_sent w = None"
  shows "writeJSON s (Some raw) w =
    (let h = put (canonical_from True ''Content-Type'') [''application/json''] (rw_header w)
     in w\<lparr>rw_header := h, rw_sent := Some (s, h), rw_body := rw_body w @ raw @ ''\<newline>''\<rparr>)"
  using assms by (simp add: writeJSON_def write_bytes_def set_header_def write_header_def Let_def)

definition answered :: "reply_writer \<Rightarrow> int \<Rightarrow> openaiErrorBody \<Rightarrow> bool" where
  "answered w status b \<longleftrightarrow>
     (\<exists>h. rw_sent w = Some (status, h) \<and> header_get h ''Content-Type'' = ''application/json'') \<and>
     rw_body w = marshal_openaiErrorBody b @ ''\<newline>''"

lemma writeJSON_answered:
  "rw_sent w = None \<Longrightarrow> rw_body w = [] \<Longrightarrow> answered (writeJSON s (Some (marshal_openaiErrorBody b)) w) s b"
  by (simp add: writeJSON_fresh answered_def header_get_def map_of_put Let_def)

lemma set_unless_blank_sel [simp]:
  "rw_sent (set_unless_blank k v w) = rw_sent w" "rw_body (set_unless_blank k v w) = rw_body w"
  by (simp_all add: set_unless_blank_def)

lemma set_extra_headers_sel [simp]:
  "rw_sent (set_extra_headers fs w) = rw_sent w" "rw_body (set_extra_headers fs w) = rw_body w"
  by (induction fs w rule: set_extra_headers.induct) (auto simp: Let_def)

lemma walk_nodes_keeps:
  "(\<And>d s. P s \<Longrightarrow> P (fst (fn d s))) \<Longrightarrow> P s \<Longrightarrow> P (fst (walk_nodes fn ds s))"
proof (induction ds arbitrary: s)
  case (Cons d ds)
  show ?case
  proof (cases "fn d s")
    case (Pair s' more)
    with Cons.prems have "P s'" by (metis fst_conv)
    then show ?thesis using Pair Cons.IH [OF Cons.prems(1)] by (cases more) simp_all
  qed
qed simp

lemma extra_headers_sel [simp]:
  "rw_sent (setRateLimitExtraHeaders err w) = rw_sent w" "rw_body (setRateLimitExtraHeaders err w) = rw_body w"
  unfolding setRateLimitExtraHeaders_def walk_err_nodes
  by (rule walk_nodes_keeps [where P = "\<lambda>s. rw_sent s = rw_sent w"]; simp)
    (rule walk_nodes_keeps [where P = "\<lambda>s. rw_body s = rw_body w"]; simp)

lemma joinInterventionHeader_sel [simp]:
  "rw_sent (joinInterventionHeader c w) = rw_sent w" "rw_body (joinInterventionHeader c w) = rw_body w"
  by (simp_all add: joinInterventionHeader_def Let_def)

lemma http_status_error: "err \<noteq> None \<Longrightarrow> 400 \<le> http_status err \<and> http_status err < 600 \<and> http_status err \<noteq> 413"
  by (auto simp: http_status_def split: code.splits)

lemma http_status_429: "http_status err = 429 \<longleftrightarrow> err \<noteq> None \<and> code_of err = CodeRateLimited"
  by (auto simp: http_status_def split: code.splits)

text \<open>The three ways an error is answered.\<close>

lemma rate_limit_answered:
  assumes "rw_sent w = None" "rw_body w = []"
  shows "if err \<noteq> None \<and> code_of err = CodeRateLimited
     then fst (writeRateLimitError err w) \<and>
       answered (snd (writeRateLimitError err w)) 429 \<lparr>eb_error = openaiRateLimitError err, eb_polypus = None\<rparr>
     else writeRateLimitError err w = (False, w)"
  using assms by (simp add: writeRateLimitError_def writeJSON_answered)

lemma unavailable_answered:
  assumes "rw_sent w = None" "rw_body w = []"
  shows "\<exists>b. answered (writeUnavailableError err m u w) 503 b \<and> oe_type (eb_error b) = errTypeUnavailable \<and>
    oe_message (eb_error b) = m"
  using assms by (auto simp: writeUnavailableError_def Let_def intro!: exI writeJSON_answered)

lemma error_answered:
  assumes "rw_sent w = None" "rw_body w = []"
  shows "\<exists>b. answered (writeErrorJSON s err pre w) s b \<and> oe_type (eb_error b) = openaiErrorType s \<and>
    oe_message (eb_error b) = pre @ public_message err \<and> oe_code (eb_error b) = code_text (code_of err)"
  using assms by (auto simp: writeErrorJSON_def Let_def intro!: exI writeJSON_answered)

section \<open>Foreign text\<close>

text \<open>\<open>hide f\<close> replaces the text of every foreign error of a tree; the domain errors, the sentinels and
  the types stay.\<close>

fun hide :: "(string \<Rightarrow> string) \<Rightarrow> goerr \<Rightarrow> goerr" where
  "hide f (DomainErr (DErr c op m fs cause)) =
     DomainErr (DErr c op m fs (case cause of None \<Rightarrow> None | Some e \<Rightarrow> Some (hide f e)))"
| "hide f (Sent s) = Sent s"
| "hide f (Leaf t) = Leaf (f t)"
| "hide f (Wrapf t e) = Wrapf (f t) (hide f e)"
| "hide f (Joined t es) = Joined (f t) (map (hide f) es)"
| "hide f (Typed (NetErr t timeout)) = Typed (NetErr (f t) timeout)"
| "hide f (Typed (DNSErr t temporary timeout)) = Typed (DNSErr (f t) temporary timeout)"
| "hide f (Typed x) = Typed x"

fun hide_derr :: "(string \<Rightarrow> string) \<Rightarrow> derr \<Rightarrow> derr" where
  "hide_derr f (DErr c op m fs cause) = DErr c op m fs (map_option (hide f) cause)"

lemma hide_derr_sel [simp]:
  "d_code (hide_derr f d) = d_code d" "d_op (hide_derr f d) = d_op d" "d_message (hide_derr f d) = d_message d"
  "d_fields (hide_derr f d) = d_fields d" "d_cause (hide_derr f d) = map_option (hide f) (d_cause d)"
  "field_of (hide_derr f d) k = field_of d k"
  by (cases d; simp add: field_of_def)+

lemma err_nodes_hide: "err_nodes (hide f e) = map (hide f) (err_nodes e)"
proof (induction f e rule: hide.induct)
  case (1 f c op m fs cause)
  then show ?case by (cases cause) auto
next
  case (5 f t es)
  then have "map (err_nodes \<circ> hide f) es = map (map (hide f) \<circ> err_nodes) es" by (simp add: map_eq_conv)
  then show ?case by (simp only: hide.simps err_nodes.simps map_map map_concat list.map)
qed auto

lemma domain_of_hide: "domain_of (hide f e) = map_option (hide_derr f) (domain_of e)"
  by (cases "(f, e)" rule: hide.cases) (auto split: option.splits)

lemma hide_sent [simp]: "hide f e = Sent s \<longleftrightarrow> e = Sent s" "Sent s = hide f e \<longleftrightarrow> e = Sent s"
  by (cases "(f, e)" rule: hide.cases; auto)+

lemma hide_flags:
  "too_large (hide f e) = too_large e" "dns_flags (hide f e) = None \<longleftrightarrow> dns_flags e = None"
  by (cases "(f, e)" rule: hide.cases; simp)+

lemma domain_nodes_hide: "domain_nodes (Some (hide f e)) = map (hide_derr f) (domain_nodes (Some e))"
  by (induction "err_nodes e") (auto simp: domain_nodes_def err_nodes_hide List.map_filter_def filter_map comp_def domain_of_hide)

lemma is_sentinel_hide: "is_sentinel (Some (hide f e)) s = is_sentinel (Some e) s"
  by (auto simp: is_sentinel_def err_nodes_hide image_iff)

lemma error_as_hide:
  "(\<And>e. g (hide f e) = None \<longleftrightarrow> g e = None) \<Longrightarrow> error_as g (Some (hide f e)) = None \<longleftrightarrow> error_as g (Some e) = None"
  by (auto simp: error_as_def err_nodes_hide List.map_filter_def filter_map comp_def filter_empty_conv split: list.splits)

lemma as_domain_hide: "as_domain (Some (hide f e)) = map_option (hide_derr f) (as_domain (Some e))"
  by (simp add: as_domain_def domain_nodes_hide split: list.splits)

lemma code_of_hide: "code_of (Some (hide f e)) = code_of (Some e)"
  by (simp add: code_of_def code_or_def as_domain_hide split: option.splits)

lemma http_status_hide: "http_status (Some (hide f e)) = http_status (Some e)"
  by (simp add: http_status_def code_of_hide)

lemma public_parts_hide: "public_parts False (map_option (hide f) err) = public_parts False err"
proof (induction False err rule: public_parts.induct)
  case (1 err)
  show ?case
  proof (cases err)
    case (Some e)
    with 1 show ?thesis
      by (cases "as_domain (Some e)")
        (auto simp: public_parts.simps [of False "Some _"] as_domain_hide Let_def)
  qed (simp add: public_parts.simps)
qed

lemma public_message_hide: "500 \<le> http_status (Some e) \<Longrightarrow> public_message (Some (hide f e)) = public_message (Some e)"
  using public_parts_hide [of f "Some e"] by (simp add: public_message_def http_status_hide Let_def)

lemma walk_nodes_hide:
  "(\<And>d s. fn (hide_derr f d) s = fn d s) \<Longrightarrow> walk_nodes fn (map (hide_derr f) ds) s = walk_nodes fn ds s"
  by (induction ds arbitrary: s) (auto split: prod.splits bool.splits)

lemma walk_err_hide:
  "(\<And>d s. fn (hide_derr f d) s = fn d s) \<Longrightarrow> walk_err (Some (hide f e)) fn s = walk_err (Some e) fn s"
  by (simp add: walk_err_nodes domain_nodes_hide walk_nodes_hide)

lemma err_field_hide: "err_field (Some (hide f e)) k = err_field (Some e) k"
  by (simp add: err_field_def Let_def walk_err_hide)

lemmas hide_facts = is_sentinel_hide code_of_hide http_status_hide public_message_hide err_field_hide as_domain_hide

lemma Unavailable_hide: "Unavailable (Some (hide f e)) = Unavailable (Some e)"
  "ResponseWritten (Some (hide f e)) = ResponseWritten (Some e)"
  by (simp_all add: Unavailable_def ResponseWritten_def hide_facts)

lemma ClassifyDialFailure_hide: "ClassifyDialFailure (Some (hide f e)) u = ClassifyDialFailure (Some e) u"
  "ResolveUpstreamName (Some (hide f e)) u = ResolveUpstreamName (Some e) u"
  by (simp_all add: ClassifyDialFailure_def ResolveUpstreamName_def upstreamNameFromUnavailable_def Unavailable_hide
      isCloudflareDialFailure_def hasCloudflareMetadata_def hasCloudflareOp_def upstreamStatus_def hide_facts walk_err_hide Let_def)

lemma writeRateLimitError_hide: "writeRateLimitError (Some (hide f e)) w = writeRateLimitError (Some e) w"
  by (simp add: writeRateLimitError_def openaiRateLimitError_def rateLimitClientMessage_def setRateLimitExtraHeaders_def
      hide_facts walk_err_hide)

lemma writeUnavailableError_hide: "writeUnavailableError (Some (hide f e)) m u w = writeUnavailableError (Some e) m u w"
  by (simp add: writeUnavailableError_def ClassifyDialFailure_hide Unavailable_hide)

lemma writeErrorJSON_hide:
  "500 \<le> http_status (Some e) \<Longrightarrow> writeErrorJSON s (Some (hide f e)) pre w = writeErrorJSON s (Some e) pre w"
  by (simp add: writeErrorJSON_def hide_facts)

lemma isSwitchyardUnreachable_hide: "isSwitchyardUnreachable (Some (hide f e)) = isSwitchyardUnreachable (Some e)"
  by (simp add: isSwitchyardUnreachable_def hide_facts error_as_hide hide_flags)

section \<open>Properties\<close>

text \<open>C37: Every error is answered with one JSON error body, and its type tells the status: a client that
  switches on the type sees a rate limit exactly for 429, a missing key exactly for 401, a missing
  resource exactly for 404, a refused upstream only for 503, and an API error for the other server
  errors.\<close>

theorem reply_type_tells_the_status:
  assumes "err \<noteq> None" and "\<not> ResponseWritten err" and "df_err fl = err"
    and "rw_sent w = None" and "rw_body w = []"
    and "w' \<in> {writeHandlerError err w, writeUpstreamDialError fl w}"
  shows "\<exists>status b. answered w' status b \<and> 400 \<le> status \<and> status < 600 \<and>
    (oe_type (eb_error b) = errTypeRateLimit \<longleftrightarrow> status = 429) \<and>
    (oe_type (eb_error b) = errTypeAuthentication \<longleftrightarrow> status = 401) \<and>
    (oe_type (eb_error b) = errTypeNotFound \<longleftrightarrow> status = 404) \<and>
    (oe_type (eb_error b) = errTypeInvalidRequest \<longleftrightarrow> status < 500 \<and> status \<notin> {401, 404, 429}) \<and>
    (oe_type (eb_error b) = errTypeUnavailable \<longrightarrow> status = 503) \<and>
    (oe_type (eb_error b) \<in> {errTypeAPI, errTypeUnavailable} \<longleftrightarrow> 500 \<le> status)"
proof (cases "code_of err = CodeRateLimited")
  case True
  obtain w1 where "writeRateLimitError err w = (True, w1)"
    "answered w1 429 \<lparr>eb_error = openaiRateLimitError err, eb_polypus = None\<rparr>"
    using rate_limit_answered [OF assms(4,5), of err] True assms(1) by (cases "writeRateLimitError err w") auto
  then have "answered w' 429 \<lparr>eb_error = openaiRateLimitError err, eb_polypus = None\<rparr>"
    using assms by (auto simp: writeHandlerError_def writeUpstreamDialError_def Let_def)
  then show ?thesis by (force simp: openaiRateLimitError_def Let_def err_type_defs)
next
  case False
  then have n: "writeRateLimitError err w = (False, w)" using rate_limit_answered [OF assms(4,5), of err] by simp
  have s: "400 \<le> http_status err" "http_status err < 600" "http_status err \<noteq> 429"
    using http_status_error [OF assms(1)] http_status_429 [of err] False by auto
  have "(\<exists>m u. w' = writeUnavailableError err m u w) \<or>
      (\<exists>st pre. w' = writeErrorJSON st err pre w \<and> 400 \<le> st \<and> st < 600 \<and> st \<noteq> 429)"
    using assms(1,2,3,6) n s unfolding writeHandlerError_def writeUpstreamDialError_def Let_def
    by (auto split: option.splits if_splits)
  then show ?thesis
  proof (elim disjE exE)
    fix m u
    assume "w' = writeUnavailableError err m u w"
    with unavailable_answered [OF assms(4,5), of err m u] show ?thesis by (force simp: err_type_defs)
  next
    fix st pre
    assume st: "w' = writeErrorJSON st err pre w \<and> 400 \<le> st \<and> st < 600 \<and> st \<noteq> 429"
    with error_answered [OF assms(4,5), of st err pre] obtain b where "answered w' st b"
      "oe_type (eb_error b) = openaiErrorType st" by auto
    with st show ?thesis by (intro exI [of _ st] exI [of _ b]) (auto simp: openaiErrorType_def err_type_defs)
  qed
qed

text \<open>C36: The whole reply to a server error, headers and body, depends on no foreign text: whatever an
  upstream, a dial or a library put into its errors, the client reads the same bytes.\<close>

theorem server_error_reply_hides_foreign_text:
  assumes "500 \<le> http_status (Some e) \<or> code_of (Some e) = CodeRateLimited"
    and "df_err fl = Some e" and "df_unreachable fl \<in> {None, Some isSwitchyardUnreachable}"
  shows "writeHandlerError (Some (hide f e)) w = writeHandlerError (Some e) w \<and>
    writeUpstreamDialError (fl\<lparr>df_err := Some (hide f e)\<rparr>) w = writeUpstreamDialError fl w"
proof -
  have t: "error_as too_large (Some (hide f e)) = None \<longleftrightarrow> error_as too_large (Some e) = None"
    by (simp add: error_as_hide hide_flags)
  have r: "writeRateLimitError (Some e) w = (b, w1) \<Longrightarrow> \<not> b \<Longrightarrow> 500 \<le> http_status (Some e)" for b w1
    using assms(1) by (auto simp: writeRateLimitError_def split: if_splits)
  have "writeHandlerError (Some (hide f e)) w = writeHandlerError (Some e) w"
    using r by (auto simp: writeHandlerError_def writeRateLimitError_hide Unavailable_hide writeUnavailableError_hide
        ClassifyDialFailure_hide public_message_hide writeErrorJSON_hide http_status_hide t split: prod.splits bool.splits)
  moreover have "writeUpstreamDialError (fl\<lparr>df_err := Some (hide f e)\<rparr>) w = writeUpstreamDialError fl w"
    using r assms(2,3) by (auto simp: writeUpstreamDialError_def writeRateLimitError_hide Unavailable_hide writeUnavailableError_hide
        public_message_hide writeErrorJSON_hide http_status_hide as_domain_hide isSwitchyardUnreachable_hide Let_def
        split: prod.splits bool.splits)
  ultimately show ?thesis ..
qed

text \<open>Intervention codes are joined in first-seen order, each once.\<close>

definition joined_codes :: "string \<Rightarrow> string list" where
  "joined_codes s = (if trim_space s = [] then [] else map trim_space (split_char (CHR '','') (trim_space s)))"

lemma split_char_append: "split_char c (xs @ c # ys) = split_char c xs @ split_char c ys"
  by (induction xs) (auto split: list.splits)

lemma split_char_whole: "c \<notin> set s \<Longrightarrow> split_char c s = [s]"
  by (induction s) auto

lemma interventions_join_once:
  assumes "trim_space code = code" and "code \<noteq> []" and "CHR '','' \<notin> set code"
    and "trim_space (trim_space s @ '','' @ code) = trim_space s @ '','' @ code"
  shows "joined_codes (JoinInterventions s code) =
    (if code \<in> set (joined_codes s) then joined_codes s else joined_codes s @ [code])"
proof -
  have "split_char (CHR '','') (trim_space s @ CHR '','' # code) = split_char (CHR '','') (trim_space s) @ [code]"
    using assms(3) by (simp add: split_char_append split_char_whole [OF assms(3)])
  then show ?thesis
    using assms by (auto simp: joined_codes_def JoinInterventions_def Let_def list_ex_iff trim_space_idem image_iff split_char_whole [OF assms(3)])
qed

text \<open>The answer to a refusal of the breaker.\<close>

lemma refusal_reply:
  fixes name :: string and f :: dialFailure
  defines "e \<equiv> UnavailableError name ErrOpen"
  assumes "rw_sent w = None" "rw_body w = []"
  shows "\<exists>b. answered (writeUpstreamDialError (f\<lparr>df_err := Some e\<rparr>) w) 503 b \<and>
    oe_code (eb_error b) = LayerPolypusBreaker \<and>
    (\<exists>h. rw_sent (writeUpstreamDialError (f\<lparr>df_err := Some e\<rparr>) w) = Some (503, h) \<and> header_get h ''Retry-After'' = ''30'')"
proof -
  have u: "Unavailable (Some e)" "\<not> ResponseWritten (Some e)" "code_of (Some e) = CodeUnavailable"
    by (simp_all add: e_def Unavailable_def ResponseWritten_def UnavailableError_facts) (simp add: UnavailableError_def)
  have t: "itoa (OpenTimeout div ns_second) = ''30''" by code_simp
  have k: "canonical_from True ''Retry-After'' \<noteq> canonical_from True ''Content-Type''" by code_simp
  let ?w = "writeUpstreamDialError (f\<lparr>df_err := Some e\<rparr>) w" and ?c = "ClassifyDialFailure (Some e) (df_upstream f)"
  let ?b = "\<lparr>eb_error = \<lparr>oe_message = df_prefix f @ public_message (Some e), oe_type = errTypeUnavailable, oe_param = [],
      oe_code = fc_layer ?c\<rparr>, eb_polypus = Some \<lparr>pf_failure = Some \<lparr>fm_layer = fc_layer ?c, fm_upstream = fc_upstream ?c\<rparr>,
      pf_breaker = (if fc_breaker_state ?c \<noteq> [] then Some (fc_breaker_state ?c) else None), pf_intervention = []\<rparr>\<rparr>"
  have w: "?w = writeJSON 503 (Some (marshal_openaiErrorBody ?b)) (set_header ''Retry-After'' ''30'' w)"
    using u t by (simp add: writeUpstreamDialError_def writeRateLimitError_def writeUnavailableError_def Let_def)
  have "answered ?w 503 ?b" unfolding w using assms(2,3) by (intro writeJSON_answered) simp_all
  moreover have "fc_layer ?c = LayerPolypusBreaker" using classify_refusal [of ErrOpen name "df_upstream f"] by (simp add: e_def)
  moreover have "header_get (rw_header (set_header ''Content-Type'' v (set_header ''Retry-After'' ''30'' w))) ''Retry-After'' = ''30''" for v
    using k by (simp add: header_get_def map_of_put)
  ultimately show ?thesis
    unfolding w using assms(2,3) by (intro exI [of _ ?b]) (simp add: writeJSON_fresh Let_def)
qed

text \<open>C15: Once three calls in a row have been the backend's fault, every further call within the open
  time is refused and the function is not run: the world and the board stay as they are. The handler that
  reports the refused dial answers 503 with \<open>Retry-After: 30\<close> and the error code of the breaker.\<close>

theorem breaker_refuses_after_three_faults:
  assumes "failsafe_contract api"
    and "\<not> fail_run ConsecutiveFailuresTrip 0 (outcomes cs w)"
    and "fail_run ConsecutiveFailuresTrip 0 (outcomes (cs @ [c]) w)"
    and "run_calls api clock name (cs @ [c]) (Some NewBoard, w) = (es, bd, w1)"
    and "clock w1 \<le> clock w2" and "clock w2 < clock w1 + OpenTimeout"
    and "rw_sent rw = None" and "rw_body rw = []"
  shows "\<exists>e. Execute api clock ctx name fn (bd, w2) = (Some e, bd, w2) \<and>
    (\<exists>b h. answered (writeUpstreamDialError (f\<lparr>df_err := Some e\<rparr>) rw) 503 b \<and> oe_code (eb_error b) = ''polypus_breaker'' \<and>
      rw_sent (writeUpstreamDialError (f\<lparr>df_err := Some e\<rparr>) rw) = Some (503, h) \<and> header_get h ''Retry-After'' = ''30'')"
  using three_faults_refuse [OF assms(1-6), of ctx fn] refusal_reply [OF assms(7,8), of "normalizeName name" f]
  by (simp add: LayerPolypusBreaker_def)

section \<open>Witnesses\<close>

text \<open>Three timeouts in a row on the gateway's own budget.\<close>

theorem breaker_refuses_after_three_faults_witness:
  "\<exists>es bd w1 e. run_calls count_api int ''a'' (timeout_calls @ [(None, faulty CodeTimeout)])
      (Some NewBoard, 0) = (es, bd, w1) \<and>
    Execute count_api int None ''a'' (plain_call (faulty CodeInternal)) (bd, w1) = (Some e, bd, w1) \<and>
    (\<exists>h. rw_sent (writeUpstreamDialError \<lparr>df_err = Some e, df_prefix = [], df_upstream = ''a'', df_unreachable = None\<rparr> fresh_writer) =
      Some (503, h) \<and> header_get h ''Retry-After'' = ''30'')"
proof -
  obtain es bd w1 where r: "run_calls count_api int ''a'' (timeout_calls @ [(None, faulty CodeTimeout)])
      (Some NewBoard, 0) = (es, bd, w1)"
    by (metis prod_cases3)
  let ?f = "\<lparr>df_err = None, df_prefix = [], df_upstream = ''a'', df_unreachable = None\<rparr>"
  have f: "?f\<lparr>df_err := Some e\<rparr> = \<lparr>df_err = Some e, df_prefix = [], df_upstream = ''a'', df_unreachable = None\<rparr>" for e by simp
  have "\<exists>e. Execute count_api int None ''a'' (plain_call (faulty CodeInternal)) (bd, w1) = (Some e, bd, w1) \<and>
    (\<exists>b h. answered (writeUpstreamDialError (?f\<lparr>df_err := Some e\<rparr>) fresh_writer) 503 b \<and> oe_code (eb_error b) = ''polypus_breaker'' \<and>
      rw_sent (writeUpstreamDialError (?f\<lparr>df_err := Some e\<rparr>) fresh_writer) = Some (503, h) \<and> header_get h ''Retry-After'' = ''30'')"
    by (rule breaker_refuses_after_three_faults [OF count_api_contract _ _ r])
      (simp_all add: timeout_calls_def faulty_def backendFault_iff CallerBudgetFrom_def
        ConsecutiveFailuresTrip_def OpenTimeout_def ns_defs fresh_writer_def)
  with r show ?thesis unfolding f by blast
qed

definition dial_error :: "string \<Rightarrow> goerr" where
  "dial_error t = DomainErr (DErr CodeUnavailable ''dial'' ''upstream failed'' [(''cf_ray'', ''r1'')] (Some (Leaf t)))"

definition plain_dial :: "goerr option \<Rightarrow> dialFailure" where
  "plain_dial err = \<lparr>df_err = err, df_prefix = [], df_upstream = ''ollama'', df_unreachable = None\<rparr>"

theorem reply_type_tells_the_status_witness:
  "\<exists>status b. answered (writeHandlerError (Some (dial_error ''secret'')) fresh_writer) status b \<and> 500 \<le> status \<and>
     oe_type (eb_error b) = errTypeAPI"
proof -
  let ?w = "writeHandlerError (Some (dial_error ''secret'')) fresh_writer"
  have s: "map_option fst (rw_sent ?w) = Some 502" by code_simp
  have "\<not> ResponseWritten (Some (dial_error ''secret''))" by code_simp
  then obtain status b where a: "answered ?w status b" "oe_type (eb_error b) = errTypeUnavailable \<longrightarrow> status = 503"
    "oe_type (eb_error b) \<in> {errTypeAPI, errTypeUnavailable} \<longleftrightarrow> 500 \<le> status"
    using reply_type_tells_the_status [of "Some (dial_error ''secret'')" "plain_dial (Some (dial_error ''secret''))" fresh_writer ?w]
    by (auto simp: plain_dial_def fresh_writer_def)
  moreover have "status = 502" using a(1) s by (auto simp: answered_def)
  ultimately show ?thesis by force
qed

theorem server_error_reply_hides_foreign_text_witness:
  "writeHandlerError (Some (hide (\<lambda>_. ''x'') (dial_error ''secret''))) fresh_writer =
     writeHandlerError (Some (dial_error ''secret'')) fresh_writer \<and>
   hide (\<lambda>_. ''x'') (dial_error ''secret'') \<noteq> dial_error ''secret''"
proof -
  have "500 \<le> http_status (Some (dial_error ''secret''))" by code_simp
  with server_error_reply_hides_foreign_text [of "dial_error ''secret''" "plain_dial (Some (dial_error ''secret''))"]
  show ?thesis by (simp add: plain_dial_def) (simp add: dial_error_def)
qed

end
