(* ===== verification/Access.thy ===== *)
theory Access
  imports Access_Keys Responses
begin

text \<open>
  \<open>internal/gateway/access.go\<close>: the handler in front of the gateway that admits a request by the key
  store. \<open>access_decide\<close> is its decision, an answer or the request to hand on, and
  \<open>access_ServeHTTP\<close> the handler around an inner gateway. The properties compose it with the key
  store of \<open>Access_Keys\<close>: what reaches the gateway while keys exist, that an unreadable store
  refuses, and that the ways of sending a key agree.
\<close>

section \<open>Requests\<close>

record in_request =
  in_method :: string
  in_path :: string
  in_header :: header

definition pathHealth :: string where "pathHealth = ''/health''"

definition accessExempt :: "in_request \<Rightarrow> bool" where
  "accessExempt r \<longleftrightarrow> in_method r \<in> {''GET'', ''HEAD''} \<and> in_path r = pathHealth"

section \<open>The credential\<close>

definition bearerOrBasicToken :: "string \<Rightarrow> string" where
  "bearerOrBasicToken header0 =
     (let header = trim_space header0
      in if header = [] then []
         else if length header > 7 \<and> equal_fold (take 7 header) ''bearer '' then trim_space (drop 7 header)
         else if length header > 6 \<and> equal_fold (take 6 header) ''basic '' then
           (case base64_decode std_alphabet (trim_space (drop 6 header)) of
              None \<Rightarrow> []
            | Some dec \<Rightarrow>
                (case cut dec (CHR '':'') of
                   (user, None) \<Rightarrow> []
                 | (user, Some pass) \<Rightarrow>
                     if trim_space pass \<noteq> [] then trim_space pass else trim_space user))
         else [])"

definition extractAccessCredential :: "in_request \<Rightarrow> string" where
  "extractAccessCredential r =
     (let k = trim_space (header_get (in_header r) ''X-Api-Key'')
      in if k \<noteq> [] then k else bearerOrBasicToken (header_get (in_header r) ''Authorization''))"

section \<open>The handler\<close>

definition writeAccessUnauthorized :: "reply_writer \<Rightarrow> reply_writer" where
  "writeAccessUnauthorized w =
     writeOpenAIError 401
       \<lparr>oe_message = ''gateway access key required'', oe_type = errTypeInvalidRequest, oe_param = [],
        oe_code = code_text CodeUnauthorized\<rparr>
       (set_header ''WWW-Authenticate'' ''Bearer realm=\"polypus\", Basic realm=\"polypus\"'' w)"

definition drop_credentials :: "in_request \<Rightarrow> in_request" where
  "drop_credentials r = r\<lparr>in_header := del_header ''X-Api-Key'' (del_header ''Authorization'' (in_header r))\<rparr>"

text \<open>The key store is \<open>None\<close> when the gateway runs without one. The store error is wrapped as the
  handler wraps it; \<open>Inl\<close> is the finished answer, \<open>Inr\<close> the request for the inner gateway.\<close>

definition access_decide ::
  "hash_api \<Rightarrow> lock_env \<Rightarrow> meddle list \<Rightarrow> go_context \<Rightarrow> in_request \<Rightarrow> reply_writer \<Rightarrow> key_store option
   \<Rightarrow> (reply_writer + in_request) \<times> key_store option" where
  "access_decide h env mid ctx r w keys =
     (case keys of
        None \<Rightarrow> (Inr r, None)
      | Some s \<Rightarrow>
          (case Authorize h env mid (Some ctx) (extractAccessCredential r) s of
             ((unlocked, err), s') \<Rightarrow>
               let unauthorized = (code_of err = CodeUnauthorized)
               in (if err \<noteq> None \<and> \<not> unauthorized then
                     Inl (writeHandlerError (Some (DomainErr (err_wrap err CodeNotReady
                       ''gateway.accessProtector'' ''access key store unreadable''))) w)
                   else if accessExempt r then Inr r
                   else if unauthorized then Inl (writeAccessUnauthorized w)
                   else if \<not> unlocked then Inr (drop_credentials r)
                   else Inr r, Some s')))"

definition access_ServeHTTP ::
  "hash_api \<Rightarrow> lock_env \<Rightarrow> meddle list \<Rightarrow> go_context \<Rightarrow> (in_request \<Rightarrow> reply_writer \<Rightarrow> reply_writer) option
   \<Rightarrow> in_request \<Rightarrow> reply_writer \<times> key_store option \<Rightarrow> reply_writer \<times> key_store option" where
  "access_ServeHTTP h env mid ctx gw r = (\<lambda>(w, keys).
     (case gw of
        None \<Rightarrow> (http_error (status_text 500) 500 w, keys)
      | Some g \<Rightarrow>
          (case access_decide h env mid ctx r w keys of
             (Inl w', keys') \<Rightarrow> (w', keys')
           | (Inr r', keys') \<Rightarrow> (g r' w, keys'))))"

section \<open>Headers and padding\<close>

lemma canonical_names [simp]:
  "canonical_from True ''X-Api-Key'' = ''X-Api-Key''" "canonical_from True ''Authorization'' = ''Authorization''"
  by code_simp+

lemma header_get_del: "header_get (del_header k h) k' =
    (if canonical_from True k' = canonical_from True k then [] else header_get h k')"
  by (simp add: header_get_def del_header_def delete_conv)

lemma dropped_credentials:
  "header_get (in_header (drop_credentials r)) ''X-Api-Key'' = []"
  "header_get (in_header (drop_credentials r)) ''Authorization'' = []"
  "extractAccessCredential (drop_credentials r) = []"
  by (simp_all add: drop_credentials_def header_get_del extractAccessCredential_def bearerOrBasicToken_def)

text \<open>The padded encoding of \<open>base64.StdEncoding\<close>, which clients of Basic authentication send.\<close>

definition base64_padded :: "string \<Rightarrow> string \<Rightarrow> string" where
  "base64_padded alphabet s =
     (let t = base64_encode alphabet s in t @ replicate ((4 - length t mod 4) mod 4) (CHR ''=''))"

lemma sextets_length_mod: "length (sextets bs) mod 4 \<noteq> 1"
  by (induction bs rule: sextets.induct) auto

lemma has_suffix_snoc: "has_suffix (xs @ [c]) [d] \<longleftrightarrow> c = d"
  by (auto simp: has_suffix_iff)

lemma drop_padding_pads:
  assumes "CHR ''='' \<notin> set t" and "n \<le> 2"
  shows "drop_padding (t @ replicate n (CHR ''='')) = t"
proof -
  consider "n = 0" | "n = 1" | "n = 2" using assms(2) by linarith
  then show ?thesis
  proof cases
    case 1
    then show ?thesis using assms(1) by (auto simp: drop_padding_def has_suffix_iff)
  next
    case 2
    have "\<not> has_suffix (t @ ''='') ''==''"
    proof
      assume "has_suffix (t @ ''='') ''==''"
      then obtain u where "t @ ''='' = (u @ ''='') @ ''=''" by (auto simp: has_suffix_iff)
      then have "t = u @ ''=''" by (simp only: append_same_eq)
      with assms(1) show False by simp
    qed
    with 2 show ?thesis by (simp add: drop_padding_def has_suffix_snoc)
  next
    case 3
    then have "has_suffix (t @ replicate n (CHR ''='')) ''==''" by (auto simp: has_suffix_iff numeral_2_eq_2)
    with 3 show ?thesis by (simp add: drop_padding_def)
  qed
qed

lemma pad_length: "(n + (4 - n mod 4) mod 4) mod 4 = (0::nat)" "n mod 4 \<noteq> 1 \<Longrightarrow> (4 - n mod 4) mod 4 \<le> (2::nat)"
proof -
  have "n mod 4 = 0 \<or> n mod 4 = 1 \<or> n mod 4 = 2 \<or> n mod 4 = 3" by linarith
  moreover have "(n + k) mod 4 = (n mod 4 + k) mod 4" for k by (simp add: mod_add_left_eq)
  ultimately show "(n + (4 - n mod 4) mod 4) mod 4 = (0::nat)" "n mod 4 \<noteq> 1 \<Longrightarrow> (4 - n mod 4) mod 4 \<le> (2::nat)" by auto
qed

lemma padded_round_trip: "base64_decode std_alphabet (base64_padded std_alphabet s) = Some s"
proof -
  let ?t = "base64_encode std_alphabet s"
  have a: "set ?t \<subseteq> set std_alphabet" by (rule base64_alphabet) simp
  have e: "CHR ''='' \<notin> set std_alphabet" "\<forall>c \<in> set std_alphabet. \<not> line_end c" "\<not> line_end (CHR ''='')" by code_simp+
  have m: "length ?t mod 4 \<noteq> 1" using sextets_length_mod [of "map of_char s"] by (simp add: base64_encode_def)
  have "filter (\<lambda>c. \<not> line_end c) (base64_padded std_alphabet s) = base64_padded std_alphabet s"
    using a e(2,3) by (intro filter_True) (auto simp: base64_padded_def Let_def)
  moreover have "length (base64_padded std_alphabet s) mod 4 = 0"
    by (simp add: base64_padded_def Let_def pad_length)
  moreover have "drop_padding (base64_padded std_alphabet s) = ?t"
    unfolding base64_padded_def Let_def
  proof (rule drop_padding_pads)
    show "CHR ''='' \<notin> set ?t" using a e(1) by blast
    show "(4 - length ?t mod 4) mod 4 \<le> 2" using m by (rule pad_length)
  qed
  ultimately show ?thesis by (simp add: base64_decode_def base64_round_trip)
qed

section \<open>Reading a credential\<close>

lemma lower_char_graphic: "graphic (lower_char c) \<Longrightarrow> graphic c"
  by (auto simp: lower_char_def graphic_def of_char_less_eq split: if_splits)

lemma lead_seq_blank:
  assumes "lead_seq qs s = None" "s \<noteq> []" and c: "\<And>q. q \<in> set qs \<Longrightarrow> c \<in> set q \<Longrightarrow> q = [c]"
  shows "lead_seq qs (s @ c # t) = None"
  unfolding lead_seq_None_iff
proof (intro ballI impI notI)
  fix q assume q: "q \<in> set qs" "q \<noteq> []" "has_prefix (s @ c # t) q"
  then obtain u where u: "s @ c # t = q @ u" by (auto elim: has_prefixE)
  have s: "\<not> has_prefix s q" using assms(1) q(1,2) by (auto simp: lead_seq_None_iff)
  from u consider v where "s = q @ v" | v where "q = s @ v" "v @ u = c # t"
    by (auto simp: append_eq_append_conv2)
  then show False
  proof cases
    case 2
    with s have "v \<noteq> []" by (cases v) auto
    with 2 have "c \<in> set q" by (cases v) auto
    from c [OF q(1) this] 2(1) \<open>v \<noteq> []\<close> assms(2) show False by (cases s) auto
  qed (use s in simp)
qed

lemma blank_seqs: "q \<in> set (map rev white_seqs) \<Longrightarrow> CHR '' '' \<in> set q \<Longrightarrow> q = '' ''"
  by (auto simp: white_seqs_def)

text \<open>A scheme, a blank and a trimmed value: the header is trimmed as it stands.\<close>

lemma trim_space_scheme:
  assumes "graphic (hd a)" "a \<noteq> []" "trim_space b = b" "b \<noteq> []"
  shows "trim_space (a @ CHR '' '' # b) = a @ CHR '' '' # b"
proof (rule trim_space_fixI)
  show "lead_seq white_seqs (a @ CHR '' '' # b) = None"
    using assms(1,2) white_seqs_not_graphic by (intro lead_seq_graphic) auto
  have "lead_seq (map rev white_seqs) (rev b @ CHR '' '' # rev a) = None"
    using trim_space_done(2) [of b] assms(3,4) blank_seqs by (intro lead_seq_blank) auto
  then show "lead_seq (map rev white_seqs) (rev (a @ CHR '' '' # b)) = None" by simp
qed

lemma scheme_facts:
  assumes "equal_fold a b" "b \<noteq> []" "graphic (hd (to_lower b))"
  shows "length a = length b" "a \<noteq> []" "graphic (hd a)"
proof -
  have e: "map lower_char a = to_lower b" using assms(1) by (simp add: equal_fold_def to_lower_def)
  then have "length (map lower_char a) = length (to_lower b)" by simp
  then show l: "length a = length b" by (simp add: to_lower_def)
  then show "a \<noteq> []" using assms(2) by auto
  then have "lower_char (hd a) = hd (to_lower b)" using e by (metis hd_map)
  with assms(3) show "graphic (hd a)" by (simp add: lower_char_graphic)
qed

lemma equal_fold_append: "equal_fold a b \<Longrightarrow> equal_fold (a @ c) (b @ c)"
  by (simp add: equal_fold_def to_lower_def)

lemma bearer_token:
  assumes "equal_fold scheme ''bearer''" "trim_space key = key" "key \<noteq> []"
  shows "bearerOrBasicToken (scheme @ '' '' @ key) = key"
proof -
  have s: "length scheme = 6" "scheme \<noteq> []" "graphic (hd scheme)"
    using scheme_facts [OF assms(1)] by (simp_all add: to_lower_def lower_char_def graphic_def)
  then have "take 7 (scheme @ '' '' @ key) = scheme @ '' ''" "drop 7 (scheme @ '' '' @ key) = key" by simp_all
  moreover have "equal_fold (scheme @ '' '') ''bearer ''" using equal_fold_append [OF assms(1), of "'' ''"] by simp
  moreover have "trim_space (scheme @ '' '' @ key) = scheme @ '' '' @ key" using trim_space_scheme [OF s(3,2) assms(2,3)] by simp
  ultimately show ?thesis using s(1,2) assms(2,3) by (simp add: bearerOrBasicToken_def Let_def)
qed

lemma basic_token:
  assumes "equal_fold scheme ''basic''" "trim_space key = key" "key \<noteq> []" "CHR '':'' \<notin> set user"
  shows "bearerOrBasicToken (scheme @ '' '' @ base64_padded std_alphabet (user @ '':'' @ key)) = key"
proof -
  let ?b = "base64_padded std_alphabet (user @ '':'' @ key)"
  have s: "length scheme = 5" "scheme \<noteq> []" "graphic (hd scheme)"
    using scheme_facts [OF assms(1)] by (simp_all add: to_lower_def lower_char_def graphic_def)
  have b: "\<forall>c \<in> set ?b. graphic c"
    using base64_graphic [of std_alphabet "user @ '':'' @ key"] by (auto simp: base64_padded_def Let_def graphic_def)
  have n: "?b \<noteq> []" by (simp add: base64_padded_def Let_def)
  have t: "trim_space ?b = ?b" using b n by (intro trim_space_id) auto
  have d: "take 6 (scheme @ '' '' @ ?b) = scheme @ '' ''" "drop 6 (scheme @ '' '' @ ?b) = ?b" using s(1) by simp_all
  have e: "equal_fold (scheme @ '' '') ''basic ''" using equal_fold_append [OF assms(1), of "'' ''"] by simp
  have "trim_space (scheme @ '' '' @ ?b) = scheme @ '' '' @ ?b" using trim_space_scheme [OF s(3,2) t n] by simp
  moreover have "\<not> equal_fold (take 7 (scheme @ '' '' @ ?b)) ''bearer ''"
  proof
    assume "equal_fold (take 7 (scheme @ '' '' @ ?b)) ''bearer ''"
    then have "take 6 (map lower_char (take 7 (scheme @ '' '' @ ?b))) = take 6 (to_lower ''bearer '')"
      unfolding equal_fold_def to_lower_def by (rule arg_cong)
    then have "map lower_char (take 6 (scheme @ '' '' @ ?b)) = take 6 (to_lower ''bearer '')"
      by (simp only: take_map take_take) simp
    then have x: "map lower_char (scheme @ '' '') = take 6 (to_lower ''bearer '')" by (simp only: d(1))
    have "map lower_char (scheme @ '' '') = to_lower ''basic ''" using e by (simp only: equal_fold_def to_lower_def)
    from trans [OF this [symmetric] x] have "to_lower ''basic '' = take 6 (to_lower ''bearer '')" .
    moreover have "to_lower ''basic '' \<noteq> take 6 (to_lower ''bearer '')" by code_simp
    ultimately show False by contradiction
  qed
  moreover have "cut (user @ '':'' @ key) (CHR '':'') = (user, Some key)" using assms(4) by simp
  ultimately show ?thesis using s(1) n d e t assms(2,3)
    by (simp add: bearerOrBasicToken_def Let_def padded_round_trip)
qed

text \<open>What the decision hands on.\<close>

lemma access_decide_admits:
  assumes "(key_step h Q)\<^sup>*\<^sup>* s0 s" and "ks_cache s0 = None" and "honest_disk s"
    and "\<forall>m \<in> set mid. visible s m"
    and "access_decide h env mid ctx r w (Some s) = (Inr r', keys)"
  shows "(r' = r \<and> accessExempt r) \<or>
    (\<exists>p. (current_file s = Some p \<or> current_file (fold meddled mid s) = Some p) \<and>
       (if kp_keys p = [] then r' = r
        else (\<exists>k old. verifyIn h p (extractAccessCredential r) = Inr (k, old)) \<and>
          r' = drop_credentials r \<and> extractAccessCredential r' = []))"
proof -
  obtain unlocked err s' where a: "Authorize h env mid (Some ctx) (extractAccessCredential r) s = ((unlocked, err), s')"
    by (cases "Authorize h env mid (Some ctx) (extractAccessCredential r) s") auto
  from Authorize_facts [OF a key_steps_coherent [OF assms(1,2)] assms(4,3)]
  have served: "err = None \<Longrightarrow> \<exists>p. (current_file s = Some p \<or> current_file (fold meddled mid s) = Some p) \<and>
       (if unlocked then kp_keys p = []
        else kp_keys p \<noteq> [] \<and> (\<exists>k old. verifyIn h p (extractAccessCredential r) = Inr (k, old)))" by blast
  from assms(5) a consider "r' = r" "accessExempt r" | "err = None" "\<not> unlocked" "r' = drop_credentials r"
    | "err = None" "unlocked" "r' = r"
    by (auto simp: access_decide_def Let_def split: if_splits)
  then show ?thesis
  proof cases
    case 2
    with served obtain p k old where "current_file s = Some p \<or> current_file (fold meddled mid s) = Some p" "kp_keys p \<noteq> []"
      "verifyIn h p (extractAccessCredential r) = Inr (k, old)" by auto
    with 2 show ?thesis using dropped_credentials(3) by (intro disjI2 exI [of _ p]) auto
  next
    case 3
    with served show ?thesis by (metis (full_types))
  qed simp
qed

section \<open>Properties\<close>

text \<open>C34: What reaches the gateway behind a key store, whatever the store was used for before, whatever is
  cached and whatever other processes wrote meanwhile: the liveness probe; or a request while the
  key file, as it was at the stat or at the read, holds no key; or a request whose credential
  verifies in that file, and that one goes on without the headers that carried it. The same store
  with the handler around any gateway: nothing else is handed on.\<close>

theorem only_admitted_requests_reach_the_gateway:
  assumes "(key_step h Q)\<^sup>*\<^sup>* s0 s" and "ks_cache s0 = None" and "honest_disk s"
    and "\<forall>m \<in> set mid. visible s m"
    and "access_decide h env mid ctx r w (Some s) = (Inr r', keys)"
  shows "(r' = r \<and> accessExempt r) \<or>
    (\<exists>p. (current_file s = Some p \<or> current_file (fold meddled mid s) = Some p) \<and>
       (if kp_keys p = [] then r' = r
        else (\<exists>k old. verifyIn h p (extractAccessCredential r) = Inr (k, old)) \<and>
          r' = drop_credentials r \<and> extractAccessCredential r' = []))"
  by (rule access_decide_admits [OF assms])

text \<open>A key store that cannot be read refuses every request, the liveness probe too: the inner
  gateway is not called and the answer is a 503.\<close>

theorem unreadable_store_fails_closed:
  assumes "Authorize h env mid (Some ctx) (extractAccessCredential r) s = ((unlocked, Some e), s')"
    and "code_of (Some e) \<noteq> CodeUnauthorized"
    and "\<not> ResponseWritten (Some e)" and "error_as too_large (Some e) = None"
    and "rw_sent w = None" and "rw_body w = []"
  shows "\<exists>w' b. access_ServeHTTP h env mid ctx (Some g) r (w, Some s) = (w', Some s') \<and> answered w' 503 b"
proof -
  let ?e = "Some (DomainErr (err_wrap (Some e) CodeNotReady ''gateway.accessProtector'' ''access key store unreadable''))"
  have "access_ServeHTTP h env mid ctx (Some g) r (w, Some s) = (writeHandlerError ?e w, Some s')"
    using assms(1,2) by (simp add: access_ServeHTTP_def access_decide_def Let_def)
  moreover have "\<exists>b. answered (writeHandlerError ?e w) 503 b"
  proof -
    have n: "\<not> ResponseWritten ?e" "error_as too_large ?e = None"
      using assms(3,4) by (auto simp: ResponseWritten_def is_sentinel_def error_as_def err_wrap_def List.map_filter_def
          split: list.splits if_splits)
    have "writeRateLimitError ?e w = (False, w)" "http_status ?e = 503" by (simp_all add: writeRateLimitError_def http_status_def)
    then show ?thesis
      using n unavailable_answered [OF assms(5,6)] error_answered [OF assms(5,6), of "503" ?e "[]"]
      by (fastforce simp: writeHandlerError_def)
  qed
  ultimately show ?thesis by blast
qed

text \<open>A refused request is told which schemes the gateway takes, with status 401, and the gateway is
  not called.\<close>

theorem refused_request_is_challenged:
  assumes "Authorize h env mid (Some ctx) (extractAccessCredential r) s = ((unlocked, Some e), s')"
    and "code_of (Some e) = CodeUnauthorized" and "\<not> accessExempt r"
    and "rw_sent w = None" and "rw_body w = []"
  shows "\<exists>w' b. access_ServeHTTP h env mid ctx (Some g) r (w, Some s) = (w', Some s') \<and> answered w' 401 b \<and>
    header_get (rw_header w') ''WWW-Authenticate'' \<noteq> [] \<and> oe_type (eb_error b) = errTypeInvalidRequest"
proof -
  have "access_ServeHTTP h env mid ctx (Some g) r (w, Some s) = (writeAccessUnauthorized w, Some s')"
    using assms(1-3) by (simp add: access_ServeHTTP_def access_decide_def Let_def)
  moreover have "canonical_from True ''WWW-Authenticate'' \<noteq> canonical_from True ''Content-Type''" by code_simp
  then have "header_get (rw_header (writeAccessUnauthorized w)) ''WWW-Authenticate'' \<noteq> []"
    using assms(4) by (simp add: writeAccessUnauthorized_def writeOpenAIError_def writeJSON_fresh header_get_def map_of_put Let_def)
  moreover have "answered (writeAccessUnauthorized w) 401
      \<lparr>eb_error = \<lparr>oe_message = ''gateway access key required'', oe_type = errTypeInvalidRequest, oe_param = [],
        oe_code = code_text CodeUnauthorized\<rparr>, eb_polypus = None\<rparr>"
    unfolding writeAccessUnauthorized_def writeOpenAIError_def using assms(4,5) by (intro writeJSON_answered) simp_all
  ultimately show ?thesis by force
qed

text \<open>The three ways to send a key agree: a key in \<open>X-Api-Key\<close>, as a bearer token in any case, or as the
  password of Basic authentication under any user name, is read as the same credential.\<close>

theorem credential_forms_agree:
  assumes "trim_space key = key" and "key \<noteq> []" and "CHR '':'' \<notin> set user"
    and "equal_fold scheme ''bearer''" and "equal_fold basic ''basic''"
  shows "extractAccessCredential (r\<lparr>in_header := [(''X-Api-Key'', [key])]\<rparr>) = key \<and>
    extractAccessCredential (r\<lparr>in_header := [(''Authorization'', [scheme @ '' '' @ key])]\<rparr>) = key \<and>
    extractAccessCredential
      (r\<lparr>in_header := [(''Authorization'', [basic @ '' '' @ base64_padded std_alphabet (user @ '':'' @ key)])]\<rparr>) = key"
proof (intro conjI)
  show "extractAccessCredential (r\<lparr>in_header := [(''X-Api-Key'', [key])]\<rparr>) = key"
    using assms(1,2) by (simp add: extractAccessCredential_def header_get_def del: canonical_from.simps)
  show "extractAccessCredential (r\<lparr>in_header := [(''Authorization'', [scheme @ '' '' @ key])]\<rparr>) = key"
    using bearer_token [OF assms(4,1,2)] by (simp add: extractAccessCredential_def header_get_def del: canonical_from.simps)
  show "extractAccessCredential
      (r\<lparr>in_header := [(''Authorization'', [basic @ '' '' @ base64_padded std_alphabet (user @ '':'' @ key)])]\<rparr>) = key"
    using basic_token [OF assms(5,1,2,3)] by (simp add: extractAccessCredential_def header_get_def del: canonical_from.simps)
qed

section \<open>Witnesses\<close>

definition key_request :: in_request where
  "key_request = \<lparr>in_method = ''GET'', in_path = ''/v1/models'', in_header = [(''Authorization'', [''Bearer ppk.61.x''])]\<rparr>"

definition garbled_keys :: key_store where
  "garbled_keys = (sample_keys [])\<lparr>ks_disk :=
     \<lparr>dk_files = [(''/keys'', Garbled \<lparr>fi_id = 1, fi_mtime = 5, fi_size = 3\<rparr>)], dk_temps = [], dk_next = 0, dk_unsynced = [], dk_stale = [], dk_faults = []\<rparr>\<rparr>"

lemma key_request_credential: "extractAccessCredential key_request = ''ppk.61.x''"
  by code_simp

lemma sample_authorize:
  "\<exists>s'. Authorize sample_hash free_lock [] (Some live_context) ''ppk.61.x'' (sample_keys [alice]) = ((False, None), s')"
  using sample_key by (simp add: Authorize_def readCached_def key_call_def os_call_def key_file_def look_def key_read_def versioned_def sample_keys_def)

theorem only_admitted_requests_reach_the_gateway_witness:
  "\<exists>keys. access_decide sample_hash free_lock [] live_context key_request fresh_writer (Some (sample_keys [alice])) =
     (Inr (drop_credentials key_request), keys) \<and>
   (\<exists>k old. verifyIn sample_hash \<lparr>kp_version = 1, kp_keys = [alice]\<rparr> ''ppk.61.x'' = Inr (k, old))"
proof -
  obtain s' where a: "Authorize sample_hash free_lock [] (Some live_context) ''ppk.61.x'' (sample_keys [alice]) = ((False, None), s')"
    using sample_authorize by blast
  have n: "\<not> accessExempt key_request" by code_simp
  have d: "access_decide sample_hash free_lock [] live_context key_request fresh_writer (Some (sample_keys [alice])) =
      (Inr (drop_credentials key_request), Some s')"
    using a n by (simp add: access_decide_def key_request_credential)
  have "ks_cache (sample_keys [alice]) = None" by (simp add: sample_keys_def)
  from only_admitted_requests_reach_the_gateway [OF rtranclp.rtrancl_refl this _ _ d] n show ?thesis
    using d by (auto simp: key_request_credential sample_facts)
qed

lemma garbled_authorize:
  "\<exists>e s'. Authorize sample_hash free_lock [] (Some live_context) token garbled_keys = ((False, Some e), s') \<and>
     code_of (Some e) = CodeInternal \<and> \<not> ResponseWritten (Some e) \<and> error_as too_large (Some e) = None"
  by (simp add: Authorize_def readCached_def key_call_def os_call_def key_file_def look_def key_read_def garbled_keys_def sample_keys_def
      ResponseWritten_def is_sentinel_def error_as_def err_wrap_def List.map_filter_def)

theorem unreadable_store_fails_closed_witness:
  "\<exists>w' s' b. access_ServeHTTP sample_hash free_lock [] live_context (Some (\<lambda>r w. w))
      \<lparr>in_method = ''GET'', in_path = ''/health'', in_header = []\<rparr> (fresh_writer, Some garbled_keys) = (w', s') \<and> answered w' 503 b"
proof -
  let ?r = "\<lparr>in_method = ''GET'', in_path = ''/health'', in_header = []\<rparr>"
  obtain e s' where a: "Authorize sample_hash free_lock [] (Some live_context) (extractAccessCredential ?r) garbled_keys = ((False, Some e), s')"
    "code_of (Some e) = CodeInternal" "\<not> ResponseWritten (Some e)" "error_as too_large (Some e) = None"
    using garbled_authorize by blast
  have "code_of (Some e) \<noteq> CodeUnauthorized" using a(2) by simp
  moreover have "rw_sent fresh_writer = None" "rw_body fresh_writer = []" by (simp_all add: fresh_writer_def)
  ultimately show ?thesis using unreadable_store_fails_closed [OF a(1) _ a(3,4), where w = fresh_writer and g = "\<lambda>r w. w"] by blast
qed

theorem refused_request_is_challenged_witness:
  "\<exists>w' s' b. access_ServeHTTP sample_hash free_lock [] live_context (Some (\<lambda>r w. w))
      \<lparr>in_method = ''GET'', in_path = ''/v1/models'', in_header = []\<rparr> (fresh_writer, Some (sample_keys [alice])) = (w', s') \<and>
     answered w' 401 b"
proof -
  let ?r = "\<lparr>in_method = ''GET'', in_path = ''/v1/models'', in_header = []\<rparr>"
  have c: "extractAccessCredential ?r = []" "\<not> accessExempt ?r" by code_simp+
  have "parseToken [] = None" by code_simp
  then obtain s' where a: "Authorize sample_hash free_lock [] (Some live_context) [] (sample_keys [alice]) = ((False, Some invalid_token), s')"
    by (auto simp: Authorize_def readCached_def key_call_def os_call_def key_file_def look_def key_read_def versioned_def
        sample_keys_def verifyIn_def)
  then have a': "Authorize sample_hash free_lock [] (Some live_context) (extractAccessCredential ?r) (sample_keys [alice]) =
      ((False, Some invalid_token), s')" by (simp only: c)
  have "code_of (Some invalid_token) = CodeUnauthorized" by (simp add: invalid_token_def)
  moreover have "rw_sent fresh_writer = None" "rw_body fresh_writer = []" by (simp_all add: fresh_writer_def)
  ultimately show ?thesis using refused_request_is_challenged [OF a' _ c(2), where w = fresh_writer and g = "\<lambda>r w. w"] by blast
qed

theorem credential_forms_agree_witness:
  "extractAccessCredential (key_request\<lparr>in_header := [(''Authorization'', [''BASIC '' @ base64_padded std_alphabet ''me:ppk.61.x''])]\<rparr>) = ''ppk.61.x'' \<and>
   base64_padded std_alphabet ''me:ppk.61.x'' = ''bWU6cHBrLjYxLng=''"
proof -
  have "trim_space ''ppk.61.x'' = ''ppk.61.x''" "equal_fold ''bEArer'' ''bearer''" "equal_fold ''BASIC'' ''basic''"
    "base64_padded std_alphabet ''me:ppk.61.x'' = ''bWU6cHBrLjYxLng=''" by code_simp+
  with credential_forms_agree [of "''ppk.61.x''" "''me''" "''bEArer''" "''BASIC''" key_request] show ?thesis by simp
qed

end
