(* ===== verification/Gateway_Routes.thy ===== *)
theory Gateway_Routes
  imports Access
begin

text \<open>
  The routing of the gateway: the route table and \<open>ServeHTTP\<close> of \<open>internal/gateway/server.go\<close>, the
  paths and the API catalog of \<open>apicatalog.go\<close>, and the choice of a UI mount in \<open>ui_proxies.go\<close>.
  A handler is a constructor of \<open>route_handler\<close>; \<open>dispatch\<close> says who serves a request. The properties:
  every advertised operation is served by its handler, no route hides another, mounts get only what
  no route takes and the longest prefix wins, and a request without a key reaches nothing but the
  liveness probe.
\<close>

section \<open>Paths and handlers\<close>

datatype model_surface = surfaceOpenAI | surfaceSystemOne

definition pathOpenAIModels :: string where "pathOpenAIModels = ''/v1/apis/openai/models''"
definition pathSystemOneModels :: string where "pathSystemOneModels = ''/v1/apis/systemone/models''"
definition pathAPIs :: string where "pathAPIs = ''/v1/apis''"
definition pathOpenAISpec :: string where "pathOpenAISpec = ''/v1/apis/openai/openapi.yaml''"
definition pathSystemOneSchema :: string where "pathSystemOneSchema = ''/v1/apis/systemone/schema.json''"
definition pathFiles :: string where "pathFiles = ''/v1/files''"
definition pathFilesPrefix :: string where "pathFilesPrefix = pathFiles @ ''/''"
definition pathBatches :: string where "pathBatches = ''/v1/batches''"
definition pathBatchesPrefix :: string where "pathBatchesPrefix = pathBatches @ ''/''"
definition pathModels :: string where "pathModels = ''/v1/models''"
definition pathModelsPrefix :: string where "pathModelsPrefix = pathModels @ ''/''"
definition pathChatCompletions :: string where "pathChatCompletions = ''/v1/chat/completions''"
definition pathEmbeddings :: string where "pathEmbeddings = ''/v1/embeddings''"
definition pathAudioSpeech :: string where "pathAudioSpeech = ''/v1/audio/speech''"
definition pathAudioTranscriptions :: string where "pathAudioTranscriptions = ''/v1/audio/transcriptions''"
definition pathAudioVoices :: string where "pathAudioVoices = ''/v1/audio/voices''"
definition pathSystemOne :: string where "pathSystemOne = ''/v1/systemone''"
definition pathAdminModelsAllow :: string where "pathAdminModelsAllow = ''/v1/admin/models/allow''"
definition pathHealthBackends :: string where "pathHealthBackends = ''/health/backends''"
definition pathHealthUpstreams :: string where "pathHealthUpstreams = ''/health/upstreams''"
definition pathDebugFailures :: string where "pathDebugFailures = ''/debug/failures/''"
definition bannerAssetPath :: string where "bannerAssetPath = ''/media/banner.webp''"

lemmas path_defs = pathOpenAIModels_def pathSystemOneModels_def pathAPIs_def pathOpenAISpec_def pathSystemOneSchema_def
  pathFiles_def pathFilesPrefix_def pathBatches_def pathBatchesPrefix_def pathModels_def pathModelsPrefix_def
  pathChatCompletions_def pathEmbeddings_def pathAudioSpeech_def pathAudioTranscriptions_def pathAudioVoices_def
  pathSystemOne_def pathAdminModelsAllow_def pathHealth_def pathHealthBackends_def pathHealthUpstreams_def
  pathDebugFailures_def bannerAssetPath_def

datatype route_methods = methodsRead | methodsGet | methodsPost | methodsAny

text \<open>What the table's functions call; a model list or lookup names its surface, \<open>None\<close> for the
  combined list.\<close>

datatype route_handler =
    ServeLanding | ServeBanner | ServeHealth | ServeBackendHealth | ServeUpstreamHealth | ServeFailureDump
  | ServeCatalog | ServeOpenAPISpec | ServeSystemOneSchemaRoute
  | ServeModelsList "model_surface option" | ServeModelRetrieve "model_surface option"
  | ServeChatCompletions | ServeEmbeddings | ServeSpeech | ServeTranscription | ServeProxy
  | ServeSystemOne | ServeFiles | ServeBatches | ServeBatchByID | ServeModelsAllowRoute

record gateway_route =
  rt_path :: string
  rt_prefix :: bool
  rt_methods :: route_methods
  rt_serve :: route_handler

fun method_matches :: "route_methods \<Rightarrow> string \<Rightarrow> bool" where
  "method_matches methodsRead m = (m = ''GET'' \<or> m = ''HEAD'')"
| "method_matches methodsGet m = (m = ''GET'')"
| "method_matches methodsPost m = (m = ''POST'')"
| "method_matches methodsAny m = True"

definition matches :: "gateway_route \<Rightarrow> in_request \<Rightarrow> bool" where
  "matches rt r \<longleftrightarrow>
     (if rt_prefix rt then has_prefix (in_path r) (rt_path rt) else in_path r = rt_path rt) \<and>
     method_matches (rt_methods rt) (in_method r)"

definition route :: "string \<Rightarrow> bool \<Rightarrow> route_methods \<Rightarrow> route_handler \<Rightarrow> gateway_route" where
  "route p pre ms h = \<lparr>rt_path = p, rt_prefix = pre, rt_methods = ms, rt_serve = h\<rparr>"

definition gatewayRoutes :: "gateway_route list" where
  "gatewayRoutes =
    [route ''/'' False methodsAny ServeLanding,
     route bannerAssetPath False methodsAny ServeBanner,
     route pathHealth False methodsRead ServeHealth,
     route pathHealthBackends False methodsRead ServeBackendHealth,
     route pathHealthUpstreams False methodsRead ServeUpstreamHealth,
     route pathDebugFailures True methodsGet ServeFailureDump,
     route pathAPIs False methodsRead ServeCatalog,
     route pathOpenAISpec False methodsRead ServeOpenAPISpec,
     route pathSystemOneSchema False methodsRead ServeSystemOneSchemaRoute,
     route pathOpenAIModels False methodsRead (ServeModelsList (Some surfaceOpenAI)),
     route (pathOpenAIModels @ ''/'') True methodsRead (ServeModelRetrieve (Some surfaceOpenAI)),
     route pathSystemOneModels False methodsRead (ServeModelsList (Some surfaceSystemOne)),
     route (pathSystemOneModels @ ''/'') True methodsRead (ServeModelRetrieve (Some surfaceSystemOne)),
     route pathModels False methodsRead (ServeModelsList None),
     route pathModelsPrefix True methodsRead (ServeModelRetrieve None),
     route pathChatCompletions False methodsPost ServeChatCompletions,
     route pathEmbeddings False methodsPost ServeEmbeddings,
     route pathAudioSpeech False methodsPost ServeSpeech,
     route pathAudioTranscriptions False methodsPost ServeTranscription,
     route pathAudioVoices False methodsRead ServeProxy,
     route pathSystemOne False methodsPost ServeSystemOne,
     route pathFiles True methodsAny ServeFiles,
     route pathBatches False methodsAny ServeBatches,
     route pathBatchesPrefix True methodsAny ServeBatchByID,
     route pathAdminModelsAllow False methodsAny ServeModelsAllowRoute]"

section \<open>UI mounts\<close>

text \<open>\<open>matchUIProxy\<close>: the loop keeps the best mount so far. A mount is its prefix here.\<close>

definition mount_matches :: "string \<Rightarrow> string \<Rightarrow> bool" where
  "mount_matches path p \<longleftrightarrow> path = p \<or> has_prefix path (p @ ''/'')"

fun best_mount :: "string \<Rightarrow> string option \<Rightarrow> string list \<Rightarrow> string option" where
  "best_mount path best [] = best"
| "best_mount path best (p # ps) =
     best_mount path
       (if mount_matches path p
        then (case best of None \<Rightarrow> Some p | Some b \<Rightarrow> if length p > length b then Some p else best)
        else best) ps"

definition matchUIProxy :: "string list \<Rightarrow> in_request \<Rightarrow> string option" where
  "matchUIProxy mounts r = best_mount (in_path r) None mounts"

section \<open>Dispatch\<close>

datatype served = ByRoute route_handler | ByMount string | NoRoute

definition dispatch :: "string list \<Rightarrow> in_request \<Rightarrow> served" where
  "dispatch mounts r =
     (case find (\<lambda>rt. matches rt r) gatewayRoutes of
        Some rt \<Rightarrow> ByRoute (rt_serve rt)
      | None \<Rightarrow> (case matchUIProxy mounts r of Some m \<Rightarrow> ByMount m | None \<Rightarrow> NoRoute))"

text \<open>The two handlers that the table's functions choose between by configuration or method.\<close>

definition systemOneAPIEnabled :: "router_config \<Rightarrow> bool" where
  "systemOneAPIEnabled cfg \<longleftrightarrow> EffectiveSystemOneBackend cfg \<noteq> []"

datatype allow_route = AllowOverlay | AllowPost | AllowBadMethod "string list"

definition serveModelsAllowRoute :: "in_request \<Rightarrow> allow_route" where
  "serveModelsAllowRoute r =
     (if in_method r = ''GET'' \<or> in_method r = ''HEAD'' then AllowOverlay
      else if in_method r = ''POST'' then AllowPost
      else AllowBadMethod [''GET'', ''HEAD'', ''POST''])"

section \<open>The API catalog\<close>

record apiOperation =
  op_method :: string
  op_path :: string

record apiCatalogEntry =
  ce_id :: string
  ce_title :: string
  ce_flavor :: string
  ce_models :: string
  ce_schema :: string
  ce_operations :: "(string \<times> apiOperation) list"

definition operation :: "string \<Rightarrow> string \<Rightarrow> string \<Rightarrow> string \<times> apiOperation" where
  "operation name m p = (name, \<lparr>op_method = m, op_path = p\<rparr>)"

definition openAICatalogEntry :: apiCatalogEntry where
  "openAICatalogEntry =
     \<lparr>ce_id = ''openai'', ce_title = ''OpenAI-compatible'', ce_flavor = ''openai'', ce_models = pathOpenAIModels,
      ce_schema = pathOpenAISpec,
      ce_operations =
        [operation ''list_models'' ''GET'' pathOpenAIModels,
         operation ''retrieve_model'' ''GET'' (pathOpenAIModels @ ''/{id}''),
         operation ''chat_completions'' ''POST'' pathChatCompletions,
         operation ''embeddings'' ''POST'' pathEmbeddings,
         operation ''audio_speech'' ''POST'' pathAudioSpeech,
         operation ''audio_transcriptions'' ''POST'' pathAudioTranscriptions,
         operation ''audio_voices'' ''GET'' pathAudioVoices,
         operation ''files_upload'' ''POST'' pathFiles,
         operation ''files_retrieve'' ''GET'' (pathFilesPrefix @ ''{id}''),
         operation ''batches'' ''POST'' pathBatches]\<rparr>"

definition systemOneCatalogEntry :: apiCatalogEntry where
  "systemOneCatalogEntry =
     \<lparr>ce_id = ''systemone'', ce_title = ''SystemOne'', ce_flavor = ''systemone'', ce_models = pathSystemOneModels,
      ce_schema = pathSystemOneSchema,
      ce_operations =
        [operation ''list_models'' ''GET'' pathSystemOneModels,
         operation ''retrieve_model'' ''GET'' (pathSystemOneModels @ ''/{id}''),
         operation ''evaluate'' ''POST'' pathSystemOne]\<rparr>"

definition buildAPICatalog :: "router_config \<Rightarrow> apiCatalogEntry list" where
  "buildAPICatalog cfg =
     openAICatalogEntry # (if EffectiveSystemOneBackend cfg \<noteq> [] then [systemOneCatalogEntry] else [])"

section \<open>Properties\<close>

text \<open>An advertised path with its id filled in, and the handler an operation is meant for.\<close>

definition fill_id :: "string \<Rightarrow> string \<Rightarrow> string" where
  "fill_id i p = (if has_suffix p ''{id}'' then trim_suffix p ''{id}'' @ i else p)"

definition advertised :: "(string \<times> string \<times> route_handler) list" where
  "advertised =
    [(''openai'', ''list_models'', ServeModelsList (Some surfaceOpenAI)),
     (''openai'', ''retrieve_model'', ServeModelRetrieve (Some surfaceOpenAI)),
     (''openai'', ''chat_completions'', ServeChatCompletions), (''openai'', ''embeddings'', ServeEmbeddings),
     (''openai'', ''audio_speech'', ServeSpeech), (''openai'', ''audio_transcriptions'', ServeTranscription),
     (''openai'', ''audio_voices'', ServeProxy), (''openai'', ''files_upload'', ServeFiles),
     (''openai'', ''files_retrieve'', ServeFiles), (''openai'', ''batches'', ServeBatches),
     (''systemone'', ''list_models'', ServeModelsList (Some surfaceSystemOne)),
     (''systemone'', ''retrieve_model'', ServeModelRetrieve (Some surfaceSystemOne)),
     (''systemone'', ''evaluate'', ServeSystemOne)]"

lemma serves_literal:
  "find (\<lambda>rt. matches rt r) gatewayRoutes = Some rt \<Longrightarrow> dispatch mounts r = ByRoute (rt_serve rt)"
  by (simp add: dispatch_def)

text \<open>Only the method and the path of a request count.\<close>

definition first_route :: "string \<Rightarrow> string \<Rightarrow> route_handler option" where
  "first_route m p =
     map_option rt_serve (find (\<lambda>rt. matches rt \<lparr>in_method = m, in_path = p, in_header = []\<rparr>) gatewayRoutes)"

lemma first_route_dispatch:
  assumes "first_route m p = Some h"
  shows "dispatch mounts \<lparr>in_method = m, in_path = p, in_header = hs\<rparr> = ByRoute h"
proof -
  have "(\<lambda>rt. matches rt \<lparr>in_method = m, in_path = p, in_header = hs\<rparr>) = (\<lambda>rt. matches rt \<lparr>in_method = m, in_path = p, in_header = []\<rparr>)"
    by (simp add: matches_def)
  with assms show ?thesis unfolding first_route_def dispatch_def by (auto simp only: split: option.splits)
qed

lemma literal_operations:
  "list_all (\<lambda>(name, o'). has_suffix (op_path o') ''{id}'' \<or>
      list_ex (\<lambda>(a, n, h). a = ''openai'' \<and> n = name \<and> first_route (op_method o') (op_path o') = Some h) advertised)
     (ce_operations openAICatalogEntry)"
  "list_all (\<lambda>(name, o'). has_suffix (op_path o') ''{id}'' \<or>
      list_ex (\<lambda>(a, n, h). a = ''systemone'' \<and> n = name \<and> first_route (op_method o') (op_path o') = Some h) advertised)
     (ce_operations systemOneCatalogEntry)"
  by code_simp+

lemma id_routes:
  "first_route ''GET'' (pathOpenAIModels @ ''/'' @ i) = Some (ServeModelRetrieve (Some surfaceOpenAI))"
  "first_route ''GET'' (pathSystemOneModels @ ''/'' @ i) = Some (ServeModelRetrieve (Some surfaceSystemOne))"
  "first_route ''GET'' (pathFilesPrefix @ i) = Some ServeFiles"
  by (simp_all add: first_route_def gatewayRoutes_def matches_def route_def path_defs)

lemma surface_routes:
  "list_all (\<lambda>e. first_route ''GET'' (ce_models e) =
       Some (ServeModelsList (Some (if ce_id e = ''openai'' then surfaceOpenAI else surfaceSystemOne))) \<and>
     first_route ''GET'' (ce_schema e) = Some (if ce_id e = ''openai'' then ServeOpenAPISpec else ServeSystemOneSchemaRoute))
    [openAICatalogEntry, systemOneCatalogEntry]"
  by code_simp

lemma catalog_entries: "e \<in> set (buildAPICatalog cfg) \<Longrightarrow> e \<in> set [openAICatalogEntry, systemOneCatalogEntry]"
  by (auto simp: buildAPICatalog_def split: if_splits)

lemma id_paths:
  "(name, o') \<in> set (ce_operations e) \<Longrightarrow> e \<in> set [openAICatalogEntry, systemOneCatalogEntry] \<Longrightarrow> has_suffix (op_path o') ''{id}'' \<Longrightarrow>
   \<exists>h q. (ce_id e, name, h) \<in> set advertised \<and> op_method o' = ''GET'' \<and> op_path o' = q @ ''{id}'' \<and>
     (\<forall>i. first_route ''GET'' (q @ i) = Some h)"
proof -
  assume a: "(name, o') \<in> set (ce_operations e)" "e \<in> set [openAICatalogEntry, systemOneCatalogEntry]" "has_suffix (op_path o') ''{id}''"
  have "list_all (\<lambda>(name, o'). has_suffix (op_path o') ''{id}'' \<longrightarrow>
      (ce_id e, name, op_method o', op_path o') \<in> set
        [(''openai'', ''retrieve_model'', ''GET'', pathOpenAIModels @ ''/{id}''), (''openai'', ''files_retrieve'', ''GET'', pathFilesPrefix @ ''{id}''),
         (''systemone'', ''retrieve_model'', ''GET'', pathSystemOneModels @ ''/{id}'')]) (ce_operations e)"
    if "e = openAICatalogEntry \<or> e = systemOneCatalogEntry"
    using that by (elim disjE; simp only:) (code_simp, code_simp)
  with a consider "ce_id e = ''openai''" "name = ''retrieve_model''" "op_method o' = ''GET''" "op_path o' = pathOpenAIModels @ ''/{id}''"
    | "ce_id e = ''openai''" "name = ''files_retrieve''" "op_method o' = ''GET''" "op_path o' = pathFilesPrefix @ ''{id}''"
    | "ce_id e = ''systemone''" "name = ''retrieve_model''" "op_method o' = ''GET''" "op_path o' = pathSystemOneModels @ ''/{id}''"
    by (fastforce simp: list_all_iff)
  then show ?thesis
  proof cases
    case 1
    then show ?thesis using id_routes(1) by (intro exI [of _ "ServeModelRetrieve (Some surfaceOpenAI)"] exI [of _ "pathOpenAIModels @ ''/''"])
      (simp add: advertised_def)
  next
    case 2
    then show ?thesis using id_routes(3) by (intro exI [of _ ServeFiles] exI [of _ pathFilesPrefix]) (simp add: advertised_def)
  next
    case 3
    then show ?thesis using id_routes(2) by (intro exI [of _ "ServeModelRetrieve (Some surfaceSystemOne)"] exI [of _ "pathSystemOneModels @ ''/''"])
      (simp add: advertised_def)
  qed
qed

lemma catalog_operations:
  assumes "e \<in> set (buildAPICatalog cfg)" and "(name, o') \<in> set (ce_operations e)"
  shows "\<exists>h. (ce_id e, name, h) \<in> set advertised \<and> first_route (op_method o') (fill_id i (op_path o')) = Some h"
proof (cases "has_suffix (op_path o') ''{id}''")
  case True
  from id_paths [OF assms(2) catalog_entries [OF assms(1)] True] True show ?thesis
    by (auto simp: fill_id_def trim_suffix_append)
next
  case False
  have "ce_id openAICatalogEntry = ''openai''" "ce_id systemOneCatalogEntry = ''systemone''"
    by (simp_all add: openAICatalogEntry_def systemOneCatalogEntry_def)
  with literal_operations catalog_entries [OF assms(1)] assms(2) False show ?thesis
    by (auto simp: fill_id_def list_all_iff list_ex_iff)
qed

text \<open>Every operation the API catalog advertises is served by the handler it names, for every id, and
  so are the model list and the schema of each API; the SystemOne API is advertised exactly when its
  schema route answers.\<close>

theorem catalog_is_served:
  assumes "e \<in> set (buildAPICatalog cfg)"
  shows "((name, o') \<in> set (ce_operations e) \<longrightarrow>
      (\<exists>h. (ce_id e, name, h) \<in> set advertised \<and>
        dispatch mounts \<lparr>in_method = op_method o', in_path = fill_id i (op_path o'), in_header = hs\<rparr> = ByRoute h)) \<and>
    dispatch mounts \<lparr>in_method = ''GET'', in_path = ce_models e, in_header = hs\<rparr> =
      ByRoute (ServeModelsList (Some (if ce_id e = ''openai'' then surfaceOpenAI else surfaceSystemOne))) \<and>
    dispatch mounts \<lparr>in_method = ''GET'', in_path = ce_schema e, in_header = hs\<rparr> =
      ByRoute (if ce_id e = ''openai'' then ServeOpenAPISpec else ServeSystemOneSchemaRoute) \<and>
    (ce_id e = ''systemone'' \<longrightarrow> systemOneAPIEnabled cfg)"
proof (intro conjI impI)
  assume "(name, o') \<in> set (ce_operations e)"
  from catalog_operations [OF assms this, of i]
  show "\<exists>h. (ce_id e, name, h) \<in> set advertised \<and>
      dispatch mounts \<lparr>in_method = op_method o', in_path = fill_id i (op_path o'), in_header = hs\<rparr> = ByRoute h"
    by (auto dest: first_route_dispatch)
next
  note surface = surface_routes catalog_entries [OF assms]
  show "dispatch mounts \<lparr>in_method = ''GET'', in_path = ce_models e, in_header = hs\<rparr> =
      ByRoute (ServeModelsList (Some (if ce_id e = ''openai'' then surfaceOpenAI else surfaceSystemOne)))"
    using surface by (intro first_route_dispatch) (auto simp only: list_all_iff)
  show "dispatch mounts \<lparr>in_method = ''GET'', in_path = ce_schema e, in_header = hs\<rparr> =
      ByRoute (if ce_id e = ''openai'' then ServeOpenAPISpec else ServeSystemOneSchemaRoute)"
    using surface by (intro first_route_dispatch) (auto simp only: list_all_iff)
  assume "ce_id e = ''systemone''"
  then show "systemOneAPIEnabled cfg"
    using assms by (auto simp: buildAPICatalog_def openAICatalogEntry_def systemOneAPIEnabled_def split: if_splits)
qed

text \<open>The order of the table hides no route: each one is the first match of some request. UI mounts
  get only requests no route takes, and of the mounts that match the longest serves.\<close>

definition probe :: "gateway_route \<Rightarrow> in_request" where
  "probe rt = \<lparr>in_method = (if rt_methods rt = methodsPost then ''POST'' else ''GET''),
     in_path = (if rt_prefix rt then rt_path rt @ ''x'' else rt_path rt), in_header = []\<rparr>"

lemma probes_match: "list_all (\<lambda>rt. find (\<lambda>rt'. matches rt' (probe rt)) gatewayRoutes = Some rt) gatewayRoutes"
  by code_simp

lemma best_mount_spec:
  "case best_mount path best ps of
     None \<Rightarrow> best = None \<and> (\<forall>p \<in> set ps. \<not> mount_matches path p)
   | Some m \<Rightarrow> (best = Some m \<or> m \<in> set ps \<and> mount_matches path m) \<and>
       (\<forall>p \<in> set ps. mount_matches path p \<longrightarrow> length p \<le> length m) \<and> (\<forall>b. best = Some b \<longrightarrow> length b \<le> length m)"
proof (induction path best ps rule: best_mount.induct)
  case (2 path best p ps)
  then show ?case
    by (cases "mount_matches path p"; cases best) (auto split: option.splits if_splits)
qed (auto split: option.splits)

theorem routes_and_mounts_are_reached:
  "(\<forall>rt \<in> set gatewayRoutes. dispatch mounts (probe rt) = ByRoute (rt_serve rt)) \<and>
   (dispatch mounts r = ByMount m \<longleftrightarrow>
      (\<forall>rt \<in> set gatewayRoutes. \<not> matches rt r) \<and> matchUIProxy mounts r = Some m) \<and>
   (matchUIProxy mounts r = Some m \<longrightarrow> m \<in> set mounts \<and> mount_matches (in_path r) m \<and>
      (\<forall>p \<in> set mounts. mount_matches (in_path r) p \<longrightarrow> length p \<le> length m))"
proof (intro conjI ballI impI)
  show "dispatch mounts (probe rt) = ByRoute (rt_serve rt)" if "rt \<in> set gatewayRoutes" for rt
    using probes_match that by (auto simp: list_all_iff intro: serves_literal)
  show "dispatch mounts r = ByMount m \<longleftrightarrow> (\<forall>rt \<in> set gatewayRoutes. \<not> matches rt r) \<and> matchUIProxy mounts r = Some m"
  proof (cases "find (\<lambda>rt. matches rt r) gatewayRoutes")
    case None
    moreover from this have "\<forall>rt \<in> set gatewayRoutes. \<not> matches rt r" by (simp add: find_None_iff)
    ultimately show ?thesis by (simp add: dispatch_def split: option.splits)
  next
    case (Some rt)
    then have "rt \<in> set gatewayRoutes" "matches rt r" by (auto simp: find_Some_iff)
    with Some show ?thesis by (auto simp: dispatch_def)
  qed
next
  assume m: "matchUIProxy mounts r = Some m"
  note best = best_mount_spec [where path = "in_path r" and best = None and ps = mounts]
  from best m show "m \<in> set mounts" "mount_matches (in_path r) m" by (auto simp: matchUIProxy_def)
  fix p
  assume "p \<in> set mounts" "mount_matches (in_path r) p"
  with best m show "length p \<le> length m" by (auto simp: matchUIProxy_def)
qed

lemma exempt_serves_health: "accessExempt r \<Longrightarrow> dispatch mounts r = ByRoute ServeHealth"
  by (auto simp: accessExempt_def dispatch_def gatewayRoutes_def matches_def route_def path_defs)

text \<open>C35: Behind a key store whose file holds keys, a request whose credential does not verify is served
  by the liveness probe or not at all: no route, catalog or mount is reached.\<close>

theorem keyless_request_sees_only_liveness:
  assumes "(key_step h Q)\<^sup>*\<^sup>* s0 s" and "ks_cache s0 = None" and "honest_disk s" and "\<forall>m \<in> set mid. visible s m"
    and "\<forall>p. current_file s = Some p \<or> current_file (fold meddled mid s) = Some p \<longrightarrow>
      kp_keys p \<noteq> [] \<and> (\<nexists>k old. verifyIn h p (extractAccessCredential r) = Inr (k, old))"
    and "access_decide h env mid ctx r w (Some s) = (Inr r', keys)"
  shows "dispatch mounts r' = ByRoute ServeHealth"
  using access_decide_admits [OF assms(1-4,6)] assms(5) exempt_serves_health by (metis (full_types))


section \<open>Witnesses\<close>

theorem catalog_is_served_witness:
  "dispatch [] \<lparr>in_method = ''GET'', in_path = ''/v1/apis/openai/models/m1'', in_header = []\<rparr> =
     ByRoute (ServeModelRetrieve (Some surfaceOpenAI))"
proof -
  have e: "openAICatalogEntry \<in> set (buildAPICatalog cfg)" for cfg by (simp add: buildAPICatalog_def)
  have f: "fill_id ''m1'' (pathOpenAIModels @ ''/{id}'') = ''/v1/apis/openai/models/m1''" by code_simp
  have o: "operation ''retrieve_model'' ''GET'' (pathOpenAIModels @ ''/{id}'') \<in> set (ce_operations openAICatalogEntry)"
    by (simp add: openAICatalogEntry_def)
  from catalog_is_served [OF e, of "''retrieve_model''" "\<lparr>op_method = ''GET'', op_path = pathOpenAIModels @ ''/{id}''\<rparr>" "[]" "''m1''" "[]"] o f
  show ?thesis by (auto simp: operation_def advertised_def openAICatalogEntry_def)
qed

theorem routes_and_mounts_are_reached_witness:
  "dispatch [''/ui'', ''/ui/admin''] \<lparr>in_method = ''GET'', in_path = ''/ui/admin/x'', in_header = []\<rparr> = ByMount ''/ui/admin''"
proof -
  have "matchUIProxy [''/ui'', ''/ui/admin''] \<lparr>in_method = ''GET'', in_path = ''/ui/admin/x'', in_header = []\<rparr> = Some ''/ui/admin''"
    "list_all (\<lambda>rt. \<not> matches rt \<lparr>in_method = ''GET'', in_path = ''/ui/admin/x'', in_header = []\<rparr>) gatewayRoutes"
    by code_simp+
  then show ?thesis using routes_and_mounts_are_reached by (auto simp: list_all_iff)
qed

theorem keyless_request_sees_only_liveness_witness:
  "\<exists>keys. access_decide sample_hash free_lock [] live_context \<lparr>in_method = ''HEAD'', in_path = ''/health'', in_header = []\<rparr>
      fresh_writer (Some (sample_keys [alice])) =
     (Inr \<lparr>in_method = ''HEAD'', in_path = ''/health'', in_header = []\<rparr>, keys) \<and>
   dispatch [] \<lparr>in_method = ''HEAD'', in_path = ''/health'', in_header = []\<rparr> = ByRoute ServeHealth"
proof -
  let ?r = "\<lparr>in_method = ''HEAD'', in_path = ''/health'', in_header = []\<rparr>"
  have c: "extractAccessCredential ?r = []" "accessExempt ?r" "parseToken [] = None" by code_simp+
  then obtain s' where a: "Authorize sample_hash free_lock [] (Some live_context) [] (sample_keys [alice]) = ((False, Some invalid_token), s')"
    by (auto simp: Authorize_def readCached_def key_call_def os_call_def key_file_def look_def key_read_def versioned_def
        sample_keys_def verifyIn_def)
  have d: "access_decide sample_hash free_lock [] live_context ?r fresh_writer (Some (sample_keys [alice])) = (Inr ?r, Some s')"
    using a c(1,2) by (simp add: access_decide_def invalid_token_def)
  have "ks_cache (sample_keys [alice]) = None" by (simp add: sample_keys_def)
  from keyless_request_sees_only_liveness [OF rtranclp.rtrancl_refl this _ _ _ d, of "[]"] c d show ?thesis
    by (auto simp: sample_facts verifyIn_Inr)
qed

end
