(* ===== verification/Models_Catalog.thy ===== *)
theory Models_Catalog
  imports Allow_Admin Catalog_Clients Gateway_Routes
begin

text \<open>
  The model lists of the gateway: \<open>models.go\<close>, \<open>models_helpers.go\<close>, \<open>catalog_inventory.go\<close> and the
  surfaces of \<open>apicatalog.go\<close> under \<open>internal/gateway\<close>. A pass asks every backend through its breaker,
  falls back to the cached and then to the configured models, merges the inventories and cuts the
  list to an API surface. The provider catalogs and the transport are arguments, and so are the list
  URLs, which are built with \<open>net/url\<close>. The Go code asks the backends in parallel and puts each
  answer in the slot of its backend; here the order in which the fetches run is an argument, a
  fetch is one step, and the slots are read in the order of the ids, as the Go code reads them.
  The properties: nothing is listed that no gate admits, a lookup agrees with the list, a failed
  refresh serves the last list, and the caller's credential never reaches a remote backend.
\<close>

section \<open>Models\<close>

record openai_model =
  om_id :: string
  om_object :: string
  om_created :: int
  om_owned_by :: string

definition listed_model :: "string \<Rightarrow> int \<Rightarrow> string \<Rightarrow> openai_model" where
  "listed_model i created owner = \<lparr>om_id = i, om_object = ObjectModel, om_created = created, om_owned_by = owner\<rparr>"

definition publicModels :: "catalog_model list \<Rightarrow> string \<Rightarrow> openai_model list" where
  "publicModels models backendID =
     map (\<lambda>m. listed_model (prefixModelID backendID (cm_id m)) (cm_created m) (firstNonEmpty [cm_owned_by m, backendID])) models"

definition syntheticModels :: "string \<Rightarrow> string list \<Rightarrow> openai_model list" where
  "syntheticModels backendID allow = map (\<lambda>i. listed_model i 0 backendID) (SyntheticAllowModels backendID allow)"

text \<open>Appending the models whose id has not been seen; the loop of \<open>mergeAllowSyntheticMissing\<close> and of
  \<open>mergeOpenRouterDecisionModels\<close>.\<close>

fun append_missing :: "string set \<Rightarrow> openai_model list \<Rightarrow> openai_model list \<Rightarrow> openai_model list" where
  "append_missing seen [] out = out"
| "append_missing seen (m # ms) out =
     (if om_id m \<in> seen then append_missing seen ms out
      else append_missing (insert (om_id m) seen) ms (out @ [m]))"

definition mergeAllowSyntheticMissing :: "string \<Rightarrow> openai_model list \<Rightarrow> string list \<Rightarrow> openai_model list" where
  "mergeAllowSyntheticMissing backendID live allow =
     (let synth = syntheticModels backendID allow
      in if synth = [] then live else append_missing (om_id ` set live) synth live)"

definition mergeEnabledSyntheticMissing :: "backend_def \<Rightarrow> openai_model list \<Rightarrow> openai_model list" where
  "mergeEnabledSyntheticMissing b live =
     (case bk_models b of
        None \<Rightarrow> live
      | Some bm \<Rightarrow>
          let live1 = (if HasAllowGate (Some bm) then mergeAllowSyntheticMissing (bk_id b) live (bm_allow bm) else live)
          in if bm_systemone_allow_configured bm
             then mergeAllowSyntheticMissing (bk_id b) live1 (bm_systemone_allow bm) else live1)"

section \<open>Seeds and defaults\<close>

definition isDefaultBackend :: "router_config \<Rightarrow> string \<Rightarrow> bool" where
  "isDefaultBackend cfg backendID \<longleftrightarrow>
     backendID \<in> {EffectiveTTSBackend cfg, EffectiveSTTBackend cfg, EffectiveChatBackend cfg, EffectiveVisionBackend cfg,
       EffectiveEmbedBackend cfg, EffectiveProxyBackend cfg, EffectiveSystemOneBackend cfg}"

definition add_seed ::
  "router_config \<Rightarrow> string \<Rightarrow> string \<Rightarrow> string set \<times> openai_model list \<Rightarrow> string set \<times> openai_model list" where
  "add_seed cfg backendID model0 = (\<lambda>(seen, out).
     let modelID = trim_space model0; i = prefixModelID backendID modelID
     in if modelID = [] \<or> backendID = [] \<or> i \<in> seen then (seen, out)
        else let seen1 = insert i seen; out1 = out @ [listed_model i 0 backendID]
             in if isDefaultBackend cfg backendID \<and> modelID \<notin> seen1
                then (insert modelID seen1, out1 @ [listed_model modelID 0 backendID])
                else (seen1, out1))"

definition seedModelsFromEnv :: "router_config \<Rightarrow> openai_model list" where
  "seedModelsFromEnv cfg =
     snd (add_seed cfg (EffectiveSTTBackend cfg) (rc_default_stt_model cfg)
       (add_seed cfg (EffectiveTTSBackend cfg) (rc_default_tts_model cfg) ({}, [])))"

definition seedModelsForBackend :: "router_config \<Rightarrow> string \<Rightarrow> openai_model list" where
  "seedModelsForBackend cfg backendID =
     filter (\<lambda>m. om_owned_by m = backendID \<or> has_prefix (om_id m) (backendID @ ''/'')) (seedModelsFromEnv cfg)"

definition routerCatalogModels :: "router_config \<Rightarrow> openai_model list" where
  "routerCatalogModels cfg = map (\<lambda>name. listed_model (RouterPublicID name) 0 ''polypus'') (sorted_keys (rc_routers cfg))"

section \<open>Merging inventories\<close>

definition keepEnabledCatalogModel :: "backend_def \<Rightarrow> string \<Rightarrow> bool" where
  "keepEnabledCatalogModel b modelID \<longleftrightarrow>
     IsModelAllowed b modelID \<or> IsSystemOneDownstream b (NormalizeDownstream (bk_id b) modelID)"

definition config_backend :: "router_config \<Rightarrow> string \<Rightarrow> backend_def" where
  "config_backend cfg i = (case map_of (rc_backends cfg) i of None \<Rightarrow> zero_backend | Some b \<Rightarrow> b)"

definition put_models :: "bool \<Rightarrow> backend_def \<Rightarrow> openai_model list \<Rightarrow> openai_model gomap \<Rightarrow> openai_model gomap" where
  "put_models asInventory b models byID =
     fold (\<lambda>m byID. if \<not> asInventory \<and> \<not> keepEnabledCatalogModel b (om_id m) then byID else put (om_id m) m byID) models byID"

definition put_aliases ::
  "bool \<Rightarrow> string \<Rightarrow> backend_def \<Rightarrow> openai_model list \<Rightarrow> openai_model gomap \<Rightarrow> openai_model gomap" where
  "put_aliases asInventory backend b models byID =
     fold (\<lambda>m byID.
       let down = NormalizeDownstream backend (om_id m)
       in if \<not> asInventory \<and> \<not> keepEnabledCatalogModel b (om_id m) then byID
          else if down = [] \<or> down = om_id m \<or> map_of byID down \<noteq> None then byID
          else put down (listed_model down (om_created m) (firstNonEmpty [om_owned_by m, backend])) byID) models byID"

definition merge_inventory ::
  "router_config \<Rightarrow> bool \<Rightarrow> string \<times> openai_model list \<Rightarrow> openai_model gomap \<Rightarrow> openai_model gomap" where
  "merge_inventory cfg asInventory = (\<lambda>(backend, models) byID.
     if backend = [] then byID
     else let b = config_backend cfg backend; byID1 = put_models asInventory b models byID
          in if isDefaultBackend cfg backend then put_aliases asInventory backend b models byID1 else byID1)"

definition mergeBackendInventories ::
  "router_config \<Rightarrow> bool \<Rightarrow> (string \<times> openai_model list) list \<Rightarrow> openai_model gomap" where
  "mergeBackendInventories cfg asInventory results = fold (merge_inventory cfg asInventory) results []"

definition seed_backend :: "router_config \<Rightarrow> string list \<Rightarrow> openai_model \<Rightarrow> backend_def option" where
  "seed_backend cfg ids seed =
     (case map_of (rc_backends cfg) (om_owned_by seed) of
        Some b \<Rightarrow> Some b
      | None \<Rightarrow>
          map_option (config_backend cfg) (find (\<lambda>i. has_prefix (om_id seed) (i @ ''/'') \<or> om_owned_by seed = i) ids))"

definition mergeSeedModels ::
  "router_config \<Rightarrow> bool \<Rightarrow> string list \<Rightarrow> openai_model list \<Rightarrow> openai_model gomap \<Rightarrow> openai_model gomap" where
  "mergeSeedModels cfg asInventory ids seeds byID =
     fold (\<lambda>seed byID.
       case seed_backend cfg ids seed of
         Some b \<Rightarrow>
           if \<not> asInventory \<and> \<not> IsModelAllowed b (om_id seed) then byID
           else if map_of byID (om_id seed) \<noteq> None then byID else put (om_id seed) seed byID
       | None \<Rightarrow> if map_of byID (om_id seed) \<noteq> None then byID else put (om_id seed) seed byID) seeds byID"

text \<open>\<open>sort.Slice\<close> by id; the ids of the map are distinct.\<close>

definition finalizeModelList :: "openai_model list \<Rightarrow> openai_model gomap \<Rightarrow> openai_model list" where
  "finalizeModelList catalog byID = sort_key om_id (catalog @ map snd byID)"

section \<open>Surfaces\<close>

text \<open>\<open>strings.Index(s, "/") > 0\<close>: a prefix that is not empty.\<close>

definition backendAndDownstreamForPublicID :: "router_config \<Rightarrow> string \<Rightarrow> string \<times> string" where
  "backendAndDownstreamForPublicID cfg public0 =
     (let publicID = trim_space public0;
          pre = (case cut publicID (CHR ''/'') of (p, Some _) \<Rightarrow> p | (p, None) \<Rightarrow> []);
          dflt = EffectiveSystemOneBackend cfg
      in if pre \<noteq> [] \<and> map_of (rc_backends cfg) pre \<noteq> None then (pre, NormalizeDownstream pre publicID)
         else if dflt \<noteq> [] then (dflt, NormalizeDownstream dflt publicID)
         else case find (\<lambda>i. HasCapability (config_backend cfg i) CapSystemOne) (BackendIDs cfg) of
                Some i \<Rightarrow> (i, NormalizeDownstream i publicID)
              | None \<Rightarrow> ([], publicID))"

definition isSystemOneListedModel :: "router_config \<Rightarrow> string \<Rightarrow> bool" where
  "isSystemOneListedModel cfg public0 =
     (let publicID = trim_space public0
      in if publicID = [] \<or> EffectiveSystemOneBackend cfg = [] then False
         else case backendAndDownstreamForPublicID cfg publicID of (backendID, down) \<Rightarrow>
           if backendID = [] then False
           else case map_of (rc_backends cfg) backendID of
                  None \<Rightarrow> False
                | Some b \<Rightarrow> IsSystemOneDownstream b down)"

definition partitionModels :: "router_config \<Rightarrow> openai_model list \<Rightarrow> model_surface \<Rightarrow> openai_model list" where
  "partitionModels cfg all surface =
     filter (\<lambda>m. case surface of
         surfaceOpenAI \<Rightarrow> \<not> isSystemOneListedModel cfg (om_id m)
       | surfaceSystemOne \<Rightarrow> isSystemOneListedModel cfg (om_id m)) all"

definition catalogModelBackend :: "router_config \<Rightarrow> string \<Rightarrow> string" where
  "catalogModelBackend cfg publicID = fst (backendAndDownstreamForPublicID cfg publicID)"

definition catalogModelKey :: "router_config \<Rightarrow> string \<Rightarrow> string" where
  "catalogModelKey cfg public0 =
     (let publicID = trim_space public0
      in if has_prefix publicID RouterIDPrefix then publicID
         else case backendAndDownstreamForPublicID cfg publicID of (b0, d0) \<Rightarrow>
           let backendID = trim_space b0; down = trim_space d0
           in if backendID = [] \<or> down = [] then publicID else backendID @ ''/'' @ down)"

definition catalogModelIDRank :: "string \<Rightarrow> string \<Rightarrow> nat" where
  "catalogModelIDRank id0 backendID =
     (let i = trim_space id0
      in if has_prefix i (backendID @ ''/'') then 0 else if CHR ''/'' \<in> set i then 2 else 1)"

definition preferCatalogModelID :: "string \<Rightarrow> string \<Rightarrow> string \<Rightarrow> string" where
  "preferCatalogModelID a b backendID =
     (let ra = catalogModelIDRank a backendID; rb = catalogModelIDRank b backendID
      in if ra < rb then a else if rb < ra then b else if length a \<le> length b then a else b)"

definition dedupe_step :: "router_config \<Rightarrow> openai_model \<Rightarrow> openai_model gomap \<Rightarrow> openai_model gomap" where
  "dedupe_step cfg m byKey =
     (let key = catalogModelKey cfg (om_id m)
      in case map_of byKey key of
           None \<Rightarrow> put key m byKey
         | Some cur \<Rightarrow>
             if preferCatalogModelID (om_id m) (om_id cur) (catalogModelBackend cfg (om_id m)) = om_id m
             then put key m byKey else byKey)"

definition dedupeModelsByBackendDownstream :: "router_config \<Rightarrow> openai_model list \<Rightarrow> openai_model list" where
  "dedupeModelsByBackendDownstream cfg models =
     (if length models < 2 then models
      else sort_key om_id (map snd (fold (dedupe_step cfg) models [])))"

definition modelsForSurface :: "router_config \<Rightarrow> openai_model list \<Rightarrow> model_surface \<Rightarrow> openai_model list" where
  "modelsForSurface cfg all surface = dedupeModelsByBackendDownstream cfg (partitionModels cfg all surface)"

definition lookupModelForSurface ::
  "router_config \<Rightarrow> openai_model list \<Rightarrow> model_surface \<Rightarrow> string \<Rightarrow> openai_model option" where
  "lookupModelForSurface cfg all surface i =
     (let wantKey = catalogModelKey cfg i
      in find (\<lambda>m. om_id m = i \<or> catalogModelKey cfg (om_id m) = wantKey) (modelsForSurface cfg all surface))"

section \<open>The inventory cache\<close>

type_synonym cache_entries = "(int \<times> openai_model list) gomap"

datatype cache_content = CacheFile cache_entries | CacheGarbled

record inventory_cache =
  ic_entries :: cache_entries
  ic_dirty :: bool
  ic_ttl :: int
  ic_path :: string
  ic_disk :: "cache_content disk"

text \<open>\<open>loadDisk\<close>: a file that is missing, unreadable or corrupt leaves the cache empty.\<close>

definition ic_loadDisk :: "inventory_cache \<Rightarrow> inventory_cache" where
  "ic_loadDisk c =
     (if ic_path c = [] then c
      else case os_call (ic_disk c) of
        (Some e, d) \<Rightarrow> c\<lparr>ic_disk := d\<rparr>
      | (None, d) \<Rightarrow>
          (case look d (ic_path c) of
             Some (CacheFile m) \<Rightarrow> c\<lparr>ic_disk := d, ic_entries := fold (\<lambda>(k, v). put k v) m (ic_entries c)\<rparr>
           | _ \<Rightarrow> c\<lparr>ic_disk := d\<rparr>))"

definition newModelsInventoryCache :: "goerr + string \<Rightarrow> int \<Rightarrow> cache_content disk \<Rightarrow> inventory_cache" where
  "newModelsInventoryCache path ttl d =
     ic_loadDisk \<lparr>ic_entries = [], ic_dirty = False, ic_ttl = ttl,
       ic_path = (case path of Inl e \<Rightarrow> [] | Inr p \<Rightarrow> p), ic_disk = d\<rparr>"

definition ic_get :: "int \<Rightarrow> string \<Rightarrow> inventory_cache \<Rightarrow> openai_model list option" where
  "ic_get now key c =
     (case map_of (ic_entries c) key of
        None \<Rightarrow> None
      | Some (stamp, models) \<Rightarrow> if models = [] then None else if time_sub now stamp > ic_ttl c then None else Some models)"

definition ic_put :: "int \<Rightarrow> string \<Rightarrow> openai_model list \<Rightarrow> inventory_cache \<Rightarrow> inventory_cache" where
  "ic_put now key models c =
     (if models = [] then c else c\<lparr>ic_entries := put key (now, models) (ic_entries c), ic_dirty := True\<rparr>)"

text \<open>\<open>flush\<close>; a failed write is only logged.\<close>

definition ic_flush :: "inventory_cache \<Rightarrow> inventory_cache" where
  "ic_flush c =
     (if ic_path c = [] \<or> \<not> ic_dirty c then c
      else case WriteAtomic (ic_path c) (CacheFile (ic_entries c)) (ic_disk c) of
             (_, d) \<Rightarrow> c\<lparr>ic_dirty := False, ic_disk := d\<rparr>)"

section \<open>A pass over the backends\<close>

text \<open>What the handler asks: the breaker library and the clock, the provider catalogs (an error when
  the client cannot be built), the OpenAI-compatible client, the URLs of the lists, and the bearer
  environment. \<open>mo_openrouter\<close> says whether a base URL is OpenRouter's.\<close>

record ('b, 'r, 'u) models_env =
  mo_api :: "('b, 'r) breaker_api"
  mo_clock :: "'u \<Rightarrow> int"
  mo_catalog :: "backend_def \<Rightarrow> goerr + 'u catalog_fetch"
  mo_compat :: "'u compat_client"
  mo_list_url :: "string \<Rightarrow> string"
  mo_decisions_url :: "string \<Rightarrow> string"
  mo_openrouter :: "string \<Rightarrow> bool"
  mo_sanitize :: "string \<Rightarrow> string"
  mo_environ :: environ

record ('b, 'u) models_state =
  mh_board :: "'b board option"
  mh_cache :: inventory_cache
  mh_up :: 'u

text \<open>A fetch under the backend's breaker; the captured list stays empty unless it succeeds.\<close>

definition fetch_protected ::
  "('b, 'r, 'u) models_env \<Rightarrow> go_context option \<Rightarrow> string \<Rightarrow> ('u \<Rightarrow> (goerr + openai_model list) \<times> 'u)
   \<Rightarrow> 'b board option \<times> 'u \<Rightarrow> (goerr + openai_model list) \<times> 'b board option \<times> 'u" where
  "fetch_protected env ctx name f = (\<lambda>(bd, u).
     case Execute (mo_api env) (\<lambda>(out, u). mo_clock env u) ctx name
            (\<lambda>(bd, (out, u)). case f u of
               (Inl e, u1) \<Rightarrow> (Some e, bd, (out, u1))
             | (Inr ms, u1) \<Rightarrow> (None, bd, (ms, u1)))
            (bd, ([], u)) of
       (None, bd1, (out, u1)) \<Rightarrow> (Inr out, bd1, u1)
     | (Some e, bd1, (out, u1)) \<Rightarrow> (Inl e, bd1, u1))"

definition or_empty :: "goerr + openai_model list \<Rightarrow> openai_model list" where
  "or_empty r = (case r of Inl e \<Rightarrow> [] | Inr ms \<Rightarrow> ms)"

definition liveCatalogClient :: "('b, 'r, 'u) models_env \<Rightarrow> backend_def \<Rightarrow> (goerr + 'u catalog_fetch) option" where
  "liveCatalogClient env b =
     (if IsGeminiExtension b \<or> IsAnthropicExtension b \<or> IsCloudflareExtension b
      then Some (case mo_catalog env b of
             Inl e \<Rightarrow> Inl (DomainErr (with_field
               (err_wrap (Some e) (code_or (Some e) CodeNotReady) ''gateway.catalogClient'' ''catalog client'') ''backend'' (bk_id b)))
           | Inr f \<Rightarrow> Inr f)
      else None)"

definition catalogInventory ::
  "('b, 'r, 'u) models_env \<Rightarrow> go_context option \<Rightarrow> backend_def \<Rightarrow> 'u catalog_fetch \<Rightarrow> 'b board option \<times> 'u
   \<Rightarrow> openai_model list \<times> 'b board option \<times> 'u" where
  "catalogInventory env ctx b client s =
     (case fetch_protected env ctx (bk_id b) (\<lambda>u. case client u of
             (Inl e, u1) \<Rightarrow> (Inl (DomainErr (with_field (gatewayErr e ''gateway.catalogInventory'' ''list models'') ''backend'' (bk_id b))), u1)
           | (Inr ms, u1) \<Rightarrow> (Inr (publicModels ms (bk_id b)), u1)) s of
        (r, s1) \<Rightarrow> (or_empty r, s1))"

definition fetchBackendModelsAtURL ::
  "('b, 'r, 'u) models_env \<Rightarrow> go_context option \<Rightarrow> string \<Rightarrow> backend_def \<Rightarrow> string \<Rightarrow> 'u \<Rightarrow> (goerr + openai_model list) \<times> 'u" where
  "fetchBackendModelsAtURL env ctx inboundAuth b target u =
     (case bearerAuthHeader (mo_sanitize env) (mo_environ env) b of
        Inl e \<Rightarrow>
          (Inl (DomainErr (with_field
             (err_wrap (Some e) (code_or (Some e) CodeNotReady) ''gateway.fetchBackendModels'' ''backend credential'')
             ''backend'' (bk_id b))), u)
      | Inr auth0 \<Rightarrow>
          (let auth = (if auth0 = [] \<and> \<not> bk_remote b then inboundAuth else auth0)
           in case compat_ListModels (mo_compat env) ctx target auth u of
                (Inl e, u1) \<Rightarrow>
                  (Inl (DomainErr (with_field (gatewayErr e ''gateway.fetchBackendModels'' ''list'') ''backend'' (bk_id b))), u1)
              | (Inr models, u1) \<Rightarrow> (Inr (publicModels models (bk_id b)), u1)))"

definition fetchBackendModels ::
  "('b, 'r, 'u) models_env \<Rightarrow> go_context option \<Rightarrow> string \<Rightarrow> backend_def \<Rightarrow> 'u \<Rightarrow> (goerr + openai_model list) \<times> 'u" where
  "fetchBackendModels env ctx inboundAuth b =
     fetchBackendModelsAtURL env ctx inboundAuth b (mo_list_url env (bk_base_url b))"

definition fetchBackendModelsProtected ::
  "('b, 'r, 'u) models_env \<Rightarrow> go_context option \<Rightarrow> string \<Rightarrow> backend_def \<Rightarrow> 'b board option \<times> 'u
   \<Rightarrow> openai_model list \<times> 'b board option \<times> 'u" where
  "fetchBackendModelsProtected env ctx inboundAuth b s =
     (case fetch_protected env ctx (bk_id b) (fetchBackendModels env ctx inboundAuth b) s of (r, s1) \<Rightarrow> (or_empty r, s1))"

definition mergeOpenRouterDecisionModels ::
  "('b, 'r, 'u) models_env \<Rightarrow> go_context option \<Rightarrow> string \<Rightarrow> backend_def \<Rightarrow> openai_model list \<Rightarrow> 'b board option \<times> 'u
   \<Rightarrow> openai_model list \<times> 'b board option \<times> 'u" where
  "mergeOpenRouterDecisionModels env ctx inboundAuth b live s =
     (case fetch_protected env ctx (bk_id b)
             (fetchBackendModelsAtURL env ctx inboundAuth b (mo_decisions_url env (bk_base_url b))) s of
        (Inl e, s1) \<Rightarrow> (live, s1)
      | (Inr decisions, s1) \<Rightarrow>
          (if decisions = [] then live else append_missing (om_id ` set live) decisions live, s1))"

definition syncsModels :: "backend_def \<Rightarrow> bool" where
  "syncsModels b \<longleftrightarrow> bk_models b = None \<or> ShouldSync (bk_models b)"

definition liveOrCached ::
  "('b, 'r, 'u) models_env \<Rightarrow> backend_def \<Rightarrow> openai_model list \<Rightarrow> openai_model list \<Rightarrow> ('b, 'u) models_state
   \<Rightarrow> openai_model list \<times> ('b, 'u) models_state" where
  "liveOrCached env b live fallback s =
     (if live \<noteq> [] then
        (let live1 = mergeEnabledSyntheticMissing b live
         in (live1, s\<lparr>mh_cache := ic_put (mo_clock env (mh_up s)) (bk_id b) live1 (mh_cache s)\<rparr>))
      else case ic_get (mo_clock env (mh_up s)) (bk_id b) (mh_cache s) of
             Some cached \<Rightarrow> (cached, s)
           | None \<Rightarrow> (mergeEnabledSyntheticMissing b fallback, s))"

text \<open>The two parts of the state a fetch touches.\<close>

definition with_fetch ::
  "('b board option \<times> 'u \<Rightarrow> openai_model list \<times> 'b board option \<times> 'u) \<Rightarrow> ('b, 'u) models_state
   \<Rightarrow> openai_model list \<times> ('b, 'u) models_state" where
  "with_fetch f s = (case f (mh_board s, mh_up s) of (ms, bd, u) \<Rightarrow> (ms, s\<lparr>mh_board := bd, mh_up := u\<rparr>))"

type_synonym ('b, 'u) backend_fetch = "string \<Rightarrow> backend_def \<Rightarrow> ('b, 'u) models_state \<Rightarrow> openai_model list \<times> ('b, 'u) models_state"

definition refreshBackend ::
  "('b, 'r, 'u) models_env \<Rightarrow> go_context option \<Rightarrow> router_config \<Rightarrow> ('b, 'u) backend_fetch" where
  "refreshBackend env ctx cfg inboundAuth b s =
     (if \<not> syncsModels b then (mergeEnabledSyntheticMissing b [], s)
      else case liveCatalogClient env b of
        Some (Inl e) \<Rightarrow> liveOrCached env b [] [] s
      | Some (Inr client) \<Rightarrow>
          (case with_fetch (catalogInventory env ctx b client) s of (live, s1) \<Rightarrow> liveOrCached env b live [] s1)
      | None \<Rightarrow>
          (case with_fetch (fetchBackendModelsProtected env ctx inboundAuth b) s of
             (live, s1) \<Rightarrow>
               (case (if mo_openrouter env (bk_base_url b)
                      then with_fetch (mergeOpenRouterDecisionModels env ctx inboundAuth b live) s1 else (live, s1)) of
                  (live1, s2) \<Rightarrow> liveOrCached env b live1 (seedModelsForBackend cfg (bk_id b)) s2)))"

definition inventoryForBackend ::
  "('b, 'r, 'u) models_env \<Rightarrow> go_context option \<Rightarrow> router_config \<Rightarrow> ('b, 'u) backend_fetch" where
  "inventoryForBackend env ctx cfg inboundAuth b s =
     (if \<not> syncsModels b then (mergeEnabledSyntheticMissing b [], s)
      else case ic_get (mo_clock env (mh_up s)) (bk_id b) (mh_cache s) of
             Some cached \<Rightarrow> (cached, s)
           | None \<Rightarrow> refreshBackend env ctx cfg inboundAuth b s)"

text \<open>\<open>collectModelsWith\<close> starts one goroutine for each configured backend and waits for all of
  them. \<open>order\<close> is the order in which they get to run; whatever it is, the answers are read by slot.\<close>

definition fetch_into ::
  "('b, 'u) backend_fetch \<Rightarrow> string \<Rightarrow> router_config \<Rightarrow> string \<Rightarrow> openai_model list gomap \<times> ('b, 'u) models_state
   \<Rightarrow> openai_model list gomap \<times> ('b, 'u) models_state" where
  "fetch_into fetch inboundAuth cfg i = (\<lambda>(slots, s).
     case map_of (rc_backends cfg) i of
       None \<Rightarrow> (slots, s)
     | Some b \<Rightarrow> (case fetch inboundAuth b s of (ms, s1) \<Rightarrow> (put i ms slots, s1)))"

definition fetch_all ::
  "('b, 'u) backend_fetch \<Rightarrow> string list \<Rightarrow> string \<Rightarrow> router_config \<Rightarrow> string list \<Rightarrow> ('b, 'u) models_state
   \<Rightarrow> (string \<times> openai_model list) list \<times> ('b, 'u) models_state" where
  "fetch_all fetch order inboundAuth cfg ids s =
     (case fold (fetch_into fetch inboundAuth cfg) order ([], s) of
        (slots, s1) \<Rightarrow> (map (\<lambda>i. case map_of slots i of None \<Rightarrow> ([], []) | Some ms \<Rightarrow> (i, ms)) ids, s1))"

definition collectModelsWith ::
  "('b, 'u) backend_fetch \<Rightarrow> string list \<Rightarrow> router_config \<Rightarrow> string \<Rightarrow> bool \<Rightarrow> ('b, 'u) models_state
   \<Rightarrow> openai_model list \<times> ('b, 'u) models_state" where
  "collectModelsWith fetch order cfg inboundAuth asInventory s =
     (let ids = BackendIDs cfg; catalog = (if asInventory then [] else routerCatalogModels cfg)
      in case fetch_all fetch order inboundAuth cfg ids s of
           (results, s1) \<Rightarrow>
             (finalizeModelList catalog
                (mergeSeedModels cfg asInventory ids (seedModelsFromEnv cfg)
                  (mergeBackendInventories cfg asInventory results)),
              s1\<lparr>mh_cache := ic_flush (mh_cache s1)\<rparr>))"

definition collectModels ::
  "('b, 'r, 'u) models_env \<Rightarrow> go_context option \<Rightarrow> string list \<Rightarrow> router_config \<Rightarrow> string \<Rightarrow> bool
   \<Rightarrow> ('b, 'u) models_state \<Rightarrow> openai_model list \<times> ('b, 'u) models_state" where
  "collectModels env ctx order cfg = collectModelsWith (inventoryForBackend env ctx cfg) order cfg"

definition warmInventory ::
  "('b, 'r, 'u) models_env \<Rightarrow> go_context option \<Rightarrow> string list \<Rightarrow> router_config \<Rightarrow> bool \<Rightarrow> ('b, 'u) models_state
   \<Rightarrow> ('b, 'u) models_state" where
  "warmInventory env ctx order cfg asInventory s =
     snd (collectModelsWith (refreshBackend env ctx cfg) order cfg [] asInventory s)"

definition retrieveBackend :: "router_config \<Rightarrow> model_surface \<Rightarrow> string \<Rightarrow> string" where
  "retrieveBackend cfg surface publicID =
     (let pre = (case cut publicID (CHR ''/'') of (p, Some _) \<Rightarrow> p | (p, None) \<Rightarrow> [])
      in if pre \<noteq> [] \<and> map_of (rc_backends cfg) pre \<noteq> None then pre
         else if surface \<noteq> surfaceSystemOne then []
         else fst (backendAndDownstreamForPublicID cfg publicID))"

definition collectModelsForRetrieve ::
  "('b, 'r, 'u) models_env \<Rightarrow> go_context option \<Rightarrow> string list \<Rightarrow> router_config \<Rightarrow> string \<Rightarrow> bool \<Rightarrow> model_surface
   \<Rightarrow> string \<Rightarrow> ('b, 'u) models_state \<Rightarrow> openai_model list \<times> ('b, 'u) models_state" where
  "collectModelsForRetrieve env ctx order cfg inboundAuth asInventory surface target0 s =
     (if asInventory then collectModels env ctx order cfg inboundAuth True s
      else let target = trim_space target0; catalog = routerCatalogModels cfg; backendID = retrieveBackend cfg surface target
      in if list_ex (\<lambda>m. om_id m = target) catalog then (catalog, s)
         else if backendID = [] then collectModels env ctx order cfg inboundAuth False s
         else case map_of (rc_backends cfg) backendID of
           None \<Rightarrow> collectModels env ctx order cfg inboundAuth False s
         | Some b \<Rightarrow>
             (case inventoryForBackend env ctx cfg inboundAuth b s of
                (ms, s1) \<Rightarrow>
                  (finalizeModelList catalog
                     (mergeSeedModels cfg False [backendID] (seedModelsFromEnv cfg)
                       (mergeBackendInventories cfg False [(backendID, ms)])),
                   s1\<lparr>mh_cache := ic_flush (mh_cache s1)\<rparr>)))"

definition modelsListTimeout :: int where "modelsListTimeout = 5 * ns_second"

definition modelsWarmupTimeout :: "router_config \<Rightarrow> int" where
  "modelsWarmupTimeout cfg =
     (let n = max 1 (length (BackendIDs cfg)); d = int n * modelsListTimeout
      in if d < 15 * ns_second then 15 * ns_second else if d > 60 * ns_second then 60 * ns_second else d)"

section \<open>What is listed\<close>

text \<open>A property of every entry of a merged map.\<close>

definition entries_ok :: "(openai_model \<Rightarrow> bool) \<Rightarrow> openai_model gomap \<Rightarrow> bool" where
  "entries_ok P byID \<longleftrightarrow> (\<forall>(k, m) \<in> set byID. om_id m = k \<and> P m)"

lemma put_subset: "set (put k v m) \<subseteq> insert (k, v) (set m)"
  by (induction m) auto

lemma entries_ok_put: "entries_ok P byID \<Longrightarrow> P m \<Longrightarrow> om_id m = k \<Longrightarrow> entries_ok P (put k m byID)"
  using put_subset [of k m byID] by (auto simp: entries_ok_def)

lemma fold_keeps: "(\<And>x s. x \<in> set xs \<Longrightarrow> I s \<Longrightarrow> I (f x s)) \<Longrightarrow> I s \<Longrightarrow> I (fold f xs s)"
  by (induction xs arbitrary: s) auto

text \<open>The list names a model a backend reported and the gate of the same backend admits: the model as
  reported, or for a default backend its alias under the bare id.\<close>

definition enabled_on :: "router_config \<Rightarrow> (string \<times> openai_model list) list \<Rightarrow> openai_model \<Rightarrow> bool" where
  "enabled_on cfg reports m \<longleftrightarrow>
     (\<exists>(i, ms) \<in> set reports. \<exists>x \<in> set ms. \<exists>b. map_of (rc_backends cfg) i = Some b \<and> keepEnabledCatalogModel b (om_id x) \<and>
        (m = x \<or> isDefaultBackend cfg i \<and>
           m = listed_model (NormalizeDownstream i (om_id x)) (om_created x) (firstNonEmpty [om_owned_by x, i])))"

lemma enabled_onI:
  assumes "(i, ms) \<in> set reports" "x \<in> set ms" "map_of (rc_backends cfg) i = Some b" "keepEnabledCatalogModel b (om_id x)"
    "m = x \<or> isDefaultBackend cfg i \<and>
       m = listed_model (NormalizeDownstream i (om_id x)) (om_created x) (firstNonEmpty [om_owned_by x, i])"
  shows "enabled_on cfg reports m"
  using assms unfolding enabled_on_def by blast

lemma listed_model_id [simp]: "om_id (listed_model i c owner) = i"
  by (simp add: listed_model_def)

lemma merge_inventory_ok:
  assumes "entries_ok P byID" and r: "(backend, models) \<in> set reports" "backend \<noteq> [] \<Longrightarrow> map_of (rc_backends cfg) backend \<noteq> None"
    and P: "\<And>m. enabled_on cfg reports m \<Longrightarrow> P m"
  shows "entries_ok P (merge_inventory cfg False (backend, models) byID)"
proof (cases "backend = []")
  case True
  with assms show ?thesis by (simp add: merge_inventory_def)
next
  case False
  with r(2) obtain b where Some: "map_of (rc_backends cfg) backend = Some b" by blast
  then have b: "config_backend cfg backend = b" by (simp add: config_backend_def)
  have own: "P m" if "m \<in> set models" "keepEnabledCatalogModel b (om_id m)" for m
    using that by (intro P enabled_onI [OF r(1) _ Some]) auto
  have bare: "P (listed_model (NormalizeDownstream backend (om_id m)) (om_created m) (firstNonEmpty [om_owned_by m, backend]))"
    if "m \<in> set models" "keepEnabledCatalogModel b (om_id m)" "isDefaultBackend cfg backend" for m
    using that by (intro P enabled_onI [OF r(1) _ Some]) auto
  have "entries_ok P (put_models False b models byID)"
    unfolding put_models_def using assms(1) by (rule fold_keeps [rotated]) (auto intro: entries_ok_put own)
  moreover have "entries_ok P (put_aliases False backend b models byID')"
    if "entries_ok P byID'" "isDefaultBackend cfg backend" for byID'
    unfolding put_aliases_def using that(1)
    by (rule fold_keeps [rotated]) (use that(2) in \<open>auto simp: Let_def intro!: entries_ok_put bare\<close>)
  ultimately show ?thesis using assms(1) by (simp add: merge_inventory_def Let_def b)
qed

text \<open>Whatever the order, only configured backends fill slots.\<close>

lemma fetch_into_slots:
  assumes "fold (fetch_into fetch auth cfg) order (slots, s) = (slots', s')"
    and "\<forall>i. map_of slots i \<noteq> None \<longrightarrow> map_of (rc_backends cfg) i \<noteq> None"
  shows "\<forall>i. map_of slots' i \<noteq> None \<longrightarrow> map_of (rc_backends cfg) i \<noteq> None"
  using assms
proof (induction order arbitrary: slots s)
  case (Cons k order)
  obtain slots1 s1 where k: "fetch_into fetch auth cfg k (slots, s) = (slots1, s1)" by (rule prod.exhaust)
  then have "\<forall>i. map_of slots1 i \<noteq> None \<longrightarrow> map_of (rc_backends cfg) i \<noteq> None"
    using Cons.prems(2) by (auto simp: fetch_into_def map_of_put split: option.splits prod.splits if_splits)
  with Cons.IH Cons.prems(1) k show ?case by simp
qed simp

lemma fetch_all_backends:
  assumes "fetch_all fetch order auth cfg ids s = (rs, s')" and "(i, ms) \<in> set rs"
  shows "i = [] \<or> map_of (rc_backends cfg) i \<noteq> None"
proof -
  obtain slots s1 where f: "fold (fetch_into fetch auth cfg) order ([], s) = (slots, s1)" by (rule prod.exhaust)
  have "map_of (rc_backends cfg) k \<noteq> None" if "map_of slots k = Some x" for k x
    using fetch_into_slots [OF f] that by fastforce
  with assms f show ?thesis by (auto simp: fetch_all_def split: option.splits) fastforce
qed

lemma mergeSeedModels_ok:
  assumes "entries_ok P byID" and "\<And>m. m \<in> set seeds \<Longrightarrow> (\<forall>b. seed_backend cfg ids m = Some b \<longrightarrow> IsModelAllowed b (om_id m)) \<Longrightarrow> P m"
  shows "entries_ok P (mergeSeedModels cfg False ids seeds byID)"
  unfolding mergeSeedModels_def using assms(1)
  by (rule fold_keeps [rotated]) (auto split: option.splits intro!: entries_ok_put assms(2))

text \<open>Deduplication keeps one model for each key.\<close>

definition keyed :: "router_config \<Rightarrow> openai_model set \<Rightarrow> openai_model gomap \<Rightarrow> bool" where
  "keyed cfg S byKey \<longleftrightarrow> distinct (map fst byKey) \<and> (\<forall>(k, m) \<in> set byKey. catalogModelKey cfg (om_id m) = k \<and> m \<in> S)"

lemma keyedD: "keyed cfg S byKey \<Longrightarrow> (k, m) \<in> set byKey \<Longrightarrow> catalogModelKey cfg (om_id m) = k \<and> m \<in> S"
  by (auto simp: keyed_def)

lemma keyed_put: "keyed cfg S byKey \<Longrightarrow> m \<in> S \<Longrightarrow> keyed cfg S (put (catalogModelKey cfg (om_id m)) m byKey)"
  by (auto simp: keyed_def set_put distinct_put)

lemma dedupe_fold:
  assumes "keyed cfg S byKey" and "set models \<subseteq> S"
  shows "keyed cfg S (fold (dedupe_step cfg) models byKey) \<and>
    fst ` set (fold (dedupe_step cfg) models byKey) = fst ` set byKey \<union> (\<lambda>m. catalogModelKey cfg (om_id m)) ` set models"
  using assms
proof (induction models arbitrary: byKey)
  case (Cons m models)
  let ?k = "catalogModelKey cfg (om_id m)"
  have s: "dedupe_step cfg m byKey = put ?k m byKey \<or> dedupe_step cfg m byKey = byKey \<and> ?k \<in> fst ` set byKey"
  proof (cases "map_of byKey ?k")
    case (Some cur)
    then have "?k \<in> fst ` set byKey" using map_of_SomeD by force
    with Some show ?thesis by (simp add: dedupe_step_def)
  qed (simp add: dedupe_step_def)
  have "fst ` set (put ?k m byKey) = insert ?k (fst ` set byKey)"
    by (rule dom_put)
  with s have k: "fst ` set (dedupe_step cfg m byKey) = insert ?k (fst ` set byKey)"
    by (elim disjE) (simp, simp add: insert_absorb)
  have "keyed cfg S (dedupe_step cfg m byKey)" using s Cons.prems keyed_put by auto
  from Cons.IH [OF this] Cons.prems(2) k show ?case by auto
qed simp

lemma dedupe_facts:
  "set (dedupeModelsByBackendDownstream cfg models) \<subseteq> set models"
  "inj_on (\<lambda>m. catalogModelKey cfg (om_id m)) (set (dedupeModelsByBackendDownstream cfg models))"
  "m \<in> set models \<Longrightarrow> \<exists>m' \<in> set (dedupeModelsByBackendDownstream cfg models). catalogModelKey cfg (om_id m') = catalogModelKey cfg (om_id m)"
proof -
  let ?d = "dedupeModelsByBackendDownstream cfg models" and ?f = "fold (dedupe_step cfg) models []"
  have f: "keyed cfg (set models) ?f" "fst ` set ?f = (\<lambda>m. catalogModelKey cfg (om_id m)) ` set models"
    using dedupe_fold [of cfg "set models" "[]" models] by (simp_all add: keyed_def)
  have d: "set ?d = (if length models < 2 then set models else snd ` set ?f)"
    by (simp add: dedupeModelsByBackendDownstream_def)
  show "set ?d \<subseteq> set models" using d f(1) by (auto simp: keyed_def)
  show "inj_on (\<lambda>m. catalogModelKey cfg (om_id m)) (set ?d)"
  proof (cases "length models < 2")
    case True
    then have "models = [] \<or> (\<exists>x. models = [x])" by (cases models; cases "tl models") auto
    then show ?thesis using d by auto
  next
    case False
    show ?thesis
    proof (rule inj_onI)
      fix x y
      assume "x \<in> set ?d" "y \<in> set ?d" and e: "catalogModelKey cfg (om_id x) = catalogModelKey cfg (om_id y)"
      then obtain k l where "(k, x) \<in> set ?f" "(l, y) \<in> set ?f" using d False by auto
      moreover from keyedD [OF f(1) this(1)] keyedD [OF f(1) this(2)] e have "k = l" by simp
      ultimately show "x = y" using f(1) by (auto simp: keyed_def dest: eq_key_imp_eq_value)
    qed
  qed
  show "\<exists>m' \<in> set ?d. catalogModelKey cfg (om_id m') = catalogModelKey cfg (om_id m)" if m: "m \<in> set models"
  proof (cases "length models < 2")
    case False
    have "catalogModelKey cfg (om_id m) \<in> fst ` set ?f" using f(2) m by blast
    then obtain m' where "(catalogModelKey cfg (om_id m), m') \<in> set ?f" by auto
    moreover from this have "m' \<in> set ?d" using d False by (simp add: rev_image_eqI)
    ultimately show ?thesis using keyedD [OF f(1)] by blast
  qed (use d m in auto)
qed

lemma modelsForSurface_subset: "set (modelsForSurface cfg all surface) \<subseteq> set all"
  using dedupe_facts(1) by (fastforce simp: modelsForSurface_def partitionModels_def)

section \<open>Properties\<close>

text \<open>C38: Nothing is listed that the gateway would refuse by its gates: every model of a list is a named
  router, or a model that a configured backend reported in this pass and that the allow lists of
  that same backend admit (as reported or, for a default backend, its alias under the bare id), or
  is a configured speech model that no gate refuses. That holds for every answer of the backends,
  every cache and every order in which the fetches run.\<close>

theorem listed_models_are_enabled:
  assumes "collectModelsWith fetch order cfg auth False s = (all, s')" and "m \<in> set (modelsForSurface cfg all surface)"
  shows "m \<in> set (routerCatalogModels cfg) \<or> enabled_on cfg (fst (fetch_all fetch order auth cfg (BackendIDs cfg) s)) m \<or>
    (m \<in> set (seedModelsFromEnv cfg) \<and>
      (\<forall>b. seed_backend cfg (BackendIDs cfg) m = Some b \<longrightarrow> IsModelAllowed b (om_id m)))"
proof -
  obtain rs s1 where rs: "fetch_all fetch order auth cfg (BackendIDs cfg) s = (rs, s1)" by (rule prod.exhaust)
  let ?P = "\<lambda>m. enabled_on cfg rs m \<or> (m \<in> set (seedModelsFromEnv cfg) \<and>
      (\<forall>b. seed_backend cfg (BackendIDs cfg) m = Some b \<longrightarrow> IsModelAllowed b (om_id m)))"
  let ?byID = "mergeBackendInventories cfg False rs"
  let ?merged = "mergeSeedModels cfg False (BackendIDs cfg) (seedModelsFromEnv cfg) ?byID"
  have "entries_ok ?P ?byID" unfolding mergeBackendInventories_def
  proof (rule fold_keeps)
    show "entries_ok ?P (merge_inventory cfg False x byID)" if "x \<in> set rs" "entries_ok ?P byID" for x byID
    proof (cases x)
      case (Pair i ms)
      with that fetch_all_backends [OF rs, of i ms] show ?thesis by (auto intro: merge_inventory_ok)
    qed
  qed (simp add: entries_ok_def)
  then have ok: "entries_ok ?P ?merged" by (rule mergeSeedModels_ok) blast
  have "all = finalizeModelList (routerCatalogModels cfg) ?merged"
    using assms(1) rs by (simp add: collectModelsWith_def Let_def)
  then have "m \<in> set (routerCatalogModels cfg) \<or> m \<in> snd ` set ?merged"
    using modelsForSurface_subset assms(2) by (fastforce simp: finalizeModelList_def)
  with ok rs show ?thesis by (auto simp: entries_ok_def)
qed

text \<open>A lookup agrees with the list it belongs to: a listed model is found under its id, and a model
  the list leaves out as a duplicate is found as the one kept for the same backend and downstream.
  What a lookup finds is listed, and no model is on both surfaces.\<close>

theorem lookup_agrees_with_list:
  shows "(\<forall>m \<in> set (modelsForSurface cfg all surface). lookupModelForSurface cfg all surface (om_id m) = Some m) \<and>
    (\<forall>m \<in> set (partitionModels cfg all surface). \<exists>m' \<in> set (modelsForSurface cfg all surface).
       catalogModelKey cfg (om_id m') = catalogModelKey cfg (om_id m) \<and>
       lookupModelForSurface cfg all surface (om_id m) = Some m') \<and>
    (\<forall>m. lookupModelForSurface cfg all surface i = Some m \<longrightarrow> m \<in> set (modelsForSurface cfg all surface)) \<and>
    om_id ` set (modelsForSurface cfg all surfaceOpenAI) \<inter> om_id ` set (modelsForSurface cfg all surfaceSystemOne) = {}"
proof -
  let ?L = "modelsForSurface cfg all surface" and ?k = "\<lambda>m. catalogModelKey cfg (om_id m)"
  have inj: "inj_on ?k (set ?L)" and sub: "set ?L \<subseteq> set (partitionModels cfg all surface)"
    using dedupe_facts unfolding modelsForSurface_def by blast+
  have found: "lookupModelForSurface cfg all surface (om_id m) = Some m'" if "m' \<in> set ?L" "?k m' = ?k m" for m m'
  proof (cases "find (\<lambda>x. om_id x = om_id m \<or> ?k x = ?k m) ?L")
    case None
    with that show ?thesis by (auto simp: find_None_iff)
  next
    case (Some x)
    then have "x \<in> set ?L" "?k x = ?k m" by (auto simp: find_Some_iff)
    then have "x = m'" using inj_onD [OF inj, of x m'] that by simp
    with Some show ?thesis by (simp add: lookupModelForSurface_def Let_def)
  qed
  have 2: "\<forall>m \<in> set (partitionModels cfg all surface). \<exists>m' \<in> set ?L. ?k m' = ?k m \<and> lookupModelForSurface cfg all surface (om_id m) = Some m'"
    using dedupe_facts(3) [of _ "partitionModels cfg all surface" cfg] found unfolding modelsForSurface_def by blast
  have 3: "\<forall>m. lookupModelForSurface cfg all surface i = Some m \<longrightarrow> m \<in> set ?L"
    by (auto simp: lookupModelForSurface_def Let_def find_Some_iff)
  have 4: "om_id ` set (modelsForSurface cfg all surfaceOpenAI) \<inter> om_id ` set (modelsForSurface cfg all surfaceSystemOne) = {}"
    using dedupe_facts(1) [of cfg "partitionModels cfg all surfaceOpenAI"] dedupe_facts(1) [of cfg "partitionModels cfg all surfaceSystemOne"]
    by (auto simp: modelsForSurface_def partitionModels_def) (metis (no_types, lifting) Int_iff mem_Collect_eq set_filter subsetD)
  show ?thesis using found 2 3 4 by blast
qed

text \<open>What a fetch leaves alone.\<close>

lemma with_fetch_cache: "with_fetch f s = (ms, s') \<Longrightarrow> mh_cache s' = mh_cache s"
  by (auto simp: with_fetch_def split: prod.splits)

lemma liveOrCached_facts:
  assumes "liveOrCached env b live fallback s = (ms, s')"
  shows "mh_up s' = mh_up s \<and> (\<forall>k. k \<noteq> bk_id b \<longrightarrow> map_of (ic_entries (mh_cache s')) k = map_of (ic_entries (mh_cache s)) k) \<and>
    (if live \<noteq> [] then ms = mergeEnabledSyntheticMissing b live \<and>
        (ms \<noteq> [] \<longrightarrow> map_of (ic_entries (mh_cache s')) (bk_id b) = Some (mo_clock env (mh_up s), ms))
     else mh_cache s' = mh_cache s \<and>
       ms = (case ic_get (mo_clock env (mh_up s)) (bk_id b) (mh_cache s) of
               Some cached \<Rightarrow> cached | None \<Rightarrow> mergeEnabledSyntheticMissing b fallback))"
  using assms by (auto simp: liveOrCached_def ic_put_def Let_def map_of_put split: if_splits option.splits)

text \<open>A refresh keeps the last list: it answers what the backend listed just now, with the configured
  models added, and stores that; or, when the backend gave nothing, the stored list while it is not
  too old; or else the configured models. It touches the entry of no other backend, and a list that
  was stored is what a request is served, without asking the backend, until it is too old.\<close>

theorem refresh_keeps_the_last_list:
  assumes "refreshBackend env ctx cfg auth b s = (ms, s')" and "syncsModels b"
  shows "((\<exists>live. live \<noteq> [] \<and> ms = mergeEnabledSyntheticMissing b live \<and>
       (ms \<noteq> [] \<longrightarrow> map_of (ic_entries (mh_cache s')) (bk_id b) = Some (mo_clock env (mh_up s'), ms))) \<or>
     (mh_cache s' = mh_cache s \<and>
       (case ic_get (mo_clock env (mh_up s')) (bk_id b) (mh_cache s) of
          Some cached \<Rightarrow> ms = cached
        | None \<Rightarrow> ms \<in> {mergeEnabledSyntheticMissing b [], mergeEnabledSyntheticMissing b (seedModelsForBackend cfg (bk_id b))}))) \<and>
    (k \<noteq> bk_id b \<longrightarrow> map_of (ic_entries (mh_cache s')) k = map_of (ic_entries (mh_cache s)) k) \<and>
    (map_of (ic_entries (mh_cache s')) (bk_id b) = Some (t, ms) \<and> ms \<noteq> [] \<and>
       time_sub (mo_clock env u) t \<le> ic_ttl (mh_cache s') \<longrightarrow>
       inventoryForBackend env ctx cfg auth b (s'\<lparr>mh_up := u\<rparr>) = (ms, s'\<lparr>mh_up := u\<rparr>))"
proof -
  obtain live fb s1 where l: "liveOrCached env b live fb s1 = (ms, s')" "mh_cache s1 = mh_cache s"
    "fb \<in> {[], seedModelsForBackend cfg (bk_id b)}"
  proof (cases "liveCatalogClient env b")
    case None
    obtain live s1 where f: "with_fetch (fetchBackendModelsProtected env ctx auth b) s = (live, s1)" by (rule prod.exhaust)
    obtain live1 s2 where g: "(if mo_openrouter env (bk_base_url b)
        then with_fetch (mergeOpenRouterDecisionModels env ctx auth b live) s1 else (live, s1)) = (live1, s2)" by (rule prod.exhaust)
    have "mh_cache s2 = mh_cache s" using with_fetch_cache f g by (metis prod.inject)
    then show ?thesis using that [of live1 "seedModelsForBackend cfg (bk_id b)" s2] assms None f g
      by (simp add: refreshBackend_def)
  next
    case (Some r)
    show ?thesis
    proof (cases r)
      case (Inl e)
      then show ?thesis using that [of "[]" "[]" s] assms Some by (simp add: refreshBackend_def)
    next
      case (Inr client)
      obtain live s1 where f: "with_fetch (catalogInventory env ctx b client) s = (live, s1)" by (rule prod.exhaust)
      then show ?thesis using that [of live "[]" s1] with_fetch_cache [OF f] assms Some Inr by (simp add: refreshBackend_def)
    qed
  qed
  note facts = liveOrCached_facts [OF l(1)]
  have 1: "(\<exists>live. live \<noteq> [] \<and> ms = mergeEnabledSyntheticMissing b live \<and>
       (ms \<noteq> [] \<longrightarrow> map_of (ic_entries (mh_cache s')) (bk_id b) = Some (mo_clock env (mh_up s'), ms))) \<or>
     (mh_cache s' = mh_cache s \<and>
       (case ic_get (mo_clock env (mh_up s')) (bk_id b) (mh_cache s) of
          Some cached \<Rightarrow> ms = cached
        | None \<Rightarrow> ms \<in> {mergeEnabledSyntheticMissing b [], mergeEnabledSyntheticMissing b (seedModelsForBackend cfg (bk_id b))}))"
  proof (cases "live = []")
    case True
    with facts l(2,3) show ?thesis by (intro disjI2) (auto split: option.splits)
  next
    case False
    with facts show ?thesis by (intro disjI1 exI [of _ live]) simp
  qed
  have 2: "k \<noteq> bk_id b \<longrightarrow> map_of (ic_entries (mh_cache s')) k = map_of (ic_entries (mh_cache s)) k"
    using facts l(2) by simp
  have 3: "map_of (ic_entries (mh_cache s')) (bk_id b) = Some (t, ms) \<and> ms \<noteq> [] \<and>
       time_sub (mo_clock env u) t \<le> ic_ttl (mh_cache s') \<longrightarrow>
       inventoryForBackend env ctx cfg auth b (s'\<lparr>mh_up := u\<rparr>) = (ms, s'\<lparr>mh_up := u\<rparr>)"
    using assms(2) by (auto simp: inventoryForBackend_def ic_get_def)
  from 1 2 3 show ?thesis by blast
qed

text \<open>A fetch from a remote backend does not read the caller's credential.\<close>

lemma remote_fetch:
  assumes "bk_remote b"
  shows "fetchBackendModelsAtURL env ctx auth b target = fetchBackendModelsAtURL env ctx auth' b target"
  by (rule ext) (auto simp: fetchBackendModelsAtURL_def assms split: sum.splits)

lemma remote_inventory:
  assumes "bk_remote b"
  shows "inventoryForBackend env ctx cfg auth b = inventoryForBackend env ctx cfg auth' b"
proof -
  have p: "fetchBackendModelsProtected env ctx auth b = fetchBackendModelsProtected env ctx auth' b"
    using remote_fetch [OF assms, of env ctx auth _ auth'] by (intro ext) (simp add: fetchBackendModelsProtected_def fetchBackendModels_def)
  have q: "mergeOpenRouterDecisionModels env ctx auth b = mergeOpenRouterDecisionModels env ctx auth' b"
    using remote_fetch [OF assms, of env ctx auth _ auth'] by (intro ext) (simp add: mergeOpenRouterDecisionModels_def)
  have r: "refreshBackend env ctx cfg auth b s = refreshBackend env ctx cfg auth' b s" for s
    unfolding refreshBackend_def p q by (rule refl)
  show ?thesis by (intro ext) (unfold inventoryForBackend_def r, rule refl)
qed

text \<open>C39: The caller's credential stays here: what a pass does and lists does not depend on the
  \<open>Authorization\<close> header of the request as far as remote backends are concerned.\<close>

theorem caller_key_stays_local:
  assumes "\<forall>i b. map_of (rc_backends cfg) i = Some b \<longrightarrow> bk_remote b"
  shows "collectModels env ctx order cfg auth asInventory s = collectModels env ctx order cfg auth' asInventory s \<and>
    collectModelsForRetrieve env ctx order cfg auth asInventory surface target s =
      collectModelsForRetrieve env ctx order cfg auth' asInventory surface target s"
proof -
  have i: "inventoryForBackend env ctx cfg auth b = inventoryForBackend env ctx cfg auth' b"
    if "map_of (rc_backends cfg) i = Some b" for i b
    using that assms by (intro remote_inventory) blast
  then have "fetch_into (inventoryForBackend env ctx cfg) auth cfg = fetch_into (inventoryForBackend env ctx cfg) auth' cfg"
    by (intro ext) (auto simp: fetch_into_def split: option.splits)
  then have c: "collectModels env ctx order cfg auth v s = collectModels env ctx order cfg auth' v s" for v s
    by (simp add: collectModels_def collectModelsWith_def fetch_all_def)
  with i show ?thesis by (auto simp: collectModelsForRetrieve_def Let_def split: option.splits)
qed

section \<open>Witnesses\<close>

definition plain_backend :: "string \<Rightarrow> capability list \<Rightarrow> bool \<Rightarrow> backend_def" where
  "plain_backend i caps remote = \<lparr>bk_id = i, bk_remote = remote, bk_extension = [], bk_base_url = ''http://'' @ i, bk_bearer_env = ''K'',
     bk_extra_headers = [], bk_capabilities = caps, bk_models = None, bk_prompt_cache = None\<rparr>"

definition two_backends :: router_config where
  "two_backends = (default_config ''http://mlx'')
     \<lparr>rc_chat := \<lparr>cb_enabled = True, cb_default = ''oa''\<rparr>, rc_systemone := \<lparr>cb_enabled = True, cb_default = ''sy''\<rparr>,
      rc_backends := [(''oa'', plain_backend ''oa'' [CapChat] True), (''sy'', plain_backend ''sy'' [CapChat, CapSystemOne] True)]\<rparr>"

text \<open>A world that answers the first request with one model and then is down; the state is a clock.\<close>

definition one_model_env :: "(count_breaker, nat, int) models_env" where
  "one_model_env = \<lparr>mo_api = count_api, mo_clock = (\<lambda>t. t), mo_catalog = (\<lambda>b. Inl (Leaf ''no catalog'')),
     mo_compat = Some (\<lambda>auth. \<lparr>tr_request = (\<lambda>_. None),
       tr_send = (\<lambda>ctx retry meth target body t. (if t < 10 then Inr \<lparr>ha_status = 200, ha_header = [],
         ha_body = Inr (''['' @ ''{'' @ json_quote ''id'' @ '':'' @ json_quote ''gpt'' @ ''}'' @ '']'')\<rparr> else Inl (Leaf ''down''), t + 10))\<rparr>),
     mo_list_url = (\<lambda>u. u @ ''/v1/models''), mo_decisions_url = (\<lambda>u. u), mo_openrouter = (\<lambda>_. False),
     mo_sanitize = (\<lambda>s. s), mo_environ = (\<lambda>_. ''tok'')\<rparr>"

definition empty_models :: "(count_breaker, int) models_state" where
  "empty_models = \<lparr>mh_board = None, mh_cache = newModelsInventoryCache (Inl (Leaf ''none'')) 100
     \<lparr>dk_files = [], dk_temps = [], dk_next = 0, dk_unsynced = [], dk_stale = [], dk_faults = []\<rparr>, mh_up = 0\<rparr>"

text \<open>On the OpenAI surface the bare id of a chat model is the alias of its default chat backend: that
  is where a request for it goes. The lookup answers with the model of the SystemOne backend that has
  the same bare id, because every bare id is keyed under the SystemOne backend once there is one; the
  alias itself is dropped from the list.\<close>

theorem bare_alias_names_another_backend:
  "lookupModelForSurface two_backends
     [listed_model ''gpt'' 0 ''oa'', listed_model ''oa/gpt'' 0 ''oa'', listed_model ''sy/gpt'' 0 ''sy''] surfaceOpenAI ''gpt'' =
     Some (listed_model ''sy/gpt'' 0 ''sy'') \<and>
   reg_ResolveChat (Some two_backends) ''gpt'' = Inr (''oa'', ''gpt'') \<and>
   map om_id (modelsForSurface two_backends
     [listed_model ''gpt'' 0 ''oa'', listed_model ''oa/gpt'' 0 ''oa'', listed_model ''sy/gpt'' 0 ''sy''] surfaceOpenAI) = [''oa/gpt'', ''sy/gpt'']"
  by code_simp

text \<open>The same two backends with an allow list each: \<open>oa\<close> admits \<open>gpt\<close>, \<open>sy\<close> admits nothing.\<close>

definition allowing :: "string list \<Rightarrow> backend_def \<Rightarrow> backend_def" where
  "allowing ms b = b\<lparr>bk_models := Some \<lparr>bm_sync = None, bm_allow_configured = True, bm_allow = ms,
     bm_systemone_allow_configured = True, bm_systemone_allow = []\<rparr>\<rparr>"

definition two_gates :: router_config where
  "two_gates = two_backends\<lparr>rc_backends :=
     [(''oa'', allowing [''gpt''] (plain_backend ''oa'' [CapChat] True)),
      (''sy'', allowing [] (plain_backend ''sy'' [CapChat, CapSystemOne] True))]\<rparr>"

text \<open>A pass over them. Asked first, \<open>oa\<close> reports \<open>gpt\<close> and it is listed, under both its ids; asked
  after \<open>sy\<close>, which then has reported \<open>gpt\<close> and does not admit it, \<open>oa\<close> is down and its configured
  model is listed. The model of \<open>sy\<close> never is.\<close>

lemma two_gates_pass:
  "map om_id (modelsForSurface two_gates (fst (collectModels one_model_env None [''oa'', ''sy''] two_gates auth False empty_models)) surfaceOpenAI) =
     [''gpt'', ''oa/gpt'']"
  "map om_id (modelsForSurface two_gates (fst (collectModels one_model_env None [''sy'', ''oa''] two_gates auth False empty_models)) surfaceOpenAI) =
     [''gpt'', ''oa/gpt'']"
  "map (\<lambda>(i, ms). (i, map om_id ms)) (fst (fetch_all (inventoryForBackend one_model_env None two_gates) [''sy'', ''oa''] auth two_gates
     (BackendIDs two_gates) empty_models)) = [(''oa'', [''oa/gpt'']), (''sy'', [''sy/gpt''])]"
  by code_simp+

theorem listed_models_are_enabled_witness:
  "\<exists>all s' m. collectModels one_model_env None [''sy'', ''oa''] two_gates ''Bearer me'' False empty_models = (all, s') \<and>
     m \<in> set (modelsForSurface two_gates all surfaceOpenAI) \<and> om_id m = ''oa/gpt'' \<and>
     enabled_on two_gates (fst (fetch_all (inventoryForBackend one_model_env None two_gates) [''sy'', ''oa''] ''Bearer me'' two_gates
       (BackendIDs two_gates) empty_models)) m"
proof -
  obtain all s' where a: "collectModels one_model_env None [''sy'', ''oa''] two_gates ''Bearer me'' False empty_models = (all, s')"
    by (rule prod.exhaust)
  have "''oa/gpt'' \<in> set (map om_id (modelsForSurface two_gates all surfaceOpenAI))"
    using two_gates_pass(2) [of "''Bearer me''"] a by simp
  then obtain m where m: "m \<in> set (modelsForSurface two_gates all surfaceOpenAI)" "om_id m = ''oa/gpt''" by auto
  have "routerCatalogModels two_gates = []" "seedModelsFromEnv two_gates = []" by code_simp+
  with listed_models_are_enabled [OF a [unfolded collectModels_def] m(1)] a m show ?thesis by auto
qed

theorem lookup_agrees_with_list_witness:
  "lookupModelForSurface two_backends [listed_model ''oa/gpt'' 0 ''oa''] surfaceOpenAI ''oa/gpt'' = Some (listed_model ''oa/gpt'' 0 ''oa'')"
proof -
  have "listed_model ''oa/gpt'' 0 ''oa'' \<in> set (modelsForSurface two_backends [listed_model ''oa/gpt'' 0 ''oa''] surfaceOpenAI)"
    by code_simp
  with lookup_agrees_with_list [of two_backends "[listed_model ''oa/gpt'' 0 ''oa'']" surfaceOpenAI] show ?thesis by force
qed

theorem refresh_keeps_the_last_list_witness:
  "\<exists>ms s'. refreshBackend one_model_env None two_backends [] (plain_backend ''oa'' [CapChat] True) empty_models = (ms, s') \<and>
     ms = [listed_model ''oa/gpt'' 0 ''oa''] \<and>
     inventoryForBackend one_model_env None two_backends [] (plain_backend ''oa'' [CapChat] True) (s'\<lparr>mh_up := 50\<rparr>) = (ms, s'\<lparr>mh_up := 50\<rparr>)"
proof -
  let ?b = "plain_backend ''oa'' [CapChat] True"
  obtain ms s' where r: "refreshBackend one_model_env None two_backends [] ?b empty_models = (ms, s')" by (rule prod.exhaust)
  have "fst (refreshBackend one_model_env None two_backends [] ?b empty_models) = [listed_model ''oa/gpt'' 0 ''oa'']" by code_simp
  moreover have "map_of (ic_entries (mh_cache (snd (refreshBackend one_model_env None two_backends [] ?b empty_models)))) (bk_id ?b) =
      Some (10, [listed_model ''oa/gpt'' 0 ''oa''])" by code_simp
  moreover have "ic_ttl (mh_cache (snd (refreshBackend one_model_env None two_backends [] ?b empty_models))) = 100" by code_simp
  moreover have "syncsModels ?b" by (simp add: syncsModels_def plain_backend_def)
  moreover have "time_sub (mo_clock one_model_env 50) 10 = 40" by (simp add: one_model_env_def time_sub_def)
  ultimately show ?thesis
    using refresh_keeps_the_last_list [OF r, of _ 10 50] r by simp
qed

theorem caller_key_stays_local_witness:
  "collectModels one_model_env None [''sy'', ''oa''] two_backends ''Bearer me'' False empty_models =
     collectModels one_model_env None [''sy'', ''oa''] two_backends ''Bearer you'' False empty_models"
proof -
  have "\<forall>i b. map_of (rc_backends two_backends) i = Some b \<longrightarrow> bk_remote b"
    by (auto simp: two_backends_def plain_backend_def split: if_splits)
  from caller_key_stays_local [OF this] show ?thesis by blast
qed

end
