(* ===== verification/Json_Values.thy ===== *)
theory Json_Values
  imports Json
begin

text \<open>
  Go's untyped JSON values: what \<open>json.Decoder\<close> with \<open>UseNumber\<close> stores in an \<open>any\<close>, and the
  text \<open>json.Marshal\<close> writes for such a value. The main fact is the round trip: the text of a
  value parses, with anything after it left over, and reads back as that value, its object
  members in key order and a Go integer as the number it was written as.
\<close>

section \<open>Values\<close>

datatype goany =
    ANil
  | ABool bool
  | ANum string
  | AInt int
  | AStr string
  | AList "goany list"
  | AMap "(string \<times> goany) list"

text \<open>Decoding a tree into an \<open>any\<close>: a \<open>json.Number\<close> keeps its text, and of repeated keys the
  last wins.\<close>

fun any_of :: "json \<Rightarrow> goany" where
  "any_of JNull = ANil"
| "any_of (JBool b) = ABool b"
| "any_of (JNum t) = ANum t"
| "any_of (JStr t) = AStr t"
| "any_of (JArr es) = AList (map (\<lambda>(raw, v). any_of v) es)"
| "any_of (JObj ms) = AMap (fold (\<lambda>(k, v). put k v) (map (\<lambda>(k, raw, v). (k, any_of v)) ms) [])"

text \<open>The type assertions and the map lookup of the handlers: \<open>m[k]\<close> is nil where \<open>k\<close> is absent.\<close>

fun any_map :: "goany \<Rightarrow> goany gomap option" where
  "any_map (AMap m) = Some m"
| "any_map v = None"

fun any_list :: "goany \<Rightarrow> goany list option" where
  "any_list (AList xs) = Some xs"
| "any_list v = None"

fun any_string :: "goany \<Rightarrow> string option" where
  "any_string (AStr s) = Some s"
| "any_string v = None"

fun any_bool :: "goany \<Rightarrow> bool option" where
  "any_bool (ABool b) = Some b"
| "any_bool v = None"

definition any_at :: "string \<Rightarrow> goany gomap \<Rightarrow> goany" where
  "any_at k m = (case map_of m k of None \<Rightarrow> ANil | Some v \<Rightarrow> v)"

section \<open>Encoding\<close>

text \<open>The encoder accepts a \<open>json.Number\<close> that is a JSON number; the empty one is \<open>0\<close>.\<close>

definition number_text :: "string \<Rightarrow> string option" where
  "number_text t = (if t = [] then Some ''0'' else if parse_num t = Some (t, []) then Some t else None)"

fun texts :: "string option list \<Rightarrow> string list option" where
  "texts [] = Some []"
| "texts (None # ts) = None"
| "texts (Some t # ts) = map_option (\<lambda>us. t # us) (texts ts)"

definition member_of :: "string \<times> string option \<Rightarrow> string option" where
  "member_of kt = (case kt of (k, t) \<Rightarrow> map_option (\<lambda>u. json_quote k @ '':'' @ u) t)"

definition key_order :: "(string \<times> 'v) list \<Rightarrow> (string \<times> 'v) list" where
  "key_order m = map (\<lambda>k. (k, the (map_of m k))) (sorted_keys m)"

fun marshal_any :: "goany \<Rightarrow> string option" where
  "marshal_any ANil = Some ''null''"
| "marshal_any (ABool b) = Some (if b then ''true'' else ''false'')"
| "marshal_any (ANum t) = number_text t"
| "marshal_any (AInt i) = Some (itoa i)"
| "marshal_any (AStr s) = Some (json_quote s)"
| "marshal_any (AList xs) = map_option (\<lambda>ts. ''['' @ join '','' ts @ '']'') (texts (map marshal_any xs))"
| "marshal_any (AMap m) =
     map_option (\<lambda>ts. ''{'' @ join '','' ts @ ''}'')
       (texts (map member_of (key_order (map (\<lambda>(k, v). (k, marshal_any v)) m))))"

section \<open>Strings read back\<close>

lemma in_range_nat: "in_range lo hi c \<longleftrightarrow> lo \<le> (of_char c :: nat) \<and> (of_char c :: nat) \<le> hi"
  by (simp add: in_range_def)

lemma char_eq_nat: "c = d \<longleftrightarrow> (of_char c :: nat) = of_char d"
  by simp

lemma hex_val_hex_digit: "d < 16 \<Longrightarrow> hex_val (hex_digit d) = Some d"
proof -
  assume "d < 16"
  then have "d \<in> {0, 1, 2, 3, 4, 5, 6, 7, 8, 9, 10, 11, 12, 13, 14, 15}" unfolding insert_iff empty_iff by presburger
  then show ?thesis
    by (elim insertE emptyE) (simp_all add: hex_val_def hex_digit_def is_digit_def digit_val_def of_char_less_eq)
qed

lemma parse_unicode_escape:
  assumes "in_range 0 0x7F c"
  shows "parse_chars (unicode_escape c @ r) = map_option (\<lambda>(t, r1). (c # t, r1)) (parse_chars r)"
proof -
  have c: "of_char c < (128 :: nat)" using assms by (simp add: in_range_nat)
  have d: "(of_char c :: nat) div 16 < 16" "(of_char c :: nat) mod 16 < 16" using c by auto
  have z: "hex_val (CHR ''0'') = Some 0" by (simp add: hex_val_def is_digit_def digit_val_def of_char_less_eq)
  have u: "simple_escape (CHR ''u'') = None" by (simp add: simple_escape_def)
  have e: "unit_text (of_char c) r = ([c], r)" using c by (simp add: unit_text_def utf8_encode_def)
  show ?thesis
    using d e by (simp add: unicode_escape_def u z hex_val_hex_digit)
qed

lemma parse_quote_char:
  assumes "in_range 0 0x7F c"
  shows "parse_chars (quote_char c @ r) = map_option (\<lambda>(t, r1). (c # t, r1)) (parse_chars r)"
proof -
  have "\<not> in_range 0 0x1F c \<or> in_range 0 0x1F c" by blast
  then show ?thesis
    using parse_unicode_escape [OF assms, of r]
    by (auto simp: quote_char_def simple_escape_def)
qed

lemma parse_plain:
  assumes "\<forall>c \<in> set t. in_range 0x80 0xFF c"
  shows "parse_chars (t @ r) = map_option (\<lambda>(u, r1). (t @ u, r1)) (parse_chars r)"
  using assms
proof (induction t)
  case (Cons c t)
  then have "c \<noteq> CHR 0x22" "c \<noteq> CHR 0x5C" "\<not> in_range 0 0x1F c" by (auto simp: in_range_nat)
  with Cons show ?case by (simp add: option.map_comp comp_def split_beta)
qed (simp add: option.map_id split_beta)

lemma char_of_bytes:
  "char_of (239 :: nat) = CHR 0xEF" "char_of (191 :: nat) = CHR 0xBF" "char_of (189 :: nat) = CHR 0xBD"
  "char_of (226 :: nat) = CHR 0xE2" "char_of (128 :: nat) = CHR 0x80" "char_of (168 :: nat) = CHR 0xA8"
  "char_of (169 :: nat) = CHR 0xA9"
  by (simp_all add: char_of_def bit_iff_odd)

lemma parse_ufffd:
  "parse_chars (CHR 0x5C # ''ufffd'' @ r) = map_option (\<lambda>(t, r1). (replacement @ t, r1)) (parse_chars r)"
  by (simp add: simple_escape_def hex_val_def is_digit_def digit_val_def of_char_less_eq unit_text_def utf8_encode_def
      replacement_def char_of_bytes)

lemma parse_sep_escape:
  assumes "line_sep s"
  shows "parse_chars (sep_escape s @ r) = map_option (\<lambda>(t, r1). (take 3 s @ t, r1)) (parse_chars r)"
proof -
  have "take 3 s = [CHR 0xE2, CHR 0x80, CHR 0xA8] \<or> take 3 s = [CHR 0xE2, CHR 0x80, CHR 0xA9]"
    using assms by (auto simp: line_sep_def has_prefix_iff)
  then show ?thesis
    using assms by (auto simp: line_sep_def sep_escape_def has_prefix_iff simple_escape_def hex_val_def is_digit_def
      digit_val_def of_char_less_eq unit_text_def utf8_encode_def char_of_bytes)
qed

text \<open>The shape of a valid character.\<close>

lemma utf8_len_take:
  assumes "utf8_len s = n" "0 < n"
  shows "n \<le> length s" "utf8_len (take n s @ x) = n"
    "\<not> in_range 0 0x7F (hd s) \<Longrightarrow> \<forall>c \<in> set (take n s). in_range 0x80 0xFF c"
    "in_range 0 0x7F (hd s) \<Longrightarrow> n = 1"
proof -
  obtain b bs where s: "s = b # bs" using assms by (cases s) auto
  have e: "n = 1 \<and> in_range 0 0x7F b \<or>
      (\<exists>b1 bs1. bs = b1 # bs1 \<and> (n = 2 \<and> in_range 0xC2 0xDF b \<and> cont b1 \<or>
        (\<exists>b2 bs2. bs1 = b2 # bs2 \<and> (n = 3 \<and> in_range 0xE0 0xEF b \<and> second_of_3 b b1 \<and> cont b2 \<or>
          (\<exists>b3 bs3. bs2 = b3 # bs3 \<and> n = 4 \<and> in_range 0xF0 0xF4 b \<and> second_of_4 b b1 \<and> cont b2 \<and> cont b3)))))"
    using assms unfolding s
    by (cases bs; cases "tl bs"; cases "tl (tl bs)") (auto split: if_splits)
  have r: "in_range 0xC2 0xDF b \<Longrightarrow> in_range 0x80 0xFF b \<and> \<not> in_range 0 0x7F b"
    "in_range 0xE0 0xEF b \<Longrightarrow> in_range 0x80 0xFF b \<and> \<not> in_range 0 0x7F b \<and> \<not> in_range 0xC2 0xDF b"
    "in_range 0xF0 0xF4 b \<Longrightarrow> in_range 0x80 0xFF b \<and> \<not> in_range 0 0x7F b \<and> \<not> in_range 0xC2 0xDF b \<and> \<not> in_range 0xE0 0xEF b"
    "cont c \<Longrightarrow> in_range 0x80 0xFF c" "second_of_3 b c \<Longrightarrow> in_range 0x80 0xFF c"
    "second_of_4 b c \<Longrightarrow> in_range 0x80 0xFF c" for c
    by (auto simp: in_range_nat second_of_3_def second_of_4_def split: if_splits)
  show "n \<le> length s" using e unfolding s by auto
  show "utf8_len (take n s @ x) = n" using e r unfolding s by (elim disjE exE conjE) simp_all
  show "\<not> in_range 0 0x7F (hd s) \<Longrightarrow> \<forall>c \<in> set (take n s). in_range 0x80 0xFF c"
    using e r unfolding s by (elim disjE exE conjE) simp_all
  show "in_range 0 0x7F (hd s) \<Longrightarrow> n = 1"
    using e r unfolding s by (elim disjE exE conjE) simp_all
qed

lemma utf8_fix_step:
  assumes "utf8_len (b # bs) = n" "0 < n"
  shows "utf8_fix (b # bs) = take n (b # bs) @ utf8_fix (drop n (b # bs))"
  using assms by (cases n) simp_all

lemma utf8_len_line_sep: "line_sep s \<Longrightarrow> utf8_len s = 3"
  by (auto simp: line_sep_def has_prefix_iff in_range_nat second_of_3_def)

text \<open>A string literal is read back as the string with its invalid bytes replaced.\<close>

lemma parse_json_chars: "parse_chars (json_chars s @ CHR 0x22 # r) = Some (utf8_fix s, r)"
proof (induction s rule: json_chars.induct)
  case (2 b bs)
  show ?case
  proof (cases "in_range 0 0x7F b")
    case True
    then show ?thesis using 2 by (simp add: parse_quote_char)
  next
    case F: False
    show ?thesis
    proof (cases "line_sep (b # bs)")
      case True
      then have "utf8_fix (b # bs) = take 3 (b # bs) @ utf8_fix (drop 3 (b # bs))"
        by (intro utf8_fix_step utf8_len_line_sep) auto
      then show ?thesis using 2 F True parse_sep_escape [OF True]
        by (simp del: utf8_fix.simps parse_chars.simps)
    next
      case G: False
      show ?thesis
      proof (cases "utf8_len (b # bs) = 0")
        case True
        then show ?thesis using 2 F G parse_ufffd by (simp del: utf8_len.simps parse_chars.simps)
      next
        case N: False
        then obtain n where n: "utf8_len (b # bs) = Suc n" by (cases "utf8_len (b # bs)") auto
        then have p: "\<forall>c \<in> set (b # take n bs). in_range 0x80 0xFF c"
          using utf8_len_take(3) [OF n] F by simp
        have "json_chars (b # bs) = (b # take n bs) @ json_chars (drop n bs)"
          using F G n by (simp del: utf8_len.simps)
        moreover have "utf8_fix (b # bs) = (b # take n bs) @ utf8_fix (drop n bs)"
          using n by (simp del: utf8_len.simps)
        ultimately show ?thesis
          using 2(4) [OF F G refl] n parse_plain [OF p] by (simp del: utf8_len.simps parse_chars.simps json_chars.simps utf8_fix.simps)
      qed
    qed
  qed
qed simp

lemma utf8_fix_idem [simp]: "utf8_fix (utf8_fix s) = utf8_fix s"
proof (induction s rule: utf8_fix.induct)
  case (2 b bs)
  show ?case
  proof (cases "utf8_len (b # bs) = 0")
    case True
    have "utf8_fix (replacement @ x) = replacement @ utf8_fix x" for x
    proof -
      have "utf8_len (replacement @ x) = 3" by (simp add: replacement_def in_range_nat second_of_3_def)
      then show ?thesis by (simp add: replacement_def del: utf8_len.simps)
    qed
    then show ?thesis using 2(1) True by (simp del: utf8_len.simps)
  next
    case False
    then obtain n where n: "utf8_len (b # bs) = Suc n" by (cases "utf8_len (b # bs)") auto
    let ?c = "b # take n bs" let ?x = "utf8_fix (drop n bs)"
    have f: "utf8_fix (b # bs) = ?c @ ?x" using n by (simp del: utf8_len.simps)
    have l: "utf8_len (?c @ ?x) = Suc n" using utf8_len_take(2) [OF n, of ?x] by simp
    have m: "min n (length bs) = n" using utf8_len_take(1) [OF n] by simp
    have "utf8_fix (?c @ ?x) = ?c @ utf8_fix ?x" using l m by (simp del: utf8_len.simps)
    then show ?thesis unfolding f using 2(2) [OF refl] n by (simp del: utf8_len.simps utf8_fix.simps)
  qed
qed simp

lemma parse_json_quote: "parse_str (json_chars s @ CHR 0x22 # r) = Some (utf8_fix s, r)"
  by (simp add: parse_str_def parse_json_chars)


section \<open>Values read back\<close>

text \<open>What may follow a value, so that a number ends where it was written to end.\<close>

definition stops :: "string \<Rightarrow> bool" where
  "stops r = (case r of [] \<Rightarrow> True
     | c # cs \<Rightarrow> \<not> is_digit c \<and> c \<noteq> CHR ''.'' \<and> c \<noteq> CHR ''e'' \<and> c \<noteq> CHR ''E'')"

definition starts_value :: "string \<Rightarrow> bool" where
  "starts_value t = (case t of [] \<Rightarrow> False
     | c # cs \<Rightarrow> \<not> json_ws c \<and> c \<noteq> CHR 0x5D \<and> c \<noteq> CHR 0x7D)"

text \<open>A text is read as a value when the parser stops exactly after it and the tree decodes to the value.\<close>

definition reads :: "string \<Rightarrow> goany \<Rightarrow> bool" where
  "reads t v \<longleftrightarrow> starts_value t \<and>
     (\<forall>r. stops r \<longrightarrow> (\<exists>j. parse_value (t @ r) = Some (j, r) \<and> any_of j = v))"

fun any_wf :: "goany \<Rightarrow> bool" where
  "any_wf (ANum t) = (parse_num t = Some (t, []))"
| "any_wf (AInt i) = (parse_num (itoa i) = Some (itoa i, []))"
| "any_wf (AList xs) = list_all any_wf xs"
| "any_wf (AMap m) = (distinct (map fst m) \<and> list_all (\<lambda>(k, v). utf8_fix k = k \<and> any_wf v) m)"
| "any_wf v = True"

fun read_back :: "goany \<Rightarrow> goany" where
  "read_back (AInt i) = ANum (itoa i)"
| "read_back (AStr s) = AStr (utf8_fix s)"
| "read_back (AList xs) = AList (map read_back xs)"
| "read_back (AMap m) = AMap (key_order (map (\<lambda>(k, v). (k, read_back v)) m))"
| "read_back v = v"

lemma has_prefix_sing [simp]: "has_prefix (c # cs) [d] \<longleftrightarrow> c = d"
  by (simp add: has_prefix_iff)

lemma stops_simps [simp]: "stops []" "stops ('','' @ r)" "stops (CHR 0x5D # r)" "stops (CHR 0x7D # r)" "stops (CHR '','' # r)"
  by (simp_all add: stops_def is_digit_def of_char_less_eq)

lemma skip_ws_starts: "starts_value t \<Longrightarrow> skip_ws (t @ r) = t @ r"
  by (cases t) (simp_all add: starts_value_def skip_ws_def)

lemma skip_ws_char [simp]: "\<not> json_ws c \<Longrightarrow> skip_ws (c # r) = c # r"
  by (simp add: skip_ws_def)

lemma ws_chars [simp]: "\<not> json_ws (CHR 0x5D)" "\<not> json_ws (CHR 0x7D)" "\<not> json_ws (CHR '','')" "\<not> json_ws (CHR '':'')"
  "\<not> json_ws (CHR 0x22)" "\<not> json_ws (CHR 0x5B)" "\<not> json_ws (CHR 0x7B)"
  by (simp_all add: json_ws_def)

lemma takeWhile_stops:
  assumes "stops r" shows "takeWhile is_digit (x @ r) = takeWhile is_digit x"
proof (cases "Ball (set x) is_digit")
  case True
  with assms show ?thesis by (cases r) (simp_all add: stops_def takeWhile_append2 takeWhile_eq_all_conv [THEN iffD2])
next
  case False
  then show ?thesis by (auto simp: takeWhile_append1)
qed

lemma prefix_stops:
  assumes "stops r" "c \<in> {CHR ''.'', CHR ''e'', CHR ''E''}"
  shows "has_prefix (x @ r) [c] = has_prefix x [c]"
  using assms by (cases x; cases r) (auto simp: stops_def)

lemma tl_append: "x \<noteq> [] \<Longrightarrow> tl (x @ r) = tl x @ r"
  by (cases x) auto

lemma drop_append_le: "n \<le> length x \<Longrightarrow> drop n (x @ r) = drop n x @ r"
  by simp

lemma length_takeWhile_is [simp]: "length (takeWhile P x) \<le> length x"
  by (rule length_takeWhile_le)

lemma parse_num_eq:
  assumes "(if has_prefix s ''-'' then tl s else s) = s1"
    and "(if has_prefix s1 ''0'' then ''0'' else takeWhile is_digit s1) = ip"
    and "drop (length ip) s1 = s2"
    and "has_prefix s2 ''.'' = d"
    and "(if d then takeWhile is_digit (tl s2) else []) = fp"
    and "(if d then drop (length fp) (tl s2) else s2) = s3"
    and "(has_prefix s3 ''e'' \<or> has_prefix s3 ''E'') = e"
    and "(if e then (if has_prefix (tl s3) ''+'' \<or> has_prefix (tl s3) ''-'' then tl (tl s3) else tl s3) else s3) = s4"
    and "(if e then takeWhile is_digit s4 else []) = ep"
    and "drop (length ep) s4 = r"
  shows "parse_num s =
    (if ip = [] \<or> d \<and> fp = [] \<or> e \<and> ep = [] then None else Some (take (length s - length r) s, r))"
  by (simp only: parse_num_def Let_def assms)

lemma parse_num_append:
  assumes p: "parse_num t = Some (t, [])" and r: "stops r"
  shows "parse_num (t @ r) = Some (t, r)"
proof -
  define s1 where "s1 = (if has_prefix t ''-'' then tl t else t)"
  define ip where "ip = (if has_prefix s1 ''0'' then ''0'' else takeWhile is_digit s1)"
  define s2 where "s2 = drop (length ip) s1"
  define d where "d = has_prefix s2 ''.''"
  define fp where "fp = (if d then takeWhile is_digit (tl s2) else [])"
  define s3 where "s3 = (if d then drop (length fp) (tl s2) else s2)"
  define e where "e = (has_prefix s3 ''e'' \<or> has_prefix s3 ''E'')"
  define s4 where "s4 = (if e then (if has_prefix (tl s3) ''+'' \<or> has_prefix (tl s3) ''-'' then tl (tl s3) else tl s3) else s3)"
  define ep where "ep = (if e then takeWhile is_digit s4 else [])"
  have ok: "ip \<noteq> []" "\<not> (d \<and> fp = [])" "\<not> (e \<and> ep = [])" "drop (length ep) s4 = []"
    using parse_num_eq [OF s1_def [symmetric] ip_def [symmetric] s2_def [symmetric] d_def [symmetric] fp_def [symmetric]
        s3_def [symmetric] e_def [symmetric] s4_def [symmetric] ep_def [symmetric] refl] p
    by (simp_all split: if_splits)
  have t: "t \<noteq> []" and n1: "s1 \<noteq> []" using ok(1) by (auto simp: s1_def ip_def)
  have n2: "d \<Longrightarrow> s2 \<noteq> []" by (auto simp: d_def)
  have n3: "e \<Longrightarrow> s3 \<noteq> [] \<and> tl s3 \<noteq> []" using ok(3) by (auto simp: e_def ep_def s4_def)
  have head: "has_prefix (x @ r) [c] = has_prefix x [c]" if "x \<noteq> []" for x c using that by (cases x) auto
  have l: "length ip \<le> length s1" using n1 by (cases s1) (auto simp: ip_def)
  have lf: "length fp \<le> length (tl s2)" using length_takeWhile_le [of is_digit "tl s2"] by (simp add: fp_def del: length_tl)
  have 1: "(if has_prefix (t @ r) ''-'' then tl (t @ r) else t @ r) = s1 @ r" using t by (simp add: s1_def head tl_append)
  have 2: "(if has_prefix (s1 @ r) ''0'' then ''0'' else takeWhile is_digit (s1 @ r)) = ip"
    using n1 by (simp add: head ip_def takeWhile_stops [OF r])
  have 3: "drop (length ip) (s1 @ r) = s2 @ r" using l by (simp add: s2_def)
  have 4: "has_prefix (s2 @ r) ''.'' = d" by (simp add: d_def prefix_stops [OF r])
  have 5: "(if d then takeWhile is_digit (tl (s2 @ r)) else []) = fp"
    using n2 by (simp add: fp_def tl_append takeWhile_stops [OF r])
  have 6: "(if d then drop (length fp) (tl (s2 @ r)) else s2 @ r) = s3 @ r"
    using n2 lf by (simp add: s3_def tl_append del: length_tl)
  have 7: "(has_prefix (s3 @ r) ''e'' \<or> has_prefix (s3 @ r) ''E'') = e" by (simp add: e_def prefix_stops [OF r])
  have 8: "(if e then (if has_prefix (tl (s3 @ r)) ''+'' \<or> has_prefix (tl (s3 @ r)) ''-'' then tl (tl (s3 @ r))
      else tl (s3 @ r)) else s3 @ r) = s4 @ r"
    using n3 by (simp add: s4_def tl_append head)
  have 9: "(if e then takeWhile is_digit (s4 @ r) else []) = ep" by (simp add: ep_def takeWhile_stops [OF r])
  have 10: "drop (length ep) (s4 @ r) = r"
  proof -
    have "length s4 = length ep" using ok(4) length_takeWhile_le [of is_digit s4]
      unfolding ep_def by (cases e) auto
    then show ?thesis by simp
  qed
  show ?thesis using parse_num_eq [OF 1 2 3 4 5 6 7 8 9 10] ok by auto
qed

lemma parse_num_head:
  assumes "parse_num t = Some (t, [])"
  shows "t \<noteq> [] \<and> (hd t = CHR ''-'' \<or> is_digit (hd t))"
proof (rule ccontr)
  assume bad: "\<not> (t \<noteq> [] \<and> (hd t = CHR ''-'' \<or> is_digit (hd t)))"
  have z: "is_digit (CHR ''0'')" by (simp add: is_digit_def)
  have a: "(if has_prefix t ''-'' then tl t else t) = t" using bad by (cases t) auto
  have b: "(if has_prefix t ''0'' then ''0'' else takeWhile is_digit t) = []" using bad z by (cases t) auto
  have "parse_num t = None"
    using parse_num_eq [OF a b refl refl refl refl refl refl refl refl] by (simp only: simp_thms if_True)
  with assms show False by simp
qed

lemma readsE:
  assumes "reads t v" "stops r"
  obtains j where "parse_value (t @ r) = Some (j, r)" "any_of j = v"
  using assms by (auto simp: reads_def)

lemma reads_number: "parse_num t = Some (t, []) \<Longrightarrow> reads t (ANum t)"
proof -
  assume p: "parse_num t = Some (t, [])"
  obtain c cs where t: "t = c # cs" "c = CHR ''-'' \<or> is_digit c" using parse_num_head [OF p] by (cases t) auto
  have d: "\<not> json_ws c" "c \<noteq> CHR 0x5D" "c \<noteq> CHR 0x7D" "c \<noteq> CHR 0x5B" "c \<noteq> CHR 0x7B" "c \<noteq> CHR 0x22"
    "c \<noteq> CHR ''t''" "c \<noteq> CHR ''f''" "c \<noteq> CHR ''n''"
    using t(2) by (auto simp: json_ws_def is_digit_def of_char_less_eq)
  show ?thesis unfolding reads_def
  proof (intro conjI allI impI)
    show "starts_value t" using d t by (simp add: starts_value_def)
    fix r assume "stops r"
    then have "parse_num (c # cs @ r) = Some (t, r)" using parse_num_append [OF p] t by simp
    then have "parse_value (t @ r) = Some (JNum t, r)" using d t(1) by (simp add: parse_value.simps)
    then show "\<exists>j. parse_value (t @ r) = Some (j, r) \<and> any_of j = ANum t" by auto
  qed
qed

lemma reads_string: "reads (json_quote s) (AStr (utf8_fix s))"
proof -
  have "parse_value (json_quote s @ r) = Some (JStr (utf8_fix s), r)" for r
    using parse_json_quote [of s r] by (simp add: parse_value.simps json_quote_def)
  then show ?thesis by (auto simp: reads_def starts_value_def json_quote_def)
qed

lemma reads_words:
  "reads ''null'' ANil" "reads ''true'' (ABool True)" "reads ''false'' (ABool False)"
  by (simp_all add: reads_def starts_value_def json_ws_def parse_value.simps)

lemma starts_not_close: "starts_value t \<Longrightarrow> \<not> has_prefix (t @ r) [CHR 0x5D] \<and> \<not> has_prefix (t @ r) [CHR 0x7D]"
  by (cases t) (auto simp: starts_value_def)

lemma parse_elems_join:
  assumes "list_all2 reads ts vs" "ts \<noteq> []"
  shows "\<exists>es. parse_elems (join '','' ts @ CHR 0x5D # r) = Some (es, r) \<and> map (\<lambda>(raw, v). any_of v) es = vs"
  using assms
proof (induction ts arbitrary: vs)
  case (Cons t ts)
  then obtain v vs' where v: "vs = v # vs'" "reads t v" "list_all2 reads ts vs'" by (cases vs) auto
  show ?case
  proof (cases ts)
    case Nil
    obtain j where "parse_value (t @ CHR 0x5D # r) = Some (j, CHR 0x5D # r)" "any_of j = v"
      by (rule readsE [OF v(2), of "CHR 0x5D # r"]) auto
    then show ?thesis using Nil v by (simp add: parse_elems.simps)
  next
    case (Cons u us)
    let ?rest = "join '','' ts @ CHR 0x5D # r"
    obtain es where es: "parse_elems ?rest = Some (es, r)" "map (\<lambda>(raw, v). any_of v) es = vs'"
      using Cons.IH [OF v(3)] Cons by auto
    obtain j where j: "parse_value (t @ CHR '','' # ?rest) = Some (j, CHR '','' # ?rest)" "any_of j = v"
      by (rule readsE [OF v(2), of "CHR '','' # ?rest"]) auto
    have "starts_value u" using v(3) Cons by (cases vs') (auto simp: reads_def)
    then have s: "skip_ws ?rest = ?rest" using Cons skip_ws_starts [of u] by (cases us) auto
    have "parse_elems (t @ CHR '','' # ?rest) =
      Some ((take (length (t @ CHR '','' # ?rest) - length (CHR '','' # ?rest)) (t @ CHR '','' # ?rest), j) # es, r)"
      using j(1) es(1) s by (subst parse_elems.simps) (simp add: Let_def)
    moreover have "join '','' (t # ts) @ CHR 0x5D # r = t @ CHR '','' # ?rest" using Cons by simp
    ultimately show ?thesis using es(2) j(2) v(1) by simp
  qed
qed simp

lemma parse_members_join:
  assumes "list_all2 (\<lambda>(k, t) v. reads t v) kts vs" "kts \<noteq> []"
  shows "\<exists>ms. parse_members (join '','' (map (\<lambda>(k, t). json_quote k @ '':'' @ t) kts) @ CHR 0x7D # r) = Some (ms, r) \<and>
    map (\<lambda>(k, raw, v). (k, any_of v)) ms = zip (map (\<lambda>(k, t). utf8_fix k) kts) vs"
  using assms
proof (induction kts arbitrary: vs)
  case (Cons kt kts)
  obtain k t where kt: "kt = (k, t)" by (cases kt)
  with Cons obtain v vs' where v: "vs = v # vs'" "reads t v" "list_all2 (\<lambda>(k, t) v. reads t v) kts vs'"
    by (cases vs) auto
  have st: "skip_ws (t @ x) = t @ x" for x using v(2) by (simp add: reads_def skip_ws_starts)
  have q: "parse_str (json_chars k @ CHR 0x22 # '':'' @ t @ x) = Some (utf8_fix k, '':'' @ t @ x)" for x
    by (rule parse_json_quote)
  show ?case
  proof (cases kts)
    case Nil
    obtain j where "parse_value (t @ CHR 0x7D # r) = Some (j, CHR 0x7D # r)" "any_of j = v"
      by (rule readsE [OF v(2), of "CHR 0x7D # r"]) auto
    then show ?thesis using Nil v kt q [of "CHR 0x7D # r"] st by (simp add: parse_members.simps json_quote_def)
  next
    case (Cons u us)
    let ?rest = "join '','' (map (\<lambda>(k, t). json_quote k @ '':'' @ t) kts) @ CHR 0x7D # r"
    obtain ms where ms: "parse_members ?rest = Some (ms, r)"
      "map (\<lambda>(k, raw, v). (k, any_of v)) ms = zip (map (\<lambda>(k, t). utf8_fix k) kts) vs'"
      using Cons.IH [OF v(3)] Cons by auto
    obtain j where j: "parse_value (t @ CHR '','' # ?rest) = Some (j, CHR '','' # ?rest)" "any_of j = v"
      by (rule readsE [OF v(2), of "CHR '','' # ?rest"]) auto
    have s: "skip_ws ?rest = ?rest" using Cons by (cases us) (auto simp: json_quote_def split: prod.splits)
    let ?full = "json_quote k @ '':'' @ t @ CHR '','' # ?rest"
    have "\<exists>raw. parse_members ?full = Some ((utf8_fix k, raw, j) # ms, r)"
      using j(1) ms(1) s st q [of "CHR '','' # ?rest"]
      by (subst parse_members.simps) (simp add: Let_def json_quote_def)
    then obtain raw where "parse_members ?full = Some ((utf8_fix k, raw, j) # ms, r)" by blast
    moreover have "join '','' (map (\<lambda>(k, t). json_quote k @ '':'' @ t) (kt # kts)) @ CHR 0x7D # r = ?full"
      using Cons kt by simp
    ultimately show ?thesis using ms(2) j(2) v(1) kt by simp
  qed
qed simp


lemma reads_array:
  assumes "list_all2 reads ts vs"
  shows "reads (''['' @ join '','' ts @ '']'') (AList vs)"
proof -
  have "\<exists>j. parse_value (CHR ''['' # join '','' ts @ CHR 0x5D # r) = Some (j, r) \<and> any_of j = AList vs" for r
  proof (cases ts)
    case Nil
    then show ?thesis using assms by (simp add: parse_value.simps)
  next
    case (Cons t us)
    have "starts_value t" using assms Cons by (cases vs) (auto simp: reads_def)
    moreover obtain w where w: "join '','' ts @ CHR 0x5D # r = t @ w" using Cons by (cases us) auto
    ultimately have s: "skip_ws (join '','' ts @ CHR 0x5D # r) = join '','' ts @ CHR 0x5D # r"
      "\<not> has_prefix (join '','' ts @ CHR 0x5D # r) [CHR 0x5D]"
      using skip_ws_starts [of t w] starts_not_close [of t w] by simp_all
    obtain es where "parse_elems (join '','' ts @ CHR 0x5D # r) = Some (es, r)" "map (\<lambda>(raw, v). any_of v) es = vs"
      using parse_elems_join [OF assms] Cons by blast
    then show ?thesis using s by (simp add: parse_value.simps)
  qed
  then show ?thesis by (simp add: reads_def starts_value_def json_ws_def)
qed

lemma fold_put_fresh:
  assumes "distinct (map fst (m @ ps))"
  shows "fold (\<lambda>(k, v). put k v) ps m = m @ ps"
  using assms
proof (induction ps arbitrary: m)
  case (Cons p ps)
  have "put k v m = m @ [(k, v)]" if "k \<notin> fst ` set m" for k v
    using that by (induction m) auto
  with Cons show ?case by (cases p) auto
qed simp

lemma join_head: "\<exists>w. join sep ((c # x) # xs) = c # w"
  by (cases xs) auto

lemma zip_map_same: "zip xs (map f xs) = map (\<lambda>x. (x, f x)) xs"
  by (induction xs) auto

lemma reads_object:
  assumes "list_all2 (\<lambda>(k, t) v. reads t v) kts vs" and "distinct (map fst kts)" and "\<forall>k \<in> fst ` set kts. utf8_fix k = k"
  shows "reads (''{'' @ join '','' (map (\<lambda>(k, t). json_quote k @ '':'' @ t) kts) @ ''}'') (AMap (zip (map fst kts) vs))"
proof -
  have keys: "map (\<lambda>(k, t). utf8_fix k) kts = map fst kts" using assms(3) by auto
  have len: "length kts = length vs" using assms(1) by (rule list_all2_lengthD)
  have "\<exists>j. parse_value (CHR ''{'' # join '','' (map (\<lambda>(k, t). json_quote k @ '':'' @ t) kts) @ CHR 0x7D # r) = Some (j, r) \<and>
      any_of j = AMap (zip (map fst kts) vs)" for r
  proof (cases kts)
    case Nil
    then show ?thesis using assms by (simp add: parse_value.simps)
  next
    case (Cons u us)
    let ?b = "join '','' (map (\<lambda>(k, t). json_quote k @ '':'' @ t) kts) @ CHR 0x7D # r"
    have ne: "kts \<noteq> []" using Cons by simp
    obtain k t where u: "u = (k, t)" by (cases u)
    obtain x where x: "json_quote k @ '':'' @ t = CHR 0x22 # x" unfolding json_quote_def by simp
    obtain w' where "join '','' ((CHR 0x22 # x) # map (\<lambda>(k, t). json_quote k @ '':'' @ t) us) = CHR 0x22 # w'"
      using join_head by blast
    then obtain w where w: "?b = CHR 0x22 # w" unfolding Cons u list.map prod.case x by simp
    have s: "skip_ws ?b = ?b" "\<not> has_prefix ?b [CHR 0x7D]" unfolding w by simp_all
    obtain ms where ms: "parse_members ?b = Some (ms, r)"
      "map (\<lambda>(k, raw, v). (k, any_of v)) ms = zip (map fst kts) vs"
      using parse_members_join [OF assms(1) ne, of r] unfolding keys by blast
    have "any_of (JObj ms) = AMap (zip (map fst kts) vs)"
      using ms(2) len assms(2) by (simp add: fold_put_fresh)
    then show ?thesis using ms(1) s by (simp add: parse_value.simps)
  qed
  then show ?thesis by (simp add: reads_def starts_value_def json_ws_def)
qed

lemma texts_map:
  "(\<forall>x \<in> set xs. f x = Some (g x)) \<Longrightarrow> texts (map f xs) = Some (map g xs)"
  by (induction xs) auto

text \<open>The round trip, with whatever follows the text left over.\<close>

lemma map_of_image: "map_of (map (\<lambda>(k, v). (k, f v)) m) k = map_option f (map_of m k)"
  by (induction m) auto

lemma key_order_image: "key_order (map (\<lambda>(k, v). (k, f v)) m) = map (\<lambda>k. (k, f (the (map_of m k)))) (sorted_keys m)"
proof -
  have "sorted_keys (map (\<lambda>(k, v). (k, f v)) m) = sorted_keys m"
    by (simp add: sorted_keys_def comp_def split_beta)
  moreover have "the (map_option f (map_of m k)) = f (the (map_of m k))" if "k \<in> set (sorted_keys m)" for k
    using that by (cases "map_of m k") (auto simp: map_of_eq_None_iff)
  ultimately show ?thesis by (simp add: key_order_def map_of_image)
qed

lemma marshal_reads: "any_wf v \<Longrightarrow> \<exists>t. marshal_any v = Some t \<and> reads t (read_back v)"
proof (induction v)
  case (ANum t)
  then have "number_text t = Some t" by (auto simp: number_text_def dest: parse_num_head)
  then show ?case using ANum by (simp add: reads_number)
next
  case (AStr s)
  then show ?case using reads_string [of s] by simp
next
  case (AList xs)
  define g where "g = (\<lambda>x. SOME t. marshal_any x = Some t \<and> reads t (read_back x))"
  have g: "marshal_any x = Some (g x) \<and> reads (g x) (read_back x)" if "x \<in> set xs" for x
    unfolding g_def by (rule someI_ex) (use AList that in \<open>auto simp: list_all_iff\<close>)
  have "list_all2 reads (map g xs) (map read_back xs)"
    using g by (auto simp: list_all2_conv_all_nth)
  then show ?case using texts_map [of xs marshal_any g] g reads_array by simp
next
  case (AMap m)
  define g where "g = (\<lambda>x. SOME t. marshal_any x = Some t \<and> reads t (read_back x))"
  have g: "marshal_any v = Some (g v) \<and> reads (g v) (read_back v)" if "(k, v) \<in> set m" for k v
    unfolding g_def by (rule someI_ex, rule AMap.IH [of "(k, v)"]) (use AMap.prems that in \<open>auto simp: list_all_iff\<close>)
  let ?ks = "sorted_keys m" let ?v = "\<lambda>k. the (map_of m k)"
  have mem: "(k, ?v k) \<in> set m" if "k \<in> set ?ks" for k
    using that by (metis map_of_SomeD map_of_eq_None_iff option.exhaust_sel set_sorted_keys)
  let ?kts = "map (\<lambda>k. (k, g (?v k))) ?ks"
  have "list_all2 (\<lambda>(k, t) v. reads t v) ?kts (map (\<lambda>k. read_back (?v k)) ?ks)"
  proof -
    have "reads (g (?v k)) (read_back (?v k))" if "k \<in> set ?ks" for k using g [OF mem [OF that]] by blast
    then show ?thesis by (simp add: list.rel_map) (rule list.rel_refl_strong, simp)
  qed
  moreover have "distinct (map fst ?kts)" using AMap.prems by (simp add: sorted_keys_def comp_def)
  moreover have "\<forall>k \<in> fst ` set ?kts. utf8_fix k = k" using AMap.prems mem by (force simp: list_all_iff)
  ultimately have r: "reads (''{'' @ join '','' (map (\<lambda>(k, t). json_quote k @ '':'' @ t) ?kts) @ ''}'')
      (AMap (zip (map fst ?kts) (map (\<lambda>k. read_back (?v k)) ?ks)))"
    by (rule reads_object)
  have z: "zip (map fst ?kts) (map (\<lambda>k. read_back (?v k)) ?ks) = key_order (map (\<lambda>(k, v). (k, read_back v)) m)"
    by (simp add: key_order_image comp_def zip_map_same)
  have "texts (map member_of (key_order (map (\<lambda>(k, v). (k, marshal_any v)) m))) =
      Some (map (\<lambda>(k, t). json_quote k @ '':'' @ t) ?kts)"
    unfolding key_order_image using g [OF mem] texts_map [of ?ks "\<lambda>k. member_of (k, marshal_any (?v k))"
      "\<lambda>k. json_quote k @ '':'' @ g (?v k)"] by (simp add: member_of_def comp_def)
  then show ?case using r unfolding z by simp
qed (simp_all add: reads_words reads_number)

theorem marshal_any_roundtrip:
  "any_wf v \<Longrightarrow> \<exists>t j. marshal_any v = Some t \<and> json_parse t = Some j \<and> any_of j = read_back v"
proof -
  assume "any_wf v"
  then obtain t where t: "marshal_any v = Some t" "reads t (read_back v)" using marshal_reads by blast
  then obtain j where j: "parse_value (t @ []) = Some (j, [])" "any_of j = read_back v"
    using readsE [OF t(2), of "[]"] by auto
  have "skip_ws t = t" using t(2) skip_ws_starts [of t "[]"] by (simp add: reads_def)
  then show ?thesis using t j by (auto simp: json_parse_def skip_ws_def)
qed


section \<open>What the parser accepts is well formed\<close>

lemma takeWhile_split: "takeWhile P x @ drop (length (takeWhile P x)) x = x"
  by (metis dropWhile_eq_drop takeWhile_dropWhile_id)

lemma takeWhile_all: "\<forall>c \<in> set x. P c \<Longrightarrow> takeWhile P x = x"
  by (simp add: takeWhile_eq_all_conv)

text \<open>The shape of an accepted number.\<close>

definition exponent :: "string \<Rightarrow> bool" where
  "exponent x \<longleftrightarrow> x = [] \<or> (\<exists>m g ep. x = m # g @ ep \<and> m \<in> {CHR ''e'', CHR ''E''} \<and> g \<in> {[], ''+'', ''-''} \<and>
     ep \<noteq> [] \<and> (\<forall>c \<in> set ep. is_digit c))"

definition fraction :: "string \<Rightarrow> bool" where
  "fraction x \<longleftrightarrow> x = [] \<or> (\<exists>fp. x = CHR ''.'' # fp \<and> fp \<noteq> [] \<and> (\<forall>c \<in> set fp. is_digit c))"

definition whole :: "string \<Rightarrow> bool" where
  "whole ip \<longleftrightarrow> ip = ''0'' \<or> ip \<noteq> [] \<and> hd ip \<noteq> CHR ''0'' \<and> (\<forall>c \<in> set ip. is_digit c)"

lemma parse_num_shape:
  assumes "parse_num s = Some (t, r)"
  shows "s = t @ r \<and> (\<exists>sg ip f x. t = sg @ ip @ f @ x \<and> sg \<in> {[], ''-''} \<and> whole ip \<and> fraction f \<and> exponent x)"
proof -
  define s1 where "s1 = (if has_prefix s ''-'' then tl s else s)"
  define ip where "ip = (if has_prefix s1 ''0'' then ''0'' else takeWhile is_digit s1)"
  define s2 where "s2 = drop (length ip) s1"
  define d where "d = has_prefix s2 ''.''"
  define fp where "fp = (if d then takeWhile is_digit (tl s2) else [])"
  define s3 where "s3 = (if d then drop (length fp) (tl s2) else s2)"
  define e where "e = (has_prefix s3 ''e'' \<or> has_prefix s3 ''E'')"
  define s4 where "s4 = (if e then (if has_prefix (tl s3) ''+'' \<or> has_prefix (tl s3) ''-'' then tl (tl s3) else tl s3) else s3)"
  define ep where "ep = (if e then takeWhile is_digit s4 else [])"
  have eq: "ip \<noteq> []" "\<not> (d \<and> fp = [])" "\<not> (e \<and> ep = [])" "r = drop (length ep) s4" "t = take (length s - length r) s"
    using parse_num_eq [OF s1_def [symmetric] ip_def [symmetric] s2_def [symmetric] d_def [symmetric] fp_def [symmetric]
        s3_def [symmetric] e_def [symmetric] s4_def [symmetric] ep_def [symmetric] refl] assms
    by (auto split: if_splits)
  define sg where "sg = (if has_prefix s ''-'' then ''-'' else [])"
  define f where "f = (if d then CHR ''.'' # fp else [])"
  define x where "x = (if e then hd s3 # (if has_prefix (tl s3) ''+'' then ''+'' else if has_prefix (tl s3) ''-'' then ''-'' else []) @ ep else [])"
  have 1: "s = sg @ s1" by (cases s) (auto simp: sg_def s1_def)
  have 2: "s1 = ip @ s2" using takeWhile_split [of is_digit s1]
    by (cases s1) (auto simp: ip_def s2_def split: if_splits)
  have 3: "s2 = f @ s3" using takeWhile_split [of is_digit "tl s2"]
    by (cases s2) (auto simp: f_def s3_def fp_def d_def)
  have 4: "s3 = x @ r"
  proof (cases e)
    case True
    then obtain m s' where m: "s3 = m # s'" by (cases s3) (auto simp: e_def)
    have "s4 = ep @ r" using takeWhile_split [of is_digit s4] True eq(4) by (simp add: ep_def)
    then show ?thesis using True m by (cases s') (auto simp: x_def s4_def split: if_splits)
  next
    case False
    then show ?thesis using eq(4) by (simp add: x_def ep_def s4_def)
  qed
  have s: "s = (sg @ ip @ f @ x) @ r" using 1 2 3 4 by simp
  then have t: "t = sg @ ip @ f @ x" using eq(5) by simp
  have "whole ip"
  proof (cases "has_prefix s1 ''0''")
    case False
    then have i: "ip = takeWhile is_digit s1" by (simp add: ip_def)
    have "\<forall>c \<in> set ip. is_digit c" unfolding i by (blast dest: set_takeWhileD)
    moreover have "hd ip \<noteq> CHR ''0''" using False 2 eq(1) by (cases ip) auto
    ultimately show ?thesis using eq(1) by (simp add: whole_def)
  qed (simp add: whole_def ip_def)
  moreover have "fraction f" using eq(2) set_takeWhileD [of _ is_digit "tl s2"] by (auto simp: fraction_def f_def fp_def)
  moreover have "exponent x"
  proof (cases e)
    case True
    then have "hd s3 \<in> {CHR ''e'', CHR ''E''}" by (cases s3) (auto simp: e_def)
    moreover have "\<forall>c \<in> set ep. is_digit c" using set_takeWhileD [of _ is_digit s4] by (auto simp: ep_def)
    moreover define g where "g = (if has_prefix (tl s3) ''+'' then ''+'' else if has_prefix (tl s3) ''-'' then ''-'' else [])"
    moreover have "x = hd s3 # g @ ep" using True by (simp add: x_def g_def)
    moreover have "g \<in> {[], ''+'', ''-''}" by (simp add: g_def)
    moreover have "ep \<noteq> []" using True eq(3) by simp
    ultimately show ?thesis unfolding exponent_def by blast
  qed (simp add: exponent_def x_def)
  moreover have "sg \<in> {[], ''-''}" by (simp add: sg_def)
  ultimately show ?thesis using s t by blast
qed

lemma parse_num_of_shape:
  assumes "sg \<in> {[], ''-''}" "whole ip" "fraction f" "exponent x"
  shows "parse_num (sg @ ip @ f @ x) = Some (sg @ ip @ f @ x, [])"
proof -
  have dig: "\<not> is_digit (CHR ''-'')" "\<not> is_digit (CHR ''.'')" "\<not> is_digit (CHR ''e'')" "\<not> is_digit (CHR ''E'')"
    "\<not> is_digit (CHR ''+'')"
    by (simp_all add: is_digit_def of_char_less_eq)
  have ne: "ip \<noteq> []" using assms(2) by (auto simp: whole_def)
  have h: "hd ip \<noteq> CHR ''-''" using assms(2) dig by (cases ip) (auto simp: whole_def)
  have a1: "(if has_prefix (sg @ ip @ f @ x) ''-'' then tl (sg @ ip @ f @ x) else sg @ ip @ f @ x) = ip @ f @ x"
    using assms(1) ne h by (cases ip) auto
  have x0: "takeWhile is_digit x = []" using assms(4) dig by (auto simp: exponent_def)
  have fx0: "takeWhile is_digit (f @ x) = []" using assms(3) dig x0 by (auto simp: fraction_def)
  have a2: "(if has_prefix (ip @ f @ x) ''0'' then ''0'' else takeWhile is_digit (ip @ f @ x)) = ip"
    using assms(2) fx0 by (cases ip) (auto simp: whole_def takeWhile_append2)
  have a3: "drop (length ip) (ip @ f @ x) = f @ x" by simp
  have xh: "\<not> has_prefix x ''.''" using assms(4) by (auto simp: exponent_def)
  have a4: "has_prefix (f @ x) ''.'' = (f \<noteq> [])" using assms(3) xh by (auto simp: fraction_def)
  have a5: "(if f \<noteq> [] then takeWhile is_digit (tl (f @ x)) else []) = tl f"
    using assms(3) x0 by (auto simp: fraction_def takeWhile_append2)
  have a6: "(if f \<noteq> [] then drop (length (tl f)) (tl (f @ x)) else f @ x) = x" by (cases f) auto
  have a7: "(has_prefix x ''e'' \<or> has_prefix x ''E'') = (x \<noteq> [])" using assms(4) by (auto simp: exponent_def)
  have fne: "\<not> (f \<noteq> [] \<and> tl f = [])" using assms(3) by (auto simp: fraction_def)
  show ?thesis
  proof (cases "x = []")
    case True
    then have xs: "x \<noteq> [] = False" by simp
    show ?thesis
      using parse_num_eq [OF a1 a2 a3 a4 a5 a6 a7 refl refl refl] ne fne True by auto
  next
    case False
    then obtain m g ep where x: "x = m # g @ ep" "m \<in> {CHR ''e'', CHR ''E''}" "g \<in> {[], ''+'', ''-''}" "ep \<noteq> []"
      "\<forall>c \<in> set ep. is_digit c" using assms(4) by (auto simp: exponent_def)
    have "hd ep \<noteq> CHR ''+''" "hd ep \<noteq> CHR ''-''" using x(4,5) dig by (cases ep; auto)+
    then have a8: "(if x \<noteq> [] then (if has_prefix (tl x) ''+'' \<or> has_prefix (tl x) ''-'' then tl (tl x) else tl x) else x) = ep"
      using x(1,3,4) by (cases ep) auto
    have a9: "(if x \<noteq> [] then takeWhile is_digit ep else []) = ep" using False takeWhile_all [OF x(5)] by simp
    have a10: "drop (length ep) ep = []" by simp
    show ?thesis using parse_num_eq [OF a1 a2 a3 a4 a5 a6 a7 a8 a9 a10] ne fne x(4) by auto
  qed
qed

lemma parse_num_idem: "parse_num s = Some (t, r) \<Longrightarrow> parse_num t = Some (t, [])"
proof -
  assume "parse_num s = Some (t, r)"
  note shape = conjunct2 [OF parse_num_shape [OF this]]
  from shape obtain sg ip f x where e: "t = sg @ ip @ f @ x \<and> sg \<in> {[], ''-''} \<and> whole ip \<and> fraction f \<and> exponent x"
    by (elim exE) (rule that)
  then show ?thesis using parse_num_of_shape [of sg ip f x] by (simp only: simp_thms)
qed


fun tree_wf :: "json \<Rightarrow> bool" where
  "tree_wf (JNum t) = (parse_num t = Some (t, []))"
| "tree_wf (JArr es) = list_all (\<lambda>(raw, v). tree_wf v) es"
| "tree_wf (JObj ms) = list_all (\<lambda>(k, raw, v). utf8_fix k = k \<and> tree_wf v) ms"
| "tree_wf v = True"

lemma parse_str_clean: "parse_str s = Some (t, r) \<Longrightarrow> utf8_fix t = t"
  by (auto simp: parse_str_def)

lemma parse_value_wf:
  "parse_value s = Some (v, r) \<Longrightarrow> tree_wf v"
  "parse_elems s = Some (es, r) \<Longrightarrow> list_all (\<lambda>(raw, v). tree_wf v) es"
  "parse_members s = Some (ms, r) \<Longrightarrow> list_all (\<lambda>(k, raw, v). utf8_fix k = k \<and> tree_wf v) ms"
proof (induction s and s and s arbitrary: v r and es r and ms r rule: parse_value_parse_elems_parse_members.induct)
  case (1 s)
  from 1(3) show ?case
    by (subst (asm) parse_value.simps)
      (auto split: list.splits if_splits dest: 1(1,2) parse_str_clean parse_num_idem)
next
  case (2 s)
  obtain v r0 where p: "parse_value s = Some (v, r0)"
    using 2(3) by (subst (asm) parse_elems.simps) (auto split: option.splits)
  note ih = 2(1) [OF p] 2(2) [OF p refl refl refl refl]
  from 2(3) show ?case
    by (subst (asm) parse_elems.simps) (auto simp: Let_def p ih(1) split: if_splits dest: ih(2))
next
  case (3 s)
  obtain k r0 where q: "has_prefix s [CHR 0x22]" "parse_str (tl s) = Some (k, r0)"
    using 3(3) by (subst (asm) parse_members.simps) (auto split: option.splits if_splits)
  obtain v r3 where p: "has_prefix (skip_ws r0) '':'' \<and> length (skip_ws (tl (skip_ws r0))) < length s"
      "parse_value (skip_ws (tl (skip_ws r0))) = Some (v, r3)"
    using 3(3) q by (subst (asm) parse_members.simps) (auto simp: Let_def split: option.splits if_splits)
  note ih = 3(1) [OF q(1) q(2) refl refl refl p(1) p(2)] 3(2) [OF q(1) q(2) refl refl refl p(1) p(2) refl refl refl refl]
  from 3(3) p(1) show ?case
    by (subst (asm) parse_members.simps)
      (auto simp: Let_def q p(2) parse_str_clean [OF q(2)] ih(1) split: if_splits dest: ih(2))
qed


lemma put_facts:
  "distinct (map fst m) \<Longrightarrow> distinct (map fst (put k v m))"
  "set (put k v m) \<subseteq> insert (k, v) (set m)"
proof -
  show "distinct (map fst m) \<Longrightarrow> distinct (map fst (put k v m))"
    by (rule distinct_update)
  show "set (put k v m) \<subseteq> insert (k, v) (set m)"
    by (induction m) auto
qed

lemma fold_put_facts:
  "distinct (map fst m) \<Longrightarrow> distinct (map fst (fold (\<lambda>(k, v). put k v) ps m))"
  "set (fold (\<lambda>(k, v). put k v) ps m) \<subseteq> set ps \<union> set m"
proof (induction ps arbitrary: m)
  case (Cons p ps)
  { case 1 then show ?case using Cons.IH(1) [of "put (fst p) (snd p) m"] put_facts(1) [of m] by (simp add: split_beta) }
  { case 2 then show ?case using Cons.IH(2) [of "put (fst p) (snd p) m"] put_facts(2) [of "fst p" "snd p" m]
      by (auto simp: split_beta) }
qed simp_all

text \<open>What the decoder stores for an accepted text is well formed.\<close>

lemma any_of_wf: "tree_wf v \<Longrightarrow> any_wf (any_of v)"
proof (induction v)
  case (JObj ms)
  let ?ps = "map (\<lambda>(k, raw, v). (k, any_of v)) ms"
  have p: "\<forall>(k, v) \<in> set ?ps. utf8_fix k = k \<and> any_wf v"
  proof
    fix kv assume "kv \<in> set ?ps"
    then obtain k raw v where m: "(k, raw, v) \<in> set ms" "kv = (k, any_of v)" by auto
    have "utf8_fix k = k \<and> tree_wf v" using JObj.prems m(1) by (auto simp: list_all_iff)
    then have "utf8_fix k = k \<and> any_wf (any_of v)" using JObj.IH m(1) by auto
    then show "case kv of (k, v) \<Rightarrow> utf8_fix k = k \<and> any_wf v" unfolding m(2) by simp
  qed
  have sub: "set (fold (\<lambda>(k, v). put k v) ?ps []) \<subseteq> set ?ps"
    using fold_put_facts(2) [of ?ps "[]"] by (simp only: list.set Un_empty_right)
  have "distinct (map fst (fold (\<lambda>(k, v). put k v) ?ps []))" by (rule fold_put_facts(1)) simp
  moreover have "\<forall>(k, v) \<in> set (fold (\<lambda>(k, v). put k v) ?ps []). utf8_fix k = k \<and> any_wf v"
    by (rule ballI, rule bspec [OF p subsetD [OF sub]])
  ultimately show ?case by (simp add: list_all_iff)
next
  case (JArr es)
  have "any_wf (any_of v)" if "(raw, v) \<in> set es" for raw v
  proof -
    have "tree_wf v" using JArr.prems that by (auto simp: list_all_iff)
    then show ?thesis using JArr.IH that by auto
  qed
  then show ?case by (auto simp: list_all_iff)
qed simp_all

lemma json_parse_wf: "json_parse s = Some v \<Longrightarrow> any_wf (any_of v)"
  using any_of_wf parse_value_wf(1) by (auto simp: json_parse_def split: option.splits if_splits)

end
