(* ===== verification/Chat_Body.thy ===== *)
theory Chat_Body
  imports Json_Values Http_Client Registry
begin

text \<open>
  The body of a chat request: decoded once, read by the routing, edited and encoded for the
  backend (\<open>chat_request.go\<close>, the reasoning mapping of \<open>chat.go\<close>), and the two helpers that
  read and replace the model of another JSON body (\<open>model_body.go\<close>). The main fact is that
  the encoded body decodes to the request the client sent but for the model and the reasoning
  fields.
\<close>

section \<open>Reasoning fields\<close>

definition keyModel :: string where "keyModel = ''model''"
definition keyReasoning :: string where "keyReasoning = ''reasoning''"
definition keyReasoningEffort :: string where "keyReasoningEffort = ''reasoning_effort''"
definition keyChatTemplateKwargs :: string where "keyChatTemplateKwargs = ''chat_template_kwargs''"
definition keyEnableThinking :: string where "keyEnableThinking = ''enable_thinking''"
definition keyMaxTokens :: string where "keyMaxTokens = ''max_tokens''"
definition keyEffort :: string where "keyEffort = ''effort''"
definition reasoningEffortMinimal :: string where "reasoningEffortMinimal = ''minimal''"

definition chatReasoningEffortIsOff :: "string \<Rightarrow> bool" where
  "chatReasoningEffortIsOff effort =
     (to_lower (trim_space effort) \<in> {[], ''none'', ''off'', ''false'', ''0'', reasoningEffortMinimal})"

definition chatMapReasoningEffort :: "goany gomap \<Rightarrow> string" where
  "chatMapReasoningEffort rt =
     (let nested = (case any_map (any_at keyReasoning rt) of
            None \<Rightarrow> []
          | Some reasoning \<Rightarrow>
              (case any_string (any_at keyEffort reasoning) of None \<Rightarrow> [] | Some s \<Rightarrow> trim_space s))
      in if nested \<noteq> [] then nested
         else case any_string (any_at keyReasoningEffort rt) of None \<Rightarrow> [] | Some s \<Rightarrow> trim_space s)"

definition chatMapWantsThinking :: "goany gomap \<Rightarrow> bool" where
  "chatMapWantsThinking rt = (\<not> chatReasoningEffortIsOff (chatMapReasoningEffort rt))"

definition stripCloudflareThinkingFields :: "goany gomap \<Rightarrow> goany gomap" where
  "stripCloudflareThinkingFields rt = AList.delete keyEnableThinking (AList.delete keyChatTemplateKwargs rt)"

text \<open>The reasoning object is a map shared with its root: an edit of it is an edit of the root's
  member. \<open>None\<close> is the value that is no object, which is left as it is.\<close>

definition reasoningObject :: "goany gomap \<Rightarrow> (goany gomap \<times> goany gomap) option" where
  "reasoningObject rt =
     (case any_at keyReasoning rt of
        ANil \<Rightarrow> Some ([], put keyReasoning (AMap []) rt)
      | AMap reasoning \<Rightarrow> Some (reasoning, rt)
      | _ \<Rightarrow> None)"

definition setNestedReasoningEffort :: "string \<Rightarrow> goany gomap \<Rightarrow> goany gomap" where
  "setNestedReasoningEffort effort rt =
     (case reasoningObject rt of
        None \<Rightarrow> rt
      | Some (reasoning, root1) \<Rightarrow>
          if (case any_string (any_at keyEffort reasoning) of None \<Rightarrow> False
              | Some cur \<Rightarrow> equal_fold (trim_space cur) effort) then root1
          else put keyReasoning (AMap (put keyEffort (AStr effort) reasoning)) root1)"

fun jsonIntEquals :: "goany \<Rightarrow> int \<Rightarrow> bool" where
  "jsonIntEquals (ANum x) n = (parse_int64 x = Some n)"
| "jsonIntEquals (AInt x) n = (x = n)"
| "jsonIntEquals v n = False"

definition setNestedReasoningMaxTokens :: "int \<Rightarrow> goany gomap \<Rightarrow> goany gomap" where
  "setNestedReasoningMaxTokens tokens rt =
     (case reasoningObject rt of
        None \<Rightarrow> rt
      | Some (reasoning, root1) \<Rightarrow>
          if (case map_of reasoning keyMaxTokens of None \<Rightarrow> False | Some cur \<Rightarrow> jsonIntEquals cur tokens) then root1
          else put keyReasoning (AMap (put keyMaxTokens (AInt tokens) reasoning)) root1)"

definition deleteNestedReasoningField :: "string \<Rightarrow> goany gomap \<Rightarrow> goany gomap" where
  "deleteNestedReasoningField field rt =
     (case any_map (any_at keyReasoning rt) of
        None \<Rightarrow> rt
      | Some reasoning \<Rightarrow>
          if map_of reasoning field = None then rt
          else let reasoning1 = AList.delete field reasoning
               in if reasoning1 = [] then AList.delete keyReasoning rt
                  else put keyReasoning (AMap reasoning1) rt)"

definition applyGeminiThinkingEmit :: "string \<Rightarrow> bool \<Rightarrow> goany gomap \<Rightarrow> goany gomap" where
  "applyGeminiThinkingEmit model wants rt =
     (if contains model ''gemma-4'' then
        deleteNestedReasoningField keyMaxTokens
          (setNestedReasoningEffort (if wants then ''high'' else reasoningEffortMinimal) rt)
      else if contains model ''gemini-2.5'' then
        deleteNestedReasoningField keyEffort (setNestedReasoningMaxTokens (if wants then -1 else 0) rt)
      else if contains model ''gemini-3'' then
        (let effort = (if wants then
               (let e = to_lower (trim_space (chatMapReasoningEffort rt))
                in if e = [] \<or> chatReasoningEffortIsOff e then ''high'' else e)
               else reasoningEffortMinimal)
         in setNestedReasoningEffort effort rt)
      else rt)"

definition applyCloudflareThinkingEmit :: "string \<Rightarrow> bool \<Rightarrow> goany gomap \<Rightarrow> goany gomap" where
  "applyCloudflareThinkingEmit model wants rt =
     (if contains model ''deepseek'' then
        (if wants \<or> map_of rt keyReasoningEffort \<noteq> None then rt
         else put keyReasoningEffort (AStr ''none'') rt)
      else if \<not> contains model ''gemma'' \<and> \<not> contains model ''glm'' \<and> \<not> contains model ''zai-org'' then rt
      else let kwargs = (case any_map (any_at keyChatTemplateKwargs rt) of None \<Rightarrow> [] | Some m \<Rightarrow> m)
           in put keyEnableThinking (ABool wants)
                (put keyChatTemplateKwargs (AMap (put keyEnableThinking (ABool wants) kwargs)) rt))"

definition applyChatThinkingRoot :: "string \<Rightarrow> string \<Rightarrow> goany gomap \<Rightarrow> goany gomap" where
  "applyChatThinkingRoot extension model0 rt =
     (let wants = chatMapWantsThinking rt;
          model1 = to_lower (trim_space model0);
          model = (if model1 = [] then
              to_lower (trim_space (case any_string (any_at keyModel rt) of None \<Rightarrow> [] | Some s \<Rightarrow> s)) else model1);
          ext = to_lower (trim_space extension)
      in if ext = ExtensionGemini then applyGeminiThinkingEmit model wants (stripCloudflareThinkingFields rt)
         else if ext = ExtensionCloudflare then applyCloudflareThinkingEmit model wants rt
         else stripCloudflareThinkingFields rt)"

section \<open>The request\<close>

definition part_is_image :: "goany \<Rightarrow> bool" where
  "part_is_image part =
     (case any_map part of None \<Rightarrow> False
      | Some p \<Rightarrow> (case any_string (any_at ''type'' p) of None \<Rightarrow> False
          | Some typ \<Rightarrow> equal_fold (trim_space typ) ''image_url''))"

definition chatMapHasVision :: "goany gomap \<Rightarrow> bool" where
  "chatMapHasVision rt =
     list_ex (\<lambda>msg. case any_map msg of None \<Rightarrow> False
        | Some m \<Rightarrow> (case any_list (any_at ''content'' m) of None \<Rightarrow> False | Some parts \<Rightarrow> list_ex part_is_image parts))
       (case any_list (any_at ''messages'' rt) of None \<Rightarrow> [] | Some ms \<Rightarrow> ms)"

record chat_request =
  cr_raw :: bytes
  cr_root :: "goany gomap"
  cr_model :: string
  cr_stream :: bool
  cr_vision :: bool
  cr_thinking :: bool

text \<open>\<open>Decode\<close> of a \<open>json.Decoder\<close> into a map: one value from the start of the input and what is
  left of it; the outer \<open>None\<close> is an error, the inner one the nil map of \<open>null\<close>.\<close>

definition decode_map :: "bytes \<Rightarrow> (goany gomap option \<times> bytes) option" where
  "decode_map body =
     (case parse_value (skip_ws body) of
        Some (JObj ms, r) \<Rightarrow> map_option (\<lambda>m. (Some m, r)) (any_map (any_of (JObj ms)))
      | Some (JNull, r) \<Rightarrow> Some (None, r)
      | _ \<Rightarrow> None)"

text \<open>\<open>Decoder.More\<close>: the next character is there and does not close an array or an object.\<close>

definition decoder_more :: "bytes \<Rightarrow> bool" where
  "decoder_more r = (case skip_ws r of [] \<Rightarrow> False | c # cs \<Rightarrow> c \<noteq> CHR 0x5D \<and> c \<noteq> CHR 0x7D)"

definition opParseChat :: string where "opParseChat = ''gateway.parseChatRequest''"

definition chat_bad :: "string \<Rightarrow> goerr" where
  "chat_bad msg = DomainErr (err_new CodeInvalid opParseChat msg)"

definition parseChatRequest :: "bytes \<Rightarrow> goerr + chat_request" where
  "parseChatRequest body =
     (case decode_map body of
        None \<Rightarrow> Inl (DomainErr (err_wrap (Some (Leaf ''json'')) CodeInvalid opParseChat ''invalid json''))
      | Some (root0, r) \<Rightarrow>
          if decoder_more r then Inl (chat_bad ''invalid json: trailing data'')
          else
            (let rt = (case root0 of None \<Rightarrow> [] | Some m \<Rightarrow> m)
             in case any_at keyModel rt of
                  ANil \<Rightarrow> Inl (chat_bad ''model required'')
                | AStr s \<Rightarrow>
                    if trim_space s = [] then Inl (chat_bad ''model required'')
                    else
                      (let ok = (\<lambda>b. Inr \<lparr>cr_raw = body, cr_root = rt, cr_model = trim_space s, cr_stream = b,
                              cr_vision = chatMapHasVision rt, cr_thinking = chatMapWantsThinking rt\<rparr>)
                       in case any_at ''stream'' rt of
                            ANil \<Rightarrow> ok False
                          | ABool b \<Rightarrow> ok b
                          | _ \<Rightarrow> Inl (chat_bad ''stream must be a boolean''))
                | _ \<Rightarrow> Inl (chat_bad ''model must be a string'')))"

definition outbound_root :: "chat_request \<Rightarrow> string \<Rightarrow> string \<Rightarrow> goany gomap" where
  "outbound_root c downstream extension =
     applyChatThinkingRoot extension downstream (put keyModel (AStr downstream) (cr_root c))"

definition outbound :: "chat_request \<Rightarrow> string \<Rightarrow> string \<Rightarrow> goerr + bytes" where
  "outbound c downstream extension =
     (case marshal_any (AMap (outbound_root c downstream extension)) of
        None \<Rightarrow> Inl (DomainErr (err_wrap (Some (Leaf ''json'')) CodeInternal ''gateway.chatRequest.outbound'' ''marshal''))
      | Some t \<Rightarrow> Inr t)"

section \<open>The model of another body\<close>

definition bodyModel :: "string \<Rightarrow> bytes \<Rightarrow> bool \<Rightarrow> goerr + string" where
  "bodyModel op body required =
     (case unmarshal [(keyModel, \<lambda>raw v s. dec_string s v)] [] body of
        None \<Rightarrow> Inl (DomainErr (err_wrap (Some (Leaf ''json'')) CodeInvalid op ''invalid json''))
      | Some m \<Rightarrow>
          if required \<and> trim_space m = [] then Inl (DomainErr (err_new CodeInvalid op ''model required''))
          else Inr (trim_space m))"

definition withBodyModel :: "string \<Rightarrow> bytes \<Rightarrow> string \<Rightarrow> (goerr + bytes) run" where
  "withBodyModel op body model =
     (case unmarshal_map body of
        None \<Rightarrow> Returns (Inl (DomainErr (err_wrap (Some (Leaf ''json'')) CodeInvalid op ''invalid json'')))
      | Some payload \<Rightarrow>
          run_bind (map_assign keyModel (json_quote model) payload) (\<lambda>p.
            Returns (case marshal_map (Some p) of
               None \<Rightarrow> Inl (DomainErr (err_wrap (Some (Leaf ''json'')) CodeInternal op ''marshal''))
             | Some t \<Rightarrow> Inr t)))"

section \<open>What the backend reads\<close>

lemma lower_char_stable:
  assumes "(of_char c :: nat) < 65 \<or> 122 < (of_char c :: nat)"
  shows "lower_char x = c \<longleftrightarrow> x = c"
proof -
  have "(of_char (lower_char x) :: nat) = of_char c \<longleftrightarrow> (of_char x :: nat) = of_char c"
    using assms by (auto simp: lower_char_def of_char_less_eq)
  then show ?thesis by simp
qed

lemma has_prefix_lower:
  "\<forall>c \<in> set q. (of_char c :: nat) < 65 \<or> 122 < (of_char c :: nat) \<Longrightarrow> has_prefix (map lower_char s) q = has_prefix s q"
proof (induction s q rule: has_prefix.induct)
  case (3 c cs d ds)
  then show ?case using lower_char_stable by auto
qed auto

lemma strip_lower:
  assumes "\<forall>q \<in> set qs. \<forall>c \<in> set q. (of_char c :: nat) < 65 \<or> 122 < (of_char c :: nat)"
  shows "strip qs (map lower_char s) = map lower_char (strip qs s)"
  using assms
proof (induction qs s rule: strip.induct)
  case (1 qs s)
  have e: "lead_seq qs (map lower_char s) = lead_seq qs s"
    unfolding lead_seq_def by (rule find_cong [OF refl]) (use 1(2) has_prefix_lower in blast)
  show ?case
    using 1 e by (cases "lead_seq qs s") (simp_all add: strip.simps [of qs] drop_map)
qed

lemma white_stable: "\<forall>q \<in> set white_seqs. \<forall>c \<in> set q. (of_char c :: nat) < 65 \<or> 122 < (of_char c :: nat)"
  by (simp add: white_seqs_def)

lemma trim_to_lower [simp]: "trim_space (to_lower s) = to_lower (trim_space s)"
proof -
  have "\<forall>q \<in> set (map rev white_seqs). \<forall>c \<in> set q. (of_char c :: nat) < 65 \<or> 122 < (of_char c :: nat)"
    using white_stable by auto
  then show ?thesis
    by (simp add: trim_space_def trim_left_space_def trim_right_space_def to_lower_def strip_lower [OF white_stable]
        strip_lower rev_map)
qed

lemma to_lower_idem [simp]: "to_lower (to_lower s) = to_lower s"
proof -
  have "lower_char (lower_char c) = lower_char c" for c
    by (auto simp: lower_char_def of_char_less_eq)
  then show ?thesis by (simp add: to_lower_def comp_def)
qed

text \<open>The keys the mapping may touch.\<close>

definition reasoning_keys :: "string list" where
  "reasoning_keys = [keyReasoning, keyReasoningEffort, keyChatTemplateKwargs, keyEnableThinking]"

lemmas chat_keys = keyModel_def keyReasoning_def keyReasoningEffort_def keyChatTemplateKwargs_def keyEnableThinking_def
  keyMaxTokens_def keyEffort_def

lemma map_of_delete [simp]: "map_of (AList.delete k m) k' = (if k' = k then None else map_of m k')"
  by (simp add: delete_conv')

lemma any_at_simps [simp]:
  "any_at k (put k' v m) = (if k = k' then v else any_at k m)"
  "any_at k (AList.delete k' m) = (if k = k' then ANil else any_at k m)"
  by (simp_all add: any_at_def)

lemma reasoningObject_cases:
  "reasoningObject rt = Some (r, rt1) \<Longrightarrow>
     r = [] \<and> any_at keyReasoning rt = ANil \<and> rt1 = put keyReasoning (AMap []) rt \<or> any_at keyReasoning rt = AMap r \<and> rt1 = rt"
  by (auto simp: reasoningObject_def split: goany.splits)

lemma nested_frame:
  assumes "k \<noteq> keyReasoning"
  shows "map_of (setNestedReasoningEffort e rt) k = map_of rt k"
    "map_of (setNestedReasoningMaxTokens n rt) k = map_of rt k"
    "map_of (deleteNestedReasoningField f rt) k = map_of rt k"
  using assms
  by (auto simp: setNestedReasoningEffort_def setNestedReasoningMaxTokens_def deleteNestedReasoningField_def Let_def
      split: option.splits dest!: reasoningObject_cases)

lemma gemini_frame:
  "k \<noteq> keyReasoning \<Longrightarrow> map_of (applyGeminiThinkingEmit model wants rt) k = map_of rt k"
  using nested_frame [of k] by (simp add: applyGeminiThinkingEmit_def Let_def)

lemma applyChatThinkingRoot_frame:
  assumes "k \<notin> set reasoning_keys"
  shows "map_of (applyChatThinkingRoot ext model rt) k = map_of rt k"
proof -
  have k: "k \<noteq> keyReasoning" "k \<noteq> keyReasoningEffort" "k \<noteq> keyChatTemplateKwargs" "k \<noteq> keyEnableThinking"
    using assms by (simp_all add: reasoning_keys_def)
  have g: "map_of (applyGeminiThinkingEmit m w r) k = map_of r k" for m w r
    by (rule gemini_frame) (rule k(1))
  have c: "map_of (applyCloudflareThinkingEmit m w r) k = map_of r k" for m w r
    using k by (simp add: applyCloudflareThinkingEmit_def Let_def)
  have s: "map_of (stripCloudflareThinkingFields r) k = map_of r k" for r
    using k by (simp add: stripCloudflareThinkingFields_def)
  show ?thesis by (simp add: applyChatThinkingRoot_def Let_def g c s)
qed

text \<open>The edits keep the object one the encoder writes.\<close>

lemma any_wf_put:
  assumes "any_wf (AMap m)" "utf8_fix k = k" "any_wf v" shows "any_wf (AMap (put k v m))"
proof -
  have "distinct (map fst (put k v m))" using assms(1) by (intro put_facts(1)) simp
  moreover have "\<forall>(k', v') \<in> set (put k v m). utf8_fix k' = k' \<and> any_wf v'"
  proof
    fix x assume "x \<in> set (put k v m)"
    then consider "x = (k, v)" | "x \<in> set m" using put_facts(2) [of k v m] by auto
    then show "case x of (k', v') \<Rightarrow> utf8_fix k' = k' \<and> any_wf v'"
      by cases (use assms in \<open>auto simp: list_all_iff\<close>)
  qed
  ultimately show ?thesis by (simp add: list_all_iff)
qed

lemma set_delete_sub: "set (AList.delete k m) \<subseteq> set m"
  by (induction m) auto

lemma any_wf_delete: "any_wf (AMap m) \<Longrightarrow> any_wf (AMap (AList.delete k m))"
  using distinct_delete [of m k] set_delete_sub [of k m] by (auto simp: list_all_iff)

lemma any_wf_at: "any_wf (AMap m) \<Longrightarrow> any_wf (any_at k m)"
  by (auto simp: any_at_def list_all_iff split: option.splits dest: map_of_SomeD)

lemma clean_keys [simp]:
  "utf8_fix keyModel = keyModel" "utf8_fix keyReasoning = keyReasoning" "utf8_fix keyReasoningEffort = keyReasoningEffort"
  "utf8_fix keyChatTemplateKwargs = keyChatTemplateKwargs" "utf8_fix keyEnableThinking = keyEnableThinking"
  "utf8_fix keyMaxTokens = keyMaxTokens" "utf8_fix keyEffort = keyEffort"
  by (simp_all add: chat_keys in_range_nat)

lemma int_tokens: "parse_num (itoa 0) = Some (itoa 0, [])" "parse_num (itoa (-1)) = Some (itoa (-1), [])"
  by code_simp+

lemma reasoningObject_wf:
  assumes "any_wf (AMap rt)" "reasoningObject rt = Some (r, rt1)"
  shows "any_wf (AMap r)" "any_wf (AMap rt1)"
proof -
  have "any_wf (AMap [])" by simp
  then show "any_wf (AMap r)" "any_wf (AMap rt1)"
    using reasoningObject_cases [OF assms(2)] assms(1) any_wf_at [OF assms(1), of keyReasoning]
      any_wf_put [OF assms(1), of keyReasoning "AMap []"] by auto
qed

lemma nested_wf:
  assumes "any_wf (AMap rt)"
  shows "any_wf (AMap (setNestedReasoningEffort e rt))"
    "n \<in> {0, -1} \<Longrightarrow> any_wf (AMap (setNestedReasoningMaxTokens n rt))"
    "any_wf (AMap (deleteNestedReasoningField f rt))"
proof -
  note w = reasoningObject_wf [OF assms]
  have s: "any_wf (AStr e)" by simp
  show "any_wf (AMap (setNestedReasoningEffort e rt))"
    using assms w by (auto simp: setNestedReasoningEffort_def simp del: any_wf.simps(4) split: option.splits
      intro!: any_wf_put s)
  show "n \<in> {0, -1} \<Longrightarrow> any_wf (AMap (setNestedReasoningMaxTokens n rt))"
  proof -
    assume "n \<in> {0, -1}"
    then have i: "any_wf (AInt n)" using int_tokens by auto
    show ?thesis
      using assms w by (auto simp: setNestedReasoningMaxTokens_def simp del: any_wf.simps(4) any_wf.simps(2) split: option.splits
        intro!: any_wf_put i)
  qed
  have d: "any_wf (AMap m)" if "any_map (any_at keyReasoning rt) = Some m" for m
    using any_wf_at [OF assms, of keyReasoning] that by (cases "any_at keyReasoning rt") auto
  show "any_wf (AMap (deleteNestedReasoningField f rt))"
    using assms d by (auto simp: deleteNestedReasoningField_def Let_def simp del: any_wf.simps(4) split: option.splits
      intro!: any_wf_put any_wf_delete)
qed


lemma applyChatThinkingRoot_wf:
  assumes "any_wf (AMap rt)" shows "any_wf (AMap (applyChatThinkingRoot ext model rt))"
proof -
  have b: "any_wf (ABool x)" "any_wf (AStr s)" "any_wf (AMap [(keyEnableThinking, ABool x)])" for x s by simp_all
  have g: "any_wf (AMap (applyGeminiThinkingEmit m w r))" if "any_wf (AMap r)" for m w r
    using that by (simp add: applyGeminiThinkingEmit_def Let_def nested_wf del: any_wf.simps(4))
  have k: "any_wf (AMap x)" if "any_map (any_at keyChatTemplateKwargs rt) = Some x" for x
    using any_wf_at [OF assms, of keyChatTemplateKwargs] that by (cases "any_at keyChatTemplateKwargs rt") auto
  have c: "any_wf (AMap (applyCloudflareThinkingEmit m w rt))" for m w
    using assms k by (auto simp: applyCloudflareThinkingEmit_def Let_def b simp del: any_wf.simps(4) split: option.splits
      intro!: any_wf_put)
  have s: "any_wf (AMap (stripCloudflareThinkingFields rt))"
    using assms by (simp add: stripCloudflareThinkingFields_def any_wf_delete del: any_wf.simps(4))
  show ?thesis using g [OF s] c s by (simp add: applyChatThinkingRoot_def Let_def del: any_wf.simps(4))
qed

text \<open>An accepted request.\<close>

lemma decode_map_object:
  assumes "decode_map body = Some (Some m, r)"
  obtains ms where "parse_value (skip_ws body) = Some (JObj ms, r)" "any_of (JObj ms) = AMap m"
proof -
  obtain v r' where p: "parse_value (skip_ws body) = Some (v, r')"
    using assms by (cases "parse_value (skip_ws body)") (auto simp: decode_map_def)
  show thesis
    using assms p that by (cases v) (auto simp: decode_map_def)
qed

lemma decode_map_wf:
  assumes "decode_map body = Some (Some m, r)" shows "any_wf (AMap m)"
proof -
  obtain ms where ms: "parse_value (skip_ws body) = Some (JObj ms, r)" "any_of (JObj ms) = AMap m"
    using assms by (rule decode_map_object)
  then show ?thesis using any_of_wf [OF parse_value_wf(1) [OF ms(1)]] by simp
qed

lemma parseChatRequest_Inr:
  assumes "parseChatRequest body = Inr c"
  shows "\<exists>m r s. decode_map body = Some (Some m, r) \<and> \<not> decoder_more r \<and> cr_root c = m \<and> any_at keyModel m = AStr s \<and>
    cr_model c = trim_space s \<and> trim_space s \<noteq> [] \<and> cr_raw c = body \<and>
    (any_at ''stream'' m = ANil \<and> \<not> cr_stream c \<or> any_at ''stream'' m = ABool (cr_stream c)) \<and>
    cr_vision c = chatMapHasVision m \<and> cr_thinking c = chatMapWantsThinking m"
  using assms
  by (auto simp: parseChatRequest_def Let_def any_at_def split: option.splits prod.splits if_splits goany.splits)


lemma decode_marshalled:
  assumes "any_wf (AMap m)"
  obtains t where "marshal_any (AMap m) = Some t"
    "decode_map t = Some (Some (key_order (map (\<lambda>(k, v). (k, read_back v)) m)), [])"
proof -
  obtain t where t: "marshal_any (AMap m) = Some t" "reads t (read_back (AMap m))" using marshal_reads [OF assms] by blast
  obtain j where j: "parse_value (t @ []) = Some (j, [])" "any_of j = read_back (AMap m)"
    using readsE [OF t(2), of "[]"] by auto
  have "skip_ws t = t" using t(2) skip_ws_starts [of t "[]"] by (simp add: reads_def)
  then have "decode_map t = Some (Some (key_order (map (\<lambda>(k, v). (k, read_back v)) m)), [])"
    using j by (cases j) (auto simp: decode_map_def)
  with t(1) show thesis by (rule that)
qed

lemma map_of_key_order: "map_of (key_order m) k = map_of m k"
proof -
  have "map_of (map (\<lambda>k. (k, f k)) ks) k = (if k \<in> set ks then Some (f k) else None)" for f :: "string \<Rightarrow> 'a" and ks
    by (induction ks) auto
  note image = this
  show ?thesis
  proof (cases "k \<in> fst ` set m")
    case True
    then have "map_of m k \<noteq> None" by (simp add: map_of_eq_None_iff)
    then show ?thesis using True by (auto simp: key_order_def image)
  next
    case False
    then have "map_of m k = None" by (simp add: map_of_eq_None_iff)
    then show ?thesis using False by (simp add: key_order_def image)
  qed
qed

text \<open>C5: An accepted chat request is always encoded, and the body the backend decodes is the request the
  client sent: the model is the one of the route, and every member but the model and the reasoning fields has
  the client's value (its objects in key order).\<close>

theorem forwarded_body_keeps_the_request:
  assumes "parseChatRequest body = Inr c"
  shows "\<exists>t m. outbound c downstream extension = Inr t \<and> decode_map t = Some (Some m, []) \<and>
    any_at keyModel m = AStr (utf8_fix downstream) \<and>
    (\<forall>k. k \<noteq> keyModel \<longrightarrow> k \<notin> set reasoning_keys \<longrightarrow> map_of m k = map_option read_back (map_of (cr_root c) k))"
proof -
  obtain m r where m: "decode_map body = Some (Some m, r)" "cr_root c = m" using parseChatRequest_Inr [OF assms] by blast
  let ?o = "outbound_root c downstream extension"
  have "any_wf (AMap (put keyModel (AStr downstream) m))"
    using decode_map_wf [OF m(1)] by (intro any_wf_put) simp_all
  then have "any_wf (AMap ?o)" unfolding outbound_root_def m(2) by (rule applyChatThinkingRoot_wf)
  then obtain t where t: "marshal_any (AMap ?o) = Some t"
    "decode_map t = Some (Some (key_order (map (\<lambda>(k, v). (k, read_back v)) ?o)), [])"
    by (rule decode_marshalled)
  have at: "map_of (key_order (map (\<lambda>(k, v). (k, read_back v)) ?o)) k = map_option read_back (map_of ?o k)" for k
    by (simp add: map_of_key_order map_of_image)
  have frame: "map_of ?o k = map_of (put keyModel (AStr downstream) m) k" if "k \<notin> set reasoning_keys" for k
    unfolding outbound_root_def m(2) using that by (rule applyChatThinkingRoot_frame)
  have "keyModel \<notin> set reasoning_keys" by (simp add: reasoning_keys_def chat_keys)
  from frame [OF this] have "any_at keyModel (key_order (map (\<lambda>(k, v). (k, read_back v)) ?o)) = AStr (utf8_fix downstream)"
    by (simp add: any_at_def at)
  then show ?thesis using t at frame m(2) by (auto simp: outbound_def)
qed


section \<open>The reasoning mapping\<close>

lemma effort_off_trim [simp]: "chatReasoningEffortIsOff (trim_space e) = chatReasoningEffortIsOff e"
  by (simp add: chatReasoningEffortIsOff_def)



lemma wants_cong:
  assumes "any_at keyReasoning a = any_at keyReasoning b" "any_at keyReasoningEffort a = any_at keyReasoningEffort b"
  shows "chatMapWantsThinking a = chatMapWantsThinking b"
  unfolding chatMapWantsThinking_def chatMapReasoningEffort_def assms by (rule refl)





lemma efforts [simp]:
  "trim_space ''high'' = ''high''" "trim_space reasoningEffortMinimal = reasoningEffortMinimal"
  "reasoningEffortMinimal \<noteq> []" "\<not> chatReasoningEffortIsOff ''high''" "chatReasoningEffortIsOff reasoningEffortMinimal"
  by code_simp+



lemma wants_deleted_tokens [simp]:
  "chatMapWantsThinking (deleteNestedReasoningField keyMaxTokens rt) = chatMapWantsThinking rt"
proof -
  have k: "keyEffort \<noteq> keyMaxTokens" "keyReasoning \<noteq> keyReasoningEffort" by (simp_all add: chat_keys)
  show ?thesis
  proof (cases "any_at keyReasoning rt")
    case (AMap r)
    have n: "any_at keyEffort r = ANil" if "AList.delete keyMaxTokens r = []"
    proof -
      have "any_at keyEffort (AList.delete keyMaxTokens r) = any_at keyEffort r" using k by simp
      then show ?thesis unfolding that by (simp add: any_at_def)
    qed
    show ?thesis using AMap n k
      by (auto simp: deleteNestedReasoningField_def Let_def chatMapWantsThinking_def chatMapReasoningEffort_def)
  qed (simp_all add: deleteNestedReasoningField_def)
qed



lemma strip_wants [simp]: "chatMapWantsThinking (stripCloudflareThinkingFields rt) = chatMapWantsThinking rt"
  by (rule wants_cong) (simp_all add: stripCloudflareThinkingFields_def chat_keys)






lemma lower_efforts [simp]: "to_lower ''high'' = ''high''" "to_lower reasoningEffortMinimal = ''minimal''"
  by code_simp+




section \<open>Sample requests\<close>

definition jq :: "string \<Rightarrow> string" where
  "jq s = CHR 0x22 # s @ [CHR 0x22]"

definition sample_chat :: bytes where
  "sample_chat = ''{'' @ jq ''model'' @ '':'' @ jq ''gem/gemini-2.5-pro'' @ '','' @ jq ''seed'' @ '':9007199254740993,'' @
     jq ''enable_thinking'' @ '':true,'' @ jq ''reasoning'' @ '':{'' @ jq ''effort'' @ '':'' @ jq ''high'' @ ''}}''"

theorem forwarded_body_keeps_the_request_witness:
  "\<exists>c t m. parseChatRequest sample_chat = Inr c \<and> outbound c ''gemini-2.5-pro'' ''gemini'' = Inr t \<and>
    decode_map t = Some (Some m, []) \<and> any_at keyModel m = AStr ''gemini-2.5-pro'' \<and>
    any_at ''seed'' m = ANum ''9007199254740993''"
proof -
  have "case parseChatRequest sample_chat of Inl e \<Rightarrow> False
    | Inr c \<Rightarrow> map_of (cr_root c) ''seed'' = Some (ANum ''9007199254740993'')"
    by code_simp
  then obtain c where c: "parseChatRequest sample_chat = Inr c" "map_of (cr_root c) ''seed'' = Some (ANum ''9007199254740993'')"
    by (auto split: sum.splits)
  have s: "''seed'' \<noteq> keyModel" "''seed'' \<notin> set reasoning_keys" by (simp_all add: reasoning_keys_def chat_keys)
  have d: "utf8_fix ''gemini-2.5-pro'' = ''gemini-2.5-pro''" by code_simp
  show ?thesis
    using forwarded_body_keeps_the_request [OF c(1), of "''gemini-2.5-pro''" "''gemini''"] c s d
    by (fastforce simp: any_at_def)
qed

end
