(* ===== verification/Chat_Stream.thy ===== *)
theory Chat_Stream
  imports Responses Chat_Body
begin

text \<open>
  What a chat client reads (\<open>internal/gateway/openai_stream.go\<close>, the stream part of
  \<open>chat_transport.go\<close>, \<open>stream_observability.go\<close> and the selected-model headers of \<open>chat.go\<close>):
  the sanitizer that keeps the OpenAI stream contract chunk by chunk, the fixes of a whole
  completion, the watchdog of a stream and the writer that frames chunks as server-sent events.
  A stream is the sequence of what its \<open>select\<close> receives, each with the time it is received;
  a write may fail, as the client's connection may be gone. Spans are not modelled, of a dropped
  chunk's dump only that it is claimed. The properties say that nothing continues a finished
  choice, that an error is tagged as answered exactly when the status is out, that a client that
  leaves never counts against the backend, and that a steady stream is never cut.
\<close>

section \<open>Chunks\<close>

definition keyReasoningContent :: string where "keyReasoningContent = ''reasoning_content''"
definition keyChoices :: string where "keyChoices = ''choices''"
definition keyFinishReason :: string where "keyFinishReason = ''finish_reason''"
definition keyExtraFields :: string where "keyExtraFields = ''extra_fields''"
definition jsonNull :: string where "jsonNull = ''null''"

text \<open>\<open>bytes.TrimSpace\<close> is \<open>strings.TrimSpace\<close> on bytes.\<close>

definition isJSONNull :: "bytes \<Rightarrow> bool" where
  "isJSONNull raw = (trim_space raw = [] \<or> trim_space raw = jsonNull)"

text \<open>A map of raw members, nil as \<open>None\<close>; a read of the nil map finds nothing.\<close>

type_synonym raw_map = "string gomap option"

definition raw_get :: "string \<Rightarrow> raw_map \<Rightarrow> bytes option" where
  "raw_get k m = (case m of None \<Rightarrow> None | Some kv \<Rightarrow> map_of kv k)"

text \<open>\<open>m[k]\<close>, empty where it is absent.\<close>

definition raw_at :: "string \<Rightarrow> raw_map \<Rightarrow> bytes" where
  "raw_at k m = (case raw_get k m of None \<Rightarrow> [] | Some raw \<Rightarrow> raw)"

record chat_chunk =
  ch_root :: raw_map
  ch_choices :: "raw_map list option"

definition dec_nullable_map :: "json \<Rightarrow> raw_map option" where
  "dec_nullable_map v = (case v of JNull \<Rightarrow> Some None | _ \<Rightarrow> map_option Some (dec_raw_map v))"

definition unmarshal_maps :: "bytes \<Rightarrow> raw_map list option option" where
  "unmarshal_maps raw =
     (case json_parse raw of
        Some JNull \<Rightarrow> Some None
      | Some (JArr es) \<Rightarrow> map_option Some (dec_elems dec_nullable_map es)
      | _ \<Rightarrow> None)"

definition decodeChatChunk :: "bytes \<Rightarrow> chat_chunk option" where
  "decodeChatChunk raw =
     (case unmarshal_map raw of
        None \<Rightarrow> None
      | Some rt \<Rightarrow>
          (case raw_get keyChoices rt of
             None \<Rightarrow> Some \<lparr>ch_root = rt, ch_choices = None\<rparr>
           | Some rawChoices \<Rightarrow>
               map_option (\<lambda>cs. \<lparr>ch_root = rt, ch_choices = cs\<rparr>) (unmarshal_maps rawChoices)))"

text \<open>A range over the choices; a nil slice has none.\<close>

definition choices_of :: "chat_chunk \<Rightarrow> raw_map list" where
  "choices_of c = (case ch_choices c of None \<Rightarrow> [] | Some cs \<Rightarrow> cs)"

definition deleteRootKey :: "string \<Rightarrow> chat_chunk \<Rightarrow> bool \<times> chat_chunk" where
  "deleteRootKey key c =
     (if raw_get key (ch_root c) = None then (False, c) else (True, c\<lparr>ch_root := map_delete key (ch_root c)\<rparr>))"

definition hasUsage :: "chat_chunk \<Rightarrow> bool" where
  "hasUsage c = (\<not> isJSONNull (raw_at ''usage'' (ch_root c)))"

definition marshal_maps :: "raw_map list \<Rightarrow> bytes option" where
  "marshal_maps cs = map_option (\<lambda>ts. ''['' @ join '','' ts @ '']'') (texts (map marshal_map cs))"

definition encode_chunk :: "chat_chunk \<Rightarrow> bytes option run" where
  "encode_chunk c =
     (case ch_choices c of
        None \<Rightarrow> Returns (marshal_map (ch_root c))
      | Some cs \<Rightarrow>
          (case marshal_maps cs of
             None \<Rightarrow> Returns None
           | Some raw \<Rightarrow> run_bind (map_assign keyChoices raw (ch_root c)) (\<lambda>rt. Returns (marshal_map (Some rt)))))"

definition encodeIfChanged :: "bytes \<Rightarrow> bool \<Rightarrow> chat_chunk \<Rightarrow> bytes run" where
  "encodeIfChanged original changed c =
     (if \<not> changed then Returns original
      else run_bind (encode_chunk c) (\<lambda>out. Returns (case out of None \<Rightarrow> original | Some t \<Rightarrow> t)))"

definition streamChoiceIndex :: "raw_map \<Rightarrow> int" where
  "streamChoiceIndex ch =
     (let raw = raw_at ''index'' ch
      in if raw = [] then 0
         else case json_parse raw of None \<Rightarrow> 0 | Some v \<Rightarrow> (case dec_int 0 v of None \<Rightarrow> 0 | Some i \<Rightarrow> i))"

definition isTerminalStreamFinishReason :: "bytes \<Rightarrow> bool" where
  "isTerminalStreamFinishReason raw =
     (if isJSONNull raw then False
      else case json_parse raw of
          None \<Rightarrow> False
        | Some v \<Rightarrow> (case dec_string [] v of None \<Rightarrow> False | Some s \<Rightarrow> trim_space s \<noteq> []))"

definition jsonStringField :: "bytes \<Rightarrow> string" where
  "jsonStringField raw =
     (if isJSONNull raw then []
      else case json_parse raw of
          None \<Rightarrow> []
        | Some v \<Rightarrow> (case dec_string [] v of None \<Rightarrow> [] | Some s \<Rightarrow> trim_space s))"

section \<open>Edits of the choices\<close>

text \<open>The assignment panics on a choice that is the nil map.\<close>

fun ensureChoiceFinishReasons :: "raw_map list \<Rightarrow> (bool \<times> raw_map list) run" where
  "ensureChoiceFinishReasons [] = Returns (False, [])"
| "ensureChoiceFinishReasons (ch # cs) =
     (if raw_get keyFinishReason ch \<noteq> None
      then run_bind (ensureChoiceFinishReasons cs) (\<lambda>(changed, cs'). Returns (changed, ch # cs'))
      else run_bind (map_assign keyFinishReason jsonNull ch) (\<lambda>kv.
             run_bind (ensureChoiceFinishReasons cs) (\<lambda>(_, cs'). Returns (True, Some kv # cs'))))"

definition jsonFieldPresent :: "string gomap \<Rightarrow> string \<Rightarrow> bool" where
  "jsonFieldPresent obj key = (case map_of obj key of None \<Rightarrow> False | Some raw \<Rightarrow> \<not> isJSONNull raw)"

definition editChoiceObject ::
  "string \<Rightarrow> (string gomap \<Rightarrow> string gomap option) \<Rightarrow> raw_map \<Rightarrow> bool \<times> raw_map" where
  "editChoiceObject field edit ch =
     (case raw_get field ch of
        None \<Rightarrow> (False, ch)
      | Some raw \<Rightarrow>
          (case unmarshal_map raw of
             Some (Some obj) \<Rightarrow>
               (case edit obj of
                  None \<Rightarrow> (False, ch)
                | Some obj' \<Rightarrow>
                    (case marshal_map (Some obj') of
                       None \<Rightarrow> (False, ch)
                     | Some updated \<Rightarrow> (True, map_option (put field updated) ch)))
           | _ \<Rightarrow> (False, ch)))"

definition drop_alias :: "string gomap \<Rightarrow> string gomap option" where
  "drop_alias obj =
     (if \<not> jsonFieldPresent obj keyReasoning \<or> \<not> jsonFieldPresent obj keyReasoningContent then None
      else Some (AList.delete keyReasoningContent obj))"

definition choiceObjectFields :: "string list" where
  "choiceObjectFields = [''delta'', ''message'']"

text \<open>A loop over choices that reports whether any edit was made.\<close>

definition edit_each :: "(raw_map \<Rightarrow> bool \<times> raw_map) \<Rightarrow> raw_map list \<Rightarrow> bool \<times> raw_map list" where
  "edit_each f cs = (list_ex (\<lambda>ch. fst (f ch)) cs, map (\<lambda>ch. snd (f ch)) cs)"

definition strip_choice_alias :: "raw_map \<Rightarrow> bool \<times> raw_map" where
  "strip_choice_alias ch =
     fold (\<lambda>field (changed, ch). case editChoiceObject field drop_alias ch of (c, ch') \<Rightarrow> (c \<or> changed, ch'))
       choiceObjectFields (False, ch)"

definition stripDualReasoningAlias :: "raw_map list \<Rightarrow> bool \<times> raw_map list" where
  "stripDualReasoningAlias = edit_each strip_choice_alias"

definition merge_message :: "string gomap \<Rightarrow> string gomap option" where
  "merge_message msg =
     (if jsonStringField (raw_at ''content'' (Some msg)) \<noteq> [] then None
      else let reasoning = firstNonEmpty [jsonStringField (raw_at keyReasoningContent (Some msg)),
                 jsonStringField (raw_at keyReasoning (Some msg))]
           in if reasoning = [] then None else Some (put ''content'' (json_quote reasoning) msg))"

definition mergeReasoningIntoContent :: "raw_map list \<Rightarrow> bool \<times> raw_map list" where
  "mergeReasoningIntoContent = edit_each (editChoiceObject ''message'' merge_message)"

section \<open>The stream contract\<close>

datatype stream_action = StreamForward | StreamDrop | StreamRewriteUsage

record sanitized_chunk =
  sz_out :: bytes
  sz_action :: stream_action
  sz_alias :: bool

text \<open>The sanitizer: the indices that have sent a terminal \<open>finish_reason\<close>.\<close>

type_synonym sanitizer = "int set"

definition afterFinish :: "sanitizer \<Rightarrow> raw_map list \<Rightarrow> bool" where
  "afterFinish st cs = list_ex (\<lambda>ch. streamChoiceIndex ch \<in> st) cs"

definition markFinished :: "raw_map list \<Rightarrow> sanitizer \<Rightarrow> sanitizer" where
  "markFinished cs st =
     fold (\<lambda>ch st. if isTerminalStreamFinishReason (raw_at keyFinishReason ch) then insert (streamChoiceIndex ch) st else st) cs st"

definition dropped :: sanitized_chunk where
  "dropped = \<lparr>sz_out = [], sz_action = StreamDrop, sz_alias = False\<rparr>"

definition sanitizeOpenAIStreamChunk :: "bytes \<Rightarrow> bool \<Rightarrow> sanitizer \<Rightarrow> (sanitized_chunk \<times> sanitizer) run" where
  "sanitizeOpenAIStreamChunk body stripExtraFields st =
     (case decodeChatChunk body of
        None \<Rightarrow>
          Returns (if st \<noteq> {} then dropped else \<lparr>sz_out = body, sz_action = StreamForward, sz_alias = False\<rparr>, st)
      | Some chunk0 \<Rightarrow>
          (let (changed0, chunk) = (if stripExtraFields then deleteRootKey keyExtraFields chunk0 else (False, chunk0));
               late = afterFinish st (choices_of chunk);
               st' = markFinished (choices_of chunk) st
           in if late \<and> \<not> hasUsage chunk then Returns (dropped, st')
              else
                (let chunk1 = (if late then chunk\<lparr>ch_choices := Some []\<rparr> else chunk);
                     action = (if late then StreamRewriteUsage else StreamForward);
                     changed1 = changed0 \<or> late
                 in run_bind (ensureChoiceFinishReasons (choices_of chunk1)) (\<lambda>(ensured, cs).
                      case stripDualReasoningAlias cs of
                        (alias, cs') \<Rightarrow>
                          let chunk2 = chunk1\<lparr>ch_choices := map_option (\<lambda>_. cs') (ch_choices chunk1)\<rparr>
                          in run_bind (encodeIfChanged body (ensured \<or> changed1 \<or> alias) chunk2) (\<lambda>out.
                               Returns (\<lparr>sz_out = out, sz_action = action, sz_alias = alias\<rparr>, st'))))))"

section \<open>Whole completions\<close>

record completion_fixes =
  fx_merged :: bool
  fx_alias :: bool

definition no_fixes :: completion_fixes where
  "no_fixes = \<lparr>fx_merged = False, fx_alias = False\<rparr>"

definition normalizeCompletionBody :: "bytes \<Rightarrow> (bytes \<times> completion_fixes) run" where
  "normalizeCompletionBody raw =
     (case decodeChatChunk raw of
        None \<Rightarrow> Returns (raw, no_fixes)
      | Some chunk \<Rightarrow>
          if choices_of chunk = [] then Returns (raw, no_fixes)
          else case mergeReasoningIntoContent (choices_of chunk) of
            (merged, cs1) \<Rightarrow>
              (case stripDualReasoningAlias cs1 of
                 (alias, cs2) \<Rightarrow>
                   if \<not> merged \<and> \<not> alias then Returns (raw, no_fixes)
                   else run_bind (encode_chunk (chunk\<lparr>ch_choices := Some cs2\<rparr>)) (\<lambda>out.
                          Returns (case out of
                            None \<Rightarrow> (raw, no_fixes)
                          | Some t \<Rightarrow> (t, \<lparr>fx_merged = merged, fx_alias = alias\<rparr>)))))"

definition InterventionReasoningAlias :: string where "InterventionReasoningAlias = ''reasoning_alias''"
definition InterventionMergeReasoning :: string where "InterventionMergeReasoning = ''merge_reasoning_into_content''"
definition InterventionSSEDrop :: string where "InterventionSSEDrop = ''sse_drop''"

definition normalizeChatCompletion :: "bytes \<Rightarrow> reply_writer \<Rightarrow> (bytes \<times> reply_writer) run" where
  "normalizeChatCompletion raw w =
     run_bind (normalizeCompletionBody raw) (\<lambda>(out, fixes).
       let w1 = (if fx_merged fixes then setIntervention InterventionMergeReasoning w else w);
           w2 = (if fx_alias fixes then setIntervention InterventionReasoningAlias w1 else w1)
       in Returns (out, w2))"

section \<open>The selected model of a composed router\<close>

definition headerRouterSelectedModel :: string where
  "headerRouterSelectedModel = ''x-model-router-selected-model''"
definition headerSwitchyardSelectedModel :: string where
  "headerSwitchyardSelectedModel = ''x-switchyard-selected-model''"

definition selectedModelHeaders :: "string list" where
  "selectedModelHeaders = [headerRouterSelectedModel, headerSwitchyardSelectedModel]"

definition extractRouterSelectedModel :: "header \<Rightarrow> bytes \<Rightarrow> string" where
  "extractRouterSelectedModel hdr body =
     (case find (\<lambda>key. trim_space (header_get hdr key) \<noteq> []) selectedModelHeaders of
        Some key \<Rightarrow> trim_space (header_get hdr key)
      | None \<Rightarrow>
          (case unmarshal [(keyModel, \<lambda>raw v s. dec_string s v)] [] body of
             None \<Rightarrow> []
           | Some m \<Rightarrow> trim_space m))"

text \<open>The recorder: \<open>None\<close> is the nil recorder of a leaf call, \<open>Some None\<close> one that has recorded nothing.\<close>

type_synonym selected_model = "string option option"

definition sel_record :: "string \<Rightarrow> selected_model \<Rightarrow> selected_model" where
  "sel_record model s =
     (case s of Some None \<Rightarrow> if model = [] then s else Some (Some model) | _ \<Rightarrow> s)"

definition sel_fromHeader :: "header \<Rightarrow> selected_model \<Rightarrow> reply_writer \<Rightarrow> selected_model \<times> reply_writer" where
  "sel_fromHeader hdr s w =
     (case s of
        None \<Rightarrow> (None, w)
      | Some _ \<Rightarrow>
          (sel_record (extractRouterSelectedModel hdr []) s,
           fold (\<lambda>key w. let v = trim_space (header_get hdr key) in if v \<noteq> [] then set_header key v w else w)
             selectedModelHeaders w))"

definition sel_fromBody :: "bytes \<Rightarrow> selected_model \<Rightarrow> selected_model" where
  "sel_fromBody body s = (case s of Some None \<Rightarrow> sel_record (extractRouterSelectedModel [] body) s | _ \<Rightarrow> s)"

section \<open>The watchdog\<close>

text \<open>A timer that fires at \<open>wd_due\<close>; \<open>wd_at\<close> is the watchdog as the clock reads \<open>t\<close>.\<close>

record stream_watchdog =
  wd_idle :: int
  wd_due :: "int option"
  wd_fired :: bool

definition startStreamWatchdog :: "int \<Rightarrow> int \<Rightarrow> int \<Rightarrow> stream_watchdog" where
  "startStreamWatchdog hop idle t = \<lparr>wd_idle = idle, wd_due = Some (t + hop), wd_fired = False\<rparr>"

definition wd_at :: "int \<Rightarrow> stream_watchdog \<Rightarrow> stream_watchdog" where
  "wd_at t wd =
     (case wd_due wd of
        None \<Rightarrow> wd
      | Some d \<Rightarrow> if d \<le> t then wd\<lparr>wd_due := None, wd_fired := True\<rparr> else wd)"

definition watchdog_chunk :: "int \<Rightarrow> stream_watchdog option \<Rightarrow> stream_watchdog option" where
  "watchdog_chunk t =
     map_option (\<lambda>wd. let wd1 = wd_at t wd in wd1\<lparr>wd_due := if wd_idle wd1 \<le> 0 then None else Some (t + wd_idle wd1)\<rparr>)"

definition timedOut :: "int \<Rightarrow> stream_watchdog option \<Rightarrow> bool" where
  "timedOut t wd = (case wd of None \<Rightarrow> False | Some d \<Rightarrow> wd_fired (wd_at t d))"

section \<open>Dumps of dropped chunks\<close>

definition maxChunkDumpsPerStream :: nat where "maxChunkDumpsPerStream = 5"

text \<open>The counter of a stream: the chunks seen, whether its sink has a directory, the dumps claimed and the
  indices of the chunks dumped.\<close>

record stream_counter =
  ct_index :: nat
  ct_dir :: bool
  ct_dumped :: nat
  ct_files :: "nat list"

definition nextStreamChunkIndex :: "stream_counter \<Rightarrow> nat \<times> stream_counter" where
  "nextStreamChunkIndex c = (Suc (ct_index c), c\<lparr>ct_index := Suc (ct_index c)\<rparr>)"

definition claimChunkDump :: "stream_counter \<Rightarrow> bool \<times> stream_counter" where
  "claimChunkDump c =
     (if maxChunkDumpsPerStream \<le> ct_dumped c then (False, c) else (True, c\<lparr>ct_dumped := Suc (ct_dumped c)\<rparr>))"

definition dumpIllegalStreamChunk :: "nat \<Rightarrow> stream_counter \<Rightarrow> stream_counter" where
  "dumpIllegalStreamChunk idx c =
     (if \<not> ct_dir c then c
      else case claimChunkDump c of (claimed, c1) \<Rightarrow> if claimed then c1\<lparr>ct_files := ct_files c1 @ [idx]\<rparr> else c1)"

definition recordBifrostStreamChunk :: "stream_action \<Rightarrow> stream_counter \<Rightarrow> stream_counter" where
  "recordBifrostStreamChunk action c =
     (case nextStreamChunkIndex c of (idx, c1) \<Rightarrow> if action = StreamDrop then dumpIllegalStreamChunk idx c1 else c1)"

section \<open>Server-sent events\<close>

text \<open>What the stream receives: a chunk, the closed channel with the stream's terminal error and the state of
  the context then, or the end of the context.\<close>

datatype sse_event = Chunk bytes | Closed "goerr option" "sentinel option" | CtxDone sentinel

text \<open>\<open>ss_faults\<close> says for each write to come whether it fails.\<close>

record sse_state =
  ss_writer :: reply_writer
  ss_faults :: "bool list"
  ss_started :: bool
  ss_san :: sanitizer
  ss_wd :: "stream_watchdog option"
  ss_sel :: selected_model
  ss_count :: stream_counter

definition opSSE :: string where "opSSE = ''gateway.writeBifrostChatSSE''"

definition afterHeaders :: "sentinel option \<Rightarrow> goerr option \<Rightarrow> bool \<Rightarrow> string \<Rightarrow> string \<Rightarrow> goerr" where
  "afterHeaders ctx err clientWrite op msg =
     (let code = (if clientWrite \<or> ctx \<noteq> None then CodeCanceled else CodeUnavailable);
          e = DomainErr (err_wrap err code op msg)
      in Joined (err_text e @ '': '' @ sentinel_text ErrResponseWritten) [e, Sent ErrResponseWritten])"

definition streamEnded :: "sentinel option \<Rightarrow> bool \<Rightarrow> bool \<Rightarrow> goerr" where
  "streamEnded ctx fired started =
     (let cause = map_option Sent ctx
      in if fired then
           (let e = DomainErr (err_wrap cause CodeTimeout opSSE
                  (if started then ''stream stalled past the idle limit'' else ''no stream chunk within the hop budget''))
            in if started then Joined (err_text e @ '': '' @ sentinel_text ErrResponseWritten) [e, Sent ErrResponseWritten]
               else e)
         else if started then afterHeaders ctx cause True opSSE ''context done''
         else DomainErr (err_wrap cause CodeCanceled opSSE ''context done''))"

definition sse_start :: "sse_state \<Rightarrow> sse_state" where
  "sse_start st =
     (if ss_started st then st else st\<lparr>ss_writer := write_header 200 (ss_writer st), ss_started := True\<rparr>)"

definition sse_write :: "bytes \<Rightarrow> sse_state \<Rightarrow> goerr option \<times> sse_state" where
  "sse_write b st =
     (case ss_faults st of
        True # fs \<Rightarrow> (Some (Leaf ''write''), st\<lparr>ss_faults := fs\<rparr>)
      | fs \<Rightarrow> (None, st\<lparr>ss_faults := tl fs, ss_writer := write_bytes b (ss_writer st)\<rparr>))"

definition sse_frame :: "bytes \<Rightarrow> bytes" where
  "sse_frame out = ''data: '' @ out @ ''\<newline>\<newline>''"

text \<open>One received chunk: \<open>Some\<close> is an early return, \<open>None\<close> the next turn of the loop. The context is read
  when a write fails, but a failed write counts as the client gone in any case.\<close>

definition sse_received :: "int \<Rightarrow> bytes \<Rightarrow> sanitized_chunk \<Rightarrow> sanitizer \<Rightarrow> sse_state \<Rightarrow> sse_state" where
  "sse_received t b res san st =
     st\<lparr>ss_wd := watchdog_chunk t (ss_wd st), ss_sel := sel_fromBody b (ss_sel st), ss_san := san,
        ss_writer := (if sz_alias res then setIntervention InterventionReasoningAlias (ss_writer st) else ss_writer st),
        ss_count := recordBifrostStreamChunk (sz_action res) (ss_count st)\<rparr>"

definition sse_chunk :: "int \<Rightarrow> bytes \<Rightarrow> sse_state \<Rightarrow> (goerr option \<times> sse_state) run" where
  "sse_chunk t b st =
     run_bind (sanitizeOpenAIStreamChunk b True (ss_san st)) (\<lambda>(res, san).
       let st2 = sse_received t b res san st
       in if sz_action res = StreamDrop
          then Returns (None, st2\<lparr>ss_writer := setIntervention InterventionSSEDrop (ss_writer st2)\<rparr>)
          else case sse_write (sse_frame (sz_out res)) (sse_start st2) of
            (Some e, st3) \<Rightarrow> Returns (Some (afterHeaders None (Some e) True opSSE ''write stream''), st3)
          | (None, st3) \<Rightarrow> Returns (None, st3))"

definition sse_closed :: "int \<Rightarrow> goerr option \<Rightarrow> sentinel option \<Rightarrow> sse_state \<Rightarrow> goerr option \<times> sse_state" where
  "sse_closed t err ctx st =
     (case err of
        Some e \<Rightarrow>
          if timedOut t (ss_wd st) then (Some (streamEnded ctx True (ss_started st)), st)
          else if \<not> ss_started st then (Some (DomainErr (gatewayErr e opSSE ''stream setup'')), st)
          else (Some (afterHeaders ctx (Some e) False opSSE ''stream error after headers''), st)
      | None \<Rightarrow>
          (case sse_write ''data: [DONE]\<newline>\<newline>'' (sse_start st) of
             (Some e, st1) \<Rightarrow> (Some (afterHeaders ctx (Some e) True opSSE ''write stream done''), st1)
           | (None, st1) \<Rightarrow> (None, st1)))"

text \<open>The loop over what is received; the outer \<open>None\<close> is a stream still open.\<close>

fun sse_loop :: "(int \<times> sse_event) list \<Rightarrow> sse_state \<Rightarrow> (goerr option \<times> sse_state) option run" where
  "sse_loop [] st = Returns None"
| "sse_loop ((t, CtxDone e) # es) st =
     Returns (Some (Some (streamEnded (Some e) (timedOut t (ss_wd st)) (ss_started st)), st))"
| "sse_loop ((t, Closed err ctx) # es) st = Returns (Some (sse_closed t err ctx st))"
| "sse_loop ((t, Chunk b) # es) st =
     run_bind (sse_chunk t b st) (\<lambda>(r, st1).
       case r of Some e \<Rightarrow> Returns (Some (Some e, st1)) | None \<Rightarrow> sse_loop es st1)"

definition sse_headers :: "reply_writer \<Rightarrow> reply_writer" where
  "sse_headers w =
     set_header ''Connection'' ''keep-alive''
       (set_header ''Cache-Control'' ''no-cache'' (set_header ''Content-Type'' ''text/event-stream'' w))"

record bifrost_stream =
  bs_events :: "(int \<times> sse_event) list"
  bs_watchdog :: "stream_watchdog option"
  bs_selected :: selected_model

text \<open>\<open>writeBifrostChatSSE\<close> with the counter its context carries.\<close>

definition writeBifrostChatSSE ::
  "stream_counter \<Rightarrow> bool list \<Rightarrow> bifrost_stream \<Rightarrow> reply_writer \<Rightarrow> (goerr option \<times> sse_state) option run" where
  "writeBifrostChatSSE counter faults stream w =
     sse_loop (bs_events stream)
       \<lparr>ss_writer = sse_headers w, ss_faults = faults, ss_started = False, ss_san = {}, ss_wd = bs_watchdog stream,
        ss_sel = bs_selected stream, ss_count = counter\<rparr>"

section \<open>Nothing continues a finished choice\<close>

lemma markFinished_mono: "st \<subseteq> markFinished cs st"
  unfolding markFinished_def
proof (induction cs arbitrary: st)
  case (Cons ch cs)
  let ?st = "if isTerminalStreamFinishReason (raw_at keyFinishReason ch) then insert (streamChoiceIndex ch) st else st"
  have "st \<subseteq> ?st" by auto
  also have "?st \<subseteq> fold (\<lambda>ch st. if isTerminalStreamFinishReason (raw_at keyFinishReason ch)
      then insert (streamChoiceIndex ch) st else st) cs ?st"
    by (rule Cons.IH)
  finally show ?case by simp
qed simp

lemma markFinished_marks:
  assumes "ch \<in> set cs" "isTerminalStreamFinishReason (raw_at keyFinishReason ch)"
  shows "streamChoiceIndex ch \<in> markFinished cs st"
  using assms
proof (induction cs arbitrary: st)
  case (Cons c cs)
  show ?case
  proof (cases "ch = c")
    case True
    then show ?thesis using Cons.prems(2) markFinished_mono [of "insert (streamChoiceIndex c) st" cs]
      by (auto simp: markFinished_def)
  next
    case False
    then show ?thesis using Cons by (simp add: markFinished_def)
  qed
qed simp

lemma choices_of_deleteRootKey [simp]: "ch_choices (snd (deleteRootKey k c)) = ch_choices c"
  by (simp add: deleteRootKey_def)

text \<open>A decoded chunk in one step.\<close>

lemma sanitize_decoded:
  assumes "decodeChatChunk body = Some c" "sanitizeOpenAIStreamChunk body True st = Returns (res, st')"
  shows "st' = markFinished (choices_of c) st"
    "sz_action res = (if \<not> afterFinish st (choices_of c) then StreamForward
      else if hasUsage (snd (deleteRootKey keyExtraFields c)) then StreamRewriteUsage else StreamDrop)"
    "sz_action res = StreamRewriteUsage \<Longrightarrow>
      encodeIfChanged body True ((snd (deleteRootKey keyExtraFields c))\<lparr>ch_choices := Some []\<rparr>) = Returns (sz_out res)"
proof -
  obtain b chunk where d: "deleteRootKey keyExtraFields c = (b, chunk)" by (cases "deleteRootKey keyExtraFields c")
  have ch: "choices_of chunk = choices_of c"
    using choices_of_deleteRootKey [of keyExtraFields c] d by (simp add: choices_of_def)
  note eq = assms(2) [unfolded sanitizeOpenAIStreamChunk_def assms(1) option.case if_True d Let_def prod.case ch]
  show "st' = markFinished (choices_of c) st"
    using eq by (auto simp: run_bind_Returns split_beta split: if_splits)
  show "sz_action res = (if \<not> afterFinish st (choices_of c) then StreamForward
      else if hasUsage (snd (deleteRootKey keyExtraFields c)) then StreamRewriteUsage else StreamDrop)"
    using eq d by (auto simp: run_bind_Returns split_beta dropped_def split: if_splits)
  show "encodeIfChanged body True ((snd (deleteRootKey keyExtraFields c))\<lparr>ch_choices := Some []\<rparr>) = Returns (sz_out res)"
    if "sz_action res = StreamRewriteUsage"
    using eq that d by (auto simp: run_bind_Returns split_beta dropped_def choices_of_def stripDualReasoningAlias_def edit_each_def
      split: if_splits)
qed

lemma sanitize_undecoded:
  assumes "decodeChatChunk body = None" "sanitizeOpenAIStreamChunk body x st = Returns (res, st')"
  shows "st' = st" "sz_action res = (if st = {} then StreamForward else StreamDrop)" "st = {} \<Longrightarrow> sz_out res = body"
  using assms by (auto simp: sanitizeOpenAIStreamChunk_def dropped_def split: if_splits)

text \<open>The chunks of a stream, one after the other.\<close>

fun sanitize_stream :: "sanitizer \<Rightarrow> bytes list \<Rightarrow> sanitized_chunk list run" where
  "sanitize_stream st [] = Returns []"
| "sanitize_stream st (b # bs) =
     run_bind (sanitizeOpenAIStreamChunk b True st) (\<lambda>(res, st').
       run_bind (sanitize_stream st' bs) (\<lambda>rs. Returns (res # rs)))"

lemma sanitize_mono:
  assumes "sanitizeOpenAIStreamChunk body True st = Returns (res, st')" shows "st \<subseteq> st'"
  using sanitize_decoded(1) [OF _ assms] sanitize_undecoded(1) [OF _ assms] markFinished_mono
  by (cases "decodeChatChunk body") auto

lemma stream_late:
  assumes "sanitize_stream st bs = Returns rs" "n \<in> st" "j < length bs" "decodeChatChunk (bs ! j) = Some d"
    "ch \<in> set (choices_of d)" "streamChoiceIndex ch = n"
  shows "sz_action (rs ! j) = (if hasUsage (snd (deleteRootKey keyExtraFields d)) then StreamRewriteUsage else StreamDrop) \<and>
    (sz_action (rs ! j) = StreamRewriteUsage \<longrightarrow>
       encodeIfChanged (bs ! j) True ((snd (deleteRootKey keyExtraFields d))\<lparr>ch_choices := Some []\<rparr>) = Returns (sz_out (rs ! j)))"
  using assms
proof (induction bs arbitrary: st rs j)
  case (Cons b bs)
  obtain res st' rs' where s: "sanitizeOpenAIStreamChunk b True st = Returns (res, st')" "sanitize_stream st' bs = Returns rs'"
    "rs = res # rs'"
    using Cons.prems(1) by (auto simp: run_bind_Returns)
  show ?case
  proof (cases j)
    case 0
    have "afterFinish st (choices_of d)" using Cons.prems(2,5,6) by (auto simp: afterFinish_def list_ex_iff)
    then show ?thesis using sanitize_decoded(2,3) [OF _ s(1), of d] Cons.prems(4) 0 s(3) by simp
  next
    case (Suc k)
    have "n \<in> st'" using sanitize_mono [OF s(1)] Cons.prems(2) by blast
    then show ?thesis using Cons.IH [OF s(2)] Cons.prems(3-6) Suc s(3) by simp
  qed
qed simp

text \<open>C6: Once a choice has sent its terminal \<open>finish_reason\<close>, no later chunk that carries a choice of its index
  is forwarded: such a chunk is dropped, or, when it carries the usage tail, sent with no choices.\<close>

theorem no_choice_after_its_finish:
  assumes "sanitize_stream st bodies = Returns rs" and "i < j" and "j < length bodies"
    and "decodeChatChunk (bodies ! i) = Some c" and "ch \<in> set (choices_of c)"
    and "isTerminalStreamFinishReason (raw_at keyFinishReason ch)"
    and "decodeChatChunk (bodies ! j) = Some d" and "ch' \<in> set (choices_of d)"
    and "streamChoiceIndex ch' = streamChoiceIndex ch"
  shows "sz_action (rs ! j) = (if hasUsage (snd (deleteRootKey keyExtraFields d)) then StreamRewriteUsage else StreamDrop) \<and>
    (sz_action (rs ! j) = StreamRewriteUsage \<longrightarrow>
       encodeIfChanged (bodies ! j) True ((snd (deleteRootKey keyExtraFields d))\<lparr>ch_choices := Some []\<rparr>) =
         Returns (sz_out (rs ! j)))"
  using assms
proof (induction bodies arbitrary: st rs i j)
  case (Cons b bs)
  obtain res st' rs' where s: "sanitizeOpenAIStreamChunk b True st = Returns (res, st')" "sanitize_stream st' bs = Returns rs'"
    "rs = res # rs'"
    using Cons.prems(1) by (auto simp: run_bind_Returns)
  obtain k where j: "j = Suc k" using Cons.prems(2) by (cases j) auto
  show ?case
  proof (cases i)
    case 0
    have "streamChoiceIndex ch \<in> st'"
      using sanitize_decoded(1) [OF _ s(1), of c] Cons.prems(4) 0 markFinished_marks [OF Cons.prems(5,6)] by simp
    then show ?thesis using stream_late [OF s(2), of "streamChoiceIndex ch" k d ch'] Cons.prems(3,7-9) j s(3) by simp
  next
    case (Suc m)
    then show ?thesis using Cons.IH [OF s(2), of m k] Cons.prems j s(3) by simp
  qed
qed simp

section \<open>When the sanitizer panics\<close>

lemma ensure_panics: "ensureChoiceFinishReasons cs = Panics \<longleftrightarrow> None \<in> set cs"
proof (induction cs)
  case (Cons ch cs)
  then show ?case
    by (cases ch) (auto simp: run_bind_Panics raw_get_def map_assign_def split: prod.splits)
qed simp

lemma ensure_length: "ensureChoiceFinishReasons cs = Returns (b, cs') \<Longrightarrow> length cs' = length cs"
  by (induction cs arbitrary: b cs') (auto simp: run_bind_Returns split: if_splits)

lemma encode_no_panic: "ch_root c \<noteq> None \<or> ch_choices c = None \<Longrightarrow> \<exists>t. encode_chunk c = Returns t"
  by (auto simp: encode_chunk_def map_assign_def split: option.splits)

lemma decode_choices_root: "decodeChatChunk b = Some c \<Longrightarrow> ch_choices c \<noteq> None \<Longrightarrow> ch_root c \<noteq> None"
  by (auto simp: decodeChatChunk_def raw_get_def split: option.splits)

text \<open>C11: The sanitizer panics on exactly the chunks that carry a \<open>null\<close> choice and are not dropped or cut down
  for continuing a finished one: the missing \<open>finish_reason\<close> is written to a nil map.\<close>

theorem only_a_null_choice_panics:
  "sanitizeOpenAIStreamChunk body True st = Panics \<longleftrightarrow>
     (\<exists>c. decodeChatChunk body = Some c \<and> None \<in> set (choices_of c) \<and> \<not> afterFinish st (choices_of c))"
proof (cases "decodeChatChunk body")
  case None
  then show ?thesis by (simp add: sanitizeOpenAIStreamChunk_def)
next
  case (Some c)
  obtain b chunk where d: "deleteRootKey keyExtraFields c = (b, chunk)" by (cases "deleteRootKey keyExtraFields c")
  have ch: "choices_of chunk = choices_of c" "ch_choices chunk = ch_choices c"
    using choices_of_deleteRootKey [of keyExtraFields c] d by (simp_all add: choices_of_def)
  have root: "ch_choices chunk \<noteq> None \<Longrightarrow> ch_root chunk \<noteq> None"
    using decode_choices_root [OF Some] d by (auto simp: deleteRootKey_def map_delete_def split: if_splits)
  have enc: "encodeIfChanged body x (chunk\<lparr>ch_choices := y\<rparr>) \<noteq> Panics" if "y \<noteq> None \<Longrightarrow> ch_root chunk \<noteq> None" for x y
    using encode_no_panic [of "chunk\<lparr>ch_choices := y\<rparr>"] that by (cases y) (auto simp: encodeIfChanged_def run_bind_Panics)
  show ?thesis
  proof (cases "afterFinish st (choices_of c)")
    case True
    then have "choices_of c \<noteq> []" by (auto simp: afterFinish_def)
    then have r: "ch_root chunk \<noteq> None" using root ch by (auto simp: choices_of_def split: option.splits)
    show ?thesis
      using True Some d ch enc r by (auto simp: sanitizeOpenAIStreamChunk_def Let_def run_bind_Panics choices_of_def
        split_beta split: if_splits)
  next
    case False
    have e: "encodeIfChanged body x (chunk\<lparr>ch_choices := map_option f (ch_choices chunk)\<rparr>) \<noteq> Panics" for x f
      by (rule enc) (use root in auto)
    show ?thesis
      using False Some d ch e ensure_panics [of "choices_of c"]
      by (auto simp: sanitizeOpenAIStreamChunk_def Let_def run_bind_Panics split_beta split: if_splits)
  qed
qed

section \<open>One answer per request\<close>

lemma is_sentinel_wrap [simp]:
  "is_sentinel (Some (DomainErr (err_wrap (Some e) c op msg))) s = is_sentinel (Some e) s"
  "is_sentinel (Some (DomainErr (err_wrap None c op msg))) s = False"
  by (simp_all add: is_sentinel_def err_wrap_def err_new_def)

lemma ResponseWritten_afterHeaders [simp]: "ResponseWritten (Some (afterHeaders ctx err cw op msg))"
  by (simp add: ResponseWritten_def is_sentinel_def afterHeaders_def Let_def)

lemma ResponseWritten_gatewayErr [simp]:
  "ResponseWritten (Some (DomainErr (gatewayErr e op msg))) = ResponseWritten (Some e)"
  by (simp add: ResponseWritten_def gatewayErr_def)

lemma ResponseWritten_streamEnded:
  "ctx \<noteq> Some ErrResponseWritten \<Longrightarrow> ResponseWritten (Some (streamEnded ctx fired started)) = started"
  by (cases ctx) (auto simp: streamEnded_def Let_def ResponseWritten_def is_sentinel_def afterHeaders_def err_wrap_def err_new_def)

lemma set_header_sent [simp]: "rw_sent (set_header k v w) = rw_sent w" "rw_body (set_header k v w) = rw_body w"
  by (simp_all add: set_header_def)

lemma setIntervention_sent [simp]: "rw_sent (setIntervention c w) = rw_sent w" "rw_body (setIntervention c w) = rw_body w"
  by (simp_all add: setIntervention_def joinInterventionHeader_def Let_def)

text \<open>The flag \<open>started\<close> says whether the status is out.\<close>

definition sse_ok :: "sse_state \<Rightarrow> bool" where
  "sse_ok st \<longleftrightarrow> (ss_started st \<longleftrightarrow> rw_sent (ss_writer st) \<noteq> None)"

lemma sse_start_facts [simp]:
  "sse_ok st \<Longrightarrow> sse_ok (sse_start st)" "ss_started (sse_start st)" "rw_body (ss_writer (sse_start st)) = rw_body (ss_writer st)"
  "ss_wd (sse_start st) = ss_wd st" "ss_san (sse_start st) = ss_san st" "ss_faults (sse_start st) = ss_faults st"
  by (auto simp: sse_ok_def sse_start_def write_header_def split: option.splits)

lemma sse_write_facts:
  assumes "sse_write b st = (r, st')" "sse_ok st" "ss_started st"
  shows "sse_ok st'" "ss_started st'" "ss_wd st' = ss_wd st" "ss_san st' = ss_san st"
    "rw_body (ss_writer st') = (if r = None then rw_body (ss_writer st) @ b else rw_body (ss_writer st))"
    "rw_sent (ss_writer st') = rw_sent (ss_writer st)"
  using assms by (auto simp: sse_write_def sse_ok_def write_bytes_def write_header_def Let_def split: list.splits bool.splits option.splits)

lemma sse_chunk_step:
  assumes "sse_chunk t b st = Returns (r, st')" "sse_ok st"
  shows "sse_ok st'" "ss_wd st' = watchdog_chunk t (ss_wd st)"
    "r \<noteq> None \<Longrightarrow> ss_started st' \<and> (\<exists>e. r = Some (afterHeaders None (Some e) True opSSE ''write stream''))"
    "\<exists>res. sanitizeOpenAIStreamChunk b True (ss_san st) = Returns (res, ss_san st') \<and>
       (r = None \<longrightarrow> rw_body (ss_writer st') =
          rw_body (ss_writer st) @ (if sz_action res = StreamDrop then [] else sse_frame (sz_out res)))"
    "ss_started st \<Longrightarrow> ss_started st' \<and> rw_sent (ss_writer st') = rw_sent (ss_writer st)"
proof -
  obtain res san where s: "sanitizeOpenAIStreamChunk b True (ss_san st) = Returns (res, san)"
    using assms(1) by (auto simp: sse_chunk_def Let_def run_bind_Returns)
  let ?st2 = "sse_received t b res san st"
  have ok: "sse_ok ?st2" and wr: "rw_body (ss_writer ?st2) = rw_body (ss_writer st)" "ss_started ?st2 = ss_started st"
      "rw_sent (ss_writer ?st2) = rw_sent (ss_writer st)" "ss_wd ?st2 = watchdog_chunk t (ss_wd st)" "ss_san ?st2 = san"
    using assms(2) by (simp_all add: sse_ok_def sse_received_def)
  have all: "sse_ok st' \<and> ss_wd st' = watchdog_chunk t (ss_wd st) \<and> ss_san st' = san \<and>
    (r \<noteq> None \<longrightarrow> ss_started st' \<and> (\<exists>e. r = Some (afterHeaders None (Some e) True opSSE ''write stream''))) \<and>
    (r = None \<longrightarrow> rw_body (ss_writer st') = rw_body (ss_writer st) @ (if sz_action res = StreamDrop then [] else sse_frame (sz_out res))) \<and>
    (ss_started st \<longrightarrow> ss_started st' \<and> rw_sent (ss_writer st') = rw_sent (ss_writer st))"
  proof (cases "sz_action res = StreamDrop")
    case True
    then have "r = None" "st' = ?st2\<lparr>ss_writer := setIntervention InterventionSSEDrop (ss_writer ?st2)\<rparr>"
      using assms(1) s by (simp_all add: sse_chunk_def Let_def)
    then show ?thesis using True ok wr by (simp add: sse_ok_def)
  next
    case False
    obtain w st3 where w: "sse_write (sse_frame (sz_out res)) (sse_start ?st2) = (w, st3)"
      by (cases "sse_write (sse_frame (sz_out res)) (sse_start ?st2)")
    have r: "st' = st3" "r = map_option (\<lambda>e. afterHeaders None (Some e) True opSSE ''write stream'') w"
      using assms(1) s False w by (auto simp: sse_chunk_def Let_def split: option.splits)
    have sent: "ss_started st \<Longrightarrow> rw_sent (ss_writer (sse_start ?st2)) = rw_sent (ss_writer st)"
      using wr by (simp add: sse_start_def)
    show ?thesis
      using sse_write_facts [OF w] ok r False sent wr by (auto simp: map_option_case split: option.splits)
  qed
  show "sse_ok st'" "ss_wd st' = watchdog_chunk t (ss_wd st)"
    "r \<noteq> None \<Longrightarrow> ss_started st' \<and> (\<exists>e. r = Some (afterHeaders None (Some e) True opSSE ''write stream''))"
    "\<exists>res. sanitizeOpenAIStreamChunk b True (ss_san st) = Returns (res, ss_san st') \<and>
       (r = None \<longrightarrow> rw_body (ss_writer st') =
          rw_body (ss_writer st) @ (if sz_action res = StreamDrop then [] else sse_frame (sz_out res)))"
    "ss_started st \<Longrightarrow> ss_started st' \<and> rw_sent (ss_writer st') = rw_sent (ss_writer st)"
    using all s by auto
qed

text \<open>What the stream passes on does not claim that an answer is out.\<close>

fun plain_event :: "int \<times> sse_event \<Rightarrow> bool" where
  "plain_event (t, Closed err ctx) = (\<not> ResponseWritten err \<and> ctx \<noteq> Some ErrResponseWritten)"
| "plain_event (t, CtxDone e) = (e \<noteq> ErrResponseWritten)"
| "plain_event (t, Chunk b) = True"

lemma sse_closed_tag:
  assumes "sse_closed t err ctx st = (r, st')" "sse_ok st" "plain_event (t, Closed err ctx)"
  shows "sse_ok st'" "r = Some e \<Longrightarrow> ResponseWritten (Some e) \<longleftrightarrow> ss_started st'"
proof -
  have "sse_ok st' \<and> (\<forall>e. r = Some e \<longrightarrow> (ResponseWritten (Some e) \<longleftrightarrow> ss_started st'))"
  proof (cases err)
    case None
    obtain w st1 where w: "sse_write ''data: [DONE]\<newline>\<newline>'' (sse_start st) = (w, st1)"
      by (cases "sse_write ''data: [DONE]\<newline>\<newline>'' (sse_start st)")
    note f = sse_write_facts [OF w]
    show ?thesis using assms(1,2) None w f by (cases w) (auto simp: sse_closed_def)
  next
    case (Some x)
    then show ?thesis using assms by (auto simp: sse_closed_def ResponseWritten_streamEnded split: if_splits)
  qed
  then show "sse_ok st'" "r = Some e \<Longrightarrow> ResponseWritten (Some e) \<longleftrightarrow> ss_started st'" by auto
qed

lemma sse_loop_tag:
  assumes "sse_loop es st = Returns (Some (r, st'))" "sse_ok st" "list_all plain_event es"
  shows "sse_ok st' \<and> (\<forall>e. r = Some e \<longrightarrow> (ResponseWritten (Some e) \<longleftrightarrow> ss_started st'))"
  using assms
proof (induction es st rule: sse_loop.induct)
  case (2 t e es st)
  then show ?case by (auto simp: ResponseWritten_streamEnded)
next
  case (3 t err ctx es st)
  obtain q st1 where c: "sse_closed t err ctx st = (q, st1)" by (cases "sse_closed t err ctx st")
  then show ?case using 3 sse_closed_tag [OF c] by auto
next
  case (4 t b es st)
  obtain q st1 where c: "sse_chunk t b st = Returns (q, st1)" using 4(2) by (auto simp: run_bind_Returns)
  note f = sse_chunk_step [OF c 4(3)]
  show ?case
  proof (cases q)
    case None
    then show ?thesis using 4(1) [OF None _ f(1)] 4(2,4) c by auto
  next
    case (Some x)
    then show ?thesis using 4(2) c f by auto
  qed
qed simp

text \<open>C8: An error the stream writer returns is tagged as answered exactly when the status is on the wire, so
  the handler answers a failed stream once: a dial that failed before the first chunk gets its error body, a
  stream that broke later gets no second one.\<close>

theorem stream_error_is_tagged_when_answered:
  assumes "writeBifrostChatSSE counter faults stream w = Returns (Some (Some e, st))" and "rw_sent w = None"
    and "list_all plain_event (bs_events stream)"
  shows "ResponseWritten (Some e) \<longleftrightarrow> rw_sent (ss_writer st) \<noteq> None"
proof -
  let ?st = "\<lparr>ss_writer = sse_headers w, ss_faults = faults, ss_started = False, ss_san = {}, ss_wd = bs_watchdog stream,
        ss_sel = bs_selected stream, ss_count = counter\<rparr>"
  have "sse_ok ?st" using assms(2) by (simp add: sse_ok_def sse_headers_def)
  from sse_loop_tag [OF assms(1) [unfolded writeBifrostChatSSE_def] this assms(3)] show ?thesis
    by (simp add: sse_ok_def)
qed


section \<open>What the client reads\<close>

definition chunk_frames :: "sanitized_chunk list \<Rightarrow> bytes" where
  "chunk_frames rs = concat (map (\<lambda>r. sse_frame (sz_out r)) (filter (\<lambda>r. sz_action r \<noteq> StreamDrop) rs))"

fun chunk_bodies :: "(int \<times> sse_event) list \<Rightarrow> bytes list" where
  "chunk_bodies ((t, Chunk b) # es) = b # chunk_bodies es"
| "chunk_bodies es = []"

lemma sse_closed_success:
  assumes "sse_closed t err ctx st = (None, st')" "sse_ok st"
  shows "rw_body (ss_writer st') = rw_body (ss_writer st) @ ''data: [DONE]\<newline>\<newline>'' \<and> rw_sent (ss_writer st') \<noteq> None"
proof -
  have n: "err = None" using assms(1) by (auto simp: sse_closed_def split: option.splits if_splits)
  obtain w st1 where w: "sse_write ''data: [DONE]\<newline>\<newline>'' (sse_start st) = (w, st1)"
    by (cases "sse_write ''data: [DONE]\<newline>\<newline>'' (sse_start st)")
  note f = sse_write_facts [OF w sse_start_facts(1) [OF assms(2)] sse_start_facts(2)]
  have "rw_sent (ss_writer st1) \<noteq> None" using f(1,2) by (simp add: sse_ok_def)
  then show ?thesis using assms(1) n w f(5) by (cases w) (auto simp: sse_closed_def)
qed

lemma sse_loop_success:
  assumes "sse_loop es st = Returns (Some (None, st'))" "sse_ok st"
  shows "\<exists>rs. sanitize_stream (ss_san st) (chunk_bodies es) = Returns rs \<and>
    rw_body (ss_writer st') = rw_body (ss_writer st) @ chunk_frames rs @ ''data: [DONE]\<newline>\<newline>'' \<and> rw_sent (ss_writer st') \<noteq> None"
  using assms
proof (induction es st rule: sse_loop.induct)
  case (3 t err ctx es st)
  then show ?case using sse_closed_success [of t err ctx st st'] by (simp add: chunk_frames_def)
next
  case (4 t b es st)
  obtain q st1 where c: "sse_chunk t b st = Returns (q, st1)" using 4(2) by (auto simp: run_bind_Returns)
  note f = sse_chunk_step [OF c 4(3)]
  have q: "q = None" using 4(2) c by (cases q) auto
  obtain res where res: "sanitizeOpenAIStreamChunk b True (ss_san st) = Returns (res, ss_san st1)"
    "rw_body (ss_writer st1) = rw_body (ss_writer st) @ (if sz_action res = StreamDrop then [] else sse_frame (sz_out res))"
    using f(4) q by blast
  obtain rs where rs: "sanitize_stream (ss_san st1) (chunk_bodies es) = Returns rs"
    "rw_body (ss_writer st') = rw_body (ss_writer st1) @ chunk_frames rs @ ''data: [DONE]\<newline>\<newline>''" "rw_sent (ss_writer st') \<noteq> None"
    using 4(1) [OF q _ f(1)] 4(2) c q by auto
  show ?case using res rs by (simp add: chunk_frames_def)
qed simp_all

lemma write_header_keeps: "rw_sent w = None \<Longrightarrow> rw_sent (write_header s w) = Some (s, rw_header w)"
  by simp

text \<open>The status a stream sends is 200, with the stream's content type.\<close>

definition stream_type :: "reply_writer \<Rightarrow> bool" where
  "stream_type w \<longleftrightarrow> map_of (rw_header w) ''Content-Type'' = Some [''text/event-stream''] \<and>
     (\<forall>s h. rw_sent w = Some (s, h) \<longrightarrow> s = 200 \<and> map_of h ''Content-Type'' = Some [''text/event-stream''])"

lemma canonical_content_type: "canonical_from True ''Content-Type'' = ''Content-Type''" by code_simp
lemma canonical_intervention: "canonical_from True InterventionHeader \<noteq> ''Content-Type''" by code_simp
lemma canonical_cache: "canonical_from True ''Cache-Control'' \<noteq> ''Content-Type''" "canonical_from True ''Connection'' \<noteq> ''Content-Type''"
  by code_simp+

lemma stream_type_steps:
  "stream_type w \<Longrightarrow> stream_type (setIntervention c w)"
  "stream_type w \<Longrightarrow> stream_type (write_header 200 w)"
  "stream_type w \<Longrightarrow> stream_type (write_bytes b w)"
  using canonical_intervention
  by (auto simp: stream_type_def setIntervention_def joinInterventionHeader_def set_header_def Let_def write_bytes_def
      write_header_def simp del: canonical_from.simps split: option.splits)

lemma stream_type_start: "rw_sent w = None \<Longrightarrow> stream_type (sse_headers w)"
  using canonical_cache by (simp add: stream_type_def sse_headers_def set_header_def canonical_content_type del: canonical_from.simps)

lemma stream_type_start_write:
  assumes "stream_type (ss_writer st)"
  shows "stream_type (ss_writer (sse_start st))" "stream_type (ss_writer (snd (sse_write b st)))"
  using assms by (auto simp: sse_start_def sse_write_def stream_type_steps split: list.splits bool.splits)

lemma sse_loop_type:
  assumes "sse_loop es st = Returns (Some (r, st'))" "stream_type (ss_writer st)"
  shows "stream_type (ss_writer st')"
  using assms
proof (induction es st rule: sse_loop.induct)
  case (3 t err ctx es st)
  have "stream_type (ss_writer (snd (sse_closed t err ctx st)))"
    using 3(2) stream_type_start_write(1) [OF 3(2)] stream_type_start_write(2) [of "sse_start st" "''data: [DONE]\<newline>\<newline>''"]
    by (auto simp: sse_closed_def split: option.splits prod.splits)
  then show ?case using 3(1) by simp
next
  case (4 t b es st)
  obtain q st1 where c: "sse_chunk t b st = Returns (q, st1)" using 4(2) by (auto simp: run_bind_Returns)
  have s: "stream_type (ss_writer st1)"
  proof -
    obtain res san where s: "sanitizeOpenAIStreamChunk b True (ss_san st) = Returns (res, san)"
      using c by (auto simp: sse_chunk_def Let_def run_bind_Returns)
    let ?st2 = "sse_received t b res san st"
    have t2: "stream_type (ss_writer ?st2)" using 4(3) by (simp add: stream_type_steps sse_received_def)
    have w: "stream_type (ss_writer (snd (sse_write (sse_frame (sz_out res)) (sse_start ?st2))))"
      by (intro stream_type_start_write t2)
    show ?thesis
    proof (cases "sz_action res = StreamDrop")
      case True
      then show ?thesis using c s t2 by (auto simp: sse_chunk_def Let_def stream_type_steps)
    next
      case False
      then have "ss_writer st1 = ss_writer (snd (sse_write (sse_frame (sz_out res)) (sse_start ?st2)))"
        using c s by (cases "sse_write (sse_frame (sz_out res)) (sse_start ?st2)") (auto simp: sse_chunk_def Let_def split: option.splits)
      then show ?thesis using w by simp
    qed
  qed
  show ?case
  proof (cases q)
    case None
    then show ?thesis using 4(1) [OF None _ s] 4(2) c by auto
  next
    case (Some x)
    then show ?thesis using 4(2) c s by auto
  qed
qed simp_all

text \<open>C7: A stream that ends well is answered 200 as an event stream whose body is the chunks the sanitizer lets
  through, each in its frame and in order, and then \<open>[DONE]\<close>.\<close>

theorem client_reads_the_sanitized_stream:
  assumes "writeBifrostChatSSE counter faults stream w = Returns (Some (None, st))" and "rw_sent w = None"
  shows "\<exists>rs h. sanitize_stream {} (chunk_bodies (bs_events stream)) = Returns rs \<and>
    rw_body (ss_writer st) = rw_body w @ chunk_frames rs @ ''data: [DONE]\<newline>\<newline>'' \<and>
    rw_sent (ss_writer st) = Some (200, h) \<and> map_of h ''Content-Type'' = Some [''text/event-stream'']"
proof -
  let ?st = "\<lparr>ss_writer = sse_headers w, ss_faults = faults, ss_started = False, ss_san = {}, ss_wd = bs_watchdog stream,
        ss_sel = bs_selected stream, ss_count = counter\<rparr>"
  have ok: "sse_ok ?st" and b: "rw_body (sse_headers w) = rw_body w" using assms(2) by (simp_all add: sse_ok_def sse_headers_def)
  have t: "stream_type (ss_writer st)"
    using sse_loop_type [OF assms(1) [unfolded writeBifrostChatSSE_def]] stream_type_start [OF assms(2)] by simp
  obtain rs where "sanitize_stream {} (chunk_bodies (bs_events stream)) = Returns rs"
    "rw_body (ss_writer st) = rw_body w @ chunk_frames rs @ ''data: [DONE]\<newline>\<newline>''" "rw_sent (ss_writer st) \<noteq> None"
    using sse_loop_success [OF assms(1) [unfolded writeBifrostChatSSE_def] ok] b by auto
  then show ?thesis using t by (auto simp: stream_type_def)
qed

section \<open>What counts against the backend\<close>

text \<open>Each event arrives before the watchdog is due: the hop budget for the first, the idle limit after a chunk.\<close>

fun on_time :: "int \<Rightarrow> int \<Rightarrow> (int \<times> sse_event) list \<Rightarrow> bool" where
  "on_time idle due [] = True"
| "on_time idle due ((t, ev) # es) =
     (t < due \<and> (case ev of Chunk b \<Rightarrow> on_time idle (t + idle) es | _ \<Rightarrow> True))"

fun is_chunk :: "int \<times> sse_event \<Rightarrow> bool" where
  "is_chunk (t, Chunk b) = True"
| "is_chunk e = False"

lemma sse_chunk_no_fault:
  assumes "sse_chunk t b st = Returns (r, st')" "True \<notin> set (ss_faults st)"
  shows "r = None \<and> set (ss_faults st') \<subseteq> set (ss_faults st)"
proof -
  obtain res san where s: "sanitizeOpenAIStreamChunk b True (ss_san st) = Returns (res, san)"
    using assms(1) by (auto simp: sse_chunk_def run_bind_Returns)
  have f: "ss_faults (sse_received t b res san st) = ss_faults st" by (simp add: sse_received_def)
  show ?thesis
  proof (cases "sz_action res = StreamDrop")
    case True
    then show ?thesis using assms(1) s f by (auto simp: sse_chunk_def Let_def)
  next
    case False
    obtain w st3 where w: "sse_write (sse_frame (sz_out res)) (sse_start (sse_received t b res san st)) = (w, st3)"
      by (cases "sse_write (sse_frame (sz_out res)) (sse_start (sse_received t b res san st))")
    have "w = None \<and> set (ss_faults st3) \<subseteq> set (ss_faults st)"
      using w assms(2) f by (auto simp: sse_write_def split: list.splits bool.splits)
    then show ?thesis using assms(1) s False w by (auto simp: sse_chunk_def Let_def)
  qed
qed

lemma watchdog_chunk_fired:
  "0 < wd_idle wd \<Longrightarrow> watchdog_chunk t (Some wd) =
     Some (wd\<lparr>wd_due := Some (t + wd_idle wd), wd_fired := wd_fired (wd_at t wd)\<rparr>)"
  by (simp add: watchdog_chunk_def wd_at_def Let_def split: option.splits)

lemma sse_loop_ended:
  assumes "sse_loop (es @ [(t, CtxDone c)]) st = Returns (Some (r, st'))" "list_all is_chunk es" "True \<notin> set (ss_faults st)"
    and "ss_wd st = Some wd" "wd_due wd = Some due" "0 < wd_idle wd" "sse_ok st"
  shows "r = Some (streamEnded (Some c) (wd_fired wd \<or> \<not> on_time (wd_idle wd) due (es @ [(t, CtxDone c)])) (ss_started st'))"
  using assms
proof (induction es arbitrary: st wd due)
  case Nil
  then show ?case by (auto simp: timedOut_def wd_at_def)
next
  case (Cons ev es)
  obtain s b where ev: "ev = (s, Chunk b)" using Cons.prems(2) by (cases ev rule: is_chunk.cases) auto
  obtain q st1 where c: "sse_chunk s b st = Returns (q, st1)" using Cons.prems(1) ev by (auto simp: run_bind_Returns)
  note nf = sse_chunk_no_fault [OF c Cons.prems(3)]
  note f = sse_chunk_step [OF c Cons.prems(7)]
  let ?wd = "wd\<lparr>wd_due := Some (s + wd_idle wd), wd_fired := wd_fired (wd_at s wd)\<rparr>"
  have w: "ss_wd st1 = Some ?wd"
    using f(2) Cons.prems(4) watchdog_chunk_fired [OF Cons.prems(6)] by simp
  have l: "sse_loop (es @ [(t, CtxDone c)]) st1 = Returns (Some (r, st'))"
    using Cons.prems(1) ev c nf by auto
  have n: "True \<notin> set (ss_faults st1)" using nf Cons.prems(3) by auto
  have "r = Some (streamEnded (Some c) (wd_fired ?wd \<or> \<not> on_time (wd_idle ?wd) (s + wd_idle wd) (es @ [(t, CtxDone c)])) (ss_started st'))"
    by (rule Cons.IH [OF l _ n w _ _ f(1)]) (use Cons.prems in simp_all)
  moreover have "wd_fired (wd_at s wd) = (wd_fired wd \<or> \<not> s < due)"
    using Cons.prems(5) by (auto simp: wd_at_def)
  ultimately show ?case using ev by auto
qed

lemma code_afterHeaders:
  "code_of (Some (afterHeaders ctx err cw op msg)) = (if cw \<or> ctx \<noteq> None then CodeCanceled else CodeUnavailable)"
  by (cases err) (auto simp: afterHeaders_def Let_def code_of_def code_or_def as_domain_def domain_nodes_def
      List.map_filter_def err_wrap_def err_new_def)

lemma code_streamEnded: "code_of (Some (streamEnded (Some c) fired started)) = (if fired then CodeTimeout else CodeCanceled)"
proof (cases "started \<and> \<not> fired")
  case True
  then show ?thesis by (simp add: streamEnded_def code_afterHeaders)
next
  case False
  then show ?thesis
    by (auto simp: streamEnded_def Let_def code_of_def code_or_def as_domain_def domain_nodes_def
        List.map_filter_def err_wrap_def err_new_def)
qed

text \<open>C9: A stream with a positive idle limit whose writes all reach the client, and that ends because its context
  ended, counts against the backend's breaker exactly when a chunk, the first or a later one, or the end itself came after the
  watchdog's deadline, and the caller had not set a deadline of its own: a client that leaves a steady stream never counts.\<close>

theorem only_a_stall_counts_against_the_backend:
  assumes "writeBifrostChatSSE counter faults
      \<lparr>bs_events = es @ [(t, CtxDone c)], bs_watchdog = Some (startStreamWatchdog hop idle t0), bs_selected = sel\<rparr> w =
      Returns (Some (r, st))"
    and "list_all is_chunk es" and "True \<notin> set faults" and "0 < idle" and "rw_sent w = None"
  shows "backendFault ctx r \<longleftrightarrow> \<not> on_time idle (t0 + hop) (es @ [(t, CtxDone c)]) \<and> \<not> CallerBudgetFrom ctx"
proof -
  let ?st = "\<lparr>ss_writer = sse_headers w, ss_faults = faults, ss_started = False, ss_san = {},
      ss_wd = Some (startStreamWatchdog hop idle t0), ss_sel = sel, ss_count = counter\<rparr>"
  have l: "sse_loop (es @ [(t, CtxDone c)]) ?st = Returns (Some (r, st))"
    using assms(1) by (simp add: writeBifrostChatSSE_def)
  have ok: "sse_ok ?st" using assms(5) by (simp add: sse_ok_def sse_headers_def)
  have "r = Some (streamEnded (Some c) (\<not> on_time idle (t0 + hop) (es @ [(t, CtxDone c)])) (ss_started st))"
    using sse_loop_ended [OF l assms(2) _ _ _ _ ok, of "startStreamWatchdog hop idle t0" "t0 + hop"] assms(3,4)
    by (simp add: startStreamWatchdog_def)
  then show ?thesis by (simp add: backendFault_def code_streamEnded)
qed

text \<open>A stream's dropped chunks are dumped at most five times, in order.\<close>

definition counter_ok :: "stream_counter \<Rightarrow> bool" where
  "counter_ok c \<longleftrightarrow> length (ct_files c) = ct_dumped c \<and> ct_dumped c \<le> maxChunkDumpsPerStream \<and>
     sorted_wrt (<) (ct_files c) \<and> (\<forall>i \<in> set (ct_files c). i \<le> ct_index c)"

lemma recordBifrostStreamChunk_ok:
  assumes "counter_ok c" shows "counter_ok (recordBifrostStreamChunk a c)"
  using assms
  by (auto simp: counter_ok_def recordBifrostStreamChunk_def nextStreamChunkIndex_def dumpIllegalStreamChunk_def
      claimChunkDump_def sorted_wrt_append split: prod.splits if_splits)

lemma sse_loop_counter:
  assumes "sse_loop es st = Returns (Some (r, st'))" "counter_ok (ss_count st)" shows "counter_ok (ss_count st')"
  using assms
proof (induction es st rule: sse_loop.induct)
  case (3 t err ctx es st)
  have w: "ss_count (snd (sse_write b s)) = ss_count s" "ss_count (sse_start s) = ss_count s" for b s
    by (auto simp: sse_write_def sse_start_def split: list.splits bool.splits)
  have "ss_count (snd (sse_closed t err ctx st)) = ss_count st"
    using w(1) [of "''data: [DONE]\<newline>\<newline>''" "sse_start st"] w(2) [of st]
    by (auto simp: sse_closed_def split: option.splits prod.splits)
  then show ?case using 3 by simp
next
  case (4 t b es st)
  have w: "ss_count (snd (sse_write b s)) = ss_count s" "ss_count (sse_start s) = ss_count s" for b s
    by (auto simp: sse_write_def sse_start_def split: list.splits bool.splits)
  obtain q st1 where c: "sse_chunk t b st = Returns (q, st1)" using 4(2) by (auto simp: run_bind_Returns)
  obtain res san where s: "sanitizeOpenAIStreamChunk b True (ss_san st) = Returns (res, san)"
    using c by (auto simp: sse_chunk_def run_bind_Returns)
  let ?st2 = "sse_received t b res san st"
  have "ss_count st1 = ss_count ?st2"
    using c s w(1) [of "sse_frame (sz_out res)" "sse_start ?st2"] w(2) [of ?st2]
    by (cases "sse_write (sse_frame (sz_out res)) (sse_start ?st2)")
      (auto simp: sse_chunk_def Let_def split: if_splits option.splits)
  then have s: "counter_ok (ss_count st1)" using 4(3) by (simp add: sse_received_def recordBifrostStreamChunk_ok)
  show ?case
  proof (cases q)
    case None
    then show ?thesis using 4(1) [OF None _ s] 4(2) c by auto
  next
    case (Some x)
    then show ?thesis using 4(2) c s by auto
  qed
qed simp_all

text \<open>However many chunks a backend sends after a finish, a stream claims at most five dumps, each for a
  later chunk than the one before.\<close>

theorem dumps_are_capped:
  assumes "writeBifrostChatSSE counter faults stream w = Returns (Some (r, st))" and "counter_ok counter"
  shows "length (ct_files (ss_count st)) \<le> 5 \<and> sorted_wrt (<) (ct_files (ss_count st))"
  using sse_loop_counter [OF assms(1) [unfolded writeBifrostChatSSE_def]] assms(2)
  by (auto simp: counter_ok_def maxChunkDumpsPerStream_def)


section \<open>Sample streams\<close>

definition plain_counter :: stream_counter where
  "plain_counter = \<lparr>ct_index = 0, ct_dir = True, ct_dumped = 0, ct_files = []\<rparr>"

text \<open>A finished choice, then a chunk that continues it beside another choice.\<close>

definition finish_chunk :: bytes where
  "finish_chunk = ''{'' @ jq ''choices'' @ '':[{'' @ jq ''index'' @ '':0,'' @ jq ''finish_reason'' @ '':'' @ jq ''stop'' @ ''}]}''"

definition mixed_chunk :: bytes where
  "mixed_chunk = ''{'' @ jq ''choices'' @ '':[{'' @ jq ''index'' @ '':0},{'' @ jq ''index'' @ '':1,'' @ jq ''finish_reason'' @ '':'' @
     jq ''stop'' @ ''}]}''"

definition null_chunk :: bytes where
  "null_chunk = ''{'' @ jq ''choices'' @ '':[null]}''"

lemma finish_decoded:
  "decodeChatChunk finish_chunk =
     Some \<lparr>ch_root = Some [(''choices'', ''[{'' @ jq ''index'' @ '':0,'' @ jq ''finish_reason'' @ '':'' @ jq ''stop'' @ ''}]'')],
           ch_choices = Some [Some [(''index'', ''0''), (''finish_reason'', jq ''stop'')]]\<rparr>"
  by code_simp

lemma mixed_decoded:
  "decodeChatChunk mixed_chunk =
     Some \<lparr>ch_root = Some [(''choices'', ''[{'' @ jq ''index'' @ '':0},{'' @ jq ''index'' @ '':1,'' @ jq ''finish_reason'' @ '':'' @ jq ''stop'' @ ''}]'')],
           ch_choices = Some [Some [(''index'', ''0'')], Some [(''index'', ''1''), (''finish_reason'', jq ''stop'')]]\<rparr>"
  by code_simp

theorem no_choice_after_its_finish_witness:
  "\<exists>rs. sanitize_stream {} [finish_chunk, mixed_chunk] = Returns rs \<and> sz_action (rs ! 1) = StreamDrop"
proof -
  have "case sanitize_stream {} [finish_chunk, mixed_chunk] of Panics \<Rightarrow> False | Returns rs \<Rightarrow> True" by code_simp
  then obtain rs where rs: "sanitize_stream {} [finish_chunk, mixed_chunk] = Returns rs" by (auto split: run.splits)
  let ?ch = "Some [(''index'', ''0''), (''finish_reason'', jq ''stop'')]" and ?ch' = "Some [(''index'', ''0'')]"
  have f: "isTerminalStreamFinishReason (raw_at keyFinishReason ?ch)" "streamChoiceIndex ?ch' = streamChoiceIndex ?ch"
    by code_simp+
  have u: "\<not> hasUsage (snd (deleteRootKey keyExtraFields (the (decodeChatChunk mixed_chunk))))" by code_simp
  have "sz_action (rs ! 1) = StreamDrop"
    using no_choice_after_its_finish [OF rs, of 0 1 _ ?ch _ ?ch'] finish_decoded mixed_decoded f u
    by (simp add: choices_of_def)
  with rs show ?thesis by blast
qed

text \<open>The dropped chunk carried another choice, and its finish is marked as sent.\<close>

lemma late_choice_silences_the_others:
  "sanitizeOpenAIStreamChunk mixed_chunk True {0} = Returns (dropped, {0, 1})"
proof -
  have "case sanitizeOpenAIStreamChunk mixed_chunk True {0} of Panics \<Rightarrow> False
    | Returns (res, st) \<Rightarrow> sz_out res = [] \<and> sz_action res = StreamDrop \<and> \<not> sz_alias res \<and> st = {0, 1}"
    by code_simp
  then show ?thesis by (auto simp: dropped_def split: run.splits)
qed

lemma null_choice_panics: "sanitizeOpenAIStreamChunk null_chunk True {} = Panics"
  unfolding only_a_null_choice_panics
proof -
  have "decodeChatChunk null_chunk = Some \<lparr>ch_root = Some [(''choices'', ''[null]'')], ch_choices = Some [None]\<rparr>"
    by code_simp
  then show "\<exists>c. decodeChatChunk null_chunk = Some c \<and> None \<in> set (choices_of c) \<and> \<not> afterFinish {} (choices_of c)"
    by (simp add: choices_of_def afterFinish_def)
qed

definition good_stream :: bifrost_stream where
  "good_stream = \<lparr>bs_events = [(1, Chunk ''hi''), (2, Closed None None)], bs_watchdog = Some (startStreamWatchdog 10 5 0),
     bs_selected = None\<rparr>"

theorem client_reads_the_sanitized_stream_witness:
  "\<exists>st h. writeBifrostChatSSE plain_counter [] good_stream fresh_writer = Returns (Some (None, st)) \<and>
     rw_sent (ss_writer st) = Some (200, h)"
proof -
  have "case writeBifrostChatSSE plain_counter [] good_stream fresh_writer of Returns (Some (None, st)) \<Rightarrow> True | _ \<Rightarrow> False"
    by code_simp
  then obtain st where st: "writeBifrostChatSSE plain_counter [] good_stream fresh_writer = Returns (Some (None, st))"
    by (auto split: run.splits option.splits)
  show ?thesis using client_reads_the_sanitized_stream [OF st] st by (auto simp: fresh_writer_def)
qed

definition broken_stream :: bifrost_stream where
  "broken_stream = \<lparr>bs_events = [(1, Chunk ''hi''), (2, Closed (Some (Leaf ''reset'')) None)],
     bs_watchdog = Some (startStreamWatchdog 10 5 0), bs_selected = None\<rparr>"

theorem stream_error_is_tagged_when_answered_witness:
  "\<exists>e st. writeBifrostChatSSE plain_counter [] broken_stream fresh_writer = Returns (Some (Some e, st)) \<and>
     ResponseWritten (Some e) \<and> rw_sent (ss_writer st) \<noteq> None"
proof -
  have "case writeBifrostChatSSE plain_counter [] broken_stream fresh_writer of
      Returns (Some (Some e, st)) \<Rightarrow> ResponseWritten (Some e) | _ \<Rightarrow> False"
    by code_simp
  then obtain e st where st: "writeBifrostChatSSE plain_counter [] broken_stream fresh_writer = Returns (Some (Some e, st))"
    "ResponseWritten (Some e)"
    by (auto split: run.splits option.splits)
  have "list_all plain_event (bs_events broken_stream)" by (simp add: broken_stream_def ResponseWritten_def is_sentinel_def)
  then show ?thesis using stream_error_is_tagged_when_answered [OF st(1)] st by (auto simp: fresh_writer_def)
qed

theorem only_a_stall_counts_against_the_backend_witness:
  "\<exists>r st r' st'. writeBifrostChatSSE plain_counter [] \<lparr>bs_events = [(1, Chunk ''hi'')] @ [(6, CtxDone CtxCanceled)],
       bs_watchdog = Some (startStreamWatchdog 10 5 0), bs_selected = None\<rparr> fresh_writer = Returns (Some (r, st)) \<and>
     backendFault None r \<and>
     writeBifrostChatSSE plain_counter [] \<lparr>bs_events = [(1, Chunk ''hi'')] @ [(3, CtxDone CtxCanceled)],
       bs_watchdog = Some (startStreamWatchdog 10 5 0), bs_selected = None\<rparr> fresh_writer = Returns (Some (r', st')) \<and>
     \<not> backendFault None r'"
proof -
  let ?s = "\<lambda>t. \<lparr>bs_events = [(1, Chunk ''hi'')] @ [(t, CtxDone CtxCanceled)],
       bs_watchdog = Some (startStreamWatchdog 10 5 0), bs_selected = None\<rparr>"
  have "case writeBifrostChatSSE plain_counter [] (?s 6) fresh_writer of Returns (Some (r, st)) \<Rightarrow> True | _ \<Rightarrow> False"
    "case writeBifrostChatSSE plain_counter [] (?s 3) fresh_writer of Returns (Some (r, st)) \<Rightarrow> True | _ \<Rightarrow> False"
    by code_simp+
  then obtain r st r' st' where s: "writeBifrostChatSSE plain_counter [] (?s 6) fresh_writer = Returns (Some (r, st))"
    "writeBifrostChatSSE plain_counter [] (?s 3) fresh_writer = Returns (Some (r', st'))"
    by (auto split: run.splits option.splits)
  have "backendFault None r" "\<not> backendFault None r'"
    using only_a_stall_counts_against_the_backend [OF s(1), of None]
      only_a_stall_counts_against_the_backend [OF s(2), of None]
    by (simp_all add: fresh_writer_def CallerBudgetFrom_def)
  then show ?thesis using s by blast
qed

theorem dumps_are_capped_witness:
  "\<exists>r st. writeBifrostChatSSE plain_counter [] good_stream fresh_writer = Returns (Some (r, st)) \<and> length (ct_files (ss_count st)) \<le> 5"
proof -
  have "case writeBifrostChatSSE plain_counter [] good_stream fresh_writer of Returns (Some (r, st)) \<Rightarrow> True | _ \<Rightarrow> False"
    by code_simp
  then obtain r st where st: "writeBifrostChatSSE plain_counter [] good_stream fresh_writer = Returns (Some (r, st))"
    by (auto split: run.splits option.splits)
  have "counter_ok plain_counter" by (simp add: counter_ok_def plain_counter_def)
  then show ?thesis using dumps_are_capped [OF st] st by blast
qed

end
