(* ===== verification/Backend_Policy.thy ===== *)
theory Backend_Policy
  imports Registry
begin

text \<open>
  What a backend may be and how the router library sees it: the host policy of
  \<open>internal/gateway/router/policy.go\<close>, the construction of the registry (\<open>NewRegistry\<close> of
  \<open>registry.go\<close>) that applies it, and the account of \<open>account.go\<close>, which gives the router library the
  providers, keys and settings. \<open>net/url\<close> and \<open>net.ParseIP\<close> are the record \<open>url_api\<close>; no law is asked of
  them. Of the library's configuration types the record holds what the code sets. The lemmas say which hosts a
  registry can reach, that a capability of a backend is a request its provider allows, and that a
  Typesafe backend without a URL, which the configuration accepts, stops the start.
\<close>

section \<open>Hosts\<close>

record parsed_url =
  pu_scheme :: string
  pu_hostname :: string

record url_api =
  ua_parse :: "string \<Rightarrow> goerr + parsed_url"
  ua_loopback :: "string \<Rightarrow> bool"

definition defaultAllowedHosts :: "string list" where
  "defaultAllowedHosts = [''127.0.0.1'', ''localhost'', ''::1'', ''host.docker.internal'']"

definition blockedCloudHosts :: "string list" where
  "blockedCloudHosts =
     [''api.openai.com'', ''openai.com'', ''api.anthropic.com'', ''anthropic.com'', ''generativelanguage.googleapis.com'']"

definition isBlockedCloudHost :: "string \<Rightarrow> bool" where
  "isBlockedCloudHost host = list_ex (\<lambda>b. host = b \<or> has_suffix host (CHR ''.'' # b)) blockedCloudHosts"

definition policy_error :: "string \<Rightarrow> goerr" where
  "policy_error msg = Leaf msg"

definition parseBackendURL :: "url_api \<Rightarrow> string \<Rightarrow> goerr + parsed_url" where
  "parseBackendURL api raw0 =
     (let raw = trim_space raw0
      in if raw = [] then Inl (policy_error ''backend url required'')
         else case ua_parse api raw of
           Inl e \<Rightarrow> Inl (Wrapf (''backend url: '' @ err_text e) e)
         | Inr u \<Rightarrow>
             if pu_scheme u \<noteq> ''http'' \<and> pu_scheme u \<noteq> ''https''
             then Inl (policy_error ''backend url scheme must be http or https'')
             else if trim_space (pu_hostname u) = [] then Inl (policy_error ''backend url host required'')
             else Inr u)"

text \<open>The host a URL names, as the checks compare it.\<close>

definition url_host :: "parsed_url \<Rightarrow> string" where
  "url_host u = to_lower (trim_space (pu_hostname u))"

definition host_error :: "string \<Rightarrow> string \<Rightarrow> goerr" where
  "host_error host why = policy_error (''backend host '' @ go_quote host @ why)"

definition validateGeminiBackendURL :: "url_api \<Rightarrow> string \<Rightarrow> goerr option" where
  "validateGeminiBackendURL api raw0 =
     (let raw = trim_space raw0
      in if raw = [] then None
         else case parseBackendURL api raw of
           Inl e \<Rightarrow> Some e
         | Inr u \<Rightarrow>
             (let host = url_host u
              in if host \<noteq> ''generativelanguage.googleapis.com'' \<and> \<not> has_suffix host ''.generativelanguage.googleapis.com''
                 then Some (host_error host '' is not allowed for gemini extension'') else None))"

definition validateAnthropicBackendURL :: "url_api \<Rightarrow> string \<Rightarrow> goerr option" where
  "validateAnthropicBackendURL api raw0 =
     (let raw = trim_space raw0
      in if raw = [] then None
         else case parseBackendURL api raw of
           Inl e \<Rightarrow> Some e
         | Inr u \<Rightarrow>
             (let host = url_host u
              in if host \<noteq> ''api.anthropic.com''
                 then Some (host_error host '' is not allowed for anthropic extension'') else None))"

definition validateRemoteBackendURL :: "url_api \<Rightarrow> string \<Rightarrow> goerr option" where
  "validateRemoteBackendURL api raw =
     (case parseBackendURL api raw of
        Inl e \<Rightarrow> Some e
      | Inr u \<Rightarrow>
          if isBlockedCloudHost (url_host u)
          then Some (host_error (url_host u) '' is not allowed for remote backends'') else None)"

definition validateLocalBackendURL :: "url_api \<Rightarrow> string \<Rightarrow> bool \<Rightarrow> goerr option" where
  "validateLocalBackendURL api raw rejectNonLoopback =
     (case parseBackendURL api raw of
        Inl e \<Rightarrow> Some e
      | Inr u \<Rightarrow>
          (let host = url_host u
           in if isBlockedCloudHost host then Some (host_error host '' is not allowed (cloud speech blocked)'')
              else if \<not> rejectNonLoopback then None
              else if host \<in> set defaultAllowedHosts then None
              else if ua_loopback api host then None
              else Some (host_error host '' not allowed (loopback only for case mode)'')))"

definition validateBackend :: "url_api \<Rightarrow> backend_def \<Rightarrow> router_policy \<Rightarrow> goerr option" where
  "validateBackend api b policy =
     (if IsGeminiExtension b then validateGeminiBackendURL api (bk_base_url b)
      else if IsAnthropicExtension b then validateAnthropicBackendURL api (bk_base_url b)
      else if bk_remote b then validateRemoteBackendURL api (bk_base_url b)
      else validateLocalBackendURL api (bk_base_url b) (reject_non_loopback_backends policy))"

section \<open>The registry\<close>

text \<open>The account id of \<open>/accounts/([^/]+)/\<close>, the first match in the text.\<close>

fun account_id :: "string \<Rightarrow> string option" where
  "account_id [] = None"
| "account_id (c # cs) =
     (case (if has_prefix (c # cs) ''/accounts/'' then cut (drop 10 (c # cs)) (CHR ''/'') else ([], None)) of
        (i, Some _) \<Rightarrow> if i \<noteq> [] then Some i else account_id cs
      | (_, None) \<Rightarrow> account_id cs)"

definition AIBaseURL :: "string \<Rightarrow> goerr + string" where
  "AIBaseURL raw =
     (let base0 = trim_right_char (CHR ''/'') (trim_space raw); base = trim_suffix base0 ''/v1''
      in if base0 = [] then Inl (Leaf ''cloudflare: base_url required'')
         else if account_id base = None then Inl (Leaf ''cloudflare: base_url must include /accounts/{id}/'')
         else Inr base)"

text \<open>A start checks the backends one after the other, in an order Go leaves open; here it is that of the
  map.\<close>

definition check_registered :: "url_api \<Rightarrow> router_policy \<Rightarrow> string \<times> backend_def \<Rightarrow> goerr option" where
  "check_registered api policy kb =
     (case kb of (k, b) \<Rightarrow>
        let fail = (\<lambda>e. Some (DomainErr (with_field
              (err_wrap (Some e) (code_or (Some e) CodeInvalid) ''router.NewRegistry'' (''backends.'' @ k)) ''backend'' k)))
        in case validateBackend api b policy of
             Some e \<Rightarrow> fail e
           | None \<Rightarrow>
               if IsCloudflareExtension b
               then (case AIBaseURL (bk_base_url b) of Inl e \<Rightarrow> fail e | Inr _ \<Rightarrow> None) else None)"

definition NewRegistry :: "url_api \<Rightarrow> router_config \<Rightarrow> goerr + registry" where
  "NewRegistry api cfg =
     (case first_error (map (check_registered api (rc_policy cfg)) (rc_backends cfg)) of
        Some e \<Rightarrow> Inl e
      | None \<Rightarrow> Inr (Some cfg))"

section \<open>The account\<close>

definition fieldProvider :: string where "fieldProvider = ''provider''"

definition openAIBaseURL :: "string \<Rightarrow> string" where
  "openAIBaseURL backend =
     (let s = trim_right_char (CHR ''/'') (trim_space backend)
      in if has_suffix (to_lower s) ''/v1/openai'' then take (length s - length ''/v1/openai'') s
         else trim_suffix s ''/v1'')"

definition anthropicBaseURL :: "string \<Rightarrow> string" where
  "anthropicBaseURL raw = trim_suffix (trim_right_char (CHR ''/'') (trim_space raw)) ''/v1''"

record account =
  ac_backends :: "backend_def gomap"
  ac_timeouts :: timeouts

definition ProviderSwitchyard :: string where "ProviderSwitchyard = ''switchyard''"

definition shouldRegisterSwitchyard :: "environ \<Rightarrow> router_config \<Rightarrow> bool" where
  "shouldRegisterSwitchyard env cfg = (if HasComposedRouters (rc_routers cfg) then True else SwitchyardEnabled env)"

definition switchyard_backend :: "router_config \<Rightarrow> backend_def" where
  "switchyard_backend cfg =
     zero_backend\<lparr>bk_id := ProviderSwitchyard, bk_base_url := EffectiveSwitchyardBaseURL (rc_switchyard cfg),
       bk_capabilities := [CapChat]\<rparr>"

definition newAccount :: "environ \<Rightarrow> router_config \<Rightarrow> account" where
  "newAccount env cfg =
     \<lparr>ac_backends =
        (if shouldRegisterSwitchyard env cfg then put ProviderSwitchyard (switchyard_backend cfg) (rc_backends cfg)
         else rc_backends cfg),
      ac_timeouts = rc_timeouts cfg\<rparr>"

definition hasSwitchyard :: "account \<Rightarrow> bool" where
  "hasSwitchyard a = (map_of (ac_backends a) ProviderSwitchyard \<noteq> None)"

definition GetConfiguredProviders :: "account \<Rightarrow> string list" where
  "GetConfiguredProviders a = map fst (ac_backends a)"

definition unsupportedProvider :: "string \<Rightarrow> string \<Rightarrow> goerr" where
  "unsupportedProvider op provider =
     DomainErr (with_field (err_new CodeNotFound op ''provider not supported'') fieldProvider provider)"

text \<open>The one key of a provider; it serves every model.\<close>

definition GetKeysForProvider :: "(string \<Rightarrow> string) \<Rightarrow> environ \<Rightarrow> account \<Rightarrow> string \<Rightarrow> goerr + string" where
  "GetKeysForProvider sanitize env a provider =
     (let op = ''router.account.GetKeysForProvider''
      in case map_of (ac_backends a) provider of
           None \<Rightarrow> Inl (unsupportedProvider op provider)
         | Some b \<Rightarrow>
             if \<not> bk_remote b then Inr ''local''
             else case ResolveBearerToken sanitize env (bk_bearer_env b) of
               Inl e \<Rightarrow> Inl (DomainErr (with_field
                 (err_wrap (Some e) (code_or (Some e) CodeUnauthorized) op ''resolve credential'') ''backend'' provider))
             | Inr token \<Rightarrow> Inr token)"

record allowed_requests =
  ar_chat :: bool
  ar_chat_stream :: bool
  ar_embedding :: bool
  ar_speech :: bool
  ar_speech_stream :: bool
  ar_transcription :: bool
  ar_transcription_stream :: bool
  ar_decision :: bool
  ar_batch :: bool

text \<open>\<open>ar_batch\<close> stands for the four batch operations, which are set together.\<close>

definition allowedRequestsForBackend :: "backend_def \<Rightarrow> allowed_requests" where
  "allowedRequestsForBackend b =
     (let chat = HasCapability b CapChat \<or> HasCapability b CapVision;
          tts = HasCapability b CapTTS; stt = HasCapability b CapSTT;
          allowed = \<lparr>ar_chat = chat, ar_chat_stream = chat, ar_embedding = HasCapability b CapEmbed, ar_speech = tts,
            ar_speech_stream = False, ar_transcription = stt, ar_transcription_stream = False,
            ar_decision = (HasCapability b CapSystemOne \<and> IsTypesafeExtension b), ar_batch = False\<rparr>
      in if IsCloudflareExtension b then allowed
         else allowed\<lparr>ar_speech_stream := tts, ar_transcription_stream := stt,
           ar_batch := (IsAnthropicExtension b \<and> HasCapability b CapBatch)\<rparr>)"

datatype base_provider = BaseOpenAI | BaseGemini | BaseAnthropic | BaseTypesafe

record network_config =
  nc_base_url :: string
  nc_timeout_seconds :: int
  nc_allow_private :: bool
  nc_extra_headers :: "string gomap"

record provider_config =
  pc_network :: network_config
  pc_custom :: "(base_provider \<times> allowed_requests) option"

definition networkConfig :: "string \<Rightarrow> backend_def \<Rightarrow> timeouts \<Rightarrow> network_config" where
  "networkConfig baseURL b t =
     \<lparr>nc_base_url = baseURL, nc_timeout_seconds = ProviderSeconds t, nc_allow_private = True, nc_extra_headers = bk_extra_headers b\<rparr>"

definition openRouterProviderConfig :: "backend_def \<Rightarrow> timeouts \<Rightarrow> provider_config" where
  "openRouterProviderConfig b t = \<lparr>pc_network = networkConfig (openAIBaseURL (bk_base_url b)) b t, pc_custom = None\<rparr>"

definition GetConfigForProvider :: "account \<Rightarrow> string \<Rightarrow> goerr + provider_config" where
  "GetConfigForProvider a provider =
     (case map_of (ac_backends a) provider of
        None \<Rightarrow> Inl (unsupportedProvider ''router.account.GetConfigForProvider'' provider)
      | Some b \<Rightarrow>
          if provider = openRouterBackendID then Inr (openRouterProviderConfig b (ac_timeouts a))
          else
            (let p0 = (openAIBaseURL (bk_base_url b), BaseOpenAI);
                 p1 = (if IsGeminiExtension b then (trim_right_char (CHR ''/'') (trim_space (bk_base_url b)), BaseGemini) else p0);
                 p2 = (if IsAnthropicExtension b then (anthropicBaseURL (bk_base_url b), BaseAnthropic) else p1);
                 p3 = (if IsTypesafeExtension b then (anthropicBaseURL (bk_base_url b), BaseTypesafe) else p2)
             in Inr \<lparr>pc_network = networkConfig (fst p3) b (ac_timeouts a),
                  pc_custom = Some (snd p3, allowedRequestsForBackend b)\<rparr>))"

section \<open>Where a registry can send requests\<close>

definition backend_host :: "url_api \<Rightarrow> backend_def \<Rightarrow> string option" where
  "backend_host api b = (case parseBackendURL api (bk_base_url b) of Inl e \<Rightarrow> None | Inr u \<Rightarrow> Some (url_host u))"

lemma parseBackendURL_trim [simp]: "parseBackendURL api (trim_space raw) = parseBackendURL api raw"
  by (simp add: parseBackendURL_def)

lemma NewRegistry_Inr:
  "NewRegistry api cfg = Inr reg \<longleftrightarrow>
     reg = Some cfg \<and> (\<forall>kb \<in> set (rc_backends cfg). check_registered api (rc_policy cfg) kb = None)"
  using first_error_None [of "map (check_registered api (rc_policy cfg)) (rc_backends cfg)"]
  by (cases "first_error (map (check_registered api (rc_policy cfg)) (rc_backends cfg))") (auto simp: NewRegistry_def)

lemma check_registered_None:
  "check_registered api policy (k, b) = None \<longleftrightarrow>
     validateBackend api b policy = None \<and> (IsCloudflareExtension b \<longrightarrow> (\<exists>base. AIBaseURL (bk_base_url b) = Inr base))"
  by (auto simp: check_registered_def Let_def split: option.splits sum.splits)

lemma registered_backend:
  assumes "NewRegistry api cfg = Inr reg" "reg_Backend reg k = Some b"
  shows "validateBackend api b (rc_policy cfg) = None" "IsCloudflareExtension b \<Longrightarrow> \<exists>base. AIBaseURL (bk_base_url b) = Inr base"
proof -
  have m: "(k, b) \<in> set (rc_backends cfg)"
    using assms by (auto simp: NewRegistry_Inr reg_Backend_def loadCfg_def dest: map_of_SomeD)
  then have "check_registered api (rc_policy cfg) (k, b) = None" using assms(1) by (auto simp: NewRegistry_Inr)
  then show "validateBackend api b (rc_policy cfg) = None" "IsCloudflareExtension b \<Longrightarrow> \<exists>base. AIBaseURL (bk_base_url b) = Inr base"
    by (simp_all add: check_registered_None)
qed

text \<open>A registry that starts sends requests only to hosts of its policy: Gemini and Anthropic backends to
  their provider or its default, other backends never to the hosts of the cloud providers, and local ones, under
  the default policy, only to this machine.\<close>

theorem registry_reaches_permitted_hosts:
  assumes "NewRegistry api cfg = Inr reg" and "reg_Backend reg k = Some b"
  shows "if IsGeminiExtension b
     then trim_space (bk_base_url b) = [] \<or>
       (\<exists>h. backend_host api b = Some h \<and>
         (h = ''generativelanguage.googleapis.com'' \<or> has_suffix h ''.generativelanguage.googleapis.com''))
     else if IsAnthropicExtension b
     then trim_space (bk_base_url b) = [] \<or> backend_host api b = Some ''api.anthropic.com''
     else \<exists>h. backend_host api b = Some h \<and>
       (\<forall>c \<in> set blockedCloudHosts. h \<noteq> c \<and> \<not> has_suffix h (CHR ''.'' # c)) \<and>
       (\<not> bk_remote b \<and> reject_non_loopback_backends (rc_policy cfg) \<longrightarrow>
          h \<in> set defaultAllowedHosts \<or> ua_loopback api h)"
  using registered_backend(1) [OF assms]
  by (auto simp: validateBackend_def validateGeminiBackendURL_def validateAnthropicBackendURL_def validateRemoteBackendURL_def
      validateLocalBackendURL_def backend_host_def isBlockedCloudHost_def list_ex_iff Let_def split: if_splits sum.splits)

text \<open>A host written with the final dot of a fully qualified name passes the block list.\<close>

lemma trailing_dot_passes:
  "isBlockedCloudHost ''api.openai.com''" "\<not> isBlockedCloudHost ''api.openai.com.''"
  by code_simp+

text \<open>A Typesafe backend may leave its URL out, says the configuration; a registry with one does not start.\<close>

lemma typesafe_without_url_stops_the_start:
  assumes "(k, b) \<in> set (rc_backends cfg)" "IsTypesafeExtension b" "\<not> IsGeminiExtension b" "\<not> IsAnthropicExtension b"
    and "trim_space (bk_base_url b) = []"
  shows "\<exists>e. NewRegistry api cfg = Inl e"
proof -
  have "validateBackend api b (rc_policy cfg) \<noteq> None"
    using assms(3-5) by (simp add: validateBackend_def validateRemoteBackendURL_def validateLocalBackendURL_def parseBackendURL_def)
  then have "check_registered api (rc_policy cfg) (k, b) \<noteq> None" by (simp add: check_registered_None)
  then have "\<not> (\<exists>reg. NewRegistry api cfg = Inr reg)" using assms(1) by (auto simp: NewRegistry_Inr)
  then show ?thesis by (cases "NewRegistry api cfg") auto
qed

section \<open>Capabilities and allowed requests\<close>

text \<open>The request kinds a capability routes to.\<close>

definition serves :: "capability \<Rightarrow> allowed_requests \<Rightarrow> bool" where
  "serves cap ar \<longleftrightarrow>
     (cap \<in> {CapChat, CapVision} \<longrightarrow> ar_chat ar \<and> ar_chat_stream ar) \<and> (cap = CapEmbed \<longrightarrow> ar_embedding ar) \<and>
     (cap = CapTTS \<longrightarrow> ar_speech ar) \<and> (cap = CapSTT \<longrightarrow> ar_transcription ar)"

lemma allowed_serves: "HasCapability b cap \<Longrightarrow> serves cap (allowedRequestsForBackend b)"
  by (auto simp: serves_def allowedRequestsForBackend_def Let_def)

lemma account_backend:
  "map_of (ac_backends (newAccount env cfg)) k =
     (if k = ProviderSwitchyard \<and> shouldRegisterSwitchyard env cfg then Some (switchyard_backend cfg)
      else map_of (rc_backends cfg) k)"
  by (simp add: newAccount_def)

text \<open>A route of the registry is one the router library serves: the backend is a configured provider, and the
  requests of the capability it was routed for are allowed there, unless the backend has the name of Switchyard.\<close>

theorem routed_requests_are_allowed:
  assumes "resolveCapability cfg cap d m = Inr (k, down)" and "k \<noteq> ProviderSwitchyard"
  shows "k \<in> set (GetConfiguredProviders (newAccount env cfg)) \<and>
    (\<exists>pc. GetConfigForProvider (newAccount env cfg) k = Inr pc \<and>
       (case pc_custom pc of None \<Rightarrow> k = openRouterBackendID | Some (base, ar) \<Rightarrow> serves cap ar))"
proof -
  obtain b where b: "map_of (rc_backends cfg) k = Some b" "HasCapability b cap"
    using resolveCapability_Inr [OF assms(1)] by (auto simp: backend_of_def)
  then have a: "map_of (ac_backends (newAccount env cfg)) k = Some b" using assms(2) by (simp add: account_backend)
  then have "k \<in> set (GetConfiguredProviders (newAccount env cfg))"
    by (auto simp: GetConfiguredProviders_def dest: map_of_SomeD intro: rev_image_eqI)
  with a allowed_serves [OF b(2)] show ?thesis
    by (auto simp: GetConfigForProvider_def openRouterProviderConfig_def Let_def)
qed

text \<open>A backend that is called \<open>switchyard\<close> is replaced by the Switchyard process.\<close>

lemma switchyard_name_is_taken:
  assumes "shouldRegisterSwitchyard env cfg"
  shows "map_of (ac_backends (newAccount env cfg)) ProviderSwitchyard = Some (switchyard_backend cfg)"
  using assms by (simp add: account_backend)

section \<open>Runs\<close>

definition plain_urls :: url_api where
  "plain_urls = \<lparr>ua_parse = (\<lambda>s. case cut s (CHR '':'') of
       (scheme, Some rest) \<Rightarrow> Inr \<lparr>pu_scheme = scheme, pu_hostname = fst (cut (drop 2 rest) (CHR ''/''))\<rparr>
     | (s, None) \<Rightarrow> Inl (Leaf ''no scheme'')), ua_loopback = (\<lambda>h. False)\<rparr>"

theorem registry_reaches_permitted_hosts_witness:
  "backend_host plain_urls (mlx_backend ''http://localhost/v1'') = Some ''localhost''"
proof -
  let ?cfg = "default_config ''http://localhost/v1''"
  have b: "reg_Backend (Some ?cfg) mlxLocalID = Some (mlx_backend ''http://localhost/v1'')"
    and r: "case NewRegistry plain_urls ?cfg of Inl e \<Rightarrow> False | Inr r \<Rightarrow> True"
    by code_simp+
  then have n: "NewRegistry plain_urls ?cfg = Inr (Some ?cfg)" by (auto simp: NewRegistry_def split: option.splits)
  have k: "\<not> IsGeminiExtension (mlx_backend ''http://localhost/v1'')" "\<not> IsAnthropicExtension (mlx_backend ''http://localhost/v1'')"
    "\<not> bk_remote (mlx_backend ''http://localhost/v1'')" "reject_non_loopback_backends (rc_policy ?cfg)"
    by code_simp+
  from registry_reaches_permitted_hosts [OF n b] k
  obtain h where "backend_host plain_urls (mlx_backend ''http://localhost/v1'') = Some h" "h \<in> set defaultAllowedHosts"
    by (auto simp: plain_urls_def)
  then show ?thesis by code_simp
qed

lemma sample_chat_route: "resolveCapability sample_gated_config CapChat ''or'' ''or/or/auto'' = Inr (''or'', ''or/auto'')"
  by code_simp

theorem routed_requests_are_allowed_witness:
  "\<exists>pc. GetConfigForProvider (newAccount (\<lambda>_. []) sample_gated_config) ''or'' = Inr pc"
proof -
  have "''or'' \<noteq> ProviderSwitchyard" by (simp add: ProviderSwitchyard_def)
  from routed_requests_are_allowed [OF sample_chat_route this] show ?thesis by blast
qed

text \<open>A Typesafe backend without a URL is a normal configuration.\<close>

definition typesafe_backend :: backend_def where
  "typesafe_backend = zero_backend\<lparr>bk_id := ''jev'', bk_remote := True, bk_extension := ''typesafe'', bk_bearer_env := ''KEY'',
     bk_capabilities := [CapSystemOne]\<rparr>"

definition typesafe_config :: router_config where
  "typesafe_config = (default_config ''http://localhost/v1'')\<lparr>rc_backends :=
     [(mlxLocalID, mlx_backend ''http://localhost/v1''), (''jev'', typesafe_backend)]\<rparr>"

lemma typesafe_config_does_not_start:
  "case normalizeRouterConfig (\<lambda>s. s) (\<lambda>_. ''secret'') (Inr ''routes.toml'') typesafe_config of
     Inl e \<Rightarrow> False
   | Inr cfg \<Rightarrow> (case NewRegistry plain_urls cfg of Inl e \<Rightarrow> True | Inr r \<Rightarrow> False)"
  by code_simp

end
