(* ===== verification/Chat.thy ===== *)
theory Chat
  imports Chat_Stream Backend_Policy
begin

text \<open>
  Chat completions, embeddings and speech (\<open>internal/gateway/server.go\<close>, \<open>chat_transport.go\<close>):
  reading the request, choosing the backend, the allow gate, the call under the backend's
  breaker with its time budget, and the answer. The calls of the routing client are parameters
  (the interfaces \<open>chatRouter\<close> and \<open>speechRouter\<close>): each gives the provider's response header,
  if one came, and its result. A handler runs on the breaker board and a world of the response
  writer, the faults of its writes, the providers and the recorded model. It may also panic, or
  wait for ever on a stream that never ends; then \<open>cw_progress\<close> says so and the rest of the
  world is what it was by then.
\<close>

section \<open>The routing client\<close>

record router_call =
  ca_backend :: string
  ca_model :: string
  ca_body :: bytes
  ca_timeout :: int

record 'u chat_client =
  cl_uses :: "string \<Rightarrow> bool"
  cl_chat :: "go_context option \<Rightarrow> router_call \<Rightarrow> 'u \<Rightarrow> (header option \<times> (goerr + bytes)) \<times> 'u"
  cl_stream :: "go_context option \<Rightarrow> router_call \<Rightarrow> 'u \<Rightarrow> (header option \<times> (goerr + (int \<times> sse_event) list)) \<times> 'u"
  cl_embed :: "go_context option \<Rightarrow> router_call \<Rightarrow> 'u \<Rightarrow> (goerr + bytes) \<times> 'u"

datatype progress = Done | Panicked | Waiting

record 'u chat_world =
  cw_writer :: reply_writer
  cw_faults :: "bool list"
  cw_up :: 'u
  cw_sel :: selected_model
  cw_progress :: progress

record ('b, 'r, 'u) chat_env =
  ce_api :: "('b, 'r) breaker_api"
  ce_clock :: "'u \<Rightarrow> int"
  ce_registry :: registry
  ce_client :: "'u chat_client"
  ce_timeouts :: timeouts
  ce_sanitize :: "string \<Rightarrow> string"
  ce_environ :: environ
  ce_dumps :: bool

text \<open>The handler's exits change the writer only.\<close>

definition on_writer :: "(reply_writer \<Rightarrow> reply_writer) \<Rightarrow> 'b board option \<times> 'u chat_world \<Rightarrow> 'b board option \<times> 'u chat_world" where
  "on_writer f bw = (case bw of (bd, w) \<Rightarrow> (bd, w\<lparr>cw_writer := f (cw_writer w)\<rparr>))"

text \<open>A write of the answer, which fails when the client is gone.\<close>

definition reply_write :: "bytes \<Rightarrow> 'u chat_world \<Rightarrow> goerr option \<times> 'u chat_world" where
  "reply_write b w =
     (case cw_faults w of
        True # fs \<Rightarrow> (Some (Leaf ''write''), w\<lparr>cw_faults := fs\<rparr>)
      | fs \<Rightarrow> (None, w\<lparr>cw_faults := tl fs, cw_writer := write_bytes b (cw_writer w)\<rparr>))"

text \<open>\<open>io.ReadAll\<close> of a body through \<open>http.MaxBytesReader\<close>; \<open>Inl\<close> is a connection that failed.\<close>

definition read_request :: "nat \<Rightarrow> goerr + bytes \<Rightarrow> goerr + bytes" where
  "read_request cap body =
     (case body of
        Inl e \<Rightarrow> Inl e
      | Inr b \<Rightarrow> if cap < length b then Inl (Typed MaxBytesErr) else Inr b)"

definition chatMaxBody :: nat where "chatMaxBody = 33554432"
definition embedMaxBody :: nat where "embedMaxBody = 8388608"
definition codeModelNotAllowed :: string where "codeModelNotAllowed = ''model_not_allowed''"

definition writeModelNotAllowed :: "string \<Rightarrow> reply_writer \<Rightarrow> reply_writer" where
  "writeModelNotAllowed model =
     writeJSON 400 (Some (marshal_openaiErrorBody
       \<lparr>eb_error = \<lparr>oe_message = ''The model `'' @ model @ ''` is not enabled on this gateway (models.allow)'',
          oe_type = errTypeInvalidRequest, oe_param = keyModel, oe_code = codeModelNotAllowed\<rparr>, eb_polypus = None\<rparr>))"

section \<open>Budgets\<close>

definition hopBudget :: "int \<Rightarrow> int \<Rightarrow> int" where
  "hopBudget hop fallback = (if hop > 0 then hop else fallback)"

definition callerBudget :: "go_context \<Rightarrow> int \<Rightarrow> int \<Rightarrow> go_context" where
  "callerBudget ctx hop configured = (if hop < configured then WithCallerBudget ctx else ctx)"

text \<open>\<open>Duration.String\<close>, for the field of a late stream's error.\<close>

definition frac_text :: "nat \<Rightarrow> nat \<Rightarrow> string" where
  "frac_text prec v =
     (let f = v mod 10 ^ prec;
          ds = nat_text f;
          padded = replicate (prec - length ds) (CHR ''0'') @ ds
      in if f = 0 then [] else CHR ''.'' # trim_right_char (CHR ''0'') padded)"

definition duration_text :: "int \<Rightarrow> string" where
  "duration_text d =
     (let u = nat (abs d);
          s = u div 1000000000;
          body =
            (if u = 0 then ''0s''
             else if u < 1000 then nat_text u @ ''ns''
             else if u < 1000000 then nat_text (u div 1000) @ frac_text 3 u @ [CHR 0xC2, CHR 0xB5, CHR ''s'']
             else if u < 1000000000 then nat_text (u div 1000000) @ frac_text 6 u @ ''ms''
             else (if s div 3600 > 0 then nat_text (s div 3600) @ ''h'' else []) @
               (if s div 60 > 0 then nat_text (s div 60 mod 60) @ ''m'' else []) @
               nat_text (s mod 60) @ frac_text 9 u @ ''s'')
      in if d < 0 then CHR ''-'' # body else body)"

section \<open>The call\<close>

record chat_call =
  cc_target :: backend_target
  cc_body :: bytes
  cc_stream :: bool
  cc_hop :: int
  cc_record :: bool

definition requireBifrost :: "('b, 'r, 'u) chat_env \<Rightarrow> string \<Rightarrow> string \<Rightarrow> goerr option" where
  "requireBifrost env op backendID =
     (if cl_uses (ce_client env) backendID then None
      else Some (DomainErr (with_field (err_new CodeFailedPrecondition op ''backend not registered with the router'')
             ''backend'' backendID)))"

definition routerCall :: "chat_call \<Rightarrow> int \<Rightarrow> router_call" where
  "routerCall c timeout =
     \<lparr>ca_backend = bt_id (cc_target c), ca_model = bt_downstream (cc_target c), ca_body = cc_body c, ca_timeout = timeout\<rparr>"

definition selection :: "chat_call \<Rightarrow> selected_model" where
  "selection c = (if cc_record c then Some None else None)"

text \<open>\<open>OnResponseHeader\<close>: the client calls it with the provider's header.\<close>

definition on_header :: "header option \<Rightarrow> 'u chat_world \<Rightarrow> 'u chat_world" where
  "on_header hdr w =
     (case hdr of
        None \<Rightarrow> w
      | Some h \<Rightarrow>
          (case sel_fromHeader h (cw_sel w) (cw_writer w) of (s, wr) \<Rightarrow> w\<lparr>cw_sel := s, cw_writer := wr\<rparr>))"

definition bifrostChatStream ::
  "('b, 'r, 'u) chat_env \<Rightarrow> go_context option \<Rightarrow> chat_call \<Rightarrow> ('b, 'u chat_world) call" where
  "bifrostChatStream env ctx c = (\<lambda>(bd, w).
     let op = ''gateway.bifrostChatStream'';
         backendID = bt_id (cc_target c);
         hop = hopBudget (cc_hop c) (t_chat DefaultTimeouts);
         wd = startStreamWatchdog hop (ResolveStreamIdle (ce_timeouts env) backendID) (ce_clock env (cw_up w))
     in case cl_stream (ce_client env) ctx (routerCall c 0) (cw_up w) of
          ((hdr, res), u) \<Rightarrow>
            let w1 = on_header hdr (w\<lparr>cw_up := u, cw_sel := selection c\<rparr>)
            in case res of
                 Inl e \<Rightarrow>
                   (if timedOut (ce_clock env u) (Some wd)
                    then Some (DomainErr (with_field (with_field
                           (err_wrap (Some e) CodeTimeout op ''no stream within the hop budget'') ''backend'' backendID)
                           ''hop'' (duration_text hop)))
                    else Some (DomainErr (with_field (gatewayErr e op ''stream'') ''backend'' backendID)), bd, w1)
               | Inr events \<Rightarrow>
                   (case writeBifrostChatSSE \<lparr>ct_index = 0, ct_dir = ce_dumps env, ct_dumped = 0, ct_files = []\<rparr> (cw_faults w1)
                           \<lparr>bs_events = events, bs_watchdog = Some wd, bs_selected = cw_sel w1\<rparr> (cw_writer w1) of
                      Panics \<Rightarrow> (None, bd, w1\<lparr>cw_progress := Panicked\<rparr>)
                    | Returns None \<Rightarrow> (None, bd, w1\<lparr>cw_progress := Waiting\<rparr>)
                    | Returns (Some (r, st)) \<Rightarrow>
                        (r, bd, w1\<lparr>cw_writer := ss_writer st, cw_faults := ss_faults st, cw_sel := ss_sel st\<rparr>)))"

definition json_reply :: "bool \<Rightarrow> bytes \<Rightarrow> 'u chat_world \<Rightarrow> goerr option \<times> 'u chat_world" where
  "json_reply with_length raw w =
     (let w1 = set_header ''Content-Type'' ''application/json'' (cw_writer w);
          w2 = (if with_length then set_header ''Content-Length'' (nat_text (length raw)) w1 else w1)
      in reply_write raw (w\<lparr>cw_writer := write_header 200 w2\<rparr>))"

definition bifrostChatResponse ::
  "('b, 'r, 'u) chat_env \<Rightarrow> go_context option \<Rightarrow> chat_call \<Rightarrow> ('b, 'u chat_world) call" where
  "bifrostChatResponse env ctx c = (\<lambda>(bd, w).
     let backendID = bt_id (cc_target c);
         hop = hopBudget (cc_hop c) (t_chat DefaultTimeouts)
     in case cl_chat (ce_client env) ctx (routerCall c hop) (cw_up w) of
          ((hdr, res), u) \<Rightarrow>
            let w1 = on_header hdr (w\<lparr>cw_up := u, cw_sel := selection c\<rparr>)
            in case res of
                 Inl e \<Rightarrow>
                   (Some (DomainErr (with_field (gatewayErr e ''gateway.bifrostChatResponse'' ''chat'') ''backend'' backendID)), bd, w1)
               | Inr raw0 \<Rightarrow>
                   (case normalizeChatCompletion raw0 (cw_writer w1) of
                      Panics \<Rightarrow> (None, bd, w1\<lparr>cw_progress := Panicked\<rparr>)
                    | Returns (raw, wr) \<Rightarrow>
                        (case json_reply True raw (w1\<lparr>cw_writer := wr, cw_sel := sel_fromBody raw (cw_sel w1)\<rparr>) of
                           (Some e, w2) \<Rightarrow>
                             (Some (afterHeaders None (Some e) True ''gateway.bifrostChatResponse'' ''write response''), bd, w2)
                         | (None, w2) \<Rightarrow> (None, bd, w2))))"

definition bifrostChat ::
  "('b, 'r, 'u) chat_env \<Rightarrow> go_context option \<Rightarrow> chat_call \<Rightarrow> ('b, 'u chat_world) call" where
  "bifrostChat env ctx c = (if cc_stream c then bifrostChatStream env ctx c else bifrostChatResponse env ctx c)"

definition call_under ::
  "('b, 'r, 'u) chat_env \<Rightarrow> go_context option \<Rightarrow> string \<Rightarrow> ('b, 'u chat_world) call \<Rightarrow> ('b, 'u chat_world) call" where
  "call_under env ctx name fn = Execute (ce_api env) (\<lambda>w. ce_clock env (cw_up w)) ctx name fn"

section \<open>Chat completions\<close>

definition dialChat ::
  "('b, 'r, 'u) chat_env \<Rightarrow> go_context \<Rightarrow> string \<Rightarrow> chat_request \<Rightarrow> backend_target \<Rightarrow>
   'b board option \<times> 'u chat_world \<Rightarrow> 'b board option \<times> 'u chat_world" where
  "dialChat env ctx header req t bw =
     (case outbound req (bt_downstream t) (bk_extension (bt_backend t)) of
        Inl e \<Rightarrow> on_writer (writeHandlerError (Some e)) bw
      | Inr body \<Rightarrow>
          let kind = ChatKindOf (cr_vision req) (cr_thinking req);
              hop = ResolveChat (ce_timeouts env) header (bt_id t) kind;
              ctx1 = Some (callerBudget ctx hop (ResolveChat (ce_timeouts env) [] (bt_id t) kind));
              c = \<lparr>cc_target = t, cc_body = body, cc_stream = cr_stream req, cc_hop = hop, cc_record = False\<rparr>;
              fail = (\<lambda>err. on_writer (writeUpstreamDialError
                \<lparr>df_err = err, df_prefix = [], df_upstream = bt_id t, df_unreachable = None\<rparr>))
          in case requireBifrost env ''gateway.dialChat'' (bt_id t) of
               Some e \<Rightarrow> fail (Some e) bw
             | None \<Rightarrow>
                 (case call_under env ctx1 (bt_id t) (bifrostChat env ctx1 c) bw of
                    (err, bd, w) \<Rightarrow> if err = None then (bd, w) else fail err (bd, w)))"

definition resolve_err :: "goerr \<Rightarrow> string \<Rightarrow> string \<Rightarrow> goerr" where
  "resolve_err e op msg = DomainErr (err_wrap (Some e) (code_or (Some e) CodeInvalid) op msg)"

definition servePassthroughRouterChat ::
  "('b, 'r, 'u) chat_env \<Rightarrow> go_context \<Rightarrow> string \<Rightarrow> chat_request \<Rightarrow> string \<Rightarrow>
   'b board option \<times> 'u chat_world \<Rightarrow> 'b board option \<times> 'u chat_world" where
  "servePassthroughRouterChat env ctx header req target bw =
     (let op = ''gateway.servePassthroughRouterChat''
      in case reg_ResolveChat (ce_registry env) target of
           Inl e \<Rightarrow> on_writer (writeHandlerError (Some (resolve_err e op ''resolve target''))) bw
         | Inr (backendID, downstream) \<Rightarrow>
             if \<not> ensureModelAllowed (ce_registry env) backendID target
             then on_writer (writeModelNotAllowed target) bw
             else case resolveTarget (ce_sanitize env) (ce_environ env) (ce_registry env) op backendID downstream of
               Inl e \<Rightarrow> on_writer (writeHandlerError (Some e)) bw
             | Inr t \<Rightarrow> dialChat env ctx header req t bw)"

definition serveSwitchyardRouterChat ::
  "('b, 'r, 'u) chat_env \<Rightarrow> go_context \<Rightarrow> chat_request \<Rightarrow> string \<Rightarrow>
   'b board option \<times> 'u chat_world \<Rightarrow> 'b board option \<times> 'u chat_world" where
  "serveSwitchyardRouterChat env ctx req routerName bw =
     (let url = EffectiveSwitchyardBaseURL (rc_switchyard (loadCfg (Some (ce_registry env))));
          t = \<lparr>bt_id = ProviderSwitchyard, bt_downstream = routerName, bt_url = url, bt_auth = [], bt_backend = zero_backend\<rparr>;
          c = \<lparr>cc_target = t, cc_body = cr_raw req, cc_stream = cr_stream req,
               cc_hop = hopBudget (t_max (ce_timeouts env)) (t_max DefaultTimeouts), cc_record = True\<rparr>;
          fail = (\<lambda>err. on_writer (writeUpstreamDialError
            \<lparr>df_err = err, df_prefix = (if http_status err < 500 then [] else ''polypus: switchyard unavailable: ''),
             df_upstream = NameSwitchyard, df_unreachable = Some isSwitchyardUnreachable\<rparr>))
      in case requireBifrost env ''gateway.serveSwitchyardRouterChat'' ProviderSwitchyard of
           Some e \<Rightarrow> fail (Some e) bw
         | None \<Rightarrow>
             (case call_under env (Some ctx) NameSwitchyard (bifrostChat env (Some ctx) c) bw of
                (err, bd, w) \<Rightarrow> if err = None then (bd, w) else fail err (bd, w)))"

definition validateNamedRouterForChat :: "named_router \<Rightarrow> string \<Rightarrow> bool \<Rightarrow> string" where
  "validateNamedRouterForChat nr model vision =
     (if nr_capability nr \<noteq> CapChat then ''polypus: router '' @ go_quote model @ '' does not support chat''
      else if vision then ''polypus: router '' @ go_quote model @ '' does not support vision (v1 chat-only)''
      else [])"

datatype named_dispatch = DispatchUnknown | DispatchPassthrough | DispatchSwitchyard

definition classifyNamedRouterRoute :: "string \<Rightarrow> named_dispatch" where
  "classifyNamedRouterRoute routeType =
     (if routeType = RoutePassthrough then DispatchPassthrough
      else if routeType = RouteStageRouter \<or> routeType = RouteLLMClassifier \<or> routeType = RouteFallback
        then DispatchSwitchyard
      else DispatchUnknown)"

definition serveNamedRouterChat ::
  "('b, 'r, 'u) chat_env \<Rightarrow> go_context \<Rightarrow> string \<Rightarrow> chat_request \<Rightarrow> string \<Rightarrow>
   'b board option \<times> 'u chat_world \<Rightarrow> 'b board option \<times> 'u chat_world" where
  "serveNamedRouterChat env ctx header req routerName bw =
     (let op = ''gateway.serveNamedRouterChat'';
          bad = (\<lambda>msg. on_writer (writeHandlerError (Some (DomainErr (with_field (with_field
            (err_new CodeInvalid op msg) keyModel (cr_model req)) ''router'' routerName)))))
      in case LookupNamedRouter (rc_routers (loadCfg (Some (ce_registry env)))) routerName of
           None \<Rightarrow> bad ''unknown router'' bw
         | Some nr \<Rightarrow>
             let msg = validateNamedRouterForChat nr (cr_model req) (cr_vision req)
             in if msg \<noteq> [] then on_writer (writeHandlerError (Some (DomainErr (err_new CodeInvalid op msg)))) bw
                else case classifyNamedRouterRoute (rt_type (nr_route nr)) of
                  DispatchPassthrough \<Rightarrow> servePassthroughRouterChat env ctx header req (rt_target (nr_route nr)) bw
                | DispatchSwitchyard \<Rightarrow> serveSwitchyardRouterChat env ctx req routerName bw
                | DispatchUnknown \<Rightarrow> bad ''unsupported route type'' bw)"

definition serveChatCompletions ::
  "('b, 'r, 'u) chat_env \<Rightarrow> go_context \<Rightarrow> string \<Rightarrow> goerr + bytes \<Rightarrow>
   'b board option \<times> 'u chat_world \<Rightarrow> 'b board option \<times> 'u chat_world" where
  "serveChatCompletions env ctx header input bw =
     (let op = ''gateway.serveChatCompletions'';
          reg = ce_registry env
      in case read_request chatMaxBody input of
           Inl e \<Rightarrow> on_writer (writeHandlerError (Some (DomainErr (err_wrap (Some e) CodeInvalid op ''read body'')))) bw
         | Inr body \<Rightarrow>
             (case parseChatRequest body of
                Inl e \<Rightarrow> on_writer (writeHandlerError (Some e)) bw
              | Inr req \<Rightarrow>
                  (case parseNamedRouterModel (cr_model req) of
                     Some routerName \<Rightarrow> serveNamedRouterChat env ctx header req routerName bw
                   | None \<Rightarrow>
                       if \<not> cr_vision req \<and> EffectiveChatBackend (loadCfg (Some reg)) = []
                       then on_writer (writeHandlerError (Some (DomainErr (err_new CodeNotReady op ''no chat backend configured'')))) bw
                       else case (if cr_vision req then reg_ResolveVision reg (cr_model req) else reg_ResolveChat reg (cr_model req)) of
                         Inl e \<Rightarrow> on_writer (writeHandlerError (Some (resolve_err e op ''resolve backend''))) bw
                       | Inr (backendID, downstream) \<Rightarrow>
                           if \<not> ensureModelAllowed reg backendID (cr_model req)
                           then on_writer (writeModelNotAllowed (cr_model req)) bw
                           else case resolveTarget (ce_sanitize env) (ce_environ env) reg op backendID downstream of
                             Inl e \<Rightarrow> on_writer (writeHandlerError (Some e)) bw
                           | Inr t \<Rightarrow> dialChat env ctx header req t bw)))"

section \<open>Embeddings\<close>

record embed_call =
  em_target :: backend_target
  em_body :: bytes
  em_hop :: int
  em_shorter :: bool

text \<open>An error is \<open>None\<close> for \<open>errModelNotAllowed\<close>. A panic is that of \<open>withBodyModel\<close>.\<close>

definition resolveEmbeddings ::
  "('b, 'r, 'u) chat_env \<Rightarrow> string \<Rightarrow> string \<Rightarrow> bytes \<Rightarrow> (goerr option + embed_call) run" where
  "resolveEmbeddings env header model body =
     (let op = ''gateway.resolveEmbeddings'';
          reg = ce_registry env
      in if EffectiveEmbedBackend (loadCfg (Some reg)) = []
         then Returns (Inl (Some (DomainErr (with_field (err_new CodeNotReady op ''no embed backend configured'')
                FieldIntervention InterventionEmbedCapabilityMissing))))
         else case reg_ResolveEmbed reg model of
           Inl e \<Rightarrow> Returns (Inl (Some (resolve_err e op ''resolve backend'')))
         | Inr (backendID, downstream) \<Rightarrow>
             if \<not> ensureModelAllowed reg backendID model then Returns (Inl None)
             else case resolveTarget (ce_sanitize env) (ce_environ env) reg op backendID downstream of
               Inl e \<Rightarrow> Returns (Inl (Some e))
             | Inr t \<Rightarrow>
                 run_bind (withBodyModel op body downstream) (\<lambda>rewritten.
                   case rewritten of
                     Inl e \<Rightarrow> Returns (Inl (Some e))
                   | Inr b \<Rightarrow>
                       let hop = hopBudget (ResolveEmbed (ce_timeouts env) header) (t_embed DefaultTimeouts);
                           configured = hopBudget (ResolveEmbed (ce_timeouts env) []) (t_embed DefaultTimeouts)
                       in Returns (Inr \<lparr>em_target = t, em_body = b, em_hop = hop, em_shorter = hop < configured\<rparr>)))"

definition embed_hop ::
  "('b, 'r, 'u) chat_env \<Rightarrow> go_context option \<Rightarrow> embed_call \<Rightarrow> ('b, 'u chat_world) call" where
  "embed_hop env ctx c = (\<lambda>(bd, w).
     let op = ''gateway.dialEmbeddings'';
         i = bt_id (em_target c)
     in case cl_embed (ce_client env) ctx
               \<lparr>ca_backend = i, ca_model = bt_downstream (em_target c), ca_body = em_body c, ca_timeout = em_hop c\<rparr> (cw_up w) of
          (Inl e, u) \<Rightarrow> (Some (DomainErr (with_field (gatewayErr e op ''embedding'') ''backend'' i)), bd, w\<lparr>cw_up := u\<rparr>)
        | (Inr raw, u) \<Rightarrow>
            (case json_reply False raw (w\<lparr>cw_up := u\<rparr>) of
               (Some e, w1) \<Rightarrow> (Some (afterHeaders None (Some e) True op ''write response''), bd, w1)
             | (None, w1) \<Rightarrow> (None, bd, w1)))"

definition dialEmbeddings ::
  "('b, 'r, 'u) chat_env \<Rightarrow> go_context \<Rightarrow> embed_call \<Rightarrow> ('b, 'u chat_world) call" where
  "dialEmbeddings env ctx c bw =
     (case requireBifrost env ''gateway.dialEmbeddings'' (bt_id (em_target c)) of
        Some e \<Rightarrow> (Some e, bw)
      | None \<Rightarrow>
          let ctx1 = Some (if em_shorter c then WithCallerBudget ctx else ctx)
          in call_under env ctx1 (bt_id (em_target c)) (embed_hop env ctx1 c) bw)"

definition serveEmbeddings ::
  "('b, 'r, 'u) chat_env \<Rightarrow> go_context \<Rightarrow> string \<Rightarrow> goerr + bytes \<Rightarrow>
   'b board option \<times> 'u chat_world \<Rightarrow> 'b board option \<times> 'u chat_world" where
  "serveEmbeddings env ctx header input bw =
     (let op = ''gateway.serveEmbeddings''
      in case read_request embedMaxBody input of
           Inl e \<Rightarrow> on_writer (writeHandlerError (Some (DomainErr (err_wrap (Some e) CodeInvalid op ''read body'')))) bw
         | Inr body \<Rightarrow>
             (case bodyModel op body True of
                Inl e \<Rightarrow> on_writer (writeHandlerError (Some e)) bw
              | Inr model \<Rightarrow>
                  (case resolveEmbeddings env header model body of
                     Panics \<Rightarrow> (fst bw, (snd bw)\<lparr>cw_progress := Panicked\<rparr>)
                   | Returns (Inl None) \<Rightarrow> on_writer (writeModelNotAllowed model) bw
                   | Returns (Inl (Some e)) \<Rightarrow> on_writer (writeHandlerError (Some e)) bw
                   | Returns (Inr c) \<Rightarrow>
                       (case dialEmbeddings env ctx c bw of
                          (err, bd, w) \<Rightarrow>
                            if err = None then (bd, w)
                            else on_writer (writeUpstreamDialError
                              \<lparr>df_err = err, df_prefix = [], df_upstream = bt_id (em_target c), df_unreachable = None\<rparr>) (bd, w)))))"

section \<open>Which calls are made\<close>

text \<open>A client that keeps a log of the calls it gets.\<close>

definition records :: "router_call list chat_client \<Rightarrow> bool" where
  "records cl \<longleftrightarrow>
     (\<forall>ctx c u. snd (cl_chat cl ctx c u) = u @ [c] \<and> snd (cl_stream cl ctx c u) = u @ [c] \<and> snd (cl_embed cl ctx c u) = u @ [c])"

lemma on_writer_sel [simp]:
  "fst (on_writer f bw) = fst bw" "cw_up (snd (on_writer f bw)) = cw_up (snd bw)"
  "cw_progress (snd (on_writer f bw)) = cw_progress (snd bw)" "cw_writer (snd (on_writer f bw)) = f (cw_writer (snd bw))"
  by (cases bw; simp add: on_writer_def)+

lemma on_header_sel [simp]:
  "cw_up (on_header h w) = cw_up w" "cw_progress (on_header h w) = cw_progress w" "cw_faults (on_header h w) = cw_faults w"
  by (simp_all add: on_header_def split: option.splits prod.splits)

lemma reply_write_up [simp]: "cw_up (snd (reply_write b w)) = cw_up w" "cw_progress (snd (reply_write b w)) = cw_progress w"
  by (simp_all add: reply_write_def split: list.splits bool.splits)

lemma json_reply_up [simp]:
  "cw_up (snd (json_reply l raw w)) = cw_up w" "cw_progress (snd (json_reply l raw w)) = cw_progress w"
  by (simp_all add: json_reply_def Let_def)

text \<open>The call under the breaker is made, or the breaker refused it and nothing happened.\<close>

lemma call_under_cases:
  assumes "call_under env ctx name fn (bd, w) = (err, bd', w')"
  shows "(\<exists>b1 b2. fn (b1, w) = (err, b2, w')) \<or>
    w' = w \<and> (\<exists>e. err = Some e \<and>
      ((\<exists>n. e = UnavailableError n ErrOpen \<or> e = UnavailableError n ErrHalfOpen) \<or> (\<exists>t b. br_enter (ce_api env) t b = Inl e)))"
proof (cases bd)
  case None
  then show ?thesis using assms by (auto simp: call_under_def Execute_def)
next
  case (Some b0)
  obtain cb b where cb: "board_breaker (ce_api env) (normalizeName name) b0 = (cb, b)"
    by (cases "board_breaker (ce_api env) (normalizeName name) b0")
  show ?thesis
  proof (cases "br_enter (ce_api env) (ce_clock env (cw_up w)) cb")
    case (Inl e)
    then show ?thesis using assms Some cb by (auto simp: call_under_def Execute_def Let_def split: if_splits)
  next
    case (Inr cb')
    then show ?thesis using assms Some cb by (auto simp: call_under_def Execute_def Let_def split: prod.splits)
  qed
qed

lemma bifrostChat_log:
  assumes "records (ce_client env)" "bifrostChat env ctx c (bd, w) = (err, bd', w')"
  shows "\<exists>timeout. cw_up w' = cw_up w @ [routerCall c timeout]"
proof (cases "cc_stream c")
  case True
  obtain hdr res u where c: "cl_stream (ce_client env) ctx (routerCall c 0) (cw_up w) = ((hdr, res), u)"
    by (cases "cl_stream (ce_client env) ctx (routerCall c 0) (cw_up w)") auto
  have u: "u = cw_up w @ [routerCall c 0]" using assms(1) c by (simp add: records_def) (metis snd_conv)
  have "cw_up w' = u" using assms(2) True c
    by (auto simp: bifrostChat_def bifrostChatStream_def Let_def split: sum.splits run.splits option.splits prod.splits)
  then show ?thesis using u by blast
next
  case False
  let ?t = "hopBudget (cc_hop c) (t_chat DefaultTimeouts)"
  obtain hdr res u where c: "cl_chat (ce_client env) ctx (routerCall c ?t) (cw_up w) = ((hdr, res), u)"
    by (cases "cl_chat (ce_client env) ctx (routerCall c ?t) (cw_up w)") auto
  have u: "u = cw_up w @ [routerCall c ?t]" using assms(1) c by (simp add: records_def) (metis snd_conv)
  have r: "cw_up x = cw_up y" if "json_reply l raw y = (q, x)" for l raw q and x y :: "router_call list chat_world"
    using json_reply_up(1) [of l raw y] that by simp
  have "cw_up w' = u"
  proof (cases res)
    case (Inl e)
    then show ?thesis using assms(2) False c by (auto simp: bifrostChat_def bifrostChatResponse_def Let_def)
  next
    case (Inr raw0)
    then show ?thesis using assms(2) False c
      by (auto simp: bifrostChat_def bifrostChatResponse_def Let_def dest!: r split: run.splits option.splits prod.splits)
  qed
  then show ?thesis using u by blast
qed

lemma call_under_log:
  assumes "records (ce_client env)" "call_under env ctx name (bifrostChat env ctx c) (bd, w) = (err, bd', w')"
  shows "cw_up w' = cw_up w \<or> (\<exists>timeout. cw_up w' = cw_up w @ [routerCall c timeout])"
  using call_under_cases [OF assms(2)] bifrostChat_log [OF assms(1)] by blast

lemma dialChat_log:
  assumes "records (ce_client env)"
  shows "cw_up (snd (dialChat env ctx header req t bw)) = cw_up (snd bw) \<or>
    (\<exists>timeout body. outbound req (bt_downstream t) (bk_extension (bt_backend t)) = Inr body \<and>
      cw_up (snd (dialChat env ctx header req t bw)) = cw_up (snd bw) @
        [\<lparr>ca_backend = bt_id t, ca_model = bt_downstream t, ca_body = body, ca_timeout = timeout\<rparr>])"
proof (cases "outbound req (bt_downstream t) (bk_extension (bt_backend t))")
  case (Inl e)
  then show ?thesis by (simp add: dialChat_def)
next
  case (Inr body)
  show ?thesis
  proof (cases "requireBifrost env ''gateway.dialChat'' (bt_id t)")
    case (Some e)
    then show ?thesis using Inr by (simp add: dialChat_def Let_def)
  next
    case None
    let ?kind = "ChatKindOf (cr_vision req) (cr_thinking req)"
    let ?hop = "ResolveChat (ce_timeouts env) header (bt_id t) ?kind"
    let ?ctx = "Some (callerBudget ctx ?hop (ResolveChat (ce_timeouts env) [] (bt_id t) ?kind))"
    let ?c = "\<lparr>cc_target = t, cc_body = body, cc_stream = cr_stream req, cc_hop = ?hop, cc_record = False\<rparr>"
    obtain err bd' w' where r: "call_under env ?ctx (bt_id t) (bifrostChat env ?ctx ?c) bw = (err, bd', w')"
      by (cases "call_under env ?ctx (bt_id t) (bifrostChat env ?ctx ?c) bw")
    have "cw_up (snd (dialChat env ctx header req t bw)) = cw_up w'"
      using Inr None r by (simp add: dialChat_def Let_def)
    then show ?thesis
      using call_under_log [OF assms, of ?ctx "bt_id t" ?c "fst bw" "snd bw"] r Inr by (auto simp: routerCall_def)
  qed
qed

text \<open>A call a request may make: the backend and the model its route resolves to, admitted by the backend's gate,
  and the body as the backend is to get it; or Switchyard for a composed router.\<close>

definition leaf_call :: "registry \<Rightarrow> chat_request \<Rightarrow> goerr + string \<times> string \<Rightarrow> string \<Rightarrow> router_call \<Rightarrow> bool" where
  "leaf_call reg req route model call \<longleftrightarrow>
     route = Inr (ca_backend call, ca_model call) \<and> ensureModelAllowed reg (ca_backend call) model \<and>
     (\<exists>bk. reg_Backend reg (ca_backend call) = Some bk \<and> outbound req (ca_model call) (bk_extension bk) = Inr (ca_body call))"

definition admitted_call :: "registry \<Rightarrow> chat_request \<Rightarrow> router_call \<Rightarrow> bool" where
  "admitted_call reg req call \<longleftrightarrow>
     (case parseNamedRouterModel (cr_model req) of
        None \<Rightarrow> leaf_call reg req (if cr_vision req then reg_ResolveVision reg (cr_model req) else reg_ResolveChat reg (cr_model req))
                 (cr_model req) call
      | Some name \<Rightarrow>
          \<not> cr_vision req \<and>
          (\<exists>nr. LookupNamedRouter (rc_routers (loadCfg (Some reg))) name = Some nr \<and> nr_capability nr = CapChat \<and>
             (case classifyNamedRouterRoute (rt_type (nr_route nr)) of
                DispatchPassthrough \<Rightarrow> leaf_call reg req (reg_ResolveChat reg (rt_target (nr_route nr))) (rt_target (nr_route nr)) call
              | DispatchSwitchyard \<Rightarrow> ca_backend call = ProviderSwitchyard \<and> ca_model call = name \<and> ca_body call = cr_raw req
              | DispatchUnknown \<Rightarrow> False)))"

lemma resolveTarget_Inr:
  assumes "resolveTarget san environ reg op b d = Inr t"
  shows "bt_id t = b" "bt_downstream t = d" "reg_Backend reg b = Some (bt_backend t)"
  using assms by (auto simp: resolveTarget_def lookupBackend_def Let_def split: sum.splits prod.splits option.splits)

lemma leaf_call_made:
  assumes "records (ce_client env)" "ensureModelAllowed (ce_registry env) b model"
    and "resolveTarget (ce_sanitize env) (ce_environ env) (ce_registry env) op b d = Inr t"
    and "cw_up (snd (dialChat env ctx header req t bw)) \<noteq> cw_up (snd bw)"
  shows "\<exists>call. cw_up (snd (dialChat env ctx header req t bw)) = cw_up (snd bw) @ [call] \<and>
    leaf_call (ce_registry env) req (Inr (b, d)) model call"
proof -
  note t = resolveTarget_Inr [OF assms(3)]
  obtain timeout body where c: "outbound req (bt_downstream t) (bk_extension (bt_backend t)) = Inr body"
    "cw_up (snd (dialChat env ctx header req t bw)) = cw_up (snd bw) @
        [\<lparr>ca_backend = bt_id t, ca_model = bt_downstream t, ca_body = body, ca_timeout = timeout\<rparr>]"
    using dialChat_log [OF assms(1), of ctx header req t bw] assms(4) by auto
  then show ?thesis using t assms(2) by (auto simp: leaf_call_def)
qed

lemma passthrough_log:
  assumes "records (ce_client env)" "cw_up (snd (servePassthroughRouterChat env ctx header req target bw)) \<noteq> cw_up (snd bw)"
  shows "\<exists>call. cw_up (snd (servePassthroughRouterChat env ctx header req target bw)) = cw_up (snd bw) @ [call] \<and>
    leaf_call (ce_registry env) req (reg_ResolveChat (ce_registry env) target) target call"
  using assms(2)
  by (auto simp: servePassthroughRouterChat_def Let_def dest!: leaf_call_made [OF assms(1)]
      split: sum.splits if_splits)

lemma switchyard_log:
  assumes "records (ce_client env)" "cw_up (snd (serveSwitchyardRouterChat env ctx req name bw)) \<noteq> cw_up (snd bw)"
  shows "\<exists>call. cw_up (snd (serveSwitchyardRouterChat env ctx req name bw)) = cw_up (snd bw) @ [call] \<and>
    ca_backend call = ProviderSwitchyard \<and> ca_model call = name \<and> ca_body call = cr_raw req"
proof -
  let ?t = "\<lparr>bt_id = ProviderSwitchyard, bt_downstream = name,
    bt_url = EffectiveSwitchyardBaseURL (rc_switchyard (loadCfg (Some (ce_registry env)))), bt_auth = [], bt_backend = zero_backend\<rparr>"
  let ?c = "\<lparr>cc_target = ?t, cc_body = cr_raw req, cc_stream = cr_stream req,
    cc_hop = hopBudget (t_max (ce_timeouts env)) (t_max DefaultTimeouts), cc_record = True\<rparr>"
  have n: "requireBifrost env ''gateway.serveSwitchyardRouterChat'' ProviderSwitchyard = None"
    using assms(2) by (cases "requireBifrost env ''gateway.serveSwitchyardRouterChat'' ProviderSwitchyard")
      (auto simp: serveSwitchyardRouterChat_def Let_def)
  obtain err bd' w' where r: "call_under env (Some ctx) NameSwitchyard (bifrostChat env (Some ctx) ?c) bw = (err, bd', w')"
    by (cases "call_under env (Some ctx) NameSwitchyard (bifrostChat env (Some ctx) ?c) bw")
  have "cw_up (snd (serveSwitchyardRouterChat env ctx req name bw)) = cw_up w'"
    using n r by (simp add: serveSwitchyardRouterChat_def Let_def)
  then show ?thesis
    using call_under_log [OF assms(1), of "Some ctx" NameSwitchyard ?c "fst bw" "snd bw"] r assms(2) by (auto simp: routerCall_def)
qed

text \<open>C1: A chat request makes at most one provider call, and only an admitted one: the request was read and
  accepted, the backend and model are those its model (or its passthrough router's target) resolves to, the
  backend's allow gate admits that model, and the body is the request encoded for that backend; a composed
  router's request goes to Switchyard as the client sent it.\<close>

theorem one_admitted_call_per_chat_request:
  assumes "records (ce_client env)"
  shows "cw_up (snd (serveChatCompletions env ctx header input bw)) = cw_up (snd bw) \<or>
    (\<exists>body req call. read_request chatMaxBody input = Inr body \<and> parseChatRequest body = Inr req \<and>
       cw_up (snd (serveChatCompletions env ctx header input bw)) = cw_up (snd bw) @ [call] \<and>
       admitted_call (ce_registry env) req call)"
proof (rule disj_imp [THEN iffD2], rule impI)
  assume ch: "cw_up (snd (serveChatCompletions env ctx header input bw)) \<noteq> cw_up (snd bw)"
  let ?reg = "ce_registry env"
  obtain body where body: "read_request chatMaxBody input = Inr body"
    using ch by (cases "read_request chatMaxBody input") (auto simp: serveChatCompletions_def Let_def)
  obtain req where req: "parseChatRequest body = Inr req"
    using ch body by (cases "parseChatRequest body") (auto simp: serveChatCompletions_def Let_def)
  have "\<exists>call. cw_up (snd (serveChatCompletions env ctx header input bw)) = cw_up (snd bw) @ [call] \<and>
      admitted_call ?reg req call"
  proof (cases "parseNamedRouterModel (cr_model req)")
    case None
    show ?thesis using ch body req None
      by (auto simp: serveChatCompletions_def admitted_call_def Let_def dest!: leaf_call_made [OF assms]
          split: sum.splits if_splits)
  next
    case (Some name)
    have s: "serveChatCompletions env ctx header input bw = serveNamedRouterChat env ctx header req name bw"
      using body req Some by (simp add: serveChatCompletions_def)
    obtain nr where nr: "LookupNamedRouter (rc_routers (loadCfg (Some ?reg))) name = Some nr"
      using ch unfolding s by (cases "LookupNamedRouter (rc_routers (loadCfg (Some ?reg))) name")
        (auto simp: serveNamedRouterChat_def Let_def)
    have v: "nr_capability nr = CapChat" "\<not> cr_vision req"
      using ch nr unfolding s by (auto simp: serveNamedRouterChat_def validateNamedRouterForChat_def Let_def split: if_splits)
    show ?thesis
      using ch nr v unfolding s
      by (cases "classifyNamedRouterRoute (rt_type (nr_route nr))")
        (auto simp: serveNamedRouterChat_def validateNamedRouterForChat_def Let_def admitted_call_def Some
          dest: passthrough_log [OF assms] switchyard_log [OF assms])
  qed
  then show "\<exists>body req call. read_request chatMaxBody input = Inr body \<and> parseChatRequest body = Inr req \<and>
       cw_up (snd (serveChatCompletions env ctx header input bw)) = cw_up (snd bw) @ [call] \<and>
       admitted_call ?reg req call"
    using body req by blast
qed

section \<open>Every request is answered\<close>

lemma write_bytes_sends [simp]: "rw_sent (write_bytes b w) \<noteq> None"
  by (simp add: write_bytes_def write_header_def Let_def split: option.splits)

lemma writeJSON_sends [simp]: "rw_sent (writeJSON s v w) \<noteq> None"
  by (cases v) (simp_all only: writeJSON_def http_error_def option.case write_bytes_sends not_False_eq_True)

lemma error_writers_send:
  assumes "err \<noteq> None" "\<not> ResponseWritten err"
  shows "rw_sent (writeHandlerError err w) \<noteq> None"
    "df_err f = err \<Longrightarrow> rw_sent (writeUpstreamDialError f w) \<noteq> None"
  using assms
  by (auto simp: writeHandlerError_def writeUpstreamDialError_def writeErrorJSON_def writeUnavailableError_def writeRateLimitError_def
      Let_def simp del: not_None_eq split: prod.splits if_splits option.splits)

lemma not_allowed_sends [simp]: "rw_sent (writeModelNotAllowed m w) \<noteq> None"
  by (simp only: writeModelNotAllowed_def writeJSON_sends not_False_eq_True)

lemma dial_error_keeps: "ResponseWritten (df_err f) \<Longrightarrow> writeUpstreamDialError f w = w"
  by (simp add: writeUpstreamDialError_def Let_def)

lemma ResponseWritten_with_field [simp]:
  "ResponseWritten (Some (DomainErr (with_field d k v))) = ResponseWritten (Some (DomainErr d))"
  by (cases d) (simp add: ResponseWritten_def is_sentinel_def)

lemma ResponseWritten_wrap [simp]:
  "ResponseWritten (Some (DomainErr (err_wrap (Some e) c op msg))) = ResponseWritten (Some e)"
  "\<not> ResponseWritten (Some (DomainErr (err_new c op msg)))"
  by (simp_all add: ResponseWritten_def is_sentinel_def err_new_def err_wrap_def)

lemma ResponseWritten_plain [simp]:
  "\<not> ResponseWritten (Some (Leaf t))" "\<not> ResponseWritten (Some (Typed x))"
  "\<not> ResponseWritten (Some (UnavailableError n ErrOpen))" "\<not> ResponseWritten (Some (UnavailableError n ErrHalfOpen))"
  by (simp_all add: ResponseWritten_def is_sentinel_def UnavailableError_def err_wrap_def)

text \<open>The providers and the breaker do not claim that an answer is out.\<close>

definition plain_client :: "'u chat_client \<Rightarrow> bool" where
  "plain_client cl \<longleftrightarrow>
     (\<forall>ctx c u. (\<forall>e. snd (fst (cl_chat cl ctx c u)) = Inl e \<longrightarrow> \<not> ResponseWritten (Some e)) \<and>
        (\<forall>e. snd (fst (cl_stream cl ctx c u)) = Inl e \<longrightarrow> \<not> ResponseWritten (Some e)) \<and>
        (\<forall>es. snd (fst (cl_stream cl ctx c u)) = Inr es \<longrightarrow> list_all plain_event es) \<and>
        (\<forall>e. fst (cl_embed cl ctx c u) = Inl e \<longrightarrow> \<not> ResponseWritten (Some e)))"

definition plain_breaker :: "('b, 'r) breaker_api \<Rightarrow> bool" where
  "plain_breaker api \<longleftrightarrow> (\<forall>t b e. br_enter api t b = Inl e \<longrightarrow> \<not> ResponseWritten (Some e))"

text \<open>What a call leaves behind: no error and an answer, or an error tagged exactly when an answer is out.\<close>

definition outcome_ok :: "goerr option \<Rightarrow> reply_writer \<Rightarrow> bool" where
  "outcome_ok err w \<longleftrightarrow> (case err of None \<Rightarrow> rw_sent w \<noteq> None | Some e \<Rightarrow> (ResponseWritten (Some e) \<longleftrightarrow> rw_sent w \<noteq> None))"

lemma on_header_sent [simp]: "rw_sent (cw_writer (on_header h w)) = rw_sent (cw_writer w)"
proof -
  have "rw_sent (fold (\<lambda>key w. let v = trim_space (header_get hdr key) in if v \<noteq> [] then set_header key v w else w) ks wr) = rw_sent wr"
    for hdr ks wr
    by (induction ks arbitrary: wr) (auto simp: Let_def)
  then show ?thesis by (auto simp: on_header_def sel_fromHeader_def split: option.splits prod.splits)
qed

lemma json_reply_outcome:
  assumes "json_reply l raw w = (r, w')" "rw_sent (cw_writer w) = None"
  shows "rw_sent (cw_writer w') \<noteq> None"
proof -
  have h: "rw_sent (write_header s x) \<noteq> None" for s x by (simp add: write_header_def split: option.splits)
  have r: "rw_sent (cw_writer w2) \<noteq> None" if "reply_write raw w1 = (q, w2)" "rw_sent (cw_writer w1) \<noteq> None" for q w1 w2
  proof (cases "cw_writer w2 = cw_writer w1")
    case False
    then have "cw_writer w2 = write_bytes raw (cw_writer w1)"
      using that(1) by (auto simp: reply_write_def split: list.splits bool.splits)
    then show ?thesis by simp
  qed (use that in simp)
  show ?thesis using assms(1) unfolding json_reply_def Let_def by (rule r) (simp add: h)
qed

lemma normalize_sent:
  "normalizeChatCompletion raw w = Returns (raw', w') \<Longrightarrow> rw_sent w' = rw_sent w"
  by (auto simp: normalizeChatCompletion_def run_bind_Returns Let_def)

lemma sse_outcome:
  assumes "writeBifrostChatSSE counter faults stream w = Returns (Some (r, st))" "rw_sent w = None"
    and "list_all plain_event (bs_events stream)"
  shows "outcome_ok r (ss_writer st)"
proof -
  let ?st = "\<lparr>ss_writer = sse_headers w, ss_faults = faults, ss_started = False, ss_san = {}, ss_wd = bs_watchdog stream,
        ss_sel = bs_selected stream, ss_count = counter\<rparr>"
  have ok: "sse_ok ?st" using assms(2) by (simp add: sse_ok_def sse_headers_def)
  note l = assms(1) [unfolded writeBifrostChatSSE_def]
  show ?thesis
  proof (cases r)
    case None
    then show ?thesis using sse_loop_success [OF l [unfolded None] ok] by (auto simp: outcome_ok_def)
  next
    case (Some e)
    then show ?thesis using sse_loop_tag [OF l ok assms(3)] by (auto simp: outcome_ok_def sse_ok_def)
  qed
qed

lemma bifrostChat_outcome:
  assumes "plain_client (ce_client env)" "rw_sent (cw_writer w) = None"
    and "bifrostChat env ctx c (bd, w) = (err, bd', w')" "cw_progress w' = Done"
  shows "outcome_ok err (cw_writer w')"
proof (cases "cc_stream c")
  case True
  obtain hdr res u where c: "cl_stream (ce_client env) ctx (routerCall c 0) (cw_up w) = ((hdr, res), u)"
    by (cases "cl_stream (ce_client env) ctx (routerCall c 0) (cw_up w)") auto
  have p: "res = Inl e \<Longrightarrow> \<not> ResponseWritten (Some e)" "res = Inr es \<Longrightarrow> list_all plain_event es" for e es
    using assms(1) [unfolded plain_client_def, rule_format, of ctx "routerCall c 0" "cw_up w"] c by auto
  show ?thesis
  proof (cases res)
    case (Inl e)
    then show ?thesis using assms(2,3) True c p(1) [OF Inl]
      by (auto simp: bifrostChat_def bifrostChatStream_def Let_def outcome_ok_def)
  next
    case (Inr es)
    let ?w1 = "on_header hdr (w\<lparr>cw_up := u, cw_sel := selection c\<rparr>)"
    have s: "rw_sent (cw_writer ?w1) = None" using assms(2) by simp
    note o = sse_outcome [OF _ s]
    show ?thesis using assms(3,4) True c Inr p(2) [OF Inr]
      by (auto simp: bifrostChat_def bifrostChatStream_def Let_def split: run.splits option.splits prod.splits intro!: o)
  qed
next
  case False
  let ?t = "hopBudget (cc_hop c) (t_chat DefaultTimeouts)"
  obtain hdr res u where c: "cl_chat (ce_client env) ctx (routerCall c ?t) (cw_up w) = ((hdr, res), u)"
    by (cases "cl_chat (ce_client env) ctx (routerCall c ?t) (cw_up w)") auto
  have p: "res = Inl e \<Longrightarrow> \<not> ResponseWritten (Some e)" for e
    using assms(1) [unfolded plain_client_def, rule_format, of ctx "routerCall c ?t" "cw_up w"] c by auto
  show ?thesis
  proof (cases res)
    case (Inl e)
    then show ?thesis using assms(2,3) False c p [OF Inl]
      by (auto simp: bifrostChat_def bifrostChatResponse_def Let_def outcome_ok_def)
  next
    case (Inr raw0)
    let ?w1 = "on_header hdr (w\<lparr>cw_up := u, cw_sel := selection c\<rparr>)"
    show ?thesis
    proof (cases "normalizeChatCompletion raw0 (cw_writer ?w1)")
      case Panics
      then show ?thesis using assms(3,4) False c Inr by (auto simp: bifrostChat_def bifrostChatResponse_def Let_def)
    next
      case (Returns x)
      obtain raw wr where x: "x = (raw, wr)" by (cases x)
      let ?w2 = "?w1\<lparr>cw_writer := wr, cw_sel := sel_fromBody raw (cw_sel ?w1)\<rparr>"
      obtain q w3 where q: "json_reply True raw ?w2 = (q, w3)" by (cases "json_reply True raw ?w2")
      have "rw_sent wr = None" using normalize_sent [OF Returns [unfolded x]] assms(2) by simp
      then have "rw_sent (cw_writer w3) \<noteq> None" using json_reply_outcome [OF q] by simp
      then show ?thesis using assms(3) False c Inr Returns x q
        by (cases q) (auto simp: bifrostChat_def bifrostChatResponse_def Let_def outcome_ok_def)
    qed
  qed
qed


lemma call_under_outcome:
  assumes "plain_breaker (ce_api env)" "rw_sent (cw_writer w) = None"
    and "call_under env ctx name fn (bd, w) = (err, bd', w')" "cw_progress w' = Done"
    and "\<And>b1 b2. fn (b1, w) = (err, b2, w') \<Longrightarrow> outcome_ok err (cw_writer w')"
  shows "outcome_ok err (cw_writer w')"
  using call_under_cases [OF assms(3)]
proof (elim disjE exE conjE)
  show ?thesis if "fn (b1, w) = (err, b2, w')" for b1 b2 using assms(5) that by blast
  show ?thesis if "w' = w" "err = Some e" "e = UnavailableError n ErrOpen" for e n
    using that assms(2) by (simp add: outcome_ok_def)
  show ?thesis if "w' = w" "err = Some e" "e = UnavailableError n ErrHalfOpen" for e n
    using that assms(2) by (simp add: outcome_ok_def)
  show ?thesis if "w' = w" "err = Some e" "br_enter (ce_api env) t b = Inl e" for e t b
    using that assms(1,2) by (auto simp: outcome_ok_def plain_breaker_def)
qed

text \<open>The dial's failure is answered unless an answer is out.\<close>

lemma dialled_answer:
  assumes "outcome_ok err (cw_writer w)" "df_err f = err"
  shows "rw_sent (if err = None then cw_writer w else writeUpstreamDialError f (cw_writer w)) \<noteq> None"
proof (cases err)
  case None
  then show ?thesis using assms(1) by (simp add: outcome_ok_def)
next
  case (Some e)
  show ?thesis
  proof (cases "ResponseWritten err")
    case True
    then have "writeUpstreamDialError f (cw_writer w) = cw_writer w" using assms(2) by (intro dial_error_keeps) simp
    then show ?thesis using assms(1) Some True by (auto simp: outcome_ok_def)
  next
    case False
    then show ?thesis using error_writers_send(2) [OF _ False assms(2)] Some by simp
  qed
qed

lemma outbound_error: "outbound req d ext = Inl e \<Longrightarrow> \<not> ResponseWritten (Some e)"
  by (auto simp: outbound_def split: option.splits)

lemma dialChat_answers:
  assumes "plain_client (ce_client env)" "plain_breaker (ce_api env)" "rw_sent (cw_writer (snd bw)) = None"
    and "cw_progress (snd (dialChat env ctx header req t bw)) = Done"
  shows "rw_sent (cw_writer (snd (dialChat env ctx header req t bw))) \<noteq> None"
proof (cases "outbound req (bt_downstream t) (bk_extension (bt_backend t))")
  case (Inl e)
  then show ?thesis using error_writers_send(1) [of "Some e"] outbound_error [OF Inl] by (simp add: dialChat_def)
next
  case (Inr body)
  show ?thesis
  proof (cases "requireBifrost env ''gateway.dialChat'' (bt_id t)")
    case (Some e)
    then have "\<not> ResponseWritten (Some e)" by (auto simp: requireBifrost_def split: if_splits)
    then show ?thesis using Inr Some error_writers_send(2) [of "Some e"] by (simp add: dialChat_def Let_def)
  next
    case None
    let ?kind = "ChatKindOf (cr_vision req) (cr_thinking req)"
    let ?hop = "ResolveChat (ce_timeouts env) header (bt_id t) ?kind"
    let ?ctx = "Some (callerBudget ctx ?hop (ResolveChat (ce_timeouts env) [] (bt_id t) ?kind))"
    let ?c = "\<lparr>cc_target = t, cc_body = body, cc_stream = cr_stream req, cc_hop = ?hop, cc_record = False\<rparr>"
    obtain err bd' w' where r: "call_under env ?ctx (bt_id t) (bifrostChat env ?ctx ?c) (fst bw, snd bw) = (err, bd', w')"
      by (cases "call_under env ?ctx (bt_id t) (bifrostChat env ?ctx ?c) (fst bw, snd bw)")
    let ?f = "\<lparr>df_err = err, df_prefix = [], df_upstream = bt_id t, df_unreachable = None\<rparr>"
    have s: "dialChat env ctx header req t bw = (if err = None then (bd', w') else on_writer (writeUpstreamDialError ?f) (bd', w'))"
      using Inr None r by (simp add: dialChat_def Let_def)
    have d: "cw_progress w' = Done" using assms(4) unfolding s by (auto split: if_splits)
    have "outcome_ok err (cw_writer w')"
      by (rule call_under_outcome [OF assms(2,3) r d]) (rule bifrostChat_outcome [OF assms(1,3) _ d])
    then show ?thesis unfolding s using dialled_answer [of err w' ?f] by (cases err) simp_all
  qed
qed

lemma resolve_err_tag: "\<not> ResponseWritten (Some e) \<Longrightarrow> \<not> ResponseWritten (Some (resolve_err e op msg))"
  by (simp add: resolve_err_def)


lemma plain_new [simp]: "ResponseWritten (Some (DomainErr (withEmbedIntervention cap d))) = ResponseWritten (Some (DomainErr d))"
  by (simp add: withEmbedIntervention_def)

lemma resolveCapability_plain: "resolveCapability cfg cap d m = Inl e \<Longrightarrow> \<not> ResponseWritten (Some e)"
  by (auto simp: resolveCapability_def default_route_def checkDefaultBackend_def Let_def
      split: if_splits prod.splits option.splits)

lemma resolves_plain:
  "reg_ResolveChat r m = Inl e \<Longrightarrow> \<not> ResponseWritten (Some e)"
  "reg_ResolveEmbed r m = Inl e \<Longrightarrow> \<not> ResponseWritten (Some e)"
  "reg_ResolveVision r m = Inl e \<Longrightarrow> \<not> ResponseWritten (Some e)"
  by (auto simp: reg_ResolveChat_def reg_ResolveEmbed_def reg_ResolveVision_def Let_def resolveCapability_plain
      split: sum.splits if_splits dest: resolveCapability_plain)

lemma resolveTarget_plain: "resolveTarget san environ reg op b d = Inl e \<Longrightarrow> \<not> ResponseWritten (Some e)"
  by (auto simp: resolveTarget_def lookupBackend_def errBackendNotFound_def bearerAuthHeader_def ResolveBearerToken_def Let_def
      split: sum.splits prod.splits option.splits if_splits)

lemma parseChatRequest_plain: "parseChatRequest body = Inl e \<Longrightarrow> \<not> ResponseWritten (Some e)"
  by (auto simp: parseChatRequest_def chat_bad_def Let_def split: option.splits prod.splits if_splits goany.splits)


text \<open>The handlers that dial Switchyard and a passthrough target.\<close>

lemma handler_error_answers: "\<not> ResponseWritten (Some e) \<Longrightarrow> rw_sent (writeHandlerError (Some e) w) \<noteq> None"
  by (rule error_writers_send(1)) simp_all

lemma switchyard_answers:
  assumes "plain_client (ce_client env)" "plain_breaker (ce_api env)" "rw_sent (cw_writer (snd bw)) = None"
    and "cw_progress (snd (serveSwitchyardRouterChat env ctx req name bw)) = Done"
  shows "rw_sent (cw_writer (snd (serveSwitchyardRouterChat env ctx req name bw))) \<noteq> None"
proof -
  let ?t = "\<lparr>bt_id = ProviderSwitchyard, bt_downstream = name,
    bt_url = EffectiveSwitchyardBaseURL (rc_switchyard (loadCfg (Some (ce_registry env)))), bt_auth = [], bt_backend = zero_backend\<rparr>"
  let ?c = "\<lparr>cc_target = ?t, cc_body = cr_raw req, cc_stream = cr_stream req,
    cc_hop = hopBudget (t_max (ce_timeouts env)) (t_max DefaultTimeouts), cc_record = True\<rparr>"
  let ?f = "\<lambda>err. \<lparr>df_err = err, df_prefix = (if http_status err < 500 then [] else ''polypus: switchyard unavailable: ''),
             df_upstream = NameSwitchyard, df_unreachable = Some isSwitchyardUnreachable\<rparr>"
  show ?thesis
  proof (cases "requireBifrost env ''gateway.serveSwitchyardRouterChat'' ProviderSwitchyard")
    case (Some e)
    then have "\<not> ResponseWritten (Some e)" by (auto simp: requireBifrost_def split: if_splits)
    then show ?thesis using Some error_writers_send(2) [of "Some e" "?f (Some e)"]
      by (simp add: serveSwitchyardRouterChat_def Let_def)
  next
    case None
    obtain err bd' w' where r: "call_under env (Some ctx) NameSwitchyard (bifrostChat env (Some ctx) ?c) (fst bw, snd bw) = (err, bd', w')"
      by (cases "call_under env (Some ctx) NameSwitchyard (bifrostChat env (Some ctx) ?c) (fst bw, snd bw)")
    have s: "serveSwitchyardRouterChat env ctx req name bw =
        (if err = None then (bd', w') else on_writer (writeUpstreamDialError (?f err)) (bd', w'))"
      using None r by (simp add: serveSwitchyardRouterChat_def Let_def)
    have d: "cw_progress w' = Done" using assms(4) unfolding s by (auto split: if_splits)
    have "outcome_ok err (cw_writer w')"
      by (rule call_under_outcome [OF assms(2,3) r d]) (rule bifrostChat_outcome [OF assms(1,3) _ d])
    then show ?thesis unfolding s using dialled_answer [of err w' "?f err"] by (cases err) simp_all
  qed
qed

lemma passthrough_answers:
  assumes "plain_client (ce_client env)" "plain_breaker (ce_api env)" "rw_sent (cw_writer (snd bw)) = None"
    and "cw_progress (snd (servePassthroughRouterChat env ctx header req target bw)) = Done"
  shows "rw_sent (cw_writer (snd (servePassthroughRouterChat env ctx header req target bw))) \<noteq> None"
proof (cases "reg_ResolveChat (ce_registry env) target")
  case (Inl e)
  then show ?thesis using handler_error_answers [OF resolve_err_tag [OF resolves_plain(1) [OF Inl]]]
    by (simp add: servePassthroughRouterChat_def Let_def)
next
  case (Inr p)
  obtain b d where p: "p = (b, d)" by (cases p)
  show ?thesis
  proof (cases "ensureModelAllowed (ce_registry env) b target")
    case False
    then show ?thesis using Inr p not_allowed_sends by (simp add: servePassthroughRouterChat_def Let_def)
  next
    case True
    show ?thesis
    proof (cases "resolveTarget (ce_sanitize env) (ce_environ env) (ce_registry env) ''gateway.servePassthroughRouterChat'' b d")
      case (Inl e)
      then show ?thesis using Inr p True handler_error_answers [OF resolveTarget_plain [OF Inl]]
        by (simp add: servePassthroughRouterChat_def Let_def)
    next
      case t: (Inr t)
      have "servePassthroughRouterChat env ctx header req target bw = dialChat env ctx header req t bw"
        using Inr p True t by (simp add: servePassthroughRouterChat_def Let_def)
      then show ?thesis using dialChat_answers [OF assms(1-3)] assms(4) by simp
    qed
  qed
qed

lemma named_answers:
  assumes "plain_client (ce_client env)" "plain_breaker (ce_api env)" "rw_sent (cw_writer (snd bw)) = None"
    and "cw_progress (snd (serveNamedRouterChat env ctx header req name bw)) = Done"
  shows "rw_sent (cw_writer (snd (serveNamedRouterChat env ctx header req name bw))) \<noteq> None"
proof -
  have bad: "rw_sent (writeHandlerError (Some (DomainErr (with_field (with_field (err_new c op msg) k v) k' v'))) w) \<noteq> None"
    "rw_sent (writeHandlerError (Some (DomainErr (err_new c op msg))) w) \<noteq> None" for c op msg k v k' v' w
    by (rule handler_error_answers; simp)+
  show ?thesis
  proof (cases "LookupNamedRouter (rc_routers (loadCfg (Some (ce_registry env)))) name")
    case None
    then show ?thesis using bad by (simp add: serveNamedRouterChat_def Let_def)
  next
    case (Some nr)
    show ?thesis
    proof (cases "validateNamedRouterForChat nr (cr_model req) (cr_vision req) = []")
      case False
      then show ?thesis using Some bad by (simp add: serveNamedRouterChat_def Let_def)
    next
      case True
      show ?thesis
      proof (cases "classifyNamedRouterRoute (rt_type (nr_route nr))")
        case DispatchUnknown
        then show ?thesis using Some True bad by (simp add: serveNamedRouterChat_def Let_def)
      next
        case DispatchPassthrough
        then have "serveNamedRouterChat env ctx header req name bw =
            servePassthroughRouterChat env ctx header req (rt_target (nr_route nr)) bw"
          using Some True by (simp add: serveNamedRouterChat_def Let_def)
        then show ?thesis using passthrough_answers [OF assms(1-3)] assms(4) by simp
      next
        case DispatchSwitchyard
        then have "serveNamedRouterChat env ctx header req name bw = serveSwitchyardRouterChat env ctx req name bw"
          using Some True by (simp add: serveNamedRouterChat_def Let_def)
        then show ?thesis using switchyard_answers [OF assms(1-3)] assms(4) by simp
      qed
    qed
  qed
qed

text \<open>A chat request whose handler returns has been answered, whatever went wrong: an unreadable or refused
  request, a model no backend serves or admits, a missing credential, a breaker that refuses, a dial that
  fails, a stream that breaks.\<close>

lemma chat_request_answered:
  assumes "plain_client (ce_client env)" and "plain_breaker (ce_api env)" and "rw_sent (cw_writer (snd bw)) = None"
    and "\<forall>e. input = Inl e \<longrightarrow> \<not> ResponseWritten (Some e)"
    and "cw_progress (snd (serveChatCompletions env ctx header input bw)) = Done"
  shows "rw_sent (cw_writer (snd (serveChatCompletions env ctx header input bw))) \<noteq> None"
proof -
  let ?op = "''gateway.serveChatCompletions''" and ?reg = "ce_registry env"
  show ?thesis
  proof (cases "read_request chatMaxBody input")
    case (Inl e)
    then have "\<not> ResponseWritten (Some e)" using assms(4) by (auto simp: read_request_def split: sum.splits if_splits)
    then show ?thesis using Inl handler_error_answers by (simp add: serveChatCompletions_def Let_def)
  next
    case body: (Inr body)
    show ?thesis
    proof (cases "parseChatRequest body")
      case (Inl e)
      then show ?thesis using body handler_error_answers [OF parseChatRequest_plain [OF Inl]]
        by (simp add: serveChatCompletions_def Let_def)
    next
      case req: (Inr req)
      show ?thesis
      proof (cases "parseNamedRouterModel (cr_model req)")
        case (Some name)
        have "serveChatCompletions env ctx header input bw = serveNamedRouterChat env ctx header req name bw"
          using body req Some by (simp add: serveChatCompletions_def)
        then show ?thesis using named_answers [OF assms(1-3)] assms(5) by simp
      next
        case None
        let ?r = "if cr_vision req then reg_ResolveVision ?reg (cr_model req) else reg_ResolveChat ?reg (cr_model req)"
        show ?thesis
        proof (cases "\<not> cr_vision req \<and> EffectiveChatBackend (loadCfg (Some ?reg)) = []")
          case True
          then show ?thesis using body req None handler_error_answers by (simp add: serveChatCompletions_def Let_def)
        next
          case ok: False
          show ?thesis
          proof (cases ?r)
            case (Inl e)
            then have "\<not> ResponseWritten (Some e)" by (auto split: if_splits dest: resolves_plain)
            from handler_error_answers [OF resolve_err_tag [OF this]] show ?thesis
              using body req None ok Inl by (cases "cr_vision req") (simp_all add: serveChatCompletions_def Let_def)
          next
            case (Inr p)
            obtain b d where p: "p = (b, d)" by (cases p)
            show ?thesis
            proof (cases "ensureModelAllowed ?reg b (cr_model req)")
              case False
              then show ?thesis using body req None ok Inr p not_allowed_sends
                by (cases "cr_vision req") (simp_all add: serveChatCompletions_def Let_def)
            next
              case True
              show ?thesis
              proof (cases "resolveTarget (ce_sanitize env) (ce_environ env) ?reg ?op b d")
                case (Inl e)
                then show ?thesis using body req None ok Inr p True handler_error_answers [OF resolveTarget_plain [OF Inl]]
                  by (cases "cr_vision req") (simp_all add: serveChatCompletions_def Let_def)
              next
                case t: (Inr t)
                have "serveChatCompletions env ctx header input bw = dialChat env ctx header req t bw"
                  using body req None ok Inr p True t by (cases "cr_vision req") (simp_all add: serveChatCompletions_def Let_def)
                then show ?thesis using dialChat_answers [OF assms(1-3)] assms(5) by simp
              qed
            qed
          qed
        qed
      qed
    qed
  qed
qed

section \<open>A run\<close>

text \<open>A client that logs every call and answers with an empty completion.\<close>

definition log_client :: "router_call list chat_client" where
  "log_client =
     \<lparr>cl_uses = (\<lambda>_. True),
      cl_chat = (\<lambda>ctx c u. ((None, Inr (''{'' @ jq ''choices'' @ '':[]}'')), u @ [c])),
      cl_stream = (\<lambda>ctx c u. ((None, Inr []), u @ [c])),
      cl_embed = (\<lambda>ctx c u. (Inr ''{}'', u @ [c]))\<rparr>"

definition log_env :: "(count_breaker, nat, router_call list) chat_env" where
  "log_env =
     \<lparr>ce_api = count_api, ce_clock = (\<lambda>u. int (length u)), ce_registry = Some sample_gated_config, ce_client = log_client,
      ce_timeouts = DefaultTimeouts, ce_sanitize = (\<lambda>s. s), ce_environ = (\<lambda>_. []), ce_dumps = False\<rparr>"

definition log_world :: "router_call list chat_world" where
  "log_world = \<lparr>cw_writer = fresh_writer, cw_faults = [], cw_up = [], cw_sel = None, cw_progress = Done\<rparr>"

definition gated_chat :: bytes where
  "gated_chat = ''{'' @ jq ''model'' @ '':'' @ jq ''or/or/auto'' @ ''}''"

definition log_run :: "count_breaker board option \<times> router_call list chat_world" where
  "log_run = serveChatCompletions log_env \<lparr>ctx_err = None, caller_budget = False\<rparr> [] (Inr gated_chat) (Some NewBoard, log_world)"

lemma log_run_call: "length (cw_up (snd log_run)) = 1 \<and> cw_progress (snd log_run) = Done"
  by code_simp

lemma log_client_records: "records (ce_client log_env)"
  by (simp add: records_def log_env_def log_client_def)

lemma open_is_plain [simp]: "\<not> ResponseWritten (Some (Sent BreakerOpen))"
  by code_simp

lemma log_client_plain: "plain_client (ce_client log_env)" "plain_breaker (ce_api log_env)"
  by (auto simp: plain_client_def plain_breaker_def log_env_def log_client_def count_api_def
      elim!: count_enter.elims split: if_splits)

text \<open>The model \<open>or/or/auto\<close> is admitted and served once.\<close>

theorem one_admitted_call_per_chat_request_witness:
  "\<exists>req call. parseChatRequest gated_chat = Inr req \<and> cw_up (snd log_run) = [call] \<and>
     admitted_call (Some sample_gated_config) req call"
  using one_admitted_call_per_chat_request [OF log_client_records, of "\<lparr>ctx_err = None, caller_budget = False\<rparr>" "[]"
      "Inr gated_chat" "(Some NewBoard, log_world)", folded log_run_def] log_run_call
  by (auto simp: log_world_def log_env_def read_request_def split: if_splits)

end
