(* ===== verification/Router_Client.thy ===== *)
theory Router_Client
  imports Chat
begin

text \<open>
  The client of the router library (\<open>internal/gateway/router/client.go\<close>, \<open>stream_chunk.go\<close>): what is sent to
  a provider for a chat, an embedding or a speech call, and how a provider's failure becomes a domain error. The
  library (Bifrost) is the record \<open>bifrost\<close>; of its types the records hold what the code reads and writes,
  and \<open>bi_messages\<close>, \<open>bi_params\<close> decode the bodies into them. \<open>chat_client_of\<close> is the client that the
  handlers of \<open>Chat\<close> use. Traces are not modelled. The properties say which failures count against a
  backend, that calls without a time bound are refused, and that the handlers' assumption on their client
  holds.
\<close>

section \<open>Failures of the library\<close>

text \<open>A raw response: absent, bytes, a string or a value with its encoding.\<close>

datatype raw_response = RawNil | RawBytes bytes | RawString string | RawValue "bytes option"

record bifrost_field =
  bf_message :: string
  bf_type :: "string option"
  bf_code :: "string option"
  bf_cause :: "goerr option"

record bifrost_error =
  be_status :: "int option"
  be_error :: "bifrost_field option"
  be_provider :: string
  be_raw :: raw_response

definition msgRequestFailed :: string where "msgRequestFailed = ''request failed''"
definition anthropicOverloadedStatus :: int where "anthropicOverloadedStatus = 529"

text \<open>An absent or empty response is the empty text.\<close>

definition rawProviderJSON :: "raw_response \<Rightarrow> goerr + bytes" where
  "rawProviderJSON raw =
     (case raw of
        RawNil \<Rightarrow> Inr []
      | RawBytes b \<Rightarrow> Inr b
      | RawString s \<Rightarrow> Inr s
      | RawValue None \<Rightarrow> Inl (DomainErr (err_wrap (Some (Leaf ''json'')) CodeInternal ''router.rawProviderJSON'' ''marshal raw response''))
      | RawValue (Some b) \<Rightarrow> Inr b)"

definition bifrostRawBody :: "bifrost_error option \<Rightarrow> bytes" where
  "bifrostRawBody berr =
     (case berr of None \<Rightarrow> [] | Some b \<Rightarrow> (case rawProviderJSON (be_raw b) of Inl e \<Rightarrow> [] | Inr raw \<Rightarrow> raw))"

definition providerMessage :: "bifrost_error option \<Rightarrow> string" where
  "providerMessage berr =
     (case Option.bind berr be_error of
        None \<Rightarrow> msgRequestFailed
      | Some f \<Rightarrow> (let m = trim_space (bf_message f) in if m \<noteq> [] then m else msgRequestFailed))"

definition error_cause :: "bifrost_error \<Rightarrow> goerr option" where
  "error_cause berr = Option.bind (be_error berr) bf_cause"

definition providerRefusal :: "bifrost_error \<Rightarrow> code \<Rightarrow> string \<Rightarrow> int \<Rightarrow> derr" where
  "providerRefusal berr c op status =
     with_field (err_wrap (error_cause berr) c op (providerMessage (Some berr))) FieldStatus (itoa status)"

definition clientErrorCode :: "int \<Rightarrow> code" where
  "clientErrorCode status =
     (if status = 401 \<or> status = 403 then CodeUnauthorized
      else if status = 404 then CodeNotFound
      else if status = 409 then CodeConflict
      else CodeInvalid)"

definition anthropicOutOfCredit :: "int \<Rightarrow> string \<Rightarrow> string \<Rightarrow> bool" where
  "anthropicOutOfCredit status errType msg =
     (if status = 402 \<or> errType = ''billing_error'' then True
      else status = 400 \<and> contains (to_lower msg) ''credit balance'')"

definition billingRefusal :: "int \<Rightarrow> string \<Rightarrow> bool" where
  "billingRefusal status msg =
     (if status = 402 then True
      else if status \<noteq> 400 \<and> status \<noteq> 403 then False
      else list_ex (\<lambda>hint. contains (to_lower msg) hint)
        [''budget limit'', ''credit balance'', ''insufficient credit'', ''out of credit''])"

definition refusalCode :: "bifrost_error option \<Rightarrow> int \<Rightarrow> code" where
  "refusalCode berr status =
     (case as_domain (Option.bind berr error_cause) of
        Some de \<Rightarrow> d_code de
      | None \<Rightarrow>
          if billingRefusal status (providerMessage berr) then CodeNotReady else clientErrorCode status)"

definition anthropicChatErr :: "bifrost_error option \<Rightarrow> goerr option" where
  "anthropicChatErr berr =
     (case berr of
        None \<Rightarrow> None
      | Some b \<Rightarrow>
          (let status = (case be_status b of None \<Rightarrow> 0 | Some s \<Rightarrow> s);
               errType = (case Option.bind (be_error b) bf_type of None \<Rightarrow> [] | Some t \<Rightarrow> trim_space t);
               msg = providerMessage berr;
               refuse = (\<lambda>c. let out = providerRefusal b c ''router.anthropic'' status
                  in Some (DomainErr (if errType \<noteq> [] then with_field out ''type'' errType else out)))
           in if anthropicOutOfCredit status errType msg \<or> status = anthropicOverloadedStatus \<or> errType = ''overloaded_error''
              then refuse CodeNotReady
              else if status = 429 \<or> status < 400 \<or> 500 \<le> status then None
              else refuse (clientErrorCode status)))"

definition switchyardChatErr :: "bifrost_error option \<Rightarrow> goerr option" where
  "switchyardChatErr berr =
     (case berr of
        None \<Rightarrow> None
      | Some b \<Rightarrow>
          (case be_status b of
             None \<Rightarrow> None
           | Some status \<Rightarrow>
               if status < 400 \<or> 500 \<le> status \<or> status = 429 then None
               else Some (DomainErr (providerRefusal b (clientErrorCode status) ''router.switchyard'' status))))"

definition with_status :: "int \<Rightarrow> derr \<Rightarrow> derr" where
  "with_status status d = (if status > 0 then with_field d FieldStatus (itoa status) else d)"

definition status_of :: "bifrost_error \<Rightarrow> int" where
  "status_of b = (case be_status b of None \<Rightarrow> 0 | Some s \<Rightarrow> s)"

text \<open>Whether it is a rate limit; Cloudflare's throttle codes may come without a 429.\<close>

definition bifrost_limit :: "bifrost_error \<Rightarrow> header \<Rightarrow> bool \<Rightarrow> derr option" where
  "bifrost_limit b h isCloudflare =
     (let hints = providerMessage (Some b) # (case Option.bind (be_error b) bf_code of None \<Rightarrow> [] | Some c \<Rightarrow> [trim_space c])
      in if isCloudflare then Classify ''router.bifrost'' (status_of b) h (bifrostRawBody (Some b)) hints
         else ClassifyStatus ''router.bifrost'' (status_of b) h (bifrostRawBody (Some b)) hints)"

definition bifrostErr :: "bifrost_error option \<Rightarrow> header \<Rightarrow> bool \<Rightarrow> goerr" where
  "bifrostErr berr h isCloudflare =
     (case berr of
        None \<Rightarrow> DomainErr (err_new CodeInternal ''router.bifrost'' ''bifrost error'')
      | Some b \<Rightarrow>
          (let op = ''router.bifrost''; status = status_of b
           in case bifrost_limit b h isCloudflare of
                Some rl \<Rightarrow>
                  DomainErr (with_field
                    (err_wrap (case error_cause b of None \<Rightarrow> Some (DomainErr rl) | Some e \<Rightarrow> err_join [Some (DomainErr rl), Some e])
                       CodeRateLimited op ''provider rate limited'') fieldProvider (be_provider b))
              | None \<Rightarrow>
                  if 400 \<le> status \<and> status < 500 \<and> status \<noteq> 429
                  then DomainErr (with_field (providerRefusal b (refusalCode berr status) op status) fieldProvider (be_provider b))
                  else case error_cause b of
                    Some e \<Rightarrow> DomainErr (with_status status (err_wrap (Some e) (code_or (Some e) CodeUnavailable) op ''provider call''))
                  | None \<Rightarrow> DomainErr (with_status status (err_new CodeUnavailable op (providerMessage berr)))))"

section \<open>The client\<close>

record chat_params =
  cp_max_completion :: "int option"
  cp_cache_control :: bool
  cp_rest :: string

definition zero_params :: chat_params where
  "zero_params = \<lparr>cp_max_completion = None, cp_cache_control = False, cp_rest = []\<rparr>"

record bf_chat_request =
  bq_provider :: string
  bq_model :: string
  bq_input :: "string list"
  bq_raw :: "bytes option"
  bq_params :: "chat_params option"

record bf_embedding_request =
  bm_provider :: string
  bm_model :: string
  bm_input :: "string list"
  bm_raw :: bytes

text \<open>The context of a call: the caller's, the timeout (none when it is not positive) and whether the raw body is
  sent.\<close>

record bf_context =
  bx_parent :: "go_context option"
  bx_timeout :: int
  bx_raw :: bool

text \<open>What a stream produces, each with the state of the caller's context then: a nil chunk, one with an error,
  one without a response, a response with its encoding, the end. \<open>ItemDone\<close> is the end of the context; its flag
  says whether the reader of the stream sees it first or the producer.\<close>

datatype stream_item =
    ItemNil
  | ItemError bifrost_error "sentinel option"
  | ItemEmpty
  | ItemChunk "bytes option" "sentinel option"
  | ItemEnd "sentinel option"
  | ItemDone sentinel bool

type_synonym response_headers = "(string \<times> string) list"

text \<open>The library. A call gives the headers on its context and an error or a response, which may be nil, with
  its encoding.\<close>

record 'u bifrost =
  bi_messages :: "bytes \<Rightarrow> string list option"
  bi_params :: "bytes \<Rightarrow> chat_params option"
  bi_chat :: "bf_context \<Rightarrow> bf_chat_request \<Rightarrow> 'u \<Rightarrow> (response_headers \<times> (bifrost_error + bytes option option)) \<times> 'u"
  bi_stream :: "bf_context \<Rightarrow> bf_chat_request \<Rightarrow> 'u \<Rightarrow> (response_headers \<times> (bifrost_error + (int \<times> stream_item) list)) \<times> 'u"
  bi_embed :: "bf_context \<Rightarrow> bf_embedding_request \<Rightarrow> 'u \<Rightarrow> (response_headers \<times> (bifrost_error + bytes option option)) \<times> 'u"

text \<open>A nil client is \<open>None\<close>; \<open>rt_deadline\<close> says which contexts carry a deadline.\<close>

record 'u router_client =
  rt_bifrost :: "'u bifrost option"
  rt_reg :: "registry option"
  rt_switchyard :: bool
  rt_deadline :: "go_context \<Rightarrow> bool"

definition client_backend :: "'u router_client option \<Rightarrow> string \<Rightarrow> backend_def option" where
  "client_backend c backendID =
     (case Option.bind c rt_reg of None \<Rightarrow> None | Some reg \<Rightarrow> reg_Backend reg backendID)"

definition UsesBifrost :: "'u router_client option \<Rightarrow> string \<Rightarrow> bool" where
  "UsesBifrost c backendID =
     (case c of
        None \<Rightarrow> False
      | Some cl \<Rightarrow>
          if rt_reg cl = None then False
          else if backendID = ProviderSwitchyard then rt_switchyard cl
          else client_backend c backendID \<noteq> None)"

definition mapBifrostErr :: "'u router_client option \<Rightarrow> string \<Rightarrow> bifrost_error option \<Rightarrow> header \<Rightarrow> goerr" where
  "mapBifrostErr c backendID0 berr h =
     (let backendID = (if backendID0 = [] then (case berr of None \<Rightarrow> [] | Some b \<Rightarrow> be_provider b) else backendID0);
          isCloudflare = (case client_backend c backendID of None \<Rightarrow> False | Some b \<Rightarrow> IsCloudflareExtension b)
      in bifrostErr berr h isCloudflare)"

definition chatBifrostErr :: "'u router_client option \<Rightarrow> string \<Rightarrow> bifrost_error option \<Rightarrow> header \<Rightarrow> goerr" where
  "chatBifrostErr c backendID berr h =
     (let rest =
        (let other = mapBifrostErr c backendID berr h
         in case client_backend c backendID of
              None \<Rightarrow> other
            | Some b \<Rightarrow>
                if IsAnthropicExtension b then (case anthropicChatErr berr of None \<Rightarrow> other | Some e \<Rightarrow> e) else other)
      in if backendID = ProviderSwitchyard then (case switchyardChatErr berr of None \<Rightarrow> rest | Some e \<Rightarrow> e) else rest)"

definition header_add :: "string \<Rightarrow> string \<Rightarrow> header \<Rightarrow> header" where
  "header_add k v h =
     (let key = canonical_from True k
      in put key ((case map_of h key of None \<Rightarrow> [] | Some vs \<Rightarrow> vs) @ [v]) h)"

text \<open>\<open>None\<close> is the nil header; the order of the fields is that of the map.\<close>

definition bifrostProviderHeader :: "response_headers \<Rightarrow> header option" where
  "bifrostProviderHeader raw =
     (if raw = [] then None
      else Some (fold (\<lambda>(k, v) h. if trim_space k = [] \<or> trim_space v = [] then h else header_add k v h) raw []))"

definition or_no_header :: "header option \<Rightarrow> header" where
  "or_no_header h = (case h of None \<Rightarrow> [] | Some x \<Rightarrow> x)"

section \<open>Requests\<close>

definition bifrostUseRawChatBody :: "'u router_client option \<Rightarrow> string \<Rightarrow> bool" where
  "bifrostUseRawChatBody c backendID =
     (case client_backend c backendID of
        None \<Rightarrow> True
      | Some b \<Rightarrow> \<not> IsGeminiExtension b \<and> \<not> IsAnthropicExtension b)"

definition chatParamsFromOpenAIBody :: "(bytes \<Rightarrow> chat_params option) \<Rightarrow> bytes \<Rightarrow> goerr + chat_params option" where
  "chatParamsFromOpenAIBody decode body =
     (let op = ''router.chatParamsFromOpenAIBody''
      in case decode body of
           None \<Rightarrow> Inl (DomainErr (err_wrap (Some (Leaf ''json'')) CodeInvalid op ''parse chat params''))
         | Some params \<Rightarrow>
             (case unmarshal [(keyMaxTokens, \<lambda>raw v n. dec_int n v)] 0 body of
                None \<Rightarrow> Inl (DomainErr (err_wrap (Some (Leaf ''json'')) CodeInvalid op ''parse max_tokens''))
              | Some legacy \<Rightarrow>
                  (let p = (if cp_max_completion params = None \<and> legacy > 0 then params\<lparr>cp_max_completion := Some legacy\<rparr> else params)
                   in Inr (if p = zero_params then None else Some p))))"

definition bifrostChatRequest ::
  "(bytes \<Rightarrow> chat_params option) \<Rightarrow> router_call \<Rightarrow> string list \<Rightarrow> bool \<Rightarrow> goerr + bf_chat_request" where
  "bifrostChatRequest decode call messages useRaw =
     (let req = \<lparr>bq_provider = ca_backend call, bq_model = ca_model call, bq_input = messages, bq_raw = None, bq_params = None\<rparr>
      in if useRaw then Inr (req\<lparr>bq_raw := Some (ca_body call)\<rparr>)
         else case chatParamsFromOpenAIBody decode (ca_body call) of
           Inl e \<Rightarrow> Inl e
         | Inr params \<Rightarrow> Inr (req\<lparr>bq_params := params\<rparr>))"

definition withAutoPromptCache :: "backend_def \<Rightarrow> bytes \<Rightarrow> bf_chat_request \<Rightarrow> bf_chat_request" where
  "withAutoPromptCache b body req =
     (if bq_raw req \<noteq> None \<or> \<not> AutoPromptCache b then req
      else if contains body (jq ''cache_control'') then req
      else req\<lparr>bq_params := Some ((case bq_params req of None \<Rightarrow> zero_params | Some p \<Rightarrow> p)\<lparr>cp_cache_control := True\<rparr>)\<rparr>)"

definition applyAutoPromptCache :: "'u router_client option \<Rightarrow> string \<Rightarrow> bytes \<Rightarrow> bf_chat_request \<Rightarrow> bf_chat_request" where
  "applyAutoPromptCache c backendID body req =
     (case client_backend c backendID of None \<Rightarrow> req | Some b \<Rightarrow> withAutoPromptCache b body req)"

definition parseChatMessages :: "(bytes \<Rightarrow> string list option) \<Rightarrow> string \<Rightarrow> bytes \<Rightarrow> goerr + string list" where
  "parseChatMessages decode op body =
     (case decode body of
        None \<Rightarrow> Inl (DomainErr (err_wrap (Some (Leaf ''json'')) CodeInvalid op ''parse chat body''))
      | Some ms \<Rightarrow> if ms = [] then Inl (DomainErr (err_new CodeInvalid op ''messages required'')) else Inr ms)"

definition parseEmbeddingInputItems :: "bytes \<Rightarrow> goerr + string list" where
  "parseEmbeddingInputItems body =
     (let op = ''router.parseEmbeddingInputItems'';
          bad = (\<lambda>msg. Inl (DomainErr (err_new CodeInvalid op msg)))
      in case unmarshal [(''input'', \<lambda>raw v s. Some raw)] [] body of
           None \<Rightarrow> Inl (DomainErr (err_wrap (Some (Leaf ''json'')) CodeInvalid op ''parse embedding body''))
         | Some input \<Rightarrow>
             if input = [] \<or> input = ''null'' then bad ''input required''
             else case json_parse input of
               None \<Rightarrow> bad ''input must be string or string array''
             | Some v \<Rightarrow>
                 (case dec_string [] v of
                    Some text \<Rightarrow> Inr [text]
                  | None \<Rightarrow>
                      (case dec_slice (dec_string []) v of
                         Some ts \<Rightarrow> Inr ts
                       | None \<Rightarrow> bad ''input must be string or string array'')))"

definition router_contextCode :: "sentinel \<Rightarrow> code" where
  "router_contextCode s = (if s = CtxDeadlineExceeded then CodeTimeout else CodeCanceled)"

definition requireDeadline :: "(go_context \<Rightarrow> bool) \<Rightarrow> go_context option \<Rightarrow> string \<Rightarrow> goerr option" where
  "requireDeadline deadline ctx op =
     (case ctx of
        None \<Rightarrow> Some (DomainErr (err_new CodeInvalid op ''context is required''))
      | Some c \<Rightarrow>
          if deadline c then None else Some (DomainErr (err_new CodeFailedPrecondition op ''context deadline required'')))"

definition requireCallBound :: "(go_context \<Rightarrow> bool) \<Rightarrow> go_context option \<Rightarrow> int \<Rightarrow> string \<Rightarrow> goerr option" where
  "requireCallBound deadline ctx timeout op =
     (if timeout > 0 \<and> ctx \<noteq> None then None else requireDeadline deadline ctx op)"

section \<open>Calls\<close>

definition not_configured :: "string \<Rightarrow> goerr" where
  "not_configured op = DomainErr (err_new CodeNotReady op ''bifrost not configured'')"

definition empty_response :: "string \<Rightarrow> string \<Rightarrow> router_call \<Rightarrow> goerr" where
  "empty_response op msg call =
     DomainErr (with_field (with_field (err_new CodeUnavailable op msg) ''backend'' (ca_backend call)) ''model'' (ca_model call))"

definition client_bifrost :: "'u router_client option \<Rightarrow> ('u router_client \<times> 'u bifrost) option" where
  "client_bifrost c = (case c of None \<Rightarrow> None | Some cl \<Rightarrow> map_option (\<lambda>bf. (cl, bf)) (rt_bifrost cl))"

definition prepareChat ::
  "'u router_client option \<Rightarrow> 'u bifrost \<Rightarrow> string \<Rightarrow> router_call \<Rightarrow> goerr + bf_chat_request" where
  "prepareChat c bf op call =
     (case parseChatMessages (bi_messages bf) op (ca_body call) of
        Inl e \<Rightarrow> Inl e
      | Inr messages \<Rightarrow>
          (case bifrostChatRequest (bi_params bf) call messages (bifrostUseRawChatBody c (ca_backend call)) of
             Inl e \<Rightarrow> Inl e
           | Inr req \<Rightarrow> Inr (applyAutoPromptCache c (ca_backend call) (ca_body call) req)))"

definition ChatCompletionRaw ::
  "'u router_client option \<Rightarrow> go_context option \<Rightarrow> router_call \<Rightarrow> 'u \<Rightarrow> (header option \<times> (goerr + bytes)) \<times> 'u" where
  "ChatCompletionRaw c ctx call u =
     (let op = ''router.ChatCompletionRaw''
      in case client_bifrost c of
           None \<Rightarrow> ((None, Inl (not_configured op)), u)
         | Some (cl, bf) \<Rightarrow>
             (case requireCallBound (rt_deadline cl) ctx (ca_timeout call) op of
                Some e \<Rightarrow> ((None, Inl e), u)
              | None \<Rightarrow>
                  (case prepareChat c bf op call of
                     Inl e \<Rightarrow> ((None, Inl e), u)
                   | Inr req \<Rightarrow>
                       (case bi_chat bf \<lparr>bx_parent = ctx, bx_timeout = ca_timeout call,
                               bx_raw = bifrostUseRawChatBody c (ca_backend call)\<rparr> req u of
                          ((hdrs, Inl berr), u1) \<Rightarrow>
                            ((None, Inl (chatBifrostErr c (ca_backend call) (Some berr) (or_no_header (bifrostProviderHeader hdrs)))), u1)
                        | ((hdrs, Inr None), u1) \<Rightarrow>
                            ((None, Inl (empty_response op ''empty chat response from backend'' call)), u1)
                        | ((hdrs, Inr (Some None)), u1) \<Rightarrow>
                            ((bifrostProviderHeader hdrs, Inl (DomainErr (err_wrap (Some (Leaf ''json'')) CodeInternal op ''marshal chat response''))), u1)
                        | ((hdrs, Inr (Some (Some out))), u1) \<Rightarrow> ((bifrostProviderHeader hdrs, Inr out), u1)))))"

text \<open>The goroutine of a stream: what the reader's \<open>select\<close> receives.\<close>

fun stream_events ::
  "'u router_client option \<Rightarrow> string \<Rightarrow> header \<Rightarrow> (int \<times> stream_item) list \<Rightarrow> (int \<times> sse_event) list" where
  "stream_events c backendID h [] = []"
| "stream_events c backendID h ((t, ItemNil) # rest) = stream_events c backendID h rest"
| "stream_events c backendID h ((t, ItemEmpty) # rest) = stream_events c backendID h rest"
| "stream_events c backendID h ((t, ItemError berr ctx) # rest) = [(t, Closed (Some (chatBifrostErr c backendID (Some berr) h)) ctx)]"
| "stream_events c backendID h ((t, ItemChunk (Some b) ctx) # rest) = (t, Chunk b) # stream_events c backendID h rest"
| "stream_events c backendID h ((t, ItemChunk None ctx) # rest) =
     [(t, Closed (Some (DomainErr (err_wrap (Some (Leaf ''json'')) CodeInternal ''router.ChatCompletionStreamRaw'' ''marshal stream chunk''))) ctx)]"
| "stream_events c backendID h ((t, ItemEnd ctx) # rest) = [(t, Closed None ctx)]"
| "stream_events c backendID h ((t, ItemDone s first) # rest) =
     (if first then [(t, CtxDone s)]
      else [(t, Closed (Some (DomainErr (err_wrap (Some (Sent s)) (router_contextCode s) ''router.ChatCompletionStreamRaw'' ''context done'')))
                (Some s))])"

definition ChatCompletionStreamRaw ::
  "'u router_client option \<Rightarrow> go_context option \<Rightarrow> router_call \<Rightarrow> 'u \<Rightarrow> (header option \<times> (goerr + (int \<times> sse_event) list)) \<times> 'u" where
  "ChatCompletionStreamRaw c ctx call u =
     (let op = ''router.ChatCompletionStreamRaw''
      in case client_bifrost c of
           None \<Rightarrow> ((None, Inl (not_configured op)), u)
         | Some (cl, bf) \<Rightarrow>
             if ctx = None then ((None, Inl (DomainErr (err_new CodeInvalid op ''context is required''))), u)
             else case prepareChat c bf op call of
               Inl e \<Rightarrow> ((None, Inl e), u)
             | Inr req \<Rightarrow>
                 (case bi_stream bf \<lparr>bx_parent = ctx, bx_timeout = 0, bx_raw = bifrostUseRawChatBody c (ca_backend call)\<rparr> req u of
                    ((hdrs, res), u1) \<Rightarrow>
                      (let h = bifrostProviderHeader hdrs
                       in case res of
                            Inl berr \<Rightarrow> ((None, Inl (chatBifrostErr c (ca_backend call) (Some berr) (or_no_header h))), u1)
                          | Inr items \<Rightarrow> ((h, Inr (stream_events c (ca_backend call) (or_no_header h) items)), u1))))"

definition EmbeddingRaw ::
  "'u router_client option \<Rightarrow> go_context option \<Rightarrow> router_call \<Rightarrow> 'u \<Rightarrow> (goerr + bytes) \<times> 'u" where
  "EmbeddingRaw c ctx call u =
     (let op = ''router.EmbeddingRaw''
      in case client_bifrost c of
           None \<Rightarrow> (Inl (not_configured op), u)
         | Some (cl, bf) \<Rightarrow>
             (case requireCallBound (rt_deadline cl) ctx (ca_timeout call) op of
                Some e \<Rightarrow> (Inl e, u)
              | None \<Rightarrow>
                  (case parseEmbeddingInputItems (ca_body call) of
                     Inl e \<Rightarrow> (Inl e, u)
                   | Inr input \<Rightarrow>
                       (case bi_embed bf \<lparr>bx_parent = ctx, bx_timeout = ca_timeout call, bx_raw = True\<rparr>
                               \<lparr>bm_provider = ca_backend call, bm_model = ca_model call, bm_input = input, bm_raw = ca_body call\<rparr> u of
                          ((hdrs, Inl berr), u1) \<Rightarrow>
                            (Inl (mapBifrostErr c (ca_backend call) (Some berr) (or_no_header (bifrostProviderHeader hdrs))), u1)
                        | ((hdrs, Inr None), u1) \<Rightarrow>
                            (Inl (empty_response op ''empty embedding response from backend'' call), u1)
                        | ((hdrs, Inr (Some None)), u1) \<Rightarrow>
                            (Inl (DomainErr (err_wrap (Some (Leaf ''json'')) CodeInternal op ''marshal embedding response'')), u1)
                        | ((hdrs, Inr (Some (Some out))), u1) \<Rightarrow> (Inr out, u1)))))"

text \<open>The client as the handlers use it. The header hook of a call runs for its headers only.\<close>

definition chat_client_of :: "'u router_client option \<Rightarrow> 'u chat_client" where
  "chat_client_of c =
     \<lparr>cl_uses = UsesBifrost c, cl_chat = ChatCompletionRaw c, cl_stream = ChatCompletionStreamRaw c, cl_embed = EmbeddingRaw c\<rparr>"

section \<open>Which failures count against the backend\<close>


lemma field_status_trim [simp]: "trim_space FieldStatus = FieldStatus" "FieldStatus \<noteq> []" "fieldProvider \<noteq> FieldStatus" "''type'' \<noteq> FieldStatus"
  by (simp_all add: FieldStatus_def fieldProvider_def trim_space_id graphic_def)

lemma domain_nodes_with [simp]:
  "domain_nodes (Some (DomainErr (with_field d k v))) = with_field d k v # domain_nodes (d_cause d)"
  "d_cause (err_wrap e c op msg) = e" "d_cause (err_new c op msg) = None"
  by (cases d; simp add: err_wrap_def err_new_def split: option.splits)+


lemma clientErrorCode_cases: "clientErrorCode s \<in> {CodeUnauthorized, CodeNotFound, CodeConflict, CodeInvalid}"
  by (simp add: clientErrorCode_def)


lemma refusalCode_untyped:
  assumes "domain_nodes (error_cause b) = []"
  shows "refusalCode (Some b) s \<in> {CodeUnauthorized, CodeNotFound, CodeConflict, CodeInvalid, CodeNotReady}"
  using assms clientErrorCode_cases [of s] by (auto simp: refusalCode_def as_domain_def)

lemma d_code_with_status [simp]: "d_code (with_status s d) = d_code d"
  by (simp add: with_status_def)

lemma d_code_wrap [simp]: "d_code (err_wrap e c op msg) = (if c = NoCode then CodeInternal else c)"
  by (simp add: err_wrap_def split: option.splits)

lemma d_code_refusal [simp]: "d_code (providerRefusal b c op s) = (if c = NoCode then CodeInternal else c)"
  by (simp add: providerRefusal_def)

text \<open>The answer to a 4xx of the provider.\<close>

lemma bifrost_limit_facts:
  "bifrost_limit b h cf = None \<Longrightarrow> status_of b \<noteq> 429"
  "status_of b \<noteq> 429 \<Longrightarrow> bifrost_limit b h False = None"
  "bifrost_limit b h cf = Some rl \<Longrightarrow> d_cause rl = None"
  by (auto simp: bifrost_limit_def rate_limit_iff ClassifyStatus_def classify_None Classify_def Let_def
      split: if_splits dest: classify_code(2))

lemma bifrostErr_refusal:
  assumes "be_status b = Some s" "400 \<le> s" "s < 500" "domain_nodes (error_cause b) = []"
  shows "code_of (Some (bifrostErr (Some b) h cf)) \<in>
    {CodeUnauthorized, CodeNotFound, CodeConflict, CodeInvalid, CodeNotReady, CodeRateLimited}"
proof (cases "bifrost_limit b h cf")
  case None
  then have "s \<noteq> 429" using bifrost_limit_facts(1) [OF None] assms(1) by (simp add: status_of_def)
  then show ?thesis using None assms refusalCode_untyped [OF assms(4), of s]
    by (auto simp: bifrostErr_def status_of_def Let_def)
qed (simp add: bifrostErr_def Let_def)

lemma mapBifrostErr_refusal:
  assumes "be_status b = Some s" "400 \<le> s" "s < 500" "domain_nodes (error_cause b) = []"
  shows "code_of (Some (mapBifrostErr c i (Some b) h)) \<in>
    {CodeUnauthorized, CodeNotFound, CodeConflict, CodeInvalid, CodeNotReady, CodeRateLimited}"
  unfolding mapBifrostErr_def Let_def by (rule bifrostErr_refusal [OF assms])

lemma switchyard_cases:
  "switchyardChatErr (Some b) =
     (case be_status b of
        None \<Rightarrow> None
      | Some s \<Rightarrow> if 400 \<le> s \<and> s < 500 \<and> s \<noteq> 429
          then Some (DomainErr (providerRefusal b (clientErrorCode s) ''router.switchyard'' s)) else None)"
  by (auto simp: switchyardChatErr_def split: option.splits)

lemma switchyard_code:
  assumes "switchyardChatErr (Some b) = Some e"
  shows "code_of (Some e) \<in> {CodeUnauthorized, CodeNotFound, CodeConflict, CodeInvalid}"
    "\<exists>s. be_status b = Some s \<and> 400 \<le> s \<and> s < 500"
  using assms by (auto simp: switchyard_cases clientErrorCode_def split: option.splits if_splits)

lemma anthropic_code:
  assumes "anthropicChatErr (Some b) = Some e"
  shows "code_of (Some e) \<in> {CodeUnauthorized, CodeNotFound, CodeConflict, CodeInvalid, CodeNotReady}"
  using assms by (auto simp: anthropicChatErr_def clientErrorCode_def Let_def split: if_splits)

text \<open>
  What the handlers promise for a 4xx of the provider, by its status alone: the numbers are those of
  the answer to the client. \<open>spent\<close> is a refusal for money (or, from Anthropic, for load).
\<close>

definition refusal_status :: "bool \<Rightarrow> int \<Rightarrow> nat" where
  "refusal_status spent s =
     (if spent then 503
      else if s = 401 \<or> s = 403 then 401
      else if s = 404 then 404
      else if s = 409 then 409
      else if s = 429 then 429
      else 400)"

definition money_words :: "bifrost_error \<Rightarrow> bool" where
  "money_words b \<longleftrightarrow> (\<exists>hint \<in> {''budget limit'', ''credit balance'', ''insufficient credit'', ''out of credit''}.
     contains (to_lower (providerMessage (Some b))) hint)"

definition error_type :: "bifrost_error \<Rightarrow> string" where
  "error_type b = (case Option.bind (be_error b) bf_type of None \<Rightarrow> [] | Some t \<Rightarrow> trim_space t)"

definition promised_status :: "'u router_client option \<Rightarrow> string \<Rightarrow> bifrost_error \<Rightarrow> header \<Rightarrow> int \<Rightarrow> nat" where
  "promised_status c i b h s =
     (if i = ProviderSwitchyard \<and> s \<noteq> 429 then refusal_status False s
      else case client_backend c i of
        None \<Rightarrow> refusal_status (s = 402 \<or> s \<in> {400, 403} \<and> money_words b) s
      | Some bk \<Rightarrow>
          if IsAnthropicExtension bk
          then refusal_status (s = 402 \<or> error_type b \<in> {''billing_error'', ''overloaded_error''} \<or>
                 s = 400 \<and> contains (to_lower (providerMessage (Some b))) ''credit balance'') s
          else if IsCloudflareExtension bk \<and> bifrost_limit b h True \<noteq> None then 429
          else refusal_status (s = 402 \<or> s \<in> {400, 403} \<and> money_words b) s)"

lemma one_extension: "IsAnthropicExtension bk \<Longrightarrow> \<not> IsCloudflareExtension bk"
  by (simp add: IsAnthropicExtension_def IsCloudflareExtension_def hasExtension_def ExtensionAnthropic_def ExtensionCloudflare_def
      equal_fold_def trim_space_id graphic_def, code_simp)

lemma http_status_simps:
  "http_status (Some (DomainErr d)) = (case d_code d of CodeInvalid \<Rightarrow> 400 | CodeFailedPrecondition \<Rightarrow> 400
     | CodeUnauthorized \<Rightarrow> 401 | CodeNotFound \<Rightarrow> 404 | CodeConflict \<Rightarrow> 409 | CodeTimeout \<Rightarrow> 504 | CodeCanceled \<Rightarrow> 499
     | CodeNotReady \<Rightarrow> 503 | CodeRateLimited \<Rightarrow> 429 | CodeUnimplemented \<Rightarrow> 501 | CodeInternal \<Rightarrow> 500
     | CodeUnavailable \<Rightarrow> 502 | NoCode \<Rightarrow> 502)"
  by (simp add: http_status_def)

lemma http_status_refusal:
  "s \<noteq> 429 \<Longrightarrow> http_status (Some (DomainErr (providerRefusal b (clientErrorCode s) op s))) = refusal_status False s"
  "http_status (Some (DomainErr (providerRefusal b CodeNotReady op s))) = refusal_status True s"
  by (simp_all add: http_status_simps clientErrorCode_def refusal_status_def)

lemma billingRefusal_iff: "billingRefusal s (providerMessage (Some b)) \<longleftrightarrow> s = 402 \<or> s \<in> {400, 403} \<and> money_words b"
  by (auto simp: billingRefusal_def money_words_def)

lemma bifrostErr_status:
  assumes "be_status b = Some s" "400 \<le> s" "s < 500" "domain_nodes (error_cause b) = []"
  shows "http_status (Some (bifrostErr (Some b) h cf)) =
    (if cf \<and> bifrost_limit b h True \<noteq> None then 429 else refusal_status (s = 402 \<or> s \<in> {400, 403} \<and> money_words b) s)"
proof (cases "bifrost_limit b h cf")
  case None
  then have "s \<noteq> 429" "\<not> (cf \<and> bifrost_limit b h True \<noteq> None)"
    using bifrost_limit_facts(1) [OF None] assms(1) by (auto simp: status_of_def)
  moreover have "refusalCode (Some b) s = (if s = 402 \<or> s \<in> {400, 403} \<and> money_words b then CodeNotReady else clientErrorCode s)"
    using assms(4) by (simp add: refusalCode_def as_domain_def billingRefusal_iff)
  ultimately show ?thesis using None assms
    by (auto simp: bifrostErr_def status_of_def Let_def http_status_simps clientErrorCode_def refusal_status_def)
next
  case (Some rl)
  then have "\<not> cf \<longrightarrow> s = 429" using bifrost_limit_facts(2) [of b h] assms(1) by (cases cf; cases "s = 429") (simp_all add: status_of_def)
  with Some show ?thesis by (cases cf) (auto simp: bifrostErr_def Let_def http_status_simps refusal_status_def)
qed

lemma anthropic_status:
  assumes "be_status b = Some s" "400 \<le> s" "s < 500"
  shows "case anthropicChatErr (Some b) of
      None \<Rightarrow> s = 429 \<and> error_type b \<notin> {''billing_error'', ''overloaded_error''}
    | Some e \<Rightarrow> http_status (Some e) = refusal_status (s = 402 \<or> error_type b \<in> {''billing_error'', ''overloaded_error''} \<or>
        s = 400 \<and> contains (to_lower (providerMessage (Some b))) ''credit balance'') s"
  using assms by (auto simp: anthropicChatErr_def anthropicOutOfCredit_def anthropicOverloadedStatus_def error_type_def Let_def
      http_status_refusal http_status_simps clientErrorCode_def refusal_status_def)

text \<open>C4: A provider's 4xx whose cause carries no domain error reaches the client with the status promised for
  it: 401 for 401 and 403, 404 for 404, 409 for 409, 429 for 429 and for a throttle code of Cloudflare, 503 for a spent
  budget (402, or a 400 or 403 that speaks of money; from Anthropic a billing or overload error, or a 400 about the credit
  balance; never from Switchyard), and 400 for any other. It never counts against the backend's breaker.\<close>

theorem provider_refusals_reach_the_client:
  assumes "be_status b = Some s" and "400 \<le> s" and "s < 500" and "domain_nodes (error_cause b) = []" and "i \<noteq> []"
  shows "http_status (Some (chatBifrostErr c i (Some b) h)) = promised_status c i b h s \<and>
    \<not> backendFault ctx (Some (chatBifrostErr c i (Some b) h))"
proof
  have "code_of (Some (chatBifrostErr c i (Some b) h)) \<in>
      {CodeUnauthorized, CodeNotFound, CodeConflict, CodeInvalid, CodeNotReady, CodeRateLimited}"
    using mapBifrostErr_refusal [OF assms(1-4), of c i h]
    by (auto simp: chatBifrostErr_def Let_def split: option.splits dest: switchyard_code(1) anthropic_code)
  then show "\<not> backendFault ctx (Some (chatBifrostErr c i (Some b) h))" by (auto simp: backendFault_iff)
  have m: "http_status (Some (mapBifrostErr c i (Some b) h)) =
      (if (case client_backend c i of None \<Rightarrow> False | Some bk \<Rightarrow> IsCloudflareExtension bk) \<and> bifrost_limit b h True \<noteq> None
       then 429 else refusal_status (s = 402 \<or> s \<in> {400, 403} \<and> money_words b) s)"
    using assms(5) by (simp only: mapBifrostErr_def Let_def if_False bifrostErr_status [OF assms(1-4)])
  have rest: "http_status (Some (case client_backend c i of None \<Rightarrow> mapBifrostErr c i (Some b) h
      | Some bk \<Rightarrow> if IsAnthropicExtension bk
          then (case anthropicChatErr (Some b) of None \<Rightarrow> mapBifrostErr c i (Some b) h | Some e \<Rightarrow> e)
          else mapBifrostErr c i (Some b) h)) = promised_status c i b h s"
    if "\<not> (i = ProviderSwitchyard \<and> s \<noteq> 429)"
  proof (cases "client_backend c i")
    case None
    with m that show ?thesis by (auto simp: promised_status_def)
  next
    case (Some bk)
    have x: "IsAnthropicExtension bk \<Longrightarrow> \<not> IsCloudflareExtension bk" by (rule one_extension)
    show ?thesis
    proof (cases "IsAnthropicExtension bk")
      case True
      with m x Some that anthropic_status [OF assms(1-3)] show ?thesis
        by (cases "anthropicChatErr (Some b)") (auto simp: promised_status_def refusal_status_def)
    next
      case False
      with m Some that show ?thesis by (auto simp: promised_status_def)
    qed
  qed
  show "http_status (Some (chatBifrostErr c i (Some b) h)) = promised_status c i b h s"
  proof (cases "i = ProviderSwitchyard \<and> s \<noteq> 429")
    case True
    with assms(1-3) show ?thesis
      by (auto simp: chatBifrostErr_def switchyard_cases promised_status_def http_status_refusal Let_def)
  next
    case False
    then have "(if i = ProviderSwitchyard then (case switchyardChatErr (Some b) of None \<Rightarrow> e | Some x \<Rightarrow> x) else e) = e" for e
      using assms(1-3) by (auto simp: switchyard_cases)
    with rest [OF False] show ?thesis by (simp add: chatBifrostErr_def Let_def)
  qed
qed



section \<open>What is sent\<close>

text \<open>A library that logs the provider, model and raw body of every call.\<close>

definition logs :: "(string \<times> string \<times> bytes option) list bifrost \<Rightarrow> bool" where
  "logs bf \<longleftrightarrow>
     (\<forall>bx req u. snd (bi_chat bf bx req u) = u @ [(bq_provider req, bq_model req, bq_raw req)] \<and>
        snd (bi_stream bf bx req u) = u @ [(bq_provider req, bq_model req, bq_raw req)]) \<and>
     (\<forall>bx req u. snd (bi_embed bf bx req u) = u @ [(bm_provider req, bm_model req, Some (bm_raw req))])"

definition sent_as :: "'u router_client option \<Rightarrow> router_call \<Rightarrow> string \<times> string \<times> bytes option" where
  "sent_as c call =
     (ca_backend call, ca_model call, if bifrostUseRawChatBody c (ca_backend call) then Some (ca_body call) else None)"

lemma prepareChat_sent:
  assumes "prepareChat c bf op call = Inr req"
  shows "(bq_provider req, bq_model req, bq_raw req) = sent_as c call"
  using assms
  by (auto simp: prepareChat_def bifrostChatRequest_def applyAutoPromptCache_def withAutoPromptCache_def sent_as_def Let_def
      split: sum.splits if_splits option.splits)

lemma chat_sent:
  assumes "client_bifrost c = Some (cl, bf)" "logs bf"
  shows "snd (ChatCompletionRaw c ctx call u) \<in> {u, u @ [sent_as c call]}"
proof (cases "requireCallBound (rt_deadline cl) ctx (ca_timeout call) ''router.ChatCompletionRaw''")
  case None
  show ?thesis
  proof (cases "prepareChat c bf ''router.ChatCompletionRaw'' call")
    case (Inr req)
    obtain hdrs res u1 where r: "bi_chat bf \<lparr>bx_parent = ctx, bx_timeout = ca_timeout call,
        bx_raw = bifrostUseRawChatBody c (ca_backend call)\<rparr> req u = ((hdrs, res), u1)"
      by (metis prod.exhaust)
    have "u1 = u @ [sent_as c call]"
      using assms(2) r prepareChat_sent [OF Inr] by (simp add: logs_def) (metis snd_conv)
    then show ?thesis using assms(1) None Inr r
      by (simp add: ChatCompletionRaw_def Let_def split: sum.split option.split)
  qed (simp add: ChatCompletionRaw_def assms(1) None Let_def)
qed (simp add: ChatCompletionRaw_def assms(1) Let_def)

lemma stream_sent:
  assumes "client_bifrost c = Some (cl, bf)" "logs bf"
  shows "snd (ChatCompletionStreamRaw c ctx call u) \<in> {u, u @ [sent_as c call]}"
proof (cases "ctx = None")
  case False
  show ?thesis
  proof (cases "prepareChat c bf ''router.ChatCompletionStreamRaw'' call")
    case (Inr req)
    obtain hdrs res u1 where r: "bi_stream bf \<lparr>bx_parent = ctx, bx_timeout = 0,
        bx_raw = bifrostUseRawChatBody c (ca_backend call)\<rparr> req u = ((hdrs, res), u1)"
      by (metis prod.exhaust)
    have "u1 = u @ [sent_as c call]"
      using assms(2) r prepareChat_sent [OF Inr] by (simp add: logs_def) (metis snd_conv)
    then show ?thesis using assms(1) False Inr r
      by (simp add: ChatCompletionStreamRaw_def Let_def split: sum.split)
  qed (use False in \<open>simp add: ChatCompletionStreamRaw_def assms(1) Let_def\<close>)
qed (simp add: ChatCompletionStreamRaw_def assms(1) Let_def)

text \<open>A chat call, streamed or not, sends at most one request to the library, to the backend and model of the
  call; a backend that takes OpenAI bodies gets the body as it is.\<close>

theorem one_library_call_per_chat_call:
  assumes "client_bifrost c = Some (cl, bf)" and "logs bf"
  shows "snd (cl_chat (chat_client_of c) ctx call u) \<in> {u, u @ [sent_as c call]} \<and>
    snd (cl_stream (chat_client_of c) ctx call u) \<in> {u, u @ [sent_as c call]}"
  using chat_sent [OF assms] stream_sent [OF assms] by (simp add: chat_client_of_def)

text \<open>Without a timeout and a deadline nothing is sent.\<close>

lemma unbounded_calls_are_refused:
  assumes "client_bifrost c = Some (cl, bf)" "ca_timeout call \<le> 0" "\<forall>x. ctx = Some x \<longrightarrow> \<not> rt_deadline cl x"
  shows "snd (ChatCompletionRaw c ctx call u) = u" "snd (EmbeddingRaw c ctx call u) = u"
    "\<exists>e. snd (fst (ChatCompletionRaw c ctx call u)) = Inl e" "\<exists>e. fst (EmbeddingRaw c ctx call u) = Inl e"
proof -
  have "\<exists>e. requireCallBound (rt_deadline cl) ctx (ca_timeout call) op = Some e" for op
    using assms(2,3) by (cases ctx) (auto simp: requireCallBound_def requireDeadline_def)
  then obtain e where e: "\<And>op. requireCallBound (rt_deadline cl) ctx (ca_timeout call) op = Some (e op)" by metis
  show "snd (ChatCompletionRaw c ctx call u) = u" "snd (EmbeddingRaw c ctx call u) = u"
    "\<exists>e. snd (fst (ChatCompletionRaw c ctx call u)) = Inl e" "\<exists>e. fst (EmbeddingRaw c ctx call u) = Inl e"
    using assms(1) e by (simp_all add: ChatCompletionRaw_def EmbeddingRaw_def Let_def)
qed

section \<open>The handlers' assumption\<close>

definition plain_error :: "bifrost_error \<Rightarrow> bool" where
  "plain_error b \<longleftrightarrow> \<not> ResponseWritten (error_cause b)"

fun plain_item :: "int \<times> stream_item \<Rightarrow> bool" where
  "plain_item (t, ItemError b ctx) = (plain_error b \<and> ctx \<noteq> Some ErrResponseWritten)"
| "plain_item (t, ItemChunk b ctx) = (ctx \<noteq> Some ErrResponseWritten)"
| "plain_item (t, ItemEnd ctx) = (ctx \<noteq> Some ErrResponseWritten)"
| "plain_item (t, ItemDone s first) = (s \<noteq> ErrResponseWritten)"
| "plain_item (t, ItemNil) = True"
| "plain_item (t, ItemEmpty) = True"

text \<open>A library that knows nothing of the gateway's own tag.\<close>

definition plain_bifrost :: "'u bifrost \<Rightarrow> bool" where
  "plain_bifrost bf \<longleftrightarrow>
     (\<forall>bx req u berr. snd (fst (bi_chat bf bx req u)) = Inl berr \<longrightarrow> plain_error berr) \<and>
     (\<forall>bx req u berr. snd (fst (bi_stream bf bx req u)) = Inl berr \<longrightarrow> plain_error berr) \<and>
     (\<forall>bx req u items. snd (fst (bi_stream bf bx req u)) = Inr items \<longrightarrow> list_all plain_item items) \<and>
     (\<forall>bx req u berr. snd (fst (bi_embed bf bx req u)) = Inl berr \<longrightarrow> plain_error berr)"

lemma ResponseWritten_none [simp]: "\<not> ResponseWritten None"
  by (simp add: ResponseWritten_def is_sentinel_def)

lemma ResponseWritten_wrap' [simp]: "ResponseWritten (Some (DomainErr (err_wrap e c op msg))) = ResponseWritten e"
proof (cases e)
  case None
  then show ?thesis by (simp add: err_wrap_def)
qed simp

lemma ResponseWritten_sent [simp]: "ResponseWritten (Some (Sent s)) \<longleftrightarrow> s = ErrResponseWritten"
  by (auto simp: ResponseWritten_def is_sentinel_def)

lemma ResponseWritten_limit: "d_cause d = None \<Longrightarrow> \<not> ResponseWritten (Some (DomainErr d))"
  by (cases d) (simp add: ResponseWritten_def is_sentinel_def)

lemma refusal_plain [simp]: "ResponseWritten (Some (DomainErr (providerRefusal b c op s))) = ResponseWritten (error_cause b)"
  by (simp add: providerRefusal_def)

lemma with_status_plain [simp]: "ResponseWritten (Some (DomainErr (with_status s d))) = ResponseWritten (Some (DomainErr d))"
  by (simp add: with_status_def)

lemma bifrostErr_plain:
  assumes "plain_error b" shows "\<not> ResponseWritten (Some (bifrostErr (Some b) h cf))"
proof (cases "bifrost_limit b h cf")
  case None
  then show ?thesis using assms
    by (cases "error_cause b") (simp_all add: bifrostErr_def plain_error_def Let_def)
next
  case (Some rl)
  have r: "\<not> ResponseWritten (Some (DomainErr rl))" by (rule ResponseWritten_limit [OF bifrost_limit_facts(3) [OF Some]])
  then have "\<not> ResponseWritten (err_join [Some (DomainErr rl), Some e])" if "error_cause b = Some e" for e
    using assms that
    by (simp add: plain_error_def err_join_def List.map_filter_def ResponseWritten_def is_sentinel_def)
  then show ?thesis using r Some by (cases "error_cause b") (simp_all add: bifrostErr_def Let_def)
qed

lemma chatBifrostErr_plain:
  assumes "plain_error b" shows "\<not> ResponseWritten (Some (chatBifrostErr c i (Some b) h))"
proof -
  have "\<not> ResponseWritten (Some e)" if "switchyardChatErr (Some b) = Some e \<or> anthropicChatErr (Some b) = Some e" for e
    using that assms by (auto simp: switchyard_cases anthropicChatErr_def plain_error_def Let_def split: option.splits if_splits)
  moreover have "\<not> ResponseWritten (Some (mapBifrostErr c i (Some b) h))"
    using bifrostErr_plain [OF assms] by (simp add: mapBifrostErr_def Let_def)
  ultimately show ?thesis by (auto simp: chatBifrostErr_def Let_def split: option.splits)
qed

lemma stream_events_plain: "list_all plain_item items \<Longrightarrow> list_all plain_event (stream_events c i h items)"
  by (induction c i h items rule: stream_events.induct) (auto simp: chatBifrostErr_plain)

lemma prepareChat_plain: "prepareChat c bf op call = Inl e \<Longrightarrow> \<not> ResponseWritten (Some e)"
  by (auto simp: prepareChat_def parseChatMessages_def bifrostChatRequest_def chatParamsFromOpenAIBody_def Let_def
      split: option.splits sum.splits if_splits)

lemma bound_plain: "requireCallBound d ctx n op = Some e \<Longrightarrow> \<not> ResponseWritten (Some e)"
  by (auto simp: requireCallBound_def requireDeadline_def split: if_splits option.splits)

lemma embed_plain: "parseEmbeddingInputItems body = Inl e \<Longrightarrow> \<not> ResponseWritten (Some e)"
  by (auto simp: parseEmbeddingInputItems_def Let_def split: option.splits if_splits)

lemma chat_plain:
  assumes "client_bifrost c = Some (cl, bf)" "plain_bifrost bf" "snd (fst (ChatCompletionRaw c ctx call u)) = Inl e"
  shows "\<not> ResponseWritten (Some e)"
proof (cases "requireCallBound (rt_deadline cl) ctx (ca_timeout call) ''router.ChatCompletionRaw''")
  case None
  show ?thesis
  proof (cases "prepareChat c bf ''router.ChatCompletionRaw'' call")
    case (Inr req)
    obtain hdrs res u1 where r: "bi_chat bf \<lparr>bx_parent = ctx, bx_timeout = ca_timeout call,
        bx_raw = bifrostUseRawChatBody c (ca_backend call)\<rparr> req u = ((hdrs, res), u1)"
      by (metis prod.exhaust)
    have "plain_error berr" if "res = Inl berr" for berr using assms(2) r that by (simp add: plain_bifrost_def) (metis fst_conv snd_conv)
    then show ?thesis using assms(1,3) None Inr r
      by (auto simp: ChatCompletionRaw_def empty_response_def chatBifrostErr_plain Let_def split: sum.splits option.splits)
  qed (use assms(1,3) None in \<open>auto simp: ChatCompletionRaw_def Let_def dest: prepareChat_plain\<close>)
qed (use assms(1,3) bound_plain in \<open>auto simp: ChatCompletionRaw_def Let_def\<close>)

lemma stream_plain:
  assumes "client_bifrost c = Some (cl, bf)" "plain_bifrost bf"
  shows "snd (fst (ChatCompletionStreamRaw c ctx call u)) = Inl e \<Longrightarrow> \<not> ResponseWritten (Some e)"
    and "snd (fst (ChatCompletionStreamRaw c ctx call u)) = Inr es \<Longrightarrow> list_all plain_event es"
proof -
  let ?r = "ChatCompletionStreamRaw c ctx call u"
  have "(\<forall>e. snd (fst ?r) = Inl e \<longrightarrow> \<not> ResponseWritten (Some e)) \<and> (\<forall>es. snd (fst ?r) = Inr es \<longrightarrow> list_all plain_event es)"
  proof (cases "ctx = None")
    case False
    show ?thesis
    proof (cases "prepareChat c bf ''router.ChatCompletionStreamRaw'' call")
      case (Inr req)
      obtain hdrs res u1 where r: "bi_stream bf \<lparr>bx_parent = ctx, bx_timeout = 0,
          bx_raw = bifrostUseRawChatBody c (ca_backend call)\<rparr> req u = ((hdrs, res), u1)"
        by (metis prod.exhaust)
      have "plain_error berr" if "res = Inl berr" for berr using assms(2) r that by (simp add: plain_bifrost_def) (metis fst_conv snd_conv)
      moreover have "list_all plain_item items" if "res = Inr items" for items
        using assms(2) r that by (simp add: plain_bifrost_def) (metis fst_conv snd_conv)
      ultimately show ?thesis using assms(1) False Inr r
        by (auto simp: ChatCompletionStreamRaw_def chatBifrostErr_plain stream_events_plain Let_def split: sum.splits)
    qed (use assms(1) False in \<open>auto simp: ChatCompletionStreamRaw_def Let_def dest: prepareChat_plain\<close>)
  qed (use assms(1) in \<open>simp add: ChatCompletionStreamRaw_def Let_def\<close>)
  then show "snd (fst ?r) = Inl e \<Longrightarrow> \<not> ResponseWritten (Some e)" "snd (fst ?r) = Inr es \<Longrightarrow> list_all plain_event es"
    by blast+
qed

lemma embedding_plain:
  assumes "client_bifrost c = Some (cl, bf)" "plain_bifrost bf" "fst (EmbeddingRaw c ctx call u) = Inl e"
  shows "\<not> ResponseWritten (Some e)"
proof (cases "requireCallBound (rt_deadline cl) ctx (ca_timeout call) ''router.EmbeddingRaw''")
  case None
  show ?thesis
  proof (cases "parseEmbeddingInputItems (ca_body call)")
    case (Inr input)
    let ?req = "\<lparr>bm_provider = ca_backend call, bm_model = ca_model call, bm_input = input, bm_raw = ca_body call\<rparr>"
    obtain hdrs res u1 where r: "bi_embed bf \<lparr>bx_parent = ctx, bx_timeout = ca_timeout call, bx_raw = True\<rparr> ?req u = ((hdrs, res), u1)"
      by (metis prod.exhaust)
    have "plain_error berr" if "res = Inl berr" for berr using assms(2) r that by (simp add: plain_bifrost_def) (metis fst_conv snd_conv)
    then show ?thesis using assms(1,3) None Inr r
      by (auto simp: EmbeddingRaw_def empty_response_def mapBifrostErr_def bifrostErr_plain Let_def split: sum.splits option.splits)
  qed (use assms(1,3) None embed_plain in \<open>auto simp: EmbeddingRaw_def Let_def\<close>)
qed (use assms(1,3) bound_plain in \<open>auto simp: EmbeddingRaw_def Let_def\<close>)

lemma router_client_is_plain:
  assumes "\<forall>cl bf. client_bifrost c = Some (cl, bf) \<longrightarrow> plain_bifrost bf"
  shows "plain_client (chat_client_of c)"
proof (cases "client_bifrost c")
  case None
  then show ?thesis
    by (simp add: plain_client_def chat_client_of_def ChatCompletionRaw_def ChatCompletionStreamRaw_def EmbeddingRaw_def
        not_configured_def Let_def)
next
  case (Some p)
  obtain cl bf where p: "client_bifrost c = Some (cl, bf)" using Some by (cases p) simp
  show ?thesis
    using chat_plain [OF p] stream_plain [OF p] embedding_plain [OF p] assms p
    unfolding plain_client_def chat_client_of_def by simp
qed

text \<open>C2: A chat request that runs to its end has sent a status, whatever the client sent, the routing found and
  the provider answered: success, refusal, outage, a broken stream or nothing at all.\<close>

theorem every_chat_request_is_answered:
  assumes "ce_client env = chat_client_of c" and "\<forall>cl bf. client_bifrost c = Some (cl, bf) \<longrightarrow> plain_bifrost bf"
    and "plain_breaker (ce_api env)" and "rw_sent (cw_writer (snd bw)) = None"
    and "\<forall>e. input = Inl e \<longrightarrow> \<not> ResponseWritten (Some e)"
    and "cw_progress (snd (serveChatCompletions env ctx header input bw)) = Done"
  shows "rw_sent (cw_writer (snd (serveChatCompletions env ctx header input bw))) \<noteq> None"
proof (rule chat_request_answered)
  show "plain_client (ce_client env)" unfolding assms(1) by (rule router_client_is_plain) (rule assms(2))
qed (fact assms(3-6))+

text \<open>The caches of Claude are asked for unless the client set its own.\<close>

lemma prompt_cache:
  assumes "client_backend c i = Some b" "AutoPromptCache b" "bq_raw req = None"
  shows "(\<exists>p. bq_params (applyAutoPromptCache c i body req) = Some p \<and> cp_cache_control p) \<or>
    contains body (jq ''cache_control'') \<and> applyAutoPromptCache c i body req = req"
  using assms by (simp add: applyAutoPromptCache_def withAutoPromptCache_def)

section \<open>A run\<close>

text \<open>A provider that answers every call with a 429 and a Retry-After.\<close>

definition busy_error :: bifrost_error where
  "busy_error = \<lparr>be_status = Some 429, be_error = None, be_provider = ''or'', be_raw = RawNil\<rparr>"

definition busy_bifrost :: "(string \<times> string \<times> bytes option) list bifrost" where
  "busy_bifrost =
     \<lparr>bi_messages = (\<lambda>b. Some [''hi'']), bi_params = (\<lambda>b. Some zero_params),
      bi_chat = (\<lambda>bx req u. (([(''retry-after'', ''7'')], Inl busy_error), u @ [(bq_provider req, bq_model req, bq_raw req)])),
      bi_stream = (\<lambda>bx req u. (([(''retry-after'', ''7'')], Inl busy_error), u @ [(bq_provider req, bq_model req, bq_raw req)])),
      bi_embed = (\<lambda>bx req u. (([], Inl busy_error), u @ [(bm_provider req, bm_model req, Some (bm_raw req))]))\<rparr>"

definition busy_client :: "(string \<times> string \<times> bytes option) list router_client option" where
  "busy_client = Some \<lparr>rt_bifrost = Some busy_bifrost, rt_reg = Some (Some sample_gated_config), rt_switchyard = False,
     rt_deadline = (\<lambda>c. False)\<rparr>"

definition busy_env :: "(count_breaker, nat, (string \<times> string \<times> bytes option) list) chat_env" where
  "busy_env =
     \<lparr>ce_api = count_api, ce_clock = (\<lambda>u. int (length u)), ce_registry = Some sample_gated_config,
      ce_client = chat_client_of busy_client, ce_timeouts = DefaultTimeouts, ce_sanitize = (\<lambda>s. s), ce_environ = (\<lambda>_. []),
      ce_dumps = False\<rparr>"

definition busy_world :: "(string \<times> string \<times> bytes option) list chat_world" where
  "busy_world = \<lparr>cw_writer = fresh_writer, cw_faults = [], cw_up = [], cw_sel = None, cw_progress = Done\<rparr>"

definition busy_run :: "count_breaker board option \<times> (string \<times> string \<times> bytes option) list chat_world" where
  "busy_run = serveChatCompletions busy_env \<lparr>ctx_err = None, caller_budget = False\<rparr> [] (Inr gated_chat) (Some NewBoard, busy_world)"

lemma busy_run_done: "cw_progress (snd busy_run) = Done \<and> length (cw_up (snd busy_run)) = 1"
  by code_simp

lemma busy_run_status: "case rw_sent (cw_writer (snd busy_run)) of None \<Rightarrow> False | Some (s, h) \<Rightarrow> s = 429 \<and> header_get h ''Retry-After'' = ''7''"
  by code_simp

lemma busy_facts: "client_bifrost busy_client = Some (the busy_client, busy_bifrost)" "plain_bifrost busy_bifrost" "logs busy_bifrost"
  by (simp_all add: client_bifrost_def busy_client_def plain_bifrost_def busy_bifrost_def plain_error_def busy_error_def error_cause_def
      logs_def)

theorem every_chat_request_is_answered_witness: "rw_sent (cw_writer (snd busy_run)) \<noteq> None"
proof -
  have c: "ce_client busy_env = chat_client_of busy_client" "\<forall>cl bf. client_bifrost busy_client = Some (cl, bf) \<longrightarrow> plain_bifrost bf"
    "plain_breaker (ce_api busy_env)" "rw_sent (cw_writer busy_world) = None"
    using busy_facts log_client_plain(2) by (simp_all add: busy_env_def log_env_def busy_world_def fresh_writer_def)
  show ?thesis
    using every_chat_request_is_answered [OF c(1-3), of "(Some NewBoard, busy_world)" "Inr gated_chat"
        "\<lparr>ctx_err = None, caller_budget = False\<rparr>" "[]", folded busy_run_def] busy_run_done c(4)
    by simp
qed

theorem one_library_call_per_chat_call_witness:
  "snd (cl_chat (chat_client_of busy_client) None
     \<lparr>ca_backend = ''or'', ca_model = ''auto'', ca_body = ''{}'', ca_timeout = 0\<rparr> []) \<in>
   {[], [sent_as busy_client \<lparr>ca_backend = ''or'', ca_model = ''auto'', ca_body = ''{}'', ca_timeout = 0\<rparr>]}"
  using one_library_call_per_chat_call [OF busy_facts(1,3),
      where ctx = None and call = "\<lparr>ca_backend = ''or'', ca_model = ''auto'', ca_body = ''{}'', ca_timeout = 0\<rparr>" and u = "[]"]
  by simp

text \<open>A refusal for a spent budget, and one without.\<close>

theorem provider_refusals_reach_the_client_witness:
  "http_status (Some (chatBifrostErr busy_client ''or'' (Some (busy_error\<lparr>be_status := Some 402\<rparr>)) [])) = 503 \<and>
   http_status (Some (chatBifrostErr busy_client ''or'' (Some (busy_error\<lparr>be_status := Some 404\<rparr>)) [])) = 404 \<and>
   \<not> backendFault None (Some (chatBifrostErr busy_client ''or'' (Some (busy_error\<lparr>be_status := Some 404\<rparr>)) []))"
proof -
  have b: "client_backend busy_client ''or'' = Some sample_gated"
    by (simp add: client_backend_def busy_client_def reg_Backend_def loadCfg_def sample_gated_config_def)
  have e: "\<not> IsCloudflareExtension sample_gated" "\<not> IsAnthropicExtension sample_gated" by code_simp+
  have p: "promised_status busy_client ''or'' x [] s = refusal_status (s = 402 \<or> s \<in> {400, 403} \<and> money_words x) s" for x s
    using b e by (simp add: promised_status_def ProviderSwitchyard_def)
  have a: "be_status (busy_error\<lparr>be_status := Some s\<rparr>) = Some s" "domain_nodes (error_cause (busy_error\<lparr>be_status := Some s\<rparr>)) = []" for s
    by (simp_all add: busy_error_def error_cause_def)
  have r: "refusal_status ((402 :: int) = 402 \<or> Q) 402 = 503"
    "refusal_status ((404 :: int) = 402 \<or> (404 :: int) \<in> {400, 403} \<and> Q) 404 = 404" for Q
    by (simp_all add: refusal_status_def)
  note t = provider_refusals_reach_the_client [OF a(1) _ _ a(2), where i = "''or''" and c = busy_client and h = "[]" and ctx = None]
  have "http_status (Some (chatBifrostErr busy_client ''or'' (Some (busy_error\<lparr>be_status := Some 402\<rparr>)) [])) = 503"
    by (rule trans [OF conjunct1 [OF t]]) (simp_all only: p r, simp_all)
  moreover have "http_status (Some (chatBifrostErr busy_client ''or'' (Some (busy_error\<lparr>be_status := Some 404\<rparr>)) [])) = 404"
    by (rule trans [OF conjunct1 [OF t]]) (simp_all only: p r, simp_all)
  moreover have "\<not> backendFault None (Some (chatBifrostErr busy_client ''or'' (Some (busy_error\<lparr>be_status := Some 404\<rparr>)) []))"
    by (rule conjunct2 [OF t]) simp_all
  ultimately show ?thesis by blast
qed



end
