(* ===== verification/Batch_Http.thy ===== *)
theory Batch_Http
  imports Chat Batch_Service Gateway_Routes Allow_Admin
begin

text \<open>
  The Batches and Files API (\<open>internal/gateway/batch.go\<close>, \<open>files.go\<close>): the handlers between a request
  and the batch service. A handler runs on the state of the service (\<open>Batch_Service\<close>: breakers, store,
  provider, clock, locks) and the response writer; it may panic where a provider's adapter does.
  \<open>hr_ctx\<close> is the context of the request at its successive uses, so that a client may leave between two
  of them. \<open>ParseMultipartForm\<close> is a parameter, the form it fills is a record. Log lines and spans are
  not modelled. The properties follow a request to the provider and to the store: what a create submits
  was uploaded, routed and admitted, an answered batch is a record of the store, an uploaded file is
  downloaded unchanged.
\<close>

section \<open>Requests and replies\<close>

record api_request = in_request +
  hr_body :: "goerr + bytes"
  hr_ctx :: "nat \<Rightarrow> go_context"

record upload_part =
  pt_filename :: string
  pt_open :: "goerr option"
  pt_bytes :: bytes
  pt_end :: "goerr option"

record upload_form =
  uf_values :: "string list gomap"
  uf_files :: "upload_part list gomap"

record ('b, 'r, 'u) batches_env =
  be_registry :: registry
  be_service :: "('b, 'r, 'u) service"
  be_timeouts :: timeouts
  be_multipart :: "nat \<Rightarrow> api_request \<Rightarrow> goerr + upload_form"

type_synonym ('b, 'u) http_state = "('b, 'u) svc_state \<times> reply_writer"

definition answer :: "(reply_writer \<Rightarrow> reply_writer) \<Rightarrow> ('b, 'u) http_state \<Rightarrow> unit run \<times> ('b, 'u) http_state" where
  "answer f s = (Returns (), (fst s, f (snd s)))"

definition refuse_with :: "goerr \<Rightarrow> ('b, 'u) http_state \<Rightarrow> unit run \<times> ('b, 'u) http_state" where
  "refuse_with e = answer (writeHandlerError (Some e))"

text \<open>A call of the store from a handler.\<close>

definition on_world :: "('u world \<Rightarrow> 'x \<times> 'u world) \<Rightarrow> ('b, 'u) http_state \<Rightarrow> 'x \<times> ('b, 'u) http_state" where
  "on_world f s = (case s of ((bd, w), wr) \<Rightarrow> case f w of (x, w') \<Rightarrow> (x, ((bd, w'), wr)))"

definition TimeoutHeader :: string where "TimeoutHeader = ''X-Polypus-Timeout''"

section \<open>Texts\<close>

definition marshal_counts :: "request_counts \<Rightarrow> string" where
  "marshal_counts c = json_members
     [(True, ''total'', itoa (rq_total c)), (True, ''completed'', itoa (rq_completed c)),
      (True, ''failed'', itoa (rq_failed c))]"

definition text_member :: "string \<Rightarrow> string \<Rightarrow> bool \<times> string \<times> string" where
  "text_member k v = (True, k, json_quote v)"

definition opt_text :: "string \<Rightarrow> string \<Rightarrow> bool \<times> string \<times> string" where
  "opt_text k v = (v \<noteq> [], k, json_quote v)"

definition opt_int :: "string \<Rightarrow> int \<Rightarrow> bool \<times> string \<times> string" where
  "opt_int k v = (v \<noteq> 0, k, itoa v)"

definition marshal_public_batch :: "public_batch \<Rightarrow> string" where
  "marshal_public_batch b = json_members
     [text_member ''id'' (pb_id b), text_member ''object'' (pb_object b), text_member ''endpoint'' (pb_endpoint b),
      text_member ''input_file_id'' (pb_input_file_id b), opt_text ''output_file_id'' (pb_output_file_id b),
      opt_text ''error_file_id'' (pb_error_file_id b), text_member ''completion_window'' (pb_completion_window b),
      text_member ''status'' (status_name (pb_status b)), (True, ''request_counts'', marshal_counts (pb_request_counts b)),
      (True, ''created_at'', itoa (pb_created_at b)), opt_int ''in_progress_at'' (pb_in_progress_at b),
      opt_int ''completed_at'' (pb_completed_at b), opt_int ''failed_at'' (pb_failed_at b),
      opt_int ''cancelled_at'' (pb_cancelled_at b), opt_int ''expires_at'' (pb_expires_at b)]"

definition marshal_meta :: "meta \<Rightarrow> string" where
  "marshal_meta m = json_members
     [text_member ''id'' (m_id m), text_member ''object'' (m_object m), text_member ''endpoint'' (m_endpoint m),
      text_member ''input_file_id'' (m_input_file_id m), opt_text ''output_file_id'' (m_output_file_id m),
      opt_text ''error_file_id'' (m_error_file_id m), text_member ''completion_window'' (m_completion_window m),
      text_member ''status'' (status_name (m_status m)), text_member ''backend_id'' (m_backend_id m),
      text_member ''public_model'' (m_public_model m), text_member ''cf_model'' (m_cf_model m),
      text_member ''cf_request_id'' (m_cf_request_id m), opt_text ''upstream_batch_id'' (m_upstream_batch_id m),
      (True, ''request_counts'', marshal_counts (m_request_counts m)),
      (True, ''created_at'', itoa (m_created_at m)), opt_int ''in_progress_at'' (m_in_progress_at m),
      opt_int ''completed_at'' (m_completed_at m), opt_int ''failed_at'' (m_failed_at m),
      opt_int ''cancelled_at'' (m_cancelled_at m), opt_int ''expires_at'' (m_expires_at m)]"

definition marshal_file_record :: "file_record \<Rightarrow> string" where
  "marshal_file_record r = json_members
     [text_member ''id'' (fr_id r), text_member ''object'' (fr_object r), (True, ''bytes'', itoa (fr_bytes r)),
      (True, ''created_at'', itoa (fr_created_at r)), text_member ''filename'' (fr_filename r),
      text_member ''purpose'' (fr_purpose r), text_member ''status'' (fr_status r)]"

text \<open>The bytes of a stored file. The store keeps the records it marshals as values (\<open>Batch_Store\<close>).\<close>

fun entry_bytes :: "entry \<Rightarrow> bytes" where
  "entry_bytes (Raw b) = b"
| "entry_bytes (FileMeta r) = marshal_file_record r"
| "entry_bytes (BatchMeta m) = marshal_meta m"

definition reply_batch :: "meta \<Rightarrow> reply_writer \<Rightarrow> reply_writer" where
  "reply_batch m = writeJSON 200 (Some (marshal_public_batch (Public m)))"

definition objectList :: string where "objectList = ''list''"

definition marshal_batch_list :: "meta list \<Rightarrow> string" where
  "marshal_batch_list ms = json_members
     [text_member ''object'' objectList,
      (True, ''data'', ''['' @ join '','' (map (\<lambda>m. marshal_public_batch (Public m)) ms) @ '']'')]"

section \<open>Creating a batch\<close>

definition batchCreateMaxBody :: nat where "batchCreateMaxBody = 65536"

record create_batch_request =
  cq_input_file_id :: string
  cq_endpoint :: string
  cq_completion_window :: string

definition create_batch_fields :: "create_batch_request field_decoder list" where
  "create_batch_fields =
     [(''input_file_id'', \<lambda>raw v s. map_option (\<lambda>t. s\<lparr>cq_input_file_id := t\<rparr>) (dec_string (cq_input_file_id s) v)),
      (''endpoint'', \<lambda>raw v s. map_option (\<lambda>t. s\<lparr>cq_endpoint := t\<rparr>) (dec_string (cq_endpoint s) v)),
      (''completion_window'',
        \<lambda>raw v s. map_option (\<lambda>t. s\<lparr>cq_completion_window := t\<rparr>) (dec_string (cq_completion_window s) v))]"

definition zero_create :: create_batch_request where
  "zero_create = \<lparr>cq_input_file_id = [], cq_endpoint = [], cq_completion_window = []\<rparr>"

text \<open>The context of a call to the provider and its deadline.\<close>

definition batchHopContext ::
  "('b, 'r, 'u) batches_env \<Rightarrow> go_context \<Rightarrow> string \<Rightarrow> string \<Rightarrow> go_context \<times> int" where
  "batchHopContext env ctx timeoutHeader backendID =
     (let hop = hopBudget (ResolveChat (be_timeouts env) timeoutHeader backendID ChatPlain) (t_chat DefaultTimeouts);
          configured = hopBudget (ResolveChat (be_timeouts env) [] backendID ChatPlain) (t_chat DefaultTimeouts)
      in (callerBudget ctx hop configured, hop))"

definition hop_ctx :: "('b, 'r, 'u) batches_env \<Rightarrow> api_request \<Rightarrow> string \<Rightarrow> go_context option" where
  "hop_ctx env r backendID =
     Some (fst (batchHopContext env (hr_ctx r 1) (header_get (in_header r) TimeoutHeader) backendID))"

definition dial_failed :: "goerr option \<Rightarrow> string \<Rightarrow> ('b, 'u) http_state \<Rightarrow> unit run \<times> ('b, 'u) http_state" where
  "dial_failed e backendID =
     answer (writeUpstreamDialError \<lparr>df_err = e, df_prefix = [], df_upstream = backendID, df_unreachable = None\<rparr>)"

text \<open>From the parsed input on.\<close>

definition create_parsed ::
  "('b, 'r, 'u) batches_env \<Rightarrow> api_request \<Rightarrow> create_batch_request \<Rightarrow> string \<Rightarrow> parsed_input \<Rightarrow>
   ('b, 'u) http_state \<Rightarrow> unit run \<times> ('b, 'u) http_state" where
  "create_parsed env r req inputID parsed s =
     (let op = ''gateway.serveBatchCreate''; reg = be_registry env
      in case reg_ResolveBatch reg (pi_model parsed) of
           Inl e \<Rightarrow> refuse_with (resolve_err e op ''resolve backend'') s
         | Inr (backendID, downstream) \<Rightarrow>
             let publicModel =
                   (if CHR ''/'' \<in> set (pi_model parsed) then pi_model parsed else prefixModelID backendID downstream)
             in if \<not> ensureModelAllowed reg backendID publicModel then answer (writeModelNotAllowed publicModel) s
                else case reg_Backend reg backendID of
                  None \<Rightarrow> refuse_with (errBackendNotFound op backendID) s
                | Some backend \<Rightarrow>
                    (case Create (be_service env) (hop_ctx env r backendID)
                            \<lparr>cr_backend = backend, cr_public_model = publicModel, cr_input_file_id = inputID,
                             cr_completion_window = cq_completion_window req,
                             cr_job = \<lparr>jb_downstream = downstream, jb_endpoint = cq_endpoint req, jb_lines = pi_lines parsed\<rparr>\<rparr>
                            (fst s) of
                       (Panics, st) \<Rightarrow> (Panics, (st, snd s))
                     | (Returns (_, Some e), st) \<Rightarrow> dial_failed (Some e) backendID (st, snd s)
                     | (Returns (m, None), st) \<Rightarrow> answer (reply_batch m) (st, snd s)))"

definition serveBatchCreate ::
  "('b, 'r, 'u) batches_env \<Rightarrow> api_request \<Rightarrow> ('b, 'u) http_state \<Rightarrow> unit run \<times> ('b, 'u) http_state" where
  "serveBatchCreate env r s =
     (let op = ''gateway.serveBatchCreate''
      in if EffectiveBatchBackend (loadCfg (Some (be_registry env))) = []
         then refuse_with (DomainErr (err_new CodeNotReady op ''no batch backend configured'')) s
         else case read_request batchCreateMaxBody (hr_body r) of
           Inl e \<Rightarrow> refuse_with (DomainErr (err_wrap (Some e) CodeInvalid op ''read body'')) s
         | Inr body \<Rightarrow>
             (case unmarshal create_batch_fields zero_create body of
                None \<Rightarrow> refuse_with (DomainErr (err_wrap (Some json_error) CodeInvalid op ''parse json'')) s
              | Some req0 \<Rightarrow>
                  let req = (if trim_space (cq_completion_window req0) = [] then req0\<lparr>cq_completion_window := ''24h''\<rparr> else req0);
                      inputID = trim_space (cq_input_file_id req)
                  in if inputID = [] then refuse_with (DomainErr (err_new CodeInvalid op ''input_file_id required'')) s
                     else case on_world (store_call False (\<lambda>env. ReadFileContent (Some (hr_ctx r 0)) inputID)) s of
                       (Inl e, s1) \<Rightarrow> refuse_with e s1
                     | (Inr raw, s1) \<Rightarrow>
                         (case ParseBatchJSONL (entry_bytes raw) (cq_endpoint req) of
                            Inl e \<Rightarrow> refuse_with (DomainErr e) s1
                          | Inr parsed \<Rightarrow> create_parsed env r req inputID parsed s1)))"

section \<open>Reading and cancelling batches\<close>

definition isBatchRefreshMiss :: "goerr option \<Rightarrow> bool" where
  "isBatchRefreshMiss err \<longleftrightarrow>
     err \<noteq> None \<and>
     (is_code err CodeUnavailable \<or> is_code err CodeTimeout \<or> is_code err CodeRateLimited \<or> Unavailable err)"

definition get_batch ::
  "api_request \<Rightarrow> string \<Rightarrow> ('b, 'u) http_state \<Rightarrow> (goerr + meta) \<times> ('b, 'u) http_state" where
  "get_batch r i = on_world (store_call False (\<lambda>env. GetBatch (Some (hr_ctx r 0)) i))"

definition serveBatchRetrieve ::
  "('b, 'r, 'u) batches_env \<Rightarrow> api_request \<Rightarrow> string \<Rightarrow> ('b, 'u) http_state \<Rightarrow> unit run \<times> ('b, 'u) http_state" where
  "serveBatchRetrieve env r i s =
     (case get_batch r i s of
        (Inl e, s1) \<Rightarrow> refuse_with e s1
      | (Inr m, s1) \<Rightarrow>
          let found = reg_Backend (be_registry env) (m_backend_id m)
          in if found = None \<and> \<not> Terminal (m_status m)
             then refuse_with (errBackendNotFound ''gateway.serveBatchRetrieve'' (m_backend_id m)) s1
             else case Refresh (be_service env) (hop_ctx env r (m_backend_id m))
                         (case found of None \<Rightarrow> zero_backend | Some b \<Rightarrow> b) m (fst s1) of
               (Panics, st) \<Rightarrow> (Panics, (st, snd s1))
             | (Returns (_, Some e), st) \<Rightarrow>
                 if isBatchRefreshMiss (Some e) then answer (reply_batch m) (st, snd s1)
                 else refuse_with e (st, snd s1)
             | (Returns (updated, None), st) \<Rightarrow> answer (reply_batch updated) (st, snd s1))"

definition serveBatchList ::
  "('b, 'r, 'u) batches_env \<Rightarrow> api_request \<Rightarrow> ('b, 'u) http_state \<Rightarrow> unit run \<times> ('b, 'u) http_state" where
  "serveBatchList env r s =
     (case on_world (store_call False (\<lambda>env. ListBatches (\<lambda>k. Some (hr_ctx r k)))) s of
        (Inl e, s1) \<Rightarrow> refuse_with e s1
      | (Inr items, s1) \<Rightarrow> answer (writeJSON 200 (Some (marshal_batch_list items))) s1)"

definition serveBatchCancel ::
  "('b, 'r, 'u) batches_env \<Rightarrow> api_request \<Rightarrow> string \<Rightarrow> ('b, 'u) http_state \<Rightarrow> unit run \<times> ('b, 'u) http_state" where
  "serveBatchCancel env r i s =
     (case get_batch r i s of
        (Inl e, s1) \<Rightarrow> refuse_with e s1
      | (Inr m, s1) \<Rightarrow>
          (case reg_Backend (be_registry env) (m_backend_id m) of
             None \<Rightarrow> refuse_with (errBackendNotFound ''gateway.serveBatchCancel'' (m_backend_id m)) s1
           | Some backend \<Rightarrow>
               (case Cancel (be_service env) (hop_ctx env r (m_backend_id m)) backend m (fst s1) of
                  ((_, Some e), st) \<Rightarrow> dial_failed (Some e) (m_backend_id m) (st, snd s1)
                | ((updated, None), st) \<Rightarrow> answer (reply_batch updated) (st, snd s1))))"

definition serveBatches ::
  "('b, 'r, 'u) batches_env \<Rightarrow> api_request \<Rightarrow> ('b, 'u) http_state \<Rightarrow> unit run \<times> ('b, 'u) http_state" where
  "serveBatches env r =
     (if in_method r = ''POST'' then serveBatchCreate env r
      else if in_method r = ''GET'' then serveBatchList env r
      else answer (writeMethodNotAllowed [''GET'', ''POST'']))"

definition serveBatchByID ::
  "('b, 'r, 'u) batches_env \<Rightarrow> api_request \<Rightarrow> ('b, 'u) http_state \<Rightarrow> unit run \<times> ('b, 'u) http_state" where
  "serveBatchByID env r =
     (let path = trim_char (CHR ''/'') (trim_prefix (in_path r) pathBatchesPrefix)
      in if has_suffix path ''/cancel'' then
           (let i = trim_char (CHR ''/'') (trim_suffix path ''/cancel'')
            in if in_method r = ''POST'' then serveBatchCancel env r i
               else answer (writeMethodNotAllowed [''POST'']))
         else if in_method r \<noteq> ''GET'' then answer (writeMethodNotAllowed [''GET''])
         else serveBatchRetrieve env r path)"

section \<open>Files\<close>

definition batchMaxInputBytes :: nat where "batchMaxInputBytes = 10485760"

definition form_value :: "string \<Rightarrow> upload_form \<Rightarrow> string" where
  "form_value k f = (case map_of (uf_values f) k of Some (v # _) \<Rightarrow> v | _ \<Rightarrow> [])"

definition form_file :: "string \<Rightarrow> upload_form \<Rightarrow> goerr + upload_part" where
  "form_file k f =
     (case map_of (uf_files f) k of
        Some (p # _) \<Rightarrow> (case pt_open p of Some e \<Rightarrow> Inl e | None \<Rightarrow> Inr p)
      | _ \<Rightarrow> Inl (Leaf ''http: no such file''))"

text \<open>\<open>io.ReadAll\<close> of \<open>io.LimitReader\<close>: an error past the limit is not seen.\<close>

definition read_limited :: "nat \<Rightarrow> upload_part \<Rightarrow> goerr + bytes" where
  "read_limited n p =
     (if n \<le> length (pt_bytes p) then Inr (take n (pt_bytes p))
      else case pt_end p of Some e \<Rightarrow> Inl e | None \<Rightarrow> Inr (pt_bytes p))"

definition upload_content :: "upload_form \<Rightarrow> goerr + upload_part \<times> bytes" where
  "upload_content form =
     (let op = ''gateway.serveFileUpload''; bad = (\<lambda>e msg. Inl (DomainErr (err_wrap e CodeInvalid op msg)))
      in if trim_space (form_value ''purpose'' form) \<noteq> FilePurposeBatch
         then Inl (DomainErr (err_new CodeInvalid op ''purpose must be batch''))
         else case form_file ''file'' form of
           Inl e \<Rightarrow> bad (Some e) ''file required''
         | Inr p \<Rightarrow>
             (case read_limited (batchMaxInputBytes + 1) p of
                Inl e \<Rightarrow> bad (Some e) ''read file''
              | Inr content \<Rightarrow>
                  if batchMaxInputBytes < length content
                  then Inl (DomainErr (with_field (err_new CodeInvalid op ''file exceeds the batch input limit'')
                         ''limit_bytes'' (itoa (int batchMaxInputBytes))))
                  else Inr (p, content)))"

definition serveFileUpload ::
  "('b, 'r, 'u) batches_env \<Rightarrow> api_request \<Rightarrow> ('b, 'u) http_state \<Rightarrow> unit run \<times> ('b, 'u) http_state" where
  "serveFileUpload env r s =
     (case be_multipart env (batchMaxInputBytes + 1048576) r of
        Inl e \<Rightarrow> refuse_with (DomainErr (err_wrap (Some e) CodeInvalid ''gateway.serveFileUpload'' ''multipart'')) s
      | Inr form \<Rightarrow>
          (case upload_content form of
             Inl e \<Rightarrow> refuse_with e s
           | Inr (p, content) \<Rightarrow>
               let filename = (if trim_space (pt_filename p) \<noteq> [] then pt_filename p else ''batch.jsonl'');
                   rec0 = zero_file\<lparr>fr_filename := filename, fr_purpose := FilePurposeBatch\<rparr>
               in case on_world (store_call False (\<lambda>env. SaveFile env (Some (hr_ctx r 0)) (Some rec0) content)) s of
                    ((Some e, _), s1) \<Rightarrow> refuse_with e s1
                  | ((None, saved), s1) \<Rightarrow>
                      answer (writeJSON 200 (Some (case saved of None \<Rightarrow> ''null'' | Some rec \<Rightarrow> marshal_file_record rec))) s1))"

definition serveFileRetrieve ::
  "api_request \<Rightarrow> string \<Rightarrow> ('b, 'u) http_state \<Rightarrow> unit run \<times> ('b, 'u) http_state" where
  "serveFileRetrieve r i s =
     (case on_world (store_call False (\<lambda>env. GetFile (Some (hr_ctx r 0)) i)) s of
        (Inl e, s1) \<Rightarrow> refuse_with e s1
      | (Inr rec, s1) \<Rightarrow> answer (writeJSON 200 (Some (marshal_file_record rec))) s1)"

definition reply_content :: "bytes \<Rightarrow> reply_writer \<Rightarrow> reply_writer" where
  "reply_content b w =
     write_bytes b (write_header 200
       (set_header ''X-Content-Type-Options'' ''nosniff'' (set_header ''Content-Type'' ''application/jsonl'' w)))"

definition serveFileContent ::
  "api_request \<Rightarrow> string \<Rightarrow> ('b, 'u) http_state \<Rightarrow> unit run \<times> ('b, 'u) http_state" where
  "serveFileContent r i s =
     (case on_world (store_call False (\<lambda>env. ReadFileContent (Some (hr_ctx r 0)) i)) s of
        (Inl e, s1) \<Rightarrow> refuse_with e s1
      | (Inr content, s1) \<Rightarrow> answer (reply_content (entry_bytes content)) s1)"

definition marshal_deleted :: "string \<Rightarrow> string" where
  "marshal_deleted i = json_members
     [text_member ''id'' i, text_member ''object'' ''file'', (True, ''deleted'', ''true'')]"

definition serveFileDelete ::
  "api_request \<Rightarrow> string \<Rightarrow> ('b, 'u) http_state \<Rightarrow> unit run \<times> ('b, 'u) http_state" where
  "serveFileDelete r i s =
     (case on_world (store_call False (\<lambda>env. DeleteFile env (Some (hr_ctx r 0)) i)) s of
        (Some e, s1) \<Rightarrow> refuse_with e s1
      | (None, s1) \<Rightarrow> answer (writeJSON 200 (Some (marshal_deleted i))) s1)"

definition serveFiles ::
  "('b, 'r, 'u) batches_env \<Rightarrow> api_request \<Rightarrow> ('b, 'u) http_state \<Rightarrow> unit run \<times> ('b, 'u) http_state" where
  "serveFiles env r =
     (if in_path r = pathFiles then
        (if in_method r = ''POST'' then serveFileUpload env r else answer (writeMethodNotAllowed [''POST'']))
      else let path = trim_char (CHR ''/'') (trim_prefix (in_path r) pathFilesPrefix)
           in if path = [] then answer writeNotFound
              else if has_suffix path ''/content'' then
                (let i = trim_char (CHR ''/'') (trim_suffix path ''/content'')
                 in if in_method r = ''GET'' then serveFileContent r i else answer (writeMethodNotAllowed [''GET'']))
              else if in_method r = ''GET'' then serveFileRetrieve r path
              else if in_method r = ''DELETE'' then serveFileDelete r path
              else answer (writeMethodNotAllowed [''GET'', ''DELETE'']))"

section \<open>What the error replies say\<close>

lemma write_json_status: "rw_sent w = None \<Longrightarrow> \<exists>h. rw_sent (writeJSON s (Some raw) w) = Some (s, h)"
  by (simp add: writeJSON_fresh Let_def)

lemma write_json_status':
  "rw_sent w = None \<Longrightarrow> rw_sent (writeJSON s (Some raw) w) = Some (t, h) \<Longrightarrow> t = s"
  by (auto dest: write_json_status [of w s raw])

lemma error_status:
  assumes "rw_sent w = None"
  shows "rw_sent (writeHandlerError (Some e) w) \<noteq> Some (200, h)"
    and "rw_sent (writeUpstreamDialError \<lparr>df_err = Some e, df_prefix = p, df_upstream = u, df_unreachable = None\<rparr> w) \<noteq> Some (200, h)"
  using assms http_status_error [of "Some e"]
  by (auto simp: writeHandlerError_def writeUpstreamDialError_def writeErrorJSON_def writeUnavailableError_def
      writeRateLimitError_def Let_def dest!: write_json_status' [rotated] split: if_splits)

lemma answer_sel [simp]: "answer f s = (r, s') \<longleftrightarrow> r = Returns () \<and> s' = (fst s, f (snd s))"
  by (auto simp: answer_def)

text \<open>A handler that refuses says nothing of a 200.\<close>

lemma refused_status:
  assumes "rw_sent wr = None" and "rw_sent wr' = Some (200, h)"
  shows "refuse_with e (st, wr) \<noteq> (res, (st', wr'))" and "dial_failed (Some e) u (st, wr) \<noteq> (res, (st', wr'))"
  using error_status [OF assms(1)] assms(2) by (auto simp: refuse_with_def dial_failed_def)

lemma method_status:
  assumes "rw_sent wr = None"
  shows "rw_sent (writeMethodNotAllowed ms wr) \<noteq> Some (200, h)" "rw_sent (writeModelNotAllowed m wr) \<noteq> Some (200, h)"
    "rw_sent (writeNotFound wr) \<noteq> Some (200, h)"
  using assms by (auto simp: writeMethodNotAllowed_def writeModelNotAllowed_def writeNotFound_def writeOpenAIError_def
      dest!: write_json_status' [rotated])

lemma writeJSON_body: "rw_sent w = None \<Longrightarrow> rw_body (writeJSON s (Some raw) w) = rw_body w @ raw @ ''\<newline>''"
  by (simp add: writeJSON_fresh Let_def)

section \<open>What the store answers\<close>

lemma on_store_world:
  assumes "on_world (store_call False f) ((bd, w), wr) = (x, s1)"
  obtains env w1 where "s1 = ((bd, w1), wr)" "w_up w1 = w_up w" "f env (w_store w) = (x, w_store w1)"
  using assms by (cases "f (w_locks w (w_lockno w)) (w_store w)") (auto simp: on_world_def store_call_def Let_def)

lemma get_batch_stored:
  assumes "get_batch r i ((bd, w), wr) = (x, s1)"
  obtains w1 where "s1 = ((bd, w1), wr)" "\<forall>m. x = Inr m \<longrightarrow> stored (w_store w) m"
proof -
  obtain env w1 where g: "s1 = ((bd, w1), wr)" "GetBatch (Some (hr_ctx r 0)) i (w_store w) = (x, w_store w1)"
    using assms unfolding get_batch_def by (rule on_store_world) auto
  have "stored (w_store w) m" if "x = Inr m" for m
  proof (cases "w_store w")
    case None
    with g that show ?thesis by (simp add: GetBatch_def on_store_def)
  next
    case (Some s)
    from GetBatch_facts [OF g(2) [unfolded Some]] that Some show ?thesis by (auto simp: stored_def)
  qed
  with g(1) that show ?thesis by blast
qed

lemma read_content_facts:
  assumes "ReadFileContent ctx i st = (Inr raw, st')"
  shows "\<exists>s. st = Some s \<and> st_look s (file_content_path (trim_space i)) = Some raw"
proof (cases st)
  case None
  with assms show ?thesis by (simp add: ReadFileContent_def on_store_def Let_def)
next
  case (Some s)
  obtain x s1 where x: "read_entry (file_content_path (trim_space i)) s = (x, s1)" by (rule prod.exhaust)
  from read_entry_facts [OF x] assms Some x checkID_chars show ?thesis
    by (auto simp: ReadFileContent_def on_store_def Let_def split: option.splits sum.splits)
qed

text \<open>The listing holds records of the store.\<close>

lemma list_loop_stored:
  assumes "each_batch_loop op
      (\<lambda>m (out, k, ctxErr). case readable (ctxs k) op of
          Some e \<Rightarrow> ((out, Suc k, Some e), False)
        | None \<Rightarrow> ((out @ [m], Suc k, None), True)) is (out, k, c) s = ((e, (out', k', c')), s')"
    and "\<forall>m \<in> set out. \<exists>i. st_look s0 (batch_path i) = Some (BatchMeta m)"
    and "\<forall>q. st_look s q = st_look s0 q"
  shows "(\<forall>m \<in> set out'. \<exists>i. st_look s0 (batch_path i) = Some (BatchMeta m)) \<and> (\<forall>q. st_look s' q = st_look s0 q)"
  using assms
proof (induction "is" arbitrary: out k c s)
  case (Cons i "is")
  obtain x s1 where r: "readBatchMetaUnlocked i s = (x, s1)" by fastforce
  note f = readBatchMeta_facts [OF r]
  have l: "\<forall>q. st_look s1 q = st_look s0 q" using f Cons.prems(3) st_look_same [of s1 s] by simp
  show ?case
  proof (cases x)
    case (Inl e1)
    with Cons.prems r l Cons.IH [OF _ Cons.prems(2) l] show ?thesis by (auto split: if_splits)
  next
    case (Inr m)
    with f Cons.prems(3) have m: "\<exists>i. st_look s0 (batch_path i) = Some (BatchMeta m)" by auto
    show ?thesis
    proof (cases "readable (ctxs k) op")
      case None
      with Cons.prems(1) r Inr show ?thesis
        by (intro Cons.IH [of "out @ [m]" "Suc k" None s1]) (use Cons.prems(2) m l in auto)
    next
      case (Some e1)
      with Cons.prems r Inr l show ?thesis by auto
    qed
  qed
qed auto

lemma list_batches_stored:
  assumes "ListBatches ctxs (Some s) = (Inr ms, s'')"
  shows "\<forall>m \<in> set ms. stored (Some s) m"
proof -
  let ?op = "''batch.ListBatches''"
  let ?fn = "\<lambda>m (out, k, ctxErr). case readable (ctxs k) ?op of
      Some e \<Rightarrow> ((out, Suc k, Some e), False) | None \<Rightarrow> ((out @ [m], Suc k, None), True)"
  obtain e a s1 where e0: "eachBatchUnlocked ?op ?fn ([], 1, None) s = ((e, a), s1)"
    by (rule pair_left)
  obtain out k c1 where a: "a = (out, (k, c1))" by (rule prod_cases3)
  note e = e0 [unfolded a]
  have ready: "readable (ctxs 0) ?op = None"
    using assms by (cases "readable (ctxs 0) ?op") (simp_all add: ListBatches_def on_store_def Let_def)
  have out: "out = ms"
    using assms by (cases e; cases c1) (simp_all add: ListBatches_def on_store_def Let_def ready e del: One_nat_def)
  obtain x s2 where c: "st_call s = (x, s2)" by fastforce
  have l: "\<forall>q. st_look s2 q = st_look s q" using st_call_facts [OF c] st_look_same [of s2 s] by simp
  have "\<forall>m \<in> set out. \<exists>i. st_look s (batch_path i) = Some (BatchMeta m)"
  proof (cases x)
    case None
    then have "each_batch_loop ?op ?fn (batch_ids s2) ([], 1, None) s2 = ((e, (out, k, c1)), s1)"
      using e c by (simp add: eachBatchUnlocked_def)
    from list_loop_stored [OF this, of s] l show ?thesis by simp
  next
    case (Some e1)
    then have "out = []" using e c by (simp add: eachBatchUnlocked_def split: if_splits)
    then show ?thesis by simp
  qed
  with out show ?thesis by (simp add: stored_def)
qed

section \<open>What the service answers\<close>

lemma Cancel_stored:
  assumes "Cancel svc ctx backend m (bd, w) = ((m', None), (bd', w'))"
  shows "m' = m \<or> stored (w_store w') m'"
proof -
  have s: "stored (w_store w2) m1" if "svc_save True c opCancel m1 (bd1, w1) = (None, (bd2, w2))" for c m1 bd1 w1 bd2 w2
    using svc_save_facts [OF that] by simp
  show ?thesis
    using assms by (auto simp: Cancel_def Let_def dest!: s split: if_splits sum.splits prod.splits option.splits)
qed

lemma Create_stored:
  assumes "Create svc ctx req (bd, w) = (Returns (m', None), (bd', w'))"
  shows "stored (w_store w') m'"
proof (cases "sv_submitter svc (cr_backend req)")
  case (Inl e)
  with assms show ?thesis by (auto simp: Create_def Let_def split: if_splits)
next
  case (Inr sub)
  from Create_facts [OF assms Inr] show ?thesis by auto
qed
section \<open>Batches are shown as they are stored\<close>

lemma create_parsed_shows:
  assumes "create_parsed env r req i p ((bd, w), wr) = (res, ((bd', w'), wr'))"
    and "rw_sent wr = None" "rw_sent wr' = Some (200, h)"
  shows "\<exists>m. wr' = reply_batch m wr \<and> stored (w_store w') m"
proof (cases "reg_ResolveBatch (be_registry env) (pi_model p)")
  case (Inl e)
  with assms show ?thesis by (simp add: create_parsed_def refused_status [OF assms(2,3)])
next
  case (Inr bd0)
  obtain b d where bd: "bd0 = (b, d)" by fastforce
  let ?m = "if CHR ''/'' \<in> set (pi_model p) then pi_model p else prefixModelID b d"
  show ?thesis
  proof (cases "ensureModelAllowed (be_registry env) b ?m \<and> reg_Backend (be_registry env) b \<noteq> None")
    case False
    with assms method_status [OF assms(2)] Inr bd show ?thesis
      by (cases "reg_Backend (be_registry env) b")
        (auto simp: create_parsed_def Let_def refused_status [OF assms(2,3)] split: if_splits)
  next
    case True
    then obtain bk where bk: "reg_Backend (be_registry env) b = Some bk" by blast
    let ?req = "\<lparr>cr_backend = bk, cr_public_model = ?m, cr_input_file_id = i, cr_completion_window = cq_completion_window req,
       cr_job = \<lparr>jb_downstream = d, jb_endpoint = cq_endpoint req, jb_lines = pi_lines p\<rparr>\<rparr>"
    obtain q bd1 w1 where c: "Create (be_service env) (hop_ctx env r b) ?req (bd, w) = (q, (bd1, w1))" by (rule pair_right)
    have run: "create_parsed env r req i p ((bd, w), wr) =
        (case q of Panics \<Rightarrow> (Panics, ((bd1, w1), wr))
         | Returns (_, Some e) \<Rightarrow> dial_failed (Some e) b ((bd1, w1), wr)
         | Returns (m, None) \<Rightarrow> answer (reply_batch m) ((bd1, w1), wr))"
      using True bk c Inr bd by (simp add: create_parsed_def Let_def split: run.splits option.splits prod.splits)
    show ?thesis
    proof (cases q)
      case Panics
      with assms run show ?thesis by simp
    next
      case (Returns y)
      obtain m e where y: "y = (m, e)" by fastforce
      with assms run Returns Create_stored [of "be_service env" "hop_ctx env r b" ?req bd w m bd1 w1] c show ?thesis
        by (cases e) (auto simp: refused_status [OF assms(2,3)])
    qed
  qed
qed

lemma serveBatchCreate_cases:
  assumes "serveBatchCreate env r ((bd, w), wr) = (res, ((bd', w'), wr'))"
  obtains e w1 where "refuse_with e ((bd, w1), wr) = (res, ((bd', w'), wr'))" "w_up w1 = w_up w"
  | req raw p w1 where "create_parsed env r req (trim_space (cq_input_file_id req)) p ((bd, w1), wr) = (res, ((bd', w'), wr'))"
      "w_up w1 = w_up w" "ParseBatchJSONL (entry_bytes raw) (cq_endpoint req) = Inr p"
      "\<exists>s. w_store w = Some s \<and> st_look s (file_content_path (trim_space (cq_input_file_id req))) = Some raw"
proof -
  note r = that(1)
  show ?thesis
  proof (cases "EffectiveBatchBackend (loadCfg (Some (be_registry env))) = []")
    case True
    with assms r [of _ w] show ?thesis by (simp add: serveBatchCreate_def)
  next
    case slot: False
    show ?thesis
    proof (cases "read_request batchCreateMaxBody (hr_body r)")
      case (Inl e)
      with assms slot r [of _ w] show ?thesis by (simp add: serveBatchCreate_def)
    next
      case body: (Inr body)
      show ?thesis
      proof (cases "unmarshal create_batch_fields zero_create body")
        case None
        with assms slot body r [of _ w] show ?thesis by (simp add: serveBatchCreate_def)
      next
        case (Some req0)
        define req where "req = (if trim_space (cq_completion_window req0) = [] then req0\<lparr>cq_completion_window := ''24h''\<rparr> else req0)"
        let ?i = "trim_space (cq_input_file_id req)"
        have run: "serveBatchCreate env r ((bd, w), wr) =
          (if ?i = [] then refuse_with (DomainErr (err_new CodeInvalid ''gateway.serveBatchCreate'' ''input_file_id required'')) ((bd, w), wr)
           else case on_world (store_call False (\<lambda>env. ReadFileContent (Some (hr_ctx r 0)) ?i)) ((bd, w), wr) of
               (Inl e, s1) \<Rightarrow> refuse_with e s1
             | (Inr raw, s1) \<Rightarrow>
                 (case ParseBatchJSONL (entry_bytes raw) (cq_endpoint req) of
                    Inl e \<Rightarrow> refuse_with (DomainErr e) s1
                  | Inr parsed \<Rightarrow> create_parsed env r req ?i parsed s1))"
          by (simp only: serveBatchCreate_def slot body Some Let_def if_False sum.case option.case flip: req_def)
        obtain x s1 where c: "on_world (store_call False (\<lambda>env. ReadFileContent (Some (hr_ctx r 0)) ?i)) ((bd, w), wr) = (x, s1)"
          by (rule prod.exhaust)
        then obtain lk w1 where w1: "s1 = ((bd, w1), wr)" "w_up w1 = w_up w"
          "ReadFileContent (Some (hr_ctx r 0)) ?i (w_store w) = (x, w_store w1)"
          by (rule on_store_world)
        show ?thesis
        proof (cases "?i = []")
          case True
          with assms run r [of _ w] show ?thesis by simp
        next
          case False
          show ?thesis
          proof (cases x)
            case (Inl e)
            with assms run c False r w1 show ?thesis by simp
          next
            case raw: (Inr raw)
            show ?thesis
            proof (cases "ParseBatchJSONL (entry_bytes raw) (cq_endpoint req)")
              case (Inl e)
              with assms run c False raw r w1 show ?thesis by simp
            next
              case (Inr p)
              with assms run c False raw w1 read_content_facts [OF w1(3) [unfolded raw]] show ?thesis
                by (intro that(2) [of req p w1 raw]) simp_all
            qed
          qed
        qed
      qed
    qed
  qed
qed

lemma create_shows:
  assumes "serveBatchCreate env r ((bd, w), wr) = (res, ((bd', w'), wr'))"
    and "rw_sent wr = None" "rw_sent wr' = Some (200, h)"
  shows "\<exists>m. wr' = reply_batch m wr \<and> stored (w_store w') m"
  using assms(1)
proof (cases rule: serveBatchCreate_cases)
  case (1 e w1)
  then show ?thesis by (simp add: refused_status [OF assms(2,3)])
next
  case (2 req raw p w1)
  from create_parsed_shows [OF 2(1) assms(2,3)] show ?thesis .
qed

lemma retrieve_shows:
  assumes "serveBatchRetrieve env r i ((bd, w), wr) = (res, ((bd', w'), wr'))"
    and "rw_sent wr = None" "rw_sent wr' = Some (200, h)"
  shows "\<exists>m. wr' = reply_batch m wr \<and> (stored (w_store w) m \<or> stored (w_store w') m)"
proof -
  obtain x s1 where g0: "get_batch r i ((bd, w), wr) = (x, s1)" by (rule prod.exhaust)
  then obtain w1 where g: "s1 = ((bd, w1), wr)" "\<forall>m. x = Inr m \<longrightarrow> stored (w_store w) m"
    by (rule get_batch_stored)
  show ?thesis
  proof (cases x)
    case (Inl e)
    with assms g0 g(1) show ?thesis by (simp add: serveBatchRetrieve_def refused_status [OF assms(2,3)])
  next
    case (Inr m)
    let ?found = "reg_Backend (be_registry env) (m_backend_id m)"
    let ?bk = "case ?found of None \<Rightarrow> zero_backend | Some b \<Rightarrow> b"
    show ?thesis
    proof (cases "?found = None \<and> \<not> Terminal (m_status m)")
      case True
      with assms g0 g(1) Inr show ?thesis by (simp add: serveBatchRetrieve_def refused_status [OF assms(2,3)])
    next
      case False
      obtain q bd1 w2 where c: "Refresh (be_service env) (hop_ctx env r (m_backend_id m)) ?bk m (bd, w1) = (q, (bd1, w2))"
        by (rule pair_right)
      have run: "serveBatchRetrieve env r i ((bd, w), wr) =
          (case q of Panics \<Rightarrow> (Panics, ((bd1, w2), wr))
           | Returns (_, Some e) \<Rightarrow>
               if isBatchRefreshMiss (Some e) then answer (reply_batch m) ((bd1, w2), wr) else refuse_with e ((bd1, w2), wr)
           | Returns (u, None) \<Rightarrow> answer (reply_batch u) ((bd1, w2), wr))"
        using False c g0 g(1) Inr
        by (simp add: serveBatchRetrieve_def Let_def split: run.splits option.splits prod.splits)
      show ?thesis
      proof (cases q)
        case Panics
        with assms run show ?thesis by simp
      next
        case (Returns y)
        obtain u e where y: "y = (u, e)" by fastforce
        with assms run Returns Refresh_facts [OF c] g(2) [rule_format, OF Inr] show ?thesis
          by (cases e) (auto simp: refused_status [OF assms(2,3)] split: if_splits)
      qed
    qed
  qed
qed

lemma cancel_shows:
  assumes "serveBatchCancel env r i ((bd, w), wr) = (res, ((bd', w'), wr'))"
    and "rw_sent wr = None" "rw_sent wr' = Some (200, h)"
  shows "\<exists>m. wr' = reply_batch m wr \<and> (stored (w_store w) m \<or> stored (w_store w') m)"
proof -
  obtain x s1 where g0: "get_batch r i ((bd, w), wr) = (x, s1)" by (rule prod.exhaust)
  then obtain w1 where g: "s1 = ((bd, w1), wr)" "\<forall>m. x = Inr m \<longrightarrow> stored (w_store w) m"
    by (rule get_batch_stored)
  show ?thesis
  proof (cases x)
    case (Inl e)
    with assms g0 g(1) show ?thesis by (simp add: serveBatchCancel_def refused_status [OF assms(2,3)])
  next
    case (Inr m)
    show ?thesis
    proof (cases "reg_Backend (be_registry env) (m_backend_id m)")
      case None
      with assms g0 g(1) Inr show ?thesis by (simp add: serveBatchCancel_def refused_status [OF assms(2,3)])
    next
      case (Some bk)
      obtain u e bd1 w2 where c: "Cancel (be_service env) (hop_ctx env r (m_backend_id m)) bk m (bd, w1) = ((u, e), (bd1, w2))"
        by (rule pair_both)
      with assms g0 g(1) Inr Some g(2) show ?thesis
        by (cases e) (auto simp: serveBatchCancel_def refused_status [OF assms(2,3)] dest: Cancel_stored)
    qed
  qed
qed

lemma byID_shows:
  assumes "serveBatchByID env r ((bd, w), wr) = (res, ((bd', w'), wr'))"
    and "rw_sent wr = None" "rw_sent wr' = Some (200, h)"
  shows "\<exists>m. wr' = reply_batch m wr \<and> (stored (w_store w) m \<or> stored (w_store w') m)"
proof -
  let ?path = "trim_char (CHR ''/'') (trim_prefix (in_path r) pathBatchesPrefix)"
  let ?i = "trim_char (CHR ''/'') (trim_suffix ?path ''/cancel'')"
  consider "serveBatchCancel env r ?i ((bd, w), wr) = (res, ((bd', w'), wr'))"
    | "serveBatchRetrieve env r ?path ((bd, w), wr) = (res, ((bd', w'), wr'))"
    | ms where "wr' = writeMethodNotAllowed ms wr"
    using assms(1) by (auto simp: serveBatchByID_def Let_def split: if_splits)
  then show ?thesis
  proof cases
    case 1
    then show ?thesis by (rule cancel_shows) fact+
  next
    case 2
    then show ?thesis by (rule retrieve_shows) fact+
  next
    case 3
    with method_status(1) [OF assms(2)] assms(3) show ?thesis by simp
  qed
qed

lemma list_shows:
  assumes "serveBatchList env r ((bd, w), wr) = (res, ((bd', w'), wr'))"
    and "rw_sent wr = None" "rw_sent wr' = Some (200, h)"
  shows "\<exists>ms. wr' = writeJSON 200 (Some (marshal_batch_list ms)) wr \<and> (\<forall>m \<in> set ms. stored (w_store w) m)"
proof -
  obtain x s1 where c: "on_world (store_call False (\<lambda>env. ListBatches (\<lambda>k. Some (hr_ctx r k)))) ((bd, w), wr) = (x, s1)"
    by (rule prod.exhaust)
  then obtain lk w1 where w1: "s1 = ((bd, w1), wr)" "ListBatches (\<lambda>k. Some (hr_ctx r k)) (w_store w) = (x, w_store w1)"
    by (rule on_store_world) auto
  show ?thesis
  proof (cases x)
    case (Inl e)
    with assms c w1(1) show ?thesis by (simp add: serveBatchList_def refused_status [OF assms(2,3)])
  next
    case (Inr ms)
    have "\<forall>m \<in> set ms. stored (w_store w) m"
    proof (cases "w_store w")
      case None
      with w1(2) Inr show ?thesis by (simp add: ListBatches_def on_store_def Let_def)
    next
      case (Some s)
      from list_batches_stored [OF w1(2) [unfolded Inr Some]] Some show ?thesis by simp
    qed
    with assms c w1(1) Inr show ?thesis by (auto simp: serveBatchList_def)
  qed
qed

lemma reply_batch_body: "rw_sent w = None \<Longrightarrow> rw_body (reply_batch m w) = rw_body w @ marshal_public_batch (Public m) @ ''\<newline>''"
  by (simp add: reply_batch_def writeJSON_body)

section \<open>Properties\<close>

text \<open>C13: What the Batches API answers with a 200 is the public part of records of the store, of before or after the
  request: one for a create, a retrieve and a cancel, a list of them for a listing. No batch is invented and
  none is shown in a state it was never stored in.\<close>

theorem answered_batches_are_stored:
  assumes "(if by_id then serveBatchByID else serveBatches) env r ((bd, w), wr) = (res, ((bd', w'), wr'))"
    and "rw_sent wr = None" and "rw_sent wr' = Some (200, h)"
  shows "\<exists>ms text. rw_body wr' = rw_body wr @ text @ ''\<newline>'' \<and>
    (\<forall>m \<in> set ms. stored (w_store w) m \<or> stored (w_store w') m) \<and>
    (if \<not> by_id \<and> in_method r = ''GET'' then text = marshal_batch_list ms
     else \<exists>m. ms = [m] \<and> text = marshal_public_batch (Public m))"
proof -
  consider "serveBatchCreate env r ((bd, w), wr) = (res, ((bd', w'), wr'))" "by_id \<or> in_method r \<noteq> ''GET''"
    | "serveBatchList env r ((bd, w), wr) = (res, ((bd', w'), wr'))" "\<not> by_id \<and> in_method r = ''GET''"
    | "serveBatchByID env r ((bd, w), wr) = (res, ((bd', w'), wr'))" "by_id"
    | "wr' = writeMethodNotAllowed [''GET'', ''POST''] wr"
    using assms(1) by (auto simp: serveBatches_def split: if_splits)
  then consider m where "wr' = reply_batch m wr" "stored (w_store w) m \<or> stored (w_store w') m" "by_id \<or> in_method r \<noteq> ''GET''"
    | ms where "wr' = writeJSON 200 (Some (marshal_batch_list ms)) wr" "\<forall>m \<in> set ms. stored (w_store w) m"
        "\<not> by_id \<and> in_method r = ''GET''"
  proof cases
    case 1
    from create_shows [OF 1(1) assms(2,3)] that(1) 1(2) show ?thesis by blast
  next
    case 2
    from list_shows [OF 2(1) assms(2,3)] that(2) 2(2) show ?thesis by blast
  next
    case 3
    from byID_shows [OF 3(1) assms(2,3)] that(1) 3(2) show ?thesis by blast
  next
    case 4
    with method_status(1) [OF assms(2)] assms(3) show ?thesis by simp
  qed
  then show ?thesis
  proof cases
    case (1 m)
    with reply_batch_body [OF assms(2)] show ?thesis
      by (intro exI [of _ "[m]"] exI [of _ "marshal_public_batch (Public m)"]) auto
  next
    case (2 ms)
    with writeJSON_body [OF assms(2)] show ?thesis
      by (intro exI [of _ ms] exI [of _ "marshal_batch_list ms"]) simp
  qed
qed

section \<open>What a create submits\<close>

text \<open>A provider that writes down the jobs it is given.\<close>

definition noting :: "backend_def \<Rightarrow> 'u submitter \<Rightarrow> ('u \<times> (backend_def \<times> job) list) submitter" where
  "noting bk sub = \<lparr>
     sb_validate = sb_validate sub,
     sb_submit = (\<lambda>ctx job m (u, js). case sb_submit sub ctx job m u of (x, u') \<Rightarrow> (x, (u', js @ [(bk, job)]))),
     sb_poll = (\<lambda>ctx m (u, js). case sb_poll sub ctx m u of (x, u') \<Rightarrow> (x, (u', js))),
     sb_cancel = (\<lambda>ctx m (u, js). case sb_cancel sub ctx m u of (x, u') \<Rightarrow> (x, (u', js)))\<rparr>"

definition notes_jobs :: "('b, 'r, 'u \<times> (backend_def \<times> job) list) service \<Rightarrow> bool" where
  "notes_jobs svc \<longleftrightarrow> (\<forall>bk sub. sv_submitter svc bk = Inr sub \<longrightarrow> (\<exists>s. sub = noting bk s))"

abbreviation submits :: "('u \<times> (backend_def \<times> job) list) world \<Rightarrow> (backend_def \<times> job) list" where
  "submits w \<equiv> snd (w_up w)"

lemma noting_calls:
  "provider_calls (noting bk sub) job u ks u' \<Longrightarrow> snd u' = snd u @ map (\<lambda>_. (bk, job)) (filter (\<lambda>k. k = CallSubmit) ks)"
proof (induction rule: provider_calls.induct)
  case (call k u u1 ks u')
  have "snd u1 = snd u @ (if k = CallSubmit then [(bk, job)] else [])"
    using call(1) by (cases k; cases u; cases u1) (auto simp: noting_def split_beta)
  with call(3) show ?case by simp
qed simp

lemma Create_submits:
  assumes "notes_jobs svc" and "Create svc ctx req (bd, w) = (x, (bd', w'))"
  shows "submits w' = submits w \<or>
    submits w' = submits w @ [(cr_backend req, cr_job req)] \<and> HasCapability (cr_backend req) CapBatch"
proof (cases "sv_submitter svc (cr_backend req)")
  case (Inl e)
  with assms(2) show ?thesis by (auto simp: Create_def Let_def split: if_splits)
next
  case (Inr sub)
  with assms(1) obtain s where "sub = noting (cr_backend req) s" by (auto simp: notes_jobs_def)
  from Create_facts [OF assms(2) Inr [unfolded this]] obtain ks where
    "ks \<in> {[], [CallSubmit], [CallSubmit, CallCancel]}" "provider_calls (noting (cr_backend req) s) (cr_job req) (w_up w) ks (w_up w')"
    by blast
  moreover have "w' = w" if "\<not> HasCapability (cr_backend req) CapBatch"
    using assms(2) that by (simp add: Create_def Let_def)
  ultimately show ?thesis by (auto dest: noting_calls)
qed

text \<open>A job a create request may submit: its lines are those of an uploaded file that the request names, all
  for one model, which routes to the backend and the downstream model of the job and passes the backend's
  allow gate under its public name.\<close>

definition admitted_job :: "registry \<Rightarrow> store option \<Rightarrow> backend_def \<Rightarrow> job \<Rightarrow> bool" where
  "admitted_job reg st bk job \<longleftrightarrow>
     (\<exists>i s raw p b. st = Some s \<and> st_look s (file_content_path i) = Some raw \<and>
        ParseBatchJSONL (entry_bytes raw) (jb_endpoint job) = Inr p \<and> jb_lines job = pi_lines p \<and>
        reg_ResolveBatch reg (pi_model p) = Inr (b, jb_downstream job) \<and>
        reg_Backend reg b = Some bk \<and> HasCapability bk CapBatch \<and>
        ensureModelAllowed reg b
          (if CHR ''/'' \<in> set (pi_model p) then pi_model p else prefixModelID b (jb_downstream job)))"

lemma create_parsed_submits:
  assumes "notes_jobs (be_service env)"
    and "create_parsed env r req i p ((bd, w), wr) = (res, ((bd', w'), wr'))"
    and "submits w' \<noteq> submits w"
  shows "\<exists>b bk job. submits w' = submits w @ [(bk, job)] \<and> HasCapability bk CapBatch \<and>
    reg_ResolveBatch (be_registry env) (pi_model p) = Inr (b, jb_downstream job) \<and> reg_Backend (be_registry env) b = Some bk \<and>
    jb_endpoint job = cq_endpoint req \<and> jb_lines job = pi_lines p \<and>
    ensureModelAllowed (be_registry env) b
      (if CHR ''/'' \<in> set (pi_model p) then pi_model p else prefixModelID b (jb_downstream job))"
proof (cases "reg_ResolveBatch (be_registry env) (pi_model p)")
  case (Inl e)
  with assms(2,3) show ?thesis by (simp add: create_parsed_def refuse_with_def)
next
  case (Inr bd0)
  obtain b d where bd: "bd0 = (b, d)" by fastforce
  let ?m = "if CHR ''/'' \<in> set (pi_model p) then pi_model p else prefixModelID b d"
  show ?thesis
  proof (cases "ensureModelAllowed (be_registry env) b ?m \<and> reg_Backend (be_registry env) b \<noteq> None")
    case False
    with assms(2,3) Inr bd show ?thesis
      by (cases "reg_Backend (be_registry env) b") (auto simp: create_parsed_def refuse_with_def Let_def split: if_splits)
  next
    case True
    then obtain bk where bk: "reg_Backend (be_registry env) b = Some bk" by blast
    let ?req = "\<lparr>cr_backend = bk, cr_public_model = ?m, cr_input_file_id = i, cr_completion_window = cq_completion_window req,
       cr_job = \<lparr>jb_downstream = d, jb_endpoint = cq_endpoint req, jb_lines = pi_lines p\<rparr>\<rparr>"
    obtain q bd1 w1 where c: "Create (be_service env) (hop_ctx env r b) ?req (bd, w) = (q, (bd1, w1))" by (rule pair_right)
    have "w' = w1"
      using assms(2) True bk c Inr bd
      by (auto simp: create_parsed_def dial_failed_def Let_def split: run.splits option.splits prod.splits)
    with Create_submits [OF assms(1) c] assms(3) True bk Inr bd show ?thesis
      by (intro exI [of _ b] exI [of _ bk] exI [of _ "cr_job ?req"]) auto
  qed
qed

text \<open>C12: A request to create a batch submits at most one job, and that one is admitted: nothing else is sent to a
  provider, whatever the request says and however the store and the provider behave.\<close>

theorem one_admitted_submit_per_create:
  assumes "notes_jobs (be_service env)" and "serveBatchCreate env r ((bd, w), wr) = (res, ((bd', w'), wr'))"
  shows "submits w' = submits w \<or>
    (\<exists>bk job. submits w' = submits w @ [(bk, job)] \<and> admitted_job (be_registry env) (w_store w) bk job)"
  using assms(2)
proof (cases rule: serveBatchCreate_cases)
  case (1 e w1)
  then show ?thesis by (simp add: refuse_with_def)
next
  case (2 req raw p w1)
  show ?thesis
  proof (cases "submits w' = submits w1")
    case False
    from create_parsed_submits [OF assms(1) 2(1) False] 2(2-) show ?thesis
      by (fastforce simp: admitted_job_def)
  qed (use 2(2) in simp)
qed
section \<open>Uploading and downloading\<close>

lemma trim_char_none:
  assumes "c \<notin> set s"
  shows "trim_char c s = s"
proof -
  have d: "dropWhile (\<lambda>d. d = c) xs = xs" if "c \<notin> set xs" for xs :: string
    using that by (cases xs) auto
  then show ?thesis using assms by (simp add: trim_char_def trim_right_char_def)
qed

text \<open>The id in the path of a content request.\<close>

lemma content_path:
  assumes "i \<noteq> []" "CHR ''/'' \<notin> set i"
  shows "trim_char (CHR ''/'') (i @ ''/content'') = i @ ''/content''" and "trim_char (CHR ''/'') i = i"
    and "pathFilesPrefix @ t \<noteq> pathFiles"
proof -
  have "dropWhile (\<lambda>d. d = CHR ''/'') (i @ ''/content'') = i @ ''/content''"
    using assms by (cases i) auto
  then show "trim_char (CHR ''/'') (i @ ''/content'') = i @ ''/content''"
    by (simp add: trim_char_def trim_right_char_def)
qed (use assms(2) in \<open>simp_all add: trim_char_none pathFilesPrefix_def\<close>)

text \<open>A download of the file \<open>i\<close> from a state answers with the content.\<close>

definition downloads :: "('b, 'r, 'u) batches_env \<Rightarrow> ('b, 'u) svc_state \<Rightarrow> string \<Rightarrow> bytes \<Rightarrow> bool" where
  "downloads env st i content \<longleftrightarrow>
     (\<forall>r wr res st' wr'.
        in_method r = ''GET'' \<longrightarrow> in_path r = pathFilesPrefix @ i @ ''/content'' \<longrightarrow> ctx_err (hr_ctx r 0) = None \<longrightarrow>
        rw_sent wr = None \<longrightarrow> serveFiles env r (st, wr) = (res, (st', wr')) \<longrightarrow>
        (\<exists>h. rw_sent wr' = Some (200, h)) \<and> rw_body wr' = rw_body wr @ content)"

lemma reply_content_facts:
  "rw_sent w = None \<Longrightarrow> (\<exists>h. rw_sent (reply_content b w) = Some (200, h)) \<and> rw_body (reply_content b w) = rw_body w @ b"
  by (simp add: reply_content_def write_bytes_def set_header_def write_header_def Let_def)

lemma stored_content_downloads:
  assumes "i \<noteq> []" "CHR ''/'' \<notin> set i" and "w_store w = Some s"
    and "\<And>c. ctx_err c = None \<Longrightarrow> ReadFileContent (Some c) i (Some s) = (Inr (Raw content), Some s)"
  shows "downloads env (bd, w) i content"
  using assms(3,4) reply_content_facts
  by (auto simp: downloads_def serveFiles_def content_path [OF assms(1,2)] serveFileContent_def on_world_def store_call_def Let_def)

lemma SaveFile_new_id:
  assumes "SaveFile env ctx (Some rec0) content (Some s) = ((None, rec'), s'')"
    and "fr_id rec0 = []" "rand_text (st_rand s (st_drawn s))"
  shows "\<forall>rec. rec' = Some rec \<longrightarrow> checkID op (fr_id rec) = Inr (fr_id rec)"
proof -
  let ?fn = "\<lambda>s. let (rec1, s1) = prepareFileRecordLocked rec0 content s;
                     (e, s2) = saveFileUnlocked rec1 content s1
                 in ((e, Some rec1), s2)"
  obtain s' where w: "withWriteLock env ctx ''batch.SaveFile'' ?fn (Some rec0) s = ((None, rec'), s')"
    using assms(1) by (auto simp: SaveFile_def on_store_def split: prod.splits)
  have f: "?fn s = ((None, rec'), s')"
    by (rule withWriteLock_cases [of env ctx "''batch.SaveFile''" ?fn "Some rec0" s]) (use w in auto)
  obtain rec1 s1 where p: "prepareFileRecordLocked rec0 content s = (rec1, s1)" by fastforce
  with f have "rec' = Some rec1" by (auto split: prod.splits)
  with prepare_facts [OF p] assms(2,3) rand_text_id show ?thesis by auto
qed

text \<open>An upload that is taken is taken whole.\<close>

lemma upload_content_whole:
  assumes "upload_content form = Inr (p, content)"
  shows "trim_space (form_value ''purpose'' form) = FilePurposeBatch" "form_file ''file'' form = Inr p"
    "content = pt_bytes p" "pt_end p = None" "length (pt_bytes p) \<le> batchMaxInputBytes"
proof -
  have purpose: "trim_space (form_value ''purpose'' form) = FilePurposeBatch"
    using assms by (auto simp: upload_content_def Let_def split: if_splits)
  obtain q where q: "form_file ''file'' form = Inr q"
    using assms purpose by (cases "form_file ''file'' form") (simp_all add: upload_content_def Let_def)
  obtain c where c: "read_limited (batchMaxInputBytes + 1) q = Inr c"
    using assms purpose q by (cases "read_limited (batchMaxInputBytes + 1) q") (simp_all add: upload_content_def Let_def)
  have p: "q = p" "c = content" "length content \<le> batchMaxInputBytes"
    using assms purpose q c by (simp_all add: upload_content_def Let_def split: if_splits)
  have "content = pt_bytes p \<and> pt_end p = None"
  proof (cases "batchMaxInputBytes + 1 \<le> length (pt_bytes p)")
    case True
    with c p have "length content = batchMaxInputBytes + 1" by (auto simp: read_limited_def)
    with p(3) show ?thesis by simp
  next
    case False
    with c p(1,2) show ?thesis by (simp add: read_limited_def split: option.splits)
  qed
  with purpose q p show "trim_space (form_value ''purpose'' form) = FilePurposeBatch" "form_file ''file'' form = Inr p"
    "content = pt_bytes p" "pt_end p = None" "length (pt_bytes p) \<le> batchMaxInputBytes"
    by simp_all
qed

text \<open>C14: A file uploaded through the API with a 200 was sent for batches, was read to its end and is at most 10 MiB;
  the reply shows its record with its size, and a download of its id answers with exactly the uploaded bytes.\<close>

theorem uploaded_file_downloads:
  assumes "serveFileUpload env r ((bd, w), wr) = (res, ((bd', w'), wr'))"
    and "rw_sent wr = None" "rw_sent wr' = Some (200, h)"
    and "w_store w = Some s" "rand_text (st_rand s (st_drawn s))"
    and "w_store w' = Some s'" "st_faults s' = []"
  shows "\<exists>form p rec. be_multipart env (batchMaxInputBytes + 1048576) r = Inr form \<and>
    trim_space (form_value ''purpose'' form) = FilePurposeBatch \<and> form_file ''file'' form = Inr p \<and>
    pt_end p = None \<and> length (pt_bytes p) \<le> batchMaxInputBytes \<and> fr_bytes rec = int (length (pt_bytes p)) \<and>
    rw_body wr' = rw_body wr @ marshal_file_record rec @ ''\<newline>'' \<and> downloads env (bd', w') (fr_id rec) (pt_bytes p)"
proof (cases "be_multipart env (batchMaxInputBytes + 1048576) r")
  case (Inl e)
  with assms(1) show ?thesis by (simp add: serveFileUpload_def refused_status [OF assms(2,3)])
next
  case form: (Inr form)
  show ?thesis
  proof (cases "upload_content form")
    case (Inl e)
    with assms(1) form show ?thesis by (simp add: serveFileUpload_def refused_status [OF assms(2,3)])
  next
    case (Inr pc)
    obtain p content where pc: "pc = (p, content)" by fastforce
    let ?rec0 = "zero_file\<lparr>fr_filename := if trim_space (pt_filename p) \<noteq> [] then pt_filename p else ''batch.jsonl'',
      fr_purpose := FilePurposeBatch\<rparr>"
    obtain x s1 where c: "on_world (store_call False (\<lambda>env. SaveFile env (Some (hr_ctx r 0)) (Some ?rec0) content)) ((bd, w), wr) = (x, s1)"
      by (rule prod.exhaust)
    then obtain lk w1 where w1: "s1 = ((bd, w1), wr)" "SaveFile lk (Some (hr_ctx r 0)) (Some ?rec0) content (w_store w) = (x, w_store w1)"
      by (rule on_store_world) auto
    obtain e saved where x: "x = (e, saved)" by fastforce
    have e: "e = None"
      using assms(1) form Inr pc c x w1(1)
      by (cases e) (simp_all add: serveFileUpload_def Let_def refused_status [OF assms(2,3)])
    have out: "w' = w1" "wr' = writeJSON 200 (Some (case saved of None \<Rightarrow> ''null'' | Some rec \<Rightarrow> marshal_file_record rec)) wr"
      using assms(1) form Inr pc c x w1(1) e by (simp_all add: serveFileUpload_def Let_def)
    have save: "SaveFile lk (Some (hr_ctx r 0)) (Some ?rec0) content (Some s) = ((None, saved), Some s')"
      using w1(2) assms(4,6) x e out(1) by simp
    have id: "\<forall>rec. saved = Some rec \<longrightarrow> checkID [] (fr_id rec) = Inr (fr_id rec)"
      by (rule SaveFile_new_id [OF save _ assms(5)]) (simp add: zero_file_def)
    have ok: "\<forall>rec. saved = Some rec \<longrightarrow> list_all isIDRune (fr_id rec) \<and> trim_space (fr_id rec) = fr_id rec"
      using id by (auto dest!: checkID_chars simp: list_all_iff)
    have again: "\<exists>rec. saved = Some rec \<and> fr_bytes rec = int (length content) \<and>
        ReadFileContent (Some cx) (fr_id rec) (Some s') = (Inr (Raw content), Some s')" if "ctx_err cx = None" for cx
      using saved_file_reads_back [OF save ok assms(7) that] by blast
    from again [of alive] obtain rec where rec: "saved = Some rec" "fr_bytes rec = int (length content)"
      by (auto simp: alive_def)
    have read: "ReadFileContent (Some cx) (fr_id rec) (Some s') = (Inr (Raw content), Some s')" if "ctx_err cx = None" for cx
      using again [OF that] rec(1) by auto
    have n: "fr_id rec \<noteq> []" "CHR ''/'' \<notin> set (fr_id rec)"
      using id rec(1) checkID_chars checkID_no_slash by auto
    have d: "downloads env (bd', w') (fr_id rec) content"
      by (rule stored_content_downloads [OF n assms(6) read])
    note part = upload_content_whole [OF Inr [unfolded pc]]
    have "fr_bytes rec = int (length (pt_bytes p))" "downloads env (bd', w') (fr_id rec) (pt_bytes p)"
      using rec(2) d part(3) by simp_all
    moreover have "rw_body wr' = rw_body wr @ marshal_file_record rec @ ''\<newline>''"
      using out(2) rec(1) writeJSON_body [OF assms(2)] by simp
    ultimately show ?thesis using form part by blast
  qed
qed
section \<open>Sample runs\<close>

definition sample_form :: upload_form where
  "sample_form = \<lparr>uf_values = [(''purpose'', [''batch''])],
     uf_files = [(''file'', [\<lparr>pt_filename = ''in.jsonl'', pt_open = None, pt_bytes = ''{}'', pt_end = None\<rparr>])]\<rparr>"

definition sample_api_request :: "string \<Rightarrow> string \<Rightarrow> bytes \<Rightarrow> api_request" where
  "sample_api_request m p b = \<lparr>in_method = m, in_path = p, in_header = [], hr_body = Inr b, hr_ctx = \<lambda>_. alive\<rparr>"

definition sample_batches :: "registry \<Rightarrow> (count_breaker, nat, 'u) service \<Rightarrow> (count_breaker, nat, 'u) batches_env" where
  "sample_batches reg svc = \<lparr>be_registry = reg, be_service = svc, be_timeouts = DefaultTimeouts,
     be_multipart = \<lambda>_ _. Inr sample_form\<rparr>"

lemma save_quiet:
  assumes "fr_id rec0 = []" "rand_text (st_rand s (st_drawn s))" "st_faults s = []"
  shows "\<exists>rec s'. SaveFile free_lock (Some alive) (Some rec0) content (Some s) = ((None, Some rec), Some s') \<and> st_faults s' = []"
proof -
  obtain rec s1 where p: "prepareFileRecordLocked rec0 content s = (rec, s1)" by fastforce
  note f = prepare_facts [OF p]
  have q: "st_faults s1 = []" "checkID op (fr_id rec) = Inr (fr_id rec)" for op
    using f assms rand_text_id [OF assms(2)] by simp_all
  then show ?thesis
    by (simp add: SaveFile_def on_store_def withWriteLock_free p saveFileUnlocked_def write_entry_quiet)
qed

theorem uploaded_file_downloads_witness:
  "\<exists>res st' wr' i. serveFileUpload (sample_batches None (sample_service agreeable)) (sample_api_request ''POST'' pathFiles [])
       ((None, world_of (sample_store []) ()), fresh_writer) = (res, (st', wr')) \<and>
     downloads (sample_batches None (sample_service agreeable)) st' i ''{}''"
proof -
  let ?env = "sample_batches None (sample_service agreeable)" and ?r = "sample_api_request ''POST'' pathFiles []"
  let ?rec0 = "zero_file\<lparr>fr_filename := ''in.jsonl'', fr_purpose := FilePurposeBatch\<rparr>"
  have u: "upload_content sample_form = Inr (\<lparr>pt_filename = ''in.jsonl'', pt_open = None, pt_bytes = ''{}'', pt_end = None\<rparr>, ''{}'')"
    "trim_space ''in.jsonl'' \<noteq> []" "rand_text ''AAAA''" by code_simp+
  obtain rec s' where s: "SaveFile free_lock (Some alive) (Some ?rec0) ''{}'' (Some (sample_store [])) = ((None, Some rec), Some s')"
    "st_faults s' = []"
    using save_quiet [of ?rec0 "sample_store []" "''{}''"] u(3) by (auto simp: zero_file_def sample_store_def)
  let ?w = "(world_of (sample_store []) ())\<lparr>w_store := Some s', w_lockno := 1\<rparr>"
  let ?wr = "writeJSON 200 (Some (marshal_file_record rec)) fresh_writer"
  have run: "serveFileUpload ?env ?r ((None, world_of (sample_store []) ()), fresh_writer) = (Returns (), ((None, ?w), ?wr))"
    using u s by (simp add: serveFileUpload_def sample_batches_def sample_api_request_def on_world_def store_call_def Let_def world_of_def)
  obtain h where h: "rw_sent ?wr = Some (200, h)" using write_json_status [of fresh_writer] by (auto simp: fresh_writer_def)
  have part: "form_file ''file'' sample_form = Inr q \<Longrightarrow> pt_bytes q = ''{}''" for q
    by (auto simp: form_file_def sample_form_def)
  from uploaded_file_downloads [OF run _ h, of "sample_store []" s'] u s(2) run part show ?thesis
    by (fastforce simp: fresh_writer_def world_of_def sample_store_def sample_batches_def)
qed

theorem answered_batches_are_stored_witness:
  "\<exists>wr' ms text. snd (snd (serveBatchByID (sample_batches None (sample_service agreeable))
       (sample_api_request ''GET'' ''/v1/batches/batch_1'' []) ((None, world_of finished_store ()), fresh_writer))) = wr' \<and>
     rw_body wr' = text @ ''\<newline>'' \<and> (\<exists>m. ms = [m] \<and> text = marshal_public_batch (Public m) \<and> stored (Some finished_store) m)"
proof -
  let ?env = "sample_batches None (sample_service agreeable)" and ?r = "sample_api_request ''GET'' ''/v1/batches/batch_1'' []"
  let ?m = "sample_meta\<lparr>m_status := StatusCompleted, m_output_file_id := ''file_out''\<rparr>"
  have p: "trim_char (CHR ''/'') (trim_prefix ''/v1/batches/batch_1'' pathBatchesPrefix) = ''batch_1'' \<and>
    \<not> has_suffix ''batch_1'' ''/cancel''" by code_simp
  have g: "GetBatch (Some alive) ''batch_1'' (Some finished_store) = (Inr ?m, Some finished_store)"
    by (simp add: GetBatch_def on_store_def readable_def alive_def sample_check getBatch_quiet finished_store_def st_look_def look_def sample_store_def)
  let ?w = "(world_of finished_store ())\<lparr>w_lockno := 1\<rparr>" and ?wr = "reply_batch ?m fresh_writer"
  have run: "serveBatchByID ?env ?r ((None, world_of finished_store ()), fresh_writer) = (Returns (), ((None, ?w), ?wr))"
    using p g by (simp add: serveBatchByID_def serveBatchRetrieve_def get_batch_def on_world_def store_call_def world_of_def
        sample_api_request_def Refresh_def Terminal_def sample_batches_def Let_def)
  obtain h where h: "rw_sent ?wr = Some (200, h)"
    using write_json_status [of fresh_writer 200] by (auto simp: fresh_writer_def reply_batch_def)
  from answered_batches_are_stored [of True, simplified, OF run _ h] run show ?thesis
    by (auto simp: fresh_writer_def world_of_def)
qed

text \<open>A batch that is created: the input is uploaded, the model admitted, and the provider takes it.\<close>

definition batch_backend :: backend_def where
  "batch_backend = sample_gated\<lparr>bk_capabilities := [CapBatch], bk_models := None\<rparr>"

definition batch_registry :: registry where
  "batch_registry = Some (sample_gated_config\<lparr>rc_batch := \<lparr>cb_enabled = True, cb_default = ''or''\<rparr>,
     rc_backends := [(''or'', batch_backend)]\<rparr>)"

definition input_store :: store where
  "input_store = (sample_store [])\<lparr>st_disk := (st_disk (sample_store []))\<lparr>dk_files :=
     [(file_content_path ''file_in'', Raw sample_input)]\<rparr>\<rparr>"

definition noting_service :: "(count_breaker, nat, unit \<times> (backend_def \<times> job) list) service" where
  "noting_service = \<lparr>sv_api = count_api, sv_submitter = \<lambda>bk. Inr (noting bk agreeable), sv_encode_error = \<lambda>_. []\<rparr>"

definition create_text :: bytes where
  "create_text = ''{\"input_file_id\":\"file_in\",\"endpoint\":\"/v1/embeddings\"}''"

definition sample_creation :: "unit run \<times> (count_breaker, unit \<times> (backend_def \<times> job) list) http_state" where
  "sample_creation = serveBatchCreate (sample_batches batch_registry noting_service)
     (sample_api_request ''POST'' pathBatches create_text) ((None, world_of input_store ((), [])), fresh_writer)"

lemma sample_creation_facts:
  "EffectiveBatchBackend (loadCfg (Some batch_registry)) = ''or''"
  "unmarshal create_batch_fields zero_create create_text =
     Some \<lparr>cq_input_file_id = ''file_in'', cq_endpoint = EndpointEmbeddings, cq_completion_window = []\<rparr>"
  "read_request batchCreateMaxBody (Inr create_text) = Inr create_text"
  "reg_ResolveBatch batch_registry ''m'' = Inr (''or'', ''m'')"
  "ensureModelAllowed batch_registry ''or'' (prefixModelID ''or'' ''m'')"
  "reg_Backend batch_registry ''or'' = Some batch_backend"
  "HasCapability batch_backend CapBatch"
  "ExpiresAtUnix 0 ''24h'' = Inr 86400"
  by code_simp+
text \<open>Without breakers, a job that is valid and whose record is saved is submitted.\<close>

lemma saved_job_is_submitted:
  assumes "HasCapability (cr_backend req) CapBatch" "sv_submitter svc (cr_backend req) = Inr (noting (cr_backend req) s)"
    and "sb_validate s (cr_job req) = None" "svc_now w = (now, w1)" "ExpiresAtUnix now (cr_completion_window req) = Inr ex"
    and "store_call False (\<lambda>env. SaveBatch env ctx (Some (new_meta req now ex))) w1 = ((None, saved), w2)"
  shows "\<exists>x bd' w'. Create svc ctx req (None, w) = (x, (bd', w')) \<and> submits w' = submits w @ [(cr_backend req, cr_job req)]"
proof -
  let ?sub = "noting (cr_backend req) s"
  have v: "sb_validate ?sub (cr_job req) = None" using assms(3) by (simp add: noting_def)
  obtain x bd' w' m ks where c: "Create svc ctx req (None, w) = (x, (bd', w'))" "ks \<in> {[], [CallCancel]}"
    "provider_calls ?sub (cr_job req) (snd (sb_submit ?sub ctx (cr_job req) m (w_up w))) ks (w_up w')"
    using Create_runs_submit [OF assms(1,2) v assms(4-6)] by blast
  moreover have "snd (snd (sb_submit ?sub ctx (cr_job req) m (w_up w))) = submits w @ [(cr_backend req, cr_job req)]"
    by (cases "w_up w") (simp add: noting_def split_beta)
  ultimately show ?thesis by (auto dest: noting_calls)
qed

lemma sample_creation_submits:
  "\<exists>res bd' w' wr' job. sample_creation = (res, ((bd', w'), wr')) \<and> submits w' = [(batch_backend, job)]"
proof -
  let ?env = "sample_batches batch_registry noting_service" and ?r = "sample_api_request ''POST'' pathBatches create_text"
  let ?w = "world_of input_store ((), [])" and ?p = "\<lparr>pi_endpoint = EndpointEmbeddings, pi_model = ''m'',
    pi_lines = [\<lparr>il_custom_id = ''a'', il_method = ''post'', il_url = EndpointEmbeddings,
      il_body = ''{\"model\":\"m\",\"input\":1}''\<rparr>]\<rparr>"
  let ?w1 = "?w\<lparr>w_lockno := 1\<rparr>"
  let ?req = "\<lparr>cr_backend = batch_backend, cr_public_model = prefixModelID ''or'' ''m'', cr_input_file_id = ''file_in'',
    cr_completion_window = ''24h'', cr_job = \<lparr>jb_downstream = ''m'', jb_endpoint = EndpointEmbeddings, jb_lines = pi_lines ?p\<rparr>\<rparr>"
  note f = sample_creation_facts
  have t: "trim_space ''file_in'' = ''file_in''" "checkID op (newID ''batch'' ''AAAA'') = Inr (newID ''batch'' ''AAAA'')" for op
    using checkID_chars [OF sample_check(2)] by simp (simp add: checkID_def Let_def, code_simp)
  have content: "ReadFileContent (Some alive) ''file_in'' (Some input_store) = (Inr (Raw sample_input), Some input_store)"
    by (simp add: ReadFileContent_def on_store_def readable_def alive_def sample_check read_entry_quiet input_store_def
        sample_store_def st_look_def look_def Let_def)
  have save: "\<exists>saved s'. SaveBatch free_lock (Some c) (Some (new_meta ?req 0 86400)) (Some input_store) = ((None, saved), Some s')" for c
    by (simp add: SaveBatch_def on_store_def new_meta_def zero_meta_def draw_id_def unixNow_def input_store_def sample_store_def
        Let_def withWriteLock_free writeBatchMeta_def t(2) write_entry_quiet)
  obtain c where c: "hop_ctx ?env ?r ''or'' = Some c" by (simp add: hop_ctx_def)
  obtain saved s' where s: "SaveBatch free_lock (Some c) (Some (new_meta ?req 0 86400)) (Some input_store) = ((None, saved), Some s')"
    using save by blast
  have "\<exists>x bd' w'. Create noting_service (Some c) ?req (None, ?w1) = (x, (bd', w')) \<and>
      submits w' = submits ?w1 @ [(cr_backend ?req, cr_job ?req)]"
    by (rule saved_job_is_submitted [of ?req noting_service agreeable ?w1 0 "?w1\<lparr>w_ticks := 1\<rparr>" 86400 "Some c" saved])
      (use f(7,8) s in \<open>auto simp: noting_service_def agreeable_def svc_now_def world_of_def store_call_def\<close>)
  then obtain x bd' w' where cr: "Create noting_service (Some c) ?req (None, ?w1) = (x, (bd', w'))"
    "submits w' = [(batch_backend, cr_job ?req)]"
    by (auto simp: world_of_def)
  have "sample_creation = create_parsed ?env ?r \<lparr>cq_input_file_id = ''file_in'', cq_endpoint = EndpointEmbeddings,
      cq_completion_window = ''24h''\<rparr> ''file_in'' ?p ((None, ?w1), fresh_writer)"
    using f(1,2,3) t(1) content sample_input_accepted
    by (simp add: sample_creation_def serveBatchCreate_def sample_batches_def sample_api_request_def on_world_def store_call_def
        world_of_def Let_def)
  moreover have "fst (fst (snd (create_parsed ?env ?r \<lparr>cq_input_file_id = ''file_in'', cq_endpoint = EndpointEmbeddings,
      cq_completion_window = ''24h''\<rparr> ''file_in'' ?p ((None, ?w1), fresh_writer)))) = bd' \<and>
    snd (fst (snd (create_parsed ?env ?r \<lparr>cq_input_file_id = ''file_in'', cq_endpoint = EndpointEmbeddings,
      cq_completion_window = ''24h''\<rparr> ''file_in'' ?p ((None, ?w1), fresh_writer)))) = w'"
    using f(4,5,6) c cr(1)
    by (simp add: create_parsed_def sample_batches_def dial_failed_def answer_def Let_def split: run.splits option.splits prod.splits)
  ultimately show ?thesis using cr(2) by (metis prod.collapse)
qed

theorem one_admitted_submit_per_create_witness:
  "\<exists>res bd' w' wr' job. sample_creation = (res, ((bd', w'), wr')) \<and> submits w' = [(batch_backend, job)] \<and>
     admitted_job batch_registry (Some input_store) batch_backend job"
proof -
  obtain res bd' w' wr' job where r: "sample_creation = (res, ((bd', w'), wr'))" "submits w' = [(batch_backend, job)]"
    using sample_creation_submits by blast
  have "notes_jobs (be_service (sample_batches batch_registry noting_service))"
    by (auto simp: notes_jobs_def sample_batches_def noting_service_def)
  from one_admitted_submit_per_create [OF this r(1) [unfolded sample_creation_def]] r show ?thesis
    by (auto simp: sample_batches_def world_of_def)
qed
section \<open>A padded endpoint\<close>

text \<open>The input is checked against the endpoint without the white space around it, but the job carries the
  endpoint as it was sent. A padded endpoint is therefore accepted with the very same lines and refused
  afterwards: by the Claude submitter before anything is stored, by the Workers AI client in the submit, when
  the record of the batch is already in the store.\<close>

theorem padded_endpoint_is_refused_late:
  assumes "trim_space e = EndpointChatCompletions" "e \<noteq> EndpointChatCompletions"
    and "ParseBatchJSONL raw EndpointChatCompletions = Inr p"
  shows "ParseBatchJSONL raw e = Inr p \<and>
    sb_validate (claudeSubmitter cb bk) \<lparr>jb_downstream = d, jb_endpoint = e, jb_lines = pi_lines p\<rparr> \<noteq> None \<and>
    (\<exists>err. translateBatchRequests e (pi_lines p) = Returns (Inl err))"
proof -
  have "trim_space EndpointEmbeddings \<noteq> EndpointChatCompletions \<and> trim_space EndpointChatCompletions = EndpointChatCompletions"
    by code_simp
  with assms(1) have e: "e \<noteq> EndpointEmbeddings" and c: "trim_space EndpointChatCompletions = EndpointChatCompletions" by auto
  from ParseBatchJSONL_ok [OF assms(3)] have "pi_lines p \<noteq> []" by auto
  then have "\<exists>err. translateBatchRequests e (pi_lines p) = Returns (Inl err)"
    using assms(2) e by (cases "pi_lines p") simp_all
  with assms c show ?thesis by (simp add: ParseBatchJSONL_def claudeSubmitter_def Let_def)
qed

definition chat_input :: bytes where
  "chat_input = ''{\"custom_id\":\"a\",\"method\":\"POST\",\"url\":\"/v1/chat/completions\",'' @
     ''\"body\":{\"model\":\"m\",\"messages\":[]}}''"

theorem padded_endpoint_is_refused_late_witness:
  "\<exists>p e. ParseBatchJSONL chat_input (EndpointChatCompletions @ '' '') = Inr p \<and>
    translateBatchRequests (EndpointChatCompletions @ '' '') (pi_lines p) = Returns (Inl e)"
proof -
  have t: "trim_space (EndpointChatCompletions @ '' '') = EndpointChatCompletions" by code_simp
  have "(case ParseBatchJSONL chat_input EndpointChatCompletions of Inl _ \<Rightarrow> False | Inr _ \<Rightarrow> True)" by code_simp
  then obtain p where p: "ParseBatchJSONL chat_input EndpointChatCompletions = Inr p" by (auto split: sum.splits)
  from padded_endpoint_is_refused_late [OF t _ p] show ?thesis by simp blast
qed

end
