(* ===== verification/Spec2Isabelle.thy ===== *)
theory Spec2Isabelle
  imports Breakers Router_Config Provider_Transport Models_Catalog Router_Client Batch_Http
begin

text \<open>
  A verification development for Polypus, a gateway in Go that serves one OpenAI-compatible API over
  several model providers.

  \<^bold>\<open>The program.\<close> \<open>cmd/\<close> and \<open>internal/cli\<close> read a YAML configuration (\<open>internal/config\<close>) and start an
  HTTP server (\<open>internal/gateway\<close>). A request passes the access protector (\<open>access.go\<close>, over the key
  store of \<open>internal/admin/keys\<close>), then the route table (\<open>server.go\<close>, \<open>apicatalog.go\<close>). A chat request
  names a model, a backend's model (\<open>backend/model\<close>) or a named router; the registry
  (\<open>internal/gateway/router/registry.go\<close>) maps it to a backend and a downstream model, the allow lists
  decide whether it may be used, and the call goes to the provider under a circuit breaker per upstream
  (\<open>internal/gateway/upstream\<close>) with a time budget (\<open>timeouts.go\<close>). Batches are kept in files
  (\<open>internal/batch\<close>) and sent to a provider by one of three submitters (\<open>internal/gateway/batches\<close>)
  through the provider clients (\<open>internal/clients\<close>) and the outbound seam with its retries
  (\<open>internal/outbound\<close>). Model lists are merged from all backends with a cache per backend. An operator
  may allow a model at run time, which is also written to an overlay file.

  \<^bold>\<open>Theories.\<close> From the bottom up; a definition has the name of the Go function or type, with the
  receiver as a prefix where a bare name would clash.

  \<^item> \<open>Prelude\<close>, \<open>Durations\<close>, \<open>Encodings\<close>, \<open>Json\<close>, \<open>Json_Values\<close>: byte strings, Go maps as association
    lists, \<open>time.Duration\<close> with its wrap-around, base64 and hexadecimal, and the part of \<open>encoding/json\<close>
    the code uses, as texts, trees and untyped values. \<open>Json_Values\<close> proves that what is encoded decodes
    to the same value.
  \<^item> \<open>Errors\<close> (\<open>internal/errors\<close>), \<open>Rate_Limit\<close> (\<open>internal/ratelimit\<close>), \<open>Timeouts\<close>
    (\<open>config/timeouts.go\<close>): error trees and their codes, the classification of upstream answers, hop
    budgets and their bounds.
  \<^item> \<open>Breakers\<close> (\<open>gateway/upstream\<close>): \<open>Execute\<close> runs a call under the breaker of its upstream.
  \<^item> \<open>Backends\<close>, \<open>Named_Routers\<close>, \<open>Router_Config\<close> (\<open>internal/config\<close>): the configuration from its
    decoded YAML to the validated one, with the model gates.
  \<^item> \<open>Statefile\<close> (\<open>internal/statefile\<close>), \<open>Batch_Core\<close>, \<open>Batch_Store\<close> (\<open>internal/batch\<close>): atomic
    replacement as a machine of system calls that may fail or be cut off anywhere, the lock beside a file,
    the records of batches, and every operation of the store.
  \<^item> \<open>Http_Client\<close>, \<open>Batch_Clients\<close>, \<open>Outbound\<close>, \<open>Provider_Transport\<close>, \<open>Catalog_Clients\<close>
    (\<open>internal/clients\<close>, \<open>internal/outbound\<close>): what is sent to providers and how often.
  \<^item> \<open>Batch_Submitters\<close>, \<open>Batch_Service\<close> (\<open>gateway/batches\<close>): the three providers behind one interface, and
    the life of a batch over store, breakers, clock and provider.
  \<^item> \<open>Batch_Http\<close> (\<open>gateway/batch.go\<close>, \<open>files.go\<close>): the handlers of the Batches and Files API over both, with
    the texts of their replies.
  \<^item> \<open>Access_Keys\<close> (\<open>internal/admin/keys\<close>), \<open>Access\<close> (\<open>gateway/access.go\<close>): the key file and the decision
    whether a request enters.
  \<^item> \<open>Registry\<close>, \<open>Allow_Admin\<close> (\<open>gateway/router\<close>, \<open>admin_allow.go\<close>): routing to a backend, and allowing a
    model while requests run.
  \<^item> \<open>Responses\<close>, \<open>Gateway_Routes\<close>, \<open>Models_Catalog\<close> (\<open>gateway\<close>): error replies, the route table, the
    model lists.
  \<^item> \<open>Chat_Body\<close>, \<open>Chat_Stream\<close>, \<open>Chat\<close> (\<open>gateway\<close>): the body of a chat request, the stream a client
    reads, and the handlers of chat completions, named routers and embeddings.
  \<^item> \<open>Backend_Policy\<close>, \<open>Router_Client\<close> (\<open>gateway/router\<close>): the hosts a backend may have, the providers and
    settings handed to the library Bifrost, the calls of chat and embeddings through it, and the errors its
    failures become. \<open>chat_client_of\<close> is the client the handlers of \<open>Chat\<close> run on.

  \<^bold>\<open>State and steps.\<close> A handler is a function of its inputs and of an explicit state that it returns: the
  board of breakers, and a world with the disk, the response writer, the clock or what else it touches. A
  failure is a value: \<open>goerr option\<close> for an \<open>error\<close>, \<open>goerr + 'a\<close> for a result with one, and \<open>run\<close> where
  Go may panic. Where others may run in between, the model says so: \<open>wa_step\<close> and \<open>crash_leaves\<close>
  (a crash of \<open>WriteAtomic\<close> after any system call, and what it does to data and renames that were not
  synced), \<open>other_step\<close> (what the store serves between two finalisations), the order in which the backends
  are asked for their models (\<open>fetch_all\<close>), \<open>am_step\<close> (callers of \<open>AllowModel\<close> over one pointer),
  \<open>meddle\<close> (other processes
  that replace the key file between two system calls), and the call run under a breaker, which may change
  the board.

  \<^bold>\<open>What the lemmas show.\<close> The properties are marked C1 to C40.
  Chat: at most one provider call, and only an admitted one; every request answered; which provider failures
  count against a backend; the body forwarded intact; nothing after the end of a choice; errors of a stream attributed to who caused them.
  Breakers and outbound: when a breaker opens and that it is transparent otherwise; no paid request is
  repeated; no response body is left open. Configuration: a configuration that normalises serves what it
  enables, and budgets are within bounds. Batches: files are replaced whole, a batch
  is finalised once unless its record is overwritten, no
  referenced file is deleted, a create submits at most one admitted job over at most one HTTP request, replies
  show stored records, and uploads download unchanged. Access: what reaches the gateway, and what the
  operations on keys leave. Routing and lists: routes lead to capable backends, concurrent allows
  linearise, lists show only what is admitted. Some properties state what the code does where that is not
  what it means to do; they say so in their text.

  \<^bold>\<open>Parameters.\<close> Code that is not in the repository is an argument of the definitions that use it. What is
  relied on has a name: \<open>failsafe_contract\<close> (a breaker opens after its threshold of consecutive failures and
  not before, and refuses for its delay) and \<open>executor_contract\<close> (the retry executor runs no
  more attempts than the policy has, each further one only when the policy retries the last, and hands back the
  last result) for failsafe-go; \<open>digest_law\<close> (a SHA-256 digest has 32 bytes); the parsers of HTTP dates, URLs and default paths as functions with no law; the texts of decode
  errors. YAML is taken as the decoded value. Random numbers, clocks, file faults and lock answers are
  lists or functions supplied from outside, so that a property holds for all of them; \<open>honest\<close>,
  \<open>honest_disk\<close> and \<open>honest_faults\<close> name supplies without failures. The handlers of chat take their client as the record
  \<open>chat_client\<close>, which \<open>Router_Client\<close> implements over the record \<open>bifrost\<close>; \<open>records\<close> and \<open>logs\<close> say that
  the calls are logged, \<open>plain_bifrost\<close> and \<open>plain_breaker\<close> that the libraries do not themselves return the
  gateway's own tag of a written response (from which \<open>plain_client\<close> follows). Each of these is instantiated in a witness.

  \<^bold>\<open>Bounds.\<close> Recursion is structural or has a measure; the JSON parser recurses on the length of its
  input, which is enough by its guards. The loops of the program have proved bounds: 9 steps of \<open>WriteAtomic\<close>, 3001 attempts at a lock (its deadline over its
  poll), 4 attempts of \<open>Do\<close>, at most \<open>2n(n+1)\<close> steps of \<open>n\<close> concurrent calls of \<open>AllowModel\<close>. A stream is the list of what
  its loop receives; a stream that has not ended is the result \<open>None\<close>, not a missing one.

  \<^bold>\<open>Not modelled.\<close> Logging, metrics and spans; the expansion of environment placeholders and YAML decoding;
  the command line, deployment and smoke tests (\<open>internal/cli\<close>, \<open>internal/deploy\<close>, \<open>internal/smoke\<close>), which
  drive processes and containers; the start of the library Bifrost and its speech, decision and
  message batch calls (\<open>gateway/router\<close>), whose conversions are not in the repository; the handlers of speech,
  System One, health and debugging, which wrap parts that are modelled; the pages of \<open>landing.go\<close>, the reverse proxies; the
  renderer of Switchyard's route file; the catalogs that page through one provider's
  model list.
\<close>

end
